(* ===== verification/PatchouliPrelude.thy ===== *)
theory PatchouliPrelude
  imports Main "HOL-Library.Word"
begin

text \<open>
  Shared vocabulary of the development: Python strings and byte strings, results with an
  error branch, decimal formatting and parsing, and database tables as lists of rows.

  A Python \<open>str\<close> is a list of Unicode code points, a \<open>bytes\<close> value a list of 8-bit
  words. A function that can raise returns a sum, \<open>Inl\<close> the exception.
\<close>

named_theorems result_simps "equations and equivalences for computations that can raise"
named_theorems table_simps "lookup, insertion and update on tables of rows"

type_synonym pystr = "nat list"
type_synonym byte = "8 word"
type_synonym bytes = "byte list"

section \<open>Computations that can raise\<close>

fun bindR :: "'e + 'a \<Rightarrow> ('a \<Rightarrow> 'e + 'b) \<Rightarrow> 'e + 'b" where
  "bindR (Inl e) f = Inl e"
| "bindR (Inr x) f = f x"

definition requireR :: "bool \<Rightarrow> 'e \<Rightarrow> 'e + unit" where
  "requireR c e = (if c then Inr () else Inl e)"

fun mapE :: "('e \<Rightarrow> 'f) \<Rightarrow> 'e + 'a \<Rightarrow> 'f + 'a" where
  "mapE h (Inl e) = Inl (h e)"
| "mapE h (Inr x) = Inr x"

definition optionR :: "'e \<Rightarrow> 'a option \<Rightarrow> 'e + 'a" where
  "optionR e x = (case x of None \<Rightarrow> Inl e | Some y \<Rightarrow> Inr y)"

lemma bindR_Inr_iff [result_simps]:
  "bindR r f = Inr y \<longleftrightarrow> (\<exists>x. r = Inr x \<and> f x = Inr y)"
  by (cases r) auto

lemma bindR_Inl_iff:
  "bindR r f = Inl e \<longleftrightarrow> r = Inl e \<or> (\<exists>x. r = Inr x \<and> f x = Inl e)"
  by (cases r) auto

lemma bindR_assoc: "bindR (bindR r f) g = bindR r (\<lambda>x. bindR (f x) g)"
  by (cases r) auto

lemma requireR_Inr [result_simps]: "requireR c e = Inr u \<longleftrightarrow> c"
  by (simp add: requireR_def)

lemma requireR_Inl: "requireR c e = Inl e' \<longleftrightarrow> \<not> c \<and> e' = e"
  by (auto simp: requireR_def)

lemma requireR_True [simp]: "requireR True e = Inr ()"
  by (simp add: requireR_def)

lemma requireR_False [simp]: "requireR False e = Inl e"
  by (simp add: requireR_def)

lemma mapE_Inr [result_simps]: "mapE h r = Inr x \<longleftrightarrow> r = Inr x"
  by (cases r) auto

lemma optionR_Inr [result_simps]: "optionR e x = Inr y \<longleftrightarrow> x = Some y"
  by (auto simp: optionR_def split: option.splits)

lemma optionR_Some [simp]: "optionR e (Some y) = Inr y"
  by (simp add: optionR_def)

lemma optionR_None [simp]: "optionR e None = Inl e"
  by (simp add: optionR_def)

section \<open>Python strings\<close>

text \<open>\<open>lit\<close> turns an ASCII literal of this text into a Python string.\<close>

definition lit :: "string \<Rightarrow> pystr" where
  "lit s = map of_char s"

definition slice :: "nat \<Rightarrow> nat \<Rightarrow> 'a list \<Rightarrow> 'a list" where
  "slice i j xs = take (j - i) (drop i xs)"

definition is_digit :: "nat \<Rightarrow> bool" where
  "is_digit c \<longleftrightarrow> 48 \<le> c \<and> c \<le> 57"

definition is_lower :: "nat \<Rightarrow> bool" where
  "is_lower c \<longleftrightarrow> 97 \<le> c \<and> c \<le> 122"

definition is_upper :: "nat \<Rightarrow> bool" where
  "is_upper c \<longleftrightarrow> 65 \<le> c \<and> c \<le> 90"

definition is_lower_hex :: "nat \<Rightarrow> bool" where
  "is_lower_hex c \<longleftrightarrow> is_digit c \<or> (97 \<le> c \<and> c \<le> 102)"

text \<open>\<open>str.isspace\<close> of one character, which is also what \<open>str.strip\<close> removes and \<open>\\s\<close> matches.\<close>

definition is_space :: "nat \<Rightarrow> bool" where
  "is_space c \<longleftrightarrow>
     (if c < 128 then (9 \<le> c \<and> c \<le> 13) \<or> (28 \<le> c \<and> c \<le> 32)
      else c = 133 \<or> c = 160 \<or> c = 5760
        \<or> (8192 \<le> c \<and> c \<le> 8202) \<or> c \<in> {8232, 8233, 8239, 8287, 12288})"

text \<open>\<open>s == s.strip()\<close>\<close>

definition is_stripped :: "pystr \<Rightarrow> bool" where
  "is_stripped s \<longleftrightarrow> s = [] \<or> (\<not> is_space (hd s) \<and> \<not> is_space (last s))"

definition isascii :: "pystr \<Rightarrow> bool" where
  "isascii s \<longleftrightarrow> list_all (\<lambda>c. c < 128) s"

section \<open>Decimal numbers\<close>

text \<open>\<open>str(n)\<close>, the format \<open>f"{n:0wd}"\<close> and \<open>int(s)\<close> for ASCII digits.\<close>

fun dec_str :: "nat \<Rightarrow> pystr" where
  "dec_str n = (if n < 10 then [48 + n] else dec_str (n div 10) @ [48 + n mod 10])"

declare dec_str.simps [simp del]

definition fmt_dec :: "nat \<Rightarrow> nat \<Rightarrow> pystr" where
  "fmt_dec w n = replicate (w - length (dec_str n)) 48 @ dec_str n"

definition parse_dec :: "pystr \<Rightarrow> nat" where
  "parse_dec s = foldl (\<lambda>a c. 10 * a + (c - 48)) 0 s"

lemma parse_dec_Nil [simp]: "parse_dec [] = 0"
  by (simp add: parse_dec_def)

lemma parse_dec_snoc [simp]: "parse_dec (s @ [c]) = 10 * parse_dec s + (c - 48)"
  by (simp add: parse_dec_def)

lemma parse_dec_append: "parse_dec (s @ t) = parse_dec s * 10 ^ length t + parse_dec t"
proof (induction t rule: rev_induct)
  case Nil
  then show ?case by simp
next
  case (snoc c t)
  have "parse_dec (s @ t @ [c]) = parse_dec ((s @ t) @ [c])" by simp
  also have "\<dots> = 10 * parse_dec (s @ t) + (c - 48)" by (simp only: parse_dec_snoc)
  finally show ?case using snoc by simp
qed

lemma parse_dec_zeros [simp]: "parse_dec (replicate k 48) = 0"
proof (induction k)
  case 0
  then show ?case by simp
next
  case (Suc k)
  have "parse_dec (replicate (Suc k) 48) = parse_dec (replicate k 48 @ [48])"
    by (simp only: replicate_append_same replicate_Suc)
  then show ?case using Suc by simp
qed

lemma parse_dec_dec_str [simp]: "parse_dec (dec_str n) = n"
proof (induction n rule: dec_str.induct)
  case (1 n)
  show ?case
  proof (cases "n < 10")
    case True
    then show ?thesis by (simp add: dec_str.simps [of n] parse_dec_def)
  next
    case False
    with 1 have ih: "parse_dec (dec_str (n div 10)) = n div 10" by simp
    have "dec_str n = dec_str (n div 10) @ [48 + n mod 10]"
      using False by (simp add: dec_str.simps [of n])
    then show ?thesis using ih by simp
  qed
qed

lemma parse_fmt_dec [simp]: "parse_dec (fmt_dec w n) = n"
  by (simp add: fmt_dec_def parse_dec_append)

lemma dec_str_digits: "list_all is_digit (dec_str n)"
proof (induction n rule: dec_str.induct)
  case (1 n)
  show ?case
    using 1 pos_mod_bound [of 10 "int n"]
    by (subst dec_str.simps) (auto simp: is_digit_def [of "48 + k" for k] less_Suc_eq_le [symmetric])
qed

lemma fmt_dec_digits: "list_all is_digit (fmt_dec w n)"
  using dec_str_digits [of n] by (auto simp: fmt_dec_def list_all_iff is_digit_def)

lemma dec_str_not_Nil [simp]: "dec_str n \<noteq> []"
  by (subst dec_str.simps) simp

lemma length_dec_str_le: "0 < w \<Longrightarrow> n < 10 ^ w \<Longrightarrow> length (dec_str n) \<le> w"
proof (induction w arbitrary: n)
  case 0
  then show ?case by simp
next
  case (Suc w)
  show ?case
  proof (cases "n < 10")
    case True
    then show ?thesis by (subst dec_str.simps) simp
  next
    case False
    then have w: "0 < w" using Suc.prems by (cases w) auto
    have "n div 10 < 10 ^ w" using Suc.prems(2) by (simp add: less_mult_imp_div_less mult.commute)
    then have "length (dec_str (n div 10)) \<le> w" using Suc.IH w by blast
    then show ?thesis using False by (subst dec_str.simps) simp
  qed
qed

lemma length_fmt_dec: "0 < w \<Longrightarrow> n < 10 ^ w \<Longrightarrow> length (fmt_dec w n) = w"
  using length_dec_str_le [of w n] by (simp add: fmt_dec_def)

lemma dec_str_inj: "dec_str m = dec_str n \<Longrightarrow> m = n"
  by (metis parse_dec_dec_str)

lemma dec_str_hd: "0 < n \<Longrightarrow> hd (dec_str n) \<noteq> 48"
proof (induction n rule: dec_str.induct)
  case (1 n)
  show ?case
  proof (cases "n < 10")
    case True
    then show ?thesis using 1(2) by (simp add: dec_str.simps [of n])
  next
    case False
    then have "hd (dec_str (n div 10)) \<noteq> 48" using 1 by simp
    then show ?thesis using False by (simp add: dec_str.simps [of n])
  qed
qed

lemma find_single: "filter P xs = [x] \<Longrightarrow> find P xs = Some x"
  by (induction xs) (auto split: if_splits)

end
