(* ===== verification/Utf8.thy ===== *)
theory Utf8
  imports PatchouliPrelude
begin

text \<open>
  Python's strict UTF-8 codec and \<open>bytes.hex\<close>, which the identifier, file and search
  code calls. Encoding fails on a surrogate, decoding on every sequence that is not the
  encoding of a scalar value; the two are inverse.
\<close>

definition is_surrogate :: "nat \<Rightarrow> bool" where
  "is_surrogate c \<longleftrightarrow> 0xD800 \<le> c \<and> c \<le> 0xDFFF"

definition is_scalar :: "nat \<Rightarrow> bool" where
  "is_scalar c \<longleftrightarrow> c < 0x110000 \<and> \<not> is_surrogate c"

text \<open>Evaluated with the ASCII code points decided first.\<close>

lemma is_surrogate_code [code]:
  "is_surrogate c \<longleftrightarrow> (if c < 128 then False else 0xD800 \<le> c \<and> c \<le> 0xDFFF)"
  by (simp add: is_surrogate_def)

lemma is_scalar_code [code]:
  "is_scalar c \<longleftrightarrow> (if c < 128 then True else c < 0x110000 \<and> \<not> is_surrogate c)"
  by (simp add: is_scalar_def is_surrogate_def)

text \<open>The unit values of one code point, then of a text; bytes are their 8-bit words.\<close>

definition cp_units :: "nat \<Rightarrow> nat list" where
  "cp_units c =
     (if c < 0x80 then [c]
      else if c < 0x800 then [0xC0 + c div 64, 0x80 + c mod 64]
      else if c < 0x10000 then [0xE0 + c div 4096, 0x80 + c div 64 mod 64, 0x80 + c mod 64]
      else [0xF0 + c div 262144, 0x80 + c div 4096 mod 64, 0x80 + c div 64 mod 64,
            0x80 + c mod 64])"

definition is_cont :: "nat \<Rightarrow> bool" where
  "is_cont b \<longleftrightarrow> 0x80 \<le> b \<and> b < 0xC0"

definition accept :: "bool \<Rightarrow> nat \<Rightarrow> pystr option \<Rightarrow> pystr option" where
  "accept ok c rest = (if ok then map_option (Cons c) rest else None)"

fun decode_units :: "nat list \<Rightarrow> pystr option" where
  "decode_units [] = Some []"
| "decode_units (a # bs) =
     (if a < 0x80 then accept True a (decode_units bs)
      else if a < 0xC0 then None
      else if a < 0xE0 then
        (case bs of b # r \<Rightarrow>
           (let c = (a - 0xC0) * 64 + (b - 0x80) in accept (is_cont b \<and> 0x80 \<le> c) c (decode_units r))
         | _ \<Rightarrow> None)
      else if a < 0xF0 then
        (case bs of b # b' # r \<Rightarrow>
           (let c = (a - 0xE0) * 4096 + (b - 0x80) * 64 + (b' - 0x80)
            in accept (is_cont b \<and> is_cont b' \<and> 0x800 \<le> c \<and> \<not> is_surrogate c) c (decode_units r))
         | _ \<Rightarrow> None)
      else if a < 0xF8 then
        (case bs of b # b' # b'' # r \<Rightarrow>
           (let c = (a - 0xF0) * 262144 + (b - 0x80) * 4096 + (b' - 0x80) * 64 + (b'' - 0x80)
            in accept (is_cont b \<and> is_cont b' \<and> is_cont b'' \<and> 0x10000 \<le> c \<and> c < 0x110000) c
                 (decode_units r))
         | _ \<Rightarrow> None)
      else None)"

definition utf8_encode :: "pystr \<Rightarrow> bytes option" where
  "utf8_encode s =
     (if list_all is_scalar s then Some (map of_nat (concat (map cp_units s))) else None)"

definition utf8_decode :: "bytes \<Rightarrow> pystr option" where
  "utf8_decode bs = decode_units (map unat bs)"

text \<open>\<open>bytes.hex()\<close>.\<close>

definition hex_digit :: "nat \<Rightarrow> nat" where
  "hex_digit n = (if n < 10 then 48 + n else 87 + n)"

definition hex_bytes :: "bytes \<Rightarrow> pystr" where
  "hex_bytes bs = concat (map (\<lambda>b. [hex_digit (unat b div 16), hex_digit (unat b mod 16)]) bs)"

section \<open>Round trip\<close>

lemma unat_of_nat_byte: "n < 256 \<Longrightarrow> unat (of_nat n :: byte) = n"
  by (simp add: unat_of_nat)

lemma unat_byte_less: "unat (b :: byte) < 256"
  using unsigned_less [of b, where 'a = nat] by simp

lemma map_unat_of_nat_byte: "list_all (\<lambda>u. u < 256) us \<Longrightarrow> map (unat \<circ> (of_nat :: nat \<Rightarrow> byte)) us = us"
  by (induction us) (simp_all add: unat_of_nat_byte)

lemma map_of_nat_unat_byte: "map ((of_nat :: nat \<Rightarrow> byte) \<circ> unat) bs = bs"
  by (induction bs) simp_all

lemma div_mod_64: "(c :: nat) div 64 * 64 + c mod 64 = c"
  by simp

lemma cp_units_byte: "is_scalar c \<Longrightarrow> list_all (\<lambda>u. u < 256) (cp_units c)"
  by (auto simp: cp_units_def is_scalar_def)

lemma split_units:
  fixes c :: nat
  shows "c div 4096 * 4096 + c div 64 mod 64 * 64 + c mod 64 = c"
    and "c div 262144 * 262144 + c div 4096 mod 64 * 4096 + c div 64 mod 64 * 64 + c mod 64 = c"
proof -
  have 1: "c div 64 = c div 4096 * 64 + c div 64 mod 64"
    using div_mult_mod_eq [of "c div 64" 64] by (simp add: div_mult2_eq [symmetric])
  have 2: "c div 4096 = c div 262144 * 64 + c div 4096 mod 64"
    using div_mult_mod_eq [of "c div 4096" 64] by (simp add: div_mult2_eq [symmetric])
  have 3: "c = c div 64 * 64 + c mod 64" by simp
  show "c div 4096 * 4096 + c div 64 mod 64 * 64 + c mod 64 = c" using 1 3 by linarith
  show "c div 262144 * 262144 + c div 4096 mod 64 * 4096 + c div 64 mod 64 * 64 + c mod 64 = c"
    using 1 2 3 by linarith
qed

lemma decode_cp_units:
  assumes "is_scalar c"
  shows "decode_units (cp_units c @ r) = map_option (Cons c) (decode_units r)"
proof -
  have b: "c < 0x110000" "\<not> is_surrogate c" using assms by (auto simp: is_scalar_def)
  have m: "is_cont (0x80 + n mod 64)" for n by (simp add: is_cont_def)
  consider "c < 0x80" | "0x80 \<le> c" "c < 0x800" | "0x800 \<le> c" "c < 0x10000" | "0x10000 \<le> c"
    by linarith
  then show ?thesis
  proof cases
    case 1
    then show ?thesis by (simp add: cp_units_def accept_def)
  next
    case 2
    then have "c div 64 < 32" by simp
    with 2 m show ?thesis by (simp add: cp_units_def accept_def Let_def)
  next
    case 3
    then have "c div 4096 < 16" by simp
    with 3 m b split_units(1) [of c] show ?thesis by (simp add: cp_units_def accept_def Let_def)
  next
    case 4
    then have "c div 262144 < 8" using b by simp
    with 4 m b split_units(2) [of c] show ?thesis by (simp add: cp_units_def accept_def Let_def)
  qed
qed

lemma decode_concat_units:
  "list_all is_scalar s \<Longrightarrow> decode_units (concat (map cp_units s)) = Some s"
  by (induction s) (simp_all add: decode_cp_units del: decode_units.simps(2))

theorem utf8_decode_encode: "utf8_encode s = Some bs \<Longrightarrow> utf8_decode bs = Some s"
proof -
  assume e: "utf8_encode s = Some bs"
  then have s: "list_all is_scalar s" and bs: "bs = map of_nat (concat (map cp_units s))"
    by (auto simp: utf8_encode_def split: if_splits)
  have "list_all (\<lambda>u. u < 256) (concat (map cp_units s))"
    using s cp_units_byte by (auto simp: list_all_iff)
  then have "map unat bs = concat (map cp_units s)"
    unfolding bs map_map by (rule map_unat_of_nat_byte)
  then show ?thesis by (simp add: utf8_decode_def decode_concat_units s)
qed

lemma utf8_encode_inj: "utf8_encode s = Some bs \<Longrightarrow> utf8_encode t = Some bs \<Longrightarrow> s = t"
  by (metis utf8_decode_encode option.inject)

text \<open>A decoded text encodes back to the same bytes, so decoding is injective too.\<close>

lemma accept_Some: "accept ok c rest = Some s \<longleftrightarrow> ok \<and> (\<exists>t. rest = Some t \<and> s = c # t)"
  by (auto simp: accept_def)

lemma shifted_byte:
  fixes a :: nat
  assumes "k \<le> a" "a < k + n"
  obtains x where "a = k + x" "x < n"
  using assms le_Suc_ex [of k a] by auto

lemma shift_div_mod:
  fixes x y :: nat
  assumes "y < 64"
  shows "(x * 64 + y) div 64 = x" "(x * 64 + y) mod 64 = y"
  using assms by simp_all

lemma cp_units_of_2:
  assumes "0xC0 \<le> a" "a < 0xE0" "is_cont b"
    and c: "c = (a - 0xC0) * 64 + (b - 0x80)" "0x80 \<le> c"
  shows "cp_units c = [a, b]"
proof -
  obtain x where x: "a = 0xC0 + x" "x < 32" using shifted_byte [of "0xC0" a 32] assms by auto
  obtain y where y: "b = 0x80 + y" "y < 64"
    using shifted_byte [of "0x80" b 64] assms by (auto simp: is_cont_def)
  have cc: "c = x * 64 + y" using c x y by simp
  have "c < 0x800" using x y unfolding cc by simp
  then show ?thesis
    using c(2) shift_div_mod [OF y(2), of x] x y unfolding cc by (simp add: cp_units_def)
qed

lemma cp_units_of_3:
  assumes "0xE0 \<le> a" "a < 0xF0" "is_cont b" "is_cont b'"
    and c: "c = (a - 0xE0) * 4096 + (b - 0x80) * 64 + (b' - 0x80)" "0x800 \<le> c"
  shows "cp_units c = [a, b, b']"
proof -
  obtain x where x: "a = 0xE0 + x" "x < 16" using shifted_byte [of "0xE0" a 16] assms by auto
  obtain y where y: "b = 0x80 + y" "y < 64"
    using shifted_byte [of "0x80" b 64] assms by (auto simp: is_cont_def)
  obtain z where z: "b' = 0x80 + z" "z < 64"
    using shifted_byte [of "0x80" b' 64] assms by (auto simp: is_cont_def)
  have cc: "c = (x * 64 + y) * 64 + z" using c x y z by simp
  have d: "c div 64 = x * 64 + y" "c mod 64 = z"
    unfolding cc by (rule shift_div_mod [OF z(2)])+
  have "c div 4096 = c div 64 div 64" by (simp add: div_mult2_eq [symmetric])
  then have e: "c div 4096 = x" "c div 64 mod 64 = y"
    using shift_div_mod [OF y(2), of x] d by simp_all
  have "c < 0x10000" using x y z unfolding cc by simp
  then show ?thesis using c(2) d e x y z by (simp add: cp_units_def)
qed

lemma cp_units_of_4:
  assumes "0xF0 \<le> a" "a < 0xF8" "is_cont b" "is_cont b'" "is_cont b''"
    and c: "c = (a - 0xF0) * 262144 + (b - 0x80) * 4096 + (b' - 0x80) * 64 + (b'' - 0x80)"
      "0x10000 \<le> c"
  shows "cp_units c = [a, b, b', b'']"
proof -
  obtain x where x: "a = 0xF0 + x" "x < 8" using shifted_byte [of "0xF0" a 8] assms by auto
  obtain y where y: "b = 0x80 + y" "y < 64"
    using shifted_byte [of "0x80" b 64] assms by (auto simp: is_cont_def)
  obtain z where z: "b' = 0x80 + z" "z < 64"
    using shifted_byte [of "0x80" b' 64] assms by (auto simp: is_cont_def)
  obtain w where w: "b'' = 0x80 + w" "w < 64"
    using shifted_byte [of "0x80" b'' 64] assms by (auto simp: is_cont_def)
  have cc: "c = ((x * 64 + y) * 64 + z) * 64 + w" using c x y z w by simp
  have d: "c div 64 = (x * 64 + y) * 64 + z" "c mod 64 = w"
    unfolding cc by (rule shift_div_mod [OF w(2)])+
  have "c div 4096 = c div 64 div 64" "c div 262144 = c div 64 div 64 div 64"
    by (simp_all add: div_mult2_eq [symmetric])
  then have e: "c div 4096 = x * 64 + y" "c div 262144 = x" "c div 64 mod 64 = z"
    using shift_div_mod [OF z(2), of "x * 64 + y"] shift_div_mod [OF y(2), of x] d by simp_all
  then have "c div 4096 mod 64 = y" using shift_div_mod [OF y(2), of x] by simp
  then show ?thesis using c(2) d e x y z w by (simp add: cp_units_def)
qed

lemma decode_units_sound:
  "decode_units us = Some s \<Longrightarrow> list_all is_scalar s \<and> concat (map cp_units s) = us"
proof (induction us arbitrary: s rule: decode_units.induct)
  case 1
  then show ?case by simp
next
  case (2 a bs)
  consider "a < 0x80" | "0x80 \<le> a" "a < 0xC0" | "0xC0 \<le> a" "a < 0xE0" | "0xE0 \<le> a" "a < 0xF0"
    | "0xF0 \<le> a" "a < 0xF8" | "0xF8 \<le> a" by linarith
  then show ?case
  proof cases
    case 1
    then show ?thesis using 2(1,5)
      by (auto simp: accept_Some is_scalar_def is_surrogate_def cp_units_def)
  next
    case 3
    then show ?thesis using 2(2,5)
      by (auto simp: accept_Some Let_def is_scalar_def is_surrogate_def cp_units_of_2 is_cont_def
          split: list.splits)
  next
    case 4
    then show ?thesis using 2(3,5)
      by (auto simp: accept_Some Let_def is_scalar_def cp_units_of_3 split: list.splits)
        (auto simp: is_cont_def)
  next
    case 5
    then show ?thesis using 2(4,5)
      by (auto simp: accept_Some Let_def is_scalar_def is_surrogate_def cp_units_of_4
          split: list.splits)
  qed (use 2(5) in auto)
qed

theorem utf8_encode_decode: "utf8_decode bs = Some s \<Longrightarrow> utf8_encode s = Some bs"
proof -
  assume "utf8_decode bs = Some s"
  then have "list_all is_scalar s" "concat (map cp_units s) = map unat bs"
    using decode_units_sound unfolding utf8_decode_def by blast+
  then show ?thesis by (simp add: utf8_encode_def map_of_nat_unat_byte)
qed

lemma utf8_encode_defined: "(\<exists>bs. utf8_encode s = Some bs) \<longleftrightarrow> list_all is_scalar s"
  by (auto simp: utf8_encode_def)

section \<open>Hexadecimal\<close>

lemma hex_digit_lower_hex: "n < 16 \<Longrightarrow> is_lower_hex (hex_digit n)"
  by (auto simp: hex_digit_def is_lower_hex_def is_digit_def)

lemma hex_digit_inj: "m < 16 \<Longrightarrow> n < 16 \<Longrightarrow> hex_digit m = hex_digit n \<Longrightarrow> m = n"
  by (auto simp: hex_digit_def split: if_splits)

lemma length_hex_bytes [simp]: "length (hex_bytes bs) = 2 * length bs"
  by (induction bs) (simp_all add: hex_bytes_def)

lemma hex_bytes_lower_hex: "list_all is_lower_hex (hex_bytes bs)"
proof (induction bs)
  case (Cons b bs)
  have "unat b div 16 < 16" using unat_byte_less [of b] by simp
  then show ?case using Cons by (simp add: hex_bytes_def hex_digit_lower_hex)
qed (simp add: hex_bytes_def)

lemma hex_bytes_inj: "hex_bytes bs = hex_bytes cs \<Longrightarrow> bs = cs"
proof (induction bs arbitrary: cs)
  case Nil
  then show ?case by (cases cs) (simp_all add: hex_bytes_def)
next
  case (Cons b bs)
  then obtain c cs' where cs: "cs = c # cs'" by (cases cs) (simp_all add: hex_bytes_def)
  have lt: "unat b div 16 < 16" "unat c div 16 < 16"
    using unat_byte_less [of b] unat_byte_less [of c] by simp_all
  have h: "hex_digit (unat b div 16) = hex_digit (unat c div 16)"
    "hex_digit (unat b mod 16) = hex_digit (unat c mod 16)" "hex_bytes bs = hex_bytes cs'"
    using Cons.prems by (simp_all add: cs hex_bytes_def)
  then have "unat b div 16 = unat c div 16" "unat b mod 16 = unat c mod 16"
    using lt hex_digit_inj by simp_all
  then have "unat b = unat c" by (metis div_mult_mod_eq)
  then have "b = c" by (simp add: word_unat_eq_iff)
  then show ?case using h(3) Cons.IH cs by simp
qed

end
