(* ===== verification/Tokens.thy ===== *)
theory Tokens
  imports Utf8
begin

text \<open>
  Opaque bearer tokens: \<open>patchouli_lib/auth/tokens.py\<close>. A component is unpadded base64url in its
  one canonical spelling; a token is the prefix, the selector and the secret. The digest and the
  drawn bytes are parameters.
\<close>

datatype token_error = InvalidToken | TokenGeneration

record parsed_token =
  pt_version :: int
  pt_selector :: pystr
  pt_verifier :: bytes

record issued_token =
  it_value :: pystr
  it_parsed :: parsed_token

definition TOKEN_VERSION :: int where "TOKEN_VERSION = 1"
definition TOKEN_PREFIX :: pystr where "TOKEN_PREFIX = lit ''plb1''"
definition SELECTOR_BYTES :: nat where "SELECTOR_BYTES = 16"
definition SECRET_BYTES :: nat where "SECRET_BYTES = 32"
definition VERIFIER_BYTES :: nat where "VERIFIER_BYTES = 32"
definition SELECTOR_ENCODED_LENGTH :: nat where "SELECTOR_ENCODED_LENGTH = 22"
definition SECRET_ENCODED_LENGTH :: nat where "SECRET_ENCODED_LENGTH = 43"
definition TOKEN_ENCODED_LENGTH :: nat where
  "TOKEN_ENCODED_LENGTH =
     length TOKEN_PREFIX + 1 + SELECTOR_ENCODED_LENGTH + 1 + SECRET_ENCODED_LENGTH"
definition VERIFIER_DOMAIN :: bytes where
  "VERIFIER_DOMAIN = map of_nat (lit ''patchouli-lib:opaque-bearer-token:v1'') @ [0]"
definition unknown_selector_verifier :: "(bytes \<Rightarrow> bytes) \<Rightarrow> bytes" where
  "unknown_selector_verifier sha =
     sha (map of_nat (lit ''patchouli-lib:opaque-bearer-token:unknown-selector:v1''))"

section \<open>Base64\<close>

text \<open>\<open>urlsafe_b64encode\<close> without its padding: six bits a character, three bytes at a time.\<close>

definition b64_char :: "nat \<Rightarrow> nat" where
  "b64_char n =
     (if n < 26 then 65 + n else if n < 52 then 71 + n else if n < 62 then n - 4
      else if n = 62 then 45 else 95)"

fun b64_sextets :: "nat list \<Rightarrow> nat list" where
  "b64_sextets [] = []"
| "b64_sextets [a] = [a div 4, a mod 4 * 16]"
| "b64_sextets [a, b] = [a div 4, a mod 4 * 16 + b div 16, b mod 16 * 4]"
| "b64_sextets (a # b # c # r) =
     (a div 4) # (a mod 4 * 16 + b div 16) # (b mod 16 * 4 + c div 64) # (c mod 64)
       # b64_sextets r"

definition encode_component :: "bytes \<Rightarrow> pystr" where
  "encode_component v = map b64_char (b64_sextets (map unat v))"

text \<open>\<open>b64decode(..., altchars=b"-_", validate=True)\<close> of a text completed with its padding: the two
  alternative characters are translated to \<open>+\<close> and \<open>/\<close>, which stay accepted, anything else outside
  the alphabet is an error, and so is a lone last character. The bits left over at the end are
  dropped.\<close>

definition b64_value :: "nat \<Rightarrow> nat option" where
  "b64_value c =
     (if is_upper c then Some (c - 65) else if is_lower c then Some (c - 71)
      else if is_digit c then Some (c + 4) else if c = 45 \<or> c = 43 then Some 62
      else if c = 95 \<or> c = 47 then Some 63 else None)"

fun b64_values :: "pystr \<Rightarrow> nat list option" where
  "b64_values [] = Some []"
| "b64_values (c # cs) =
     (case (b64_value c, b64_values cs) of (Some v, Some vs) \<Rightarrow> Some (v # vs) | _ \<Rightarrow> None)"

fun b64_octets :: "nat list \<Rightarrow> nat list option" where
  "b64_octets [] = Some []"
| "b64_octets [a] = None"
| "b64_octets [a, b] = Some [a * 4 + b div 16]"
| "b64_octets [a, b, c] = Some [a * 4 + b div 16, b mod 16 * 16 + c div 4]"
| "b64_octets (a # b # c # d # r) =
     map_option (\<lambda>x. (a * 4 + b div 16) # (b mod 16 * 16 + c div 4) # (c mod 4 * 64 + d) # x)
       (b64_octets r)"

definition decode_component :: "pystr \<Rightarrow> nat \<Rightarrow> token_error + bytes" where
  "decode_component v expected_bytes =
     (case (if isascii v then b64_values v else None) of
        None \<Rightarrow> Inl InvalidToken
      | Some vs \<Rightarrow>
          (case b64_octets vs of
             None \<Rightarrow> Inl InvalidToken
           | Some decoded \<Rightarrow>
               let d = map of_nat decoded in
               if length d \<noteq> expected_bytes \<or> encode_component d \<noteq> v then Inl InvalidToken
               else Inr d))"

section \<open>Tokens\<close>

definition derive_verifier :: "(bytes \<Rightarrow> bytes) \<Rightarrow> bytes \<Rightarrow> bytes \<Rightarrow> bytes" where
  "derive_verifier sha selector secret = sha (VERIFIER_DOMAIN @ selector @ secret)"

definition is_canonical_selector :: "pystr \<Rightarrow> bool" where
  "is_canonical_selector v \<longleftrightarrow>
     length v = SELECTOR_ENCODED_LENGTH
     \<and> (case decode_component v SELECTOR_BYTES of Inl e \<Rightarrow> False | Inr b \<Rightarrow> True)"

definition generate_token :: "(bytes \<Rightarrow> bytes) \<Rightarrow> bytes \<Rightarrow> bytes \<Rightarrow> token_error + issued_token" where
  "generate_token sha selector secret =
     (if length selector \<noteq> SELECTOR_BYTES \<or> length secret \<noteq> SECRET_BYTES then Inl TokenGeneration
      else Inr \<lparr>it_value = TOKEN_PREFIX @ lit ''.'' @ encode_component selector @ lit ''.''
                  @ encode_component secret,
                it_parsed = \<lparr>pt_version = TOKEN_VERSION, pt_selector = encode_component selector,
                             pt_verifier = derive_verifier sha selector secret\<rparr>\<rparr>)"

text \<open>\<open>value.split(".")\<close>\<close>

fun split_on :: "nat \<Rightarrow> pystr \<Rightarrow> pystr list" where
  "split_on c [] = [[]]"
| "split_on c (x # xs) =
     (if x = c then [] # split_on c xs
      else case split_on c xs of [] \<Rightarrow> [[x]] | p # ps \<Rightarrow> (x # p) # ps)"

definition parse_token :: "(bytes \<Rightarrow> bytes) \<Rightarrow> pystr \<Rightarrow> token_error + parsed_token" where
  "parse_token sha v =
     (if length v \<noteq> TOKEN_ENCODED_LENGTH then Inl InvalidToken
      else case split_on 46 v of
        [prefix, encoded_selector, encoded_secret] \<Rightarrow>
          if prefix \<noteq> TOKEN_PREFIX \<or> length encoded_selector \<noteq> SELECTOR_ENCODED_LENGTH
             \<or> length encoded_secret \<noteq> SECRET_ENCODED_LENGTH
          then Inl InvalidToken
          else
            bindR (decode_component encoded_selector SELECTOR_BYTES) (\<lambda>selector.
            bindR (decode_component encoded_secret SECRET_BYTES) (\<lambda>secret.
            Inr \<lparr>pt_version = TOKEN_VERSION, pt_selector = encoded_selector,
                 pt_verifier = derive_verifier sha selector secret\<rparr>))
      | _ \<Rightarrow> Inl InvalidToken)"

text \<open>Both sides of the comparison fall back to the digest of an unknown selector.\<close>

definition verify_token :: "(bytes \<Rightarrow> bytes) \<Rightarrow> parsed_token \<Rightarrow> bytes option \<Rightarrow> bool" where
  "verify_token sha parsed stored_verifier =
     (let presented_is_valid = (pt_version parsed = TOKEN_VERSION
            \<and> is_canonical_selector (pt_selector parsed)
            \<and> length (pt_verifier parsed) = VERIFIER_BYTES);
          presented = (if presented_is_valid then pt_verifier parsed
                       else unknown_selector_verifier sha);
          stored_is_valid = (case stored_verifier of None \<Rightarrow> False
                             | Some s \<Rightarrow> length s = VERIFIER_BYTES);
          expected = (case stored_verifier of None \<Rightarrow> unknown_selector_verifier sha
                      | Some s \<Rightarrow> if length s = VERIFIER_BYTES then s
                                 else unknown_selector_verifier sha);
          matches = (presented = expected)
      in presented_is_valid \<and> stored_is_valid \<and> matches)"

section \<open>The encoding and its inverse\<close>

lemma b64_value_char [simp]: "n < 64 \<Longrightarrow> b64_value (b64_char n) = Some n"
  by (auto simp: b64_value_def b64_char_def is_upper_def is_lower_def is_digit_def)

lemma b64_char_ascii: "n < 64 \<Longrightarrow> b64_char n < 128 \<and> b64_char n \<noteq> 46"
  by (auto simp: b64_char_def)

lemma b64_sextets_bound: "list_all (\<lambda>a. a < 256) xs \<Longrightarrow> list_all (\<lambda>a. a < 64) (b64_sextets xs)"
  by (induction xs rule: b64_sextets.induct) (auto simp: less_mult_imp_div_less)

lemma b64_values_chars: "list_all (\<lambda>a. a < 64) vs \<Longrightarrow> b64_values (map b64_char vs) = Some vs"
  by (induction vs) auto

lemma shifted:
  "x < 16 \<Longrightarrow> (y * 16 + x) div 16 = (y :: nat)" "x < 16 \<Longrightarrow> (y * 16 + x) mod 16 = x"
  "x < 4 \<Longrightarrow> (y * 4 + x) div 4 = y" "x < 4 \<Longrightarrow> (y * 4 + x) mod 4 = x"
  by simp_all

lemma sextet_parts:
  "(a :: nat) < 256 \<Longrightarrow> a div 16 < 16" "a < 256 \<Longrightarrow> a div 64 < 4"
  by (simp_all add: less_mult_imp_div_less)

lemma b64_octets_sextets:
  "list_all (\<lambda>a. a < 256) xs \<Longrightarrow> b64_octets (b64_sextets xs) = Some xs"
proof (induction xs rule: b64_sextets.induct)
  case (4 a b c r)
  then have lt: "b < 256" "c < 256" and ih: "b64_octets (b64_sextets r) = Some r" by auto
  have "a div 4 * 4 + (a mod 4 * 16 + b div 16) div 16 = a"
    using shifted(1) [OF sextet_parts(1) [OF lt(1)]] by simp
  moreover have "(a mod 4 * 16 + b div 16) mod 16 * 16 + (b mod 16 * 4 + c div 64) div 4 = b"
    using shifted(2) [OF sextet_parts(1) [OF lt(1)]] shifted(3) [OF sextet_parts(2) [OF lt(2)]] by simp
  moreover have "(b mod 16 * 4 + c div 64) mod 4 * 64 + c mod 64 = c"
    using shifted(4) [OF sextet_parts(2) [OF lt(2)]] by simp
  ultimately show ?case using ih by (simp only: b64_sextets.simps b64_octets.simps option.map)
next
  case (3 a b)
  then have lt: "b < 256" by simp
  have "a div 4 * 4 + (a mod 4 * 16 + b div 16) div 16 = a"
    using shifted(1) [OF sextet_parts(1) [OF lt]] by simp
  moreover have "(a mod 4 * 16 + b div 16) mod 16 * 16 + b mod 16 * 4 div 4 = b"
    using shifted(2) [OF sextet_parts(1) [OF lt]] by simp
  ultimately show ?case by (simp only: b64_sextets.simps b64_octets.simps)
qed simp_all

lemma length_b64_sextets: "length (b64_sextets xs) = (4 * length xs + 2) div 3"
  by (induction xs rule: b64_sextets.induct) auto

lemma bytes_bound: "list_all (\<lambda>a. a < 256) (map unat (v :: bytes))"
  by (simp add: list_all_iff unat_byte_less)

lemma map_of_nat_unat [simp]: "map of_nat (map unat (v :: bytes)) = v"
  by (simp add: map_idI)

lemma encode_ascii: "isascii (encode_component v)" "46 \<notin> set (encode_component v)"
  using b64_sextets_bound [OF bytes_bound, of v] b64_char_ascii
  by (auto simp: encode_component_def isascii_def list_all_iff)

lemma decode_encode: "decode_component (encode_component v) (length v) = Inr v"
proof -
  have "b64_values (encode_component v) = Some (b64_sextets (map unat v))"
    unfolding encode_component_def by (rule b64_values_chars [OF b64_sextets_bound [OF bytes_bound]])
  then show ?thesis
    using b64_octets_sextets [OF bytes_bound, of v]
    by (simp add: decode_component_def encode_ascii del: map_map)
qed

lemma decode_Inr: "decode_component v n = Inr d \<longleftrightarrow> length d = n \<and> v = encode_component d"
proof
  show "length d = n \<and> v = encode_component d" if "decode_component v n = Inr d"
    using that by (auto simp: decode_component_def Let_def split: option.splits if_splits)
  show "decode_component v n = Inr d" if "length d = n \<and> v = encode_component d"
    using that decode_encode [of d] by simp
qed

lemma encode_component_inj: "encode_component a = encode_component b \<Longrightarrow> length a = length b \<Longrightarrow> a = b"
  by (metis decode_encode sum.inject(2))

lemma length_encode_component: "length (encode_component v) = (4 * length v + 2) div 3"
  by (simp add: encode_component_def length_b64_sextets)

section \<open>Parsing\<close>

lemma split_on_nonempty [simp]: "split_on c s \<noteq> []"
  by (induction s) (auto split: list.splits)

lemma split_on_free: "c \<notin> set s \<Longrightarrow> split_on c s = [s]"
  by (induction s) auto

lemma split_on_append: "c \<notin> set s \<Longrightarrow> split_on c (s @ c # t) = s # split_on c t"
  by (induction s) auto

lemma split_on_concat: "concat (map (\<lambda>p. p @ [c]) (butlast (split_on c s))) @ last (split_on c s) = s"
proof (induction s)
  case (Cons x s)
  obtain p ps where e: "split_on c s = p # ps" by (cases "split_on c s") auto
  show ?case using Cons unfolding e by (cases "x = c"; cases ps) (simp_all add: e)
qed simp

lemma split_on_join: "split_on c s = [a, b, d] \<Longrightarrow> s = a @ c # b @ c # d"
proof -
  assume e: "split_on c s = [a, b, d]"
  show "s = a @ c # b @ c # d" using split_on_concat [of c s] unfolding e by simp
qed

definition token_text :: "bytes \<Rightarrow> bytes \<Rightarrow> pystr" where
  "token_text selector secret =
     TOKEN_PREFIX @ lit ''.'' @ encode_component selector @ lit ''.'' @ encode_component secret"

lemma parse_token_text:
  assumes "length selector = 16" "length secret = 32"
  shows "parse_token sha (token_text selector secret) =
    Inr \<lparr>pt_version = TOKEN_VERSION, pt_selector = encode_component selector,
         pt_verifier = derive_verifier sha selector secret\<rparr>"
proof -
  have "46 \<notin> set TOKEN_PREFIX" by (simp add: TOKEN_PREFIX_def lit_def)
  then have "split_on 46 (token_text selector secret)
      = [TOKEN_PREFIX, encode_component selector, encode_component secret]"
    using encode_ascii by (simp add: token_text_def lit_def split_on_append split_on_free)
  moreover have "length (token_text selector secret) = TOKEN_ENCODED_LENGTH"
    using assms by (simp add: token_text_def length_encode_component TOKEN_ENCODED_LENGTH_def
        SELECTOR_ENCODED_LENGTH_def SECRET_ENCODED_LENGTH_def lit_def)
  ultimately show ?thesis
    using assms decode_encode [of selector] decode_encode [of secret]
    by (simp add: parse_token_def length_encode_component SELECTOR_ENCODED_LENGTH_def
        SECRET_ENCODED_LENGTH_def SELECTOR_BYTES_def SECRET_BYTES_def)
qed

lemma parse_token_Inr:
  assumes "parse_token sha v = Inr p"
  obtains selector secret where "length selector = 16" "length secret = 32"
    "v = token_text selector secret" "pt_selector p = encode_component selector"
    "pt_version p = TOKEN_VERSION" "pt_verifier p = derive_verifier sha selector secret"
proof -
  obtain a b c where s: "split_on 46 v = [a, b, c]"
    using assms by (auto simp: parse_token_def split: if_splits list.splits)
  then obtain selector secret where "a = TOKEN_PREFIX"
    and d: "decode_component b 16 = Inr selector" "decode_component c 32 = Inr secret"
    and p: "p = \<lparr>pt_version = TOKEN_VERSION, pt_selector = b,
         pt_verifier = derive_verifier sha selector secret\<rparr>"
    using assms by (auto simp: parse_token_def result_simps SELECTOR_BYTES_def SECRET_BYTES_def
        split: if_splits)
  then have "v = token_text selector secret"
    using split_on_join [OF s] by (simp add: token_text_def lit_def decode_Inr)
  then show thesis using that [of selector secret] d p by (simp add: decode_Inr)
qed

lemma token_text_inj:
  assumes "length selector = 16" "length selector' = 16" "length secret = 32" "length secret' = 32"
    and "token_text selector secret = token_text selector' secret'"
  shows "selector = selector' \<and> secret = secret'"
proof -
  have "encode_component selector = encode_component selector' \<and> encode_component secret = encode_component secret'"
    using assms by (simp add: token_text_def length_encode_component)
  then show ?thesis using assms encode_component_inj by metis
qed

text \<open>C37: the texts that parse are exactly the texts that generation issues, and parsing gives back
  the version, the selector and the verifier that were issued.\<close>

theorem parse_token_issued:
  "parse_token sha v = Inr p \<longleftrightarrow>
     (\<exists>selector secret. generate_token sha selector secret = Inr \<lparr>it_value = v, it_parsed = p\<rparr>)"
proof
  assume "parse_token sha v = Inr p"
  then obtain selector secret where "length selector = 16" "length secret = 32"
    "v = token_text selector secret" "pt_selector p = encode_component selector"
    "pt_version p = TOKEN_VERSION" "pt_verifier p = derive_verifier sha selector secret"
    by (rule parse_token_Inr)
  then show "\<exists>selector secret. generate_token sha selector secret = Inr \<lparr>it_value = v, it_parsed = p\<rparr>"
    by (intro exI [of _ selector] exI [of _ secret])
      (simp add: generate_token_def token_text_def SELECTOR_BYTES_def SECRET_BYTES_def)
next
  assume "\<exists>selector secret. generate_token sha selector secret = Inr \<lparr>it_value = v, it_parsed = p\<rparr>"
  then obtain selector secret where g: "generate_token sha selector secret = Inr \<lparr>it_value = v, it_parsed = p\<rparr>"
    by blast
  then have l: "length selector = 16" "length secret = 32" and "v = token_text selector secret"
    by (auto simp: generate_token_def token_text_def SELECTOR_BYTES_def SECRET_BYTES_def split: if_splits)
  then show "parse_token sha v = Inr p"
    using parse_token_text [OF l, of sha] g by (auto simp: generate_token_def split: if_splits)
qed

lemma verify_token_iff:
  "verify_token sha p stored \<longleftrightarrow>
     pt_version p = TOKEN_VERSION \<and> is_canonical_selector (pt_selector p)
     \<and> length (pt_verifier p) = 32 \<and> stored = Some (pt_verifier p)"
  by (auto simp: verify_token_def Let_def VERIFIER_BYTES_def split: option.splits)

text \<open>A parsed token verifies against a stored verifier exactly when it is the digest of the
  selector and secret it carries; the fallback digests never make an unknown selector or an invalid
  row match.\<close>

theorem verify_parsed_token:
  assumes "parse_token sha v = Inr p" and "\<forall>b. length (sha b) = 32"
  shows "verify_token sha p stored \<longleftrightarrow>
    (\<exists>selector secret. v = TOKEN_PREFIX @ lit ''.'' @ encode_component selector @ lit ''.''
         @ encode_component secret
       \<and> length selector = 16 \<and> length secret = 32
       \<and> stored = Some (sha (VERIFIER_DOMAIN @ selector @ secret)))"
proof -
  obtain selector secret where l: "length selector = 16" "length secret = 32"
    and p: "v = token_text selector secret" "pt_selector p = encode_component selector"
      "pt_version p = TOKEN_VERSION" "pt_verifier p = derive_verifier sha selector secret"
    using assms(1) by (rule parse_token_Inr)
  have "is_canonical_selector (pt_selector p)"
    using l p decode_encode [of selector]
    by (simp add: is_canonical_selector_def length_encode_component SELECTOR_ENCODED_LENGTH_def
        SELECTOR_BYTES_def)
  then have v: "verify_token sha p stored \<longleftrightarrow> stored = Some (sha (VERIFIER_DOMAIN @ selector @ secret))"
    using p assms(2) by (simp add: verify_token_iff derive_verifier_def)
  have u: "selector = a \<and> secret = b"
    if "v = token_text a b" "length a = 16" "length b = 32" for a b
    using token_text_inj [OF l(1) that(2) l(2) that(3)] p(1) that(1) by simp
  show ?thesis unfolding v
    using l p(1) u by (fastforce simp: token_text_def)
qed

theorem verify_parsed_token_witness:
  "\<exists>p. parse_token (\<lambda>_. replicate 32 0) (token_text (replicate 16 7) (replicate 32 9)) = Inr p
     \<and> verify_token (\<lambda>_. replicate 32 0) p (Some (replicate 32 0))
     \<and> \<not> verify_token (\<lambda>_. replicate 32 0) p None"
proof -
  let ?p = "\<lparr>pt_version = TOKEN_VERSION, pt_selector = encode_component (replicate 16 7),
     pt_verifier = derive_verifier (\<lambda>_. replicate 32 0) (replicate 16 7) (replicate 32 9)\<rparr>"
  have p: "parse_token (\<lambda>_. replicate 32 0) (token_text (replicate 16 7) (replicate 32 9)) = Inr ?p"
    by (rule parse_token_text) simp_all
  have sha: "\<forall>b :: bytes. length (replicate 32 (0 :: byte)) = 32" by simp
  note v = verify_parsed_token [OF p]
  have "verify_token (\<lambda>_. replicate 32 0) ?p (Some (replicate 32 0))"
    unfolding v [OF sha] by (rule exI [of _ "replicate 16 7"], rule exI [of _ "replicate 32 9"])
      (simp add: token_text_def)
  moreover have "\<not> verify_token (\<lambda>_. replicate 32 0) ?p None" unfolding v [OF sha] by simp
  ultimately show ?thesis using p by blast
qed

end
