(* ===== verification/Calendar.thy ===== *)
theory Calendar
  imports PatchouliPrelude
begin

text \<open>
  Python's \<open>datetime.date\<close>, as far as the identifier code uses it: the validity of a
  (year, month, day) triple, \<open>date.toordinal\<close> and \<open>date.fromordinal\<close> in the
  proleptic Gregorian calendar, with the library's own cycle arithmetic. The main facts are
  that the two conversions are inverse on years 1 to 9999.
\<close>

definition is_leap :: "int \<Rightarrow> bool" where
  "is_leap y \<longleftrightarrow> y mod 4 = 0 \<and> (y mod 100 \<noteq> 0 \<or> y mod 400 = 0)"

definition days_before_year :: "int \<Rightarrow> int" where
  "days_before_year y = (y - 1) * 365 + (y - 1) div 4 - (y - 1) div 100 + (y - 1) div 400"

definition days_before_month_table :: "int list" where
  "days_before_month_table = [0, 0, 31, 59, 90, 120, 151, 181, 212, 243, 273, 304, 334]"

definition days_in_month_table :: "int list" where
  "days_in_month_table = [0, 31, 28, 31, 30, 31, 30, 31, 31, 30, 31, 30, 31]"

definition dbm :: "bool \<Rightarrow> int \<Rightarrow> int" where
  "dbm leap m = days_before_month_table ! nat m + (if m > 2 \<and> leap then 1 else 0)"

definition dim :: "bool \<Rightarrow> int \<Rightarrow> int" where
  "dim leap m = days_in_month_table ! nat m + (if m = 2 \<and> leap then 1 else 0)"

definition date_ok :: "int \<Rightarrow> int \<Rightarrow> int \<Rightarrow> bool" where
  "date_ok y m d \<longleftrightarrow> 1 \<le> y \<and> y \<le> 9999 \<and> 1 \<le> m \<and> m \<le> 12 \<and> 1 \<le> d \<and> d \<le> dim (is_leap y) m"

definition toordinal :: "int \<Rightarrow> int \<Rightarrow> int \<Rightarrow> int" where
  "toordinal y m d = days_before_year y + dbm (is_leap y) m + d"

text \<open>The month search of \<open>fromordinal\<close>, for the zero-based day \<open>k\<close> of a year.\<close>

definition month_day :: "bool \<Rightarrow> int \<Rightarrow> int \<times> int" where
  "month_day leap k =
     (let m = (k + 50) div 32; p = dbm leap m
      in if p > k then (m - 1, k - (p - dim leap (m - 1)) + 1) else (m, k - p + 1))"

definition fromordinal :: "int \<Rightarrow> int \<times> int \<times> int" where
  "fromordinal ordinal =
     (let n = ordinal - 1;
          n400 = n div 146097; n = n mod 146097;
          n100 = n div 36524; n = n mod 36524;
          n4 = n div 1461; n = n mod 1461;
          n1 = n div 365; n = n mod 365;
          year = n400 * 400 + 1 + n100 * 100 + n4 * 4 + n1
      in if n1 = 4 \<or> n100 = 4 then (year - 1, 12, 31)
         else let leap = (n1 = 3 \<and> (n4 \<noteq> 24 \<or> n100 = 3))
              in (year, month_day leap n))"

definition MAX_ORDINAL :: int where
  "MAX_ORDINAL = 3652059"

section \<open>Days within one year\<close>

definition year_length :: "bool \<Rightarrow> int" where
  "year_length leap = (if leap then 366 else 365)"

definition month_day_ok :: "bool \<Rightarrow> int \<Rightarrow> bool" where
  "month_day_ok leap k \<longleftrightarrow>
     (case month_day leap k of (m, d) \<Rightarrow>
       1 \<le> m \<and> m \<le> 12 \<and> 1 \<le> d \<and> d \<le> dim leap m \<and> dbm leap m + d = k + 1)"

definition day_month_ok :: "bool \<Rightarrow> int \<Rightarrow> bool" where
  "day_month_ok leap m \<longleftrightarrow>
     list_all (\<lambda>d. month_day leap (dbm leap m + d - 1) = (m, d)
       \<and> dbm leap m + d \<le> year_length leap) [1..dim leap m]
     \<and> 0 \<le> dbm leap m"

lemma month_day_all:
  "list_all (month_day_ok False) [0..364] \<and> list_all (month_day_ok True) [0..365]"
  by code_simp

lemma day_month_all:
  "list_all (day_month_ok False) [1..12] \<and> list_all (day_month_ok True) [1..12]"
  by code_simp

lemma month_day_inverse:
  assumes "0 \<le> k" "k < year_length leap"
  shows "month_day_ok leap k"
  using assms month_day_all by (cases leap) (auto simp: list_all_iff year_length_def)

lemma day_month_inverse:
  assumes "1 \<le> m" "m \<le> 12" "1 \<le> d" "d \<le> dim leap m"
  shows "month_day leap (dbm leap m + d - 1) = (m, d)"
    and "dbm leap m + d \<le> year_length leap" and "1 \<le> dbm leap m + d"
proof -
  have "day_month_ok leap m"
    using assms day_month_all by (cases leap) (auto simp: list_all_iff)
  then show "month_day leap (dbm leap m + d - 1) = (m, d)"
    and "dbm leap m + d \<le> year_length leap" and "1 \<le> dbm leap m + d"
    using assms by (auto simp: day_month_ok_def list_all_iff)
qed

section \<open>Years\<close>

lemma succ_div:
  fixes y k :: int
  assumes "0 < k"
  shows "y div k = (y - 1) div k + (if y mod k = 0 then 1 else 0)"
proof (cases "y mod k = 0")
  case True
  then obtain q where q: "y = k * q" by (auto simp: mod_eq_0_iff_dvd)
  have "(y - 1) div k = q - 1"
    using assms q by (intro int_div_pos_eq [of _ k _ "k - 1"]) (simp_all add: right_diff_distrib)
  with True q assms show ?thesis by simp
next
  case False
  have r: "0 \<le> y mod k" "y mod k < k" using assms by simp_all
  have "(y - 1) div k = y div k"
    using r False by (intro int_div_pos_eq [of _ k _ "y mod k - 1"]) simp_all
  with False show ?thesis by simp
qed

lemma days_before_next_year:
  "days_before_year (y + 1) = days_before_year y + year_length (is_leap y)"
proof -
  have dvd: "y mod 100 = 0 \<Longrightarrow> y mod 4 = 0" "y mod 400 = 0 \<Longrightarrow> y mod 100 = 0"
    using dvd_trans [of 4 100 y] dvd_trans [of 100 400 y] by (simp_all add: mod_eq_0_iff_dvd)
  define i where "i k = (if y mod k = 0 then 1 else 0 :: int)" for k
  have "year_length (is_leap y) = 365 + i 4 - i 100 + i 400"
    using dvd unfolding year_length_def is_leap_def i_def
    by (cases "y mod 4 = 0"; cases "y mod 100 = 0"; cases "y mod 400 = 0") simp_all
  moreover have "y div k = (y - 1) div k + i k" if "0 < k" for k
    unfolding i_def by (rule succ_div [OF that])
  from this [of 4] this [of 100] this [of 400]
  have "days_before_year (y + 1) = days_before_year y + (365 + i 4 - i 100 + i 400)"
    unfolding days_before_year_def by simp
  ultimately show ?thesis by simp
qed

lemma year_length_pos: "365 \<le> year_length leap" "year_length leap \<le> 366"
  by (auto simp: year_length_def)

lemma days_before_year_mono: "y \<le> z \<Longrightarrow> days_before_year y \<le> days_before_year z"
proof (induction z rule: int_ge_induct)
  case base
  then show ?case by simp
next
  case (step z)
  then show ?case using days_before_next_year [of z] year_length_pos(1) [of "is_leap z"] by linarith
qed

text \<open>An ordinal falls into the half-open range of exactly one year.\<close>

lemma year_unique:
  assumes "days_before_year y < n" "n \<le> days_before_year (y + 1)"
    and "days_before_year z < n" "n \<le> days_before_year (z + 1)"
  shows "y = z"
proof (rule ccontr)
  assume "y \<noteq> z"
  then consider "y + 1 \<le> z" | "z + 1 \<le> y" by linarith
  then show False
  proof cases
    case 1
    then show False using days_before_year_mono [OF 1] assms by linarith
  next
    case 2
    then show False using days_before_year_mono [OF 2] assms by linarith
  qed
qed

lemma mod_eq_0_small: "0 < x \<Longrightarrow> x \<le> k \<Longrightarrow> x mod k = 0 \<longleftrightarrow> x = (k :: int)"
  by (cases "x = k") (simp_all add: mod_pos_pos_trivial)

lemma cycle_year:
  fixes a b c d :: int
  assumes "0 \<le> b" "b \<le> 3" "0 \<le> c" "c \<le> 24" "0 \<le> d" "d \<le> 3"
  shows "days_before_year (400 * a + 100 * b + 4 * c + d + 1)
      = 146097 * a + 36524 * b + 1461 * c + 365 * d"
    and "is_leap (400 * a + 100 * b + 4 * c + d + 1) \<longleftrightarrow> d = 3 \<and> (c \<noteq> 24 \<or> b = 3)"
proof -
  let ?y = "400 * a + 100 * b + 4 * c + d"
  have "?y div 4 = 100 * a + 25 * b + c" "?y div 100 = 4 * a + b" "?y div 400 = a"
    using assms
    by (intro int_div_pos_eq [of _ 4 _ d] int_div_pos_eq [of _ 100 _ "4 * c + d"]
        int_div_pos_eq [of _ 400 _ "100 * b + 4 * c + d"]; simp)+
  then show "days_before_year (?y + 1) = 146097 * a + 36524 * b + 1461 * c + 365 * d"
    by (simp add: days_before_year_def)
  have 4: "(?y + 1) mod 4 = (d + 1) mod 4"
    using mod_mult_self1 [of "d + 1" "100 * a + 25 * b + c" 4] by (simp add: algebra_simps)
  have 100: "(?y + 1) mod 100 = (4 * c + d + 1) mod 100"
    using mod_mult_self1 [of "4 * c + d + 1" "4 * a + b" 100] by (simp add: algebra_simps)
  have 400: "(?y + 1) mod 400 = (100 * b + 4 * c + d + 1) mod 400"
    using mod_mult_self1 [of "100 * b + 4 * c + d + 1" a 400] by (simp add: algebra_simps)
  have "(d + 1) mod 4 = 0 \<longleftrightarrow> d = 3"
    by (subst mod_eq_0_small) (use assms in linarith)+
  moreover have "(4 * c + d + 1) mod 100 = 0 \<longleftrightarrow> c = 24 \<and> d = 3"
    by (subst mod_eq_0_small) (use assms in linarith)+
  moreover have "(100 * b + 4 * c + d + 1) mod 400 = 0 \<longleftrightarrow> b = 3 \<and> c = 24 \<and> d = 3"
    by (subst mod_eq_0_small) (use assms in linarith)+
  ultimately show "is_leap (?y + 1) \<longleftrightarrow> d = 3 \<and> (c \<noteq> 24 \<or> b = 3)"
    unfolding is_leap_def 4 100 400 by auto
qed

section \<open>The two conversions are inverse\<close>

lemma fromordinal_cycle:
  fixes n :: int
  assumes a: "a = (n - 1) div 146097" and n1: "m1 = (n - 1) mod 146097"
    and b: "b = m1 div 36524" and m2: "m2 = m1 mod 36524"
    and c: "c = m2 div 1461" and m3: "m3 = m2 mod 1461"
    and d: "d = m3 div 365" and k: "k = m3 mod 365"
  shows "fromordinal n =
     (if d = 4 \<or> b = 4 then (400 * a + 100 * b + 4 * c + d, 12, 31)
      else (400 * a + 100 * b + 4 * c + d + 1, month_day (d = 3 \<and> (c \<noteq> 24 \<or> b = 3)) k))"
    and "n - 1 = 146097 * a + 36524 * b + 1461 * c + 365 * d + k"
    and "0 \<le> b" "b \<le> 4" "0 \<le> c" "c \<le> 24" "0 \<le> d" "d \<le> 4" "0 \<le> k" "k < 365"
    and "b = 4 \<Longrightarrow> c = 0 \<and> d = 0 \<and> k = 0" "d = 4 \<Longrightarrow> c \<noteq> 24 \<and> k = 0"
proof -
  show "fromordinal n =
     (if d = 4 \<or> b = 4 then (400 * a + 100 * b + 4 * c + d, 12, 31)
      else (400 * a + 100 * b + 4 * c + d + 1, month_day (d = 3 \<and> (c \<noteq> 24 \<or> b = 3)) k))"
    unfolding fromordinal_def Let_def assms by (simp add: algebra_simps)
  have e: "n - 1 = 146097 * a + m1" "m1 = 36524 * b + m2" "m2 = 1461 * c + m3" "m3 = 365 * d + k"
    unfolding assms by simp_all
  have r: "0 \<le> m1" "m1 < 146097" "0 \<le> m2" "m2 < 36524" "0 \<le> m3" "m3 < 1461" "0 \<le> k" "k < 365"
    unfolding assms by simp_all
  show "n - 1 = 146097 * a + 36524 * b + 1461 * c + 365 * d + k" "0 \<le> k" "k < 365"
    using e r by linarith+
  show "0 \<le> b" "b \<le> 4" "0 \<le> c" "c \<le> 24" "0 \<le> d" "d \<le> 4"
    using e r by linarith+
  show "c = 0 \<and> d = 0 \<and> k = 0" if "b = 4"
  proof -
    have "m2 = 0" using e r that by linarith
    then show ?thesis by (simp add: c d k m3)
  qed
  show "c \<noteq> 24 \<and> k = 0" if "d = 4"
    using e r that by (intro conjI notI; linarith)
qed

lemma last_day_of_leap_year: "month_day True 365 = (12, 31)"
  by code_simp

text \<open>Every ordinal is read as the day of the one year whose range holds it.\<close>

definition year_day :: "int \<Rightarrow> int \<Rightarrow> bool" where
  "year_day n y \<longleftrightarrow> fromordinal n = (y, month_day (is_leap y) (n - 1 - days_before_year y))
     \<and> days_before_year y < n \<and> n \<le> days_before_year (y + 1)"

lemma year_dayI:
  assumes "fromordinal n = (y, month_day (is_leap y) k)" "n - 1 = days_before_year y + k"
    and "0 \<le> k" "k < year_length (is_leap y)"
  shows "year_day n y"
proof -
  have "n - 1 - days_before_year y = k" using assms(2) by simp
  then show ?thesis
    using assms days_before_next_year [of y] by (simp add: year_day_def)
qed

lemma fromordinal_year_day: "\<exists>y. year_day n y"
proof -
  obtain a b c d k where
    f: "fromordinal n =
     (if d = 4 \<or> b = 4 then (400 * a + 100 * b + 4 * c + d, 12, 31)
      else (400 * a + 100 * b + 4 * c + d + 1, month_day (d = 3 \<and> (c \<noteq> 24 \<or> b = 3)) k))"
    and n: "n - 1 = 146097 * a + 36524 * b + 1461 * c + 365 * d + k"
    and b: "0 \<le> b" "b \<le> 4" and c: "0 \<le> c" "c \<le> 24" and d: "0 \<le> d" "d \<le> 4"
    and k: "0 \<le> k" "k < 365"
    and b4: "b = 4 \<Longrightarrow> c = 0 \<and> d = 0 \<and> k = 0" and d4: "d = 4 \<Longrightarrow> c \<noteq> 24 \<and> k = 0"
    using fromordinal_cycle [OF refl refl refl refl refl refl refl refl, of n] by metis
  consider "b = 4" | "b \<le> 3" "d = 4" | "b \<le> 3" "d \<le> 3" using b d by linarith
  then show ?thesis
  proof cases
    case 1
    let ?y = "400 * a + 100 * 3 + 4 * 24 + 3 + 1"
    have y: "days_before_year ?y = 146097 * a + 36524 * 3 + 1461 * 24 + 365 * 3" "is_leap ?y"
      using cycle_year [of 3 24 3 a] by simp_all
    have "fromordinal n = (?y, 12, 31)" using f 1 b4 by simp
    then have "year_day n ?y"
      using y n 1 b4 by (intro year_dayI [of _ _ 365]) (simp_all add: year_length_def last_day_of_leap_year)
    then show ?thesis ..
  next
    case 2
    let ?y = "400 * a + 100 * b + 4 * c + 3 + 1"
    have y: "days_before_year ?y = 146097 * a + 36524 * b + 1461 * c + 365 * 3" "is_leap ?y"
      using cycle_year [of b c 3 a] b c 2 d4 by simp_all
    have "fromordinal n = (?y, 12, 31)" using f 2 by simp
    then have "year_day n ?y"
      using y n 2 d4 by (intro year_dayI [of _ _ 365]) (simp_all add: year_length_def last_day_of_leap_year)
    then show ?thesis ..
  next
    case 3
    let ?y = "400 * a + 100 * b + 4 * c + d + 1"
    have y: "days_before_year ?y = 146097 * a + 36524 * b + 1461 * c + 365 * d"
        "is_leap ?y \<longleftrightarrow> d = 3 \<and> (c \<noteq> 24 \<or> b = 3)"
      using cycle_year [of b c d a] b c d 3 by simp_all
    have "year_day n ?y"
      using f y n k 3 year_length_pos(1) [of "is_leap ?y"] by (intro year_dayI [of _ _ k]) simp_all
    then show ?thesis ..
  qed
qed

theorem fromordinal_toordinal:
  assumes "date_ok y m d"
  shows "fromordinal (toordinal y m d) = (y, m, d)"
proof -
  let ?n = "toordinal y m d" and ?l = "is_leap y"
  have m: "1 \<le> m" "m \<le> 12" "1 \<le> d" "d \<le> dim ?l m" using assms by (auto simp: date_ok_def)
  note dm = day_month_inverse [OF m]
  have "days_before_year y < ?n" "?n \<le> days_before_year (y + 1)"
    using dm days_before_next_year [of y] by (simp_all add: toordinal_def)
  moreover obtain z where
    z: "fromordinal ?n = (z, month_day (is_leap z) (?n - 1 - days_before_year z))"
      "days_before_year z < ?n" "?n \<le> days_before_year (z + 1)"
    using fromordinal_year_day unfolding year_day_def by blast
  ultimately have "z = y" by (metis year_unique)
  with z dm show ?thesis by (simp add: toordinal_def algebra_simps)
qed

theorem toordinal_fromordinal:
  assumes "fromordinal n = (y, m, d)"
  shows "toordinal y m d = n" and "1 \<le> m" "m \<le> 12" "1 \<le> d" "d \<le> dim (is_leap y) m"
    and "days_before_year y < n" "n \<le> days_before_year (y + 1)"
proof -
  have z: "month_day (is_leap y) (n - 1 - days_before_year y) = (m, d)"
      "days_before_year y < n" "n \<le> days_before_year (y + 1)"
    using fromordinal_year_day [of n] assms unfolding year_day_def by auto
  have "month_day_ok (is_leap y) (n - 1 - days_before_year y)"
    using z days_before_next_year [of y] by (intro month_day_inverse) auto
  then show "toordinal y m d = n" and "1 \<le> m" "m \<le> 12" "1 \<le> d" "d \<le> dim (is_leap y) m"
    using z by (auto simp: month_day_ok_def toordinal_def)
  show "days_before_year y < n" "n \<le> days_before_year (y + 1)" by (rule z)+
qed

lemma days_before_year_ends: "days_before_year 1 = 0" "days_before_year 10000 = MAX_ORDINAL"
  by (simp_all add: days_before_year_def MAX_ORDINAL_def)

lemma fromordinal_date_ok:
  assumes "1 \<le> n" "n \<le> MAX_ORDINAL" "fromordinal n = (y, m, d)"
  shows "date_ok y m d"
proof -
  note t = toordinal_fromordinal [OF assms(3)]
  have "1 \<le> y"
  proof (rule ccontr)
    assume "\<not> 1 \<le> y"
    then have "days_before_year (y + 1) \<le> days_before_year 1"
      by (intro days_before_year_mono) simp
    then show False using t(7) assms(1) days_before_year_ends by simp
  qed
  moreover have "y \<le> 9999"
  proof (rule ccontr)
    assume "\<not> y \<le> 9999"
    then have "days_before_year 10000 \<le> days_before_year y"
      by (intro days_before_year_mono) simp
    then show False using t(6) assms(2) days_before_year_ends by simp
  qed
  ultimately show ?thesis using t by (simp add: date_ok_def)
qed

lemma toordinal_range:
  assumes "date_ok y m d"
  shows "1 \<le> toordinal y m d" "toordinal y m d \<le> MAX_ORDINAL"
proof -
  have y: "1 \<le> y" "y + 1 \<le> 10000" using assms by (auto simp: date_ok_def)
  have "days_before_year y < toordinal y m d" "toordinal y m d \<le> days_before_year (y + 1)"
    using toordinal_fromordinal [OF fromordinal_toordinal [OF assms]] by auto
  then show "1 \<le> toordinal y m d" "toordinal y m d \<le> MAX_ORDINAL"
    using days_before_year_mono [OF y(1)] days_before_year_mono [OF y(2)] days_before_year_ends
    by auto
qed

end
