(* ===== verification/PageIds.thy ===== *)
theory PageIds
  imports Calendar Utf8
begin

text \<open>
  Public page identifiers: \<open>patchouli_lib/identifiers/page_ids.py\<close>. An occurrence time is
  parsed from RFC 3339 and kept as signed UTC microseconds; an identifier is a timestamp
  prefix, a slug of the creation title and, from the second collision on, an ordinal. The
  digest function \<open>sha\<close> is an argument of the definitions that use it.
\<close>

datatype page_id_error =
  InvalidOccurrenceTime | InvalidPageTitle | InvalidPageId | InvalidLibraryScope

record occurrence_time =
  utc_microseconds :: int
  canonical_utc :: pystr

record generated_page_id =
  gp_value :: pystr
  gp_timestamp_prefix :: pystr
  gp_base_slug :: pystr
  gp_collision_ordinal :: int

definition MAX_BASE_SLUG_BYTES :: nat where "MAX_BASE_SLUG_BYTES = 48"
definition MAX_PAGE_ID_BYTES :: nat where "MAX_PAGE_ID_BYTES = 80"
definition MAX_COLLISION_ORDINAL :: int where "MAX_COLLISION_ORDINAL = 9999999999"
definition US_PER_SECOND :: int where "US_PER_SECOND = 1000000"
definition US_PER_DAY :: int where "US_PER_DAY = 86400 * US_PER_SECOND"
definition EPOCH_ORDINAL :: int where "EPOCH_ORDINAL = toordinal 1970 1 1"
definition MIN_UTC_MICROSECONDS :: int where
  "MIN_UTC_MICROSECONDS = (toordinal 1 1 1 - EPOCH_ORDINAL) * US_PER_DAY"
definition MAX_UTC_MICROSECONDS :: int where
  "MAX_UTC_MICROSECONDS = (toordinal 9999 12 31 - EPOCH_ORDINAL + 1) * US_PER_DAY - 1"
definition REGISTRY_DOMAIN :: bytes where
  "REGISTRY_DOMAIN = map of_nat (lit ''patchouli-page-id-v1'') @ [0]"

section \<open>Occurrence times\<close>

definition utc_in_range :: "int \<Rightarrow> bool" where
  "utc_in_range u \<longleftrightarrow> MIN_UTC_MICROSECONDS \<le> u \<and> u \<le> MAX_UTC_MICROSECONDS"

definition validate_civil_time ::
  "int \<Rightarrow> int \<Rightarrow> int \<Rightarrow> int \<Rightarrow> int \<Rightarrow> int \<Rightarrow> page_id_error + unit" where
  "validate_civil_time year month day hour minute second =
     (if \<not> (0 \<le> hour \<and> hour \<le> 23) \<or> \<not> (0 \<le> minute \<and> minute \<le> 59) \<or> \<not> (0 \<le> second \<and> second \<le> 59)
      then Inl InvalidOccurrenceTime
      else requireR (date_ok year month day) InvalidOccurrenceTime)"

definition fmt :: "nat \<Rightarrow> int \<Rightarrow> pystr" where
  "fmt w n = fmt_dec w (nat n)"

definition format_utc_microseconds :: "int \<Rightarrow> pystr" where
  "format_utc_microseconds u =
     (let days = u div US_PER_DAY; day_us = u mod US_PER_DAY;
          (year, month, day) = fromordinal (EPOCH_ORDINAL + days);
          seconds = day_us div US_PER_SECOND; us = day_us mod US_PER_SECOND;
          hour = seconds div 3600; seconds = seconds mod 3600;
          minute = seconds div 60; second = seconds mod 60
      in fmt 4 year @ lit ''-'' @ fmt 2 month @ lit ''-'' @ fmt 2 day @ lit ''T''
         @ fmt 2 hour @ lit '':'' @ fmt 2 minute @ lit '':'' @ fmt 2 second @ lit ''.''
         @ fmt 6 us @ lit ''Z'')"

definition all_digits :: "pystr \<Rightarrow> bool" where
  "all_digits s \<longleftrightarrow> list_all is_digit s"

definition int_of :: "nat \<Rightarrow> nat \<Rightarrow> pystr \<Rightarrow> int" where
  "int_of i j v = int (parse_dec (slice i j v))"

text \<open>The pattern of an offset, and of the part from the optional fraction on: the fraction
  and the offset it is split into.\<close>

definition match_offset :: "pystr \<Rightarrow> bool" where
  "match_offset v \<longleftrightarrow> v = lit ''Z'' \<or> v = lit ''z''
     \<or> (length v = 6 \<and> v ! 0 \<in> {43, 45} \<and> all_digits (slice 1 3 v) \<and> v ! 3 = 58
        \<and> all_digits (slice 4 6 v))"

definition match_tail :: "pystr \<Rightarrow> (pystr \<times> pystr) option" where
  "match_tail r =
     (if r \<noteq> [] \<and> hd r = 46
      then (let f = takeWhile is_digit (tl r); offset = dropWhile is_digit (tl r)
            in if 1 \<le> length f \<and> length f \<le> 6 \<and> match_offset offset then Some (f, offset) else None)
      else if match_offset r then Some ([], r) else None)"

definition match_rfc3339 :: "pystr \<Rightarrow> (pystr \<times> pystr) option" where
  "match_rfc3339 v =
     (if 19 \<le> length v \<and> all_digits (slice 0 4 v) \<and> v ! 4 = 45 \<and> all_digits (slice 5 7 v)
         \<and> v ! 7 = 45 \<and> all_digits (slice 8 10 v) \<and> v ! 10 \<in> {84, 116}
         \<and> all_digits (slice 11 13 v) \<and> v ! 13 = 58 \<and> all_digits (slice 14 16 v)
         \<and> v ! 16 = 58 \<and> all_digits (slice 17 19 v)
      then match_tail (drop 19 v) else None)"

definition offset_seconds :: "pystr \<Rightarrow> page_id_error + int" where
  "offset_seconds offset_text =
     (if offset_text = lit ''Z'' \<or> offset_text = lit ''z'' then Inr 0
      else let sign = (if offset_text ! 0 = 43 then 1 else - 1);
               offset_hour = int_of 1 3 offset_text; offset_minute = int_of 4 6 offset_text
           in if offset_hour > 23 \<or> offset_minute > 59 \<or> offset_text = lit ''-00:00''
              then Inl InvalidOccurrenceTime
              else Inr (sign * (offset_hour * 3600 + offset_minute * 60)))"

definition parse_occurrence_time :: "pystr \<Rightarrow> page_id_error + occurrence_time" where
  "parse_occurrence_time v =
     bindR (optionR InvalidOccurrenceTime (match_rfc3339 v)) (\<lambda>(fraction, offset_text).
     let year = int_of 0 4 v; month = int_of 5 7 v; day = int_of 8 10 v;
         hour = int_of 11 13 v; minute = int_of 14 16 v; second = int_of 17 19 v in
     bindR (validate_civil_time year month day hour minute second) (\<lambda>_.
     let us = (if fraction = [] then 0
               else int (parse_dec (fraction @ replicate (6 - length fraction) 48))) in
     bindR (offset_seconds offset_text) (\<lambda>off.
     let local_days = toordinal year month day - EPOCH_ORDINAL;
         local_seconds = local_days * 86400 + hour * 3600 + minute * 60 + second;
         u = (local_seconds - off) * US_PER_SECOND + us in
     if utc_in_range u
     then Inr \<lparr>utc_microseconds = u, canonical_utc = format_utc_microseconds u\<rparr>
     else Inl InvalidOccurrenceTime)))"

definition canonical_utc_wire :: "int \<Rightarrow> page_id_error + pystr" where
  "canonical_utc_wire u =
     (if utc_in_range u then Inr (format_utc_microseconds u) else Inl InvalidOccurrenceTime)"

definition page_id_timestamp_prefix :: "int \<Rightarrow> page_id_error + pystr" where
  "page_id_timestamp_prefix u =
     (if \<not> utc_in_range u then Inl InvalidOccurrenceTime
      else let canonical = format_utc_microseconds (u div 1000 * 1000)
           in Inr (slice 0 4 canonical @ slice 5 7 canonical @ slice 8 10 canonical @ lit ''t''
                @ slice 11 13 canonical @ slice 14 16 canonical @ slice 17 19 canonical
                @ slice 20 23 canonical @ lit ''z''))"

section \<open>Slugs\<close>

definition is_alnum :: "nat \<Rightarrow> bool" where
  "is_alnum c \<longleftrightarrow> is_lower c \<or> is_digit c"

text \<open>The character a title character maps to, what the loop body appends for it, and the loop
  over the title on its three variables.\<close>

definition slug_char :: "nat \<Rightarrow> nat option" where
  "slug_char c =
     (if is_upper c then Some (c + 32) else if is_lower c \<or> is_digit c then Some c else None)"

definition slug_push :: "pystr \<Rightarrow> bool \<Rightarrow> nat \<Rightarrow> pystr" where
  "slug_push out pending m =
     (let out1 = (if pending \<and> out \<noteq> [] \<and> length out < MAX_BASE_SLUG_BYTES then out @ [45] else out)
      in if length out1 < MAX_BASE_SLUG_BYTES then out1 @ [m] else out1)"

fun slug_loop :: "pystr \<Rightarrow> pystr \<Rightarrow> bool \<Rightarrow> bool \<Rightarrow> page_id_error + pystr \<times> bool" where
  "slug_loop [] out pending seen = Inr (out, seen)"
| "slug_loop (c # cs) out pending seen =
     (if is_surrogate c then Inl InvalidPageTitle
      else case slug_char c of
             None \<Rightarrow> slug_loop cs out True seen
           | Some m \<Rightarrow> slug_loop cs (slug_push out pending m) False True)"

definition rstrip :: "nat \<Rightarrow> pystr \<Rightarrow> pystr" where
  "rstrip c s = rev (dropWhile (\<lambda>x. x = c) (rev s))"

definition slugify_creation_title :: "(bytes \<Rightarrow> bytes) \<Rightarrow> pystr \<Rightarrow> page_id_error + pystr" where
  "slugify_creation_title sha title =
     bindR (slug_loop title [] False False) (\<lambda>(output, seen).
     let slug = rstrip 45 output in
     if seen \<and> slug \<noteq> [] then Inr slug
     else bindR (optionR InvalidPageTitle (utf8_encode title)) (\<lambda>encoded.
       Inr (lit ''page-'' @ take 12 (hex_bytes (sha encoded)))))"

section \<open>Identifiers\<close>

definition validate_collision_ordinal :: "int \<Rightarrow> page_id_error + int" where
  "validate_collision_ordinal n =
     (if 1 \<le> n \<and> n \<le> MAX_COLLISION_ORDINAL then Inr n else Inl InvalidPageId)"

text \<open>The timestamp prefix pattern and its calendar check.\<close>

definition is_valid_timestamp_prefix :: "pystr \<Rightarrow> bool" where
  "is_valid_timestamp_prefix v \<longleftrightarrow>
     length v = 19 \<and> all_digits (slice 0 8 v) \<and> v ! 8 = 116 \<and> all_digits (slice 9 18 v)
     \<and> v ! 18 = 122
     \<and> validate_civil_time (int_of 0 4 v) (int_of 4 6 v) (int_of 6 8 v)
          (int_of 9 11 v) (int_of 11 13 v) (int_of 13 15 v) = Inr ()"

text \<open>The automaton of \<open>[a-z0-9]+(?:-[a-z0-9]+)*\<close>; its flag says that a run is due.\<close>

fun slug_tail :: "bool \<Rightarrow> pystr \<Rightarrow> bool" where
  "slug_tail due [] = (\<not> due)"
| "slug_tail due (c # cs) =
     (if is_alnum c then slug_tail False cs else c = 45 \<and> \<not> due \<and> slug_tail True cs)"

definition slug_pattern :: "pystr \<Rightarrow> bool" where
  "slug_pattern s = slug_tail True s"

definition is_valid_base_slug :: "pystr \<Rightarrow> bool" where
  "is_valid_base_slug s \<longleftrightarrow> 1 \<le> length s \<and> length s \<le> MAX_BASE_SLUG_BYTES \<and> slug_pattern s"

definition rpartition :: "nat \<Rightarrow> pystr \<Rightarrow> pystr \<times> pystr \<times> pystr" where
  "rpartition c s =
     (let b = takeWhile (\<lambda>x. x \<noteq> c) (rev s)
      in if length b = length s then ([], [], s)
         else (take (length s - length b - 1) s, [c], rev b))"

text \<open>\<open>(?:[2-9]|[1-9][0-9]{1,9})\<close>\<close>

definition ordinal_pattern :: "pystr \<Rightarrow> bool" where
  "ordinal_pattern s \<longleftrightarrow>
     (length s = 1 \<and> 50 \<le> s ! 0 \<and> s ! 0 \<le> 57)
     \<or> (2 \<le> length s \<and> length s \<le> 10 \<and> 49 \<le> s ! 0 \<and> s ! 0 \<le> 57 \<and> all_digits (tl s))"

definition validate_page_id :: "pystr \<Rightarrow> page_id_error + pystr" where
  "validate_page_id v =
     (if \<not> (1 \<le> length v \<and> length v \<le> MAX_PAGE_ID_BYTES) then Inl InvalidPageId
      else if \<not> isascii v \<or> length v \<le> 19 + 1 then Inl InvalidPageId
      else if v ! 19 \<noteq> 45 \<or> \<not> is_valid_timestamp_prefix (take 19 v) then Inl InvalidPageId
      else let slug_and_suffix = drop (19 + 1) v in
        if is_valid_base_slug slug_and_suffix then Inr v
        else let (base_slug, separator, ordinal_text) = rpartition 45 slug_and_suffix in
          if separator \<noteq> [45] \<or> \<not> is_valid_base_slug base_slug \<or> \<not> ordinal_pattern ordinal_text
             \<or> int (parse_dec ordinal_text) > MAX_COLLISION_ORDINAL
          then Inl InvalidPageId else Inr v)"

definition generate_page_id ::
  "(bytes \<Rightarrow> bytes) \<Rightarrow> occurrence_time \<Rightarrow> pystr \<Rightarrow> int \<Rightarrow> page_id_error + generated_page_id" where
  "generate_page_id sha t title collision_ordinal =
     bindR (canonical_utc_wire (utc_microseconds t)) (\<lambda>canonical.
     bindR (requireR (canonical_utc t = canonical) InvalidOccurrenceTime) (\<lambda>_.
     bindR (validate_collision_ordinal collision_ordinal) (\<lambda>ordinal.
     bindR (page_id_timestamp_prefix (utc_microseconds t)) (\<lambda>prefix.
     bindR (slugify_creation_title sha title) (\<lambda>slug.
     let suffix = (if ordinal = 1 then [] else lit ''-'' @ dec_str (nat ordinal));
         v = prefix @ lit ''-'' @ slug @ suffix in
     bindR (validate_page_id v) (\<lambda>_.
     Inr \<lparr>gp_value = v, gp_timestamp_prefix = prefix, gp_base_slug = slug,
          gp_collision_ordinal = ordinal\<rparr>))))))"

definition page_id_registry_digest :: "(bytes \<Rightarrow> bytes) \<Rightarrow> pystr \<Rightarrow> page_id_error + bytes" where
  "page_id_registry_digest sha text =
     bindR (validate_page_id text) (\<lambda>validated.
     bindR (optionR InvalidPageId (utf8_encode validated)) (\<lambda>encoded.
     Inr (sha (REGISTRY_DOMAIN @ encoded))))"

text \<open>A scope that is not given (\<open>None\<close>) is refused.\<close>

definition page_id_registry_key ::
  "(bytes \<Rightarrow> bytes) \<Rightarrow> 's option \<Rightarrow> pystr \<Rightarrow> page_id_error + 's \<times> bytes" where
  "page_id_registry_key sha library_scope text =
     (case library_scope of None \<Rightarrow> Inl InvalidLibraryScope
      | Some scope \<Rightarrow> bindR (page_id_registry_digest sha text) (\<lambda>d. Inr (scope, d)))"

section \<open>Formatting and parsing are inverse\<close>

lemma length_fmt: "0 < w \<Longrightarrow> 0 \<le> n \<Longrightarrow> n < 10 ^ w \<Longrightarrow> length (fmt w n) = w"
  unfolding fmt_def by (rule length_fmt_dec) (auto simp: nat_less_iff)

lemma fmt_digits [simp]: "list_all is_digit (fmt w n)"
  by (simp add: fmt_def fmt_dec_digits)

lemma parse_fmt [simp]: "0 \<le> n \<Longrightarrow> int (parse_dec (fmt w n)) = n"
  by (simp add: fmt_def)

lemma lit_code [simp]:
  "lit ''-'' = [45]" "lit ''T'' = [84]" "lit '':'' = [58]" "lit ''.'' = [46]" "lit ''Z'' = [90]"
  "lit ''z'' = [122]" "lit ''t'' = [116]" "lit ''-00:00'' = [45, 48, 48, 58, 48, 48]"
  "lit ''page-'' = [112, 97, 103, 101, 45]"
  by code_simp+

lemma wire_fields:
  fixes Y M D H N S F :: pystr
  assumes "length Y = 4" "length M = 2" "length D = 2" "length H = 2" "length N = 2"
    "length S = 2" "length F = 6"
    and v: "v = Y @ [45] @ M @ [45] @ D @ [84] @ H @ [58] @ N @ [58] @ S @ [46] @ F @ [90]"
  shows "length v = 27" "slice 0 4 v = Y" "v ! 4 = 45" "slice 5 7 v = M" "v ! 7 = 45"
    "slice 8 10 v = D" "v ! 10 = 84" "slice 11 13 v = H" "v ! 13 = 58" "slice 14 16 v = N"
    "v ! 16 = 58" "slice 17 19 v = S" "drop 19 v = 46 # F @ [90]" "slice 20 23 v = take 3 F"
  unfolding v using assms(1-7) by (simp_all add: slice_def nth_append)

definition civil_time_ok :: "int \<Rightarrow> int \<Rightarrow> int \<Rightarrow> int \<Rightarrow> int \<Rightarrow> int \<Rightarrow> bool" where
  "civil_time_ok y m d h n s \<longleftrightarrow>
     date_ok y m d \<and> 0 \<le> h \<and> h \<le> 23 \<and> 0 \<le> n \<and> n \<le> 59 \<and> 0 \<le> s \<and> s \<le> 59"

lemma validate_civil_time_Inr [result_simps]:
  "validate_civil_time y m d h n s = Inr u \<longleftrightarrow> civil_time_ok y m d h n s"
  by (auto simp: validate_civil_time_def civil_time_ok_def result_simps)

lemma EPOCH_value: "EPOCH_ORDINAL = 719163"
  by code_simp

lemma MIN_value: "MIN_UTC_MICROSECONDS = - 62135596800000000"
  by code_simp

lemma MAX_value: "MAX_UTC_MICROSECONDS = 253402300799999999"
  by code_simp

text \<open>The civil reading of an instant in range.\<close>

lemma format_fields:
  assumes "utc_in_range u"
  obtains y m d h n s us where
    "format_utc_microseconds u = fmt 4 y @ [45] @ fmt 2 m @ [45] @ fmt 2 d @ [84] @ fmt 2 h @ [58]
       @ fmt 2 n @ [58] @ fmt 2 s @ [46] @ fmt 6 us @ [90]"
    and "civil_time_ok y m d h n s" "0 \<le> us" "us < 1000000"
    and "u = ((toordinal y m d - EPOCH_ORDINAL) * 86400 + h * 3600 + n * 60 + s) * 1000000 + us"
proof -
  define r where "r = u mod US_PER_DAY"
  have r: "0 \<le> r" "r < 86400000000" "u = u div US_PER_DAY * 86400000000 + r"
    using div_mult_mod_eq [of u US_PER_DAY] by (simp_all add: r_def US_PER_DAY_def US_PER_SECOND_def)
  define sec where "sec = r div 1000000"
  define us where "us = r mod 1000000"
  have sec: "0 \<le> sec" "sec < 86400" "0 \<le> us" "us < 1000000" "r = sec * 1000000 + us"
    using r div_mult_mod_eq [of r 1000000] by (simp_all add: sec_def us_def)
  define h where "h = sec div 3600"
  define q where "q = sec mod 3600"
  have h: "0 \<le> h" "h \<le> 23" "0 \<le> q" "q < 3600" "sec = h * 3600 + q"
    using sec div_mult_mod_eq [of sec 3600] by (simp_all add: h_def q_def)
  define n where "n = q div 60"
  define s where "s = q mod 60"
  have n: "0 \<le> n" "n \<le> 59" "0 \<le> s" "s \<le> 59" "q = n * 60 + s"
    using h div_mult_mod_eq [of q 60] by (simp_all add: n_def s_def)
  let ?o = "EPOCH_ORDINAL + u div US_PER_DAY"
  obtain y m d where f: "fromordinal ?o = (y, m, d)" by (cases "fromordinal ?o") auto
  have "1 \<le> ?o" "?o \<le> MAX_ORDINAL"
    using assms r by (simp_all add: utc_in_range_def MIN_value MAX_value EPOCH_value MAX_ORDINAL_def)
  then have d: "date_ok y m d" using fromordinal_date_ok f by blast
  have "toordinal y m d = ?o" using toordinal_fromordinal(1) [OF f] .
  then have "u = ((toordinal y m d - EPOCH_ORDINAL) * 86400 + h * 3600 + n * 60 + s) * 1000000 + us"
    using r sec h n by (simp add: algebra_simps)
  moreover have "format_utc_microseconds u =
      fmt 4 y @ [45] @ fmt 2 m @ [45] @ fmt 2 d @ [84] @ fmt 2 h @ [58]
       @ fmt 2 n @ [58] @ fmt 2 s @ [46] @ fmt 6 us @ [90]"
    by (simp add: format_utc_microseconds_def Let_def f h_def n_def s_def q_def sec_def us_def
        r_def US_PER_SECOND_def)
  ultimately show ?thesis using that d h n sec by (auto simp: civil_time_ok_def)
qed

lemma dim_le: "1 \<le> m \<Longrightarrow> m \<le> 12 \<Longrightarrow> dim l m \<le> 31"
proof -
  assume "1 \<le> m" "m \<le> 12"
  then have "m \<in> set [1..12]" by simp
  moreover have "list_all (\<lambda>m. dim True m \<le> 31 \<and> dim False m \<le> 31) [1..12]" by code_simp
  ultimately show ?thesis by (cases l) (auto simp: list_all_iff simp del: set_upto)
qed

lemma civil_lengths:
  assumes "civil_time_ok y m d h n s"
  shows "length (fmt 4 y) = 4" "length (fmt 2 m) = 2" "length (fmt 2 d) = 2"
    "length (fmt 2 h) = 2" "length (fmt 2 n) = 2" "length (fmt 2 s) = 2"
    "0 \<le> y" "0 \<le> m" "0 \<le> d" "0 \<le> h" "0 \<le> n" "0 \<le> s"
  using assms dim_le [of m "is_leap y"]
  by (auto intro!: length_fmt simp: civil_time_ok_def date_ok_def)

lemma match_tail_fraction:
  assumes "list_all is_digit f" "length f = 6"
  shows "match_tail (46 # f @ [90]) = Some (f, [90])"
proof -
  have z: "\<not> is_digit 90" by (simp add: is_digit_def)
  have "takeWhile is_digit (f @ [90]) = f" "dropWhile is_digit (f @ [90]) = [90]"
    using assms z by (simp_all add: takeWhile_append2 dropWhile_append2 list_all_iff)
  then show ?thesis using assms by (simp add: match_tail_def match_offset_def Let_def)
qed

lemma parse_format:
  assumes "utc_in_range u"
  shows "parse_occurrence_time (format_utc_microseconds u) =
    Inr \<lparr>utc_microseconds = u, canonical_utc = format_utc_microseconds u\<rparr>"
proof -
  obtain y m d h n s us where f: "format_utc_microseconds u =
       fmt 4 y @ [45] @ fmt 2 m @ [45] @ fmt 2 d @ [84] @ fmt 2 h @ [58]
       @ fmt 2 n @ [58] @ fmt 2 s @ [46] @ fmt 6 us @ [90]"
    and c: "civil_time_ok y m d h n s" and us: "0 \<le> us" "us < 1000000"
    and u: "u = ((toordinal y m d - EPOCH_ORDINAL) * 86400 + h * 3600 + n * 60 + s) * 1000000 + us"
    using format_fields [OF assms] .
  let ?v = "format_utc_microseconds u"
  note l = civil_lengths [OF c]
  have l6: "length (fmt 6 us) = 6" using us by (intro length_fmt) auto
  note w = wire_fields [OF l(1-6) l6 f]
  have m: "match_rfc3339 ?v = Some (fmt 6 us, [90])"
    using w match_tail_fraction [OF fmt_digits l6] by (simp add: match_rfc3339_def all_digits_def)
  have "fmt 6 us \<noteq> []" using l6 by auto
  moreover have "int_of 0 4 ?v = y" "int_of 5 7 ?v = m" "int_of 8 10 ?v = d" "int_of 11 13 ?v = h"
    "int_of 14 16 ?v = n" "int_of 17 19 ?v = s"
    using w l by (simp_all add: int_of_def)
  moreover have "validate_civil_time y m d h n s = Inr ()" using c by (simp add: result_simps)
  ultimately show ?thesis
    using assms us l6 m u
    by (simp add: parse_occurrence_time_def offset_seconds_def US_PER_SECOND_def Let_def)
qed

lemma parse_in_range:
  assumes "parse_occurrence_time v = Inr t"
  shows "utc_in_range (utc_microseconds t)"
    and "canonical_utc t = format_utc_microseconds (utc_microseconds t)"
  using assms
  by (auto simp: parse_occurrence_time_def Let_def result_simps split: prod.splits if_splits)

text \<open>C32: an accepted instant is formatted to a wire text which parses back to that instant,
  to the microsecond, over the whole range from year 1 to year 9999.\<close>

theorem occurrence_time_roundtrip:
  assumes "canonical_utc_wire u = Inr w"
  shows "parse_occurrence_time w = Inr \<lparr>utc_microseconds = u, canonical_utc = w\<rparr>"
  using assms parse_format [of u] by (auto simp: canonical_utc_wire_def split: if_splits)

lemma occurrence_time_roundtrip_witness:
  "parse_occurrence_time (format_utc_microseconds 951782400123456)
   = Inr \<lparr>utc_microseconds = 951782400123456,
          canonical_utc = format_utc_microseconds 951782400123456\<rparr>"
  by (rule occurrence_time_roundtrip)
    (simp add: canonical_utc_wire_def utc_in_range_def MIN_value MAX_value)

section \<open>The timestamp prefix\<close>

lemma prefix_fields:
  fixes Y M D H N S F :: pystr
  assumes "length Y = 4" "length M = 2" "length D = 2" "length H = 2" "length N = 2"
    "length S = 2" "length F = 3"
    and v: "v = Y @ M @ D @ [116] @ H @ N @ S @ F @ [122]"
  shows "length v = 19" "slice 0 8 v = Y @ M @ D" "v ! 8 = 116" "slice 9 18 v = H @ N @ S @ F"
    "v ! 18 = 122" "slice 0 4 v = Y" "slice 4 6 v = M" "slice 6 8 v = D" "slice 9 11 v = H"
    "slice 11 13 v = N" "slice 13 15 v = S" "slice 15 18 v = F"
  unfolding v using assms(1-7) by (simp_all add: slice_def nth_append)

lemma floor_ms_in_range:
  assumes "utc_in_range u"
  shows "utc_in_range (u div 1000 * 1000)"
proof -
  have "MIN_UTC_MICROSECONDS div 1000 \<le> u div 1000"
    using assms by (intro zdiv_mono1) (simp_all add: utc_in_range_def)
  then have "- 62135596800000 \<le> u div 1000" by (simp add: MIN_value)
  moreover have "u div 1000 * 1000 \<le> u"
    using div_mult_mod_eq [of u 1000] pos_mod_sign [of 1000 u] by linarith
  ultimately show ?thesis using assms by (simp add: utc_in_range_def MIN_value MAX_value)
qed

lemma prefix_form:
  assumes "utc_in_range u"
  obtains y m d h n s ms where
    "page_id_timestamp_prefix u =
       Inr (fmt 4 y @ fmt 2 m @ fmt 2 d @ [116] @ fmt 2 h @ fmt 2 n @ fmt 2 s @ take 3 (fmt 6 ms) @ [122])"
    and "civil_time_ok y m d h n s" "0 \<le> ms" "ms < 1000000"
    and "u div 1000 * 1000 =
      ((toordinal y m d - EPOCH_ORDINAL) * 86400 + h * 3600 + n * 60 + s) * 1000000 + ms"
proof -
  let ?u = "u div 1000 * 1000"
  obtain y m d h n s us where f: "format_utc_microseconds ?u =
       fmt 4 y @ [45] @ fmt 2 m @ [45] @ fmt 2 d @ [84] @ fmt 2 h @ [58]
       @ fmt 2 n @ [58] @ fmt 2 s @ [46] @ fmt 6 us @ [90]"
    and c: "civil_time_ok y m d h n s" and us: "0 \<le> us" "us < 1000000"
    and u: "?u = ((toordinal y m d - EPOCH_ORDINAL) * 86400 + h * 3600 + n * 60 + s) * 1000000 + us"
    using format_fields [OF floor_ms_in_range [OF assms]] .
  have l6: "length (fmt 6 us) = 6" using us by (intro length_fmt) auto
  note w = wire_fields [OF civil_lengths(1-6) [OF c] l6 f]
  have "page_id_timestamp_prefix u = Inr (fmt 4 y @ fmt 2 m @ fmt 2 d @ [116] @ fmt 2 h @ fmt 2 n
      @ fmt 2 s @ take 3 (fmt 6 us) @ [122])"
    using assms w by (simp add: page_id_timestamp_prefix_def)
  then show ?thesis using that c us u by blast
qed

lemma all_digits_take: "list_all is_digit s \<Longrightarrow> list_all is_digit (take k s)"
  by (auto simp: list_all_iff dest: in_set_takeD)

lemma prefix_valid:
  assumes "page_id_timestamp_prefix u = Inr p"
  shows "is_valid_timestamp_prefix p"
proof -
  have r: "utc_in_range u" using assms by (simp add: page_id_timestamp_prefix_def split: if_splits)
  obtain y m d h n s ms where p: "p = fmt 4 y @ fmt 2 m @ fmt 2 d @ [116] @ fmt 2 h @ fmt 2 n
      @ fmt 2 s @ take 3 (fmt 6 ms) @ [122]" and c: "civil_time_ok y m d h n s"
    and ms: "0 \<le> ms" "ms < 1000000"
    using prefix_form [OF r] assms by (metis sum.inject(2))
  have l3: "length (take 3 (fmt 6 ms)) = 3" using ms length_fmt [of 6 ms] by simp
  note l = civil_lengths [OF c]
  note f = prefix_fields [OF l(1-6) l3 p]
  have "validate_civil_time y m d h n s = Inr ()" using c by (simp add: result_simps)
  then show ?thesis
    using f l by (simp add: is_valid_timestamp_prefix_def all_digits_def int_of_def all_digits_take)
qed

lemma length_3: "length xs = 3 \<Longrightarrow> \<exists>a b c. xs = [a, b, c]"
  by (auto simp: numeral_3_eq_3 length_Suc_conv)

lemma take3_fmt6:
  assumes "0 \<le> ms" "ms < 1000000"
  shows "int (parse_dec (take 3 (fmt 6 ms))) = ms div 1000"
proof -
  let ?t = "take 3 (fmt 6 ms)" and ?d = "drop 3 (fmt 6 ms)"
  have l: "length (fmt 6 ms) = 6" using assms by (intro length_fmt) auto
  have dig: "list_all is_digit ?d"
    using fmt_digits [of 6 ms] by (auto simp: list_all_iff dest!: in_set_dropD)
  have "length ?d = 3" using l by simp
  then obtain a b c where d: "?d = [a, b, c]" using length_3 by blast
  have "ms = int (parse_dec (?t @ ?d))" using assms by simp
  then have m: "ms = 1000 * int (parse_dec ?t) + int (parse_dec ?d)"
    by (simp only: parse_dec_append) (simp add: l)
  have "0 \<le> int (parse_dec ?d)" "int (parse_dec ?d) < 1000"
    using dig by (simp_all add: d is_digit_def parse_dec_def)
  then show ?thesis using int_div_pos_eq [OF m] by simp
qed

lemma div_1000_of:
  fixes u :: int
  assumes "u div 1000 * 1000 = c * 1000000 + ms"
  shows "u div 1000 = c * 1000 + ms div 1000"
proof -
  have "u div 1000 * 1000 = ms + (c * 1000) * 1000" using assms by simp
  then have "u div 1000 * 1000 div 1000 = (ms + (c * 1000) * 1000) div 1000" by (rule arg_cong)
  then show ?thesis by simp
qed

text \<open>Two instants have the same identifier prefix exactly when they lie in the same
  millisecond, floored towards the past also before 1970.\<close>

theorem timestamp_prefix_injective:
  assumes "page_id_timestamp_prefix u = Inr p" "page_id_timestamp_prefix u' = Inr p'"
  shows "p = p' \<longleftrightarrow> u div 1000 = u' div 1000"
proof
  assume "u div 1000 = u' div 1000"
  then show "p = p'"
    using assms by (auto simp: page_id_timestamp_prefix_def Let_def split: if_splits)
next
  assume e: "p = p'"
  have r: "utc_in_range u" "utc_in_range u'"
    using assms by (simp_all add: page_id_timestamp_prefix_def split: if_splits)
  obtain y m d h n s ms where p: "p = fmt 4 y @ fmt 2 m @ fmt 2 d @ [116] @ fmt 2 h @ fmt 2 n
      @ fmt 2 s @ take 3 (fmt 6 ms) @ [122]" and c: "civil_time_ok y m d h n s"
    and ms: "0 \<le> ms" "ms < 1000000" and u: "u div 1000 * 1000 =
      ((toordinal y m d - EPOCH_ORDINAL) * 86400 + h * 3600 + n * 60 + s) * 1000000 + ms"
    using prefix_form [OF r(1)] assms(1) by (metis sum.inject(2))
  obtain y' m' d' h' n' s' ms' where p': "p = fmt 4 y' @ fmt 2 m' @ fmt 2 d' @ [116] @ fmt 2 h'
      @ fmt 2 n' @ fmt 2 s' @ take 3 (fmt 6 ms') @ [122]" and c': "civil_time_ok y' m' d' h' n' s'"
    and ms': "0 \<le> ms'" "ms' < 1000000" and u': "u' div 1000 * 1000 =
      ((toordinal y' m' d' - EPOCH_ORDINAL) * 86400 + h' * 3600 + n' * 60 + s') * 1000000 + ms'"
    using prefix_form [OF r(2)] assms(2) e by (metis sum.inject(2))
  have l3: "length (take 3 (fmt 6 ms)) = 3" "length (take 3 (fmt 6 ms')) = 3"
    using ms ms' length_fmt [of 6 ms] length_fmt [of 6 ms'] by simp_all
  note l = civil_lengths [OF c] and l' = civil_lengths [OF c']
  note f = prefix_fields [OF l(1-6) l3(1) p] and f' = prefix_fields [OF l'(1-6) l3(2) p']
  have "int_of 0 4 p = y" "int_of 4 6 p = m" "int_of 6 8 p = d" "int_of 9 11 p = h"
    "int_of 11 13 p = n" "int_of 13 15 p = s" "int_of 15 18 p = ms div 1000"
    using f l ms by (simp_all add: int_of_def take3_fmt6)
  moreover have "int_of 0 4 p = y'" "int_of 4 6 p = m'" "int_of 6 8 p = d'" "int_of 9 11 p = h'"
    "int_of 11 13 p = n'" "int_of 13 15 p = s'" "int_of 15 18 p = ms' div 1000"
    using f' l' ms' by (simp_all add: int_of_def take3_fmt6)
  ultimately have e: "y = y'" "m = m'" "d = d'" "h = h'" "n = n'" "s = s'"
    "ms div 1000 = ms' div 1000" by simp_all
  show "u div 1000 = u' div 1000"
    using div_1000_of [OF u] div_1000_of [OF u'] e by simp
qed

lemma timestamp_prefix_injective_witness:
  "page_id_timestamp_prefix (-1) \<noteq> page_id_timestamp_prefix 0"
proof -
  obtain p q where p: "page_id_timestamp_prefix (-1) = Inr p" and q: "page_id_timestamp_prefix 0 = Inr q"
    by (auto simp: page_id_timestamp_prefix_def utc_in_range_def MIN_value MAX_value Let_def)
  show ?thesis using timestamp_prefix_injective [OF p q] p q by simp
qed

section \<open>Slugs\<close>

lemma alnum_upper: "is_upper c \<Longrightarrow> is_alnum (c + 32)"
  by (simp add: is_upper_def is_alnum_def is_lower_def)

lemma alnum_not_dash: "is_alnum c \<Longrightarrow> c \<noteq> 45"
  by (auto simp: is_alnum_def is_lower_def is_digit_def)

lemma slug_tail_snoc: "slug_tail due s \<Longrightarrow> is_alnum c \<Longrightarrow> slug_tail due (s @ [c])"
  by (induction due s rule: slug_tail.induct) auto

lemma slug_tail_dash_snoc: "slug_tail due s \<Longrightarrow> is_alnum c \<Longrightarrow> slug_tail due (s @ [45, c])"
  by (induction due s rule: slug_tail.induct)
    (auto simp: is_alnum_def is_lower_def is_digit_def)

lemma slug_tail_alnum: "list_all is_alnum s \<Longrightarrow> s \<noteq> [] \<Longrightarrow> slug_tail due s"
proof (induction s arbitrary: due)
  case (Cons c s)
  then show ?case by (cases s) auto
qed simp

lemma slug_tail_last: "slug_tail due s \<Longrightarrow> s \<noteq> [] \<Longrightarrow> last s \<noteq> 45"
  by (induction due s rule: slug_tail.induct)
    (auto simp: is_alnum_def is_lower_def is_digit_def split: if_splits)

lemma slug_pattern_not_Nil: "slug_pattern s \<Longrightarrow> s \<noteq> []"
  by (auto simp: slug_pattern_def)

lemma rstrip_id: "s = [] \<or> last s \<noteq> c \<Longrightarrow> rstrip c s = s"
  by (cases s rule: rev_cases) (auto simp: rstrip_def)

lemma rstrip_snoc: "rstrip c (s @ [c]) = rstrip c s"
  by (simp add: rstrip_def)

text \<open>What the loop maintains: the output is empty, a slug, or a full-length slug with one
  dangling separator.\<close>

definition slug_out :: "pystr \<Rightarrow> bool" where
  "slug_out out \<longleftrightarrow> length out \<le> 48 \<and>
     (out = [] \<or> slug_pattern out \<or> (length out = 48 \<and> last out = 45 \<and> slug_pattern (butlast out)))"

lemma slug_out_step:
  assumes "slug_out out" "is_alnum m"
  shows "slug_out (slug_push out pending m)" and "slug_push out pending m \<noteq> []"
proof -
  have "slug_out (slug_push out pending m) \<and> slug_push out pending m \<noteq> []"
  proof (cases "length out < 48")
    case False
    then show ?thesis using assms
      by (auto simp: slug_out_def slug_push_def MAX_BASE_SLUG_BYTES_def)
  next
    case short: True
    then have s: "out = [] \<or> slug_pattern out" using assms(1) by (auto simp: slug_out_def)
    show ?thesis
    proof (cases "out = []")
      case True
      then show ?thesis using assms(2)
        by (simp add: slug_out_def slug_pattern_def slug_push_def MAX_BASE_SLUG_BYTES_def)
    next
      case False
      with s have p: "slug_tail True out" by (simp add: slug_pattern_def)
      show ?thesis
        using short False p slug_tail_snoc [OF p assms(2)] slug_tail_dash_snoc [OF p assms(2)]
        by (auto simp: slug_out_def slug_pattern_def slug_push_def MAX_BASE_SLUG_BYTES_def Let_def)
    qed
  qed
  then show "slug_out (slug_push out pending m)" "slug_push out pending m \<noteq> []" by auto
qed

lemma slug_char_alnum: "slug_char c = Some m \<Longrightarrow> is_alnum m"
  using alnum_upper by (auto simp: slug_char_def is_alnum_def split: if_splits)

lemma slug_loop_out:
  assumes "slug_loop cs out pending seen = Inr (out', seen')" "slug_out out" "seen \<longleftrightarrow> out \<noteq> []"
  shows "slug_out out' \<and> (seen' \<longleftrightarrow> out' \<noteq> [])"
  using assms
proof (induction cs arbitrary: out pending seen)
  case (Cons c cs)
  show ?case
  proof (cases "slug_char c")
    case None
    then show ?thesis using Cons by (auto split: if_splits)
  next
    case (Some m)
    note st = slug_out_step [OF Cons.prems(2) slug_char_alnum [OF Some], of pending]
    have "slug_loop cs (slug_push out pending m) False True = Inr (out', seen')"
      using Cons.prems(1) Some by (simp split: if_splits)
    from Cons.IH [OF this st(1)] st(2) show ?thesis by simp
  qed
qed simp

lemma slug_loop_defined:
  "\<not> list_ex is_surrogate cs \<Longrightarrow> \<exists>r. slug_loop cs out pending seen = Inr r"
  by (induction cs out pending seen rule: slug_loop.induct) (auto simp: Let_def split: option.splits)

lemma slug_loop_surrogate:
  "list_ex is_surrogate cs \<Longrightarrow> slug_loop cs out pending seen = Inl InvalidPageTitle"
  by (induction cs out pending seen rule: slug_loop.induct) (auto simp: Let_def split: option.splits)

lemma slug_out_rstrip:
  assumes "slug_out out" "out \<noteq> []"
  shows "is_valid_base_slug (rstrip 45 out)"
proof -
  consider "slug_pattern out" | "length out = 48" "last out = 45" "slug_pattern (butlast out)"
    using assms by (auto simp: slug_out_def)
  then show ?thesis
  proof cases
    case 1
    then have "rstrip 45 out = out"
      using slug_tail_last [of True out] by (intro rstrip_id) (auto simp: slug_pattern_def)
    then show ?thesis using 1 assms
      by (auto simp: is_valid_base_slug_def slug_out_def MAX_BASE_SLUG_BYTES_def Suc_le_eq)
  next
    case 2
    have o: "out = butlast out @ [45]" using assms(2) 2(2) by (metis append_butlast_last_id)
    have "rstrip 45 out = butlast out"
      using 2(3) slug_tail_last [of True "butlast out"]
      by (subst o, subst rstrip_snoc) (auto simp: slug_pattern_def intro!: rstrip_id)
    then show ?thesis using 2 slug_pattern_not_Nil [OF 2(3)]
      by (auto simp: is_valid_base_slug_def MAX_BASE_SLUG_BYTES_def Suc_le_eq)
  qed
qed

lemma hex_alnum: "is_lower_hex c \<Longrightarrow> is_alnum c"
  by (auto simp: is_lower_hex_def is_alnum_def is_lower_def)

lemma page_dash_slug: "slug_tail True s \<Longrightarrow> slug_tail True (lit ''page-'' @ s)"
  by (simp add: is_alnum_def is_lower_def is_digit_def)

lemma fallback_slug:
  assumes "6 \<le> length d"
  shows "is_valid_base_slug (lit ''page-'' @ take 12 (hex_bytes d))"
proof -
  define h where "h = take 12 (hex_bytes d)"
  have "list_all is_alnum h"
    using hex_bytes_lower_hex [of d] hex_alnum by (auto simp: h_def list_all_iff dest!: in_set_takeD)
  moreover have l: "length h = 12" using assms by (simp add: h_def)
  ultimately have "slug_tail True h" by (intro slug_tail_alnum) auto
  then have "slug_pattern (lit ''page-'' @ h)" unfolding slug_pattern_def by (rule page_dash_slug)
  then show ?thesis using l
    by (simp add: is_valid_base_slug_def MAX_BASE_SLUG_BYTES_def h_def [symmetric])
qed

lemma scalar_no_surrogate: "list_all is_scalar s \<Longrightarrow> \<not> list_ex is_surrogate s"
  by (auto simp: list_all_iff list_ex_iff is_scalar_def)

lemma slugify_valid:
  assumes "list_all is_scalar title" "\<And>b. length (sha b) = 32"
  obtains slug where "slugify_creation_title sha title = Inr slug" "is_valid_base_slug slug"
proof -
  obtain out seen where l: "slug_loop title [] False False = Inr (out, seen)"
    using slug_loop_defined [OF scalar_no_surrogate [OF assms(1)]] by (metis surj_pair)
  then have o: "slug_out out" "seen \<longleftrightarrow> out \<noteq> []"
    using slug_loop_out [OF l] by (auto simp: slug_out_def)
  obtain e where e: "utf8_encode title = Some e" using assms(1) by (auto simp: utf8_encode_def)
  show ?thesis
  proof (cases "out = []")
    case True
    then show ?thesis
      using that fallback_slug [of "sha e"] assms(2) l o e by (simp add: slugify_creation_title_def)
  next
    case False
    then have v: "is_valid_base_slug (rstrip 45 out)" using o slug_out_rstrip by blast
    then have "rstrip 45 out \<noteq> []" by (auto simp: is_valid_base_slug_def)
    then show ?thesis
      using that [OF _ v] l o False by (simp add: slugify_creation_title_def)
  qed
qed

end
