(* ===== verification/PageIdGrammar.thy ===== *)
theory PageIdGrammar
  imports PageIds
begin

text \<open>
  The grammar of page identifiers, the agreement of \<open>validate_page_id\<close> with it, what
  \<open>generate_page_id\<close> produces, and the slug loop against a reference that joins the words of
  the title and truncates once.
\<close>

section \<open>The grammar\<close>

definition ordinal_text :: "pystr \<Rightarrow> bool" where
  "ordinal_text o' \<longleftrightarrow> (\<exists>n. 2 \<le> n \<and> int n \<le> MAX_COLLISION_ORDINAL \<and> o' = dec_str n)"

definition page_id_text :: "pystr \<Rightarrow> pystr \<Rightarrow> pystr \<Rightarrow> pystr \<Rightarrow> bool" where
  "page_id_text v p slug suffix \<longleftrightarrow>
     v = p @ [45] @ slug @ suffix \<and> is_valid_timestamp_prefix p \<and> is_valid_base_slug slug
     \<and> (suffix = [] \<or> (\<exists>n. suffix = 45 # n \<and> ordinal_text n))"

lemma digitE: "is_digit c \<Longrightarrow> (\<And>k. c = 48 + k \<Longrightarrow> k < 10 \<Longrightarrow> P) \<Longrightarrow> P"
  using le_Suc_ex [of 48 c] by (auto simp: is_digit_def)

lemma digits_value_bounds:
  assumes "list_all is_digit s" "s \<noteq> []" "hd s \<noteq> 48"
  shows "10 ^ (length s - 1) \<le> parse_dec s \<and> parse_dec s < 10 ^ length s"
  using assms
proof (induction s rule: rev_induct)
  case Nil
  then show ?case by simp
next
  case (snoc c s)
  obtain k where c: "c = 48 + k" "k < 10" using snoc.prems(1) by (auto elim: digitE)
  show ?case
  proof (cases "s = []")
    case True
    have "c \<noteq> 48" using snoc.prems True by simp
    then show ?thesis using c True by (simp add: parse_dec_def)
  next
    case False
    then have "10 ^ (length s - 1) \<le> parse_dec s" "parse_dec s < 10 ^ length s"
      using snoc by auto
    moreover have "(10 :: nat) ^ length s = 10 * 10 ^ (length s - 1)"
      using False by (cases s) auto
    ultimately show ?thesis using c by simp
  qed
qed

lemma dec_str_parse_dec:
  assumes "list_all is_digit s" "s \<noteq> []" "hd s \<noteq> 48"
  shows "dec_str (parse_dec s) = s"
  using assms
proof (induction s rule: rev_induct)
  case Nil
  then show ?case by simp
next
  case (snoc c s)
  obtain k where c: "c = 48 + k" "k < 10" using snoc.prems(1) by (auto elim: digitE)
  show ?case
  proof (cases "s = []")
    case True
    then show ?thesis using c by (subst dec_str.simps) (simp add: parse_dec_def)
  next
    case False
    then have ih: "dec_str (parse_dec s) = s" using snoc by auto
    have "10 ^ (length s - 1) \<le> parse_dec s" using digits_value_bounds [of s] snoc False by auto
    then have "1 \<le> parse_dec s" using one_le_power [of "10::nat" "length s - 1"] by linarith
    moreover have "(10 * parse_dec s + k) div 10 = parse_dec s"
      "(10 * parse_dec s + k) mod 10 = k" using c by simp_all
    ultimately show ?thesis using ih c by (subst dec_str.simps) simp
  qed
qed

lemma ordinal_pattern_iff:
  "ordinal_pattern s \<and> int (parse_dec s) \<le> MAX_COLLISION_ORDINAL \<longleftrightarrow> ordinal_text s"
proof
  assume a: "ordinal_pattern s \<and> int (parse_dec s) \<le> MAX_COLLISION_ORDINAL"
  have h: "list_all is_digit s \<and> s \<noteq> [] \<and> hd s \<noteq> 48"
    using a by (cases s) (auto simp: ordinal_pattern_def all_digits_def is_digit_def)
  then have d: "dec_str (parse_dec s) = s" by (intro dec_str_parse_dec) auto
  have "2 \<le> parse_dec s"
  proof (cases "length s = 1")
    case True
    then obtain c where s: "s = [c]" by (auto simp: length_Suc_conv)
    then obtain k where "c = 48 + k" using h by (auto elim: digitE)
    then show ?thesis using a s by (simp add: ordinal_pattern_def parse_dec_def)
  next
    case False
    then have "2 \<le> length s" using h by (cases s) (auto simp: Suc_le_eq)
    then have "(10 :: nat) ^ 1 \<le> 10 ^ (length s - 1)" by (intro power_increasing) auto
    then show ?thesis using digits_value_bounds [of s] h by simp
  qed
  then show "ordinal_text s" using a d unfolding ordinal_text_def by metis
next
  assume "ordinal_text s"
  then obtain n where n: "2 \<le> n" "int n \<le> MAX_COLLISION_ORDINAL" "s = dec_str n"
    by (auto simp: ordinal_text_def)
  have l: "length s \<le> 10"
    using n length_dec_str_le [of 10 n] by (simp add: MAX_COLLISION_ORDINAL_def)
  have "ordinal_pattern s"
  proof (cases "n < 10")
    case True
    then show ?thesis using n by (simp add: ordinal_pattern_def dec_str.simps [of n])
  next
    case False
    then have "s = dec_str (n div 10) @ [48 + n mod 10]" using n(3) by (simp add: dec_str.simps [of n])
    then have "2 \<le> length s"
      using dec_str_not_Nil [of "n div 10"] by (cases "dec_str (n div 10)") auto
    moreover obtain c t where ct: "s = c # t" using n(3) dec_str_not_Nil by (metis neq_Nil_conv)
    moreover have "hd s \<noteq> 48" using dec_str_hd [of n] n by simp
    moreover have "list_all is_digit (c # t)" using dec_str_digits [of n] n(3) ct by simp
    ultimately show ?thesis using l by (auto simp: ordinal_pattern_def all_digits_def is_digit_def)
  qed
  then show "ordinal_pattern s \<and> int (parse_dec s) \<le> MAX_COLLISION_ORDINAL" using n by simp
qed

lemma ordinal_text_props:
  assumes "ordinal_text s"
  shows "1 \<le> length s" "length s \<le> 10" "list_all is_digit s" "45 \<notin> set s"
proof -
  obtain n where n: "2 \<le> n" "int n \<le> MAX_COLLISION_ORDINAL" "s = dec_str n"
    using assms by (auto simp: ordinal_text_def)
  show "length s \<le> 10" using n length_dec_str_le [of 10 n] by (simp add: MAX_COLLISION_ORDINAL_def)
  show "1 \<le> length s" using n by (simp add: Suc_le_eq)
  show d: "list_all is_digit s" using n dec_str_digits by simp
  then show "45 \<notin> set s" by (auto simp: list_all_iff is_digit_def)
qed

lemma rpartition_append: "c \<notin> set t \<Longrightarrow> rpartition c (s @ [c] @ t) = (s, [c], t)"
proof -
  assume "c \<notin> set t"
  then have "takeWhile (\<lambda>x. x \<noteq> c) (rev t @ c # rev s) = rev t"
    by (subst takeWhile_append2) auto
  then show ?thesis by (simp add: rpartition_def)
qed

lemma rpartition_sound:
  assumes "rpartition c x = (s, sep, t)" "sep = [c]"
  shows "x = s @ [c] @ t \<and> c \<notin> set t"
proof -
  let ?b = "takeWhile (\<lambda>y. y \<noteq> c) (rev x)"
  have n: "length ?b \<noteq> length x" and s: "s = take (length x - length ?b - 1) x" and t: "t = rev ?b"
    using assms by (auto simp: rpartition_def Let_def split: if_splits)
  have "?b \<noteq> rev x" using n by (metis length_rev)
  then have ne: "dropWhile (\<lambda>y. y \<noteq> c) (rev x) \<noteq> []" by (metis append_Nil2 takeWhile_dropWhile_id)
  define d where "d = tl (dropWhile (\<lambda>y. y \<noteq> c) (rev x))"
  have "dropWhile (\<lambda>y. y \<noteq> c) (rev x) = c # d"
    using ne hd_dropWhile [OF ne] by (cases "dropWhile (\<lambda>y. y \<noteq> c) (rev x)") (auto simp: d_def)
  then have "rev x = ?b @ c # d" by (metis takeWhile_dropWhile_id)
  then have "x = rev (?b @ c # d)" by (metis rev_rev_ident)
  then have x: "x = rev d @ [c] @ t" unfolding t by simp
  moreover have "length ?b = length t" by (simp add: t)
  ultimately have "s = rev d" using s by simp
  moreover have "c \<notin> set t" using t by (auto dest: set_takeWhileD)
  ultimately show ?thesis using x by simp
qed

lemma ascii_digits: "list_all is_digit s \<Longrightarrow> isascii s"
  by (auto simp: list_all_iff isascii_def is_digit_def)

lemma isascii_append [simp]: "isascii (s @ t) \<longleftrightarrow> isascii s \<and> isascii t"
  by (simp add: isascii_def)

lemma isascii_Cons [simp]: "isascii (c # s) \<longleftrightarrow> c < 128 \<and> isascii s"
  by (simp add: isascii_def)

lemma isascii_Nil [simp]: "isascii []"
  by (simp add: isascii_def)

lemma slug_ascii: "slug_tail due s \<Longrightarrow> isascii s"
  by (induction due s rule: slug_tail.induct)
    (auto simp: is_alnum_def is_lower_def is_digit_def split: if_splits)

lemma prefix_ascii:
  assumes "is_valid_timestamp_prefix p"
  shows "isascii p" "length p = 19"
proof -
  have l: "length p = 19" and d: "list_all is_digit (slice 0 8 p)" "p ! 8 = 116"
    "list_all is_digit (slice 9 18 p)" "p ! 18 = 122"
    using assms by (auto simp: is_valid_timestamp_prefix_def all_digits_def)
  have "p = take 8 p @ p ! 8 # drop 9 p" using l id_take_nth_drop [of 8 p] by simp
  moreover have "drop 9 p = take 9 (drop 9 p) @ p ! 18 # drop 19 p"
    using l id_take_nth_drop [of 9 "drop 9 p"] by simp
  ultimately have "p = slice 0 8 p @ [p ! 8] @ slice 9 18 p @ [p ! 18]"
    using l by (simp add: slice_def)
  then have "isascii p \<longleftrightarrow> isascii (slice 0 8 p @ [p ! 8] @ slice 9 18 p @ [p ! 18])" by simp
  then show "isascii p" "length p = 19" using d l ascii_digits by simp_all
qed

lemma validate_page_id_value: "validate_page_id v = Inr w \<Longrightarrow> w = v"
  by (auto simp: validate_page_id_def Let_def split: if_splits prod.splits)

lemma page_id_text_validates:
  assumes "page_id_text v p slug suffix"
  shows "validate_page_id v = Inr v"
proof -
  have v: "v = p @ [45] @ slug @ suffix" and p: "is_valid_timestamp_prefix p"
    and s: "is_valid_base_slug slug"
    and x: "suffix = [] \<or> (\<exists>n. suffix = 45 # n \<and> ordinal_text n)"
    using assms by (auto simp: page_id_text_def)
  note pp = prefix_ascii [OF p]
  have sl: "1 \<le> length slug" "length slug \<le> 48" "isascii slug"
    using s slug_ascii by (auto simp: is_valid_base_slug_def MAX_BASE_SLUG_BYTES_def slug_pattern_def)
  have xl: "length suffix \<le> 11" "isascii suffix"
    using x ordinal_text_props ascii_digits by fastforce+
  have "slug \<noteq> []" using sl by auto
  then have b: "length v \<le> MAX_PAGE_ID_BYTES" "20 < length v" "isascii v" "v ! 19 = 45"
    "take 19 v = p" "drop 20 v = slug @ suffix"
    using pp sl xl unfolding v by (simp_all add: MAX_PAGE_ID_BYTES_def nth_append)
  show ?thesis
  proof (cases "is_valid_base_slug (slug @ suffix)")
    case True
    then show ?thesis using b p by (simp add: validate_page_id_def)
  next
    case False
    then obtain n where n: "suffix = 45 # n" "ordinal_text n" using x s by auto
    have "rpartition 45 (slug @ suffix) = (slug, [45], n)"
      using rpartition_append [of 45 n slug] n ordinal_text_props by simp
    moreover have "ordinal_pattern n" "int (parse_dec n) \<le> MAX_COLLISION_ORDINAL"
      using ordinal_pattern_iff [of n] n by auto
    ultimately show ?thesis using b p s False by (simp add: validate_page_id_def)
  qed
qed

lemma validates_page_id_text:
  assumes "validate_page_id v = Inr v"
  shows "\<exists>p slug suffix. page_id_text v p slug suffix"
proof -
  have b: "20 < length v" "v ! 19 = 45" "is_valid_timestamp_prefix (take 19 v)"
    using assms by (auto simp: validate_page_id_def split: if_splits)
  have v: "v = take 19 v @ [45] @ drop 20 v"
    using b id_take_nth_drop [of 19 v] by simp
  show ?thesis
  proof (cases "is_valid_base_slug (drop 20 v)")
    case True
    then have "page_id_text v (take 19 v) (drop 20 v) []"
      using v b unfolding page_id_text_def by simp
    then show ?thesis by blast
  next
    case False
    obtain s sep t where r: "rpartition 45 (drop 20 v) = (s, sep, t)" by (metis surj_pair)
    then have h: "sep = [45]" "is_valid_base_slug s" "ordinal_pattern t"
      "int (parse_dec t) \<le> MAX_COLLISION_ORDINAL"
      using assms False by (auto simp: validate_page_id_def Let_def split: if_splits)
    have "drop 20 v = s @ 45 # t" using rpartition_sound [OF r h(1)] by simp
    moreover have "ordinal_text t" using ordinal_pattern_iff [of t] h by blast
    ultimately have "page_id_text v (take 19 v) s (45 # t)"
      using v b h unfolding page_id_text_def by simp
    then show ?thesis by blast
  qed
qed

text \<open>C29: the validator accepts exactly the texts of the grammar: a timestamp prefix of a real
  civil time, a dash, a base slug, and nothing or a dash with a canonical decimal ordinal
  between 2 and 9999999999. Its length and ASCII guards reject nothing else.\<close>

theorem validate_page_id_grammar:
  "validate_page_id v = Inr w \<longleftrightarrow> w = v \<and> (\<exists>p slug suffix. page_id_text v p slug suffix)"
  using validate_page_id_value validates_page_id_text page_id_text_validates by metis

section \<open>Generation\<close>

lemma page_id_text_pieces:
  assumes "is_valid_timestamp_prefix p" "is_valid_base_slug slug" "1 \<le> n" "n \<le> MAX_COLLISION_ORDINAL"
  shows "page_id_text (p @ lit ''-'' @ slug @ (if n = 1 then [] else lit ''-'' @ dec_str (nat n)))
    p slug (if n = 1 then [] else lit ''-'' @ dec_str (nat n))"
  using assms unfolding page_id_text_def ordinal_text_def by (auto intro!: exI [of _ "nat n"])

lemma page_id_text_length:
  assumes "page_id_text v p slug suffix"
  shows "length v \<le> 80"
  using page_id_text_validates [OF assms]
  by (auto simp: validate_page_id_def MAX_PAGE_ID_BYTES_def split: if_splits)

lemma generate_page_id_defined:
  assumes "canonical_utc_wire (utc_microseconds t) = Inr (canonical_utc t)"
    and "list_all is_scalar title" "1 \<le> n" "n \<le> MAX_COLLISION_ORDINAL"
    and "\<forall>b. length (sha b) = 32"
  shows "\<exists>g. generate_page_id sha t title n = Inr g
    \<and> validate_page_id (gp_value g) = Inr (gp_value g) \<and> length (gp_value g) \<le> 80
    \<and> gp_collision_ordinal g = n
    \<and> page_id_timestamp_prefix (utc_microseconds t) = Inr (gp_timestamp_prefix g)
    \<and> slugify_creation_title sha title = Inr (gp_base_slug g)
    \<and> page_id_text (gp_value g) (gp_timestamp_prefix g) (gp_base_slug g)
        (if n = 1 then [] else lit ''-'' @ dec_str (nat n))"
proof -
  obtain slug where s: "slugify_creation_title sha title = Inr slug" "is_valid_base_slug slug"
    using slugify_valid assms(2,5) by blast
  have "utc_in_range (utc_microseconds t)"
    using assms(1) by (auto simp: canonical_utc_wire_def split: if_splits)
  then obtain p where p: "page_id_timestamp_prefix (utc_microseconds t) = Inr p"
    by (auto simp: page_id_timestamp_prefix_def Let_def)
  note x = page_id_text_pieces [OF prefix_valid [OF p] s(2) assms(3,4)]
  note v = page_id_text_validates [OF x] and l = page_id_text_length [OF x]
  show ?thesis
    using assms(1,3,4) s(1) p x v l
    by (simp add: generate_page_id_def validate_collision_ordinal_def Let_def)
qed

text \<open>C28: for every instant in range, every title without surrogates and every ordinal up to
  the maximum, generation succeeds, its own validation of the result never fails, and the
  identifier is the prefix, the slug and the ordinal's suffix, at most 80 characters. The digest
  function is only assumed to return 32 bytes.\<close>

theorem generate_page_id_total:
  assumes "canonical_utc_wire (utc_microseconds t) = Inr (canonical_utc t)"
    and "list_all is_scalar title" "1 \<le> n" "n \<le> MAX_COLLISION_ORDINAL"
    and "\<forall>b. length (sha b) = 32"
  shows "\<exists>g. generate_page_id sha t title n = Inr g
    \<and> validate_page_id (gp_value g) = Inr (gp_value g) \<and> length (gp_value g) \<le> 80
    \<and> gp_collision_ordinal g = n
    \<and> page_id_timestamp_prefix (utc_microseconds t) = Inr (gp_timestamp_prefix g)
    \<and> slugify_creation_title sha title = Inr (gp_base_slug g)
    \<and> page_id_text (gp_value g) (gp_timestamp_prefix g) (gp_base_slug g)
        (if n = 1 then [] else lit ''-'' @ dec_str (nat n))"
  by (rule generate_page_id_defined [OF assms])

lemma generate_page_id_total_witness:
  "\<exists>g. generate_page_id (\<lambda>_. replicate 32 0)
      \<lparr>utc_microseconds = 0, canonical_utc = format_utc_microseconds 0\<rparr> (lit ''Hello, World'') 2 = Inr g
    \<and> length (gp_value g) \<le> 80"
  using generate_page_id_total [of "\<lparr>utc_microseconds = 0, canonical_utc = format_utc_microseconds 0\<rparr>"
      "lit ''Hello, World''" 2 "\<lambda>_. replicate 32 0"]
  by (auto simp: canonical_utc_wire_def utc_in_range_def MIN_value MAX_value lit_def is_scalar_def
      is_surrogate_def MAX_COLLISION_ORDINAL_def)

lemma generate_page_id_parts:
  assumes "generate_page_id sha t title n = Inr g"
  shows "gp_value g = gp_timestamp_prefix g @ [45] @ gp_base_slug g
      @ (if n = 1 then [] else 45 # dec_str (nat n))"
    and "length (gp_timestamp_prefix g) = 19" "1 \<le> n"
  using assms prefix_ascii(2) [OF prefix_valid]
  by (auto simp: generate_page_id_def validate_collision_ordinal_def Let_def result_simps
      split: if_splits)

text \<open>C30: on one title and instant, two collision ordinals never give the same identifier, so
  counting the ordinal up reaches a fresh identifier.\<close>

theorem generate_page_id_ordinal_inj:
  assumes "generate_page_id sha t title n = Inr g" "generate_page_id sha t title n' = Inr g'"
  shows "gp_value g = gp_value g' \<longleftrightarrow> n = n'"
proof -
  have e: "gp_timestamp_prefix g = gp_timestamp_prefix g'" "gp_base_slug g = gp_base_slug g'"
    using assms by (auto simp: generate_page_id_def validate_collision_ordinal_def Let_def
        result_simps split: if_splits)
  note p = generate_page_id_parts [OF assms(1)] and p' = generate_page_id_parts [OF assms(2)]
  have "n = n'" if "gp_value g = gp_value g'"
  proof -
    have "(if n = 1 then [] else 45 # dec_str (nat n)) = (if n' = 1 then [] else 45 # dec_str (nat n'))"
      using that p(1) p'(1) e by simp
    then have "n = n' \<or> dec_str (nat n) = dec_str (nat n')" by (auto split: if_splits)
    then show ?thesis using dec_str_inj [of "nat n" "nat n'"] p(3) p'(3) by auto
  qed
  moreover have "gp_value g = gp_value g'" if "n = n'" using assms that by simp
  ultimately show ?thesis by blast
qed

lemma sample_generated_ids:
  assumes "1 \<le> n" "n \<le> 10"
  obtains g where "generate_page_id (\<lambda>_. replicate 32 0)
      \<lparr>utc_microseconds = 0, canonical_utc = format_utc_microseconds 0\<rparr> (lit ''Hello'') n = Inr g"
  using that generate_page_id_defined [of "\<lparr>utc_microseconds = 0, canonical_utc = format_utc_microseconds 0\<rparr>"
      "lit ''Hello''" n "\<lambda>_. replicate 32 0"] assms
  by (auto simp: canonical_utc_wire_def utc_in_range_def MIN_value MAX_value lit_def is_scalar_def
      is_surrogate_def MAX_COLLISION_ORDINAL_def)

lemma generate_page_id_ordinal_inj_witness:
  "\<exists>g g'. generate_page_id (\<lambda>_. replicate 32 0)
        \<lparr>utc_microseconds = 0, canonical_utc = format_utc_microseconds 0\<rparr> (lit ''Hello'') 1 = Inr g
    \<and> generate_page_id (\<lambda>_. replicate 32 0)
        \<lparr>utc_microseconds = 0, canonical_utc = format_utc_microseconds 0\<rparr> (lit ''Hello'') 2 = Inr g'
    \<and> gp_value g \<noteq> gp_value g'"
proof -
  obtain g where g: "generate_page_id (\<lambda>_. replicate 32 0)
      \<lparr>utc_microseconds = 0, canonical_utc = format_utc_microseconds 0\<rparr> (lit ''Hello'') 1 = Inr g"
    by (rule sample_generated_ids [of 1]) simp_all
  obtain g' where g': "generate_page_id (\<lambda>_. replicate 32 0)
      \<lparr>utc_microseconds = 0, canonical_utc = format_utc_microseconds 0\<rparr> (lit ''Hello'') 2 = Inr g'"
    by (rule sample_generated_ids [of 2]) simp_all
  show ?thesis using generate_page_id_ordinal_inj [OF g g'] g g' by simp
qed

section \<open>The slug loop and its reference\<close>

text \<open>The words of a title: its maximal runs of mapped characters.\<close>

fun slug_words :: "pystr \<Rightarrow> pystr list" where
  "slug_words [] = []"
| "slug_words (c # cs) =
     (case slug_char c of
        None \<Rightarrow> slug_words cs
      | Some m \<Rightarrow>
          (case cs of [] \<Rightarrow> [[m]]
           | d # _ \<Rightarrow> if slug_char d = None then [m] # slug_words cs
                     else (m # hd (slug_words cs)) # tl (slug_words cs)))"

fun join_dash :: "pystr list \<Rightarrow> pystr" where
  "join_dash [] = []"
| "join_dash [w] = w"
| "join_dash (w # ws) = w @ [45] @ join_dash ws"

definition starts_word :: "pystr \<Rightarrow> bool" where
  "starts_word cs \<longleftrightarrow> cs \<noteq> [] \<and> slug_char (hd cs) \<noteq> None"

lemma slug_words_nonempty: "starts_word cs \<Longrightarrow> slug_words cs \<noteq> []"
  by (cases cs) (auto simp: starts_word_def split: list.splits if_splits)

lemma slug_words_cons:
  assumes "slug_char c = Some m"
  shows "slug_words (c # cs) =
    (if starts_word cs then (m # hd (slug_words cs)) # tl (slug_words cs) else [m] # slug_words cs)"
  using assms by (cases cs) (auto simp: starts_word_def)

text \<open>What the untruncated loop still appends after \<open>out\<close>.\<close>

definition slug_rest :: "pystr \<Rightarrow> bool \<Rightarrow> pystr \<Rightarrow> pystr" where
  "slug_rest out pending cs =
     (if out = [] \<or> slug_words cs = [] \<or> (\<not> pending \<and> starts_word cs) then join_dash (slug_words cs)
      else 45 # join_dash (slug_words cs))"

lemma join_dash_Cons: "join_dash (w # ws) = w @ (if ws = [] then [] else 45 # join_dash ws)"
  by (cases ws) auto

lemma slug_push_take:
  "slug_push (take 48 out) pending m =
     take 48 (out @ (if pending \<and> out \<noteq> [] then [45, m] else [m]))"
  by (auto simp: slug_push_def MAX_BASE_SLUG_BYTES_def Let_def min_def take_Cons split: nat.splits)

lemma slug_rest_char:
  assumes "slug_char c = Some m"
  shows "slug_rest out pending (c # cs) =
    (if pending \<and> out \<noteq> [] then [45, m] else [m]) @ slug_rest (out @ [m]) False cs"
  using assms slug_words_nonempty [of cs]
  by (auto simp: slug_rest_def slug_words_cons join_dash_Cons starts_word_def
      simp del: slug_words.simps split: if_splits)
    (auto simp: neq_Nil_conv join_dash_Cons)

lemma slug_loop_reference:
  assumes "\<not> list_ex is_surrogate cs"
  shows "slug_loop cs (take 48 out) pending seen =
    Inr (take 48 (out @ slug_rest out pending cs), seen \<or> slug_words cs \<noteq> [])"
  using assms
proof (induction cs arbitrary: out pending seen)
  case Nil
  then show ?case by (simp add: slug_rest_def)
next
  case (Cons c cs)
  show ?case
  proof (cases "slug_char c")
    case None
    then have "slug_rest out pending (c # cs) = slug_rest out True cs"
      by (simp add: slug_rest_def starts_word_def)
    then show ?thesis using Cons None by simp
  next
    case (Some m)
    let ?o = "out @ (if pending \<and> out \<noteq> [] then [45, m] else [m])"
    have "slug_loop (c # cs) (take 48 out) pending seen = slug_loop cs (take 48 ?o) False True"
      using Cons.prems Some by (simp add: slug_push_take)
    also have "\<dots> = Inr (take 48 (?o @ slug_rest ?o False cs), True)"
      using Cons.IH [of ?o False True] Cons.prems by (simp del: take_append)
    also have "?o @ slug_rest ?o False cs = out @ slug_rest out pending (c # cs)"
      using slug_rest_char [OF Some, of out pending cs] by (simp add: slug_rest_def)
    finally show ?thesis using Some by (simp split: list.splits)
  qed
qed

text \<open>C31: the character loop computes the reference: the lower-cased words of the title joined
  by dashes, cut to 48 characters, a dash left by the cut removed; a title without a single ASCII
  letter or digit takes the digest fallback, and a surrogate anywhere is refused.\<close>

theorem slugify_reference:
  "slugify_creation_title sha title =
     (if list_ex is_surrogate title then Inl InvalidPageTitle
      else if slug_words title \<noteq> [] then Inr (rstrip 45 (take 48 (join_dash (slug_words title))))
      else bindR (optionR InvalidPageTitle (utf8_encode title))
             (\<lambda>e. Inr (lit ''page-'' @ take 12 (hex_bytes (sha e)))))"
proof (cases "list_ex is_surrogate title")
  case True
  then show ?thesis by (simp add: slugify_creation_title_def slug_loop_surrogate)
next
  case False
  have l: "slug_loop title [] False False =
      Inr (take 48 (join_dash (slug_words title)), slug_words title \<noteq> [])"
    using slug_loop_reference [OF False, of "[]" False False] by (simp add: slug_rest_def)
  have "rstrip 45 (take 48 (join_dash (slug_words title))) \<noteq> []" if "slug_words title \<noteq> []"
  proof -
    let ?o = "take 48 (join_dash (slug_words title))"
    have "slug_out ?o \<and> (slug_words title \<noteq> [] \<longleftrightarrow> ?o \<noteq> [])"
      by (rule slug_loop_out [OF l]) (simp_all add: slug_out_def)
    then show ?thesis using that slug_out_rstrip [of ?o] by (auto simp: is_valid_base_slug_def)
  qed
  then show ?thesis using l False by (auto simp: slugify_creation_title_def)
qed

end
