(* ===== verification/RevisionIds.thy ===== *)
theory RevisionIds
  imports Utf8
begin

text \<open>
  Random identifiers and their validators: \<open>patchouli_lib/identifiers/revision_ids.py\<close>. The
  entropy source is a parameter, the \<open>i\<close>-th draw of \<open>secrets.token_bytes(16)\<close>; the reservation
  callback is a function on a state of its own.
\<close>

datatype identifier_error =
  IdentifierGeneration | InvalidPageUid | InvalidRevisionId | InvalidRevisionNumber

definition RANDOM_IDENTIFIER_BYTES :: nat where "RANDOM_IDENTIFIER_BYTES = 16"
definition MAX_REVISION_NUMBER :: int where "MAX_REVISION_NUMBER = 2 ^ 63 - 1"
definition DEFAULT_COLLISION_ATTEMPTS :: int where "DEFAULT_COLLISION_ATTEMPTS = 8"

definition random_identifier_bytes :: "bytes \<Rightarrow> identifier_error + bytes" where
  "random_identifier_bytes candidate =
     (if length candidate \<noteq> RANDOM_IDENTIFIER_BYTES then Inl IdentifierGeneration else Inr candidate)"

definition validate_max_attempts :: "int \<Rightarrow> identifier_error + int" where
  "validate_max_attempts n = (if n < 1 then Inl IdentifierGeneration else Inr n)"

definition generate_page_uid :: "bytes \<Rightarrow> identifier_error + bytes" where
  "generate_page_uid draw = random_identifier_bytes draw"

definition generate_revision_id :: "bytes \<Rightarrow> identifier_error + pystr" where
  "generate_revision_id draw =
     bindR (random_identifier_bytes draw) (\<lambda>b. Inr (lit ''rev_'' @ hex_bytes b))"

text \<open>The bounded loop that both reservations share: draw, try, draw again.\<close>

fun unique_loop ::
  "nat \<Rightarrow> ('c \<Rightarrow> 's \<Rightarrow> bool \<times> 's) \<Rightarrow> (nat \<Rightarrow> identifier_error + 'c) \<Rightarrow> nat \<Rightarrow> 's
    \<Rightarrow> (identifier_error + 'c) \<times> 's" where
  "unique_loop 0 reserve draw i s = (Inl IdentifierGeneration, s)"
| "unique_loop (Suc n) reserve draw i s =
     (case draw i of
        Inl e \<Rightarrow> (Inl e, s)
      | Inr candidate \<Rightarrow>
          (case reserve candidate s of (ok, s') \<Rightarrow>
             if ok then (Inr candidate, s') else unique_loop n reserve draw (Suc i) s'))"

definition generate_unique_page_uid ::
  "(bytes \<Rightarrow> 's \<Rightarrow> bool \<times> 's) \<Rightarrow> (nat \<Rightarrow> bytes) \<Rightarrow> int \<Rightarrow> 's \<Rightarrow> (identifier_error + bytes) \<times> 's" where
  "generate_unique_page_uid reserve token_bytes max_attempts s =
     (case validate_max_attempts max_attempts of
        Inl e \<Rightarrow> (Inl e, s)
      | Inr attempts \<Rightarrow>
          unique_loop (nat attempts) reserve (\<lambda>i. generate_page_uid (token_bytes i)) 0 s)"

definition generate_unique_revision_id ::
  "(pystr \<Rightarrow> 's \<Rightarrow> bool \<times> 's) \<Rightarrow> (nat \<Rightarrow> bytes) \<Rightarrow> int \<Rightarrow> 's \<Rightarrow> (identifier_error + pystr) \<times> 's" where
  "generate_unique_revision_id reserve token_bytes max_attempts s =
     (case validate_max_attempts max_attempts of
        Inl e \<Rightarrow> (Inl e, s)
      | Inr attempts \<Rightarrow>
          unique_loop (nat attempts) reserve (\<lambda>i. generate_revision_id (token_bytes i)) 0 s)"

definition validate_page_uid :: "bytes \<Rightarrow> identifier_error + bytes" where
  "validate_page_uid v =
     (if length v \<noteq> RANDOM_IDENTIFIER_BYTES then Inl InvalidPageUid else Inr v)"

text \<open>\<open>rev_[0-9a-f]{32}\<close>\<close>

definition revision_id_pattern :: "pystr \<Rightarrow> bool" where
  "revision_id_pattern v \<longleftrightarrow>
     length v = 36 \<and> take 4 v = lit ''rev_'' \<and> list_all is_lower_hex (drop 4 v)"

definition validate_revision_id :: "pystr \<Rightarrow> identifier_error + pystr" where
  "validate_revision_id v = (if revision_id_pattern v then Inr v else Inl InvalidRevisionId)"

definition validate_revision_number :: "int \<Rightarrow> identifier_error + int" where
  "validate_revision_number n =
     (if \<not> (1 \<le> n \<and> n \<le> MAX_REVISION_NUMBER) then Inl InvalidRevisionNumber else Inr n)"

section \<open>Generated identifiers\<close>

lemma lit_rev: "lit ''rev_'' = [114, 101, 118, 95]"
  by code_simp

lemma generate_revision_id_valid:
  "generate_revision_id draw = Inr r \<Longrightarrow> validate_revision_id r = Inr r"
  using hex_bytes_lower_hex [of draw]
  by (auto simp: generate_revision_id_def random_identifier_bytes_def RANDOM_IDENTIFIER_BYTES_def
      validate_revision_id_def revision_id_pattern_def lit_rev split: if_splits)

lemma generate_page_uid_valid:
  "generate_page_uid draw = Inr u \<Longrightarrow> validate_page_uid u = Inr u"
  by (auto simp: generate_page_uid_def random_identifier_bytes_def validate_page_uid_def split: if_splits)

lemma generate_revision_id_inj:
  "generate_revision_id d = Inr r \<Longrightarrow> generate_revision_id d' = Inr r \<Longrightarrow> d = d'"
  by (auto simp: generate_revision_id_def random_identifier_bytes_def split: if_splits
      dest!: hex_bytes_inj)

text \<open>The states the loop passes through while its candidates are refused.\<close>

fun refused :: "nat \<Rightarrow> ('c \<Rightarrow> 's \<Rightarrow> bool \<times> 's) \<Rightarrow> (nat \<Rightarrow> identifier_error + 'c) \<Rightarrow> nat \<Rightarrow> 's \<Rightarrow> 's option" where
  "refused 0 reserve draw i s = Some s"
| "refused (Suc k) reserve draw i s =
     (case draw i of
        Inl e \<Rightarrow> None
      | Inr candidate \<Rightarrow>
          (case reserve candidate s of (ok, s') \<Rightarrow> if ok then None else refused k reserve draw (Suc i) s'))"

lemma unique_loop_Inr:
  "fst (unique_loop n reserve draw i s) = Inr c \<longleftrightarrow>
     (\<exists>k s'. k < n \<and> refused k reserve draw i s = Some s' \<and> draw (i + k) = Inr c
       \<and> fst (reserve c s') \<and> snd (unique_loop n reserve draw i s) = snd (reserve c s'))"
proof (induction n arbitrary: i s)
  case 0
  then show ?case by simp
next
  case (Suc n)
  show ?case
  proof (cases "draw i")
    case (Inl e)
    then have "refused k reserve draw i s = Some s' \<longleftrightarrow> k = 0 \<and> s' = s" for k s' by (cases k) auto
    then show ?thesis using Inl by simp
  next
    case (Inr d)
    obtain ok s1 where r: "reserve d s = (ok, s1)" by force
    show ?thesis
    proof (cases ok)
      case True
      then have "refused k reserve draw i s = Some s' \<longleftrightarrow> k = 0 \<and> s' = s" for k s'
        using Inr r by (cases k) auto
      then show ?thesis using Inr r True by auto
    next
      case False
      have "(\<exists>k s'. k < Suc n \<and> refused k reserve draw i s = Some s' \<and> draw (i + k) = Inr c
          \<and> fst (reserve c s') \<and> P s') \<longleftrightarrow>
        (\<exists>k s'. k < n \<and> refused k reserve draw (Suc i) s1 = Some s' \<and> draw (Suc i + k) = Inr c
          \<and> fst (reserve c s') \<and> P s')" for P
      proof
        assume "\<exists>k s'. k < Suc n \<and> refused k reserve draw i s = Some s' \<and> draw (i + k) = Inr c
          \<and> fst (reserve c s') \<and> P s'"
        then obtain k s' where "k < Suc n" "refused k reserve draw i s = Some s'"
          "draw (i + k) = Inr c" "fst (reserve c s')" "P s'" by blast
        then show "\<exists>k s'. k < n \<and> refused k reserve draw (Suc i) s1 = Some s'
          \<and> draw (Suc i + k) = Inr c \<and> fst (reserve c s') \<and> P s'"
          using Inr r False by (cases k) auto
      next
        assume "\<exists>k s'. k < n \<and> refused k reserve draw (Suc i) s1 = Some s'
          \<and> draw (Suc i + k) = Inr c \<and> fst (reserve c s') \<and> P s'"
        then obtain k s' where "k < n" "refused k reserve draw (Suc i) s1 = Some s'"
          "draw (Suc i + k) = Inr c" "fst (reserve c s')" "P s'" by blast
        then show "\<exists>k s'. k < Suc n \<and> refused k reserve draw i s = Some s' \<and> draw (i + k) = Inr c
          \<and> fst (reserve c s') \<and> P s'"
          using Inr r False by (intro exI [of _ "Suc k"]) auto
      qed
      from this [of "\<lambda>s'. snd (unique_loop n reserve draw (Suc i) s1) = snd (reserve c s')"]
      show ?thesis using Suc.IH [of "Suc i" s1] Inr r False by simp
    qed
  qed
qed

text \<open>The bounded allocation of a Revision identifier returns a candidate exactly when one of
  the first \<open>max_attempts\<close> draws is accepted after all earlier ones were well-formed and refused;
  it returns the first such candidate, and the reservation state is the one that draw left.\<close>

theorem generate_unique_revision_id_first:
  "fst (generate_unique_revision_id reserve token_bytes max_attempts s) = Inr r \<longleftrightarrow>
     (\<exists>k s'. int k < max_attempts
       \<and> refused k reserve (\<lambda>i. generate_revision_id (token_bytes i)) 0 s = Some s'
       \<and> generate_revision_id (token_bytes k) = Inr r \<and> fst (reserve r s')
       \<and> snd (generate_unique_revision_id reserve token_bytes max_attempts s) = snd (reserve r s'))"
proof (cases "max_attempts < 1")
  case True
  then show ?thesis by (auto simp: generate_unique_revision_id_def validate_max_attempts_def)
next
  case False
  then have "k < nat max_attempts \<longleftrightarrow> int k < max_attempts" for k by linarith
  then show ?thesis
    using False unique_loop_Inr [of "nat max_attempts" reserve
        "\<lambda>i. generate_revision_id (token_bytes i)" 0 s r]
    by (simp add: generate_unique_revision_id_def validate_max_attempts_def)
qed

end
