(* ===== verification/PageStore.thy ===== *)
theory PageStore
  imports PageIdGrammar RevisionIds
begin

text \<open>
  The content tables and the statements that change them: \<open>content/models.py\<close>,
  \<open>content/page_move_models.py\<close>, the triggers the migrations leave in force, and
  \<open>content/repository.py\<close>. A table is the list of its rows in insertion order. A statement
  either fails, and the transaction it belongs to is rolled back, or returns the next database;
  a \<open>RAISE(ABORT)\<close>, a \<open>CHECK\<close>, a uniqueness or an immediate foreign key violation is
  \<open>SqlError\<close>.
\<close>

section \<open>Rows\<close>

type_synonym page_key = "pystr \<times> bytes"
type_synonym rev_key = "pystr \<times> bytes \<times> pystr \<times> int"

record page =
  pg_library_id :: pystr
  pg_page_uid :: bytes
  pg_section_id :: pystr
  pg_book_id :: pystr
  pg_page_id :: pystr
  pg_id_scheme :: pystr
  pg_id_timestamp_micros :: int
  pg_base_slug :: pystr
  pg_collision_ordinal :: int
  pg_title :: pystr
  pg_page_type :: pystr
  pg_occurred_at :: int
  pg_current_revision_id :: pystr
  pg_current_revision_number :: int
  pg_created_at :: int
  pg_updated_at :: int
  pg_deleted_at :: "int option"

record revision =
  rv_library_id :: pystr
  rv_revision_id :: pystr
  rv_page_uid :: bytes
  rv_revision_number :: int
  rv_content_md :: "bytes option"
  rv_content_size_bytes :: "int option"
  rv_content_sha256 :: "bytes option"
  rv_created_at :: int

record revision_file_set =
  fs_key :: rev_key
  fs_storage_format :: pystr
  fs_file_count :: int
  fs_total_size_bytes :: int
  fs_snapshot_sha256 :: "bytes option"

record revision_file =
  rf_key :: rev_key
  rf_filename :: pystr
  rf_content_bytes :: bytes
  rf_size_bytes :: int
  rf_content_sha256 :: bytes

record page_identifier =
  pi_library_id :: pystr
  pi_identifier_digest :: bytes
  pi_identifier_text :: pystr
  pi_id_scheme :: pystr
  pi_identifier_kind :: pystr
  pi_page_uid :: bytes
  pi_created_at :: int

record collision_counter =
  cc_library_id :: pystr
  cc_id_scheme :: pystr
  cc_id_timestamp_micros :: int
  cc_base_slug :: pystr
  cc_next_ordinal :: int

record page_source =
  so_library_id :: pystr
  so_source_id :: pystr
  so_page_uid :: bytes
  so_revision_id :: pystr
  so_revision_number :: int
  so_kind :: pystr
  so_locator :: "pystr option"
  so_captured_at :: "int option"
  so_created_at :: int

text \<open>The event tables and their guard tables. A guard of an occurrence correction has no
  revision number; the other two guards have the columns of their events.\<close>

record correction_guard =
  cg_library_id :: pystr
  cg_page_uid :: bytes
  cg_sequence :: int
  cg_old_occurred_at :: int
  cg_new_occurred_at :: int
  cg_actor_caller_id :: "pystr option"
  cg_actor_home_library_id :: "pystr option"
  cg_master_audit_event_id :: "pystr option"
  cg_corrected_at :: int

record correction =
  co_guard :: correction_guard
  co_at_revision_number :: int

record lifecycle_event =
  le_library_id :: pystr
  le_page_uid :: bytes
  le_sequence :: int
  le_action :: pystr
  le_section_id :: pystr
  le_old_deleted_at :: "int option"
  le_old_updated_at :: int
  le_changed_at :: int
  le_at_revision_number :: int
  le_occurred_at_at_event :: int
  le_actor_caller_id :: "pystr option"
  le_actor_home_library_id :: "pystr option"
  le_master_audit_event_id :: "pystr option"
  le_request_id :: pystr

record title_event =
  te_library_id :: pystr
  te_page_uid :: bytes
  te_sequence :: int
  te_old_title :: pystr
  te_new_title :: pystr
  te_old_updated_at :: int
  te_changed_at :: int
  te_at_revision_number :: int
  te_master_audit_event_id :: pystr

record move_event =
  me_library_id :: pystr
  me_page_uid :: bytes
  me_sequence :: int
  me_old_section_id :: pystr
  me_old_book_id :: pystr
  me_new_section_id :: pystr
  me_new_book_id :: pystr
  me_old_updated_at :: int
  me_changed_at :: int
  me_at_revision_id :: pystr
  me_at_revision_number :: int
  me_occurred_at_at_event :: int
  me_master_audit_event_id :: "pystr option"
  me_caller_audit_event_id :: "pystr option"

record audit_event =
  au_id :: pystr
  au_library_id :: pystr
  au_actor_home_library_id :: "pystr option"
  au_actor_caller_id :: "pystr option"
  au_actor_credential_id :: "pystr option"
  au_action :: pystr
  au_resource_type :: pystr
  au_resource_id :: pystr
  au_outcome :: pystr
  au_request_id :: pystr
  au_occurred_at :: int

record master_audit_event =
  ma_id :: pystr
  ma_identity_id :: pystr
  ma_session_generation :: int
  ma_session_fingerprint :: bytes
  ma_action :: pystr
  ma_target_type :: pystr
  ma_target_id :: pystr
  ma_occurred_at :: int

record book_row =
  bk_id :: pystr
  bk_section_id :: pystr
  bk_library_id :: pystr

record content_db =
  t_books :: "book_row list"
  t_pages :: "page list"
  t_revisions :: "revision list"
  t_file_sets :: "revision_file_set list"
  t_files :: "revision_file list"
  t_seals :: "rev_key list"
  t_seal_guards :: "rev_key list"
  t_identifiers :: "page_identifier list"
  t_counters :: "collision_counter list"
  t_sources :: "page_source list"
  t_append_guards :: "rev_key list"
  t_corrections :: "correction list"
  t_correction_guards :: "correction_guard list"
  t_lifecycle_events :: "lifecycle_event list"
  t_lifecycle_guards :: "lifecycle_event list"
  t_title_events :: "title_event list"
  t_move_events :: "move_event list"
  t_move_guards :: "move_event list"
  t_audits :: "audit_event list"
  t_master_audits :: "master_audit_event list"

datatype archive_error =
    SqlError | StaleContent | BadValue | TransactionRequired
  | ArchiveNotFound | PreconditionRequired | PreconditionFailed | UnsupportedRevisionFormat
  | OccurrenceUnchanged | LifecycleUnchanged | ArchivePersistence | IdentifierExhausted
  | IdentifierAllocation | ReplayCorrupt | AuthenticationFailed | AuthorizationFailed
  | IdempotencyConflict | IdempotencyPersistence | PageMoveNotFound | HistoryInconsistent
  | CredentialExpiry | CredentialPersistence | IdentifierGenerationFailed

definition page_key :: "page \<Rightarrow> page_key" where
  "page_key p = (pg_library_id p, pg_page_uid p)"

definition rev_page_key :: "revision \<Rightarrow> page_key" where
  "rev_page_key r = (rv_library_id r, rv_page_uid r)"

definition rev_key :: "revision \<Rightarrow> rev_key" where
  "rev_key r = (rv_library_id r, rv_page_uid r, rv_revision_id r, rv_revision_number r)"

definition cg_key :: "correction_guard \<Rightarrow> page_key" where
  "cg_key g = (cg_library_id g, cg_page_uid g)"

definition co_key :: "correction \<Rightarrow> page_key" where
  "co_key c = cg_key (co_guard c)"

definition le_key :: "lifecycle_event \<Rightarrow> page_key" where
  "le_key e = (le_library_id e, le_page_uid e)"

definition te_key :: "title_event \<Rightarrow> page_key" where
  "te_key e = (te_library_id e, te_page_uid e)"

definition me_key :: "move_event \<Rightarrow> page_key" where
  "me_key e = (me_library_id e, me_page_uid e)"

definition find_page :: "content_db \<Rightarrow> page_key \<Rightarrow> page option" where
  "find_page db k = find (\<lambda>p. page_key p = k) (t_pages db)"

definition next_sequence :: "('r \<Rightarrow> page_key) \<Rightarrow> ('r \<Rightarrow> int) \<Rightarrow> page_key \<Rightarrow> 'r list \<Rightarrow> int" where
  "next_sequence key seq k rows = foldr max (map seq (filter (\<lambda>r. key r = k) rows)) 0 + 1"

section \<open>Column checks\<close>

definition MAX_I64 :: int where "MAX_I64 = 2 ^ 63 - 1"
definition MAX_MARKDOWN_BYTES :: int where "MAX_MARKDOWN_BYTES = 2 * 1024 * 1024"
definition PAGE_ID_SCHEME :: pystr where "PAGE_ID_SCHEME = lit ''page-v1''"

definition id_chars :: "pystr \<Rightarrow> bool" where
  "id_chars s \<longleftrightarrow> list_all (\<lambda>c. is_lower c \<or> is_digit c \<or> c = 45) s"

definition no_double_dash :: "pystr \<Rightarrow> bool" where
  "no_double_dash s \<longleftrightarrow> list_all (\<lambda>(a, b). \<not> (a = 45 \<and> b = 45)) (zip s (tl s))"

definition base_slug_check :: "pystr \<Rightarrow> bool" where
  "base_slug_check s \<longleftrightarrow>
     1 \<le> length s \<and> length s \<le> 48 \<and> id_chars s \<and> hd s \<noteq> 45 \<and> last s \<noteq> 45 \<and> no_double_dash s"

definition text_check :: "pystr \<Rightarrow> bool" where
  "text_check s \<longleftrightarrow> s \<noteq> [] \<and> 0 \<notin> set s"

definition trimmed :: "pystr \<Rightarrow> bool" where
  "trimmed s \<longleftrightarrow> s = [] \<or> (hd s \<noteq> 32 \<and> last s \<noteq> 32)"

definition occurrence_check :: "int \<Rightarrow> bool" where
  "occurrence_check t \<longleftrightarrow> MIN_UTC_MICROSECONDS \<le> t \<and> t \<le> MAX_UTC_MICROSECONDS"

definition page_check :: "page \<Rightarrow> bool" where
  "page_check p \<longleftrightarrow>
     length (pg_page_uid p) = 16
     \<and> 1 \<le> length (pg_page_id p) \<and> length (pg_page_id p) \<le> 80 \<and> id_chars (pg_page_id p)
     \<and> pg_id_scheme p = PAGE_ID_SCHEME
     \<and> occurrence_check (pg_id_timestamp_micros p) \<and> pg_id_timestamp_micros p mod 1000 = 0
     \<and> base_slug_check (pg_base_slug p)
     \<and> 1 \<le> pg_collision_ordinal p \<and> pg_collision_ordinal p \<le> MAX_COLLISION_ORDINAL
     \<and> text_check (pg_title p)
     \<and> text_check (pg_page_type p) \<and> length (pg_page_type p) \<le> 32 \<and> trimmed (pg_page_type p)
     \<and> occurrence_check (pg_occurred_at p)
     \<and> 0 \<le> pg_created_at p \<and> pg_created_at p \<le> pg_updated_at p
     \<and> (case pg_deleted_at p of None \<Rightarrow> True
        | Some d \<Rightarrow> pg_created_at p \<le> d \<and> d \<le> pg_updated_at p)"

definition revision_check :: "revision \<Rightarrow> bool" where
  "revision_check r \<longleftrightarrow>
     revision_id_pattern (rv_revision_id r) \<and> length (rv_page_uid r) = 16
     \<and> 1 \<le> rv_revision_number r \<and> rv_revision_number r \<le> MAX_I64
     \<and> (case rv_content_md r of
          None \<Rightarrow> rv_content_size_bytes r = None \<and> rv_content_sha256 r = None
        | Some b \<Rightarrow> b \<noteq> [] \<and> int (length b) \<le> MAX_MARKDOWN_BYTES \<and> 0 \<notin> set b
            \<and> rv_content_size_bytes r = Some (int (length b))
            \<and> (case rv_content_sha256 r of None \<Rightarrow> False | Some d \<Rightarrow> length d = 32))
     \<and> 0 \<le> rv_created_at r"

definition identifier_check :: "page_identifier \<Rightarrow> bool" where
  "identifier_check i \<longleftrightarrow>
     length (pi_identifier_digest i) = 32
     \<and> 1 \<le> length (pi_identifier_text i) \<and> length (pi_identifier_text i) \<le> 80
     \<and> id_chars (pi_identifier_text i) \<and> pi_id_scheme i = PAGE_ID_SCHEME
     \<and> pi_identifier_kind i \<in> {lit ''canonical'', lit ''alias''} \<and> 0 \<le> pi_created_at i"

definition counter_check :: "collision_counter \<Rightarrow> bool" where
  "counter_check c \<longleftrightarrow>
     cc_id_scheme c = PAGE_ID_SCHEME
     \<and> occurrence_check (cc_id_timestamp_micros c) \<and> cc_id_timestamp_micros c mod 1000 = 0
     \<and> base_slug_check (cc_base_slug c)
     \<and> 2 \<le> cc_next_ordinal c \<and> cc_next_ordinal c \<le> MAX_COLLISION_ORDINAL + 1"

definition source_check :: "page_source \<Rightarrow> bool" where
  "source_check s \<longleftrightarrow>
     length (so_source_id s) = 32 \<and> list_all is_lower_hex (so_source_id s)
     \<and> revision_id_pattern (so_revision_id s)
     \<and> 1 \<le> so_revision_number s \<and> so_revision_number s \<le> MAX_I64
     \<and> text_check (so_kind s) \<and> length (so_kind s) \<le> 100 \<and> trimmed (so_kind s)
     \<and> (case so_locator s of None \<Rightarrow> True | Some l \<Rightarrow> text_check l)
     \<and> (case so_captured_at s of None \<Rightarrow> True | Some t \<Rightarrow> occurrence_check t)
     \<and> 0 \<le> so_created_at s"

text \<open>Exactly one of a caller and a master audit stands behind an event.\<close>

definition actor_kind_check :: "pystr option \<Rightarrow> pystr option \<Rightarrow> pystr option \<Rightarrow> bool" where
  "actor_kind_check caller home master \<longleftrightarrow>
     (caller \<noteq> None \<and> home \<noteq> None \<and> master = None) \<or> (caller = None \<and> home = None \<and> master \<noteq> None)"

definition request_id_check :: "pystr \<Rightarrow> bool" where
  "request_id_check r \<longleftrightarrow>
     length r = 36 \<and> take 4 r = lit ''req_'' \<and> list_all is_lower_hex (drop 4 r)"

definition correction_guard_check :: "correction_guard \<Rightarrow> bool" where
  "correction_guard_check g \<longleftrightarrow>
     actor_kind_check (cg_actor_caller_id g) (cg_actor_home_library_id g) (cg_master_audit_event_id g)
     \<and> 1 \<le> cg_sequence g \<and> cg_sequence g \<le> MAX_I64
     \<and> occurrence_check (cg_old_occurred_at g) \<and> occurrence_check (cg_new_occurred_at g)
     \<and> cg_old_occurred_at g \<noteq> cg_new_occurred_at g \<and> 0 \<le> cg_corrected_at g"

definition lifecycle_check :: "lifecycle_event \<Rightarrow> bool" where
  "lifecycle_check e \<longleftrightarrow>
     actor_kind_check (le_actor_caller_id e) (le_actor_home_library_id e) (le_master_audit_event_id e)
     \<and> 1 \<le> le_sequence e \<and> le_sequence e \<le> MAX_I64
     \<and> ((le_action e = lit ''delete'' \<and> le_old_deleted_at e = None)
        \<or> (le_action e = lit ''restore'' \<and> le_old_deleted_at e \<noteq> None))
     \<and> 0 \<le> le_old_updated_at e \<and> le_old_updated_at e < le_changed_at e \<and> le_changed_at e \<le> MAX_I64
     \<and> (case le_old_deleted_at e of None \<Rightarrow> True | Some d \<Rightarrow> 0 \<le> d \<and> d \<le> le_old_updated_at e)
     \<and> 1 \<le> le_at_revision_number e \<and> le_at_revision_number e \<le> MAX_I64
     \<and> occurrence_check (le_occurred_at_at_event e) \<and> request_id_check (le_request_id e)"

definition title_event_check :: "title_event \<Rightarrow> bool" where
  "title_event_check e \<longleftrightarrow>
     1 \<le> te_sequence e \<and> te_sequence e \<le> MAX_I64
     \<and> 1 \<le> te_at_revision_number e \<and> te_at_revision_number e \<le> MAX_I64
     \<and> text_check (te_old_title e) \<and> text_check (te_new_title e) \<and> te_old_title e \<noteq> te_new_title e
     \<and> 0 \<le> te_old_updated_at e \<and> te_old_updated_at e < te_changed_at e \<and> te_changed_at e \<le> MAX_I64"

definition move_check :: "move_event \<Rightarrow> bool" where
  "move_check e \<longleftrightarrow>
     (me_master_audit_event_id e = None) \<noteq> (me_caller_audit_event_id e = None)
     \<and> length (me_page_uid e) = 16 \<and> 1 \<le> me_sequence e \<and> me_sequence e \<le> MAX_I64
     \<and> (me_old_section_id e \<noteq> me_new_section_id e \<or> me_old_book_id e \<noteq> me_new_book_id e)
     \<and> 0 \<le> me_old_updated_at e \<and> me_old_updated_at e < me_changed_at e
     \<and> me_changed_at e \<le> MAX_UTC_MICROSECONDS
     \<and> 1 \<le> me_at_revision_number e \<and> me_at_revision_number e \<le> MAX_I64
     \<and> occurrence_check (me_occurred_at_at_event e)"

definition book_exists :: "content_db \<Rightarrow> pystr \<Rightarrow> pystr \<Rightarrow> pystr \<Rightarrow> bool" where
  "book_exists db library section book \<longleftrightarrow>
     list_ex (\<lambda>b. bk_library_id b = library \<and> bk_section_id b = section \<and> bk_id b = book) (t_books db)"

definition page_exists :: "content_db \<Rightarrow> page_key \<Rightarrow> bool" where
  "page_exists db k \<longleftrightarrow> list_ex (\<lambda>p. page_key p = k) (t_pages db)"

definition revision_exists :: "content_db \<Rightarrow> rev_key \<Rightarrow> bool" where
  "revision_exists db k \<longleftrightarrow> list_ex (\<lambda>r. rev_key r = k) (t_revisions db)"

text \<open>\<open>library_id || ':' || lower(hex(page_uid))\<close>, the target of a master audit.\<close>

definition page_target :: "page_key \<Rightarrow> pystr" where
  "page_target k = fst k @ lit '':'' @ hex_bytes (snd k)"

end
