(* ===== verification/PageTriggers.thy ===== *)
theory PageTriggers
  imports PageStore
begin

text \<open>
  The statements on the content tables with the triggers in force at the newest schema: each
  \<open>INSERT\<close> or \<open>UPDATE\<close> runs its \<open>BEFORE\<close> triggers, the column checks and keys, the change
  itself and its \<open>AFTER\<close> triggers. The guard tables have the page as primary key, so a query
  for the guard of a page is a lookup.
\<close>

type_synonym 'a sql = "archive_error + 'a"

section \<open>Inserts\<close>

definition insert_page :: "page \<Rightarrow> content_db \<Rightarrow> content_db sql" where
  "insert_page p db =
     (let own = filter (\<lambda>i. (pi_library_id i, pi_page_uid i) = page_key p) (t_identifiers db) in
      if pg_current_revision_number p \<noteq> 1 \<or> pg_deleted_at p \<noteq> None
         \<or> (own \<noteq> [] \<and> \<not> list_ex (\<lambda>i. pi_identifier_text i = pg_page_id p
                \<and> pi_identifier_kind i = lit ''canonical'') own)
         \<or> \<not> page_check p \<or> page_exists db (page_key p)
         \<or> list_ex (\<lambda>q. pg_library_id q = pg_library_id p \<and> pg_page_id q = pg_page_id p) (t_pages db)
         \<or> \<not> book_exists db (pg_library_id p) (pg_section_id p) (pg_book_id p)
      then Inl SqlError
      else Inr (db\<lparr>t_pages := t_pages db @ [p]\<rparr>))"

text \<open>\<open>trg_revision_file_seals_validate_insert\<close> and the key of the seals.\<close>

definition seal_complete :: "rev_key \<Rightarrow> content_db \<Rightarrow> bool" where
  "seal_complete k db \<longleftrightarrow>
     list_ex (\<lambda>r. rev_key r = k \<and> list_ex (\<lambda>m. fs_key m = k \<and>
        (let files = filter (\<lambda>f. rf_key f = k) (t_files db) in
          (fs_storage_format m = lit ''legacy_markdown'' \<and> length files = 1
            \<and> list_ex (\<lambda>f. rf_filename f = lit ''content.md''
                 \<and> rv_content_md r = Some (rf_content_bytes f)
                 \<and> rv_content_size_bytes r = Some (rf_size_bytes f)
                 \<and> rv_content_sha256 r = Some (rf_content_sha256 f)) files)
          \<or> (fs_storage_format m = lit ''file_set_v1'' \<and> rv_content_md r = None
            \<and> int (length files) = fs_file_count m
            \<and> sum_list (map rf_size_bytes files) = fs_total_size_bytes m)))
       (t_file_sets db)) (t_revisions db)"

definition insert_seal :: "rev_key \<Rightarrow> content_db \<Rightarrow> content_db sql" where
  "insert_seal k db =
     (if \<not> seal_complete k db \<or> k \<in> set (t_seals db) then Inl SqlError
      else Inr (db\<lparr>t_seals := t_seals db @ [k]\<rparr>))"

definition file_set_check :: "revision_file_set \<Rightarrow> bool" where
  "file_set_check m \<longleftrightarrow>
     (fs_storage_format m = lit ''legacy_markdown'' \<and> fs_file_count m = 1
       \<and> 1 \<le> fs_total_size_bytes m \<and> fs_total_size_bytes m \<le> MAX_MARKDOWN_BYTES
       \<and> fs_snapshot_sha256 m = None)
     \<or> (fs_storage_format m = lit ''file_set_v1'' \<and> 1 \<le> fs_file_count m \<and> fs_file_count m \<le> 64
       \<and> 0 \<le> fs_total_size_bytes m \<and> fs_total_size_bytes m \<le> 64 * 1024 * 1024
       \<and> (case fs_snapshot_sha256 m of None \<Rightarrow> False | Some d \<Rightarrow> length d = 32))"

definition insert_file_set :: "revision_file_set \<Rightarrow> content_db \<Rightarrow> content_db sql" where
  "insert_file_set m db =
     (if \<not> list_ex (\<lambda>r. rev_key r = fs_key m
            \<and> ((fs_storage_format m = lit ''legacy_markdown'' \<and> rv_content_md r \<noteq> None
                \<and> rv_content_size_bytes r = Some (fs_total_size_bytes m))
               \<or> (fs_storage_format m = lit ''file_set_v1'' \<and> rv_content_md r = None))) (t_revisions db)
         \<or> list_ex (\<lambda>e. fs_key e = fs_key m) (t_file_sets db) \<or> \<not> file_set_check m
      then Inl SqlError
      else Inr (db\<lparr>t_file_sets := t_file_sets db @ [m]\<rparr>))"

definition file_check :: "revision_file \<Rightarrow> bool" where
  "file_check f \<longleftrightarrow>
     rf_filename f \<noteq> []
     \<and> (case utf8_encode (rf_filename f) of None \<Rightarrow> False | Some b \<Rightarrow> length b \<le> 255)
     \<and> rf_filename f \<notin> {lit ''.'', lit ''..''}
     \<and> 47 \<notin> set (rf_filename f) \<and> 92 \<notin> set (rf_filename f) \<and> 0 \<notin> set (rf_filename f)
     \<and> trimmed (rf_filename f) \<and> last (rf_filename f) \<noteq> 46
     \<and> int (length (rf_content_bytes f)) \<le> 16 * 1024 * 1024
     \<and> rf_size_bytes f = int (length (rf_content_bytes f)) \<and> length (rf_content_sha256 f) = 32"

definition insert_file :: "revision_file \<Rightarrow> content_db \<Rightarrow> content_db sql" where
  "insert_file f db =
     (let legacy = list_ex (\<lambda>r. rev_key r = rf_key f \<and> rv_content_md r \<noteq> None) (t_revisions db) in
      if rf_key f \<in> set (t_seals db)
         \<or> (rf_filename f \<noteq> lit ''content.md'' \<and> legacy)
         \<or> list_ex (\<lambda>e. rf_key e = rf_key f \<and> rf_filename e = rf_filename f) (t_files db)
         \<or> \<not> revision_exists db (rf_key f) \<or> \<not> file_check f
      then Inl SqlError
      else let db' = db\<lparr>t_files := t_files db @ [f]\<rparr> in
           if legacy then insert_seal (rf_key f) db' else Inr db')"

text \<open>\<open>trg_revisions_mirror_content_file\<close>\<close>

definition mirror_content_file :: "revision \<Rightarrow> content_db \<Rightarrow> content_db sql" where
  "mirror_content_file r db =
     (case (rv_content_md r, rv_content_size_bytes r, rv_content_sha256 r) of
        (Some content, Some n, Some digest) \<Rightarrow>
          bindR (insert_file_set
             \<lparr>fs_key = rev_key r, fs_storage_format = lit ''legacy_markdown'', fs_file_count = 1,
              fs_total_size_bytes = n, fs_snapshot_sha256 = None\<rparr> db)
            (insert_file
             \<lparr>rf_key = rev_key r, rf_filename = lit ''content.md'', rf_content_bytes = content,
              rf_size_bytes = n, rf_content_sha256 = digest\<rparr>)
      | _ \<Rightarrow> Inr db)"

text \<open>\<open>trg_revisions_sequential_insert\<close>\<close>

definition revision_sequential :: "revision \<Rightarrow> content_db \<Rightarrow> bool" where
  "revision_sequential r db \<longleftrightarrow>
     list_ex (\<lambda>p. page_key p = rev_page_key r \<and>
       ((rv_revision_number r = 1 \<and> pg_current_revision_number p = 1
          \<and> pg_current_revision_id p = rv_revision_id r
          \<and> \<not> list_ex (\<lambda>x. rev_page_key x = rev_page_key r) (t_revisions db))
        \<or> (rv_revision_number r = pg_current_revision_number p + 1
          \<and> list_ex (\<lambda>x. rev_page_key x = rev_page_key r
                \<and> rv_revision_id x = pg_current_revision_id p
                \<and> rv_revision_number x = pg_current_revision_number p) (t_revisions db))))
     (t_pages db)"

definition append_guard_page :: "rev_key \<Rightarrow> page_key" where
  "append_guard_page k = (case k of (l, u, _, _) \<Rightarrow> (l, u))"

definition insert_revision :: "revision \<Rightarrow> content_db \<Rightarrow> content_db sql" where
  "insert_revision r db =
     (if \<not> revision_sequential r db \<or> \<not> revision_check r
         \<or> list_ex (\<lambda>x. rv_library_id x = rv_library_id r \<and> rv_revision_id x = rv_revision_id r)
             (t_revisions db)
         \<or> list_ex (\<lambda>x. rev_page_key x = rev_page_key r
              \<and> rv_revision_number x = rv_revision_number r) (t_revisions db)
         \<or> (rv_revision_number r > 1
            \<and> list_ex (\<lambda>g. append_guard_page g = rev_page_key r) (t_append_guards db))
      then Inl SqlError
      else
        let db1 = db\<lparr>t_revisions := t_revisions db @ [r]\<rparr>;
            db2 = (if rv_revision_number r > 1
                   then db1\<lparr>t_append_guards := t_append_guards db1 @ [rev_key r]\<rparr> else db1)
        in bindR (mirror_content_file r db2) (\<lambda>db3.
             Inr (db3\<lparr>t_seal_guards := t_seal_guards db3 @ [rev_key r]\<rparr>)))"

definition insert_identifier :: "page_identifier \<Rightarrow> content_db \<Rightarrow> content_db sql" where
  "insert_identifier i db =
     (let canonical = lit ''canonical'' in
      if list_ex (\<lambda>p. page_key p = (pi_library_id i, pi_page_uid i)
            \<and> ((pi_identifier_kind i = canonical \<and> pg_page_id p \<noteq> pi_identifier_text i)
               \<or> (pi_identifier_kind i = lit ''alias'' \<and> pg_page_id p = pi_identifier_text i)))
           (t_pages db)
         \<or> \<not> identifier_check i \<or> \<not> page_exists db (pi_library_id i, pi_page_uid i)
         \<or> list_ex (\<lambda>x. pi_library_id x = pi_library_id i
              \<and> (pi_identifier_digest x = pi_identifier_digest i
                 \<or> pi_identifier_text x = pi_identifier_text i
                 \<or> (pi_page_uid x = pi_page_uid i \<and> pi_identifier_kind x = canonical
                    \<and> pi_identifier_kind i = canonical))) (t_identifiers db)
      then Inl SqlError
      else Inr (db\<lparr>t_identifiers := t_identifiers db @ [i]\<rparr>))"

definition counter_key :: "collision_counter \<Rightarrow> pystr \<times> pystr \<times> int \<times> pystr" where
  "counter_key c = (cc_library_id c, cc_id_scheme c, cc_id_timestamp_micros c, cc_base_slug c)"

definition insert_counter :: "collision_counter \<Rightarrow> content_db \<Rightarrow> content_db sql" where
  "insert_counter c db =
     (if \<not> counter_check c \<or> list_ex (\<lambda>x. counter_key x = counter_key c) (t_counters db)
      then Inl SqlError
      else Inr (db\<lparr>t_counters := t_counters db @ [c]\<rparr>))"

definition insert_source :: "page_source \<Rightarrow> content_db \<Rightarrow> content_db sql" where
  "insert_source s db =
     (if \<not> source_check s \<or> \<not> page_exists db (so_library_id s, so_page_uid s)
         \<or> \<not> revision_exists db (so_library_id s, so_page_uid s, so_revision_id s, so_revision_number s)
         \<or> list_ex (\<lambda>x. so_library_id x = so_library_id s \<and> so_source_id x = so_source_id s) (t_sources db)
      then Inl SqlError
      else Inr (db\<lparr>t_sources := t_sources db @ [s]\<rparr>))"

definition insert_audit :: "audit_event \<Rightarrow> content_db \<Rightarrow> content_db sql" where
  "insert_audit a db =
     (if list_ex (\<lambda>x. au_id x = au_id a) (t_audits db) then Inl SqlError
      else Inr (db\<lparr>t_audits := t_audits db @ [a]\<rparr>))"

text \<open>The checks of \<open>admin_master_audit_events\<close>; the triggers of the table refuse every update and deletion.\<close>

definition lower_hex_32 :: "pystr \<Rightarrow> bool" where
  "lower_hex_32 s \<longleftrightarrow> length s = 32 \<and> list_all is_lower_hex s"

definition visible_ascii :: "pystr \<Rightarrow> bool" where
  "visible_ascii s \<longleftrightarrow> list_all (\<lambda>c. 33 \<le> c \<and> c \<le> 126) s"

definition master_audit_check :: "master_audit_event \<Rightarrow> bool" where
  "master_audit_check a \<longleftrightarrow>
     lower_hex_32 (ma_id a) \<and> lower_hex_32 (ma_identity_id a)
     \<and> ma_session_generation a \<ge> 1 \<and> ma_occurred_at a \<ge> 0 \<and> length (ma_session_fingerprint a) = 32
     \<and> 1 \<le> length (ma_action a) \<and> length (ma_action a) \<le> 100 \<and> visible_ascii (ma_action a)
     \<and> 1 \<le> length (ma_target_type a) \<and> length (ma_target_type a) \<le> 100
     \<and> list_all (\<lambda>c. 97 \<le> c \<and> c \<le> 122 \<or> c = 95) (ma_target_type a)
     \<and> 1 \<le> length (ma_target_id a) \<and> length (ma_target_id a) \<le> 200 \<and> visible_ascii (ma_target_id a)
     \<and> (ma_action a = lit ''auth.agent_token.reveal''
          \<longrightarrow> ma_target_type a = lit ''credential'' \<and> lower_hex_32 (ma_target_id a))"

definition insert_master_audit :: "master_audit_event \<Rightarrow> content_db \<Rightarrow> content_db sql" where
  "insert_master_audit a db =
     (if \<not> master_audit_check a \<or> list_ex (\<lambda>x. ma_id x = ma_id a) (t_master_audits db) then Inl SqlError
      else Inr (db\<lparr>t_master_audits := t_master_audits db @ [a]\<rparr>))"

text \<open>The master audit behind a guard: its identity, action, target and time.\<close>

definition master_audit_matches :: "content_db \<Rightarrow> pystr option \<Rightarrow> pystr \<Rightarrow> page_key \<Rightarrow> int \<Rightarrow> bool" where
  "master_audit_matches db event action k at \<longleftrightarrow>
     list_ex (\<lambda>a. Some (ma_id a) = event \<and> ma_action a = action \<and> ma_target_type a = lit ''page''
       \<and> ma_target_id a = page_target k \<and> ma_occurred_at a = at) (t_master_audits db)"

text \<open>\<open>trg_page_occurrence_guards_master_audit\<close>\<close>

definition master_correction_audited :: "content_db \<Rightarrow> correction_guard \<Rightarrow> bool" where
  "master_correction_audited db g \<longleftrightarrow>
     cg_master_audit_event_id g = None
     \<or> master_audit_matches db (cg_master_audit_event_id g) (lit ''content.page.occurrence.correct'') (cg_key g)
          (cg_corrected_at g)"

definition insert_correction_guard :: "correction_guard \<Rightarrow> content_db \<Rightarrow> content_db sql" where
  "insert_correction_guard g db =
     (if \<not> list_ex (\<lambda>p. page_key p = cg_key g \<and> pg_occurred_at p = cg_old_occurred_at g
            \<and> cg_corrected_at g > pg_updated_at p
            \<and> cg_sequence g = next_sequence co_key (\<lambda>c. cg_sequence (co_guard c)) (cg_key g)
                (t_corrections db)) (t_pages db)
         \<or> \<not> master_correction_audited db g
         \<or> \<not> correction_guard_check g
         \<or> list_ex (\<lambda>x. cg_key x = cg_key g) (t_correction_guards db)
      then Inl SqlError
      else Inr (db\<lparr>t_correction_guards := t_correction_guards db @ [g]\<rparr>))"

text \<open>\<open>trg_page_lifecycle_guards_master_audit\<close> as migration \<open>0025\<close> left it: a guard of the master session
  names the audit row of its own action, deletion or restoration.\<close>

definition master_lifecycle_audited :: "content_db \<Rightarrow> lifecycle_event \<Rightarrow> bool" where
  "master_lifecycle_audited db e \<longleftrightarrow>
     le_master_audit_event_id e = None
     \<or> (le_action e \<in> {lit ''delete'', lit ''restore''}
        \<and> master_audit_matches db (le_master_audit_event_id e) (lit ''content.archive.'' @ le_action e)
             (le_key e) (le_changed_at e))"

definition insert_lifecycle_guard :: "lifecycle_event \<Rightarrow> content_db \<Rightarrow> content_db sql" where
  "insert_lifecycle_guard e db =
     (if \<not> list_ex (\<lambda>p. page_key p = le_key e \<and> pg_section_id p = le_section_id e
            \<and> pg_deleted_at p = le_old_deleted_at e \<and> pg_updated_at p = le_old_updated_at e
            \<and> pg_current_revision_number p = le_at_revision_number e
            \<and> pg_occurred_at p = le_occurred_at_at_event e \<and> le_changed_at e > pg_updated_at p
            \<and> le_sequence e = next_sequence le_key le_sequence (le_key e) (t_lifecycle_events db))
           (t_pages db)
         \<or> \<not> master_lifecycle_audited db e
         \<or> \<not> lifecycle_check e
         \<or> list_ex (\<lambda>x. le_key x = le_key e) (t_lifecycle_guards db)
      then Inl SqlError
      else Inr (db\<lparr>t_lifecycle_guards := t_lifecycle_guards db @ [e]\<rparr>))"

definition move_audit_ok :: "content_db \<Rightarrow> move_event \<Rightarrow> pystr \<Rightarrow> bool" where
  "move_audit_ok db e page_id \<longleftrightarrow>
     (me_master_audit_event_id e \<noteq> None
       \<and> master_audit_matches db (me_master_audit_event_id e) (lit ''content.page.move'') (me_key e)
           (me_changed_at e))
     \<or> (me_caller_audit_event_id e \<noteq> None
       \<and> list_ex (\<lambda>a. Some (au_id a) = me_caller_audit_event_id e
            \<and> au_library_id a = me_library_id e \<and> au_action a = lit ''content.page.move''
            \<and> au_resource_type a = lit ''page'' \<and> au_resource_id a = page_id
            \<and> au_outcome a = lit ''succeeded'' \<and> au_occurred_at a = me_changed_at e) (t_audits db))"

definition insert_move_guard :: "move_event \<Rightarrow> content_db \<Rightarrow> content_db sql" where
  "insert_move_guard e db =
     (if list_ex (\<lambda>g. me_key g = me_key e) (t_move_guards db)
         \<or> \<not> list_ex (\<lambda>p. page_key p = me_key e \<and> pg_deleted_at p = None
              \<and> pg_section_id p = me_old_section_id e \<and> pg_book_id p = me_old_book_id e
              \<and> pg_updated_at p = me_old_updated_at e
              \<and> pg_current_revision_id p = me_at_revision_id e
              \<and> pg_current_revision_number p = me_at_revision_number e
              \<and> pg_occurred_at p = me_occurred_at_at_event e
              \<and> me_sequence e = next_sequence me_key me_sequence (me_key e) (t_move_events db)
              \<and> move_audit_ok db e (pg_page_id p)
              \<and> \<not> list_ex (\<lambda>x.
                   (me_master_audit_event_id e \<noteq> None
                      \<and> me_master_audit_event_id x = me_master_audit_event_id e)
                   \<or> (me_caller_audit_event_id e \<noteq> None
                      \<and> me_caller_audit_event_id x = me_caller_audit_event_id e)) (t_move_events db))
             (t_pages db)
         \<or> \<not> move_check e
         \<or> \<not> book_exists db (me_library_id e) (me_old_section_id e) (me_old_book_id e)
         \<or> \<not> book_exists db (me_library_id e) (me_new_section_id e) (me_new_book_id e)
      then Inl SqlError
      else Inr (db\<lparr>t_move_guards := t_move_guards db @ [e]\<rparr>))"

section \<open>The update of a page\<close>

definition stable_identity :: "page \<Rightarrow> page \<Rightarrow> bool" where
  "stable_identity old new \<longleftrightarrow>
     page_key new = page_key old \<and> pg_page_id new = pg_page_id old
     \<and> pg_id_scheme new = pg_id_scheme old
     \<and> pg_id_timestamp_micros new = pg_id_timestamp_micros old
     \<and> pg_base_slug new = pg_base_slug old \<and> pg_collision_ordinal new = pg_collision_ordinal old
     \<and> pg_created_at new = pg_created_at old"

definition same_revision :: "page \<Rightarrow> page \<Rightarrow> bool" where
  "same_revision old new \<longleftrightarrow>
     pg_current_revision_id new = pg_current_revision_id old
     \<and> pg_current_revision_number new = pg_current_revision_number old"

definition same_place :: "page \<Rightarrow> page \<Rightarrow> bool" where
  "same_place old new \<longleftrightarrow> pg_section_id new = pg_section_id old \<and> pg_book_id new = pg_book_id old"

definition revision_advance_ok :: "content_db \<Rightarrow> page \<Rightarrow> page \<Rightarrow> bool" where
  "revision_advance_ok db old new \<longleftrightarrow>
     same_revision old new
     \<or> (pg_current_revision_number new = pg_current_revision_number old + 1
        \<and> (pg_library_id old, pg_page_uid old, pg_current_revision_id new,
            pg_current_revision_number new) \<in> set (t_append_guards db))"

definition occurrence_guarded :: "content_db \<Rightarrow> page \<Rightarrow> page \<Rightarrow> bool" where
  "occurrence_guarded db old new \<longleftrightarrow>
     pg_occurred_at new = pg_occurred_at old
     \<or> (pg_updated_at new > pg_updated_at old \<and> same_place old new \<and> pg_title new = pg_title old
        \<and> pg_page_type new = pg_page_type old \<and> same_revision old new
        \<and> pg_deleted_at new = pg_deleted_at old
        \<and> list_ex (\<lambda>g. cg_key g = page_key old \<and> cg_old_occurred_at g = pg_occurred_at old
             \<and> cg_new_occurred_at g = pg_occurred_at new \<and> cg_corrected_at g = pg_updated_at new)
           (t_correction_guards db))"

definition lifecycle_guarded :: "content_db \<Rightarrow> page \<Rightarrow> page \<Rightarrow> bool" where
  "lifecycle_guarded db old new \<longleftrightarrow>
     pg_deleted_at new = pg_deleted_at old
     \<or> (pg_updated_at new > pg_updated_at old \<and> same_place old new \<and> pg_title new = pg_title old
        \<and> pg_page_type new = pg_page_type old \<and> pg_occurred_at new = pg_occurred_at old
        \<and> same_revision old new
        \<and> list_ex (\<lambda>g. le_key g = page_key old \<and> le_section_id g = pg_section_id old
             \<and> le_old_deleted_at g = pg_deleted_at old \<and> le_old_updated_at g = pg_updated_at old
             \<and> le_changed_at g = pg_updated_at new
             \<and> le_at_revision_number g = pg_current_revision_number old
             \<and> le_occurred_at_at_event g = pg_occurred_at old
             \<and> pg_deleted_at new = (if le_action g = lit ''delete'' then Some (le_changed_at g) else None))
           (t_lifecycle_guards db))"

definition deleted_unchanged :: "page \<Rightarrow> page \<Rightarrow> bool" where
  "deleted_unchanged old new \<longleftrightarrow>
     pg_deleted_at old = None
     \<or> (pg_occurred_at new = pg_occurred_at old \<and> same_revision old new)"

text \<open>The unused master audits of a title change.\<close>

definition title_audits :: "content_db \<Rightarrow> page \<Rightarrow> page \<Rightarrow> master_audit_event list" where
  "title_audits db old new =
     filter (\<lambda>a. ma_action a = lit ''content.page.title.edit'' \<and> ma_target_type a = lit ''page''
        \<and> ma_target_id a = page_target (page_key old) \<and> ma_occurred_at a = pg_updated_at new
        \<and> \<not> list_ex (\<lambda>e. te_master_audit_event_id e = ma_id a) (t_title_events db))
       (t_master_audits db)"

definition title_audited :: "content_db \<Rightarrow> page \<Rightarrow> page \<Rightarrow> bool" where
  "title_audited db old new \<longleftrightarrow>
     pg_title new = pg_title old
     \<or> (pg_deleted_at old = None \<and> pg_updated_at new > pg_updated_at old \<and> same_place old new
        \<and> pg_page_type new = pg_page_type old \<and> pg_occurred_at new = pg_occurred_at old
        \<and> same_revision old new \<and> pg_deleted_at new = pg_deleted_at old
        \<and> length (title_audits db old new) = 1)"

definition move_guarded :: "content_db \<Rightarrow> page \<Rightarrow> page \<Rightarrow> bool" where
  "move_guarded db old new \<longleftrightarrow>
     same_place old new
     \<or> (pg_deleted_at old = None \<and> pg_deleted_at new = pg_deleted_at old
        \<and> pg_title new = pg_title old \<and> pg_occurred_at new = pg_occurred_at old
        \<and> same_revision old new \<and> pg_page_type new = pg_page_type old
        \<and> list_ex (\<lambda>g. me_key g = page_key old \<and> me_old_section_id g = pg_section_id old
             \<and> me_old_book_id g = pg_book_id old \<and> me_new_section_id g = pg_section_id new
             \<and> me_new_book_id g = pg_book_id new \<and> me_old_updated_at g = pg_updated_at old
             \<and> me_changed_at g = pg_updated_at new
             \<and> me_at_revision_id g = pg_current_revision_id old
             \<and> me_at_revision_number g = pg_current_revision_number old
             \<and> me_occurred_at_at_event g = pg_occurred_at old) (t_move_guards db))"

definition before_page_update :: "content_db \<Rightarrow> page \<Rightarrow> page \<Rightarrow> bool" where
  "before_page_update db old new \<longleftrightarrow>
     stable_identity old new \<and> pg_updated_at old \<le> pg_updated_at new
     \<and> revision_advance_ok db old new \<and> occurrence_guarded db old new
     \<and> lifecycle_guarded db old new \<and> deleted_unchanged old new
     \<and> title_audited db old new \<and> move_guarded db old new"

text \<open>\<open>trg_pages_clear_append_guard\<close>; the page already names the revision, which is what the
  guard's own delete trigger asks for.\<close>

definition clear_append_guard :: "page \<Rightarrow> page \<Rightarrow> content_db \<Rightarrow> content_db" where
  "clear_append_guard old new db =
     (if same_revision old new then db
      else db\<lparr>t_append_guards := filter (\<lambda>k. k \<noteq> (pg_library_id new, pg_page_uid new,
               pg_current_revision_id new, pg_current_revision_number new)) (t_append_guards db)\<rparr>)"

text \<open>\<open>trg_pages_occurrence_record\<close> with the triggers of the event and guard tables: the event
  must be what the guard announced, and the guard goes when its event is there.\<close>

definition record_occurrence :: "page \<Rightarrow> page \<Rightarrow> content_db \<Rightarrow> content_db sql" where
  "record_occurrence old new db =
     (if pg_occurred_at new = pg_occurred_at old then Inr db
      else case find (\<lambda>g. cg_key g = page_key old) (t_correction_guards db) of
        None \<Rightarrow> Inr db
      | Some g \<Rightarrow>
          let c = \<lparr>co_guard = g\<lparr>cg_old_occurred_at := pg_occurred_at old,
                              cg_new_occurred_at := pg_occurred_at new,
                              cg_corrected_at := pg_updated_at new\<rparr>,
                   co_at_revision_number = pg_current_revision_number new\<rparr>
          in if co_guard c \<noteq> g
                \<or> list_ex (\<lambda>x. co_key x = co_key c
                     \<and> cg_sequence (co_guard x) = cg_sequence g) (t_corrections db)
                \<or> (cg_master_audit_event_id g \<noteq> None
                   \<and> list_ex (\<lambda>x. cg_master_audit_event_id (co_guard x) = cg_master_audit_event_id g)
                       (t_corrections db))
             then Inl SqlError
             else Inr (db\<lparr>t_corrections := t_corrections db @ [c],
                     t_correction_guards := filter (\<lambda>x. cg_key x \<noteq> page_key old)
                       (t_correction_guards db)\<rparr>))"

definition record_lifecycle :: "page \<Rightarrow> page \<Rightarrow> content_db \<Rightarrow> content_db sql" where
  "record_lifecycle old new db =
     (if pg_deleted_at new = pg_deleted_at old then Inr db
      else case find (\<lambda>g. le_key g = page_key old) (t_lifecycle_guards db) of
        None \<Rightarrow> Inr db
      | Some g \<Rightarrow>
          let e = g\<lparr>le_old_deleted_at := pg_deleted_at old, le_old_updated_at := pg_updated_at old,
                    le_changed_at := pg_updated_at new,
                    le_at_revision_number := pg_current_revision_number new,
                    le_occurred_at_at_event := pg_occurred_at new\<rparr>
          in if e \<noteq> g
                \<or> pg_deleted_at new \<noteq> (if le_action e = lit ''delete'' then Some (le_changed_at e) else None)
                \<or> list_ex (\<lambda>x. le_key x = le_key e \<and> le_sequence x = le_sequence e) (t_lifecycle_events db)
             then Inl SqlError
             else Inr (db\<lparr>t_lifecycle_events := t_lifecycle_events db @ [e],
                     t_lifecycle_guards := filter (\<lambda>x. le_key x \<noteq> page_key old)
                       (t_lifecycle_guards db)\<rparr>))"

definition title_event_ok :: "content_db \<Rightarrow> page \<Rightarrow> title_event \<Rightarrow> bool" where
  "title_event_ok db new e \<longleftrightarrow>
     pg_title new = te_new_title e \<and> pg_updated_at new = te_changed_at e
     \<and> pg_current_revision_number new = te_at_revision_number e \<and> pg_deleted_at new = None
     \<and> title_event_check e
     \<and> \<not> list_ex (\<lambda>x. te_master_audit_event_id x = te_master_audit_event_id e) (t_title_events db)"

definition record_title :: "page \<Rightarrow> page \<Rightarrow> content_db \<Rightarrow> content_db sql" where
  "record_title old new db =
     (if pg_title new = pg_title old then Inr db
      else case title_audits db old new of
        [a] \<Rightarrow>
          let e = \<lparr>te_library_id = pg_library_id old, te_page_uid = pg_page_uid old,
                   te_sequence = next_sequence te_key te_sequence (page_key old) (t_title_events db),
                   te_old_title = pg_title old, te_new_title = pg_title new,
                   te_old_updated_at = pg_updated_at old, te_changed_at = pg_updated_at new,
                   te_at_revision_number = pg_current_revision_number old,
                   te_master_audit_event_id = ma_id a\<rparr>
          in if title_event_ok db new e
             then Inr (db\<lparr>t_title_events := t_title_events db @ [e]\<rparr>) else Inl SqlError
      | _ \<Rightarrow> Inl SqlError)"

definition move_event_ok :: "page \<Rightarrow> move_event \<Rightarrow> bool" where
  "move_event_ok new e \<longleftrightarrow>
     pg_section_id new = me_new_section_id e \<and> pg_book_id new = me_new_book_id e
     \<and> pg_updated_at new = me_changed_at e \<and> pg_deleted_at new = None
     \<and> pg_current_revision_id new = me_at_revision_id e
     \<and> pg_current_revision_number new = me_at_revision_number e
     \<and> pg_occurred_at new = me_occurred_at_at_event e"

definition record_move :: "page \<Rightarrow> page \<Rightarrow> content_db \<Rightarrow> content_db sql" where
  "record_move old new db =
     (if same_place old new then Inr db
      else case find (\<lambda>g. me_key g = page_key old) (t_move_guards db) of
        None \<Rightarrow> Inr db
      | Some g \<Rightarrow>
          if \<not> move_event_ok new g
             \<or> list_ex (\<lambda>x. (me_key x = me_key g \<and> me_sequence x = me_sequence g)
                  \<or> (me_master_audit_event_id g \<noteq> None
                     \<and> me_master_audit_event_id x = me_master_audit_event_id g)
                  \<or> (me_caller_audit_event_id g \<noteq> None
                     \<and> me_caller_audit_event_id x = me_caller_audit_event_id g)) (t_move_events db)
          then Inl SqlError
          else Inr (db\<lparr>t_move_events := t_move_events db @ [g],
                  t_move_guards := filter (\<lambda>x. me_key x \<noteq> page_key old) (t_move_guards db)\<rparr>))"

definition set_page :: "page \<Rightarrow> content_db \<Rightarrow> content_db" where
  "set_page new db =
     db\<lparr>t_pages := map (\<lambda>p. if page_key p = page_key new then new else p) (t_pages db)\<rparr>"

text \<open>\<open>UPDATE pages SET ... WHERE ...\<close>: the condition names the primary key, so at most one row
  is touched; the count of touched rows is the second result.\<close>

definition update_pages :: "(page \<Rightarrow> bool) \<Rightarrow> (page \<Rightarrow> page) \<Rightarrow> content_db \<Rightarrow> (content_db \<times> nat) sql" where
  "update_pages cond f db =
     (case find cond (t_pages db) of
        None \<Rightarrow> Inr (db, 0)
      | Some old \<Rightarrow>
          let new = f old in
          if \<not> before_page_update db old new \<or> \<not> page_check new
             \<or> \<not> book_exists db (pg_library_id new) (pg_section_id new) (pg_book_id new)
          then Inl SqlError
          else
            bindR (record_occurrence old new (clear_append_guard old new (set_page new db))) (\<lambda>db1.
            bindR (record_lifecycle old new db1) (\<lambda>db2.
            bindR (record_title old new db2) (\<lambda>db3.
            bindR (record_move old new db3) (\<lambda>db4.
            Inr (db4, 1))))))"

definition update_counter :: "collision_counter \<Rightarrow> int \<Rightarrow> content_db \<Rightarrow> (content_db \<times> nat) sql" where
  "update_counter c next_ordinal db =
     (if \<not> list_ex (\<lambda>x. counter_key x = counter_key c \<and> cc_next_ordinal x = cc_next_ordinal c)
            (t_counters db)
      then Inr (db, 0)
      else if next_ordinal < cc_next_ordinal c \<or> \<not> counter_check (c\<lparr>cc_next_ordinal := next_ordinal\<rparr>)
      then Inl SqlError
      else Inr (db\<lparr>t_counters := map (\<lambda>x. if counter_key x = counter_key c
                \<and> cc_next_ordinal x = cc_next_ordinal c
              then x\<lparr>cc_next_ordinal := next_ordinal\<rparr> else x) (t_counters db)\<rparr>, 1))"

end
