(* ===== verification/AuthStore.thy ===== *)
theory AuthStore
  imports Tokens PageTriggers
begin

text \<open>
  Callers, credentials, policies and grants: \<open>auth/models.py\<close>, \<open>auth/repository.py\<close>,
  \<open>auth/library_policy.py\<close> and \<open>auth/service.py\<close>, with the triggers that tie the revealable
  token values to active Agent credentials. Times are microseconds; the clock is an argument.
\<close>

section \<open>Rows\<close>

datatype caller_kind = Operator | Agent

datatype section_action = SectionQuery | PageRead | ArchiveWrite

datatype library_action = LibraryRead | LibraryWrite

record caller =
  ca_id :: pystr
  ca_library_id :: pystr
  ca_kind :: caller_kind
  ca_name :: pystr
  ca_description :: pystr
  ca_policy_version :: int
  ca_created_at :: int
  ca_updated_at :: int
  ca_disabled_at :: "int option"

text \<open>\<open>CredentialRecord\<close>, then the stored credential with its selector and verifier.\<close>

record credential_record =
  cr_id :: pystr
  cr_library_id :: pystr
  cr_caller_id :: pystr
  cr_token_version :: int
  cr_expires_at :: "int option"
  cr_created_at :: int
  cr_updated_at :: int
  cr_last_used_at :: "int option"
  cr_revoked_at :: "int option"
  cr_rotated_at :: "int option"
  cr_rotated_to :: "pystr option"

record credential = credential_record +
  cr_selector :: pystr
  cr_verifier :: bytes

record token_value =
  tv_credential_id :: pystr
  tv_value :: pystr

record library_policy_row =
  lp_credential_id :: pystr
  lp_caller_id :: pystr
  lp_home_library_id :: pystr
  lp_mode :: pystr
  lp_read_mode :: pystr
  lp_write_mode :: pystr
  lp_scope_revision :: int

record library_grant =
  lg_credential_id :: pystr
  lg_caller_id :: pystr
  lg_home_library_id :: pystr
  lg_target_library_id :: pystr
  lg_action :: library_action

record section_grant =
  sg_library_id :: pystr
  sg_caller_id :: pystr
  sg_section_id :: pystr
  sg_action :: section_action

record auth_db =
  a_libraries :: "pystr list"
  a_sections :: "(pystr \<times> pystr) list"
  a_callers :: "caller list"
  a_credentials :: "credential list"
  a_token_values :: "token_value list"
  a_policies :: "library_policy_row list"
  a_library_grants :: "library_grant list"
  a_section_grants :: "section_grant list"

record authenticated_caller =
  ac_caller :: caller
  ac_credential :: credential_record

definition MAX_RFC3339_TIMESTAMP_MICROSECONDS :: int where
  "MAX_RFC3339_TIMESTAMP_MICROSECONDS = 253402300799999999"

definition LAST_USED_COALESCE_MICROSECONDS :: int where
  "LAST_USED_COALESCE_MICROSECONDS = 5 * 60 * 1000000"

definition opaque_hex :: "pystr \<Rightarrow> bool" where
  "opaque_hex s \<longleftrightarrow> length s = 32 \<and> list_all is_lower_hex s"

definition caller_check :: "caller \<Rightarrow> bool" where
  "caller_check c \<longleftrightarrow>
     opaque_hex (ca_id c)
     \<and> 1 \<le> length (ca_name c) \<and> length (ca_name c) \<le> 200 \<and> trimmed (ca_name c)
     \<and> length (ca_description c) \<le> 4000 \<and> 1 \<le> ca_policy_version c
     \<and> 0 \<le> ca_created_at c \<and> ca_created_at c \<le> ca_updated_at c
     \<and> (case ca_disabled_at c of None \<Rightarrow> True
        | Some d \<Rightarrow> ca_created_at c \<le> d \<and> d \<le> ca_updated_at c)"

definition within :: "int option \<Rightarrow> int \<Rightarrow> int \<Rightarrow> bool" where
  "within t lo hi \<longleftrightarrow> (case t of None \<Rightarrow> True | Some x \<Rightarrow> lo \<le> x \<and> x \<le> hi)"

definition credential_check :: "credential \<Rightarrow> bool" where
  "credential_check c \<longleftrightarrow>
     opaque_hex (cr_id c)
     \<and> length (cr_selector c) = 22 \<and> list_all (\<lambda>x. is_upper x \<or> is_lower x \<or> is_digit x \<or> x = 95 \<or> x = 45) (cr_selector c)
     \<and> cr_token_version c = TOKEN_VERSION \<and> length (cr_verifier c) = VERIFIER_BYTES
     \<and> 0 \<le> cr_created_at c \<and> cr_created_at c \<le> cr_updated_at c
     \<and> (case cr_expires_at c of None \<Rightarrow> True | Some e \<Rightarrow> cr_created_at c < e)
     \<and> within (cr_last_used_at c) (cr_created_at c) (cr_updated_at c)
     \<and> (case (cr_last_used_at c, cr_expires_at c) of (Some u, Some e) \<Rightarrow> u < e | _ \<Rightarrow> True)
     \<and> within (cr_revoked_at c) (cr_created_at c) (cr_updated_at c)
     \<and> within (cr_rotated_at c) (cr_created_at c) (cr_updated_at c)
     \<and> ((cr_rotated_at c = None \<and> cr_rotated_to c = None)
        \<or> (cr_rotated_at c \<noteq> None \<and> cr_rotated_to c \<noteq> None \<and> cr_revoked_at c = cr_rotated_at c))
     \<and> cr_rotated_to c \<noteq> Some (cr_id c)"

definition credential_key :: "credential \<Rightarrow> pystr \<times> pystr \<times> pystr" where
  "credential_key c = (cr_id c, cr_caller_id c, cr_library_id c)"

section \<open>Repository\<close>

definition get_caller :: "auth_db \<Rightarrow> pystr \<Rightarrow> pystr \<Rightarrow> caller option" where
  "get_caller db library caller_id =
     find (\<lambda>c. ca_library_id c = library \<and> ca_id c = caller_id) (a_callers db)"

definition add_caller :: "caller \<Rightarrow> auth_db \<Rightarrow> auth_db sql" where
  "add_caller c db =
     (if \<not> caller_check c \<or> ca_library_id c \<notin> set (a_libraries db)
         \<or> list_ex (\<lambda>x. ca_id x = ca_id c
              \<or> (ca_library_id x = ca_library_id c \<and> ca_name x = ca_name c)) (a_callers db)
      then Inl SqlError
      else Inr (db\<lparr>a_callers := a_callers db @ [c]\<rparr>))"

text \<open>\<open>UPDATE auth_callers\<close>; disabling also deletes the token values of the caller, by the
  trigger and by the statement that follows.\<close>

definition update_callers :: "(caller \<Rightarrow> bool) \<Rightarrow> (caller \<Rightarrow> caller) \<Rightarrow> auth_db \<Rightarrow> (auth_db \<times> nat) sql" where
  "update_callers cond f db =
     (case find cond (a_callers db) of
        None \<Rightarrow> Inr (db, 0)
      | Some old \<Rightarrow>
          let new = f old in
          if \<not> caller_check new
             \<or> list_ex (\<lambda>x. ca_id x \<noteq> ca_id old \<and> ca_library_id x = ca_library_id new
                  \<and> ca_name x = ca_name new) (a_callers db)
          then Inl SqlError
          else Inr (db\<lparr>a_callers := map (\<lambda>x. if ca_id x = ca_id old then new else x) (a_callers db)\<rparr>, 1))"

definition update_agent_metadata ::
  "pystr \<Rightarrow> pystr \<Rightarrow> pystr \<Rightarrow> pystr \<Rightarrow> int \<Rightarrow> int \<Rightarrow> auth_db \<Rightarrow> (auth_db \<times> bool) sql" where
  "update_agent_metadata library caller_id name description expected_updated_at updated_at db =
     bindR (update_callers
        (\<lambda>c. ca_library_id c = library \<and> ca_id c = caller_id \<and> ca_kind c = Agent
           \<and> ca_updated_at c = expected_updated_at)
        (\<lambda>c. c\<lparr>ca_name := name, ca_description := description, ca_updated_at := updated_at\<rparr>) db)
       (\<lambda>(db', n). Inr (db', n = 1))"

definition caller_values_deleted :: "pystr \<Rightarrow> pystr \<Rightarrow> auth_db \<Rightarrow> auth_db" where
  "caller_values_deleted library caller_id db =
     db\<lparr>a_token_values := filter (\<lambda>t. \<not> list_ex (\<lambda>c. cr_id c = tv_credential_id t
          \<and> cr_library_id c = library \<and> cr_caller_id c = caller_id) (a_credentials db))
        (a_token_values db)\<rparr>"

definition disable_caller :: "pystr \<Rightarrow> pystr \<Rightarrow> int \<Rightarrow> auth_db \<Rightarrow> (auth_db \<times> caller option) sql" where
  "disable_caller library caller_id disabled_at db =
     bindR (update_callers
        (\<lambda>c. ca_library_id c = library \<and> ca_id c = caller_id \<and> ca_disabled_at c = None)
        (\<lambda>c. c\<lparr>ca_disabled_at := Some disabled_at, ca_updated_at := disabled_at,
             ca_policy_version := ca_policy_version c + 1\<rparr>) db)
       (\<lambda>(db', n).
          let db'' = (if n \<noteq> 1 then db' else caller_values_deleted library caller_id db')
          in Inr (db'', get_caller db'' library caller_id))"

definition increment_policy_version ::
  "pystr \<Rightarrow> pystr \<Rightarrow> int \<Rightarrow> int \<Rightarrow> auth_db \<Rightarrow> (auth_db \<times> caller option) sql" where
  "increment_policy_version library caller_id expected_version updated_at db =
     bindR (update_callers
        (\<lambda>c. ca_library_id c = library \<and> ca_id c = caller_id \<and> ca_policy_version c = expected_version)
        (\<lambda>c. c\<lparr>ca_policy_version := ca_policy_version c + 1, ca_updated_at := updated_at\<rparr>) db)
       (\<lambda>(db', n). Inr (db', if n \<noteq> 1 then None else get_caller db' library caller_id))"

definition get_credential :: "auth_db \<Rightarrow> pystr \<Rightarrow> pystr \<Rightarrow> pystr \<Rightarrow> credential option" where
  "get_credential db library caller_id credential_id =
     find (\<lambda>c. cr_library_id c = library \<and> cr_caller_id c = caller_id \<and> cr_id c = credential_id)
       (a_credentials db)"

definition find_credential_by_selector :: "auth_db \<Rightarrow> pystr \<Rightarrow> credential option" where
  "find_credential_by_selector db selector =
     find (\<lambda>c. cr_selector c = selector) (a_credentials db)"

definition add_credential :: "credential \<Rightarrow> auth_db \<Rightarrow> auth_db sql" where
  "add_credential c db =
     (if \<not> credential_check c
         \<or> \<not> list_ex (\<lambda>x. ca_id x = cr_caller_id c \<and> ca_library_id x = cr_library_id c) (a_callers db)
         \<or> (cr_rotated_to c \<noteq> None
            \<and> \<not> list_ex (\<lambda>x. Some (cr_id x) = cr_rotated_to c \<and> cr_caller_id x = cr_caller_id c
                  \<and> cr_library_id x = cr_library_id c) (a_credentials db))
         \<or> list_ex (\<lambda>x. cr_id x = cr_id c \<or> cr_selector x = cr_selector c) (a_credentials db)
      then Inl SqlError
      else Inr (db\<lparr>a_credentials := a_credentials db @ [c]\<rparr>))"

definition insert_token_value :: "token_value \<Rightarrow> auth_db \<Rightarrow> auth_db sql" where
  "insert_token_value t db =
     (if \<not> list_ex (\<lambda>c. cr_id c = tv_credential_id t \<and> cr_revoked_at c = None \<and> cr_rotated_at c = None
              \<and> cr_token_version c = 1 \<and> slice 5 27 (tv_value t) = cr_selector c
              \<and> list_ex (\<lambda>a. ca_id a = cr_caller_id c \<and> ca_library_id a = cr_library_id c
                   \<and> ca_kind a = Agent \<and> ca_disabled_at a = None) (a_callers db)) (a_credentials db)
         \<or> length (tv_value t) \<noteq> 71 \<or> take 5 (tv_value t) \<noteq> lit ''plb1.''
         \<or> list_ex (\<lambda>x. tv_credential_id x = tv_credential_id t) (a_token_values db)
      then Inl SqlError
      else Inr (db\<lparr>a_token_values := a_token_values db @ [t]\<rparr>))"

definition add_agent_credential_with_value ::
  "(bytes \<Rightarrow> bytes) \<Rightarrow> credential \<Rightarrow> pystr \<Rightarrow> auth_db \<Rightarrow> auth_db sql" where
  "add_agent_credential_with_value sha c token db =
     (case parse_token sha token of
        Inl e \<Rightarrow> Inl BadValue
      | Inr parsed \<Rightarrow>
          if pt_selector parsed \<noteq> cr_selector c \<or> pt_version parsed \<noteq> cr_token_version c
             \<or> \<not> verify_token sha parsed (Some (cr_verifier c))
          then Inl BadValue
          else bindR (add_credential c db)
                 (insert_token_value \<lparr>tv_credential_id = cr_id c, tv_value = token\<rparr>))"

text \<open>\<open>UPDATE auth_credentials\<close> with the trigger that deletes a retired credential's value.\<close>

definition update_credentials ::
  "(credential \<Rightarrow> bool) \<Rightarrow> (credential \<Rightarrow> credential) \<Rightarrow> auth_db \<Rightarrow> (auth_db \<times> nat) sql" where
  "update_credentials cond f db =
     (case find cond (a_credentials db) of
        None \<Rightarrow> Inr (db, 0)
      | Some old \<Rightarrow>
          let new = f old in
          if \<not> credential_check new
             \<or> (cr_rotated_to new \<noteq> None
                \<and> \<not> list_ex (\<lambda>x. Some (cr_id x) = cr_rotated_to new \<and> cr_caller_id x = cr_caller_id new
                      \<and> cr_library_id x = cr_library_id new) (a_credentials db))
          then Inl SqlError
          else
            let db1 = db\<lparr>a_credentials := map (\<lambda>x. if cr_id x = cr_id old then new else x) (a_credentials db)\<rparr>
            in Inr (if cr_revoked_at new \<noteq> None \<or> cr_rotated_at new \<noteq> None
                    then db1\<lparr>a_token_values := filter (\<lambda>t. tv_credential_id t \<noteq> cr_id new) (a_token_values db1)\<rparr>
                    else db1, 1))"

definition live_row :: "credential \<Rightarrow> credential \<Rightarrow> bool" where
  "live_row c x \<longleftrightarrow> credential_key x = credential_key c \<and> cr_revoked_at x = None \<and> cr_rotated_at x = None"

definition touch_credential_last_used :: "credential \<Rightarrow> int \<Rightarrow> auth_db \<Rightarrow> (auth_db \<times> credential) sql" where
  "touch_credential_last_used c used_at db =
     bindR (update_credentials (live_row c)
        (\<lambda>x. x\<lparr>cr_last_used_at := Some used_at, cr_updated_at := used_at\<rparr>) db)
       (\<lambda>(db', _). Inr (db', case get_credential db' (cr_library_id c) (cr_caller_id c) (cr_id c) of
          None \<Rightarrow> c | Some r \<Rightarrow> r))"

definition revoke_credential :: "credential \<Rightarrow> int \<Rightarrow> auth_db \<Rightarrow> (auth_db \<times> credential option) sql" where
  "revoke_credential c revoked_at db =
     bindR (update_credentials (live_row c)
        (\<lambda>x. x\<lparr>cr_revoked_at := Some revoked_at, cr_updated_at := revoked_at\<rparr>) db)
       (\<lambda>(db', n).
          let db'' = (if n = 1
            then db'\<lparr>a_token_values := filter (\<lambda>t. tv_credential_id t \<noteq> cr_id c) (a_token_values db')\<rparr>
            else db')
          in Inr (db'', get_credential db'' (cr_library_id c) (cr_caller_id c) (cr_id c)))"

definition mark_credential_rotated ::
  "credential \<Rightarrow> pystr \<Rightarrow> int \<Rightarrow> auth_db \<Rightarrow> (auth_db \<times> credential option) sql" where
  "mark_credential_rotated c replacement_id rotated_at db =
     bindR (update_credentials (live_row c)
        (\<lambda>x. x\<lparr>cr_revoked_at := Some rotated_at, cr_rotated_at := Some rotated_at,
             cr_rotated_to := Some replacement_id, cr_updated_at := rotated_at\<rparr>) db)
       (\<lambda>(db', n).
          if n \<noteq> 1 then Inr (db', None)
          else let db'' = db'\<lparr>a_token_values :=
                 filter (\<lambda>t. tv_credential_id t \<noteq> cr_id c) (a_token_values db')\<rparr>
               in Inr (db'', get_credential db'' (cr_library_id c) (cr_caller_id c) (cr_id c)))"

definition credential_active :: "credential \<Rightarrow> int \<Rightarrow> bool" where
  "credential_active c at \<longleftrightarrow>
     cr_created_at c \<le> at \<and> (case cr_expires_at c of None \<Rightarrow> True | Some e \<Rightarrow> at < e)
     \<and> cr_revoked_at c = None \<and> cr_rotated_at c = None"

definition active_agent_caller :: "auth_db \<Rightarrow> credential \<Rightarrow> bool" where
  "active_agent_caller db c \<longleftrightarrow>
     list_ex (\<lambda>a. ca_id a = cr_caller_id c \<and> ca_library_id a = cr_library_id c \<and> ca_kind a = Agent
       \<and> ca_disabled_at a = None) (a_callers db)"

definition get_active_agent_token_value ::
  "(bytes \<Rightarrow> bytes) \<Rightarrow> auth_db \<Rightarrow> pystr \<Rightarrow> pystr \<Rightarrow> pystr \<Rightarrow> int \<Rightarrow> pystr option" where
  "get_active_agent_token_value sha db library caller_id credential_id at =
     (case get_credential db library caller_id credential_id of
        None \<Rightarrow> None
      | Some c \<Rightarrow>
          if \<not> credential_active c at \<or> \<not> active_agent_caller db c then None
          else case find (\<lambda>t. tv_credential_id t = credential_id) (a_token_values db) of
            None \<Rightarrow> None
          | Some t \<Rightarrow>
              (case parse_token sha (tv_value t) of
                 Inl e \<Rightarrow> None
               | Inr parsed \<Rightarrow>
                   if pt_selector parsed \<noteq> cr_selector c \<or> pt_version parsed \<noteq> cr_token_version c
                      \<or> \<not> verify_token sha parsed (Some (cr_verifier c))
                   then None else Some (tv_value t)))"

definition get_grant :: "auth_db \<Rightarrow> pystr \<Rightarrow> pystr \<Rightarrow> pystr \<Rightarrow> section_action \<Rightarrow> section_grant option" where
  "get_grant db library caller_id section action =
     find (\<lambda>g. sg_library_id g = library \<and> sg_caller_id g = caller_id \<and> sg_section_id g = section
        \<and> sg_action g = action) (a_section_grants db)"

definition add_grant :: "section_grant \<Rightarrow> auth_db \<Rightarrow> auth_db sql" where
  "add_grant g db =
     (if \<not> list_ex (\<lambda>c. ca_id c = sg_caller_id g \<and> ca_library_id c = sg_library_id g) (a_callers db)
         \<or> (sg_library_id g, sg_section_id g) \<notin> set (a_sections db) \<or> g \<in> set (a_section_grants db)
      then Inl SqlError
      else Inr (db\<lparr>a_section_grants := a_section_grants db @ [g]\<rparr>))"

definition remove_grant ::
  "pystr \<Rightarrow> pystr \<Rightarrow> pystr \<Rightarrow> section_action \<Rightarrow> auth_db \<Rightarrow> auth_db \<times> bool" where
  "remove_grant library caller_id section action db =
     (db\<lparr>a_section_grants := filter (\<lambda>g. \<not> (sg_library_id g = library \<and> sg_caller_id g = caller_id
          \<and> sg_section_id g = section \<and> sg_action g = action)) (a_section_grants db)\<rparr>,
      get_grant db library caller_id section action \<noteq> None)"

section \<open>Library policy\<close>

datatype library_policy = LegacySectionPolicy | LibraryGrantPolicy bool bool

fun policy_allows :: "bool \<Rightarrow> bool \<Rightarrow> library_action \<Rightarrow> bool" where
  "policy_allows r w LibraryRead = r"
| "policy_allows r w LibraryWrite = w"

definition library_scope_allows :: "pystr \<Rightarrow> bool \<Rightarrow> bool" where
  "library_scope_allows mode selected =
     (if mode = lit ''include'' then selected
      else if mode = lit ''exclude'' then \<not> selected else False)"

definition resolve_library_policy ::
  "auth_db \<Rightarrow> pystr \<Rightarrow> pystr \<Rightarrow> pystr \<Rightarrow> pystr \<Rightarrow> int \<Rightarrow> library_policy option sql" where
  "resolve_library_policy db credential_id caller_id home target at =
     (if at < 0 then Inl BadValue
      else if \<not> list_ex (\<lambda>c. cr_id c = credential_id \<and> cr_caller_id c = caller_id
                  \<and> cr_library_id c = home \<and> credential_active c at \<and> active_agent_caller db c)
                (a_credentials db)
      then Inr None
      else case find (\<lambda>p. lp_credential_id p = credential_id \<and> lp_caller_id p = caller_id
                  \<and> lp_home_library_id p = home \<and> lp_mode p = lit ''library_grants'') (a_policies db) of
        None \<Rightarrow> Inr (Some LegacySectionPolicy)
      | Some p \<Rightarrow>
          if target \<notin> set (a_libraries db) then Inr (Some (LibraryGrantPolicy False False))
          else
            let selected = (\<lambda>a. list_ex (\<lambda>g. lg_credential_id g = credential_id
                  \<and> lg_caller_id g = caller_id \<and> lg_home_library_id g = home
                  \<and> lg_target_library_id g = target \<and> lg_action g = a) (a_library_grants db))
            in Inr (Some (LibraryGrantPolicy
                 (library_scope_allows (lp_read_mode p) (selected LibraryRead))
                 (library_scope_allows (lp_write_mode p) (selected LibraryWrite)))))"

section \<open>Service\<close>

definition credential_metadata :: "credential \<Rightarrow> credential_record" where
  "credential_metadata c = credential_record.truncate c"

definition credential_refused :: "caller option \<Rightarrow> credential \<Rightarrow> int \<Rightarrow> bool" where
  "credential_refused caller s now \<longleftrightarrow>
     (case caller of
        None \<Rightarrow> True
      | Some c \<Rightarrow>
          ca_disabled_at c \<noteq> None \<or> cr_revoked_at s \<noteq> None \<or> cr_rotated_at s \<noteq> None
          \<or> now < cr_created_at s
          \<or> (cr_expires_at s = None \<and> ca_kind c \<noteq> Agent)
          \<or> (case cr_expires_at s of None \<Rightarrow> False | Some e \<Rightarrow> e \<le> now))"

text \<open>\<open>last_used_at or created_at\<close>: a time of zero counts as absent.\<close>

definition last_used_baseline :: "credential \<Rightarrow> int" where
  "last_used_baseline s =
     (case cr_last_used_at s of None \<Rightarrow> cr_created_at s | Some u \<Rightarrow> if u = 0 then cr_created_at s else u)"

definition authenticate ::
  "(bytes \<Rightarrow> bytes) \<Rightarrow> int \<Rightarrow> int \<Rightarrow> pystr \<Rightarrow> auth_db \<Rightarrow> (auth_db \<times> authenticated_caller) sql" where
  "authenticate sha coalesce now token db =
     (case parse_token sha token of
        Inl e \<Rightarrow> Inl AuthenticationFailed
      | Inr parsed \<Rightarrow>
          let stored = find_credential_by_selector db (pt_selector parsed) in
          if \<not> verify_token sha parsed (map_option cr_verifier stored) then Inl AuthenticationFailed
          else case stored of
            None \<Rightarrow> Inl AuthenticationFailed
          | Some s \<Rightarrow>
              if cr_token_version s \<noteq> TOKEN_VERSION then Inl AuthenticationFailed
              else
                let caller = get_caller db (cr_library_id s) (cr_caller_id s) in
                if credential_refused caller s now then Inl AuthenticationFailed
                else
                  bindR (if coalesce \<ge> 0 \<and> now \<ge> last_used_baseline s + coalesce \<and> now \<ge> cr_updated_at s
                         then touch_credential_last_used s now db else Inr (db, s))
                    (\<lambda>(db', s'). Inr (db', \<lparr>ac_caller = the caller,
                        ac_credential = credential_metadata s'\<rparr>)))"

definition require_operator ::
  "(bytes \<Rightarrow> bytes) \<Rightarrow> int \<Rightarrow> int \<Rightarrow> pystr \<Rightarrow> pystr \<Rightarrow> auth_db
    \<Rightarrow> (auth_db \<times> authenticated_caller) sql" where
  "require_operator sha coalesce now token library db =
     bindR (authenticate sha coalesce now token db) (\<lambda>(db', a).
       if ca_library_id (ac_caller a) \<noteq> library \<or> ca_kind (ac_caller a) \<noteq> Operator
       then Inl AuthorizationFailed else Inr (db', a))"

text \<open>\<open>authorize_content\<close> reads the clock a second time for the policy: \<open>active_at\<close>.\<close>

definition authorize_content ::
  "(bytes \<Rightarrow> bytes) \<Rightarrow> int \<Rightarrow> int \<Rightarrow> int \<Rightarrow> pystr \<Rightarrow> pystr \<Rightarrow> pystr \<Rightarrow> section_action \<Rightarrow> auth_db
    \<Rightarrow> (auth_db \<times> authenticated_caller) sql" where
  "authorize_content sha coalesce now active_at token library section action db =
     bindR (authenticate sha coalesce now token db) (\<lambda>(db', a).
       if ca_kind (ac_caller a) \<noteq> Agent then Inl AuthorizationFailed
       else
         bindR (resolve_library_policy db' (cr_id (ac_credential a)) (ca_id (ac_caller a))
                  (ca_library_id (ac_caller a)) library active_at) (\<lambda>policy.
         case policy of
           None \<Rightarrow> Inl AuthenticationFailed
         | Some LegacySectionPolicy \<Rightarrow>
             if ca_library_id (ac_caller a) \<noteq> library then Inl AuthorizationFailed
             else if get_grant db' library (ca_id (ac_caller a)) section action = None
             then Inl AuthorizationFailed else Inr (db', a)
         | Some (LibraryGrantPolicy r w) \<Rightarrow>
             if policy_allows r w (case action of ArchiveWrite \<Rightarrow> LibraryWrite | _ \<Rightarrow> LibraryRead)
             then Inr (db', a) else Inl AuthorizationFailed))"

definition new_credential_valid :: "credential \<Rightarrow> bool" where
  "new_credential_valid c \<longleftrightarrow>
     opaque_hex (cr_id c) \<and> opaque_hex (cr_library_id c) \<and> opaque_hex (cr_caller_id c)
     \<and> length (cr_selector c) = 22 \<and> 1 \<le> cr_token_version c \<and> length (cr_verifier c) = 32
     \<and> 0 \<le> cr_created_at c \<and> 0 \<le> cr_updated_at c
     \<and> within (cr_expires_at c) 0 MAX_RFC3339_TIMESTAMP_MICROSECONDS"

definition issue_credential ::
  "(bytes \<Rightarrow> bytes) \<Rightarrow> bytes \<Rightarrow> bytes \<Rightarrow> pystr \<Rightarrow> int \<Rightarrow> caller \<Rightarrow> int option \<Rightarrow> auth_db
    \<Rightarrow> (auth_db \<times> pystr \<times> credential_record) sql" where
  "issue_credential sha selector secret new_id now caller expires_at db =
     (if expires_at = None \<and> ca_kind caller \<noteq> Agent then Inl CredentialExpiry
      else if (case expires_at of None \<Rightarrow> False
               | Some e \<Rightarrow> e \<le> now \<or> MAX_RFC3339_TIMESTAMP_MICROSECONDS < e) then Inl CredentialExpiry
      else if ca_disabled_at caller \<noteq> None then Inl AuthenticationFailed
      else
        case generate_token sha selector secret of
          Inl e \<Rightarrow> Inl IdentifierGenerationFailed
        | Inr issued \<Rightarrow>
            let c = \<lparr>cr_id = new_id, cr_library_id = ca_library_id caller, cr_caller_id = ca_id caller,
                     cr_token_version = pt_version (it_parsed issued), cr_expires_at = expires_at,
                     cr_created_at = now, cr_updated_at = now, cr_last_used_at = None,
                     cr_revoked_at = None, cr_rotated_at = None, cr_rotated_to = None,
                     cr_selector = pt_selector (it_parsed issued),
                     cr_verifier = pt_verifier (it_parsed issued)\<rparr>;
                stored = (if \<not> new_credential_valid c then Inl BadValue
                  else if ca_kind caller = Agent
                  then add_agent_credential_with_value sha c (it_value issued) db
                  else add_credential c db)
            in case stored of
                 Inl e \<Rightarrow> Inl (if e = SqlError then CredentialPersistence else e)
               | Inr db' \<Rightarrow> Inr (db', it_value issued, credential_metadata c))"

end
