(* ===== verification/KeyedTable.thy ===== *)
theory KeyedTable
  imports PatchouliPrelude
begin

text \<open>
  The contract of a table with a uniqueness constraint, as its clients use it: an insertion that
  succeeds was of a new key, is found under that key, and leaves every other key as it was. What
  follows from it is proved once and holds of every table that provides the contract.
\<close>

locale keyed_table =
  fixes lookup :: "'db \<Rightarrow> 'k \<Rightarrow> 'r option"
    and insert_row :: "'r \<Rightarrow> 'db \<Rightarrow> 'e + 'db"
    and key :: "'r \<Rightarrow> 'k"
  assumes fresh: "insert_row r db = Inr db' \<Longrightarrow> lookup db (key r) = None"
    and found: "insert_row r db = Inr db' \<Longrightarrow> lookup db' (key r) = Some r"
    and kept: "insert_row r db = Inr db' \<Longrightarrow> k \<noteq> key r \<Longrightarrow> lookup db' k = lookup db k"
begin

lemma taken_refused: "lookup db (key r) = Some s \<Longrightarrow> insert_row r db \<noteq> Inr db'"
  using fresh [of r db db'] by auto

lemma stays: "insert_row r db = Inr db' \<Longrightarrow> lookup db k = Some s \<Longrightarrow> lookup db' k = Some s"
  using fresh [of r db db'] kept [of r db db' k] by (cases "k = key r") auto

fun insert_all :: "'r list \<Rightarrow> 'db \<Rightarrow> 'e + 'db" where
  "insert_all [] db = Inr db"
| "insert_all (r # rs) db = bindR (insert_row r db) (insert_all rs)"

lemma insert_all_stays:
  "insert_all rs db = Inr db' \<Longrightarrow> lookup db k = Some s \<Longrightarrow> lookup db' k = Some s"
proof (induction rs arbitrary: db)
  case (Cons r rs)
  then obtain db1 where "insert_row r db = Inr db1" "insert_all rs db1 = Inr db'"
    by (auto simp: bindR_Inr_iff)
  then show ?case using Cons.IH Cons.prems(2) stays by blast
qed simp

lemma insert_all_found: "insert_all rs db = Inr db' \<Longrightarrow> r \<in> set rs \<Longrightarrow> lookup db' (key r) = Some r"
proof (induction rs arbitrary: db)
  case (Cons s rs)
  then obtain db1 where i: "insert_row s db = Inr db1" "insert_all rs db1 = Inr db'"
    by (auto simp: bindR_Inr_iff)
  then show ?case using Cons.IH [OF i(2)] Cons.prems(2) insert_all_stays [OF i(2) found [OF i(1)]] by auto
qed simp

lemma insert_all_fresh: "insert_all rs db = Inr db' \<Longrightarrow> lookup db k = Some s \<Longrightarrow> r \<in> set rs \<Longrightarrow> key r \<noteq> k"
proof (induction rs arbitrary: db)
  case (Cons x rs)
  then obtain db1 where i: "insert_row x db = Inr db1" "insert_all rs db1 = Inr db'"
    by (auto simp: bindR_Inr_iff)
  have "key x \<noteq> k" using fresh [OF i(1)] Cons.prems(2) by auto
  then show ?case using Cons.IH [OF i(2) stays [OF i(1) Cons.prems(2)]] Cons.prems(3) by auto
qed simp

lemma insert_all_distinct: "insert_all rs db = Inr db' \<Longrightarrow> distinct (map key rs)"
proof (induction rs arbitrary: db)
  case (Cons s rs)
  then obtain db1 where i: "insert_row s db = Inr db1" "insert_all rs db1 = Inr db'"
    by (auto simp: bindR_Inr_iff)
  have "key s \<notin> key ` set rs" using insert_all_fresh [OF i(2) found [OF i(1)]] by force
  then show ?case using Cons.IH [OF i(2)] by simp
qed simp

end

text \<open>A table kept as the list of its rows, searched by its key, provides the contract.\<close>

lemma find_key_append:
  "find (\<lambda>x. key x = k) (xs @ [r]) =
    (case find (\<lambda>x. key x = k) xs of None \<Rightarrow> if key r = k then Some r else None | Some s \<Rightarrow> Some s)"
  by (induction xs) auto

lemma find_key_None: "find (\<lambda>x. key x = k) xs = None \<longleftrightarrow> \<not> list_ex (\<lambda>x. key x = k) xs"
  by (induction xs) auto

end
