(* ===== verification/AuthTheorems.thy ===== *)
theory AuthTheorems
  imports AuthStore KeyedTable
begin

text \<open>
  What the authentication store guarantees over every sequence of its operations: a retired
  credential never authenticates again, a revealable token value belongs to a live Agent credential
  and is its token, an issued token authenticates its caller.
\<close>

section \<open>The tables provide the contract\<close>

interpretation credential_table: keyed_table find_credential_by_selector add_credential cr_selector
proof unfold_locales
  fix c k and db db' :: auth_db
  assume a: "add_credential c db = Inr db'"
  then have db': "db' = db\<lparr>a_credentials := a_credentials db @ [c]\<rparr>"
    and n: "\<not> list_ex (\<lambda>x. cr_selector x = cr_selector c) (a_credentials db)"
    by (auto simp: add_credential_def list_ex_iff split: if_splits)
  show f: "find_credential_by_selector db (cr_selector c) = None"
    using n by (simp add: find_credential_by_selector_def find_key_None)
  show "find_credential_by_selector db' (cr_selector c) = Some c"
    using f by (simp add: find_credential_by_selector_def db' find_key_append)
  show "k \<noteq> cr_selector c \<Longrightarrow> find_credential_by_selector db' k = find_credential_by_selector db k"
    by (auto simp: find_credential_by_selector_def db' find_key_append split: option.splits)
qed

section \<open>The invariant\<close>

definition value_ok :: "(bytes \<Rightarrow> bytes) \<Rightarrow> auth_db \<Rightarrow> token_value \<Rightarrow> bool" where
  "value_ok sha db t \<longleftrightarrow>
     (\<exists>c \<in> set (a_credentials db). cr_id c = tv_credential_id t \<and> cr_revoked_at c = None
        \<and> cr_rotated_at c = None \<and> active_agent_caller db c
        \<and> (\<exists>p. parse_token sha (tv_value t) = Inr p \<and> pt_selector p = cr_selector c
             \<and> verify_token sha p (Some (cr_verifier c))))"

definition auth_ok :: "(bytes \<Rightarrow> bytes) \<Rightarrow> auth_db \<Rightarrow> bool" where
  "auth_ok sha db \<longleftrightarrow>
     distinct (map cr_id (a_credentials db)) \<and> distinct (map cr_selector (a_credentials db))
     \<and> distinct (map ca_id (a_callers db)) \<and> list_all credential_check (a_credentials db)
     \<and> list_all (value_ok sha db) (a_token_values db)"

definition same_caller :: "caller \<Rightarrow> caller \<Rightarrow> bool" where
  "same_caller a b \<longleftrightarrow>
     ca_id b = ca_id a \<and> ca_library_id b = ca_library_id a \<and> ca_kind b = ca_kind a
     \<and> (ca_disabled_at a \<noteq> None \<longrightarrow> ca_disabled_at b \<noteq> None)"

definition same_credential :: "credential \<Rightarrow> credential \<Rightarrow> bool" where
  "same_credential c d \<longleftrightarrow>
     credential_key d = credential_key c \<and> cr_selector d = cr_selector c \<and> cr_verifier d = cr_verifier c
     \<and> cr_created_at d = cr_created_at c \<and> cr_expires_at d = cr_expires_at c
     \<and> (cr_revoked_at c \<noteq> None \<longrightarrow> cr_revoked_at d \<noteq> None)"

definition auth_advances :: "auth_db \<Rightarrow> auth_db \<Rightarrow> bool" where
  "auth_advances db db' \<longleftrightarrow>
     (\<forall>c \<in> set (a_credentials db). \<exists>d \<in> set (a_credentials db'). same_credential c d)
     \<and> (\<forall>a \<in> set (a_callers db). \<exists>b \<in> set (a_callers db'). same_caller a b)"

lemma same_refl [simp]: "same_credential c c" "same_caller a a"
  by (simp_all add: same_credential_def same_caller_def)

lemma auth_advances_refl [simp]: "auth_advances db db"
  by (auto simp: auth_advances_def intro: same_refl)

lemma auth_advances_trans: "auth_advances a b \<Longrightarrow> auth_advances b c \<Longrightarrow> auth_advances a c"
  unfolding auth_advances_def same_credential_def same_caller_def by metis

text \<open>Replacing the row of one key.\<close>

definition replaced :: "('r \<Rightarrow> 'k) \<Rightarrow> 'r \<Rightarrow> 'r list \<Rightarrow> 'r list" where
  "replaced key new xs = map (\<lambda>x. if key x = key new then new else x) xs"

lemma replaced_keys [simp]: "map key (replaced key new xs) = map key xs"
  by (auto simp: replaced_def)

lemma replaced_mem:
  "distinct (map key xs) \<Longrightarrow> old \<in> set xs \<Longrightarrow> key new = key old
   \<Longrightarrow> x \<in> set (replaced key new xs) \<longleftrightarrow> x = new \<or> (x \<in> set xs \<and> x \<noteq> old)"
  by (auto simp: replaced_def distinct_map inj_on_def image_iff)

lemma replaced_other_keys:
  "distinct (map key xs) \<Longrightarrow> old \<in> set xs \<Longrightarrow> key new = key old \<Longrightarrow> f new = f old
   \<Longrightarrow> map f (replaced key new xs) = map f xs"
  by (auto simp: replaced_def distinct_map inj_on_def)

lemma update_callers_Inr:
  assumes "update_callers cond f db = Inr (db', n)"
  obtains "n = 0" "db' = db" "\<forall>c \<in> set (a_callers db). \<not> cond c"
  | old where "n = 1" "old \<in> set (a_callers db)" "cond old" "caller_check (f old)"
      "ca_id (f old) = ca_id old \<Longrightarrow> db' = db\<lparr>a_callers := replaced ca_id (f old) (a_callers db)\<rparr>"
proof (cases "find cond (a_callers db)")
  case None
  then have "\<forall>c \<in> set (a_callers db). \<not> cond c" by (simp add: find_None_iff)
  then show thesis using that(1) assms None by (simp add: update_callers_def)
next
  case (Some old)
  then have "old \<in> set (a_callers db)" "cond old" by (auto simp: find_Some_iff)
  then show thesis using that(2) [of old] assms Some
    by (auto simp: update_callers_def Let_def replaced_def split: if_splits)
qed

lemma update_credentials_Inr:
  assumes "update_credentials cond f db = Inr (db', n)"
  obtains "n = 0" "db' = db" "\<forall>c \<in> set (a_credentials db). \<not> cond c"
  | old where "n = 1" "old \<in> set (a_credentials db)" "cond old" "credential_check (f old)"
      "cr_id (f old) = cr_id old \<Longrightarrow>
       db' = db\<lparr>a_credentials := replaced cr_id (f old) (a_credentials db),
         a_token_values := (if cr_revoked_at (f old) \<noteq> None \<or> cr_rotated_at (f old) \<noteq> None
           then filter (\<lambda>t. tv_credential_id t \<noteq> cr_id (f old)) (a_token_values db)
           else a_token_values db)\<rparr>"
proof (cases "find cond (a_credentials db)")
  case None
  then have "\<forall>c \<in> set (a_credentials db). \<not> cond c" by (simp add: find_None_iff)
  then show thesis using that(1) assms None by (simp add: update_credentials_def)
next
  case (Some old)
  then have "old \<in> set (a_credentials db)" "cond old" by (auto simp: find_Some_iff)
  then show thesis using that(2) [of old] assms Some
    by (auto simp: update_credentials_def Let_def replaced_def split: if_splits)
qed

lemma active_agent_replaced:
  assumes d: "distinct (map ca_id (a_callers db))" and old: "old \<in> set (a_callers db)"
    and s: "same_caller old new" and a: "active_agent_caller db c"
    and k: "ca_disabled_at new \<noteq> None \<Longrightarrow> ca_disabled_at old = None
      \<Longrightarrow> \<not> (cr_caller_id c = ca_id old \<and> cr_library_id c = ca_library_id old)"
    and cs: "a_callers db' = replaced ca_id new (a_callers db)"
  shows "active_agent_caller db' c"
proof -
  obtain x where x: "x \<in> set (a_callers db)" "ca_id x = cr_caller_id c" "ca_library_id x = cr_library_id c"
    "ca_kind x = Agent" "ca_disabled_at x = None"
    using a by (auto simp: active_agent_caller_def list_ex_iff)
  have m: "y \<in> set (a_callers db') \<longleftrightarrow> y = new \<or> (y \<in> set (a_callers db) \<and> y \<noteq> old)" for y
    unfolding cs using replaced_mem [OF d old] s by (simp add: same_caller_def)
  show ?thesis
  proof (cases "x = old")
    case True
    have "ca_disabled_at new = None" using k x unfolding True by metis
    then show ?thesis using True x s m by (auto simp: active_agent_caller_def list_ex_iff same_caller_def)
  next
    case False
    then show ?thesis using x m by (auto simp: active_agent_caller_def list_ex_iff)
  qed
qed

lemma caller_replaced_ok:
  assumes ok: "auth_ok sha db" and old: "old \<in> set (a_callers db)" and s: "same_caller old new"
    and db': "db' = db\<lparr>a_callers := replaced ca_id new (a_callers db), a_token_values := vs\<rparr>"
    and vs: "set vs \<subseteq> set (a_token_values db)"
    and k: "\<And>t c. t \<in> set vs \<Longrightarrow> c \<in> set (a_credentials db) \<Longrightarrow> cr_id c = tv_credential_id t
      \<Longrightarrow> ca_disabled_at new \<noteq> None \<Longrightarrow> ca_disabled_at old = None
      \<Longrightarrow> \<not> (cr_caller_id c = ca_id old \<and> cr_library_id c = ca_library_id old)"
  shows "auth_ok sha db'" and "auth_advances db db'"
proof -
  have d: "distinct (map ca_id (a_callers db))" using ok by (simp add: auth_ok_def)
  have "value_ok sha db' t" if t: "t \<in> set vs" for t
  proof -
    have "value_ok sha db t" using ok vs t by (auto simp: auth_ok_def list_all_iff)
    then obtain c where c: "c \<in> set (a_credentials db)" "cr_id c = tv_credential_id t"
      "cr_revoked_at c = None" "cr_rotated_at c = None" "active_agent_caller db c"
      "\<exists>p. parse_token sha (tv_value t) = Inr p \<and> pt_selector p = cr_selector c
         \<and> verify_token sha p (Some (cr_verifier c))" by (auto simp: value_ok_def)
    have "active_agent_caller db' c"
      by (rule active_agent_replaced [OF d old s c(5) k [OF t c(1,2)]]) (simp_all add: db')
    then show ?thesis using c unfolding value_ok_def by (auto simp: db')
  qed
  then show "auth_ok sha db'" using ok by (simp add: auth_ok_def db' list_all_iff)
  have m: "y \<in> set (a_callers db') \<longleftrightarrow> y = new \<or> (y \<in> set (a_callers db) \<and> y \<noteq> old)" for y
    unfolding db' using replaced_mem [OF d old] s by (simp add: same_caller_def)
  have "\<exists>b \<in> set (a_callers db'). same_caller a b" if "a \<in> set (a_callers db)" for a
    using that s m by (cases "a = old") (blast intro: same_refl)+
  then show "auth_advances db db'" by (auto simp: auth_advances_def db' intro: same_refl)
qed

lemma credential_replaced_ok:
  assumes ok: "auth_ok sha db" and old: "old \<in> set (a_credentials db)" and s: "same_credential old new"
    and ck: "credential_check new"
    and db': "db' = db\<lparr>a_credentials := replaced cr_id new (a_credentials db), a_token_values := vs\<rparr>"
    and vs: "set vs \<subseteq> set (a_token_values db)"
    and k: "cr_revoked_at new \<noteq> None \<or> cr_rotated_at new \<noteq> None
      \<Longrightarrow> \<forall>t \<in> set vs. tv_credential_id t \<noteq> cr_id new"
  shows "auth_ok sha db'" and "auth_advances db db'"
proof -
  have d: "distinct (map cr_id (a_credentials db))" using ok by (simp add: auth_ok_def)
  have id: "cr_id new = cr_id old" "cr_selector new = cr_selector old" "cr_verifier new = cr_verifier old"
    "cr_caller_id new = cr_caller_id old" "cr_library_id new = cr_library_id old"
    using s by (auto simp: same_credential_def credential_key_def)
  have m: "y \<in> set (a_credentials db') \<longleftrightarrow> y = new \<or> (y \<in> set (a_credentials db) \<and> y \<noteq> old)" for y
    unfolding db' using replaced_mem [OF d old] id by simp
  have aa: "active_agent_caller db' c = active_agent_caller db c" for c
    by (simp add: active_agent_caller_def db')
  have "value_ok sha db' t" if t: "t \<in> set vs" for t
  proof -
    have "value_ok sha db t" using ok vs t by (auto simp: auth_ok_def list_all_iff)
    then obtain c where c: "c \<in> set (a_credentials db)" "cr_id c = tv_credential_id t"
      "cr_revoked_at c = None" "cr_rotated_at c = None" "active_agent_caller db c"
      "\<exists>p. parse_token sha (tv_value t) = Inr p \<and> pt_selector p = cr_selector c
         \<and> verify_token sha p (Some (cr_verifier c))" by (auto simp: value_ok_def)
    show ?thesis
    proof (cases "c = old")
      case True
      then have "cr_revoked_at new = None \<and> cr_rotated_at new = None" using k t c(2) id by metis
      moreover have "active_agent_caller db new"
        using c(5) True id by (simp add: active_agent_caller_def)
      ultimately show ?thesis using c True m id aa unfolding value_ok_def by auto
    next
      case False
      then show ?thesis using c m aa unfolding value_ok_def by auto
    qed
  qed
  moreover have "map cr_selector (replaced cr_id new (a_credentials db)) = map cr_selector (a_credentials db)"
    by (rule replaced_other_keys [OF d old]) (simp_all add: id)
  moreover have "list_all credential_check (a_credentials db')"
    using m ck ok by (auto simp: auth_ok_def list_all_iff)
  ultimately show "auth_ok sha db'" using ok by (simp add: auth_ok_def db' list_all_iff)
  have "\<exists>e \<in> set (a_credentials db'). same_credential c e" if "c \<in> set (a_credentials db)" for c
    using that s m by (cases "c = old") (blast intro: same_refl)+
  then show "auth_advances db db'" by (auto simp: auth_advances_def db' intro: same_refl)
qed

section \<open>The operations keep it\<close>

inductive auth_step :: "(bytes \<Rightarrow> bytes) \<Rightarrow> auth_db \<Rightarrow> auth_db \<Rightarrow> bool" for sha where
  add_caller: "add_caller c db = Inr db' \<Longrightarrow> auth_step sha db db'"
| metadata: "update_agent_metadata l i n ds e u db = Inr (db', b) \<Longrightarrow> auth_step sha db db'"
| disable: "disable_caller l i at db = Inr (db', c) \<Longrightarrow> auth_step sha db db'"
| policy_version: "increment_policy_version l i v u db = Inr (db', c) \<Longrightarrow> auth_step sha db db'"
| add_credential: "add_credential cr db = Inr db' \<Longrightarrow> auth_step sha db db'"
| add_agent: "add_agent_credential_with_value sha cr v db = Inr db' \<Longrightarrow> auth_step sha db db'"
| touch: "touch_credential_last_used cr at db = Inr (db', r) \<Longrightarrow> auth_step sha db db'"
| revoke: "revoke_credential cr at db = Inr (db', r') \<Longrightarrow> auth_step sha db db'"
| rotate: "mark_credential_rotated cr rid at db = Inr (db', r') \<Longrightarrow> auth_step sha db db'"
| add_grant: "add_grant g db = Inr db' \<Longrightarrow> auth_step sha db db'"
| remove_grant: "remove_grant l i s a db = (db', b) \<Longrightarrow> auth_step sha db db'"
| other_tables: "db' = db\<lparr>a_libraries := ls, a_sections := ss, a_policies := ps, a_library_grants := gs\<rparr>
    \<Longrightarrow> auth_step sha db db'"

definition auth_steps :: "(bytes \<Rightarrow> bytes) \<Rightarrow> auth_db \<Rightarrow> auth_db \<Rightarrow> bool" where
  "auth_steps sha = (auth_step sha)\<^sup>*\<^sup>*"

definition empty_auth :: auth_db where
  "empty_auth = \<lparr>a_libraries = [], a_sections = [], a_callers = [], a_credentials = [],
     a_token_values = [], a_policies = [], a_library_grants = [], a_section_grants = []\<rparr>"

lemma value_ok_cong:
  "a_credentials db' = a_credentials db \<Longrightarrow> a_callers db' = a_callers db \<Longrightarrow> value_ok sha db' t = value_ok sha db t"
  by (simp add: value_ok_def active_agent_caller_def)

lemma other_auth_tables:
  assumes "a_credentials db' = a_credentials db" "a_callers db' = a_callers db"
    "a_token_values db' = a_token_values db" "auth_ok sha db"
  shows "auth_ok sha db' \<and> auth_advances db db'"
proof -
  have "value_ok sha db' = value_ok sha db" using value_ok_cong [OF assms(1,2)] by blast
  then show ?thesis using assms by (auto simp: auth_ok_def auth_advances_def intro: same_refl)
qed

lemma value_ok_grows:
  assumes "set (a_credentials db) \<subseteq> set (a_credentials db')" "set (a_callers db) \<subseteq> set (a_callers db')"
    and "value_ok sha db t"
  shows "value_ok sha db' t"
  using assms unfolding value_ok_def active_agent_caller_def list_ex_iff by blast

lemma add_caller_step:
  assumes ok: "auth_ok sha db" and a: "add_caller c db = Inr db'"
  shows "auth_ok sha db' \<and> auth_advances db db'"
proof -
  have db': "db' = db\<lparr>a_callers := a_callers db @ [c]\<rparr>" and n: "ca_id c \<notin> ca_id ` set (a_callers db)"
    using a by (auto simp: add_caller_def list_ex_iff split: if_splits)
  have "list_all (value_ok sha db') (a_token_values db)"
    using ok value_ok_grows [of db db'] by (auto simp: auth_ok_def list_all_iff db')
  then show ?thesis using ok n by (auto simp: auth_ok_def auth_advances_def db' intro: same_refl)
qed

lemma add_credential_Inr:
  assumes "add_credential c db = Inr db'"
  shows "db' = db\<lparr>a_credentials := a_credentials db @ [c]\<rparr>" and "credential_check c"
    and "cr_id c \<notin> cr_id ` set (a_credentials db)" and "cr_selector c \<notin> cr_selector ` set (a_credentials db)"
  using assms by (auto simp: add_credential_def list_ex_iff split: if_splits)

lemma add_credential_step:
  assumes ok: "auth_ok sha db" and a: "add_credential c db = Inr db'"
  shows "auth_ok sha db' \<and> auth_advances db db'"
proof -
  note i = add_credential_Inr [OF a]
  have "list_all (value_ok sha db') (a_token_values db)"
    using ok value_ok_grows [of db db'] by (auto simp: auth_ok_def list_all_iff i(1))
  then show ?thesis using ok i(2-4) by (auto simp: auth_ok_def auth_advances_def i(1) intro: same_refl)
qed

lemma insert_token_value_Inr:
  assumes "insert_token_value t db = Inr db'"
  obtains c where "db' = db\<lparr>a_token_values := a_token_values db @ [t]\<rparr>"
    "c \<in> set (a_credentials db)" "cr_id c = tv_credential_id t" "cr_revoked_at c = None"
    "cr_rotated_at c = None" "active_agent_caller db c"
  using assms by (auto simp: insert_token_value_def list_ex_iff active_agent_caller_def split: if_splits)

lemma add_agent_Inr:
  assumes "add_agent_credential_with_value sha c v db = Inr db'"
  obtains p db1 where "parse_token sha v = Inr p" "pt_selector p = cr_selector c"
    "verify_token sha p (Some (cr_verifier c))" "add_credential c db = Inr db1"
    "insert_token_value \<lparr>tv_credential_id = cr_id c, tv_value = v\<rparr> db1 = Inr db'"
  using assms by (auto simp: add_agent_credential_with_value_def result_simps split: sum.splits if_splits)

lemma add_agent_step:
  assumes ok: "auth_ok sha db" and a: "add_agent_credential_with_value sha c v db = Inr db'"
  shows "auth_ok sha db' \<and> auth_advances db db'"
proof -
  obtain p db1 where p: "parse_token sha v = Inr p" "pt_selector p = cr_selector c"
    "verify_token sha p (Some (cr_verifier c))" and ac: "add_credential c db = Inr db1"
    and i: "insert_token_value \<lparr>tv_credential_id = cr_id c, tv_value = v\<rparr> db1 = Inr db'"
    using add_agent_Inr [OF a] by metis
  have s: "auth_ok sha db1" "auth_advances db db1" using add_credential_step [OF ok ac] by simp_all
  obtain d where db': "db' = db1\<lparr>a_token_values := a_token_values db1 @ [\<lparr>tv_credential_id = cr_id c, tv_value = v\<rparr>]\<rparr>"
    and d: "d \<in> set (a_credentials db1)" "cr_id d = cr_id c" "cr_revoked_at d = None"
      "cr_rotated_at d = None" "active_agent_caller db1 d"
    using insert_token_value_Inr [OF i] by (metis token_value.select_convs(1))
  have "c \<in> set (a_credentials db1)" using add_credential_Inr(1) [OF ac] by simp
  then have "d = c" using d s(1) by (auto simp: auth_ok_def distinct_map inj_on_def)
  then have "value_ok sha db1 \<lparr>tv_credential_id = cr_id c, tv_value = v\<rparr>"
    using d p by (auto simp: value_ok_def)
  then have "auth_ok sha db'" using s(1) value_ok_cong [of db' db1] by (simp add: auth_ok_def db' list_all_iff)
  then show ?thesis using s(2) by (simp add: auth_advances_def db')
qed

lemma metadata_step:
  assumes ok: "auth_ok sha db" and a: "update_callers cond f db = Inr (db', n)"
    and f: "\<And>c. ca_id (f c) = ca_id c \<and> ca_library_id (f c) = ca_library_id c \<and> ca_kind (f c) = ca_kind c
      \<and> ca_disabled_at (f c) = ca_disabled_at c"
  shows "auth_ok sha db' \<and> auth_advances db db'"
  using a
proof (cases rule: update_callers_Inr)
  case 1
  then show ?thesis using ok by simp
next
  case (2 old)
  then have db': "db' = db\<lparr>a_callers := replaced ca_id (f old) (a_callers db), a_token_values := a_token_values db\<rparr>"
    using f by simp
  have s: "same_caller old (f old)" using f by (simp add: same_caller_def)
  show ?thesis using caller_replaced_ok [OF ok 2(2) s db'] f by auto
qed

lemma disable_step:
  assumes ok: "auth_ok sha db" and a: "disable_caller l i at db = Inr (db', c)"
  shows "auth_ok sha db' \<and> auth_advances db db'"
proof -
  let ?f = "\<lambda>c. c\<lparr>ca_disabled_at := Some at, ca_updated_at := at, ca_policy_version := ca_policy_version c + 1\<rparr>"
  obtain db1 n where u: "update_callers
        (\<lambda>c. ca_library_id c = l \<and> ca_id c = i \<and> ca_disabled_at c = None) ?f db = Inr (db1, n)"
    and db': "db' = (if n \<noteq> 1 then db1 else caller_values_deleted l i db1)"
    using a by (auto simp: disable_caller_def result_simps Let_def)
  from u show ?thesis
  proof (cases rule: update_callers_Inr)
    case 1
    then show ?thesis using ok db' by simp
  next
    case (2 old)
    let ?vs = "filter (\<lambda>t. \<not> list_ex (\<lambda>c. cr_id c = tv_credential_id t
          \<and> cr_library_id c = l \<and> cr_caller_id c = i) (a_credentials db)) (a_token_values db)"
    have "db1 = db\<lparr>a_callers := replaced ca_id (?f old) (a_callers db)\<rparr>" using 2(5) by simp
    then have e: "db' = db\<lparr>a_callers := replaced ca_id (?f old) (a_callers db), a_token_values := ?vs\<rparr>"
      using db' 2(1) by (simp add: caller_values_deleted_def)
    have s: "same_caller old (?f old)" by (simp add: same_caller_def)
    have k: "\<not> (cr_caller_id c = ca_id old \<and> cr_library_id c = ca_library_id old)"
      if "t \<in> set ?vs" "c \<in> set (a_credentials db)" "cr_id c = tv_credential_id t" for t c
      using that 2(3) by (auto simp: list_ex_iff)
    have vs: "set ?vs \<subseteq> set (a_token_values db)" by auto
    have "auth_ok sha db'" by (rule caller_replaced_ok(1) [OF ok 2(2) s e vs]) (rule k)
    moreover have "auth_advances db db'" by (rule caller_replaced_ok(2) [OF ok 2(2) s e vs]) (rule k)
    ultimately show ?thesis ..
  qed
qed

lemma credential_update_step:
  assumes ok: "auth_ok sha db" and u: "update_credentials cond f db = Inr (db', n)"
    and f: "\<And>c. same_credential c (f c)"
  shows "auth_ok sha db' \<and> auth_advances db db'"
  using u
proof (cases rule: update_credentials_Inr)
  case 1
  then show ?thesis using ok by simp
next
  case (2 old)
  have "cr_id (f old) = cr_id old" using f by (simp add: same_credential_def credential_key_def)
  note db' = 2(5) [OF this]
  show ?thesis using credential_replaced_ok [OF ok 2(2) f 2(4) db'] by auto
qed

lemma values_filtered_step:
  assumes "auth_ok sha db"
  shows "auth_ok sha (db\<lparr>a_token_values := filter P (a_token_values db)\<rparr>)"
    and "auth_advances db (db\<lparr>a_token_values := filter P (a_token_values db)\<rparr>)"
proof -
  have "value_ok sha (db\<lparr>a_token_values := filter P (a_token_values db)\<rparr>) t = value_ok sha db t" for t
    by (rule value_ok_cong) simp_all
  then show "auth_ok sha (db\<lparr>a_token_values := filter P (a_token_values db)\<rparr>)"
    using assms by (auto simp: auth_ok_def list_all_iff)
  show "auth_advances db (db\<lparr>a_token_values := filter P (a_token_values db)\<rparr>)"
    by (auto simp: auth_advances_def intro: same_refl)
qed

lemma auth_step_ok:
  assumes s: "auth_step sha db db'" and ok: "auth_ok sha db"
  shows "auth_ok sha db' \<and> auth_advances db db'"
  using s
proof cases
  case (add_caller c)
  then show ?thesis using add_caller_step [OF ok] by blast
next
  case (metadata l i n ds e u b)
  then show ?thesis
    by (auto simp: update_agent_metadata_def result_simps intro!: metadata_step [OF ok])
next
  case (disable l i at c)
  then show ?thesis using disable_step [OF ok] by blast
next
  case (policy_version l i v u c)
  then show ?thesis
    by (auto simp: increment_policy_version_def result_simps intro!: metadata_step [OF ok])
next
  case (add_credential cr)
  then show ?thesis using add_credential_step [OF ok] by blast
next
  case (add_agent cr v)
  then show ?thesis using add_agent_step [OF ok] by blast
next
  case (touch cr at r)
  then obtain n where "update_credentials (live_row cr)
      (\<lambda>x. x\<lparr>cr_last_used_at := Some at, cr_updated_at := at\<rparr>) db = Inr (db', n)"
    by (auto simp: touch_credential_last_used_def result_simps)
  then show ?thesis
    by (rule credential_update_step [OF ok]) (simp add: same_credential_def credential_key_def)
next
  case (revoke cr at r')
  then obtain db1 n where u: "update_credentials (live_row cr)
      (\<lambda>x. x\<lparr>cr_revoked_at := Some at, cr_updated_at := at\<rparr>) db = Inr (db1, n)"
    and db': "db' = (if n = 1 then db1\<lparr>a_token_values :=
        filter (\<lambda>t. tv_credential_id t \<noteq> cr_id cr) (a_token_values db1)\<rparr> else db1)"
    by (auto simp: revoke_credential_def result_simps Let_def)
  have "auth_ok sha db1 \<and> auth_advances db db1" using u
    by (rule credential_update_step [OF ok]) (simp add: same_credential_def credential_key_def)
  then show ?thesis using values_filtered_step [of sha db1] auth_advances_trans [of db db1 db']
    by (simp add: db')
next
  case (rotate cr rid at r')
  then obtain db1 n where u: "update_credentials (live_row cr)
      (\<lambda>x. x\<lparr>cr_revoked_at := Some at, cr_rotated_at := Some at, cr_rotated_to := Some rid,
           cr_updated_at := at\<rparr>) db = Inr (db1, n)"
    and db': "db' = (if n = 1 then db1\<lparr>a_token_values :=
        filter (\<lambda>t. tv_credential_id t \<noteq> cr_id cr) (a_token_values db1)\<rparr> else db1)"
    by (auto simp: mark_credential_rotated_def result_simps Let_def split: if_splits)
  have "auth_ok sha db1 \<and> auth_advances db db1" using u
    by (rule credential_update_step [OF ok]) (simp add: same_credential_def credential_key_def)
  then show ?thesis using values_filtered_step [of sha db1] auth_advances_trans [of db db1 db']
    by (simp add: db')
next
  case (add_grant g)
  then show ?thesis
    by (intro other_auth_tables [OF _ _ _ ok]) (auto simp: add_grant_def split: if_splits)
next
  case (remove_grant l i s a b)
  then show ?thesis by (intro other_auth_tables [OF _ _ _ ok]) (auto simp: remove_grant_def)
next
  case (other_tables ls ss ps gs)
  then show ?thesis by (intro other_auth_tables [OF _ _ _ ok]) simp_all
qed

lemma auth_steps_ok:
  assumes "auth_steps sha db db'" "auth_ok sha db"
  shows "auth_ok sha db' \<and> auth_advances db db'"
  using assms(1) unfolding auth_steps_def
proof (induction rule: rtranclp_induct)
  case base
  then show ?case using assms(2) by simp
next
  case (step y z)
  then show ?case using auth_step_ok auth_advances_trans by blast
qed

lemma empty_auth_ok: "auth_ok sha empty_auth"
  by (simp add: auth_ok_def empty_auth_def)

section \<open>Authentication\<close>

lemma auth_reachable_ok:
  "auth_steps sha empty_auth db \<Longrightarrow> auth_ok sha db"
  using auth_steps_ok empty_auth_ok by blast

lemma find_selector_unique:
  assumes "auth_ok sha db" "c \<in> set (a_credentials db)"
  shows "find_credential_by_selector db (cr_selector c) = Some c"
proof -
  have d: "distinct (map cr_selector (a_credentials db))" using assms(1) by (simp add: auth_ok_def)
  have "find_credential_by_selector db (cr_selector c) \<noteq> None"
    using assms(2) by (auto simp: find_credential_by_selector_def find_None_iff)
  then obtain x where x: "find_credential_by_selector db (cr_selector c) = Some x" by auto
  then have "x \<in> set (a_credentials db)" "cr_selector x = cr_selector c"
    by (auto simp: find_credential_by_selector_def find_Some_iff)
  then have "x = c" using d assms(2) by (auto simp: distinct_map inj_on_def)
  then show ?thesis using x by simp
qed

lemma get_caller_unique:
  assumes "auth_ok sha db" "a \<in> set (a_callers db)"
  shows "get_caller db (ca_library_id a) (ca_id a) = Some a"
proof -
  have d: "distinct (map ca_id (a_callers db))" using assms(1) by (simp add: auth_ok_def)
  have "get_caller db (ca_library_id a) (ca_id a) \<noteq> None"
    using assms(2) by (auto simp: get_caller_def find_None_iff)
  then obtain x where x: "get_caller db (ca_library_id a) (ca_id a) = Some x" by auto
  then have "x \<in> set (a_callers db)" "ca_id x = ca_id a" by (auto simp: get_caller_def find_Some_iff)
  then have "x = a" using d assms(2) by (auto simp: distinct_map inj_on_def)
  then show ?thesis using x by simp
qed

text \<open>The write of \<open>last_used_at\<close> during an authentication satisfies every constraint.\<close>

lemma touch_succeeds:
  assumes ok: "auth_ok sha db" and s: "s \<in> set (a_credentials db)" and n: "\<not> credential_refused c s now"
    and u: "cr_updated_at s \<le> now"
  obtains db' s' where "touch_credential_last_used s now db = Inr (db', s')"
    "credential_metadata s' = (credential_metadata s)\<lparr>cr_last_used_at := Some now, cr_updated_at := now\<rparr>"
proof -
  have live: "cr_revoked_at s = None" "cr_rotated_at s = None" "cr_created_at s \<le> now"
    "\<And>e. cr_expires_at s = Some e \<Longrightarrow> now < e"
    using n by (auto simp: credential_refused_def split: option.splits)
  let ?f = "\<lambda>x. x\<lparr>cr_last_used_at := Some now, cr_updated_at := now\<rparr> :: credential"
  have d: "distinct (map cr_id (a_credentials db))" using ok by (simp add: auth_ok_def)
  have uniq: "x = s" if "x \<in> set (a_credentials db)" "cr_id x = cr_id s" for x
    using that s d by (auto simp: distinct_map inj_on_def)
  have ck: "credential_check s" using ok s by (auto simp: auth_ok_def list_all_iff)
  have ck': "credential_check (?f s)" using ck live u
    by (auto simp: credential_check_def within_def split: option.splits)
  have "find (live_row s) (a_credentials db) \<noteq> None"
    using s live by (auto simp: find_None_iff live_row_def)
  then obtain x where x: "find (live_row s) (a_credentials db) = Some x" by auto
  then have "x \<in> set (a_credentials db)" "cr_id x = cr_id s"
    by (auto simp: find_Some_iff live_row_def credential_key_def)
  then have "x = s" using uniq by blast
  note f = x [unfolded this]
  have nr: "cr_rotated_to s = None" using ck live by (auto simp: credential_check_def)
  let ?db = "db\<lparr>a_credentials := replaced cr_id (?f s) (a_credentials db)\<rparr>"
  have up: "update_credentials (live_row s) ?f db = Inr (?db, 1)"
    using f ck' nr live by (simp add: update_credentials_def Let_def replaced_def)
  have m: "y \<in> set (replaced cr_id (?f s) (a_credentials db)) \<longleftrightarrow> y = ?f s \<or> (y \<in> set (a_credentials db) \<and> y \<noteq> s)" for y
    by (rule replaced_mem [OF d s]) simp
  have "get_credential ?db (cr_library_id s) (cr_caller_id s) (cr_id s) \<noteq> None"
    using m [of "?f s"] by (auto simp: get_credential_def find_None_iff intro!: exI [of _ "?f s"])
  then obtain y where y: "get_credential ?db (cr_library_id s) (cr_caller_id s) (cr_id s) = Some y" by auto
  then have "y \<in> set (replaced cr_id (?f s) (a_credentials db))" "cr_id y = cr_id s"
    by (auto simp: get_credential_def find_Some_iff)
  then have "y = ?f s" using m uniq by auto
  with y have "touch_credential_last_used s now db = Inr (?db, ?f s)"
    unfolding touch_credential_last_used_def up result_simps prod.case by simp
  then show thesis by (rule that) (simp add: credential_metadata_def credential_record.truncate_def)
qed

lemma authenticate_verified:
  assumes ok: "auth_ok sha db" and p: "parse_token sha tok = Inr p" and c: "c \<in> set (a_credentials db)"
    and sel: "pt_selector p = cr_selector c" and v: "verify_token sha p (Some (cr_verifier c))"
    and n: "\<not> credential_refused (get_caller db (cr_library_id c) (cr_caller_id c)) c now"
  obtains db' a where "authenticate sha co now tok db = Inr (db', a)"
    "Some (ac_caller a) = get_caller db (cr_library_id c) (cr_caller_id c)"
    "cr_id (ac_credential a) = cr_id c"
proof -
  have f: "find_credential_by_selector db (cr_selector c) = Some c" by (rule find_selector_unique [OF ok c])
  have tv: "cr_token_version c = TOKEN_VERSION" using ok c
    by (auto simp: auth_ok_def list_all_iff credential_check_def)
  obtain cl where cl: "get_caller db (cr_library_id c) (cr_caller_id c) = Some cl"
    using n by (auto simp: credential_refused_def split: option.splits)
  let ?touch = "co \<ge> 0 \<and> now \<ge> last_used_baseline c + co \<and> now \<ge> cr_updated_at c"
  let ?r = "if ?touch then touch_credential_last_used c now db else Inr (db, c)"
  have a: "authenticate sha co now tok db = bindR ?r (\<lambda>(db', s'). Inr (db',
      \<lparr>ac_caller = cl, ac_credential = credential_metadata s'\<rparr>))"
    using n by (simp add: authenticate_def p sel f v tv cl Let_def del: not_le)
  show thesis
  proof (cases ?touch)
    case True
    then obtain db' s' where "touch_credential_last_used c now db = Inr (db', s')"
      "credential_metadata s' = (credential_metadata c)\<lparr>cr_last_used_at := Some now, cr_updated_at := now\<rparr>"
      using touch_succeeds [OF ok c n] by blast
    then have "authenticate sha co now tok db = Inr (db', \<lparr>ac_caller = cl, ac_credential = credential_metadata s'\<rparr>)"
      "cr_id (credential_metadata s') = cr_id c"
      unfolding a using True by (simp_all add: credential_metadata_def credential_record.truncate_def)
    then show thesis
      using cl by (intro that [of db' "\<lparr>ac_caller = cl, ac_credential = credential_metadata s'\<rparr>"]) simp_all
  next
    case False
    then have "authenticate sha co now tok db = Inr (db, \<lparr>ac_caller = cl, ac_credential = credential_metadata c\<rparr>)"
      unfolding a if_not_P [OF False] by simp
    then show thesis using cl
      by (intro that [of db "\<lparr>ac_caller = cl, ac_credential = credential_metadata c\<rparr>"]) (simp_all add: credential_metadata_def credential_record.truncate_def)
  qed
qed

text \<open>C33: once a credential is revoked or rotated, or its caller is disabled, no token with its selector
  authenticates, now or after any further operations of the store.\<close>

theorem retired_credential_never_authenticates:
  assumes "auth_steps sha empty_auth db" and c: "c \<in> set (a_credentials db)"
    and r: "cr_revoked_at c \<noteq> None \<or> cr_rotated_at c \<noteq> None
      \<or> (\<exists>a \<in> set (a_callers db). ca_id a = cr_caller_id c \<and> ca_disabled_at a \<noteq> None)"
    and st: "auth_steps sha db db'"
    and p: "parse_token sha tok = Inr p" "pt_selector p = cr_selector c"
  shows "authenticate sha co now tok db' = Inl AuthenticationFailed"
proof -
  have ok: "auth_ok sha db" by (rule auth_reachable_ok [OF assms(1)])
  have ok': "auth_ok sha db'" and adv: "auth_advances db db'" using auth_steps_ok [OF st ok] by simp_all
  obtain d where d: "d \<in> set (a_credentials db')" "same_credential c d"
    using adv c by (auto simp: auth_advances_def)
  have f: "find_credential_by_selector db' (pt_selector p) = Some d"
    using find_selector_unique [OF ok' d(1)] d(2) p(2) by (simp add: same_credential_def)
  have "cr_rotated_at c \<noteq> None \<longrightarrow> cr_revoked_at c \<noteq> None"
    using ok c by (auto simp: auth_ok_def list_all_iff credential_check_def)
  then consider "cr_revoked_at c \<noteq> None"
    | a where "a \<in> set (a_callers db)" "ca_id a = cr_caller_id c" "ca_disabled_at a \<noteq> None"
    using r by auto
  then have "credential_refused (get_caller db' (cr_library_id d) (cr_caller_id d)) d now"
  proof cases
    case 1
    then have "cr_revoked_at d \<noteq> None" using d(2) by (simp add: same_credential_def)
    then show ?thesis by (auto simp: credential_refused_def split: option.splits)
  next
    case (2 a)
    obtain b where b: "b \<in> set (a_callers db')" "same_caller a b"
      using adv 2(1) by (auto simp: auth_advances_def)
    have bid: "ca_id b = cr_caller_id d" "ca_disabled_at b \<noteq> None"
      using b(2) 2 d(2) by (auto simp: same_caller_def same_credential_def credential_key_def)
    have u: "x = b" if "get_caller db' (cr_library_id d) (cr_caller_id d) = Some x" for x
    proof -
      have "x \<in> set (a_callers db')" "ca_id x = ca_id b"
        using that bid by (auto simp: get_caller_def find_Some_iff)
      then show ?thesis using ok' b(1) by (auto simp: auth_ok_def distinct_map inj_on_def)
    qed
    then show ?thesis using bid by (auto simp: credential_refused_def split: option.splits)
  qed
  then show ?thesis by (simp add: authenticate_def p(1) f Let_def)
qed

text \<open>C34: every token value kept for later reveal is the token of one live Agent credential, and
  presenting it authenticates that credential from its creation until its expiry.\<close>

theorem stored_value_authenticates:
  assumes "auth_steps sha empty_auth db" and t: "t \<in> set (a_token_values db)"
  shows "\<exists>c \<in> set (a_credentials db). cr_id c = tv_credential_id t
     \<and> (\<forall>now co. cr_created_at c \<le> now \<and> (case cr_expires_at c of None \<Rightarrow> True | Some e \<Rightarrow> now < e)
        \<longrightarrow> (\<exists>db' a. authenticate sha co now (tv_value t) db = Inr (db', a)
              \<and> cr_id (ac_credential a) = cr_id c \<and> ca_id (ac_caller a) = cr_caller_id c
              \<and> ca_kind (ac_caller a) = Agent))"
proof -
  have ok: "auth_ok sha db" by (rule auth_reachable_ok [OF assms(1)])
  then have "value_ok sha db t" using t by (auto simp: auth_ok_def list_all_iff)
  then obtain c p where c: "c \<in> set (a_credentials db)" "cr_id c = tv_credential_id t"
    "cr_revoked_at c = None" "cr_rotated_at c = None" "active_agent_caller db c"
    and p: "parse_token sha (tv_value t) = Inr p" "pt_selector p = cr_selector c"
      "verify_token sha p (Some (cr_verifier c))" by (auto simp: value_ok_def)
  obtain a where a: "a \<in> set (a_callers db)" "ca_id a = cr_caller_id c" "ca_library_id a = cr_library_id c"
    "ca_kind a = Agent" "ca_disabled_at a = None"
    using c(5) by (auto simp: active_agent_caller_def list_ex_iff)
  have g: "get_caller db (cr_library_id c) (cr_caller_id c) = Some a"
    using get_caller_unique [OF ok a(1)] a by simp
  have "\<exists>db' x. authenticate sha co now (tv_value t) db = Inr (db', x)
      \<and> cr_id (ac_credential x) = cr_id c \<and> ca_id (ac_caller x) = cr_caller_id c \<and> ca_kind (ac_caller x) = Agent"
    if n: "cr_created_at c \<le> now" "case cr_expires_at c of None \<Rightarrow> True | Some e \<Rightarrow> now < e" for now co
  proof -
    have "\<not> credential_refused (get_caller db (cr_library_id c) (cr_caller_id c)) c now"
      using n c a g by (auto simp: credential_refused_def split: option.splits)
    then obtain db' x where "authenticate sha co now (tv_value t) db = Inr (db', x)"
      "Some (ac_caller x) = get_caller db (cr_library_id c) (cr_caller_id c)" "cr_id (ac_credential x) = cr_id c"
      by (rule authenticate_verified [OF ok p(1) c(1) p(2,3)])
    then show ?thesis using g a by auto
  qed
  then show ?thesis using c(1,2) by blast
qed

lemma issue_credential_Inr:
  assumes i: "issue_credential sha selector secret new_id now caller expires_at db = Inr (db', v, r)"
  obtains p c dba where "parse_token sha v = Inr p" "pt_selector p = cr_selector c"
    "pt_version p = TOKEN_VERSION" "cr_verifier c = pt_verifier p" "pt_verifier p = derive_verifier sha selector secret"
    "cr_selector c = encode_component selector" "length selector = 16"
    "cr_id c = new_id" "cr_library_id c = ca_library_id caller" "cr_caller_id c = ca_id caller"
    "cr_revoked_at c = None" "cr_rotated_at c = None" "cr_created_at c = now" "cr_expires_at c = expires_at"
    "ca_disabled_at caller = None" "expires_at = None \<longrightarrow> ca_kind caller = Agent"
    "add_credential c db = Inr dba" "a_credentials db' = a_credentials dba" "a_callers db' = a_callers db"
    "auth_step sha db db'"
proof -
  obtain issued where g: "generate_token sha selector secret = Inr issued"
    using i by (auto simp: issue_credential_def split: if_splits sum.splits)
  let ?c = "\<lparr>cr_id = new_id, cr_library_id = ca_library_id caller, cr_caller_id = ca_id caller,
     cr_token_version = pt_version (it_parsed issued), cr_expires_at = expires_at,
     cr_created_at = now, cr_updated_at = now, cr_last_used_at = None,
     cr_revoked_at = None, cr_rotated_at = None, cr_rotated_to = None,
     cr_selector = pt_selector (it_parsed issued), cr_verifier = pt_verifier (it_parsed issued)\<rparr>"
  have l: "length selector = 16" "length secret = 32"
    and v: "it_value issued = token_text selector secret"
    and pi: "it_parsed issued = \<lparr>pt_version = TOKEN_VERSION, pt_selector = encode_component selector,
       pt_verifier = derive_verifier sha selector secret\<rparr>"
    using g by (auto simp: generate_token_def token_text_def SELECTOR_BYTES_def SECRET_BYTES_def split: if_splits)
  have ex: "expires_at = None \<longrightarrow> ca_kind caller = Agent" and dis: "ca_disabled_at caller = None"
    using i by (auto simp: issue_credential_def split: if_splits)
  have st: "(if ca_kind caller = Agent then add_agent_credential_with_value sha ?c (it_value issued) db
      else add_credential ?c db) = Inr db'" and vv: "v = it_value issued"
    using i g by (auto simp: issue_credential_def Let_def split: if_splits sum.splits)
  have pv: "parse_token sha v = Inr (it_parsed issued)"
    using parse_token_text [OF l, of sha] by (simp add: vv v pi)
  obtain dba where a: "add_credential ?c db = Inr dba" "a_credentials db' = a_credentials dba"
    "a_callers db' = a_callers db"
  proof (cases "ca_kind caller = Agent")
    case True
    then obtain dba where a: "add_credential ?c db = Inr dba"
      "insert_token_value \<lparr>tv_credential_id = cr_id ?c, tv_value = it_value issued\<rparr> dba = Inr db'"
      using st by (auto elim: add_agent_Inr)
    moreover have "a_credentials db' = a_credentials dba" "a_callers db' = a_callers dba"
      using a(2) by (auto elim: insert_token_value_Inr)
    ultimately show thesis using add_credential_Inr(1) [OF a(1)] by (intro that [of dba]) simp_all
  next
    case False
    then have a: "add_credential ?c db = Inr db'" using st by simp
    then show thesis using add_credential_Inr(1) [OF a] by (intro that [of db']) simp_all
  qed
  have s: "auth_step sha db db'"
    using st by (auto intro: auth_step.intros split: if_splits)
  show thesis
    by (rule that [of "it_parsed issued" ?c dba]) (use pv l a ex dis s in \<open>simp_all add: pi\<close>)
qed

text \<open>C35: a token that \<open>CredentialIssuer.issue\<close> hands out is refused before it is stored and
  authenticates exactly its caller with the new credential from then until it expires.\<close>

theorem issued_credential_authenticates:
  assumes "auth_steps sha empty_auth db" and sha: "\<forall>b. length (sha b) = 32"
    and cl: "caller \<in> set (a_callers db)"
    and i: "issue_credential sha selector secret new_id now caller expires_at db = Inr (db', v, r)"
    and n: "now \<le> later" "case expires_at of None \<Rightarrow> True | Some e \<Rightarrow> later < e"
  shows "authenticate sha co earlier v db = Inl AuthenticationFailed
    \<and> (\<exists>db'' a. authenticate sha co later v db' = Inr (db'', a) \<and> ac_caller a = caller
         \<and> cr_id (ac_credential a) = new_id)"
proof -
  obtain p c dba where p: "parse_token sha v = Inr p" "pt_selector p = cr_selector c"
    and pv: "pt_version p = TOKEN_VERSION" "cr_verifier c = pt_verifier p"
      "pt_verifier p = derive_verifier sha selector secret"
    and sel: "cr_selector c = encode_component selector" "length selector = 16"
    and c: "cr_id c = new_id" "cr_library_id c = ca_library_id caller" "cr_caller_id c = ca_id caller"
      "cr_revoked_at c = None" "cr_rotated_at c = None" "cr_created_at c = now" "cr_expires_at c = expires_at"
    and k: "ca_disabled_at caller = None" "expires_at = None \<longrightarrow> ca_kind caller = Agent"
    and a: "add_credential c db = Inr dba" and e: "a_credentials db' = a_credentials dba"
      "a_callers db' = a_callers db" and s: "auth_step sha db db'"
    by (rule issue_credential_Inr [OF i])
  have ok: "auth_ok sha db" by (rule auth_reachable_ok [OF assms(1)])
  have ok': "auth_ok sha db'" using auth_step_ok [OF s ok] by simp
  have before: "authenticate sha co earlier v db = Inl AuthenticationFailed"
    using credential_table.fresh [OF a] p by (simp add: authenticate_def Let_def)
  have m: "c \<in> set (a_credentials db')" using add_credential_Inr(1) [OF a] e by simp
  have "is_canonical_selector (pt_selector p)" using p sel decode_encode [of selector]
    by (simp add: is_canonical_selector_def length_encode_component SELECTOR_ENCODED_LENGTH_def SELECTOR_BYTES_def)
  then have v: "verify_token sha p (Some (cr_verifier c))"
    using pv sha by (simp add: verify_token_iff derive_verifier_def)
  have g: "get_caller db' (cr_library_id c) (cr_caller_id c) = Some caller"
    using get_caller_unique [OF ok'] cl e c by simp
  have "\<not> credential_refused (get_caller db' (cr_library_id c) (cr_caller_id c)) c later"
    using n c k unfolding g by (auto simp: credential_refused_def split: option.splits)
  then obtain db'' x where "authenticate sha co later v db' = Inr (db'', x)"
    "Some (ac_caller x) = get_caller db' (cr_library_id c) (cr_caller_id c)" "cr_id (ac_credential x) = cr_id c"
    by (rule authenticate_verified [OF ok' p(1) m p(2) v])
  then show ?thesis using before g c by auto
qed

section \<open>What authorizes a request\<close>

text \<open>The rows that decide, without the functions that look them up.\<close>

definition policy_row :: "authenticated_caller \<Rightarrow> library_policy_row \<Rightarrow> bool" where
  "policy_row a p \<longleftrightarrow> lp_credential_id p = cr_id (ac_credential a) \<and> lp_caller_id p = ca_id (ac_caller a)
     \<and> lp_home_library_id p = ca_library_id (ac_caller a) \<and> lp_mode p = lit ''library_grants''"

definition granted_policy :: "auth_db \<Rightarrow> authenticated_caller \<Rightarrow> library_policy_row \<Rightarrow> bool" where
  "granted_policy db a p \<longleftrightarrow> p \<in> set (a_policies db) \<and> policy_row a p"

definition library_selected :: "auth_db \<Rightarrow> authenticated_caller \<Rightarrow> pystr \<Rightarrow> section_action \<Rightarrow> bool" where
  "library_selected db a library action \<longleftrightarrow>
     (\<exists>g \<in> set (a_library_grants db). lg_credential_id g = cr_id (ac_credential a)
        \<and> lg_caller_id g = ca_id (ac_caller a) \<and> lg_home_library_id g = ca_library_id (ac_caller a)
        \<and> lg_target_library_id g = library
        \<and> lg_action g = (if action = ArchiveWrite then LibraryWrite else LibraryRead))"

lemma authorized_rows:
  assumes a: "authenticate sha co now token db = Inr (db', a)" and at: "0 \<le> active_at"
  shows "authorize_content sha co now active_at token library section action db = Inr (db', a) \<longleftrightarrow>
    ca_kind (ac_caller a) = Agent
    \<and> (\<exists>c \<in> set (a_credentials db'). credential_key c
          = (cr_id (ac_credential a), ca_id (ac_caller a), ca_library_id (ac_caller a))
         \<and> credential_active c active_at \<and> active_agent_caller db' c)
    \<and> (case find (policy_row a) (a_policies db') of
         None \<Rightarrow> ca_library_id (ac_caller a) = library
           \<and> get_grant db' library (ca_id (ac_caller a)) section action \<noteq> None
       | Some p \<Rightarrow> library \<in> set (a_libraries db')
           \<and> library_scope_allows (if action = ArchiveWrite then lp_write_mode p else lp_read_mode p)
               (library_selected db' a library action))"
  unfolding policy_row_def [abs_def] library_selected_def credential_key_def using at by (cases action)
    (auto simp: authorize_content_def a resolve_library_policy_def list_ex_iff Bex_def
      split: option.splits)

lemma grant_row:
  "get_grant db library i section action \<noteq> None \<longleftrightarrow>
     \<lparr>sg_library_id = library, sg_caller_id = i, sg_section_id = section, sg_action = action\<rparr> \<in> set (a_section_grants db)"
  (is "_ \<longleftrightarrow> ?g \<in> _")
proof
  assume "get_grant db library i section action \<noteq> None"
  then obtain g where "g \<in> set (a_section_grants db)" "sg_library_id g = library" "sg_caller_id g = i"
    "sg_section_id g = section" "sg_action g = action" by (auto simp: get_grant_def find_None_iff)
  moreover from this have "g = ?g" by simp
  ultimately show "?g \<in> set (a_section_grants db)" by simp
next
  assume "?g \<in> set (a_section_grants db)"
  then show "get_grant db library i section action \<noteq> None"
    unfolding get_grant_def find_None_iff not_not by (intro exI [of _ ?g]) simp
qed

lemma live_rows:
  "(\<exists>c \<in> set (a_credentials db). credential_key c = (i, caller_id, home) \<and> credential_active c at
      \<and> active_agent_caller db c) \<longleftrightarrow>
   (\<exists>c \<in> set (a_credentials db). credential_key c = (i, caller_id, home)
      \<and> cr_created_at c \<le> at \<and> (\<forall>e. cr_expires_at c = Some e \<longrightarrow> at < e)
      \<and> cr_revoked_at c = None \<and> cr_rotated_at c = None)
   \<and> (\<exists>r \<in> set (a_callers db). ca_id r = caller_id \<and> ca_library_id r = home \<and> ca_kind r = Agent
      \<and> ca_disabled_at r = None)"
proof -
  have "credential_active c at \<longleftrightarrow> cr_created_at c \<le> at \<and> (\<forall>e. cr_expires_at c = Some e \<longrightarrow> at < e)
      \<and> cr_revoked_at c = None \<and> cr_rotated_at c = None" for c
    by (auto simp: credential_active_def split: option.splits)
  moreover have "active_agent_caller db c \<longleftrightarrow> (\<exists>r \<in> set (a_callers db). ca_id r = caller_id \<and> ca_library_id r = home
      \<and> ca_kind r = Agent \<and> ca_disabled_at r = None)" if "credential_key c = (i, caller_id, home)" for c
    using that by (auto simp: active_agent_caller_def list_ex_iff credential_key_def)
  ultimately show ?thesis by blast
qed

lemma scope_modes:
  "library_scope_allows mode selected \<longleftrightarrow> mode = lit ''include'' \<and> selected \<or> mode = lit ''exclude'' \<and> \<not> selected"
proof -
  have "lit ''include'' \<noteq> lit ''exclude''" by code_simp
  then show ?thesis by (auto simp: library_scope_allows_def)
qed

lemma granted_policy_found:
  assumes "distinct (map lp_credential_id (a_policies db))"
  shows "granted_policy db a p \<longleftrightarrow> find (policy_row a) (a_policies db) = Some p"
proof
  assume g: "granted_policy db a p"
  then have "find (policy_row a) (a_policies db) \<noteq> None" by (auto simp: granted_policy_def find_None_iff)
  then obtain q where q: "find (policy_row a) (a_policies db) = Some q" by blast
  then have "q \<in> set (a_policies db)" "policy_row a q" by (auto simp: find_Some_iff)
  then have "q = p" using g assms by (auto simp: granted_policy_def policy_row_def distinct_map inj_on_def)
  then show "find (policy_row a) (a_policies db) = Some p" using q by simp
qed (auto simp: granted_policy_def find_Some_iff)

text \<open>C36: an authenticated request is authorized exactly when its caller is an Agent, the row of its
  credential is live at the second clock reading and belongs to an enabled Agent, and either no Library
  policy row is kept for the credential and there is a grant row with this Library, caller, Section and
  action in the caller's own Library, or the policy row includes the target Library by a grant row for
  reading or writing, or excludes it by the absence of one. There is one policy row per credential.\<close>

theorem authorize_content_iff:
  assumes "authenticate sha co now token db = Inr (db', a)" and "0 \<le> active_at"
    and "distinct (map lp_credential_id (a_policies db'))"
  shows "authorize_content sha co now active_at token library section action db = Inr (db', a) \<longleftrightarrow>
    ca_kind (ac_caller a) = Agent
    \<and> (\<exists>c \<in> set (a_credentials db'). credential_key c
          = (cr_id (ac_credential a), ca_id (ac_caller a), ca_library_id (ac_caller a))
         \<and> cr_created_at c \<le> active_at \<and> (\<forall>e. cr_expires_at c = Some e \<longrightarrow> active_at < e)
         \<and> cr_revoked_at c = None \<and> cr_rotated_at c = None)
    \<and> (\<exists>r \<in> set (a_callers db'). ca_id r = ca_id (ac_caller a) \<and> ca_library_id r = ca_library_id (ac_caller a)
         \<and> ca_kind r = Agent \<and> ca_disabled_at r = None)
    \<and> (if \<exists>p. granted_policy db' a p
       then library \<in> set (a_libraries db')
         \<and> (\<exists>p. granted_policy db' a p
              \<and> (let mode = (if action = ArchiveWrite then lp_write_mode p else lp_read_mode p)
                 in mode = lit ''include'' \<and> library_selected db' a library action
                    \<or> mode = lit ''exclude'' \<and> \<not> library_selected db' a library action))
       else ca_library_id (ac_caller a) = library
         \<and> \<lparr>sg_library_id = library, sg_caller_id = ca_id (ac_caller a), sg_section_id = section,
             sg_action = action\<rparr> \<in> set (a_section_grants db'))"
  by (simp only: authorized_rows [OF assms(1,2)] granted_policy_found [OF assms(3)] grant_row live_rows scope_modes Let_def)
    (cases "find (policy_row a) (a_policies db')", simp_all)

section \<open>A concrete store\<close>

definition auth_id :: "nat \<Rightarrow> pystr" where
  "auth_id d = replicate 32 (48 + d)"

definition sample_agent :: caller where
  "sample_agent = \<lparr>ca_id = auth_id 2, ca_library_id = auth_id 1, ca_kind = Agent,
     ca_name = lit ''Alice'', ca_description = [], ca_policy_version = 1, ca_created_at = 5,
     ca_updated_at = 5, ca_disabled_at = None\<rparr>"

definition auth_db0 :: auth_db where
  "auth_db0 = empty_auth\<lparr>a_libraries := [auth_id 1], a_sections := [(auth_id 1, auth_id 3)]\<rparr>"

definition auth_db1 :: auth_db where
  "auth_db1 = auth_db0\<lparr>a_callers := [sample_agent]\<rparr>"

definition sample_sha :: "bytes \<Rightarrow> bytes" where
  "sample_sha b = replicate 32 7"

definition sample_token :: pystr where
  "sample_token = token_text (replicate 16 1) (replicate 32 2)"

definition sample_credential :: credential where
  "sample_credential = \<lparr>cr_id = auth_id 4, cr_library_id = auth_id 1, cr_caller_id = auth_id 2,
     cr_token_version = 1, cr_expires_at = Some 100, cr_created_at = 10, cr_updated_at = 10,
     cr_last_used_at = None, cr_revoked_at = None, cr_rotated_at = None, cr_rotated_to = None,
     cr_selector = encode_component (replicate 16 1), cr_verifier = replicate 32 7\<rparr>"

definition auth_db2 :: auth_db where
  "auth_db2 = auth_db1\<lparr>a_credentials := [sample_credential],
     a_token_values := [\<lparr>tv_credential_id = auth_id 4, tv_value = sample_token\<rparr>]\<rparr>"

lemma sample_simps:
  "length (sample_sha b) = 32" "opaque_hex (auth_id 1)" "opaque_hex (auth_id 2)" "opaque_hex (auth_id 4)"
  "auth_id 4 \<noteq> auth_id 2"
  by (simp_all add: sample_sha_def auth_id_def opaque_hex_def is_lower_hex_def is_digit_def list_all_iff)

lemma sample_steps1: "auth_steps sample_sha empty_auth auth_db1"
proof -
  have "auth_step sample_sha empty_auth auth_db0"
    by (rule auth_step.other_tables) (simp add: auth_db0_def empty_auth_def)
  moreover have "add_caller sample_agent auth_db0 = Inr auth_db1" by code_simp
  then have "auth_step sample_sha auth_db0 auth_db1" by (rule auth_step.add_caller)
  ultimately show ?thesis unfolding auth_steps_def by (meson rtranclp.rtrancl_into_rtrancl rtranclp.rtrancl_refl)
qed

lemma sample_issue:
  "issue_credential sample_sha (replicate 16 1) (replicate 32 2) (auth_id 4) 10 sample_agent (Some 100) auth_db1
    = Inr (auth_db2, sample_token, credential_metadata sample_credential)"
  by code_simp

lemma sample_steps2: "auth_steps sample_sha empty_auth auth_db2"
proof -
  have "add_agent_credential_with_value sample_sha sample_credential sample_token auth_db1 = Inr auth_db2"
    by code_simp
  then have "auth_step sample_sha auth_db1 auth_db2" by (rule auth_step.add_agent)
  then show ?thesis using sample_steps1 unfolding auth_steps_def by (rule rtranclp.rtrancl_into_rtrancl [rotated])
qed

theorem issued_credential_authenticates_witness:
  "authenticate sample_sha 300 99 sample_token auth_db1 = Inl AuthenticationFailed
   \<and> (\<exists>db'' a. authenticate sample_sha 300 99 sample_token auth_db2 = Inr (db'', a)
        \<and> ac_caller a = sample_agent \<and> cr_id (ac_credential a) = auth_id 4)"
  by (rule issued_credential_authenticates [OF sample_steps1 _ _ sample_issue])
    (simp_all add: sample_simps auth_db1_def)

theorem stored_value_authenticates_witness:
  "\<exists>db' a. authenticate sample_sha 300 50 sample_token auth_db2 = Inr (db', a)
     \<and> cr_id (ac_credential a) = auth_id 4"
proof -
  let ?t = "\<lparr>tv_credential_id = auth_id 4, tv_value = sample_token\<rparr>"
  have t: "?t \<in> set (a_token_values auth_db2)" by (simp add: auth_db2_def)
  obtain c where c: "c \<in> set (a_credentials auth_db2)" and
    n: "\<forall>now co. cr_created_at c \<le> now \<and> (case cr_expires_at c of None \<Rightarrow> True | Some e \<Rightarrow> now < e)
        \<longrightarrow> (\<exists>db' a. authenticate sample_sha co now (tv_value ?t) auth_db2 = Inr (db', a)
              \<and> cr_id (ac_credential a) = cr_id c \<and> ca_id (ac_caller a) = cr_caller_id c
              \<and> ca_kind (ac_caller a) = Agent)"
    using stored_value_authenticates [OF sample_steps2 t] by blast
  have "c = sample_credential" using c by (simp add: auth_db2_def)
  then show ?thesis using spec [OF spec [OF n], of 50 300] by (auto simp: sample_credential_def)
qed

definition auth_db3 :: auth_db where
  "auth_db3 = auth_db1\<lparr>a_credentials :=
     [sample_credential\<lparr>cr_revoked_at := Some 20, cr_updated_at := 20\<rparr>]\<rparr>"

lemma sample_steps3: "auth_steps sample_sha empty_auth auth_db3"
proof -
  have "revoke_credential sample_credential 20 auth_db2
    = Inr (auth_db3, Some (sample_credential\<lparr>cr_revoked_at := Some 20, cr_updated_at := 20\<rparr>))" by code_simp
  then have "auth_step sample_sha auth_db2 auth_db3" by (rule auth_step.revoke)
  then show ?thesis using sample_steps2 unfolding auth_steps_def by (rule rtranclp.rtrancl_into_rtrancl [rotated])
qed

theorem retired_credential_never_authenticates_witness:
  "authenticate sample_sha 300 50 sample_token auth_db3 = Inl AuthenticationFailed"
proof -
  have p: "parse_token sample_sha sample_token = Inr \<lparr>pt_version = TOKEN_VERSION,
      pt_selector = encode_component (replicate 16 1),
      pt_verifier = derive_verifier sample_sha (replicate 16 1) (replicate 32 2)\<rparr>"
    unfolding sample_token_def by (rule parse_token_text) simp_all
  have r: "auth_steps sample_sha auth_db3 auth_db3" by (simp add: auth_steps_def)
  show ?thesis
    by (rule retired_credential_never_authenticates [OF sample_steps3 _ _ r p,
          where c = "sample_credential\<lparr>cr_revoked_at := Some 20, cr_updated_at := 20\<rparr>"])
      (simp_all add: auth_db3_def sample_credential_def)
qed

definition auth_db4 :: auth_db where
  "auth_db4 = auth_db2\<lparr>a_section_grants := [\<lparr>sg_library_id = auth_id 1, sg_caller_id = auth_id 2,
     sg_section_id = auth_id 3, sg_action = ArchiveWrite\<rparr>]\<rparr>"

theorem authorize_content_iff_witness:
  "\<exists>a. authorize_content sample_sha 300 50 51 sample_token (auth_id 1) (auth_id 3) ArchiveWrite auth_db4
        = Inr (auth_db4, a)
     \<and> authorize_content sample_sha 300 50 51 sample_token (auth_id 1) (auth_id 3) PageRead auth_db4
        \<noteq> Inr (auth_db4, a)"
proof -
  have a: "authenticate sample_sha 300 50 sample_token auth_db4 = Inr (auth_db4,
      \<lparr>ac_caller = sample_agent, ac_credential = credential_metadata sample_credential\<rparr>)" by code_simp
  have d: "distinct (map lp_credential_id (a_policies auth_db4))" by code_simp
  let ?a = "\<lparr>ac_caller = sample_agent, ac_credential = credential_metadata sample_credential\<rparr>"
  note i = authorize_content_iff [OF a _ d, of 51 "auth_id 1" "auth_id 3"]
  have p: "a_policies auth_db4 = []" by code_simp
  have g: "a_section_grants auth_db4 = [\<lparr>sg_library_id = auth_id 1, sg_caller_id = auth_id 2,
     sg_section_id = auth_id 3, sg_action = ArchiveWrite\<rparr>]" "a_callers auth_db4 = [sample_agent]"
    "a_credentials auth_db4 = [sample_credential]" by (simp_all add: auth_db4_def auth_db2_def auth_db1_def)
  show ?thesis
    using i p g by (intro exI [of _ ?a]) (simp add: granted_policy_def credential_key_def credential_metadata_def
        credential_record.truncate_def sample_credential_def sample_agent_def del: One_nat_def)
qed

end
