(* ===== verification/Json.thy ===== *)
theory Json
  imports PatchouliPrelude "HOL-Library.List_Lexorder"
begin

text \<open>
  The part of the \<open>json\<close> module the program relies on: \<open>json.dumps\<close> with compact separators,
  \<open>ensure_ascii=False\<close> and \<open>sort_keys=True\<close>, and the grammar \<open>json.loads\<close> accepts. Texts are
  lists of code points. The recursion limit of the interpreter is not modelled.
\<close>

datatype json =
    JNull
  | JBool bool
  | JInt int
  | JReal pystr
  | JStr pystr
  | JArr "json list"
  | JObj "(pystr \<times> json) list"

section \<open>Writing\<close>

definition json_hex :: "nat \<Rightarrow> nat" where
  "json_hex d = (if d < 10 then 48 + d else 87 + d)"

definition json_escaped :: "nat \<Rightarrow> pystr" where
  "json_escaped c =
     (if c = 34 then [92, 34] else if c = 92 then [92, 92]
      else if c = 10 then [92, 110] else if c = 13 then [92, 114] else if c = 9 then [92, 116]
      else if c = 12 then [92, 102] else if c = 8 then [92, 98]
      else if c < 32 then [92, 117, 48, 48, json_hex (c div 16), json_hex (c mod 16)]
      else [c])"

definition json_quoted :: "pystr \<Rightarrow> pystr" where
  "json_quoted s = 34 # concat (map json_escaped s) @ [34]"

definition int_text :: "int \<Rightarrow> pystr" where
  "int_text n = (if n < 0 then 45 # dec_str (nat (- n)) else dec_str (nat n))"

fun json_commas :: "pystr list \<Rightarrow> pystr" where
  "json_commas [] = []"
| "json_commas [t] = t"
| "json_commas (t # ts) = t @ 44 # json_commas ts"

fun json_text :: "json \<Rightarrow> pystr" where
  "json_text JNull = lit ''null''"
| "json_text (JBool b) = (if b then lit ''true'' else lit ''false'')"
| "json_text (JInt n) = int_text n"
| "json_text (JReal t) = t"
| "json_text (JStr s) = json_quoted s"
| "json_text (JArr vs) = 91 # json_commas (map json_text vs) @ [93]"
| "json_text (JObj ms) =
     123 # json_commas (map (\<lambda>(k, v). json_quoted k @ 58 # json_text v) ms) @ [125]"

text \<open>\<open>sort_keys\<close> orders the members of every object by their keys, code point by code point.\<close>

fun json_sorted :: "json \<Rightarrow> json" where
  "json_sorted (JArr vs) = JArr (map json_sorted vs)"
| "json_sorted (JObj ms) = JObj (sort_key fst (map (\<lambda>(k, v). (k, json_sorted v)) ms))"
| "json_sorted v = v"

definition json_dumps :: "json \<Rightarrow> pystr" where
  "json_dumps v = json_text (json_sorted v)"

section \<open>Reading\<close>

definition json_skip :: "pystr \<Rightarrow> pystr" where
  "json_skip s = dropWhile (\<lambda>c. c = 32 \<or> c = 9 \<or> c = 10 \<or> c = 13) s"

definition hex_value :: "nat \<Rightarrow> nat option" where
  "hex_value c =
     (if is_digit c then Some (c - 48) else if 97 \<le> c \<and> c \<le> 102 then Some (c - 87)
      else if 65 \<le> c \<and> c \<le> 70 then Some (c - 55) else None)"

fun json_u4 :: "pystr \<Rightarrow> (nat \<times> pystr) option" where
  "json_u4 (a # b # c # d # r) =
     (case (hex_value a, hex_value b, hex_value c, hex_value d) of
        (Some i, Some j, Some k, Some l) \<Rightarrow> Some (((i * 16 + j) * 16 + k) * 16 + l, r)
      | _ \<Rightarrow> None)"
| "json_u4 _ = None"

text \<open>A high surrogate escape joins with a low one that follows it, and otherwise stands alone.\<close>

definition json_unicode :: "pystr \<Rightarrow> (nat \<times> pystr) option" where
  "json_unicode s =
     (case json_u4 s of
        None \<Rightarrow> None
      | Some (hi, r) \<Rightarrow>
          if 0xD800 \<le> hi \<and> hi \<le> 0xDBFF \<and> take 2 r = [92, 117] then
            (case json_u4 (drop 2 r) of
               None \<Rightarrow> None
             | Some (lo, r') \<Rightarrow>
                 if 0xDC00 \<le> lo \<and> lo \<le> 0xDFFF
                 then Some (0x10000 + (hi - 0xD800) * 0x400 + (lo - 0xDC00), r')
                 else Some (hi, r))
          else Some (hi, r))"

definition json_escape :: "pystr \<Rightarrow> (nat \<times> pystr) option" where
  "json_escape s =
     (case s of
        [] \<Rightarrow> None
      | c # r \<Rightarrow>
          if c = 117 then json_unicode r
          else if c = 34 \<or> c = 92 \<or> c = 47 then Some (c, r)
          else if c = 98 then Some (8, r) else if c = 102 then Some (12, r)
          else if c = 110 then Some (10, r) else if c = 114 then Some (13, r)
          else if c = 116 then Some (9, r) else None)"

lemma json_u4_shorter: "json_u4 s = Some (c, r) \<Longrightarrow> length r < length s"
  by (induction s rule: json_u4.induct) (auto split: option.splits)

lemma json_escape_shorter: "json_escape s = Some (c, r) \<Longrightarrow> length r < length s"
  by (auto simp: json_escape_def json_unicode_def dest!: json_u4_shorter
      split: list.splits option.splits if_splits)

function json_string :: "pystr \<Rightarrow> (pystr \<times> pystr) option" where
  "json_string [] = None"
| "json_string (c # r) =
     (if c = 34 then Some ([], r)
      else if c = 92 then
        (case json_escape r of
           None \<Rightarrow> None
         | Some (x, r') \<Rightarrow> map_option (\<lambda>(s, t). (x # s, t)) (json_string r'))
      else if c < 32 then None
      else map_option (\<lambda>(s, t). (c # s, t)) (json_string r))"
  by pat_completeness auto
termination
  by (relation "measure length") (auto dest: json_escape_shorter)

definition json_digits :: "pystr \<Rightarrow> pystr \<times> pystr" where
  "json_digits s = (takeWhile is_digit s, dropWhile is_digit s)"

text \<open>The optional fraction and the optional exponent; each is taken only as a whole.\<close>

definition json_fraction :: "pystr \<Rightarrow> pystr \<times> pystr" where
  "json_fraction s =
     (case s of
        c # r \<Rightarrow> if c = 46 \<and> fst (json_digits r) \<noteq> []
          then (46 # fst (json_digits r), snd (json_digits r)) else ([], s)
      | [] \<Rightarrow> ([], []))"

definition json_exponent :: "pystr \<Rightarrow> pystr \<times> pystr" where
  "json_exponent s =
     (case s of
        e # r \<Rightarrow>
          if e = 101 \<or> e = 69 then
            let sign = (case r of x # _ \<Rightarrow> if x = 43 \<or> x = 45 then [x] else [] | [] \<Rightarrow> []);
                ds = json_digits (drop (length sign) r)
            in if fst ds \<noteq> [] then (e # sign @ fst ds, snd ds) else ([], s)
          else ([], s)
      | [] \<Rightarrow> ([], []))"

definition MAX_STR_DIGITS :: int where "MAX_STR_DIGITS = 4300"

definition json_number :: "pystr \<Rightarrow> (json \<times> pystr) option" where
  "json_number s =
     (let neg = (take 1 s = [45]);
          u = (if neg then drop 1 s else s);
          ip = (if take 1 u = [48] then ([48], drop 1 u) else json_digits u);
          fr = json_fraction (snd ip);
          ex = json_exponent (snd fr)
      in if fst ip = [] then None
         else if fst fr = [] \<and> fst ex = [] then
           (if int (length (fst ip)) > MAX_STR_DIGITS then None
            else Some (JInt (if neg then - int (parse_dec (fst ip)) else int (parse_dec (fst ip))), snd ip))
         else Some (JReal ((if neg then [45] else []) @ fst ip @ fst fr @ fst ex), snd ex))"

definition json_literal :: "pystr \<Rightarrow> (json \<times> pystr) option" where
  "json_literal s =
     (if take 4 s = lit ''null'' then Some (JNull, drop 4 s)
      else if take 4 s = lit ''true'' then Some (JBool True, drop 4 s)
      else if take 5 s = lit ''false'' then Some (JBool False, drop 5 s)
      else json_number s)"

fun json_value :: "nat \<Rightarrow> pystr \<Rightarrow> (json \<times> pystr) option"
  and json_elements :: "nat \<Rightarrow> pystr \<Rightarrow> (json list \<times> pystr) option"
  and json_members :: "nat \<Rightarrow> pystr \<Rightarrow> ((pystr \<times> json) list \<times> pystr) option" where
  "json_value 0 s = None"
| "json_value (Suc n) s =
     (case s of
        [] \<Rightarrow> None
      | c # r \<Rightarrow>
          if c = 34 then map_option (\<lambda>(t, r'). (JStr t, r')) (json_string r)
          else if c = 123 then
            (if take 1 (json_skip r) = [125] then Some (JObj [], drop 1 (json_skip r))
             else map_option (\<lambda>(ms, r'). (JObj ms, r')) (json_members n (json_skip r)))
          else if c = 91 then
            (if take 1 (json_skip r) = [93] then Some (JArr [], drop 1 (json_skip r))
             else map_option (\<lambda>(vs, r'). (JArr vs, r')) (json_elements n (json_skip r)))
          else json_literal s)"
| "json_elements 0 s = None"
| "json_elements (Suc n) s =
     (case json_value n s of
        None \<Rightarrow> None
      | Some (v, r) \<Rightarrow>
          (case json_skip r of
             [] \<Rightarrow> None
           | c # r' \<Rightarrow>
               if c = 93 then Some ([v], r')
               else if c = 44 then map_option (\<lambda>(vs, t). (v # vs, t)) (json_elements n (json_skip r'))
               else None))"
| "json_members 0 s = None"
| "json_members (Suc n) s =
     (case s of
        [] \<Rightarrow> None
      | q # r \<Rightarrow>
          if q \<noteq> 34 then None
          else case json_string r of
            None \<Rightarrow> None
          | Some (k, r1) \<Rightarrow>
              (case json_skip r1 of
                 [] \<Rightarrow> None
               | c # r2 \<Rightarrow>
                   if c \<noteq> 58 then None
                   else case json_value n (json_skip r2) of
                     None \<Rightarrow> None
                   | Some (v, r3) \<Rightarrow>
                       (case json_skip r3 of
                          [] \<Rightarrow> None
                        | d # r4 \<Rightarrow>
                            if d = 125 then Some ([(k, v)], r4)
                            else if d = 44
                            then map_option (\<lambda>(ms, t). ((k, v) # ms, t)) (json_members n (json_skip r4))
                            else None)))"

text \<open>Every recursive call of the reader follows at least one character it consumed, except for the
  one that reads an element, so twice the length is enough fuel.\<close>

definition json_loads :: "pystr \<Rightarrow> json option" where
  "json_loads s =
     (case json_value (2 * length s + 2) (json_skip s) of
        None \<Rightarrow> None
      | Some (v, r) \<Rightarrow> if json_skip r = [] then Some v else None)"

section \<open>What is written is read back\<close>

fun json_plain :: "json \<Rightarrow> bool" where
  "json_plain (JInt n) = (int (length (dec_str (nat \<bar>n\<bar>))) \<le> MAX_STR_DIGITS)"
| "json_plain (JReal t) = False"
| "json_plain (JArr vs) = list_all json_plain vs"
| "json_plain (JObj ms) = list_all (\<lambda>(k, v). json_plain v) ms"
| "json_plain v = True"

lemma json_skip_id: "s = [] \<or> hd s \<notin> {32, 9, 10, 13} \<Longrightarrow> json_skip s = s"
  by (cases s) (auto simp: json_skip_def)

lemma hex_value_json_hex: "d < 16 \<Longrightarrow> hex_value (json_hex d) = Some d"
  by (auto simp: hex_value_def json_hex_def is_digit_def)

lemma json_string_escaped:
  "json_string (json_escaped c @ t) = map_option (\<lambda>(s, r). (c # s, r)) (json_string t)"
proof (cases "c < 32 \<and> c \<notin> {10, 13, 9, 12, 8}")
  case True
  have h: "hex_value (json_hex (c div 16)) = Some (c div 16)" "hex_value (json_hex (c mod 16)) = Some (c mod 16)"
    using True by (intro hex_value_json_hex; simp)+
  have z: "hex_value 48 = Some 0" by (simp add: hex_value_def is_digit_def)
  have sum: "c div 16 * 16 + c mod 16 = c" by simp
  have "json_unicode (48 # 48 # json_hex (c div 16) # json_hex (c mod 16) # t) = Some (c, t)"
    using True h z sum by (simp add: json_unicode_def)
  then have "json_escape (117 # 48 # 48 # json_hex (c div 16) # json_hex (c mod 16) # t) = Some (c, t)"
    by (simp add: json_escape_def)
  moreover have "json_escaped c = [92, 117, 48, 48, json_hex (c div 16), json_hex (c mod 16)]"
    using True by (auto simp: json_escaped_def)
  ultimately show ?thesis by simp
next
  case False
  then show ?thesis by (auto simp: json_escaped_def json_escape_def)
qed

lemma json_string_quoted: "json_string (concat (map json_escaped s) @ 34 # r) = Some (s, r)"
  by (induction s) (simp_all add: json_string_escaped)

definition json_ends :: "pystr \<Rightarrow> bool" where
  "json_ends r \<longleftrightarrow> r = [] \<or> hd r \<in> {44, 93, 125}"

lemma digits_then:
  "list_all is_digit d \<Longrightarrow> json_ends r \<Longrightarrow> takeWhile is_digit (d @ r) = d \<and> dropWhile is_digit (d @ r) = r"
proof (induction d)
  case Nil
  then show ?case by (cases r) (auto simp: json_ends_def is_digit_def)
qed simp

lemma json_tails: "json_ends r \<Longrightarrow> json_fraction r = ([], r) \<and> json_exponent r = ([], r)"
  by (cases r) (auto simp: json_ends_def json_fraction_def json_exponent_def)

lemma dec_str_zero: "dec_str 0 = [48]"
  by (simp add: dec_str.simps)

lemma json_number_unsigned:
  assumes e: "json_ends r" and l: "int (length (dec_str n)) \<le> MAX_STR_DIGITS"
  shows "(if take 1 (dec_str n @ r) = [48] then ([48], drop 1 (dec_str n @ r)) else json_digits (dec_str n @ r))
    = (dec_str n, r)"
proof (cases "n = 0")
  case False
  then have "hd (dec_str n) \<noteq> 48" using dec_str_hd by simp
  then have "take 1 (dec_str n @ r) \<noteq> [48]" by (cases "dec_str n") auto
  then show ?thesis using digits_then [OF dec_str_digits e] by (simp add: json_digits_def)
qed (simp add: dec_str_zero)

lemma json_number_int:
  assumes e: "json_ends r" and l: "int (length (dec_str (nat \<bar>n\<bar>))) \<le> MAX_STR_DIGITS"
  shows "json_number (int_text n @ r) = Some (JInt n, r)"
proof -
  let ?d = "dec_str (nat \<bar>n\<bar>)"
  obtain c d where c: "?d = c # d" by (cases ?d) auto
  have "is_digit c" using dec_str_digits [of "nat \<bar>n\<bar>"] by (simp add: c)
  then have c45: "c \<noteq> 45" by (auto simp: is_digit_def)
  have neg: "(take 1 (int_text n @ r) = [45]) = (n < 0)"
    using c c45 by (auto simp: int_text_def)
  have u: "(if n < 0 then drop 1 (int_text n @ r) else int_text n @ r) = ?d @ r"
    by (simp add: int_text_def)
  have v: "(if n < 0 then - int (parse_dec ?d) else int (parse_dec ?d)) = n" by simp
  note t = json_tails [OF e, THEN conjunct1] json_tails [OF e, THEN conjunct2]
  show ?thesis
    unfolding json_number_def Let_def neg u json_number_unsigned [OF e l] fst_conv snd_conv t v
    using l by simp
qed

lemma json_literal_int:
  assumes "json_ends r" "int (length (dec_str (nat \<bar>n\<bar>))) \<le> MAX_STR_DIGITS"
  shows "json_literal (int_text n @ r) = Some (JInt n, r)"
proof -
  obtain c d where c: "int_text n = c # d" "c = 45 \<or> is_digit c"
  proof (cases "n < 0")
    case False
    obtain c d where c: "dec_str (nat n) = c # d" by (cases "dec_str (nat n)") auto
    have "is_digit c" using dec_str_digits [of "nat n"] by (simp add: c)
    then show thesis using that [of c d] False c by (simp add: int_text_def)
  qed (simp add: int_text_def that)
  have "json_literal (int_text n @ r) = json_number (int_text n @ r)"
    using c(2) unfolding json_literal_def c(1) by (auto simp: lit_def is_digit_def)
  then show ?thesis using json_number_int [OF assms] by simp
qed

lemma json_text_start:
  assumes "json_plain v"
  obtains c t where "json_text v = c # t" "c \<notin> {32, 9, 10, 13, 93, 125}"
proof (cases v)
  case (JInt n)
  have "\<exists>c t. int_text n = c # t \<and> c \<notin> {32, 9, 10, 13, 93, 125}"
  proof (cases "n < 0")
    case False
    obtain c d where c: "dec_str (nat n) = c # d" by (cases "dec_str (nat n)") auto
    have "is_digit c" using dec_str_digits [of "nat n"] by (simp add: c)
    then show ?thesis using False c by (auto simp: int_text_def is_digit_def)
  qed (simp add: int_text_def)
  then show thesis using that JInt by auto
next
  case (JBool b)
  then show thesis using that by (cases b) (auto simp: lit_def)
qed (use assms that in \<open>auto simp: lit_def json_quoted_def split: if_splits\<close>)

lemma json_commas_Cons: "ts \<noteq> [] \<Longrightarrow> json_commas (t # ts) = t @ 44 # json_commas ts"
  by (cases ts) auto

lemma json_quoted_string: "json_quoted s @ r = 34 # (concat (map json_escaped s) @ 34 # r)"
  by (simp add: json_quoted_def)

definition value_read :: "json \<Rightarrow> bool" where
  "value_read v \<longleftrightarrow> (\<forall>n r. 2 * length (json_text v) \<le> n \<and> json_ends r
     \<longrightarrow> json_value n (json_text v @ r) = Some (v, r))"

lemma value_readD:
  "value_read v \<Longrightarrow> 2 * length (json_text v) \<le> n \<Longrightarrow> json_ends r
    \<Longrightarrow> json_value n (json_text v @ r) = Some (v, r)"
  by (simp add: value_read_def)

lemma json_skip_text: "json_plain v \<Longrightarrow> json_skip (json_text v @ r) = json_text v @ r"
  by (rule json_text_start) (auto intro: json_skip_id)

lemma json_commas_text:
  assumes "json_plain v"
  obtains c t where "json_commas (json_text v # ts) = c # t" "c \<notin> {32, 9, 10, 13, 93, 125}"
proof -
  obtain c t where c: "json_text v = c # t" "c \<notin> {32, 9, 10, 13, 93, 125}"
    using json_text_start [OF assms] by blast
  have "\<exists>u. json_commas (json_text v # ts) = c # u" by (cases ts) (simp_all add: c(1))
  then show thesis using that c(2) by blast
qed

lemma elements_read:
  "vs \<noteq> [] \<Longrightarrow> list_all json_plain vs \<Longrightarrow> \<forall>v \<in> set vs. value_read v
    \<Longrightarrow> 2 * length (json_commas (map json_text vs)) + 1 \<le> n
    \<Longrightarrow> json_elements n (json_commas (map json_text vs) @ 93 # r) = Some (vs, r)"
proof (induction vs arbitrary: n)
  case (Cons v vs)
  obtain m where n: "n = Suc m" using Cons.prems(4) by (cases n) auto
  show ?case
  proof (cases "vs = []")
    case True
    have "json_value m (json_text v @ 93 # r) = Some (v, 93 # r)"
      using Cons.prems n True by (intro value_readD) (auto simp: json_ends_def)
    then show ?thesis using True by (simp add: n json_skip_id)
  next
    case False
    let ?rest = "json_commas (map json_text vs) @ 93 # r"
    have ts: "json_commas (map json_text (v # vs)) @ 93 # r = json_text v @ 44 # ?rest"
      using False by (simp add: json_commas_Cons)
    have l: "2 * length (json_text v) + 2 * length (json_commas (map json_text vs)) + 2 \<le> m"
      using Cons.prems(4) False n by (simp add: json_commas_Cons)
    have v: "json_value m (json_text v @ 44 # ?rest) = Some (v, 44 # ?rest)"
      using Cons.prems l by (intro value_readD) (auto simp: json_ends_def)
    obtain w ws where vs: "vs = w # ws" using False by (cases vs) auto
    then obtain c t where "json_commas (map json_text vs) = c # t" "c \<notin> {32, 9, 10, 13, 93, 125}"
      using json_commas_text [of w "map json_text ws"] Cons.prems(2) by auto
    then have sk: "json_skip ?rest = ?rest" by (intro json_skip_id) auto
    have "json_elements m ?rest = Some (vs, r)" using Cons.prems l False by (intro Cons.IH) auto
    then show ?thesis unfolding ts n by (simp add: v sk json_skip_id)
  qed
qed simp

definition member_text :: "pystr \<times> json \<Rightarrow> pystr" where
  "member_text m = (case m of (k, v) \<Rightarrow> json_quoted k @ 58 # json_text v)"

lemma members_read:
  "ms \<noteq> [] \<Longrightarrow> \<forall>m \<in> set ms. json_plain (snd m) \<and> value_read (snd m)
    \<Longrightarrow> 2 * length (json_commas (map member_text ms)) + 1 \<le> n
    \<Longrightarrow> json_members n (json_commas (map member_text ms) @ 125 # r) = Some (ms, r)"
proof (induction ms arbitrary: n)
  case (Cons m ms)
  obtain k v where m: "m = (k, v)" by (cases m)
  obtain f where n: "n = Suc f" using Cons.prems(3) by (cases n) auto
  have pv: "json_plain v" "value_read v" using Cons.prems(2) m by auto
  note str = json_quoted_string json_string_quoted
  show ?case
  proof (cases "ms = []")
    case True
    have "json_value f (json_text v @ 125 # r) = Some (v, 125 # r)"
      using Cons.prems n True pv by (intro value_readD) (auto simp: json_ends_def member_text_def m)
    moreover have "json_skip (58 # x) = 58 # x" "json_skip (125 # x) = 125 # x" for x
      by (simp_all add: json_skip_id)
    ultimately show ?thesis using True by (simp add: n member_text_def m str json_skip_text [OF pv(1)])
  next
    case False
    let ?rest = "json_commas (map member_text ms) @ 125 # r"
    have ts: "json_commas (map member_text (m # ms)) @ 125 # r
        = 34 # (concat (map json_escaped k) @ 34 # 58 # json_text v @ 44 # ?rest)"
      using False by (simp add: json_commas_Cons member_text_def m json_quoted_def)
    have l: "2 * length (json_text v) + 2 * length (json_commas (map member_text ms)) + 2 \<le> f"
    proof -
      have "length (json_text v) \<le> length (member_text m)" by (simp add: member_text_def m)
      then show ?thesis using Cons.prems(3) False n by (simp add: json_commas_Cons)
    qed
    have v: "json_value f (json_text v @ 44 # ?rest) = Some (v, 44 # ?rest)"
      using pv l by (intro value_readD) (auto simp: json_ends_def)
    obtain j w ws where ms: "ms = (j, w) # ws" using False by (cases ms) auto
    have "\<exists>t. json_commas (map member_text ms) = 34 # t"
      by (cases ws) (auto simp: ms member_text_def json_quoted_def)
    then have sk: "json_skip ?rest = ?rest" by (intro json_skip_id) auto
    have "json_members f ?rest = Some (ms, r)" using Cons.prems l False by (intro Cons.IH) auto
    moreover have "json_skip (58 # x) = 58 # x" "json_skip (44 # x) = 44 # x" for x
      by (simp_all add: json_skip_id)
    ultimately show ?thesis
      unfolding ts n by (simp add: v sk json_string_quoted json_skip_text [OF pv(1)] m)
  qed
qed simp

lemma json_text_read: "json_plain v \<Longrightarrow> value_read v"
proof (induction v)
  case (JArr vs)
  have "json_value n (json_text (JArr vs) @ r) = Some (JArr vs, r)"
    if n: "2 * length (json_text (JArr vs)) \<le> n" for n r
  proof -
    obtain f where f: "n = Suc f" using n by (cases n) auto
    show ?thesis
    proof (cases vs)
      case Nil
      then show ?thesis by (simp add: f json_skip_id)
    next
      case (Cons w ws)
      let ?t = "json_commas (map json_text vs)"
      obtain c t where c: "?t = c # t" "c \<notin> {32, 9, 10, 13, 93, 125}"
        using json_commas_text [of w "map json_text ws"] JArr.prems Cons by auto
      have "json_elements f (?t @ 93 # r) = Some (vs, r)"
        using JArr n f Cons by (intro elements_read) (auto simp: list_all_iff)
      moreover have "json_skip (?t @ 93 # r) = ?t @ 93 # r" using c by (intro json_skip_id) auto
      ultimately show ?thesis using c by (simp add: f)
    qed
  qed
  then show ?case by (simp add: value_read_def)
next
  case (JObj ms)
  have mt: "(\<lambda>(k, v). json_quoted k @ 58 # json_text v) = member_text" by (auto simp: member_text_def)
  have "json_value n (json_text (JObj ms) @ r) = Some (JObj ms, r)"
    if n: "2 * length (json_text (JObj ms)) \<le> n" for n r
  proof -
    obtain f where f: "n = Suc f" using n by (cases n) auto
    show ?thesis
    proof (cases ms)
      case Nil
      then show ?thesis by (simp add: f json_skip_id)
    next
      case (Cons w ws)
      let ?t = "json_commas (map member_text ms)"
      have c: "\<exists>t. ?t = 34 # t"
        by (cases ws; cases w) (auto simp: Cons member_text_def json_quoted_def)
      have "value_read (snd m) \<and> json_plain (snd m)" if "m \<in> set ms" for m
      proof (cases m)
        case (Pair k v)
        then have "json_plain v" using that JObj.prems by (auto simp: list_all_iff)
        then show ?thesis using JObj.IH [of "(k, v)" v] that Pair by simp
      qed
      then have "json_members f (?t @ 125 # r) = Some (ms, r)"
        using n f Cons by (intro members_read) (auto simp: mt)
      moreover have "json_skip (?t @ 125 # r) = ?t @ 125 # r" using c by (intro json_skip_id) auto
      ultimately show ?thesis using c by (auto simp: f mt)
    qed
  qed
  then show ?case by (simp add: value_read_def)
next
  case (JInt n)
  have "json_value f (int_text n @ r) = Some (JInt n, r)" if f: "2 * length (int_text n) \<le> f" and r: "json_ends r" for f r
  proof -
    obtain c d where c: "int_text n = c # d" "c \<notin> {34, 123, 91}"
    proof (cases "n < 0")
      case False
      obtain c d where c: "dec_str (nat n) = c # d" by (cases "dec_str (nat n)") auto
      have "is_digit c" using dec_str_digits [of "nat n"] by (simp add: c)
      then show thesis using that [of c d] False c by (auto simp: int_text_def is_digit_def)
    qed (simp add: int_text_def that)
    obtain g where "f = Suc g" using f c by (cases f) auto
    then show ?thesis using json_literal_int [OF r, of n] JInt c by simp
  qed
  then show ?case by (simp add: value_read_def)
next
  case (JStr s)
  have "json_value n (json_text (JStr s) @ r) = Some (JStr s, r)"
    if n: "2 * length (json_text (JStr s)) \<le> n" for n r
    using n by (cases n) (simp_all add: json_quoted_def json_string_quoted)
  then show ?case by (simp add: value_read_def)
next
  case (JBool b)
  have "json_value n (json_text (JBool b) @ r) = Some (JBool b, r)"
    if n: "2 * length (json_text (JBool b)) \<le> n" for n r
    using n by (cases n; cases b) (simp_all add: lit_def json_literal_def)
  then show ?case by (simp add: value_read_def)
next
  case JNull
  have "json_value n (json_text JNull @ r) = Some (JNull, r)"
    if n: "2 * length (json_text JNull) \<le> n" for n r
    using n by (cases n) (simp_all add: lit_def json_literal_def)
  then show ?case by (simp add: value_read_def)
qed simp

lemma json_loads_text: "json_plain v \<Longrightarrow> json_loads (json_text v) = Some v"
  using value_readD [OF json_text_read, of v "2 * length (json_text v) + 2" "[]"] json_skip_text [of v "[]"]
  by (simp add: json_loads_def json_ends_def json_skip_def)

lemma json_sorted_plain: "json_plain v \<Longrightarrow> json_plain (json_sorted v)"
  by (induction v rule: json_sorted.induct) (auto simp: list_all_iff)

lemma json_loads_dumps: "json_plain v \<Longrightarrow> json_loads (json_dumps v) = Some (json_sorted v)"
  by (simp add: json_dumps_def json_loads_text json_sorted_plain)

lemma json_dumps_inj:
  "json_plain v \<Longrightarrow> json_plain w \<Longrightarrow> json_dumps v = json_dumps w \<Longrightarrow> json_sorted v = json_sorted w"
  using json_loads_dumps [of v] json_loads_dumps [of w] by simp

section \<open>The characters written\<close>

text \<open>A written text has no control character, and is ASCII when the strings of the value are.\<close>

fun json_ascii :: "json \<Rightarrow> bool" where
  "json_ascii (JReal t) = False"
| "json_ascii (JStr s) = isascii s"
| "json_ascii (JArr vs) = list_all json_ascii vs"
| "json_ascii (JObj ms) = list_all (\<lambda>(k, v). isascii k \<and> json_ascii v) ms"
| "json_ascii v = True"

lemma json_escaped_chars: "d \<in> set (json_escaped c) \<Longrightarrow> 32 \<le> d \<and> (c < 128 \<longrightarrow> d < 128)"
  by (auto simp: json_escaped_def json_hex_def split: if_splits)

lemma json_quoted_chars: "d \<in> set (json_quoted s) \<Longrightarrow> 32 \<le> d \<and> (isascii s \<longrightarrow> d < 128)"
  by (auto simp: json_quoted_def isascii_def list_all_iff dest: json_escaped_chars)

lemma json_commas_set: "d \<in> set (json_commas ts) \<Longrightarrow> d = 44 \<or> (\<exists>t \<in> set ts. d \<in> set t)"
  by (induction ts rule: json_commas.induct) auto

lemma int_text_chars: "d \<in> set (int_text n) \<Longrightarrow> 32 \<le> d \<and> d < 128"
  using dec_str_digits [of "nat n"] dec_str_digits [of "nat (- n)"]
  by (auto simp: int_text_def list_all_iff is_digit_def split: if_splits)

lemma json_text_chars:
  "json_plain v \<Longrightarrow> d \<in> set (json_text v) \<Longrightarrow> 32 \<le> d \<and> (json_ascii v \<longrightarrow> d < 128)"
proof (induction v rule: json_text.induct)
  case (6 vs)
  then show ?case by (fastforce simp: list_all_iff dest!: json_commas_set)
next
  case (7 ms)
  then show ?case by (fastforce simp: list_all_iff dest!: json_commas_set json_quoted_chars)
qed (auto simp: lit_def json_quoted_chars int_text_chars split: if_splits)

end
