(* ===== verification/ApiPaths.thy ===== *)
theory ApiPaths
  imports Tokens PageTriggers
begin

text \<open>
  The wire contracts of \<open>api/contracts.py\<close>: relative paths of version 1 of the interface and
  RFC 3339 times. A parsed time is the microseconds since the epoch.
\<close>

section \<open>Paths\<close>

definition API_V1_PREFIX :: pystr where "API_V1_PREFIX = lit ''/api/v1''"

definition path_char :: "nat \<Rightarrow> bool" where
  "path_char c \<longleftrightarrow> is_upper c \<or> is_lower c \<or> is_digit c \<or> c \<in> {95, 126, 45}"

definition path_segment :: "pystr \<Rightarrow> bool" where
  "path_segment s \<longleftrightarrow> s \<noteq> [] \<and> path_char (hd s) \<and> list_all (\<lambda>c. path_char c \<or> c = 46) (tl s)"

fun slashed :: "pystr list \<Rightarrow> pystr" where
  "slashed [] = []"
| "slashed [s] = s"
| "slashed (s # ss) = s @ 47 # slashed ss"

definition build_api_v1_path :: "pystr list \<Rightarrow> pystr sql" where
  "build_api_v1_path segments =
     (if segments = [] then Inl BadValue
      else if list_ex (\<lambda>s. s \<in> {[], lit ''.'', lit ''..''} \<or> \<not> path_segment s) segments then Inl BadValue
      else Inr (API_V1_PREFIX @ 47 # slashed segments))"

definition validate_api_v1_path :: "pystr \<Rightarrow> pystr sql" where
  "validate_api_v1_path v =
     (let prefix = API_V1_PREFIX @ [47] in
      if int (length v) > 2048 \<or> take (length prefix) v \<noteq> prefix
         \<or> 37 \<in> set v \<or> 63 \<in> set v \<or> 35 \<in> set v \<or> 92 \<in> set v
         \<or> list_ex (\<lambda>c. c < 33 \<or> c = 127) v
      then Inl BadValue
      else
        bindR (build_api_v1_path (split_on 47 (drop (length prefix) v))) (\<lambda>canonical.
        if canonical \<noteq> v then Inl BadValue else Inr v))"

lemma split_slashed: "ss \<noteq> [] \<Longrightarrow> list_all (\<lambda>s. 47 \<notin> set s) ss \<Longrightarrow> split_on 47 (slashed ss) = ss"
  by (induction ss rule: slashed.induct) (simp_all add: split_on_free split_on_append)

lemma path_segment_chars:
  assumes "path_segment s" "c \<in> set s"
  shows "33 \<le> c \<and> c < 127 \<and> c \<notin> {37, 63, 35, 92, 47}"
proof -
  have "path_char c \<or> c = 46"
    using assms by (cases s) (auto simp: path_segment_def list_all_iff)
  then show ?thesis by (auto simp: path_char_def is_upper_def is_lower_def is_digit_def)
qed

lemma slashed_chars: "c \<in> set (slashed ss) \<Longrightarrow> c = 47 \<or> (\<exists>s \<in> set ss. c \<in> set s)"
  by (induction ss rule: slashed.induct) auto

lemma built_path_valid:
  assumes b: "build_api_v1_path ss = Inr v" and l: "int (length v) \<le> 2048"
  shows "validate_api_v1_path v = Inr v"
proof -
  have ss: "ss \<noteq> []" "\<forall>s \<in> set ss. path_segment s" and v: "v = API_V1_PREFIX @ 47 # slashed ss"
    using b by (auto simp: build_api_v1_path_def list_ex_iff split: if_splits)
  have free: "list_all (\<lambda>s. 47 \<notin> set s) ss" using ss(2) path_segment_chars by (fastforce simp: list_all_iff)
  have c: "33 \<le> c \<and> c < 127 \<and> c \<notin> {37, 63, 35, 92}" if "c \<in> set v" for c
  proof -
    have "c \<in> set API_V1_PREFIX \<or> c = 47 \<or> (\<exists>s \<in> set ss. c \<in> set s)"
      using that slashed_chars unfolding v by fastforce
    then show ?thesis using ss(2) path_segment_chars by (auto simp: API_V1_PREFIX_def lit_def)
  qed
  have d: "drop (length (API_V1_PREFIX @ [47])) v = slashed ss" unfolding v by simp
  have "37 \<notin> set v" "63 \<notin> set v" "35 \<notin> set v" "92 \<notin> set v" "\<not> list_ex (\<lambda>c. c < 33 \<or> c = 127) v"
    using c by (force simp: list_ex_iff)+
  moreover have "take (length (API_V1_PREFIX @ [47])) v = API_V1_PREFIX @ [47]" unfolding v by simp
  ultimately show ?thesis
    using l b unfolding validate_api_v1_path_def Let_def d split_slashed [OF ss(1) free] by simp
qed

section \<open>Times\<close>

definition parse_rfc3339_utc :: "pystr \<Rightarrow> int sql" where
  "parse_rfc3339_utc v =
     (case match_rfc3339 v of
        None \<Rightarrow> Inl BadValue
      | Some (fraction, offset) \<Rightarrow>
          if v ! 10 \<noteq> 84 \<or> offset = lit ''z'' \<or> offset = lit ''-00:00'' then Inl BadValue
          else
            let year = int_of 0 4 v; month = int_of 5 7 v; day = int_of 8 10 v;
                hour = int_of 11 13 v; minute = int_of 14 16 v; second = int_of 17 19 v;
                us = (if fraction = [] then 0
                      else int (parse_dec (fraction @ replicate (6 - length fraction) 48)));
                off = (if offset = lit ''Z'' then 0
                       else (if offset ! 0 = 43 then 1 else - 1)
                         * (int_of 1 3 offset * 3600 + int_of 4 6 offset * 60))
            in if validate_civil_time year month day hour minute second \<noteq> Inr () \<or> \<bar>off\<bar> \<ge> 86400
               then Inl BadValue
               else
                 let u = ((toordinal year month day - EPOCH_ORDINAL) * 86400 + hour * 3600
                            + minute * 60 + second - off) * US_PER_SECOND + us
                 in if utc_in_range u then Inr u else Inl BadValue)"

definition format_rfc3339_utc :: "int \<Rightarrow> pystr" where
  "format_rfc3339_utc u = format_utc_microseconds u"

definition canonical_timestamp :: "pystr \<Rightarrow> bool" where
  "canonical_timestamp v \<longleftrightarrow>
     (case parse_rfc3339_utc v of Inl e \<Rightarrow> False | Inr u \<Rightarrow> format_rfc3339_utc u = v)"

end
