(* ===== verification/PageRepository.thy ===== *)
theory PageRepository
  imports PageTriggers
begin

text \<open>
  \<open>ContentRepository\<close> of \<open>content/repository.py\<close>, the storage schemas it validates with
  (\<open>content/schemas.py\<close>) and the role-neutral page move of \<open>content/page_move_core.py\<close>. Every
  operation runs inside the transaction of its caller.
\<close>

section \<open>Storage schemas\<close>

definition opaque_id :: "pystr \<Rightarrow> bool" where
  "opaque_id s \<longleftrightarrow> length s = 32 \<and> list_all is_lower_hex s"

definition page_storage_valid :: "page \<Rightarrow> bool" where
  "page_storage_valid p \<longleftrightarrow>
     opaque_id (pg_library_id p) \<and> opaque_id (pg_section_id p) \<and> opaque_id (pg_book_id p)
     \<and> validate_page_uid (pg_page_uid p) = Inr (pg_page_uid p)
     \<and> validate_page_id (pg_page_id p) = Inr (pg_page_id p)
     \<and> pg_id_scheme p = PAGE_ID_SCHEME
     \<and> utc_in_range (pg_id_timestamp_micros p) \<and> is_valid_base_slug (pg_base_slug p)
     \<and> 1 \<le> pg_collision_ordinal p \<and> pg_collision_ordinal p \<le> MAX_COLLISION_ORDINAL
     \<and> text_check (pg_title p) \<and> text_check (pg_page_type p) \<and> length (pg_page_type p) \<le> 32
     \<and> is_stripped (pg_page_type p)
     \<and> utc_in_range (pg_occurred_at p)
     \<and> validate_revision_id (pg_current_revision_id p) = Inr (pg_current_revision_id p)
     \<and> validate_revision_number (pg_current_revision_number p) = Inr (pg_current_revision_number p)
     \<and> 0 \<le> pg_created_at p \<and> pg_created_at p \<le> pg_updated_at p
     \<and> (case pg_deleted_at p of None \<Rightarrow> True
        | Some d \<Rightarrow> pg_created_at p \<le> d \<and> d \<le> pg_updated_at p)"

text \<open>\<open>NewPage\<close> recomputes the identifier from the creation title; \<open>PageRecord\<close>, read back
  after title changes, only from its stable components.\<close>

definition new_page_valid :: "(bytes \<Rightarrow> bytes) \<Rightarrow> page \<Rightarrow> bool" where
  "new_page_valid sha p \<longleftrightarrow>
     page_storage_valid p \<and> pg_current_revision_number p = 1
     \<and> pg_id_timestamp_micros p = pg_occurred_at p div 1000 * 1000
     \<and> (case generate_page_id sha
              \<lparr>utc_microseconds = pg_occurred_at p,
               canonical_utc = format_utc_microseconds (pg_occurred_at p)\<rparr>
              (pg_title p) (pg_collision_ordinal p) of
          Inl e \<Rightarrow> False
        | Inr g \<Rightarrow> pg_page_id p = gp_value g \<and> pg_base_slug p = gp_base_slug g)"

definition page_record_valid :: "page \<Rightarrow> bool" where
  "page_record_valid p \<longleftrightarrow>
     page_storage_valid p
     \<and> (case page_id_timestamp_prefix (pg_id_timestamp_micros p) of
          Inl e \<Rightarrow> False
        | Inr prefix \<Rightarrow> pg_page_id p = prefix @ lit ''-'' @ pg_base_slug p
            @ (if pg_collision_ordinal p = 1 then []
               else lit ''-'' @ dec_str (nat (pg_collision_ordinal p))))"

text \<open>\<open>MarkdownContent.from_bytes\<close>: the exact bytes with their size and digest.\<close>

definition markdown_from_bytes :: "(bytes \<Rightarrow> bytes) \<Rightarrow> bytes \<Rightarrow> (bytes \<times> int \<times> bytes) sql" where
  "markdown_from_bytes sha content =
     (if content = [] \<or> int (length content) > MAX_MARKDOWN_BYTES \<or> 0 \<in> set content
         \<or> utf8_decode content = None \<or> length (sha content) \<noteq> 32
      then Inl BadValue
      else Inr (content, int (length content), sha content))"

definition correction_command_valid :: "correction_guard \<Rightarrow> bool" where
  "correction_command_valid c \<longleftrightarrow>
     cg_old_occurred_at c \<noteq> cg_new_occurred_at c
     \<and> actor_kind_check (cg_actor_caller_id c) (cg_actor_home_library_id c) (cg_master_audit_event_id c)
     \<and> utc_in_range (cg_old_occurred_at c) \<and> utc_in_range (cg_new_occurred_at c)
     \<and> 0 \<le> cg_corrected_at c \<and> utc_in_range (cg_corrected_at c)"

definition lifecycle_record_valid :: "lifecycle_event \<Rightarrow> bool" where
  "lifecycle_record_valid e \<longleftrightarrow>
     opaque_id (le_library_id e) \<and> length (le_page_uid e) = 16
     \<and> 1 \<le> le_sequence e \<and> le_sequence e \<le> MAX_I64
     \<and> le_action e \<in> {lit ''delete'', lit ''restore''} \<and> opaque_id (le_section_id e)
     \<and> (case le_old_deleted_at e of None \<Rightarrow> True | Some d \<Rightarrow> 0 \<le> d)
     \<and> 0 \<le> le_old_updated_at e \<and> 0 \<le> le_changed_at e
     \<and> 1 \<le> le_at_revision_number e \<and> le_at_revision_number e \<le> MAX_I64
     \<and> utc_in_range (le_occurred_at_at_event e)
     \<and> list_all (\<lambda>x. case x of None \<Rightarrow> True | Some i \<Rightarrow> opaque_id i)
         [le_actor_caller_id e, le_actor_home_library_id e, le_master_audit_event_id e]
     \<and> request_id_check (le_request_id e)
     \<and> le_old_updated_at e < le_changed_at e
     \<and> (le_action e = lit ''delete'') = (le_old_deleted_at e = None)
     \<and> actor_kind_check (le_actor_caller_id e) (le_actor_home_library_id e) (le_master_audit_event_id e)
     \<and> utc_in_range (le_changed_at e)"

text \<open>The storage schemas of the other rows; a source kind has no space at either end.\<close>

definition utf8_ok :: "pystr \<Rightarrow> bool" where
  "utf8_ok s \<longleftrightarrow> utf8_encode s \<noteq> None"

definition source_kind_valid :: "pystr \<Rightarrow> bool" where
  "source_kind_valid k \<longleftrightarrow> text_check k \<and> length k \<le> 100 \<and> is_stripped k \<and> utf8_ok k"

definition source_locator_valid :: "pystr option \<Rightarrow> bool" where
  "source_locator_valid l \<longleftrightarrow> (case l of None \<Rightarrow> True | Some s \<Rightarrow> text_check s \<and> utf8_ok s)"

definition new_source_valid :: "page_source \<Rightarrow> bool" where
  "new_source_valid s \<longleftrightarrow>
     opaque_id (so_library_id s) \<and> opaque_id (so_source_id s) \<and> length (so_page_uid s) = 16
     \<and> revision_id_pattern (so_revision_id s)
     \<and> 1 \<le> so_revision_number s \<and> so_revision_number s \<le> MAX_REVISION_NUMBER
     \<and> source_kind_valid (so_kind s) \<and> source_locator_valid (so_locator s)
     \<and> (case so_captured_at s of None \<Rightarrow> True | Some t \<Rightarrow> utc_in_range t) \<and> 0 \<le> so_created_at s"

definition new_revision_valid :: "(bytes \<Rightarrow> bytes) \<Rightarrow> revision \<Rightarrow> bool" where
  "new_revision_valid sha r \<longleftrightarrow>
     opaque_id (rv_library_id r) \<and> revision_id_pattern (rv_revision_id r)
     \<and> length (rv_page_uid r) = 16
     \<and> 1 \<le> rv_revision_number r \<and> rv_revision_number r \<le> MAX_REVISION_NUMBER
     \<and> 0 \<le> rv_created_at r
     \<and> (case rv_content_md r of None \<Rightarrow> False | Some b \<Rightarrow>
          markdown_from_bytes sha b = Inr (b, int (length b), sha b)
          \<and> rv_content_size_bytes r = Some (int (length b)) \<and> rv_content_sha256 r = Some (sha b))"

definition new_identifier_valid :: "(bytes \<Rightarrow> bytes) \<Rightarrow> page_identifier \<Rightarrow> bool" where
  "new_identifier_valid sha i \<longleftrightarrow>
     opaque_id (pi_library_id i) \<and> length (pi_identifier_digest i) = 32
     \<and> validate_page_id (pi_identifier_text i) = Inr (pi_identifier_text i)
     \<and> pi_id_scheme i = PAGE_ID_SCHEME
     \<and> pi_identifier_kind i \<in> {lit ''canonical'', lit ''alias''}
     \<and> length (pi_page_uid i) = 16 \<and> 0 \<le> pi_created_at i
     \<and> page_id_registry_digest sha (pi_identifier_text i) = Inr (pi_identifier_digest i)"

definition new_counter_valid :: "collision_counter \<Rightarrow> bool" where
  "new_counter_valid c \<longleftrightarrow>
     opaque_id (cc_library_id c) \<and> cc_id_scheme c = PAGE_ID_SCHEME
     \<and> utc_in_range (cc_id_timestamp_micros c) \<and> is_valid_base_slug (cc_base_slug c)
     \<and> 2 \<le> cc_next_ordinal c \<and> cc_next_ordinal c \<le> MAX_COLLISION_ORDINAL + 1
     \<and> cc_id_timestamp_micros c mod 1000 = 0"

section \<open>Reads\<close>

definition get_book_section :: "content_db \<Rightarrow> pystr \<Rightarrow> pystr \<Rightarrow> book_row option" where
  "get_book_section db library book =
     find (\<lambda>b. bk_library_id b = library \<and> bk_id b = book) (t_books db)"

definition page_uid_exists :: "content_db \<Rightarrow> pystr \<Rightarrow> bytes \<Rightarrow> bool" where
  "page_uid_exists db library uid \<longleftrightarrow>
     list_ex (\<lambda>p. pg_library_id p = library \<and> pg_page_uid p = uid) (t_pages db)"

definition revision_id_exists :: "content_db \<Rightarrow> pystr \<Rightarrow> pystr \<Rightarrow> bool" where
  "revision_id_exists db library rid \<longleftrightarrow>
     list_ex (\<lambda>r. rv_library_id r = library \<and> rv_revision_id r = rid) (t_revisions db)"

definition registry_digest :: "(bytes \<Rightarrow> bytes) \<Rightarrow> pystr \<Rightarrow> bytes sql" where
  "registry_digest sha text = mapE (\<lambda>_. BadValue) (page_id_registry_digest sha text)"

definition identifier_exists :: "(bytes \<Rightarrow> bytes) \<Rightarrow> content_db \<Rightarrow> pystr \<Rightarrow> pystr \<Rightarrow> bool sql" where
  "identifier_exists sha db library text =
     bindR (registry_digest sha text) (\<lambda>digest.
       Inr (list_ex (\<lambda>i. pi_library_id i = library \<and> pi_identifier_digest i = digest)
         (t_identifiers db)))"

definition get_page :: "(bytes \<Rightarrow> bytes) \<Rightarrow> content_db \<Rightarrow> pystr \<Rightarrow> pystr \<Rightarrow> page option sql" where
  "get_page sha db library text =
     bindR (registry_digest sha text) (\<lambda>digest.
       case find (\<lambda>p. list_ex (\<lambda>i. pi_library_id i = library \<and> pi_identifier_digest i = digest
                 \<and> pi_identifier_text i = text \<and> (pi_library_id i, pi_page_uid i) = page_key p)
               (t_identifiers db)) (t_pages db) of
         None \<Rightarrow> Inr None
       | Some p \<Rightarrow> if page_record_valid p then Inr (Some p) else Inl BadValue)"

definition get_revision :: "content_db \<Rightarrow> page_key \<Rightarrow> int \<Rightarrow> revision option" where
  "get_revision db k n =
     find (\<lambda>r. rev_page_key r = k \<and> rv_revision_number r = n) (t_revisions db)"

definition get_collision_counter ::
  "content_db \<Rightarrow> pystr \<Rightarrow> pystr \<Rightarrow> int \<Rightarrow> pystr \<Rightarrow> collision_counter option" where
  "get_collision_counter db library scheme ts slug =
     find (\<lambda>c. counter_key c = (library, scheme, ts, slug)) (t_counters db)"

text \<open>The tombstones of a section, newest first, ties by identifier, after a keyset boundary.\<close>

definition tombstone_before :: "page \<Rightarrow> page \<Rightarrow> bool" where
  "tombstone_before p q \<longleftrightarrow>
     (case (pg_deleted_at p, pg_deleted_at q) of
        (Some a, Some b) \<Rightarrow> a > b \<or> (a = b \<and> (pg_page_id p, pg_page_id q) \<in> lexord {(x, y). x < y})
      | _ \<Rightarrow> False)"

fun insert_tombstone :: "page \<Rightarrow> page list \<Rightarrow> page list" where
  "insert_tombstone p [] = [p]"
| "insert_tombstone p (q # qs) =
     (if tombstone_before q p then q # insert_tombstone p qs else p # q # qs)"

definition list_deleted_pages ::
  "content_db \<Rightarrow> pystr \<Rightarrow> pystr \<Rightarrow> int \<Rightarrow> (int \<times> pystr) option \<Rightarrow> page list sql" where
  "list_deleted_pages db library section limit before =
     (if \<not> (1 \<le> limit \<and> limit \<le> 101) then Inl BadValue
      else
        let live = filter (\<lambda>p. pg_library_id p = library \<and> pg_section_id p = section
              \<and> pg_page_type p = lit ''archive'' \<and> pg_deleted_at p \<noteq> None) (t_pages db) in
        case before of
          None \<Rightarrow> Inr (take (nat limit) (foldr insert_tombstone live []))
        | Some (at, page_id) \<Rightarrow>
            if at < 0 \<or> validate_page_id page_id \<noteq> Inr page_id then Inl BadValue
            else Inr (take (nat limit) (foldr insert_tombstone
              (filter (\<lambda>p. case pg_deleted_at p of None \<Rightarrow> False
                 | Some d \<Rightarrow> d < at \<or> (d = at \<and> (page_id, pg_page_id p) \<in> lexord {(x, y). x < y})) live)
              [])))"

definition get_current_revision_storage_format :: "content_db \<Rightarrow> page \<Rightarrow> pystr sql" where
  "get_current_revision_storage_format db p =
     (let k = (pg_library_id p, pg_page_uid p, pg_current_revision_id p, pg_current_revision_number p) in
      case (find (\<lambda>m. fs_key m = k) (t_file_sets db), find (\<lambda>r. rev_key r = k) (t_revisions db)) of
        (Some m, Some r) \<Rightarrow>
          if fs_storage_format m = lit ''legacy_markdown'' \<and> rv_content_md r \<noteq> None
          then Inr (lit ''legacy_markdown'')
          else if fs_storage_format m = lit ''file_set_v1'' \<and> rv_content_md r = None
          then Inr (lit ''file_set_v1'')
          else Inl StaleContent
      | _ \<Rightarrow> Inl StaleContent)"

section \<open>Writes\<close>

definition add_page :: "(bytes \<Rightarrow> bytes) \<Rightarrow> page \<Rightarrow> content_db \<Rightarrow> content_db sql" where
  "add_page sha p db =
     (if new_page_valid sha p then insert_page p db else Inl BadValue)"

definition add_revision :: "revision \<Rightarrow> content_db \<Rightarrow> content_db sql" where
  "add_revision r db = insert_revision r db"

text \<open>The five conditional updates; \<open>None\<close> or an error when the row is not as it was read.\<close>

definition same_current :: "page \<Rightarrow> page \<Rightarrow> bool" where
  "same_current p q \<longleftrightarrow>
     page_key q = page_key p \<and> pg_current_revision_id q = pg_current_revision_id p
     \<and> pg_current_revision_number q = pg_current_revision_number p
     \<and> pg_updated_at q = pg_updated_at p"

definition update_page_title ::
  "page \<Rightarrow> pystr \<Rightarrow> int \<Rightarrow> content_db \<Rightarrow> (content_db \<times> page option) sql" where
  "update_page_title p title updated_at db =
     bindR (update_pages
        (\<lambda>q. same_current p q \<and> pg_section_id q = pg_section_id p \<and> pg_book_id q = pg_book_id p
           \<and> pg_page_id q = pg_page_id p \<and> pg_title q = pg_title p \<and> pg_deleted_at q = None)
        (\<lambda>q. q\<lparr>pg_title := title, pg_updated_at := updated_at\<rparr>) db)
     (\<lambda>(db', n). Inr (db', if n \<noteq> 1 then None
        else Some (p\<lparr>pg_title := title, pg_updated_at := updated_at\<rparr>)))"

definition advance_current_revision ::
  "page \<Rightarrow> revision \<Rightarrow> int \<Rightarrow> content_db \<Rightarrow> (content_db \<times> page option) sql" where
  "advance_current_revision p r updated_at db =
     (if updated_at \<le> pg_updated_at p \<or> updated_at \<noteq> rv_created_at r then Inl BadValue
      else
        let f = (\<lambda>q. q\<lparr>pg_current_revision_id := rv_revision_id r,
                     pg_current_revision_number := rv_revision_number r,
                     pg_updated_at := updated_at\<rparr>) in
        bindR (update_pages
          (\<lambda>q. same_current p q \<and> pg_occurred_at q = pg_occurred_at p \<and> pg_deleted_at q = None) f db)
        (\<lambda>(db', n). Inr (db', if n \<noteq> 1 then None else Some (f p))))"

text \<open>Insert the normalized guard, update the page, read the event the trigger wrote.\<close>

definition write_correction ::
  "page \<Rightarrow> correction_guard \<Rightarrow> content_db \<Rightarrow> (content_db \<times> page \<times> correction) sql" where
  "write_correction p g db =
     bindR (insert_correction_guard g db) (\<lambda>db1.
     let f = (\<lambda>q. q\<lparr>pg_occurred_at := cg_new_occurred_at g, pg_updated_at := cg_corrected_at g\<rparr>) in
     bindR (update_pages (\<lambda>q. same_current p q \<and> pg_occurred_at q = pg_occurred_at p) f db1)
       (\<lambda>(db2, n).
     if n \<noteq> 1 then Inl StaleContent
     else case find (\<lambda>x. co_key x = page_key p \<and> cg_sequence (co_guard x) = cg_sequence g)
            (t_corrections db2) of
       None \<Rightarrow> Inl SqlError
     | Some row \<Rightarrow> Inr (db2, f p, row)))"

definition correct_occurrence_row ::
  "page \<Rightarrow> correction_guard \<Rightarrow> content_db \<Rightarrow> (content_db \<times> page \<times> correction) sql" where
  "correct_occurrence_row p c db =
     (if page_key p \<noteq> cg_key c \<or> pg_occurred_at p \<noteq> cg_old_occurred_at c then Inl BadValue
      else
        let corrected_at = max (cg_corrected_at c) (pg_updated_at p + 1) in
        if \<not> utc_in_range corrected_at then Inl BadValue
        else
          let sequence = next_sequence co_key (\<lambda>c. cg_sequence (co_guard c)) (page_key p)
                (t_corrections db) in
          if \<not> (1 \<le> sequence \<and> sequence \<le> MAX_I64) then Inl BadValue
          else write_correction p (c\<lparr>cg_corrected_at := corrected_at, cg_sequence := sequence\<rparr>) db)"

definition write_lifecycle ::
  "page \<Rightarrow> lifecycle_event \<Rightarrow> content_db \<Rightarrow> (content_db \<times> page \<times> lifecycle_event) sql" where
  "write_lifecycle p g db =
     bindR (insert_lifecycle_guard g db) (\<lambda>db1.
     let f = (\<lambda>q. q\<lparr>pg_deleted_at := (if le_action g = lit ''delete'' then Some (le_changed_at g) else None),
                  pg_updated_at := le_changed_at g\<rparr>) in
     bindR (update_pages
       (\<lambda>q. same_current p q \<and> pg_section_id q = pg_section_id p
          \<and> pg_page_type q = lit ''archive'' \<and> pg_deleted_at q = pg_deleted_at p
          \<and> pg_occurred_at q = pg_occurred_at p) f db1) (\<lambda>(db2, n).
     if n \<noteq> 1 then Inl StaleContent
     else case find (\<lambda>x. le_key x = page_key p \<and> le_sequence x = le_sequence g)
            (t_lifecycle_events db2) of
       None \<Rightarrow> Inl SqlError
     | Some row \<Rightarrow> Inr (db2, f p, row)))"

definition transition_page_lifecycle_row ::
  "page \<Rightarrow> pystr \<Rightarrow> pystr option \<Rightarrow> pystr option \<Rightarrow> pystr option \<Rightarrow> pystr \<Rightarrow> int \<Rightarrow> content_db
    \<Rightarrow> (content_db \<times> page \<times> lifecycle_event) sql" where
  "transition_page_lifecycle_row p action caller home master request_id changed_at db =
     (if action \<notin> {lit ''delete'', lit ''restore''} \<or> pg_page_type p \<noteq> lit ''archive'' then Inl BadValue
      else if (action = lit ''delete'') \<noteq> (pg_deleted_at p = None) then Inl BadValue
      else if changed_at < 0 then Inl BadValue
      else
        let transition_at = max changed_at (pg_updated_at p + 1) in
        if \<not> utc_in_range transition_at then Inl BadValue
        else
          let sequence = next_sequence le_key le_sequence (page_key p) (t_lifecycle_events db) in
          if \<not> (1 \<le> sequence \<and> sequence \<le> MAX_I64) then Inl BadValue
          else
            let e = \<lparr>le_library_id = pg_library_id p, le_page_uid = pg_page_uid p,
                le_sequence = sequence, le_action = action, le_section_id = pg_section_id p,
                le_old_deleted_at = pg_deleted_at p, le_old_updated_at = pg_updated_at p,
                le_changed_at = transition_at,
                le_at_revision_number = pg_current_revision_number p,
                le_occurred_at_at_event = pg_occurred_at p, le_actor_caller_id = caller,
                le_actor_home_library_id = home, le_master_audit_event_id = master,
                le_request_id = request_id\<rparr>
            in if \<not> lifecycle_record_valid e then Inl BadValue else write_lifecycle p e db)"

definition add_collision_counter :: "collision_counter \<Rightarrow> content_db \<Rightarrow> content_db sql" where
  "add_collision_counter c db = insert_counter c db"

definition advance_collision_counter ::
  "collision_counter \<Rightarrow> int \<Rightarrow> content_db \<Rightarrow> (content_db \<times> collision_counter option) sql" where
  "advance_collision_counter c next_ordinal db =
     bindR (update_counter c next_ordinal db) (\<lambda>(db', n).
       Inr (db', if n \<noteq> 1 then None else Some (c\<lparr>cc_next_ordinal := next_ordinal\<rparr>)))"

text \<open>A file-set Revision: the row without Markdown, its manifest, its files, the seal.\<close>

record manifest_entry =
  mf_name :: pystr
  mf_content :: bytes
  mf_size_bytes :: int
  mf_sha256 :: bytes

record file_manifest =
  fm_files :: "manifest_entry list"
  fm_total_size_bytes :: int
  fm_snapshot_sha256 :: bytes

fun insert_files :: "revision_file list \<Rightarrow> content_db \<Rightarrow> content_db sql" where
  "insert_files [] db = Inr db"
| "insert_files (f # fs) db = bindR (insert_file f db) (insert_files fs)"

definition add_file_set_revision ::
  "page \<Rightarrow> pystr \<Rightarrow> int \<Rightarrow> file_manifest \<Rightarrow> content_db \<Rightarrow> content_db sql" where
  "add_file_set_revision p rid created_at m db =
     (let n = pg_current_revision_number p + 1;
          k = (pg_library_id p, pg_page_uid p, rid, n) in
      bindR (insert_revision
        \<lparr>rv_library_id = pg_library_id p, rv_revision_id = rid, rv_page_uid = pg_page_uid p,
         rv_revision_number = n, rv_content_md = None, rv_content_size_bytes = None,
         rv_content_sha256 = None, rv_created_at = created_at\<rparr> db) (\<lambda>db1.
      bindR (insert_file_set
        \<lparr>fs_key = k, fs_storage_format = lit ''file_set_v1'',
         fs_file_count = int (length (fm_files m)), fs_total_size_bytes = fm_total_size_bytes m,
         fs_snapshot_sha256 = Some (fm_snapshot_sha256 m)\<rparr> db1) (\<lambda>db2.
      bindR (insert_files (map (\<lambda>e.
        \<lparr>rf_key = k, rf_filename = mf_name e, rf_content_bytes = mf_content e,
         rf_size_bytes = mf_size_bytes e, rf_content_sha256 = mf_sha256 e\<rparr>) (fm_files m)) db2) (\<lambda>db3.
      insert_seal k db3))))"

definition advance_file_set_current_revision ::
  "page \<Rightarrow> pystr \<Rightarrow> int \<Rightarrow> content_db \<Rightarrow> (content_db \<times> page option) sql" where
  "advance_file_set_current_revision p rid updated_at db =
     (let f = (\<lambda>q. q\<lparr>pg_current_revision_id := rid,
                   pg_current_revision_number := pg_current_revision_number p + 1,
                   pg_updated_at := updated_at\<rparr>) in
      bindR (update_pages
        (\<lambda>q. same_current p q \<and> pg_occurred_at q = pg_occurred_at p \<and> pg_deleted_at q = None) f db)
      (\<lambda>(db', n). Inr (db', if n \<noteq> 1 then None else Some (f p))))"

definition add_identifier :: "page_identifier \<Rightarrow> content_db \<Rightarrow> content_db sql" where
  "add_identifier i db = insert_identifier i db"

definition add_source_row :: "page_source \<Rightarrow> content_db \<Rightarrow> content_db sql" where
  "add_source_row s db = insert_source s db"

section \<open>Entity tags\<close>

text \<open>\<open>n.to_bytes(8, "big")\<close> for \<open>0 <= n < 2^64\<close> and its signed form, which is the same word.\<close>

definition to_bytes8 :: "int \<Rightarrow> bytes" where
  "to_bytes8 n = map (\<lambda>i. word_of_int (n div 256 ^ i)) (rev [0..<8])"

definition PAGE_ETAG_DOMAIN :: bytes where
  "PAGE_ETAG_DOMAIN = map of_nat (lit ''patchouli-lib/page-current-etag/v2'') @ [0]"

definition LEGACY_PAGE_ETAG_DOMAIN :: bytes where
  "LEGACY_PAGE_ETAG_DOMAIN = map of_nat (lit ''patchouli-lib/page-current-etag/v1'') @ [0]"

definition etag_identity_ok :: "bytes \<Rightarrow> pystr \<Rightarrow> int \<Rightarrow> bool" where
  "etag_identity_ok uid rid n \<longleftrightarrow>
     length uid = 16 \<and> revision_id_pattern rid \<and> 1 \<le> n \<and> n \<le> MAX_REVISION_NUMBER"

definition etag_body :: "bytes \<Rightarrow> pystr \<Rightarrow> int \<Rightarrow> int \<Rightarrow> int \<Rightarrow> bytes" where
  "etag_body uid rid n occurred_at updated_at =
     uid @ map of_nat rid @ to_bytes8 n @ to_bytes8 occurred_at @ to_bytes8 updated_at"

definition page_current_etag ::
  "(bytes \<Rightarrow> bytes) \<Rightarrow> bytes \<Rightarrow> pystr \<Rightarrow> int \<Rightarrow> int \<Rightarrow> int \<Rightarrow> pystr sql" where
  "page_current_etag sha uid rid n occurred_at updated_at =
     (if \<not> etag_identity_ok uid rid n \<or> \<not> utc_in_range occurred_at
         \<or> \<not> (0 \<le> updated_at \<and> updated_at \<le> MAX_I64)
      then Inl BadValue
      else Inr (lit ''\"page-v2-'' @ hex_bytes (sha (PAGE_ETAG_DOMAIN
             @ etag_body uid rid n occurred_at updated_at)) @ lit ''\"''))"

definition legacy_page_current_etag :: "(bytes \<Rightarrow> bytes) \<Rightarrow> bytes \<Rightarrow> pystr \<Rightarrow> int \<Rightarrow> pystr sql" where
  "legacy_page_current_etag sha uid rid n =
     (if \<not> etag_identity_ok uid rid n then Inl BadValue
      else Inr (lit ''\"page-v1-'' @ hex_bytes (sha (LEGACY_PAGE_ETAG_DOMAIN
             @ uid @ map of_nat rid @ to_bytes8 n)) @ lit ''\"''))"

definition page_etag :: "(bytes \<Rightarrow> bytes) \<Rightarrow> page \<Rightarrow> pystr sql" where
  "page_etag sha p = page_current_etag sha (pg_page_uid p) (pg_current_revision_id p)
     (pg_current_revision_number p) (pg_occurred_at p) (pg_updated_at p)"

section \<open>Moving a page\<close>

record page_move_plan =
  mp_page :: page
  mp_target_section_id :: pystr
  mp_target_book_id :: pystr
  mp_updated_at :: int
  mp_sequence :: "int option"

definition prepare_page_move ::
  "(bytes \<Rightarrow> bytes) \<Rightarrow> content_db \<Rightarrow> pystr \<Rightarrow> pystr \<Rightarrow> pystr \<times> pystr \<Rightarrow> pystr \<times> pystr \<Rightarrow> pystr \<Rightarrow> int
    \<Rightarrow> page_move_plan sql" where
  "prepare_page_move sha db library page_id source target expected_etag operation_at =
     bindR (get_page sha db library page_id) (\<lambda>found.
     case found of
       None \<Rightarrow> Inl PageMoveNotFound
     | Some p \<Rightarrow>
         if pg_page_id p \<noteq> page_id \<or> pg_deleted_at p \<noteq> None
            \<or> (pg_section_id p, pg_book_id p) \<noteq> source
         then Inl PageMoveNotFound
         else
           bindR (page_etag sha p) (\<lambda>expected.
           if expected \<noteq> expected_etag then Inl PreconditionFailed
           else if \<not> book_exists db library (fst target) (snd target) then Inl PageMoveNotFound
           else if operation_at < 0 \<or> \<not> utc_in_range operation_at then Inl BadValue
           else
             let changed = (source \<noteq> target);
                 updated_at = (if changed then max operation_at (pg_updated_at p + 1)
                               else pg_updated_at p) in
             if \<not> utc_in_range updated_at then Inl BadValue
             else Inr \<lparr>mp_page = p, mp_target_section_id = fst target,
                    mp_target_book_id = snd target, mp_updated_at = updated_at,
                    mp_sequence = (if changed
                      then Some (next_sequence me_key me_sequence (page_key p) (t_move_events db))
                      else None)\<rparr>))"

definition write_move :: "page \<Rightarrow> move_event \<Rightarrow> content_db \<Rightarrow> content_db sql" where
  "write_move p g db =
     bindR (insert_move_guard g db) (\<lambda>db1.
     bindR (update_pages
       (\<lambda>q. page_key q = page_key p \<and> pg_section_id q = pg_section_id p
          \<and> pg_book_id q = pg_book_id p \<and> pg_updated_at q = pg_updated_at p
          \<and> pg_deleted_at q = None)
       (\<lambda>q. q\<lparr>pg_section_id := me_new_section_id g, pg_book_id := me_new_book_id g,
            pg_updated_at := me_changed_at g\<rparr>) db1) (\<lambda>(db2, n).
     if n \<noteq> 1 then Inl PreconditionFailed
     else if list_ex (\<lambda>g. me_key g = page_key p) (t_move_guards db2) then Inl StaleContent
     else Inr db2))"

definition apply_page_move ::
  "page_move_plan \<Rightarrow> pystr option \<Rightarrow> pystr option \<Rightarrow> content_db \<Rightarrow> content_db sql" where
  "apply_page_move plan master caller db =
     (case mp_sequence plan of
        None \<Rightarrow> if master \<noteq> None \<or> caller \<noteq> None then Inl BadValue else Inr db
      | Some sequence \<Rightarrow>
          if (master = None) = (caller = None) then Inl BadValue
          else
            let p = mp_page plan in
            write_move p
              \<lparr>me_library_id = pg_library_id p, me_page_uid = pg_page_uid p, me_sequence = sequence,
               me_old_section_id = pg_section_id p, me_old_book_id = pg_book_id p,
               me_new_section_id = mp_target_section_id plan,
               me_new_book_id = mp_target_book_id plan, me_old_updated_at = pg_updated_at p,
               me_changed_at = mp_updated_at plan, me_at_revision_id = pg_current_revision_id p,
               me_at_revision_number = pg_current_revision_number p,
               me_occurred_at_at_event = pg_occurred_at p, me_master_audit_event_id = master,
               me_caller_audit_event_id = caller\<rparr> db)"

end
