(* ===== verification/PageHistory.thy ===== *)
theory PageHistory
  imports PageRepository
begin

text \<open>
  The states of a page, reconstructed from the Revisions and event rows that its history left:
  \<open>content/page_membership_history.py\<close>. A reconstruction either proves every state up to the
  stored row or fails with \<open>HistoryInconsistent\<close>.
\<close>

section \<open>Schema revisions\<close>

definition CALLER_MOVE_REVISIONS :: "pystr list" where
  "CALLER_MOVE_REVISIONS =
     [lit ''20261002_0029'', lit ''20261003_0030'', lit ''20261018_0031'', lit ''20261019_0032'',
      lit ''20261019_0033'', lit ''20261020_0034'', lit ''20261020_0035'', lit ''20261020_0036'',
      lit ''20261020_0037'']"

definition MOVE_REVISIONS :: "pystr list" where
  "MOVE_REVISIONS = lit ''20261001_0028'' # CALLER_MOVE_REVISIONS"

definition TITLE_REVISIONS :: "pystr list" where
  "TITLE_REVISIONS =
     [lit ''20260930_0022'', lit ''20260930_0023'', lit ''20260930_0024'', lit ''20261001_0025'',
      lit ''20261001_0026'', lit ''20261001_0027''] @ MOVE_REVISIONS"

section \<open>States and operations\<close>

record page_state =
  ps_updated_at :: int
  ps_revision_id :: pystr
  ps_revision_number :: int
  ps_occurred_at :: int
  ps_title :: pystr
  ps_deleted_at :: "int option"
  ps_section_id :: pystr
  ps_book_id :: pystr

record page_state_timeline =
  tl_library_id :: pystr
  tl_page_uid :: bytes
  tl_page_id :: pystr
  tl_states :: "page_state list"

datatype operation =
    OpRevision revision
  | OpCorrection correction
  | OpLifecycle lifecycle_event
  | OpTitle title_event
  | OpMove move_event

fun op_time :: "operation \<Rightarrow> int" where
  "op_time (OpRevision r) = rv_created_at r"
| "op_time (OpCorrection c) = cg_corrected_at (co_guard c)"
| "op_time (OpLifecycle e) = le_changed_at e"
| "op_time (OpTitle e) = te_changed_at e"
| "op_time (OpMove e) = me_changed_at e"

record sequences =
  sq_correction :: int
  sq_lifecycle :: int
  sq_title :: int
  sq_move :: int

text \<open>The state that the row of a page itself describes.\<close>

definition state_of_page :: "page \<Rightarrow> page_state" where
  "state_of_page p =
     \<lparr>ps_updated_at = pg_updated_at p, ps_revision_id = pg_current_revision_id p,
      ps_revision_number = pg_current_revision_number p, ps_occurred_at = pg_occurred_at p,
      ps_title = pg_title p, ps_deleted_at = pg_deleted_at p, ps_section_id = pg_section_id p,
      ps_book_id = pg_book_id p\<rparr>"

text \<open>\<open>_require\<close> and the queries, each in its \<open>ORDER BY\<close>.\<close>

definition require_history :: "bool \<Rightarrow> unit sql" where
  "require_history c = requireR c HistoryInconsistent"

definition revisions_of :: "content_db \<Rightarrow> page_key \<Rightarrow> revision list" where
  "revisions_of db k = sort_key rv_revision_number (filter (\<lambda>r. rev_page_key r = k) (t_revisions db))"

definition corrections_of :: "content_db \<Rightarrow> page_key \<Rightarrow> correction list" where
  "corrections_of db k =
     sort_key (\<lambda>c. cg_sequence (co_guard c)) (filter (\<lambda>c. co_key c = k) (t_corrections db))"

definition lifecycle_of :: "content_db \<Rightarrow> page_key \<Rightarrow> lifecycle_event list" where
  "lifecycle_of db k = sort_key le_sequence (filter (\<lambda>e. le_key e = k) (t_lifecycle_events db))"

definition titles_of :: "content_db \<Rightarrow> pystr \<Rightarrow> page_key \<Rightarrow> title_event list" where
  "titles_of db schema k =
     (if schema \<in> set TITLE_REVISIONS
      then sort_key te_sequence (filter (\<lambda>e. te_key e = k) (t_title_events db)) else [])"

text \<open>Before the caller moves, the caller column is read as \<open>NULL\<close>.\<close>

definition moves_of :: "content_db \<Rightarrow> pystr \<Rightarrow> page_key \<Rightarrow> move_event list" where
  "moves_of db schema k =
     (if schema \<in> set MOVE_REVISIONS
      then map (\<lambda>e. if schema \<in> set CALLER_MOVE_REVISIONS then e else e\<lparr>me_caller_audit_event_id := None\<rparr>)
        (sort_key me_sequence (filter (\<lambda>e. me_key e = k) (t_move_events db)))
      else [])"

definition no_guards :: "content_db \<Rightarrow> pystr \<Rightarrow> page_key \<Rightarrow> bool" where
  "no_guards db schema k \<longleftrightarrow>
     \<not> list_ex (\<lambda>g. cg_key g = k) (t_correction_guards db)
     \<and> \<not> list_ex (\<lambda>g. le_key g = k) (t_lifecycle_guards db)
     \<and> (schema \<in> set MOVE_REVISIONS \<longrightarrow> \<not> list_ex (\<lambda>g. me_key g = k) (t_move_guards db))"

definition initial_state ::
  "page \<Rightarrow> revision \<Rightarrow> correction list \<Rightarrow> title_event list \<Rightarrow> move_event list \<Rightarrow> page_state" where
  "initial_state p first corrections titles moves =
     \<lparr>ps_updated_at = pg_created_at p, ps_revision_id = rv_revision_id first, ps_revision_number = 1,
      ps_occurred_at = (case corrections of [] \<Rightarrow> pg_occurred_at p
        | c # _ \<Rightarrow> cg_old_occurred_at (co_guard c)),
      ps_title = (case titles of [] \<Rightarrow> pg_title p | e # _ \<Rightarrow> te_old_title e),
      ps_deleted_at = None,
      ps_section_id = (case moves of [] \<Rightarrow> pg_section_id p | e # _ \<Rightarrow> me_old_section_id e),
      ps_book_id = (case moves of [] \<Rightarrow> pg_book_id p | e # _ \<Rightarrow> me_old_book_id e)\<rparr>"

definition operations_of ::
  "revision list \<Rightarrow> correction list \<Rightarrow> lifecycle_event list \<Rightarrow> title_event list \<Rightarrow> move_event list
    \<Rightarrow> operation list" where
  "operations_of revisions corrections lifecycle titles moves =
     map OpRevision (tl revisions) @ map OpCorrection corrections @ map OpLifecycle lifecycle
     @ map OpTitle titles @ map OpMove moves"

section \<open>Replaying one operation\<close>

text \<open>The audit row a move names, looked up in the table of its actor.\<close>

definition move_audited :: "content_db \<Rightarrow> page_key \<Rightarrow> pystr \<Rightarrow> move_event \<Rightarrow> bool" where
  "move_audited db k page_id e \<longleftrightarrow>
     (case me_master_audit_event_id e of
        None \<Rightarrow>
          (case me_caller_audit_event_id e of
             None \<Rightarrow> False
           | Some i \<Rightarrow>
               (case find (\<lambda>a. au_id a = i) (t_audits db) of
                  None \<Rightarrow> False
                | Some a \<Rightarrow> au_library_id a = fst k \<and> au_action a = lit ''content.page.move''
                    \<and> au_resource_type a = lit ''page'' \<and> au_resource_id a = page_id
                    \<and> au_outcome a = lit ''succeeded'' \<and> au_occurred_at a = me_changed_at e))
      | Some i \<Rightarrow>
          me_caller_audit_event_id e = None
          \<and> (case find (\<lambda>a. ma_id a = i) (t_master_audits db) of
               None \<Rightarrow> False
             | Some a \<Rightarrow> ma_action a = lit ''content.page.move'' \<and> ma_target_type a = lit ''page''
                 \<and> ma_target_id a = page_target k \<and> ma_occurred_at a = me_changed_at e))"

definition event_in_order :: "int \<Rightarrow> int \<Rightarrow> int \<Rightarrow> page_state \<Rightarrow> bool" where
  "event_in_order sequence last_sequence at_revision s \<longleftrightarrow>
     sequence = last_sequence + 1 \<and> at_revision = ps_revision_number s"

fun apply_operation ::
  "content_db \<Rightarrow> page_key \<Rightarrow> pystr \<Rightarrow> page_state \<times> sequences \<Rightarrow> operation \<Rightarrow> (page_state \<times> sequences) sql" where
  "apply_operation db k page_id (s, q) (OpRevision r) =
     (if rv_created_at r > ps_updated_at s \<and> ps_deleted_at s = None
         \<and> rv_revision_number r = ps_revision_number s + 1
      then Inr (s\<lparr>ps_revision_id := rv_revision_id r, ps_revision_number := rv_revision_number r,
                 ps_updated_at := rv_created_at r\<rparr>, q)
      else Inl HistoryInconsistent)"
| "apply_operation db k page_id (s, q) (OpCorrection c) =
     (let g = co_guard c in
      if cg_corrected_at g > ps_updated_at s
         \<and> event_in_order (cg_sequence g) (sq_correction q) (co_at_revision_number c) s
         \<and> ps_deleted_at s = None \<and> cg_old_occurred_at g = ps_occurred_at s
         \<and> cg_new_occurred_at g \<noteq> ps_occurred_at s
      then Inr (s\<lparr>ps_occurred_at := cg_new_occurred_at g, ps_updated_at := cg_corrected_at g\<rparr>,
                q\<lparr>sq_correction := cg_sequence g\<rparr>)
      else Inl HistoryInconsistent)"
| "apply_operation db k page_id (s, q) (OpLifecycle e) =
     (if le_changed_at e > ps_updated_at s
         \<and> event_in_order (le_sequence e) (sq_lifecycle q) (le_at_revision_number e) s
         \<and> le_old_updated_at e = ps_updated_at s \<and> le_section_id e = ps_section_id s
         \<and> le_old_deleted_at e = ps_deleted_at s \<and> le_occurred_at_at_event e = ps_occurred_at s
         \<and> le_action e \<in> {lit ''delete'', lit ''restore''}
         \<and> (le_action e = lit ''delete'') = (ps_deleted_at s = None)
      then Inr (s\<lparr>ps_deleted_at := (if le_action e = lit ''delete'' then Some (le_changed_at e) else None),
                 ps_updated_at := le_changed_at e\<rparr>,
                q\<lparr>sq_lifecycle := le_sequence e\<rparr>)
      else Inl HistoryInconsistent)"
| "apply_operation db k page_id (s, q) (OpTitle e) =
     (if te_changed_at e > ps_updated_at s
         \<and> event_in_order (te_sequence e) (sq_title q) (te_at_revision_number e) s
         \<and> te_old_updated_at e = ps_updated_at s \<and> ps_deleted_at s = None
         \<and> te_old_title e = ps_title s \<and> te_new_title e \<noteq> ps_title s
      then Inr (s\<lparr>ps_title := te_new_title e, ps_updated_at := te_changed_at e\<rparr>,
                q\<lparr>sq_title := te_sequence e\<rparr>)
      else Inl HistoryInconsistent)"
| "apply_operation db k page_id (s, q) (OpMove e) =
     (if me_changed_at e > ps_updated_at s
         \<and> event_in_order (me_sequence e) (sq_move q) (me_at_revision_number e) s
         \<and> me_old_updated_at e = ps_updated_at s \<and> ps_deleted_at s = None
         \<and> (me_old_section_id e, me_old_book_id e) = (ps_section_id s, ps_book_id s)
         \<and> (me_new_section_id e, me_new_book_id e) \<noteq> (ps_section_id s, ps_book_id s)
         \<and> me_at_revision_id e = ps_revision_id s \<and> me_occurred_at_at_event e = ps_occurred_at s
         \<and> move_audited db k page_id e
      then Inr (s\<lparr>ps_section_id := me_new_section_id e, ps_book_id := me_new_book_id e,
                 ps_updated_at := me_changed_at e\<rparr>,
                q\<lparr>sq_move := me_sequence e\<rparr>)
      else Inl HistoryInconsistent)"

text \<open>The loop over the operations; it collects the states after the given one.\<close>

fun replay ::
  "content_db \<Rightarrow> page_key \<Rightarrow> pystr \<Rightarrow> page_state \<times> sequences \<Rightarrow> operation list
    \<Rightarrow> (page_state list \<times> page_state \<times> sequences) sql" where
  "replay db k page_id sq [] = Inr ([], sq)"
| "replay db k page_id sq (x # xs) =
     bindR (apply_operation db k page_id sq x) (\<lambda>sq'.
     bindR (replay db k page_id sq' xs) (\<lambda>(states, final). Inr (fst sq' # states, final)))"

definition no_sequences :: sequences where
  "no_sequences = \<lparr>sq_correction = 0, sq_lifecycle = 0, sq_title = 0, sq_move = 0\<rparr>"

definition single_book :: "content_db \<Rightarrow> pystr \<Rightarrow> page_state \<Rightarrow> bool" where
  "single_book db library s \<longleftrightarrow>
     length (filter (\<lambda>b. bk_library_id b = library \<and> bk_section_id b = ps_section_id s
       \<and> bk_id b = ps_book_id s) (t_books db)) = 1"

definition load_page_state_timeline ::
  "content_db \<Rightarrow> pystr \<Rightarrow> page_key \<Rightarrow> page_state_timeline sql" where
  "load_page_state_timeline db schema k =
     (case filter (\<lambda>p. page_key p = k) (t_pages db) of
        [p] \<Rightarrow>
          (case revisions_of db k of
             [] \<Rightarrow> Inl HistoryInconsistent
           | first # _ \<Rightarrow>
               let corrections = corrections_of db k; lifecycle = lifecycle_of db k;
                   titles = titles_of db schema k; moves = moves_of db schema k;
                   s0 = initial_state p first corrections titles moves in
               bindR (require_history (rv_revision_number first = 1
                        \<and> rv_created_at first = pg_created_at p)) (\<lambda>_.
               bindR (require_history (no_guards db schema k)) (\<lambda>_.
               bindR (replay db k (pg_page_id p) (s0, no_sequences)
                 (sort_key op_time (operations_of (revisions_of db k) corrections lifecycle titles moves)))
                 (\<lambda>(states, final, _).
               bindR (require_history (final = state_of_page p)) (\<lambda>_.
               bindR (require_history (list_all (single_book db (fst k)) (s0 # states))) (\<lambda>_.
               Inr \<lparr>tl_library_id = fst k, tl_page_uid = snd k, tl_page_id = pg_page_id p,
                    tl_states = s0 # states\<rparr>))))))
      | _ \<Rightarrow> Inl HistoryInconsistent)"

section \<open>Queries on a timeline\<close>

definition current_state :: "page_state_timeline \<Rightarrow> page_state" where
  "current_state t = last (tl_states t)"

definition exact_state :: "page_state_timeline \<Rightarrow> int \<Rightarrow> page_state sql" where
  "exact_state t updated_at =
     (case filter (\<lambda>s. ps_updated_at s = updated_at) (tl_states t) of
        [s] \<Rightarrow> Inr s
      | _ \<Rightarrow> Inl HistoryInconsistent)"

definition state_etag :: "(bytes \<Rightarrow> bytes) \<Rightarrow> bytes \<Rightarrow> page_state \<Rightarrow> pystr sql" where
  "state_etag sha uid s = page_current_etag sha uid (ps_revision_id s) (ps_revision_number s)
     (ps_occurred_at s) (ps_updated_at s)"

text \<open>The states of an instant of a comprehension whose condition may raise.\<close>

fun matching :: "('a \<Rightarrow> 'e + bool) \<Rightarrow> 'a list \<Rightarrow> 'e + 'a list" where
  "matching cond [] = Inr []"
| "matching cond (x # xs) =
     bindR (cond x) (\<lambda>b. bindR (matching cond xs) (\<lambda>ys. Inr (if b then x # ys else ys)))"

lemma matching_filter: "\<forall>x \<in> set xs. cond x = Inr (P x) \<Longrightarrow> matching cond xs = Inr (filter P xs)"
  by (induction xs) auto

definition active_etag_matches ::
  "(bytes \<Rightarrow> bytes) \<Rightarrow> bytes \<Rightarrow> pystr \<Rightarrow> int \<Rightarrow> pystr \<Rightarrow> pystr \<Rightarrow> pystr option \<Rightarrow> page_state \<Rightarrow> bool sql" where
  "active_etag_matches sha uid rid n etag section book s =
     (if ps_deleted_at s = None \<and> ps_revision_id s = rid \<and> ps_revision_number s = n
         \<and> ps_section_id s = section \<and> (case book of None \<Rightarrow> True | Some b \<Rightarrow> ps_book_id s = b)
      then bindR (state_etag sha uid s) (\<lambda>e. Inr (e = etag))
      else Inr False)"

definition match_active_etag ::
  "(bytes \<Rightarrow> bytes) \<Rightarrow> page_state_timeline \<Rightarrow> pystr \<Rightarrow> int \<Rightarrow> pystr \<Rightarrow> pystr \<Rightarrow> pystr option
    \<Rightarrow> page_state sql" where
  "match_active_etag sha t rid n etag section book =
     bindR (matching (active_etag_matches sha (tl_page_uid t) rid n etag section book) (tl_states t)) (\<lambda>found.
     case found of
       [s] \<Rightarrow> Inr s
     | _ \<Rightarrow> Inl HistoryInconsistent)"

end
