(* ===== verification/PageMutations.thy ===== *)
theory PageMutations
  imports PageHistory "HOL-Library.Multiset"
begin

text \<open>
  Normal forms of the page mutations: a successful mutation replaces the row of one page and
  appends one Revision or one event, and leaves no guard behind. The proofs about the history
  rest on these equations only.
\<close>

section \<open>Statements\<close>

lemma list_ex_key_find:
  "\<not> list_ex (\<lambda>x. key x = k) xs \<longleftrightarrow> find (\<lambda>x. key x = k) xs = None"
  by (auto simp: find_None_iff list_ex_iff)

lemma find_append_fresh:
  "\<not> list_ex (\<lambda>x. key x = key y) xs \<Longrightarrow> find (\<lambda>x. key x = key y) (xs @ [y]) = Some y"
  by (induction xs) auto

lemma find_append_new: "\<not> list_ex P xs \<Longrightarrow> P y \<Longrightarrow> find P (xs @ [y]) = Some y"
  by (induction xs) auto

lemma filter_fresh:
  "\<not> list_ex (\<lambda>x. key x = key y) xs \<Longrightarrow> filter (\<lambda>x. key x \<noteq> key y) (xs @ [y]) = xs"
  by (induction xs) auto

lemma find_SomeD: "find P xs = Some x \<Longrightarrow> P x \<and> x \<in> set xs"
  by (induction xs) (auto split: if_splits)

text \<open>What one touched row went through: the guards, and the triggers after the change.\<close>

definition row_updated :: "content_db \<Rightarrow> page \<Rightarrow> page \<Rightarrow> content_db \<Rightarrow> bool" where
  "row_updated db old new db' \<longleftrightarrow>
     old \<in> set (t_pages db) \<and> before_page_update db old new \<and> page_check new
     \<and> book_exists db (pg_library_id new) (pg_section_id new) (pg_book_id new)
     \<and> bindR (record_occurrence old new (clear_append_guard old new (set_page new db))) (\<lambda>db1.
       bindR (record_lifecycle old new db1) (\<lambda>db2.
       bindR (record_title old new db2) (record_move old new))) = Inr db'"

lemma update_pages_Inr:
  assumes "update_pages cond f db = Inr (db', n)"
  shows "(n = 0 \<and> db' = db) \<or> (n = 1 \<and> (\<exists>old. cond old \<and> row_updated db old (f old) db'))"
proof (cases "find cond (t_pages db)")
  case None
  then show ?thesis using assms by (simp add: update_pages_def)
next
  case (Some old)
  have o: "cond old" "old \<in> set (t_pages db)" using find_SomeD [OF Some] by auto
  have "n = 1 \<and> row_updated db old (f old) db'"
    using assms Some o
    by (auto simp: update_pages_def row_updated_def Let_def result_simps split: if_splits)
  then show ?thesis using o by blast
qed

lemma record_same [simp]:
  "pg_occurred_at new = pg_occurred_at old \<Longrightarrow> record_occurrence old new db = Inr db"
  "pg_deleted_at new = pg_deleted_at old \<Longrightarrow> record_lifecycle old new db = Inr db"
  "pg_title new = pg_title old \<Longrightarrow> record_title old new db = Inr db"
  "same_place old new \<Longrightarrow> record_move old new db = Inr db"
  "same_revision old new \<Longrightarrow> clear_append_guard old new db = db"
  by (simp_all add: record_occurrence_def record_lifecycle_def record_title_def record_move_def
      clear_append_guard_def)

lemma set_page_tables [simp]:
  "t_books (set_page p db) = t_books db" "t_revisions (set_page p db) = t_revisions db"
  "t_corrections (set_page p db) = t_corrections db"
  "t_correction_guards (set_page p db) = t_correction_guards db"
  "t_lifecycle_events (set_page p db) = t_lifecycle_events db"
  "t_lifecycle_guards (set_page p db) = t_lifecycle_guards db"
  "t_title_events (set_page p db) = t_title_events db"
  "t_move_events (set_page p db) = t_move_events db"
  "t_move_guards (set_page p db) = t_move_guards db"
  "t_append_guards (set_page p db) = t_append_guards db"
  "t_audits (set_page p db) = t_audits db" "t_master_audits (set_page p db) = t_master_audits db"
  "t_pages (set_page p db) = map (\<lambda>q. if page_key q = page_key p then p else q) (t_pages db)"
  by (simp_all add: set_page_def)

section \<open>Occurrence corrections\<close>

lemma write_correction_Inr:
  assumes w: "write_correction p g db = Inr (db', p', row)" and gk: "cg_key g = page_key p"
    and go: "cg_old_occurred_at g = pg_occurred_at p" and gt: "pg_updated_at p < cg_corrected_at g"
  obtains old where "old \<in> set (t_pages db)" "same_current p old" "pg_occurred_at old = pg_occurred_at p"
    "pg_deleted_at old = None" "cg_new_occurred_at g \<noteq> pg_occurred_at old"
    "cg_sequence g = next_sequence co_key (\<lambda>c. cg_sequence (co_guard c)) (page_key p) (t_corrections db)"
    "row = \<lparr>co_guard = g, co_at_revision_number = pg_current_revision_number old\<rparr>"
    "db' = (set_page (old\<lparr>pg_occurred_at := cg_new_occurred_at g, pg_updated_at := cg_corrected_at g\<rparr>) db)
       \<lparr>t_corrections := t_corrections db @ [row]\<rparr>"
    "p' = p\<lparr>pg_occurred_at := cg_new_occurred_at g, pg_updated_at := cg_corrected_at g\<rparr>"
proof -
  let ?f = "\<lambda>q. q\<lparr>pg_occurred_at := cg_new_occurred_at g, pg_updated_at := cg_corrected_at g\<rparr>"
  let ?c = "\<lambda>q. same_current p q \<and> pg_occurred_at q = pg_occurred_at p"
  let ?s = "cg_sequence g"
  obtain db1 n where i: "insert_correction_guard g db = Inr db1"
    and u: "update_pages ?c ?f db1 = Inr (db', n)" and n: "n = 1"
    and row: "find (\<lambda>x. co_key x = page_key p \<and> cg_sequence (co_guard x) = ?s) (t_corrections db') = Some row"
    and p': "p' = ?f p"
    using w unfolding write_correction_def Let_def
    by (auto simp: result_simps split: if_splits option.splits)
  obtain q where db1: "db1 = db\<lparr>t_correction_guards := t_correction_guards db @ [g]\<rparr>"
    and fresh: "\<not> list_ex (\<lambda>x. cg_key x = cg_key g) (t_correction_guards db)"
    and gc: "correction_guard_check g"
    and q: "q \<in> set (t_pages db)" "page_key q = cg_key g" "pg_occurred_at q = cg_old_occurred_at g"
      "pg_updated_at q < cg_corrected_at g"
      "?s = next_sequence co_key (\<lambda>c. cg_sequence (co_guard c)) (cg_key g) (t_corrections db)"
    using i by (auto simp: insert_correction_guard_def list_ex_iff split: if_splits)
  obtain old where o: "?c old" and ru: "row_updated db1 old (?f old) db'"
    using update_pages_Inr [OF u] n by auto
  have same: "same_revision old (?f old)" "same_place old (?f old)"
    by (simp_all add: same_revision_def same_place_def)
  have ok: "page_key old = page_key p" "pg_updated_at old = pg_updated_at p"
    using o by (auto simp: same_current_def)
  have r1: "record_occurrence old (?f old) (set_page (?f old) db1) = Inr db'"
    and b: "before_page_update db1 old (?f old)" and om: "old \<in> set (t_pages db)"
    using ru same by (auto simp: row_updated_def db1 result_simps)
  have ch: "cg_new_occurred_at g \<noteq> pg_occurred_at old"
    using gc go o by (auto simp: correction_guard_check_def)
  have fg: "find (\<lambda>x. cg_key x = page_key old) (t_correction_guards db1) = Some g"
    using find_append_fresh [OF fresh] by (simp add: db1 ok gk)
  have ff: "filter (\<lambda>x. cg_key x \<noteq> page_key old) (t_correction_guards db1) = t_correction_guards db"
    using filter_fresh [OF fresh] by (simp add: db1 ok gk)
  let ?row = "\<lparr>co_guard = g, co_at_revision_number = pg_current_revision_number old\<rparr>"
  have ge: "g\<lparr>cg_old_occurred_at := pg_occurred_at old, cg_new_occurred_at := cg_new_occurred_at g,
      cg_corrected_at := cg_corrected_at g\<rparr> = g"
    using go o by simp
  have nl: "\<not> list_ex (\<lambda>x. co_key x = page_key p \<and> cg_sequence (co_guard x) = ?s) (t_corrections db)"
    and "db' = (set_page (?f old) db1)\<lparr>t_corrections := t_corrections db @ [?row],
        t_correction_guards := t_correction_guards db\<rparr>"
    using r1 ch fg ff ge
    by (auto simp: record_occurrence_def Let_def co_key_def gk db1 split: if_splits)
  then have db': "db' = (set_page (?f old) db)\<lparr>t_corrections := t_corrections db @ [?row]\<rparr>"
    by (simp add: db1 set_page_def)
  have "find (\<lambda>x. co_key x = page_key p \<and> cg_sequence (co_guard x) = ?s)
      (t_corrections db @ [?row]) = Some ?row"
    using nl by (rule find_append_new) (simp add: co_key_def gk)
  then have "row = ?row" using row db' by simp
  moreover have "pg_deleted_at old = None"
    using b ch by (auto simp: before_page_update_def deleted_unchanged_def)
  ultimately show ?thesis
    using that [of old] o om ch q(5) gk db' p' by simp
qed

section \<open>Deletion and restoration\<close>

lemma write_lifecycle_Inr:
  assumes w: "write_lifecycle p g db = Inr (db', p', row)" and gk: "le_key g = page_key p"
    and go: "le_old_deleted_at g = pg_deleted_at p" "le_old_updated_at g = pg_updated_at p"
      "le_at_revision_number g = pg_current_revision_number p"
      "le_occurred_at_at_event g = pg_occurred_at p" "le_section_id g = pg_section_id p"
    and ga: "(le_action g = lit ''delete'') = (pg_deleted_at p = None)"
  obtains old where "old \<in> set (t_pages db)" "same_current p old" "pg_occurred_at old = pg_occurred_at p"
    "pg_section_id old = pg_section_id p" "pg_deleted_at old = pg_deleted_at p"
    "pg_updated_at old < le_changed_at g"
    "le_sequence g = next_sequence le_key le_sequence (page_key p) (t_lifecycle_events db)"
    "row = g" "lifecycle_check g"
    "db' = (set_page (old\<lparr>pg_deleted_at := (if le_action g = lit ''delete'' then Some (le_changed_at g) else None),
              pg_updated_at := le_changed_at g\<rparr>) db)
       \<lparr>t_lifecycle_events := t_lifecycle_events db @ [g]\<rparr>"
    "p' = p\<lparr>pg_deleted_at := (if le_action g = lit ''delete'' then Some (le_changed_at g) else None),
              pg_updated_at := le_changed_at g\<rparr>"
proof -
  let ?d = "if le_action g = lit ''delete'' then Some (le_changed_at g) else None"
  let ?f = "\<lambda>q. q\<lparr>pg_deleted_at := ?d, pg_updated_at := le_changed_at g\<rparr>"
  let ?c = "\<lambda>q. same_current p q \<and> pg_section_id q = pg_section_id p
     \<and> pg_page_type q = lit ''archive'' \<and> pg_deleted_at q = pg_deleted_at p
     \<and> pg_occurred_at q = pg_occurred_at p"
  obtain db1 n where i: "insert_lifecycle_guard g db = Inr db1"
    and u: "update_pages ?c ?f db1 = Inr (db', n)" and n: "n = 1"
    and row: "find (\<lambda>x. le_key x = page_key p \<and> le_sequence x = le_sequence g) (t_lifecycle_events db') = Some row"
    and p': "p' = ?f p"
    using w unfolding write_lifecycle_def Let_def
    by (auto simp: result_simps split: if_splits option.splits)
  obtain q where db1: "db1 = db\<lparr>t_lifecycle_guards := t_lifecycle_guards db @ [g]\<rparr>"
    and fresh: "\<not> list_ex (\<lambda>x. le_key x = le_key g) (t_lifecycle_guards db)"
    and gc: "lifecycle_check g"
    and q: "le_sequence g = next_sequence le_key le_sequence (le_key g) (t_lifecycle_events db)"
    using i by (auto simp: insert_lifecycle_guard_def list_ex_iff split: if_splits)
  obtain old where o: "?c old" and ru: "row_updated db1 old (?f old) db'"
    using update_pages_Inr [OF u] n by auto
  have same: "same_revision old (?f old)" "same_place old (?f old)"
    by (simp_all add: same_revision_def same_place_def)
  have ok: "page_key old = page_key p" "pg_updated_at old = pg_updated_at p"
    "pg_current_revision_number old = pg_current_revision_number p"
    using o by (auto simp: same_current_def)
  have r1: "record_lifecycle old (?f old) (set_page (?f old) db1) = Inr db'"
    and om: "old \<in> set (t_pages db)"
    using ru same by (auto simp: row_updated_def db1 result_simps)
  have gt: "pg_updated_at p < le_changed_at g" using gc go by (auto simp: lifecycle_check_def)
  have ch: "?d \<noteq> pg_deleted_at old" using o ga by auto
  have fg: "find (\<lambda>x. le_key x = page_key old) (t_lifecycle_guards db1) = Some g"
    using find_append_fresh [OF fresh] by (simp add: db1 ok gk)
  have ff: "filter (\<lambda>x. le_key x \<noteq> page_key old) (t_lifecycle_guards db1) = t_lifecycle_guards db"
    using filter_fresh [OF fresh] by (simp add: db1 ok gk)
  have ge: "g\<lparr>le_old_deleted_at := pg_deleted_at old, le_old_updated_at := pg_updated_at old,
      le_changed_at := le_changed_at g, le_at_revision_number := pg_current_revision_number old,
      le_occurred_at_at_event := pg_occurred_at old\<rparr> = g"
    using go o ok by simp
  have nl: "\<not> list_ex (\<lambda>x. le_key x = page_key p \<and> le_sequence x = le_sequence g) (t_lifecycle_events db)"
    and "db' = (set_page (?f old) db1)\<lparr>t_lifecycle_events := t_lifecycle_events db @ [g],
        t_lifecycle_guards := t_lifecycle_guards db\<rparr>"
    using r1 ch fg ff ge gk by (auto simp: record_lifecycle_def Let_def db1 split: if_splits)
  then have db': "db' = (set_page (?f old) db)\<lparr>t_lifecycle_events := t_lifecycle_events db @ [g]\<rparr>"
    by (simp add: db1 set_page_def)
  have "find (\<lambda>x. le_key x = page_key p \<and> le_sequence x = le_sequence g)
      (t_lifecycle_events db @ [g]) = Some g"
    using nl by (rule find_append_new) (simp add: gk)
  then have "row = g" using row db' by simp
  then show ?thesis
    using that [of old] o om q gk db' p' gt ok gc by simp
qed

section \<open>Titles\<close>

lemma update_page_title_Inr:
  assumes u: "update_page_title p title at db = Inr (db', Some p')" and ch: "title \<noteq> pg_title p"
  obtains old e a where "old \<in> set (t_pages db)" "same_current p old" "pg_title old = pg_title p"
    "pg_deleted_at old = None" "pg_updated_at old < at"
    "te_key e = page_key p" "te_old_title e = pg_title p" "te_new_title e = title"
    "te_old_updated_at e = pg_updated_at p" "te_changed_at e = at"
    "te_at_revision_number e = pg_current_revision_number p"
    "te_sequence e = next_sequence te_key te_sequence (page_key p) (t_title_events db)"
    "db' = (set_page (old\<lparr>pg_title := title, pg_updated_at := at\<rparr>) db)
       \<lparr>t_title_events := t_title_events db @ [e]\<rparr>"
    "p' = p\<lparr>pg_title := title, pg_updated_at := at\<rparr>"
proof -
  let ?f = "\<lambda>q. q\<lparr>pg_title := title, pg_updated_at := at\<rparr>"
  let ?c = "\<lambda>q. same_current p q \<and> pg_section_id q = pg_section_id p \<and> pg_book_id q = pg_book_id p
     \<and> pg_page_id q = pg_page_id p \<and> pg_title q = pg_title p \<and> pg_deleted_at q = None"
  obtain n where u': "update_pages ?c ?f db = Inr (db', n)" and n: "n = 1" and p': "p' = ?f p"
    using u unfolding update_page_title_def by (auto simp: result_simps split: if_splits)
  obtain old where o: "?c old" and ru: "row_updated db old (?f old) db'"
    using update_pages_Inr [OF u'] n by auto
  have same: "same_revision old (?f old)" "same_place old (?f old)"
    by (simp_all add: same_revision_def same_place_def)
  have r1: "record_title old (?f old) (set_page (?f old) db) = Inr db'"
    and b: "title_audited db old (?f old)" and om: "old \<in> set (t_pages db)"
    using ru same by (auto simp: row_updated_def before_page_update_def result_simps)
  have ok: "page_key old = page_key p" "pg_updated_at old = pg_updated_at p"
    "pg_current_revision_number old = pg_current_revision_number p"
    using o by (auto simp: same_current_def)
  have "length (title_audits db old (?f old)) = 1" and gt: "pg_updated_at old < at"
    using b ch o by (auto simp: title_audited_def)
  moreover have "title_audits (set_page (?f old) db) old (?f old) = title_audits db old (?f old)"
    by (simp add: title_audits_def)
  ultimately obtain a where a: "title_audits (set_page (?f old) db) old (?f old) = [a]"
    by (auto simp: length_Suc_conv)
  define e where "e = \<lparr>te_library_id = pg_library_id old, te_page_uid = pg_page_uid old,
     te_sequence = next_sequence te_key te_sequence (page_key old) (t_title_events db),
     te_old_title = pg_title old, te_new_title = title, te_old_updated_at = pg_updated_at old,
     te_changed_at = at, te_at_revision_number = pg_current_revision_number old,
     te_master_audit_event_id = ma_id a\<rparr>"
  have "db' = (set_page (?f old) db)\<lparr>t_title_events := t_title_events db @ [e]\<rparr>"
    using r1 ch o a by (auto simp: record_title_def Let_def e_def split: if_splits)
  moreover have "te_key e = page_key p" using ok(1) by (simp add: e_def te_key_def page_key_def)
  ultimately show ?thesis
    using that [of old e] o om ok gt p' by (simp add: e_def)
qed

section \<open>Moves\<close>

lemma write_move_Inr:
  assumes w: "write_move p g db = Inr db'" and gk: "me_key g = page_key p"
    and go: "me_old_section_id g = pg_section_id p" "me_old_book_id g = pg_book_id p"
      "me_old_updated_at g = pg_updated_at p" "me_at_revision_id g = pg_current_revision_id p"
      "me_at_revision_number g = pg_current_revision_number p"
      "me_occurred_at_at_event g = pg_occurred_at p"
    and di: "distinct (map page_key (t_pages db))"
  obtains old where "old \<in> set (t_pages db)" "page_key old = page_key p"
    "pg_section_id old = pg_section_id p" "pg_book_id old = pg_book_id p"
    "pg_updated_at old = pg_updated_at p" "pg_deleted_at old = None"
    "pg_current_revision_id old = pg_current_revision_id p"
    "pg_current_revision_number old = pg_current_revision_number p"
    "pg_occurred_at old = pg_occurred_at p"
    "me_sequence g = next_sequence me_key me_sequence (page_key p) (t_move_events db)"
    "move_check g" "move_audit_ok db g (pg_page_id old)"
    "book_exists db (me_library_id g) (me_new_section_id g) (me_new_book_id g)"
    "db' = (set_page (old\<lparr>pg_section_id := me_new_section_id g, pg_book_id := me_new_book_id g,
              pg_updated_at := me_changed_at g\<rparr>) db)
       \<lparr>t_move_events := t_move_events db @ [g]\<rparr>"
proof -
  let ?f = "\<lambda>q. q\<lparr>pg_section_id := me_new_section_id g, pg_book_id := me_new_book_id g,
     pg_updated_at := me_changed_at g\<rparr>"
  let ?c = "\<lambda>q. page_key q = page_key p \<and> pg_section_id q = pg_section_id p
     \<and> pg_book_id q = pg_book_id p \<and> pg_updated_at q = pg_updated_at p \<and> pg_deleted_at q = None"
  obtain db1 n where i: "insert_move_guard g db = Inr db1"
    and u: "update_pages ?c ?f db1 = Inr (db', n)" and n: "n = 1"
    using w unfolding write_move_def by (auto simp: result_simps split: if_splits)
  have db1: "db1 = db\<lparr>t_move_guards := t_move_guards db @ [g]\<rparr>"
    and fresh: "\<not> list_ex (\<lambda>x. me_key x = me_key g) (t_move_guards db)"
    and gc: "move_check g"
    and bk: "book_exists db (me_library_id g) (me_new_section_id g) (me_new_book_id g)"
    using i by (auto simp: insert_move_guard_def split: if_splits)
  have "list_ex (\<lambda>q. page_key q = me_key g
      \<and> me_sequence g = next_sequence me_key me_sequence (me_key g) (t_move_events db)
      \<and> move_audit_ok db g (pg_page_id q)) (t_pages db)"
    using i by (auto simp: insert_move_guard_def list_ex_iff split: if_splits)
  then obtain q where q: "q \<in> set (t_pages db)" "page_key q = me_key g"
    and sq: "me_sequence g = next_sequence me_key me_sequence (me_key g) (t_move_events db)"
    and au: "move_audit_ok db g (pg_page_id q)"
    by (auto simp: list_ex_iff)
  obtain old where o: "?c old" and ru: "row_updated db1 old (?f old) db'"
    using update_pages_Inr [OF u] n by auto
  have same: "same_revision old (?f old)" by (simp add: same_revision_def)
  have r1: "record_move old (?f old) (set_page (?f old) db1) = Inr db'"
    and b: "move_guarded db1 old (?f old)" and om: "old \<in> set (t_pages db)"
    using ru same by (auto simp: row_updated_def before_page_update_def db1 result_simps)
  have ch: "\<not> same_place old (?f old)"
    using gc go o by (auto simp: move_check_def same_place_def)
  have fg: "find (\<lambda>x. me_key x = page_key old) (t_move_guards db1) = Some g"
    using find_append_fresh [OF fresh] o by (simp add: db1 gk)
  have ff: "filter (\<lambda>x. me_key x \<noteq> page_key old) (t_move_guards db1) = t_move_guards db"
    using filter_fresh [OF fresh] o by (simp add: db1 gk)
  have ok: "move_event_ok (?f old) g"
    and "db' = (set_page (?f old) db1)\<lparr>t_move_events := t_move_events db @ [g],
        t_move_guards := t_move_guards db\<rparr>"
    using r1 ch fg ff by (auto simp: record_move_def Let_def db1 split: if_splits)
  then have "db' = (set_page (?f old) db)\<lparr>t_move_events := t_move_events db @ [g]\<rparr>"
    by (simp add: db1 set_page_def)
  moreover have "pg_current_revision_id old = pg_current_revision_id p"
    "pg_current_revision_number old = pg_current_revision_number p"
    "pg_occurred_at old = pg_occurred_at p"
    using ok go by (auto simp: move_event_ok_def)
  moreover have "q = old"
    using di q om o gk by (auto simp: distinct_map inj_on_def)
  ultimately show ?thesis
    using that [of old] o om gk gc bk sq au by simp
qed

section \<open>Revisions\<close>

text \<open>Inserting a Revision touches the Revision, its file tables and, from the second on, the
  append guard of its page; nothing else.\<close>

definition file_tables_only :: "content_db \<Rightarrow> content_db \<Rightarrow> bool" where
  "file_tables_only db db' \<longleftrightarrow>
     db' = db\<lparr>t_file_sets := t_file_sets db', t_files := t_files db', t_seals := t_seals db',
             t_seal_guards := t_seal_guards db'\<rparr>"

lemma file_tables_only_refl: "file_tables_only db db"
  by (simp add: file_tables_only_def)

lemma file_tables_only_tables:
  assumes "file_tables_only db db'"
  shows "t_books db' = t_books db" "t_pages db' = t_pages db" "t_revisions db' = t_revisions db"
    "t_corrections db' = t_corrections db" "t_correction_guards db' = t_correction_guards db"
    "t_lifecycle_events db' = t_lifecycle_events db"
    "t_lifecycle_guards db' = t_lifecycle_guards db" "t_title_events db' = t_title_events db"
    "t_move_events db' = t_move_events db" "t_move_guards db' = t_move_guards db"
    "t_append_guards db' = t_append_guards db" "t_audits db' = t_audits db"
    "t_master_audits db' = t_master_audits db" "t_identifiers db' = t_identifiers db"
proof -
  have e: "db' = db\<lparr>t_file_sets := t_file_sets db', t_files := t_files db', t_seals := t_seals db',
      t_seal_guards := t_seal_guards db'\<rparr>" using assms by (simp only: file_tables_only_def)
  show "t_books db' = t_books db" using arg_cong [OF e, of t_books] by simp
  show "t_pages db' = t_pages db" using arg_cong [OF e, of t_pages] by simp
  show "t_revisions db' = t_revisions db" using arg_cong [OF e, of t_revisions] by simp
  show "t_corrections db' = t_corrections db" using arg_cong [OF e, of t_corrections] by simp
  show "t_correction_guards db' = t_correction_guards db" using arg_cong [OF e, of t_correction_guards] by simp
  show "t_lifecycle_events db' = t_lifecycle_events db" using arg_cong [OF e, of t_lifecycle_events] by simp
  show "t_lifecycle_guards db' = t_lifecycle_guards db" using arg_cong [OF e, of t_lifecycle_guards] by simp
  show "t_title_events db' = t_title_events db" using arg_cong [OF e, of t_title_events] by simp
  show "t_move_events db' = t_move_events db" using arg_cong [OF e, of t_move_events] by simp
  show "t_move_guards db' = t_move_guards db" using arg_cong [OF e, of t_move_guards] by simp
  show "t_append_guards db' = t_append_guards db" using arg_cong [OF e, of t_append_guards] by simp
  show "t_audits db' = t_audits db" using arg_cong [OF e, of t_audits] by simp
  show "t_master_audits db' = t_master_audits db" using arg_cong [OF e, of t_master_audits] by simp
  show "t_identifiers db' = t_identifiers db" using arg_cong [OF e, of t_identifiers] by simp
qed

lemma insert_seal_tables: "insert_seal k db = Inr db' \<Longrightarrow> file_tables_only db db'"
  by (auto simp: insert_seal_def file_tables_only_def split: if_splits)

lemma insert_file_set_tables: "insert_file_set m db = Inr db' \<Longrightarrow> file_tables_only db db'"
  by (auto simp: insert_file_set_def file_tables_only_def split: if_splits)

lemma insert_file_tables: "insert_file f db = Inr db' \<Longrightarrow> file_tables_only db db'"
  by (auto simp: insert_file_def insert_seal_def file_tables_only_def Let_def split: if_splits)

lemma file_tables_only_trans:
  "file_tables_only db db' \<Longrightarrow> file_tables_only db' db'' \<Longrightarrow> file_tables_only db db''"
  by (cases db; cases db'; cases db'') (auto simp: file_tables_only_def)

lemma insert_files_tables: "insert_files fs db = Inr db' \<Longrightarrow> file_tables_only db db'"
proof (induction fs arbitrary: db)
  case Nil
  then show ?case by (simp add: file_tables_only_refl)
next
  case (Cons f fs)
  then show ?case
    using insert_file_tables file_tables_only_trans by (fastforce simp: result_simps)
qed

lemma mirror_tables: "mirror_content_file r db = Inr db' \<Longrightarrow> file_tables_only db db'"
  using insert_file_set_tables insert_file_tables file_tables_only_trans
  by (fastforce simp: mirror_content_file_def result_simps file_tables_only_refl
      split: option.splits)

lemma insert_revision_Inr:
  assumes "insert_revision r db = Inr db'"
  shows "file_tables_only (db\<lparr>t_revisions := t_revisions db @ [r],
      t_append_guards := (if rv_revision_number r > 1 then t_append_guards db @ [rev_key r]
        else t_append_guards db)\<rparr>) db'"
    and "revision_sequential r db" "revision_check r"
    and "\<not> list_ex (\<lambda>x. rev_page_key x = rev_page_key r \<and> rv_revision_number x = rv_revision_number r)
      (t_revisions db)"
proof -
  let ?db2 = "db\<lparr>t_revisions := t_revisions db @ [r],
      t_append_guards := (if rv_revision_number r > 1 then t_append_guards db @ [rev_key r]
        else t_append_guards db)\<rparr>"
  obtain db3 where m: "mirror_content_file r ?db2 = Inr db3"
    and d: "db' = db3\<lparr>t_seal_guards := t_seal_guards db3 @ [rev_key r]\<rparr>"
    using assms by (auto simp: insert_revision_def Let_def result_simps split: if_splits)
  have "file_tables_only db3 db'" by (simp add: d file_tables_only_def)
  then show "file_tables_only ?db2 db'" using mirror_tables [OF m] file_tables_only_trans by blast
  show "revision_sequential r db" "revision_check r"
    "\<not> list_ex (\<lambda>x. rev_page_key x = rev_page_key r \<and> rv_revision_number x = rv_revision_number r)
      (t_revisions db)"
    using assms by (auto simp: insert_revision_def split: if_splits)
qed

text \<open>Advancing the page to a Revision whose guard waits; every other guard stays.\<close>

lemma advance_update_Inr:
  assumes u: "update_pages (\<lambda>q. same_current p q \<and> pg_occurred_at q = pg_occurred_at p
        \<and> pg_deleted_at q = None)
      (\<lambda>q. q\<lparr>pg_current_revision_id := rid, pg_current_revision_number := n, pg_updated_at := at\<rparr>) db
     = Inr (db', 1)"
    and ch: "n \<noteq> pg_current_revision_number p"
  obtains old where "old \<in> set (t_pages db)" "same_current p old" "pg_occurred_at old = pg_occurred_at p"
    "pg_deleted_at old = None" "n = pg_current_revision_number p + 1"
    "(pg_library_id p, pg_page_uid p, rid, n) \<in> set (t_append_guards db)"
    "db' = (set_page (old\<lparr>pg_current_revision_id := rid, pg_current_revision_number := n,
              pg_updated_at := at\<rparr>) db)
       \<lparr>t_append_guards := filter (\<lambda>k. k \<noteq> (pg_library_id p, pg_page_uid p, rid, n)) (t_append_guards db)\<rparr>"
proof -
  let ?f = "\<lambda>q. q\<lparr>pg_current_revision_id := rid, pg_current_revision_number := n, pg_updated_at := at\<rparr>"
  let ?c = "\<lambda>q. same_current p q \<and> pg_occurred_at q = pg_occurred_at p \<and> pg_deleted_at q = None"
  obtain old where o: "?c old" and ru: "row_updated db old (?f old) db'"
    using update_pages_Inr [OF u] by auto
  have same: "same_place old (?f old)" by (simp add: same_place_def)
  have ok: "pg_library_id old = pg_library_id p" "pg_page_uid old = pg_page_uid p"
    "pg_current_revision_number old = pg_current_revision_number p"
    using o by (auto simp: same_current_def page_key_def)
  have nr: "\<not> same_revision old (?f old)" using ch ok by (simp add: same_revision_def)
  have r1: "db' = clear_append_guard old (?f old) (set_page (?f old) db)"
    and b: "revision_advance_ok db old (?f old)" and om: "old \<in> set (t_pages db)"
    using ru same by (auto simp: row_updated_def before_page_update_def result_simps)
  have g: "n = pg_current_revision_number p + 1"
    "(pg_library_id p, pg_page_uid p, rid, n) \<in> set (t_append_guards db)"
    using b nr ok unfolding revision_advance_ok_def by auto
  have d: "db' = (set_page (?f old) db)\<lparr>t_append_guards := filter
      (\<lambda>k. k \<noteq> (pg_library_id p, pg_page_uid p, rid, n)) (t_append_guards db)\<rparr>"
    using r1 nr ok by (simp add: clear_append_guard_def)
  show ?thesis by (rule that [OF om _ _ _ g d]) (use o in auto)
qed

end
