(* ===== verification/HistoryInvariant.thy ===== *)
theory HistoryInvariant
  imports PageMutations
begin

text \<open>
  The invariant behind the reconstruction of a page's history: for every page the loader
  succeeds, and the states it returns are those the page had, in order. One lemma says what a
  mutation has to establish to extend a history by one state, one that statements on other rows
  keep it.
\<close>

section \<open>Sorting with a new largest key\<close>

lemma sort_key_snoc:
  assumes "\<forall>y \<in> set xs. f y \<le> (f x :: int)"
  shows "sort_key f (xs @ [x]) = sort_key f xs @ [x]"
proof (rule properties_for_sort_key)
  show "mset (sort_key f xs @ [x]) = mset (xs @ [x])" by simp
  show "filter (\<lambda>y. f z = f y) (sort_key f xs @ [x]) = filter (\<lambda>y. f z = f y) (xs @ [x])" for z
    using sort_key_stable [of f "f z" xs] by (simp add: eq_commute [of "f z"])
  show "sorted (map f (sort_key f xs @ [x]))"
    using assms by (auto simp: sorted_append)
qed

lemma sort_key_insert_last:
  assumes m: "mset ys = mset xs + {#x#}" and s: "sorted_wrt (<) (map f (sort_key f xs))"
    and l: "\<forall>y \<in> set xs. f y < (f x :: int)"
  shows "sort_key f ys = sort_key f xs @ [x]"
proof (rule sort_key_inj_key_eq)
  show "mset ys = mset (sort_key f xs @ [x])" using m by simp
  have st: "sorted_wrt (<) (map f (sort_key f xs @ [x]))"
    using s l by (auto simp: sorted_wrt_append)
  then have "distinct (map f (sort_key f xs @ [x]))" by (simp only: strict_sorted_iff)
  then have "inj_on f (set (sort_key f xs @ [x]))" unfolding distinct_map by blast
  moreover have "set ys = set (sort_key f xs @ [x])" using m by (metis mset_append mset_single_iff
        set_mset_mset \<open>mset ys = mset (sort_key f xs @ [x])\<close>)
  ultimately show "inj_on f (set ys)" by simp
  show "sorted (map f (sort_key f xs @ [x]))" using st by (simp add: strict_sorted_imp_sorted)
qed

lemma foldr_max_snoc: "0 \<le> (s :: int) \<Longrightarrow> foldr max (xs @ [s]) 0 = max (foldr max xs 0) s"
  by (induction xs) auto

lemma foldr_max_ge: "(x :: int) \<in> set xs \<Longrightarrow> x \<le> foldr max xs 0"
  by (induction xs) auto

lemma foldr_max_nonneg: "0 \<le> foldr max xs (0 :: int)"
  by (induction xs) auto

lemma foldr_max_base: "0 \<le> (s :: int) \<Longrightarrow> foldr max xs s = max (foldr max xs 0) s"
  by (induction xs) auto

lemma next_sequence_snoc:
  assumes "key r = k" "seq r = next_sequence key seq k rows"
  shows "next_sequence key seq k (rows @ [r]) = seq r + 1"
proof -
  define m where "m = foldr max (map seq (filter (\<lambda>r. key r = k) rows)) 0"
  have "0 \<le> m" by (simp only: m_def foldr_max_nonneg)
  moreover have s: "seq r = m + 1" using assms(2) by (simp only: m_def next_sequence_def)
  ultimately have "foldr max (map seq (filter (\<lambda>r. key r = k) rows)) (seq r) = m + 1"
    using foldr_max_base [of "seq r" "map seq (filter (\<lambda>r. key r = k) rows)"]
    by (simp add: m_def [symmetric])
  then show ?thesis using assms(1) s \<open>0 \<le> m\<close> by (simp add: next_sequence_def)
qed

lemma next_sequence_greater:
  "r \<in> set rows \<Longrightarrow> key r = k \<Longrightarrow> seq r < next_sequence key seq k rows"
  using foldr_max_ge [of "seq r" "map seq (filter (\<lambda>r. key r = k) rows)"]
  by (auto simp: next_sequence_def)

lemma sorted_rows_snoc:
  assumes "key r = k" "seq r = next_sequence key seq k rows"
  shows "sort_key seq (filter (\<lambda>r. key r = k) (rows @ [r]))
    = sort_key seq (filter (\<lambda>r. key r = k) rows) @ [r]"
proof -
  have "\<forall>y \<in> set (filter (\<lambda>r. key r = k) rows). seq y \<le> seq r"
    using next_sequence_greater [of _ rows key k seq] assms by fastforce
  from sort_key_snoc [OF this] show ?thesis using assms by simp
qed

section \<open>Replay\<close>

lemma apply_operation_time:
  "apply_operation db k i (s, q) x = Inr (s', q') \<Longrightarrow> ps_updated_at s < op_time x \<and> ps_updated_at s' = op_time x"
  by (cases x) (auto simp: Let_def split: if_splits)

lemma replay_times:
  assumes "replay db k i (s, q) xs = Inr (states, f, q')"
  shows "sorted_wrt (<) (map op_time xs)"
    and "\<forall>x \<in> set xs. ps_updated_at s < op_time x \<and> op_time x \<le> ps_updated_at f"
    and "ps_updated_at s \<le> ps_updated_at f" and "map ps_updated_at states = map op_time xs"
    and "last (s # states) = f"
proof -
  have "sorted_wrt (<) (map op_time xs)
    \<and> (\<forall>x \<in> set xs. ps_updated_at s < op_time x \<and> op_time x \<le> ps_updated_at f)
    \<and> ps_updated_at s \<le> ps_updated_at f \<and> map ps_updated_at states = map op_time xs
    \<and> last (s # states) = f"
    using assms
  proof (induction xs arbitrary: s q states)
    case Nil
    then show ?case by simp
  next
    case (Cons x xs)
    obtain s1 q1 st where a: "apply_operation db k i (s, q) x = Inr (s1, q1)"
      and r: "replay db k i (s1, q1) xs = Inr (st, f, q')" and st: "states = s1 # st"
      using Cons.prems by (auto simp: result_simps)
    have "ps_updated_at s < op_time x \<and> ps_updated_at s1 = op_time x"
      using apply_operation_time [OF a] .
    then show ?case using Cons.IH [OF r] st by fastforce
  qed
  then show "sorted_wrt (<) (map op_time xs)"
    "\<forall>x \<in> set xs. ps_updated_at s < op_time x \<and> op_time x \<le> ps_updated_at f"
    "ps_updated_at s \<le> ps_updated_at f" "map ps_updated_at states = map op_time xs"
    "last (s # states) = f" by blast+
qed

lemma replay_snoc:
  "replay db k i sq xs = Inr (states, s1, q1) \<Longrightarrow> apply_operation db k i (s1, q1) x = Inr (s2, q2)
    \<Longrightarrow> replay db k i sq (xs @ [x]) = Inr (states @ [s2], s2, q2)"
  by (induction xs arbitrary: sq states) (auto simp: result_simps)

definition audits_kept :: "content_db \<Rightarrow> content_db \<Rightarrow> page_key \<Rightarrow> pystr \<Rightarrow> bool" where
  "audits_kept db db' k i \<longleftrightarrow> (\<forall>e. move_audited db k i e \<longrightarrow> move_audited db' k i e)"

lemma apply_operation_audits:
  "audits_kept db db' k i \<Longrightarrow> apply_operation db k i sq x = Inr r \<Longrightarrow> apply_operation db' k i sq x = Inr r"
  by (cases sq; cases x) (auto simp: audits_kept_def split: if_splits)

lemma replay_audits:
  "audits_kept db db' k i \<Longrightarrow> replay db k i sq xs = Inr r \<Longrightarrow> replay db' k i sq xs = Inr r"
proof (induction xs arbitrary: sq r)
  case Nil
  then show ?case by simp
next
  case (Cons x xs)
  obtain sq1 st f where a: "apply_operation db k i sq x = Inr sq1"
    and rp: "replay db k i sq1 xs = Inr (st, f)" and r: "r = (fst sq1 # st, f)"
    using Cons.prems(2) by (auto simp: result_simps)
  show ?case
    using apply_operation_audits [OF Cons.prems(1) a] Cons.IH [OF Cons.prems(1) rp] r by simp
qed

section \<open>The history of a page\<close>

definition seq_linked :: "content_db \<Rightarrow> page_key \<Rightarrow> sequences \<Rightarrow> bool" where
  "seq_linked db k q \<longleftrightarrow>
     next_sequence co_key (\<lambda>c. cg_sequence (co_guard c)) k (t_corrections db) = sq_correction q + 1
     \<and> next_sequence le_key le_sequence k (t_lifecycle_events db) = sq_lifecycle q + 1
     \<and> next_sequence te_key te_sequence k (t_title_events db) = sq_title q + 1
     \<and> next_sequence me_key me_sequence k (t_move_events db) = sq_move q + 1"

definition page_ops :: "content_db \<Rightarrow> pystr \<Rightarrow> page_key \<Rightarrow> operation list" where
  "page_ops db schema k = operations_of (revisions_of db k) (corrections_of db k) (lifecycle_of db k)
     (titles_of db schema k) (moves_of db schema k)"

definition first_state :: "content_db \<Rightarrow> pystr \<Rightarrow> page_key \<Rightarrow> page \<Rightarrow> page_state" where
  "first_state db schema k p = initial_state p (hd (revisions_of db k)) (corrections_of db k)
     (titles_of db schema k) (moves_of db schema k)"

text \<open>\<open>history db schema k p tr\<close>: the row of \<open>k\<close> is \<open>p\<close> and its history is \<open>tr\<close>.\<close>

definition history :: "content_db \<Rightarrow> pystr \<Rightarrow> page_key \<Rightarrow> page \<Rightarrow> page_state list \<Rightarrow> bool" where
  "history db schema k p tr \<longleftrightarrow>
     filter (\<lambda>p. page_key p = k) (t_pages db) = [p]
     \<and> revisions_of db k \<noteq> [] \<and> rv_revision_number (hd (revisions_of db k)) = 1
     \<and> rv_created_at (hd (revisions_of db k)) = pg_created_at p
     \<and> no_guards db schema k
     \<and> (\<exists>states q. replay db k (pg_page_id p) (first_state db schema k p, no_sequences)
            (sort_key op_time (page_ops db schema k)) = Inr (states, state_of_page p, q)
          \<and> tr = first_state db schema k p # states \<and> seq_linked db k q)
     \<and> list_all (single_book db (fst k)) tr"

lemma history_loads:
  assumes "history db schema k p tr"
  shows "load_page_state_timeline db schema k =
    Inr \<lparr>tl_library_id = fst k, tl_page_uid = snd k, tl_page_id = pg_page_id p, tl_states = tr\<rparr>"
proof -
  obtain first rest where r: "revisions_of db k = first # rest"
    using assms by (auto simp: history_def neq_Nil_conv)
  obtain states q where rp: "replay db k (pg_page_id p) (first_state db schema k p, no_sequences)
            (sort_key op_time (page_ops db schema k)) = Inr (states, state_of_page p, q)"
    and tr: "tr = first_state db schema k p # states"
    using assms by (auto simp: history_def)
  show ?thesis
    using assms r rp tr
    by (simp add: load_page_state_timeline_def history_def require_history_def first_state_def
        page_ops_def)
qed

lemma history_last: "history db schema k p tr \<Longrightarrow> tr \<noteq> [] \<and> last tr = state_of_page p"
  using replay_times(5) by (fastforce simp: history_def)

lemma history_times:
  assumes "history db schema k p tr"
  shows "sorted_wrt (<) (map ps_updated_at tr)"
proof -
  obtain states q where rp: "replay db k (pg_page_id p) (first_state db schema k p, no_sequences)
            (sort_key op_time (page_ops db schema k)) = Inr (states, state_of_page p, q)"
    and tr: "tr = first_state db schema k p # states"
    using assms by (auto simp: history_def)
  note t = replay_times [OF rp]
  have "\<forall>x \<in> set (map ps_updated_at states). ps_updated_at (first_state db schema k p) < x"
    unfolding t(4) using t(2) by auto
  then show ?thesis using t(1) unfolding tr by (simp add: t(4) [symmetric])
qed

text \<open>What a mutation establishes to extend the history by the state of the new row.\<close>

lemma history_extend:
  assumes h: "history db schema k p tr"
    and pg: "filter (\<lambda>p. page_key p = k) (t_pages db') = [p']"
    and same: "pg_page_id p' = pg_page_id p" "pg_created_at p' = pg_created_at p"
    and rev: "revisions_of db' k \<noteq> []" "hd (revisions_of db' k) = hd (revisions_of db k)"
    and fs: "first_state db' schema k p' = first_state db schema k p"
    and ops: "mset (page_ops db' schema k) = mset (page_ops db schema k) + {#x#}"
    and ap: "\<And>q. seq_linked db k q \<Longrightarrow> \<exists>q'. seq_linked db' k q'
      \<and> apply_operation db' k (pg_page_id p) (state_of_page p, q) x = Inr (state_of_page p', q')"
    and au: "audits_kept db db' k (pg_page_id p)"
    and ng: "no_guards db' schema k"
    and bk: "\<And>s. single_book db (fst k) s \<Longrightarrow> single_book db' (fst k) s"
      "single_book db' (fst k) (state_of_page p')"
  shows "history db' schema k p' (tr @ [state_of_page p'])"
proof -
  obtain states q where rp: "replay db k (pg_page_id p) (first_state db schema k p, no_sequences)
            (sort_key op_time (page_ops db schema k)) = Inr (states, state_of_page p, q)"
    and tr: "tr = first_state db schema k p # states" and sl: "seq_linked db k q"
    using h by (auto simp: history_def)
  obtain q' where sl': "seq_linked db' k q'"
    and a: "apply_operation db' k (pg_page_id p) (state_of_page p, q) x = Inr (state_of_page p', q')"
    using ap [OF sl] by blast
  note t = replay_times [OF rp]
  have "\<forall>y \<in> set (page_ops db schema k). op_time y < op_time x"
    using t(2) apply_operation_time [OF a] by force
  then have "sort_key op_time (page_ops db' schema k) = sort_key op_time (page_ops db schema k) @ [x]"
    using sort_key_insert_last [OF ops] t(1) by blast
  then have "replay db' k (pg_page_id p) (first_state db schema k p, no_sequences)
      (sort_key op_time (page_ops db' schema k)) = Inr (states @ [state_of_page p'], state_of_page p', q')"
    using replay_snoc [OF replay_audits [OF au rp] a] by simp
  then show ?thesis
    using h pg same rev fs sl' ng bk tr by (auto simp: history_def list_all_iff)
qed

text \<open>What the other statements keep.\<close>

definition rows_kept :: "content_db \<Rightarrow> content_db \<Rightarrow> page_key \<Rightarrow> bool" where
  "rows_kept db db' k \<longleftrightarrow>
     filter (\<lambda>p. page_key p = k) (t_pages db') = filter (\<lambda>p. page_key p = k) (t_pages db)
     \<and> filter (\<lambda>r. rev_page_key r = k) (t_revisions db') = filter (\<lambda>r. rev_page_key r = k) (t_revisions db)
     \<and> filter (\<lambda>c. co_key c = k) (t_corrections db') = filter (\<lambda>c. co_key c = k) (t_corrections db)
     \<and> filter (\<lambda>e. le_key e = k) (t_lifecycle_events db') = filter (\<lambda>e. le_key e = k) (t_lifecycle_events db)
     \<and> filter (\<lambda>e. te_key e = k) (t_title_events db') = filter (\<lambda>e. te_key e = k) (t_title_events db)
     \<and> filter (\<lambda>e. me_key e = k) (t_move_events db') = filter (\<lambda>e. me_key e = k) (t_move_events db)
     \<and> (\<forall>schema. no_guards db schema k \<longrightarrow> no_guards db' schema k)"

definition books_kept :: "content_db \<Rightarrow> content_db \<Rightarrow> bool" where
  "books_kept db db' \<longleftrightarrow> (\<forall>l s. single_book db l s \<longrightarrow> single_book db' l s)"

lemma next_sequence_filter:
  "filter (\<lambda>r. key r = k) rows = filter (\<lambda>r. key r = k) rows' \<Longrightarrow>
    next_sequence key seq k rows = next_sequence key seq k rows'"
  by (simp add: next_sequence_def)

lemma rows_kept_views:
  assumes "rows_kept db db' k"
  shows "revisions_of db' k = revisions_of db k" "corrections_of db' k = corrections_of db k"
    "lifecycle_of db' k = lifecycle_of db k" "titles_of db' schema k = titles_of db schema k"
    "moves_of db' schema k = moves_of db schema k" "seq_linked db k q \<Longrightarrow> seq_linked db' k q"
  using assms next_sequence_filter [of co_key k "t_corrections db'" "t_corrections db"]
    next_sequence_filter [of le_key k "t_lifecycle_events db'" "t_lifecycle_events db"]
    next_sequence_filter [of te_key k "t_title_events db'" "t_title_events db"]
    next_sequence_filter [of me_key k "t_move_events db'" "t_move_events db"]
  by (simp_all add: rows_kept_def revisions_of_def corrections_of_def lifecycle_of_def titles_of_def
      moves_of_def seq_linked_def)

lemma history_kept:
  assumes "history db schema k p tr" "rows_kept db db' k" "audits_kept db db' k (pg_page_id p)"
    "books_kept db db'"
  shows "history db' schema k p tr"
proof -
  note v = rows_kept_views [OF assms(2)]
  have "page_ops db' schema k = page_ops db schema k" "first_state db' schema k p = first_state db schema k p"
    by (simp_all add: page_ops_def first_state_def v)
  moreover obtain states q where "replay db k (pg_page_id p) (first_state db schema k p, no_sequences)
            (sort_key op_time (page_ops db schema k)) = Inr (states, state_of_page p, q)"
    "tr = first_state db schema k p # states" "seq_linked db k q"
    using assms(1) by (auto simp: history_def)
  moreover note replay_audits [OF assms(3), of "(first_state db schema k p, no_sequences)"
      "sort_key op_time (page_ops db schema k)" "(states, state_of_page p, q)"]
  ultimately show ?thesis
    using assms v(6) [of q] by (auto simp: history_def v(1) rows_kept_def books_kept_def list_all_iff)
qed

section \<open>The store between transactions\<close>

definition rows_owned :: "content_db \<Rightarrow> bool" where
  "rows_owned db \<longleftrightarrow>
     list_all (\<lambda>r. page_exists db (rev_page_key r)) (t_revisions db)
     \<and> list_all (\<lambda>c. page_exists db (co_key c)) (t_corrections db)
     \<and> list_all (\<lambda>e. page_exists db (le_key e)) (t_lifecycle_events db)
     \<and> list_all (\<lambda>e. page_exists db (te_key e)) (t_title_events db)
     \<and> list_all (\<lambda>e. page_exists db (me_key e)) (t_move_events db)"

definition guards_clear :: "content_db \<Rightarrow> bool" where
  "guards_clear db \<longleftrightarrow>
     t_correction_guards db = [] \<and> t_lifecycle_guards db = [] \<and> t_move_guards db = []
     \<and> t_append_guards db = []"

definition keys_distinct :: "content_db \<Rightarrow> bool" where
  "keys_distinct db \<longleftrightarrow>
     distinct (map page_key (t_pages db)) \<and> distinct (map bk_id (t_books db))
     \<and> distinct (map au_id (t_audits db)) \<and> distinct (map ma_id (t_master_audits db))"

definition store_ok :: "content_db \<Rightarrow> pystr \<Rightarrow> (page_key \<Rightarrow> page_state list) \<Rightarrow> bool" where
  "store_ok db schema tr \<longleftrightarrow>
     rows_owned db \<and> guards_clear db \<and> keys_distinct db
     \<and> (\<forall>p \<in> set (t_pages db). history db schema (page_key p) p (tr (page_key p)))"

lemma single_row:
  "distinct (map key xs) \<Longrightarrow> x \<in> set xs \<Longrightarrow> filter (\<lambda>y. key y = key x) xs = [x]"
proof (induction xs)
  case (Cons y ys)
  show ?case
  proof (cases "x = y")
    case True
    have "key y \<notin> key ` set ys" using Cons.prems(1) by simp
    then have "filter (\<lambda>z. key z = key x) ys = []"
      using True by (force simp: filter_empty_conv image_iff)
    then show ?thesis using True by simp
  next
    case False
    then show ?thesis using Cons by auto
  qed
qed simp

lemma filter_set_page:
  assumes "distinct (map page_key (t_pages db))" "p \<in> set (t_pages db)" "page_key p' = page_key p"
  shows "filter (\<lambda>q. page_key q = page_key p) (t_pages (set_page p' db)) = [p']"
    and "k \<noteq> page_key p \<Longrightarrow> filter (\<lambda>q. page_key q = k) (t_pages (set_page p' db))
      = filter (\<lambda>q. page_key q = k) (t_pages db)"
    and "map page_key (t_pages (set_page p' db)) = map page_key (t_pages db)"
    and "q \<in> set (t_pages (set_page p' db)) \<Longrightarrow> q = p' \<or> (q \<in> set (t_pages db) \<and> page_key q \<noteq> page_key p)"
proof -
  let ?g = "\<lambda>q. if page_key q = page_key p' then p' else q"
  have g: "page_key (?g q) = page_key q" for q by simp
  have f: "filter (\<lambda>q. page_key q = k) (map ?g xs) = map ?g (filter (\<lambda>q. page_key q = k) xs)" for k xs
    by (induction xs) auto
  show "filter (\<lambda>q. page_key q = page_key p) (t_pages (set_page p' db)) = [p']"
    using single_row [OF assms(1,2)] assms(3) by (simp add: f del: map_map) (simp add: f [unfolded assms(3)])
  have "map ?g (filter (\<lambda>q. page_key q = k) xs) = filter (\<lambda>q. page_key q = k) xs" if "k \<noteq> page_key p" for xs
    using that assms(3) by (induction xs) auto
  then show "k \<noteq> page_key p \<Longrightarrow> filter (\<lambda>q. page_key q = k) (t_pages (set_page p' db))
      = filter (\<lambda>q. page_key q = k) (t_pages db)" by (simp add: f)
  show "map page_key (t_pages (set_page p' db)) = map page_key (t_pages db)" by simp
  show "q \<in> set (t_pages (set_page p' db)) \<Longrightarrow> q = p' \<or> (q \<in> set (t_pages db) \<and> page_key q \<noteq> page_key p)"
    using assms(3) by auto
qed

lemma page_exists_keys:
  "map page_key (t_pages db') = map page_key (t_pages db) \<Longrightarrow> page_exists db' k = page_exists db k"
proof -
  assume "map page_key (t_pages db') = map page_key (t_pages db)"
  then have "set (map page_key (t_pages db')) = set (map page_key (t_pages db))" by simp
  moreover have "page_exists d k \<longleftrightarrow> k \<in> set (map page_key (t_pages d))" for d
    by (auto simp: page_exists_def list_ex_iff)
  ultimately show ?thesis by simp
qed

lemma mutation_histories:
  assumes ok: "store_ok db schema tr" and p: "p \<in> set (t_pages db)" and k: "page_key p' = page_key p"
    and pages: "t_pages db' = t_pages (set_page p' db)"
    and h: "history db' schema (page_key p) p' (tr (page_key p) @ [state_of_page p'])"
    and other: "\<And>k. k \<noteq> page_key p \<Longrightarrow> rows_kept db db' k"
    and au: "\<And>k i. audits_kept db db' k i" and bk: "books_kept db db'"
    and st: "rows_owned db'" "guards_clear db'" "keys_distinct db'"
  shows "store_ok db' schema (tr(page_key p := tr (page_key p) @ [state_of_page p']))"
proof -
  have d: "distinct (map page_key (t_pages db))" using ok by (simp add: store_ok_def keys_distinct_def)
  have "history db' schema (page_key q) q ((tr(page_key p := tr (page_key p) @ [state_of_page p'])) (page_key q))"
    if q: "q \<in> set (t_pages db')" for q
  proof -
    consider "q = p'" | "q \<in> set (t_pages db)" "page_key q \<noteq> page_key p"
      using filter_set_page(4) [OF d p k] q unfolding pages by blast
    then show ?thesis
    proof cases
      case 1
      then show ?thesis using h k by simp
    next
      case 2
      then have "history db schema (page_key q) q (tr (page_key q))" using ok by (simp add: store_ok_def)
      then show ?thesis using history_kept [OF _ other [OF 2(2)] au bk] 2 by simp
    qed
  qed
  then show ?thesis using st by (simp add: store_ok_def)
qed

end
