(* ===== verification/StoreSteps.thy ===== *)
theory StoreSteps
  imports HistoryInvariant
begin

text \<open>
  Every mutation of a page keeps \<open>store_ok\<close> and extends the history of that page by the state of
  its new row.
\<close>

section \<open>Shared facts\<close>

lemma same_audits_kept:
  assumes "t_audits db' = t_audits db" "t_master_audits db' = t_master_audits db"
  shows "audits_kept db db' k i"
  unfolding audits_kept_def move_audited_def assms by blast

lemma same_books_kept: "t_books db' = t_books db \<Longrightarrow> books_kept db db'"
  by (simp add: books_kept_def single_book_def)

lemma newest_schema:
  "schema \<in> set CALLER_MOVE_REVISIONS \<Longrightarrow> schema \<in> set MOVE_REVISIONS \<and> schema \<in> set TITLE_REVISIONS"
  by (auto simp: MOVE_REVISIONS_def TITLE_REVISIONS_def)

lemma store_page_history:
  "store_ok db schema tr \<Longrightarrow> p \<in> set (t_pages db) \<Longrightarrow> history db schema (page_key p) p (tr (page_key p))"
  by (simp add: store_ok_def)

lemma store_distinct: "store_ok db schema tr \<Longrightarrow> distinct (map page_key (t_pages db))"
  by (simp add: store_ok_def keys_distinct_def)

lemma single_book_exists:
  assumes "keys_distinct db" "book_exists db l s b"
  shows "length (filter (\<lambda>x. bk_library_id x = l \<and> bk_section_id x = s \<and> bk_id x = b) (t_books db)) = 1"
proof -
  obtain x where x: "x \<in> set (t_books db)" "bk_library_id x = l" "bk_section_id x = s" "bk_id x = b"
    using assms(2) by (auto simp: book_exists_def list_ex_iff)
  have "distinct (map bk_id (t_books db))" using assms(1) by (simp add: keys_distinct_def)
  from single_row [OF this x(1)] have f: "filter (\<lambda>y. bk_id y = b) (t_books db) = [x]" using x by simp
  have "filter (\<lambda>y. bk_library_id y = l \<and> bk_section_id y = s \<and> bk_id y = b) (t_books db)
      = filter (\<lambda>y. bk_library_id y = l \<and> bk_section_id y = s) (filter (\<lambda>y. bk_id y = b) (t_books db))"
    by (simp add: conj_ac)
  then show ?thesis using x by (simp add: f)
qed

text \<open>The state of a page is in a single book when its row is.\<close>

lemma history_single_book: "history db schema k p tr \<Longrightarrow> single_book db (fst k) (state_of_page p)"
  using history_last [of db schema k p tr] last_in_set [of tr] by (auto simp: history_def list_all_iff)

text \<open>A table that grew by rows of one page only.\<close>

definition grown :: "('r \<Rightarrow> page_key) \<Rightarrow> page_key \<Rightarrow> 'r list \<Rightarrow> 'r list \<Rightarrow> bool" where
  "grown key k xs ys \<longleftrightarrow> (\<exists>rs. ys = xs @ rs \<and> list_all (\<lambda>r. key r = k) rs)"

lemma grown_refl [simp, intro]: "grown key k xs xs"
  by (auto simp: grown_def)

lemma grown_snoc [intro]: "key r = k \<Longrightarrow> grown key k xs (xs @ [r])"
  by (auto simp: grown_def)

lemma grown_filter: "grown key k xs ys \<Longrightarrow> k' \<noteq> k \<Longrightarrow>
    filter (\<lambda>r. key r = k') ys = filter (\<lambda>r. key r = k') xs"
  by (auto simp: grown_def list_all_iff filter_empty_conv)

lemma grown_owned: "grown key k xs ys \<Longrightarrow> Q k \<Longrightarrow> list_all (\<lambda>r. Q (key r)) xs \<Longrightarrow> list_all (\<lambda>r. Q (key r)) ys"
  by (auto simp: grown_def list_all_iff)

definition tables_grown :: "page_key \<Rightarrow> content_db \<Rightarrow> content_db \<Rightarrow> bool" where
  "tables_grown k db db' \<longleftrightarrow>
     grown rev_page_key k (t_revisions db) (t_revisions db')
     \<and> grown co_key k (t_corrections db) (t_corrections db')
     \<and> grown le_key k (t_lifecycle_events db) (t_lifecycle_events db')
     \<and> grown te_key k (t_title_events db) (t_title_events db')
     \<and> grown me_key k (t_move_events db) (t_move_events db')
     \<and> t_books db' = t_books db \<and> t_audits db' = t_audits db \<and> t_master_audits db' = t_master_audits db
     \<and> guards_clear db'"

lemma guards_clear_no_guards: "guards_clear db \<Longrightarrow> no_guards db schema k"
  by (simp add: guards_clear_def no_guards_def)

lemma page_exists_in: "p \<in> set (t_pages db) \<Longrightarrow> page_exists db (page_key p)"
  by (auto simp: page_exists_def list_ex_iff)

text \<open>The steps below show the history of their page and leave the rest to this lemma.\<close>

lemma step_store_ok:
  assumes ok: "store_ok db schema tr" and o: "old \<in> set (t_pages db)" and kn: "page_key new = page_key old"
    and pages: "t_pages db' = t_pages (set_page new db)"
    and hist: "history db' schema (page_key old) new (tr (page_key old) @ [state_of_page new])"
    and g: "tables_grown (page_key old) db db'"
  shows "new \<in> set (t_pages db')"
    and "store_ok db' schema (tr(page_key old := tr (page_key old) @ [state_of_page new]))"
proof -
  note d = store_distinct [OF ok]
  have keys: "map page_key (t_pages db') = map page_key (t_pages db)"
    unfolding pages by (rule filter_set_page(3) [OF d o kn])
  have pe: "page_exists db' k = page_exists db k" for k using page_exists_keys [OF keys] .
  show "new \<in> set (t_pages db')" using o kn by (force simp: pages)
  show "store_ok db' schema (tr(page_key old := tr (page_key old) @ [state_of_page new]))"
  proof (rule mutation_histories [OF ok o kn pages hist])
    show "rows_kept db db' k" if k: "k \<noteq> page_key old" for k
    proof -
      have "guards_clear db'" using g by (simp only: tables_grown_def)
      then show ?thesis
        using g filter_set_page(2) [OF d o kn k]
        by (simp add: rows_kept_def tables_grown_def pages grown_filter [OF _ k] guards_clear_no_guards
            del: set_page_tables(13))
    qed
    show "audits_kept db db' k i" for k i
      using g by (intro same_audits_kept) (simp_all add: tables_grown_def)
    show "books_kept db db'" using g by (intro same_books_kept) (simp add: tables_grown_def)
    have po: "page_exists db (page_key old)" by (rule page_exists_in [OF o])
    have ro: "rows_owned db" using ok by (simp only: store_ok_def)
    show "rows_owned db'" unfolding rows_owned_def pe
    proof (intro conjI)
      show "list_all (\<lambda>r. page_exists db (rev_page_key r)) (t_revisions db')"
        using g ro grown_owned [where Q = "page_exists db" and k = "page_key old"] po unfolding tables_grown_def rows_owned_def by metis
      show "list_all (\<lambda>c. page_exists db (co_key c)) (t_corrections db')"
        using g ro grown_owned [where Q = "page_exists db" and k = "page_key old"] po unfolding tables_grown_def rows_owned_def by metis
      show "list_all (\<lambda>e. page_exists db (le_key e)) (t_lifecycle_events db')"
        using g ro grown_owned [where Q = "page_exists db" and k = "page_key old"] po unfolding tables_grown_def rows_owned_def by metis
      show "list_all (\<lambda>e. page_exists db (te_key e)) (t_title_events db')"
        using g ro grown_owned [where Q = "page_exists db" and k = "page_key old"] po unfolding tables_grown_def rows_owned_def by metis
      show "list_all (\<lambda>e. page_exists db (me_key e)) (t_move_events db')"
        using g ro grown_owned [where Q = "page_exists db" and k = "page_key old"] po unfolding tables_grown_def rows_owned_def by metis
    qed
    show "guards_clear db'" using g by (simp add: tables_grown_def)
    show "keys_distinct db'"
      using ok g unfolding store_ok_def keys_distinct_def tables_grown_def keys by simp
  qed
qed

section \<open>Occurrence corrections\<close>

lemma correction_step:
  assumes ok: "store_ok db schema tr" and sch: "schema \<in> set CALLER_MOVE_REVISIONS"
    and w: "write_correction p g db = Inr (db', p', row)" and gk: "cg_key g = page_key p"
    and go: "cg_old_occurred_at g = pg_occurred_at p" and gt: "pg_updated_at p < cg_corrected_at g"
  shows "\<exists>new. page_key new = page_key p \<and> new \<in> set (t_pages db')
    \<and> store_ok db' schema (tr(page_key p := tr (page_key p) @ [state_of_page new]))"
proof -
  obtain old where o: "old \<in> set (t_pages db)" "same_current p old" "pg_occurred_at old = pg_occurred_at p"
    "pg_deleted_at old = None" "cg_new_occurred_at g \<noteq> pg_occurred_at old"
    "cg_sequence g = next_sequence co_key (\<lambda>c. cg_sequence (co_guard c)) (page_key p) (t_corrections db)"
    and row: "row = \<lparr>co_guard = g, co_at_revision_number = pg_current_revision_number old\<rparr>"
    and db': "db' = (set_page (old\<lparr>pg_occurred_at := cg_new_occurred_at g, pg_updated_at := cg_corrected_at g\<rparr>) db)
       \<lparr>t_corrections := t_corrections db @ [row]\<rparr>"
    by (rule write_correction_Inr [OF w gk go gt])
  let ?k = "page_key p" and ?seq = "\<lambda>c. cg_sequence (co_guard c)"
  define new where "new = old\<lparr>pg_occurred_at := cg_new_occurred_at g, pg_updated_at := cg_corrected_at g\<rparr>"
  have ko: "page_key old = ?k" and up: "pg_updated_at old = pg_updated_at p"
    using o(2) by (auto simp: same_current_def)
  have kn: "page_key new = page_key old" by (simp add: new_def page_key_def)
  have rk: "co_key row = ?k" by (simp add: row co_key_def gk)
  note d = store_distinct [OF ok]
  note h = store_page_history [OF ok o(1), unfolded ko]
  have v: "corrections_of db' ?k = corrections_of db ?k @ [row]"
    using sorted_rows_snoc [of co_key row ?k ?seq "t_corrections db"] rk o(6)
    by (simp add: corrections_of_def db' row)
  have ns: "next_sequence co_key ?seq ?k (t_corrections db') = cg_sequence g + 1"
    using next_sequence_snoc [of co_key row ?k ?seq "t_corrections db"] rk o(6) by (simp add: db' row)
  have sv: "revisions_of db' ?k = revisions_of db ?k" "lifecycle_of db' ?k = lifecycle_of db ?k"
    "titles_of db' schema ?k = titles_of db schema ?k" "moves_of db' schema ?k = moves_of db schema ?k"
    by (simp_all add: db' revisions_of_def lifecycle_of_def titles_of_def moves_of_def)
  have gc: "guards_clear db'" using ok by (simp add: store_ok_def guards_clear_def db')
  have hist: "history db' schema ?k new (tr ?k @ [state_of_page new])"
  proof (rule history_extend [OF h, where x = "OpCorrection row"])
    show "filter (\<lambda>p. page_key p = ?k) (t_pages db') = [new]"
      using filter_set_page(1) [OF d o(1) kn] ko by (simp add: db' new_def)
    show "pg_page_id new = pg_page_id old" "pg_created_at new = pg_created_at old" by (simp_all add: new_def)
    show "revisions_of db' ?k \<noteq> []" "hd (revisions_of db' ?k) = hd (revisions_of db ?k)"
      using h by (simp_all add: sv history_def)
    show "first_state db' schema ?k new = first_state db schema ?k old"
      using o(3) go by (auto simp: first_state_def initial_state_def v sv new_def row split: list.splits)
    show "mset (page_ops db' schema ?k) = mset (page_ops db schema ?k) + {#OpCorrection row#}"
      by (simp add: page_ops_def operations_of_def v sv)
    show "\<exists>q'. seq_linked db' ?k q' \<and> apply_operation db' ?k (pg_page_id old) (state_of_page old, q)
        (OpCorrection row) = Inr (state_of_page new, q')" if sl: "seq_linked db ?k q" for q
    proof (intro exI conjI)
      show "seq_linked db' ?k (q\<lparr>sq_correction := cg_sequence g\<rparr>)"
        using sl ns by (simp add: seq_linked_def db')
      show "apply_operation db' ?k (pg_page_id old) (state_of_page old, q) (OpCorrection row)
          = Inr (state_of_page new, q\<lparr>sq_correction := cg_sequence g\<rparr>)"
        using sl o gt go up by (simp add: row state_of_page_def new_def event_in_order_def seq_linked_def Let_def)
    qed
    show "audits_kept db db' ?k (pg_page_id old)" by (rule same_audits_kept) (simp_all add: db')
    show "no_guards db' schema ?k" using gc guards_clear_no_guards by blast
    show "single_book db' (fst ?k) s" if "single_book db (fst ?k) s" for s
      using that by (simp add: single_book_def db')
    show "single_book db' (fst ?k) (state_of_page new)"
      using history_single_book [OF h] by (simp add: single_book_def db' state_of_page_def new_def)
  qed
  have "t_pages db' = t_pages (set_page new db)" by (simp add: db' new_def)
  moreover have "tables_grown (page_key old) db db'"
    using gc rk ko by (auto simp: tables_grown_def db')
  ultimately show ?thesis
    using step_store_ok [OF ok o(1) kn, of db'] hist kn by (simp only: ko) blast
qed

section \<open>Deletion and restoration\<close>

lemma lifecycle_step:
  assumes ok: "store_ok db schema tr" and sch: "schema \<in> set CALLER_MOVE_REVISIONS"
    and w: "write_lifecycle p g db = Inr (db', p', row)" and gk: "le_key g = page_key p"
    and go: "le_old_deleted_at g = pg_deleted_at p" "le_old_updated_at g = pg_updated_at p"
      "le_at_revision_number g = pg_current_revision_number p"
      "le_occurred_at_at_event g = pg_occurred_at p" "le_section_id g = pg_section_id p"
    and ga: "(le_action g = lit ''delete'') = (pg_deleted_at p = None)"
  shows "\<exists>new. page_key new = page_key p \<and> new \<in> set (t_pages db')
    \<and> store_ok db' schema (tr(page_key p := tr (page_key p) @ [state_of_page new]))"
proof -
  let ?d = "if le_action g = lit ''delete'' then Some (le_changed_at g) else None"
  obtain old where o: "old \<in> set (t_pages db)" "same_current p old" "pg_occurred_at old = pg_occurred_at p"
    "pg_section_id old = pg_section_id p" "pg_deleted_at old = pg_deleted_at p"
    "pg_updated_at old < le_changed_at g"
    "le_sequence g = next_sequence le_key le_sequence (page_key p) (t_lifecycle_events db)"
    "row = g" "lifecycle_check g"
    and db': "db' = (set_page (old\<lparr>pg_deleted_at := ?d, pg_updated_at := le_changed_at g\<rparr>) db)
       \<lparr>t_lifecycle_events := t_lifecycle_events db @ [g]\<rparr>"
    by (rule write_lifecycle_Inr [OF w gk go ga])
  let ?k = "page_key p"
  define new where "new = old\<lparr>pg_deleted_at := ?d, pg_updated_at := le_changed_at g\<rparr>"
  have ko: "page_key old = ?k" and up: "pg_updated_at old = pg_updated_at p"
    and nu: "pg_current_revision_number old = pg_current_revision_number p"
    using o(2) by (auto simp: same_current_def)
  have kn: "page_key new = page_key old" by (simp add: new_def page_key_def)
  note d = store_distinct [OF ok] and h = store_page_history [OF ok o(1), unfolded ko]
  have v: "lifecycle_of db' ?k = lifecycle_of db ?k @ [g]"
    using sorted_rows_snoc [of le_key g ?k le_sequence "t_lifecycle_events db"] gk o(7)
    by (simp add: lifecycle_of_def db')
  have ns: "next_sequence le_key le_sequence ?k (t_lifecycle_events db') = le_sequence g + 1"
    using next_sequence_snoc [of le_key g ?k le_sequence "t_lifecycle_events db"] gk o(7) by (simp add: db')
  have sv: "revisions_of db' ?k = revisions_of db ?k" "corrections_of db' ?k = corrections_of db ?k"
    "titles_of db' schema ?k = titles_of db schema ?k" "moves_of db' schema ?k = moves_of db schema ?k"
    by (simp_all add: db' revisions_of_def corrections_of_def titles_of_def moves_of_def)
  have act: "le_action g \<in> {lit ''delete'', lit ''restore''}" using o(9) by (auto simp: lifecycle_check_def)
  have gc: "guards_clear db'" using ok by (simp add: store_ok_def guards_clear_def db')
  have hist: "history db' schema ?k new (tr ?k @ [state_of_page new])"
  proof (rule history_extend [OF h, where x = "OpLifecycle g"])
    show "filter (\<lambda>p. page_key p = ?k) (t_pages db') = [new]"
      using filter_set_page(1) [OF d o(1) kn] ko by (simp add: db' new_def)
    show "pg_page_id new = pg_page_id old" "pg_created_at new = pg_created_at old" by (simp_all add: new_def)
    show "revisions_of db' ?k \<noteq> []" "hd (revisions_of db' ?k) = hd (revisions_of db ?k)"
      using h by (simp_all add: sv history_def)
    show "first_state db' schema ?k new = first_state db schema ?k old"
      by (simp add: first_state_def initial_state_def sv new_def split: list.splits)
    show "mset (page_ops db' schema ?k) = mset (page_ops db schema ?k) + {#OpLifecycle g#}"
      by (simp add: page_ops_def operations_of_def v sv)
    show "\<exists>q'. seq_linked db' ?k q' \<and> apply_operation db' ?k (pg_page_id old) (state_of_page old, q)
        (OpLifecycle g) = Inr (state_of_page new, q')" if sl: "seq_linked db ?k q" for q
    proof (intro exI conjI)
      show "seq_linked db' ?k (q\<lparr>sq_lifecycle := le_sequence g\<rparr>)"
        using sl ns by (simp add: seq_linked_def db')
      show "apply_operation db' ?k (pg_page_id old) (state_of_page old, q) (OpLifecycle g)
          = Inr (state_of_page new, q\<lparr>sq_lifecycle := le_sequence g\<rparr>)"
        using sl o go ga up nu act by (simp add: state_of_page_def new_def event_in_order_def seq_linked_def)
    qed
    show "audits_kept db db' ?k (pg_page_id old)" by (rule same_audits_kept) (simp_all add: db')
    show "no_guards db' schema ?k" using gc guards_clear_no_guards by blast
    show "single_book db' (fst ?k) s" if "single_book db (fst ?k) s" for s
      using that by (simp add: single_book_def db')
    show "single_book db' (fst ?k) (state_of_page new)"
      using history_single_book [OF h] by (simp add: single_book_def db' state_of_page_def new_def)
  qed
  have "t_pages db' = t_pages (set_page new db)" by (simp add: db' new_def)
  moreover have "tables_grown (page_key old) db db'"
    using gc gk ko by (auto simp: tables_grown_def db')
  ultimately show ?thesis
    using step_store_ok [OF ok o(1) kn, of db'] hist kn by (simp only: ko) blast
qed

section \<open>Titles\<close>

lemma title_step:
  assumes ok: "store_ok db schema tr" and sch: "schema \<in> set CALLER_MOVE_REVISIONS"
    and w: "update_page_title p title at db = Inr (db', Some p')" and ch: "title \<noteq> pg_title p"
  shows "\<exists>new. page_key new = page_key p \<and> new \<in> set (t_pages db')
    \<and> store_ok db' schema (tr(page_key p := tr (page_key p) @ [state_of_page new]))"
proof -
  obtain old e where o: "old \<in> set (t_pages db)" "same_current p old" "pg_title old = pg_title p"
    "pg_deleted_at old = None" "pg_updated_at old < at"
    and ek: "te_key e = page_key p" and eo: "te_old_title e = pg_title p" "te_new_title e = title"
    "te_old_updated_at e = pg_updated_at p" "te_changed_at e = at"
    "te_at_revision_number e = pg_current_revision_number p"
    "te_sequence e = next_sequence te_key te_sequence (page_key p) (t_title_events db)"
    and db': "db' = (set_page (old\<lparr>pg_title := title, pg_updated_at := at\<rparr>) db)
       \<lparr>t_title_events := t_title_events db @ [e]\<rparr>"
    by (rule update_page_title_Inr [OF w ch])
  let ?k = "page_key p"
  define new where "new = old\<lparr>pg_title := title, pg_updated_at := at\<rparr>"
  have ko: "page_key old = ?k" and up: "pg_updated_at old = pg_updated_at p"
    and nu: "pg_current_revision_number old = pg_current_revision_number p"
    using o(2) by (auto simp: same_current_def)
  have kn: "page_key new = page_key old" by (simp add: new_def page_key_def)
  note d = store_distinct [OF ok] and h = store_page_history [OF ok o(1), unfolded ko]
  have v: "titles_of db' schema ?k = titles_of db schema ?k @ [e]"
    using sorted_rows_snoc [of te_key e ?k te_sequence "t_title_events db"] ek eo(6) newest_schema [OF sch]
    by (simp add: titles_of_def db')
  have ns: "next_sequence te_key te_sequence ?k (t_title_events db') = te_sequence e + 1"
    using next_sequence_snoc [of te_key e ?k te_sequence "t_title_events db"] ek eo(6) by (simp add: db')
  have sv: "revisions_of db' ?k = revisions_of db ?k" "corrections_of db' ?k = corrections_of db ?k"
    "lifecycle_of db' ?k = lifecycle_of db ?k" "moves_of db' schema ?k = moves_of db schema ?k"
    by (simp_all add: db' revisions_of_def corrections_of_def lifecycle_of_def moves_of_def)
  have gc: "guards_clear db'" using ok by (simp add: store_ok_def guards_clear_def db')
  have hist: "history db' schema ?k new (tr ?k @ [state_of_page new])"
  proof (rule history_extend [OF h, where x = "OpTitle e"])
    show "filter (\<lambda>p. page_key p = ?k) (t_pages db') = [new]"
      using filter_set_page(1) [OF d o(1) kn] ko by (simp add: db' new_def)
    show "pg_page_id new = pg_page_id old" "pg_created_at new = pg_created_at old" by (simp_all add: new_def)
    show "revisions_of db' ?k \<noteq> []" "hd (revisions_of db' ?k) = hd (revisions_of db ?k)"
      using h by (simp_all add: sv history_def)
    show "first_state db' schema ?k new = first_state db schema ?k old"
      using o(3) eo(1) by (auto simp: first_state_def initial_state_def v sv new_def split: list.splits)
    show "mset (page_ops db' schema ?k) = mset (page_ops db schema ?k) + {#OpTitle e#}"
      by (simp add: page_ops_def operations_of_def v sv)
    show "\<exists>q'. seq_linked db' ?k q' \<and> apply_operation db' ?k (pg_page_id old) (state_of_page old, q)
        (OpTitle e) = Inr (state_of_page new, q')" if sl: "seq_linked db ?k q" for q
    proof (intro exI conjI)
      show "seq_linked db' ?k (q\<lparr>sq_title := te_sequence e\<rparr>)"
        using sl ns by (simp add: seq_linked_def db')
      show "apply_operation db' ?k (pg_page_id old) (state_of_page old, q) (OpTitle e)
          = Inr (state_of_page new, q\<lparr>sq_title := te_sequence e\<rparr>)"
        using sl o eo up nu ch by (simp add: state_of_page_def new_def event_in_order_def seq_linked_def)
    qed
    show "audits_kept db db' ?k (pg_page_id old)" by (rule same_audits_kept) (simp_all add: db')
    show "no_guards db' schema ?k" using gc guards_clear_no_guards by blast
    show "single_book db' (fst ?k) s" if "single_book db (fst ?k) s" for s
      using that by (simp add: single_book_def db')
    show "single_book db' (fst ?k) (state_of_page new)"
      using history_single_book [OF h] by (simp add: single_book_def db' state_of_page_def new_def)
  qed
  have "t_pages db' = t_pages (set_page new db)" by (simp add: db' new_def)
  moreover have "tables_grown (page_key old) db db'"
    using gc ek ko by (auto simp: tables_grown_def db')
  ultimately show ?thesis
    using step_store_ok [OF ok o(1) kn, of db'] hist kn by (simp only: ko) blast
qed

section \<open>Moves\<close>

lemma find_unique_key:
  "distinct (map key xs) \<Longrightarrow> x \<in> set xs \<Longrightarrow> find (\<lambda>y. key y = key x) xs = Some x"
  by (induction xs) (auto simp: image_iff)

lemma move_audit_ok_audited:
  assumes d: "keys_distinct db" and a: "move_audit_ok db e page_id" and m: "move_check e"
    and k: "me_key e = k"
  shows "move_audited db k page_id e"
proof (cases "me_master_audit_event_id e")
  case None
  then obtain x where x: "x \<in> set (t_audits db)" "me_caller_audit_event_id e = Some (au_id x)"
    "au_library_id x = me_library_id e" "au_action x = lit ''content.page.move''"
    "au_resource_type x = lit ''page''" "au_resource_id x = page_id"
    "au_outcome x = lit ''succeeded''" "au_occurred_at x = me_changed_at e"
    using a by (auto simp: move_audit_ok_def list_ex_iff)
  have "distinct (map au_id (t_audits db))" using d by (simp add: keys_distinct_def)
  from find_unique_key [OF this x(1)] show ?thesis
    using None x by (simp add: move_audited_def me_key_def k [symmetric])
next
  case (Some i)
  then have n: "me_caller_audit_event_id e = None" using m by (auto simp: move_check_def)
  then obtain x where x: "x \<in> set (t_master_audits db)" "ma_id x = i"
    "ma_action x = lit ''content.page.move''" "ma_target_type x = lit ''page''"
    "ma_target_id x = page_target k" "ma_occurred_at x = me_changed_at e"
    using a Some k by (auto simp: move_audit_ok_def master_audit_matches_def list_ex_iff)
  have "distinct (map ma_id (t_master_audits db))" using d by (simp add: keys_distinct_def)
  from find_unique_key [OF this x(1)] show ?thesis
    using Some n x by (simp add: move_audited_def)
qed

lemma move_step:
  assumes ok: "store_ok db schema tr" and sch: "schema \<in> set CALLER_MOVE_REVISIONS"
    and w: "write_move p g db = Inr db'" and gk: "me_key g = page_key p"
    and go: "me_old_section_id g = pg_section_id p" "me_old_book_id g = pg_book_id p"
      "me_old_updated_at g = pg_updated_at p" "me_at_revision_id g = pg_current_revision_id p"
      "me_at_revision_number g = pg_current_revision_number p"
      "me_occurred_at_at_event g = pg_occurred_at p"
  shows "\<exists>new. page_key new = page_key p \<and> new \<in> set (t_pages db')
    \<and> store_ok db' schema (tr(page_key p := tr (page_key p) @ [state_of_page new]))"
proof -
  note d = store_distinct [OF ok]
  obtain old where o: "old \<in> set (t_pages db)" "page_key old = page_key p"
    "pg_section_id old = pg_section_id p" "pg_book_id old = pg_book_id p"
    "pg_updated_at old = pg_updated_at p" "pg_deleted_at old = None"
    "pg_current_revision_id old = pg_current_revision_id p"
    "pg_current_revision_number old = pg_current_revision_number p"
    "pg_occurred_at old = pg_occurred_at p"
    and sq: "me_sequence g = next_sequence me_key me_sequence (page_key p) (t_move_events db)"
    and mc: "move_check g" and mao: "move_audit_ok db g (pg_page_id old)"
    and bk: "book_exists db (me_library_id g) (me_new_section_id g) (me_new_book_id g)"
    and db': "db' = (set_page (old\<lparr>pg_section_id := me_new_section_id g, pg_book_id := me_new_book_id g,
              pg_updated_at := me_changed_at g\<rparr>) db)
       \<lparr>t_move_events := t_move_events db @ [g]\<rparr>"
    by (rule write_move_Inr [OF w gk go d])
  let ?k = "page_key p"
  define new where "new = old\<lparr>pg_section_id := me_new_section_id g, pg_book_id := me_new_book_id g,
     pg_updated_at := me_changed_at g\<rparr>"
  have kn: "page_key new = page_key old" by (simp add: new_def page_key_def)
  note h = store_page_history [OF ok o(1), unfolded o(2)]
  note ns0 = newest_schema [OF sch]
  have v: "moves_of db' schema ?k = moves_of db schema ?k @ [g]"
    using sorted_rows_snoc [of me_key g ?k me_sequence "t_move_events db"] gk sq ns0 sch
    by (simp add: moves_of_def db')
  have ns: "next_sequence me_key me_sequence ?k (t_move_events db') = me_sequence g + 1"
    using next_sequence_snoc [of me_key g ?k me_sequence "t_move_events db"] gk sq by (simp add: db')
  have sv: "revisions_of db' ?k = revisions_of db ?k" "corrections_of db' ?k = corrections_of db ?k"
    "lifecycle_of db' ?k = lifecycle_of db ?k" "titles_of db' schema ?k = titles_of db schema ?k"
    by (simp_all add: db' revisions_of_def corrections_of_def lifecycle_of_def titles_of_def)
  have kd: "keys_distinct db" using ok by (simp only: store_ok_def)
  have gc: "guards_clear db'" using ok by (simp add: store_ok_def guards_clear_def db')
  have ak: "audits_kept db db' ?k (pg_page_id old)" by (rule same_audits_kept) (simp_all add: db')
  have au: "move_audited db' ?k (pg_page_id old) g"
    using move_audit_ok_audited [OF kd mao mc gk] ak by (simp add: audits_kept_def)
  have hist: "history db' schema ?k new (tr ?k @ [state_of_page new])"
  proof (rule history_extend [OF h, where x = "OpMove g"])
    show "filter (\<lambda>p. page_key p = ?k) (t_pages db') = [new]"
      using filter_set_page(1) [OF d o(1) kn] o(2) by (simp add: db' new_def)
    show "pg_page_id new = pg_page_id old" "pg_created_at new = pg_created_at old" by (simp_all add: new_def)
    show "revisions_of db' ?k \<noteq> []" "hd (revisions_of db' ?k) = hd (revisions_of db ?k)"
      using h by (simp_all add: sv history_def)
    show "first_state db' schema ?k new = first_state db schema ?k old"
      using o go by (simp add: first_state_def initial_state_def v sv new_def split: list.splits)
    show "mset (page_ops db' schema ?k) = mset (page_ops db schema ?k) + {#OpMove g#}"
      by (simp add: page_ops_def operations_of_def v sv)
    show "\<exists>q'. seq_linked db' ?k q' \<and> apply_operation db' ?k (pg_page_id old) (state_of_page old, q)
        (OpMove g) = Inr (state_of_page new, q')" if sl: "seq_linked db ?k q" for q
    proof (intro exI conjI)
      show "seq_linked db' ?k (q\<lparr>sq_move := me_sequence g\<rparr>)"
        using sl ns by (simp add: seq_linked_def db')
      have "me_new_section_id g \<noteq> pg_section_id p \<or> me_new_book_id g \<noteq> pg_book_id p"
        "pg_updated_at p < me_changed_at g"
        using mc go by (auto simp: move_check_def)
      then show "apply_operation db' ?k (pg_page_id old) (state_of_page old, q) (OpMove g)
          = Inr (state_of_page new, q\<lparr>sq_move := me_sequence g\<rparr>)"
        using sl o go au sq by (simp add: state_of_page_def new_def event_in_order_def seq_linked_def)
    qed
    show "audits_kept db db' ?k (pg_page_id old)" by (rule ak)
    show "no_guards db' schema ?k" using gc guards_clear_no_guards by blast
    show "single_book db' (fst ?k) s" if "single_book db (fst ?k) s" for s
      using that by (simp add: single_book_def db')
    have "me_library_id g = fst ?k" using gk by (simp add: me_key_def page_key_def)
    then show "single_book db' (fst ?k) (state_of_page new)"
      using single_book_exists [OF kd bk] by (simp add: single_book_def db' state_of_page_def new_def)
  qed
  have "t_pages db' = t_pages (set_page new db)" by (simp add: db' new_def)
  moreover have "tables_grown (page_key old) db db'"
    using gc gk o(2) by (auto simp: tables_grown_def db')
  ultimately show ?thesis
    using step_store_ok [OF ok o(1) kn, of db'] hist kn by (simp only: o(2)) blast
qed

section \<open>Revisions\<close>

lemma replay_revision_numbers:
  assumes "replay db k i (s, q) xs = Inr (states, f, q')"
  shows "ps_revision_number s \<le> ps_revision_number f
    \<and> (\<forall>r. OpRevision r \<in> set xs \<longrightarrow> rv_revision_number r \<le> ps_revision_number f)"
  using assms
proof (induction xs arbitrary: s q states)
  case Nil
  then show ?case by simp
next
  case (Cons x xs)
  obtain s1 q1 st where a: "apply_operation db k i (s, q) x = Inr (s1, q1)"
    and r: "replay db k i (s1, q1) xs = Inr (st, f, q')"
    using Cons.prems by (auto simp: result_simps)
  have "ps_revision_number s \<le> ps_revision_number s1
    \<and> (\<forall>r. x = OpRevision r \<longrightarrow> rv_revision_number r = ps_revision_number s1)"
    using a by (cases x) (auto simp: Let_def split: if_splits)
  then show ?case using Cons.IH [OF r] by fastforce
qed

lemma history_revision_numbers:
  assumes h: "history db schema k p tr" and r: "r \<in> set (t_revisions db)" "rev_page_key r = k"
  shows "rv_revision_number r \<le> pg_current_revision_number p"
proof -
  obtain states q where rp: "replay db k (pg_page_id p) (first_state db schema k p, no_sequences)
            (sort_key op_time (page_ops db schema k)) = Inr (states, state_of_page p, q)"
    using h by (auto simp: history_def)
  note n = replay_revision_numbers [OF rp]
  have mem: "r \<in> set (revisions_of db k)" using r by (simp add: revisions_of_def)
  obtain a as where l: "revisions_of db k = a # as" using mem by (cases "revisions_of db k") auto
  then consider "r = a" | "r \<in> set as" using mem by auto
  then show ?thesis
  proof cases
    case 1
    then have "rv_revision_number r = 1" using h l by (simp add: history_def)
    moreover have "ps_revision_number (first_state db schema k p) = 1"
      by (simp add: first_state_def initial_state_def)
    ultimately show ?thesis using n by (simp add: state_of_page_def)
  next
    case 2
    then have "OpRevision r \<in> set (page_ops db schema k)" by (simp add: page_ops_def operations_of_def l)
    then show ?thesis using n by (simp add: state_of_page_def)
  qed
qed

text \<open>What both kinds of appended Revision have in common: the row, the guard, the advance.\<close>

lemma append_step:
  assumes ok: "store_ok db schema tr" and sch: "schema \<in> set CALLER_MOVE_REVISIONS"
    and f1: "file_tables_only (db\<lparr>t_revisions := t_revisions db @ [r],
      t_append_guards := (if rv_revision_number r > 1 then t_append_guards db @ [rev_key r]
        else t_append_guards db)\<rparr>) db1"
    and rk: "rev_page_key r = page_key p" and rn: "rv_revision_number r = pg_current_revision_number p + 1"
    and rt: "rv_created_at r = at" and gt: "pg_updated_at p < at"
    and u: "update_pages (\<lambda>q. same_current p q \<and> pg_occurred_at q = pg_occurred_at p
        \<and> pg_deleted_at q = None)
      (\<lambda>q. q\<lparr>pg_current_revision_id := rv_revision_id r,
           pg_current_revision_number := rv_revision_number r, pg_updated_at := at\<rparr>) db1
     = Inr (db', 1)"
  shows "\<exists>new. page_key new = page_key p \<and> new \<in> set (t_pages db')
    \<and> store_ok db' schema (tr(page_key p := tr (page_key p) @ [state_of_page new]))"
proof -
  note t1 = file_tables_only_tables [OF f1, simplified]
  have ch: "rv_revision_number r \<noteq> pg_current_revision_number p" using rn by simp
  let ?g = "(pg_library_id p, pg_page_uid p, rv_revision_id r, rv_revision_number r)"
  obtain old where o: "old \<in> set (t_pages db1)" "same_current p old" "pg_occurred_at old = pg_occurred_at p"
    "pg_deleted_at old = None"
    and db': "db' = (set_page (old\<lparr>pg_current_revision_id := rv_revision_id r,
        pg_current_revision_number := rv_revision_number r, pg_updated_at := at\<rparr>) db1)
       \<lparr>t_append_guards := filter (\<lambda>k. k \<noteq> ?g) (t_append_guards db1)\<rparr>"
    by (rule advance_update_Inr [OF u ch])
  let ?k = "page_key p"
  define new where "new = old\<lparr>pg_current_revision_id := rv_revision_id r,
     pg_current_revision_number := rv_revision_number r, pg_updated_at := at\<rparr>"
  have ko: "page_key old = ?k" and up: "pg_updated_at old = pg_updated_at p"
    and nu: "pg_current_revision_number old = pg_current_revision_number p"
    using o(2) by (auto simp: same_current_def)
  have om: "old \<in> set (t_pages db)" using o(1) t1 by simp
  have kn: "page_key new = page_key old" by (simp add: new_def page_key_def)
  note d = store_distinct [OF ok] and h = store_page_history [OF ok om, unfolded ko]
  have gke: "rev_key r = ?g" using rk by (simp add: rev_key_def rev_page_key_def page_key_def)
  have cl: "guards_clear db" using ok by (simp only: store_ok_def)
  have gc: "guards_clear db'" using cl t1 gke by (auto simp: guards_clear_def db')
  have pages: "t_pages db' = t_pages (set_page new db)" using t1 by (simp add: db' new_def)
  have tb: "t_revisions db' = t_revisions db @ [r]" "t_corrections db' = t_corrections db"
    "t_lifecycle_events db' = t_lifecycle_events db" "t_title_events db' = t_title_events db"
    "t_move_events db' = t_move_events db" "t_books db' = t_books db" "t_audits db' = t_audits db"
    "t_master_audits db' = t_master_audits db"
    using t1 by (simp_all add: db')
  have "\<forall>y \<in> set (filter (\<lambda>x. rev_page_key x = ?k) (t_revisions db)). rv_revision_number y \<le> rv_revision_number r"
    using history_revision_numbers [OF h] nu rn by fastforce
  from sort_key_snoc [OF this] have v: "revisions_of db' ?k = revisions_of db ?k @ [r]"
    using rk by (simp add: revisions_of_def tb)
  have ne: "revisions_of db ?k \<noteq> []" using h by (simp add: history_def)
  have sv: "lifecycle_of db' ?k = lifecycle_of db ?k" "corrections_of db' ?k = corrections_of db ?k"
    "titles_of db' schema ?k = titles_of db schema ?k" "moves_of db' schema ?k = moves_of db schema ?k"
    by (simp_all add: lifecycle_of_def corrections_of_def titles_of_def moves_of_def tb)
  have hist: "history db' schema ?k new (tr ?k @ [state_of_page new])"
  proof (rule history_extend [OF h, where x = "OpRevision r"])
    show "filter (\<lambda>p. page_key p = ?k) (t_pages db') = [new]"
      using filter_set_page(1) [OF d om kn] ko by (simp add: pages)
    show "pg_page_id new = pg_page_id old" "pg_created_at new = pg_created_at old" by (simp_all add: new_def)
    show "revisions_of db' ?k \<noteq> []" "hd (revisions_of db' ?k) = hd (revisions_of db ?k)"
      using ne by (simp_all add: v)
    show "first_state db' schema ?k new = first_state db schema ?k old"
      using ne by (simp add: first_state_def initial_state_def v sv new_def split: list.splits)
    show "mset (page_ops db' schema ?k) = mset (page_ops db schema ?k) + {#OpRevision r#}"
      using ne by (simp add: page_ops_def operations_of_def v sv)
    show "\<exists>q'. seq_linked db' ?k q' \<and> apply_operation db' ?k (pg_page_id old) (state_of_page old, q)
        (OpRevision r) = Inr (state_of_page new, q')" if sl: "seq_linked db ?k q" for q
    proof (intro exI conjI)
      show "seq_linked db' ?k q" using sl by (simp add: seq_linked_def tb)
      show "apply_operation db' ?k (pg_page_id old) (state_of_page old, q) (OpRevision r)
          = Inr (state_of_page new, q)"
        using o(4) rn rt gt up nu by (simp add: state_of_page_def new_def)
    qed
    show "audits_kept db db' ?k (pg_page_id old)" by (rule same_audits_kept) (simp_all add: tb)
    show "no_guards db' schema ?k" using gc guards_clear_no_guards by blast
    show "single_book db' (fst ?k) s" if "single_book db (fst ?k) s" for s
      using that by (simp add: single_book_def tb)
    show "single_book db' (fst ?k) (state_of_page new)"
      using history_single_book [OF h] by (simp add: single_book_def tb state_of_page_def new_def)
  qed
  have "tables_grown (page_key old) db db'"
    using gc rk ko by (auto simp: tables_grown_def tb)
  then show ?thesis
    using step_store_ok [OF ok om kn pages] hist kn by (simp only: ko) blast
qed

end
