(* ===== verification/ReachableStore.thy ===== *)
theory ReachableStore
  imports StoreSteps
begin

text \<open>
  The databases that the page transactions reach, with the states every page went through, and
  what holds of all of them: the history of each page can be reconstructed exactly.
\<close>

section \<open>Statements that no history reads\<close>

definition history_neutral :: "content_db \<Rightarrow> content_db \<Rightarrow> bool" where
  "history_neutral db db' \<longleftrightarrow>
     t_pages db' = t_pages db \<and> t_revisions db' = t_revisions db
     \<and> t_corrections db' = t_corrections db \<and> t_lifecycle_events db' = t_lifecycle_events db
     \<and> t_title_events db' = t_title_events db \<and> t_move_events db' = t_move_events db
     \<and> guards_clear db' \<and> keys_distinct db' \<and> books_kept db db' \<and> (\<forall>k i. audits_kept db db' k i)"

lemma neutral_store_ok:
  assumes ok: "store_ok db schema tr" and n: "history_neutral db db'"
  shows "store_ok db' schema tr"
proof -
  have rk: "rows_kept db db' k" for k
    using n guards_clear_no_guards by (simp add: rows_kept_def history_neutral_def)
  have "history db' schema (page_key p) p (tr (page_key p))" if "p \<in> set (t_pages db')" for p
  proof -
    have "history db schema (page_key p) p (tr (page_key p))"
      using ok n that by (simp add: store_ok_def history_neutral_def)
    moreover have "audits_kept db db' (page_key p) (pg_page_id p)" "books_kept db db'"
      using n by (simp_all only: history_neutral_def)
    ultimately show ?thesis using history_kept [OF _ rk] by blast
  qed
  moreover have "rows_owned db'"
    using ok n by (simp add: store_ok_def rows_owned_def history_neutral_def page_exists_def)
  ultimately show ?thesis using n by (simp add: store_ok_def history_neutral_def)
qed

lemma find_append_Some: "find P xs = Some x \<Longrightarrow> find P (xs @ ys) = Some x"
  by (induction xs) (auto split: if_splits)

lemma audits_kept_append:
  assumes "t_audits db' = t_audits db @ xs" "t_master_audits db' = t_master_audits db @ ys"
  shows "audits_kept db db' k i"
  unfolding audits_kept_def move_audited_def assms
  by (auto simp: find_append_Some split: option.splits)

lemma audits_neutral:
  assumes ok: "store_ok db schema tr"
    and db': "db' = db\<lparr>t_audits := t_audits db @ xs, t_master_audits := t_master_audits db @ ys\<rparr>"
    and d: "distinct (map au_id (t_audits db @ xs))" "distinct (map ma_id (t_master_audits db @ ys))"
  shows "history_neutral db db'"
  using ok d by (auto simp: history_neutral_def store_ok_def guards_clear_def keys_distinct_def db'
      intro!: same_books_kept audits_kept_append [where xs = xs and ys = ys])

lemma insert_audit_neutral:
  assumes ok: "store_ok db schema tr" and a: "insert_audit a db = Inr db'"
  shows "history_neutral db db'"
proof -
  have "au_id a \<notin> au_id ` set (t_audits db)" and db': "db' = db\<lparr>t_audits := t_audits db @ [a]\<rparr>"
    using a by (auto simp: insert_audit_def list_ex_iff split: if_splits)
  then show ?thesis using ok
    by (intro audits_neutral [OF ok, where xs = "[a]" and ys = "[]"])
      (auto simp: store_ok_def keys_distinct_def)
qed

lemma insert_master_audit_neutral:
  assumes ok: "store_ok db schema tr" and a: "insert_master_audit a db = Inr db'"
  shows "history_neutral db db'"
proof -
  have "ma_id a \<notin> ma_id ` set (t_master_audits db)"
    and db': "db' = db\<lparr>t_master_audits := t_master_audits db @ [a]\<rparr>"
    using a by (auto simp: insert_master_audit_def list_ex_iff split: if_splits)
  then show ?thesis using ok
    by (intro audits_neutral [OF ok, where xs = "[]" and ys = "[a]"])
      (auto simp: store_ok_def keys_distinct_def)
qed

lemma other_tables_neutral:
  assumes "store_ok db schema tr"
    and "db' = db\<lparr>t_identifiers := xs, t_counters := ys, t_sources := zs\<rparr>"
  shows "history_neutral db db'"
  using assms by (auto simp: history_neutral_def store_ok_def guards_clear_def keys_distinct_def
      intro!: same_books_kept same_audits_kept)

lemma file_tables_neutral:
  assumes "store_ok db schema tr" and "file_tables_only db db'"
  shows "history_neutral db db'"
proof -
  obtain ws xs ys zs where "db' = db\<lparr>t_file_sets := ws, t_files := xs, t_seals := ys, t_seal_guards := zs\<rparr>"
    using assms(2) unfolding file_tables_only_def by blast
  then show ?thesis using assms(1)
    by (auto simp: history_neutral_def store_ok_def guards_clear_def keys_distinct_def
        intro!: same_books_kept same_audits_kept)
qed

lemma insert_identifier_neutral:
  "store_ok db schema tr \<Longrightarrow> insert_identifier i db = Inr db' \<Longrightarrow> history_neutral db db'"
  by (rule other_tables_neutral [where xs = "t_identifiers db @ [i]" and ys = "t_counters db"
        and zs = "t_sources db"]) (auto simp: insert_identifier_def Let_def split: if_splits)

lemma insert_source_neutral:
  "store_ok db schema tr \<Longrightarrow> insert_source s db = Inr db' \<Longrightarrow> history_neutral db db'"
  by (rule other_tables_neutral [where xs = "t_identifiers db" and ys = "t_counters db"
        and zs = "t_sources db @ [s]"]) (auto simp: insert_source_def split: if_splits)

lemma insert_counter_neutral:
  "store_ok db schema tr \<Longrightarrow> insert_counter c db = Inr db' \<Longrightarrow> history_neutral db db'"
  by (rule other_tables_neutral [where xs = "t_identifiers db" and ys = "t_counters db @ [c]"
        and zs = "t_sources db"]) (auto simp: insert_counter_def split: if_splits)

lemma update_counter_neutral:
  assumes "store_ok db schema tr" "update_counter c n db = Inr (db', m)"
  shows "history_neutral db db'"
  using assms by (intro other_tables_neutral [where xs = "t_identifiers db" and ys = "t_counters db'"
        and zs = "t_sources db"]) (auto simp: update_counter_def split: if_splits)

definition add_book :: "book_row \<Rightarrow> content_db \<Rightarrow> content_db sql" where
  "add_book b db =
     (if list_ex (\<lambda>x. bk_id x = bk_id b) (t_books db) then Inl SqlError
      else Inr (db\<lparr>t_books := t_books db @ [b]\<rparr>))"

lemma add_book_neutral:
  assumes ok: "store_ok db schema tr" and b: "add_book b db = Inr db'"
  shows "history_neutral db db'"
proof -
  have db': "db' = db\<lparr>t_books := t_books db @ [b]\<rparr>"
    and f: "\<forall>x \<in> set (t_books db). bk_id x \<noteq> bk_id b"
    using b by (auto simp: add_book_def list_ex_iff split: if_splits)
  have "single_book db' l s" if s: "single_book db l s" for l s
  proof -
    have "filter (\<lambda>b. bk_library_id b = l \<and> bk_section_id b = ps_section_id s \<and> bk_id b = ps_book_id s)
        (t_books db) \<noteq> []" using s by (auto simp: single_book_def)
    then have "bk_id b \<noteq> ps_book_id s" using f by (auto simp: filter_empty_conv)
    then show ?thesis using s by (simp add: single_book_def db')
  qed
  then have "books_kept db db'" by (simp add: books_kept_def)
  moreover have "audits_kept db db' k i" for k i by (rule same_audits_kept) (simp_all add: db')
  ultimately show ?thesis
    using ok f by (auto simp: history_neutral_def store_ok_def guards_clear_def keys_distinct_def db')
qed

section \<open>Creating a page\<close>

text \<open>The rows of a new page in the order the services insert them.\<close>

definition create_rows ::
  "(bytes \<Rightarrow> bytes) \<Rightarrow> page \<Rightarrow> revision \<Rightarrow> page_identifier \<Rightarrow> content_db \<Rightarrow> content_db sql" where
  "create_rows sha p r i db =
     bindR (add_page sha p db) (\<lambda>db1. bindR (add_revision r db1) (add_identifier i))"

lemma filter_unowned:
  "list_all (\<lambda>r. page_exists db (key r)) rows \<Longrightarrow> \<not> page_exists db k \<Longrightarrow> filter (\<lambda>r. key r = k) rows = []"
  by (auto simp: list_all_iff filter_empty_conv)

lemma create_step:
  assumes ok: "store_ok db schema tr"
    and w: "create_rows sha p r i db = Inr db'"
    and rk: "rev_page_key r = page_key p" and rt: "rv_created_at r = pg_created_at p"
    and up: "pg_updated_at p = pg_created_at p"
  shows "\<not> page_exists db (page_key p)" and "p \<in> set (t_pages db')"
    and "store_ok db' schema (tr(page_key p := [state_of_page p]))"
proof -
  let ?k = "page_key p"
  obtain db1 db2 where a: "insert_page p db = Inr db1" and b: "insert_revision r db1 = Inr db2"
    and c: "insert_identifier i db2 = Inr db'"
    using w by (auto simp: create_rows_def add_page_def add_revision_def add_identifier_def result_simps
        split: if_splits)
  have db1: "db1 = db\<lparr>t_pages := t_pages db @ [p]\<rparr>" and n1: "pg_current_revision_number p = 1"
    and nd: "pg_deleted_at p = None" and fresh: "\<not> page_exists db ?k"
    and bk: "book_exists db (pg_library_id p) (pg_section_id p) (pg_book_id p)"
    using a by (auto simp: insert_page_def Let_def split: if_splits)
  show "\<not> page_exists db ?k" by (rule fresh)
  have ro: "rows_owned db" and cl: "guards_clear db" and kd: "keys_distinct db"
    and hs: "\<And>q. q \<in> set (t_pages db) \<Longrightarrow> history db schema (page_key q) q (tr (page_key q))"
    using ok by (auto simp only: store_ok_def)
  have pd: "distinct (map page_key (t_pages db1))"
    using kd fresh by (auto simp: keys_distinct_def db1 page_exists_def list_ex_iff)
  have nr: "filter (\<lambda>x. rev_page_key x = ?k) (t_revisions db) = []"
    "filter (\<lambda>x. co_key x = ?k) (t_corrections db) = []" "filter (\<lambda>x. le_key x = ?k) (t_lifecycle_events db) = []"
    "filter (\<lambda>x. te_key x = ?k) (t_title_events db) = []" "filter (\<lambda>x. me_key x = ?k) (t_move_events db) = []"
    by (rule filter_unowned [OF _ fresh], use ro in \<open>simp only: rows_owned_def\<close>)+
  note ir = insert_revision_Inr [OF b]
  have "list_ex (\<lambda>q. page_key q = ?k \<and> rv_revision_number r = 1
      \<and> pg_current_revision_id q = rv_revision_id r) (t_pages db1)"
    using ir(2) nr(1) rk by (auto simp: revision_sequential_def list_ex_iff db1 filter_empty_conv)
  then obtain q where q: "q \<in> set (t_pages db1)" "page_key q = ?k" "rv_revision_number r = 1"
    "pg_current_revision_id q = rv_revision_id r" by (auto simp: list_ex_iff)
  have "p \<in> set (t_pages db1)" by (simp add: db1)
  then have qp: "q = p" using q pd by (auto simp: distinct_map inj_on_def)
  note t2 = file_tables_only_tables [OF ir(1), simplified]
  have db': "db' = db2\<lparr>t_identifiers := t_identifiers db2 @ [i]\<rparr>"
    using c by (auto simp: insert_identifier_def Let_def split: if_splits)
  have tb: "t_pages db' = t_pages db @ [p]" "t_revisions db' = t_revisions db @ [r]"
    "t_corrections db' = t_corrections db" "t_lifecycle_events db' = t_lifecycle_events db"
    "t_title_events db' = t_title_events db" "t_move_events db' = t_move_events db"
    "t_books db' = t_books db" "t_audits db' = t_audits db" "t_master_audits db' = t_master_audits db"
    "t_correction_guards db' = t_correction_guards db" "t_lifecycle_guards db' = t_lifecycle_guards db"
    "t_move_guards db' = t_move_guards db" "t_append_guards db' = t_append_guards db"
    using t2 q(3) by (simp_all add: db' db1)
  show "p \<in> set (t_pages db')" by (simp add: tb)
  have gc: "guards_clear db'" using cl by (simp add: guards_clear_def tb)
  have kd': "keys_distinct db'" using kd pd by (simp add: keys_distinct_def tb db1)
  have pe: "page_exists db' k \<longleftrightarrow> page_exists db k \<or> k = ?k" for k by (auto simp: page_exists_def tb)
  have ro': "rows_owned db'" using ro rk by (auto simp: rows_owned_def pe tb list_all_iff)
  have views: "revisions_of db' ?k = [r]" "corrections_of db' ?k = []" "lifecycle_of db' ?k = []"
    "titles_of db' schema ?k = []" "moves_of db' schema ?k = []"
    using nr rk by (simp_all add: revisions_of_def corrections_of_def lifecycle_of_def titles_of_def
        moves_of_def tb)
  have fs: "first_state db' schema ?k p = state_of_page p"
    using q qp nd n1 up by (simp add: first_state_def initial_state_def views state_of_page_def)
  have "filter (\<lambda>x. page_key x = ?k) (t_pages db') = [p]"
    using fresh by (auto simp: tb page_exists_def list_ex_iff filter_empty_conv)
  moreover have "seq_linked db' ?k no_sequences"
    using nr by (simp add: seq_linked_def tb next_sequence_def no_sequences_def)
  moreover have "single_book db' (fst ?k) (state_of_page p)"
    using single_book_exists [OF kd bk] by (simp add: single_book_def tb page_key_def state_of_page_def)
  ultimately have hp: "history db' schema ?k p [state_of_page p]"
    using rt q guards_clear_no_guards [OF gc]
    by (simp add: history_def views fs page_ops_def operations_of_def)
  have "history db' schema (page_key x) x ((tr(?k := [state_of_page p])) (page_key x))"
    if x: "x \<in> set (t_pages db')" for x
  proof (cases "x = p")
    case True
    then show ?thesis using hp by simp
  next
    case False
    then have xm: "x \<in> set (t_pages db)" using x by (simp add: tb)
    then have xk: "page_key x \<noteq> ?k" using fresh by (auto simp: page_exists_def list_ex_iff)
    have "rows_kept db db' (page_key x)"
      using xk rk guards_clear_no_guards [OF gc] by (simp add: rows_kept_def tb)
    then show ?thesis
      using history_kept [OF hs [OF xm]] same_audits_kept [of db' db] same_books_kept [of db' db] xk
      by (simp add: tb)
  qed
  then show "store_ok db' schema (tr(?k := [state_of_page p]))"
    using ro' gc kd' by (simp add: store_ok_def)
qed

section \<open>The transactions and the databases they reach\<close>

text \<open>
  The statements the transactions run outside the pages and their histories: books, identifiers
  after the creation, sources, counters, audit rows and the file tables of a first Revision.
\<close>

inductive side_statement :: "content_db \<Rightarrow> content_db \<Rightarrow> bool" where
  book: "add_book b db = Inr db' \<Longrightarrow> side_statement db db'"
| page_identifier: "add_identifier i db = Inr db' \<Longrightarrow> side_statement db db'"
| source: "add_source_row s db = Inr db' \<Longrightarrow> side_statement db db'"
| counter: "add_collision_counter c db = Inr db' \<Longrightarrow> side_statement db db'"
| advance: "advance_collision_counter c n db = Inr (db', c') \<Longrightarrow> side_statement db db'"
| audit: "insert_audit a db = Inr db' \<Longrightarrow> side_statement db db'"
| master_audit: "insert_master_audit m db = Inr db' \<Longrightarrow> side_statement db db'"
| file_set: "insert_file_set s db = Inr db' \<Longrightarrow> side_statement db db'"
| stored_file: "insert_file f db = Inr db' \<Longrightarrow> side_statement db db'"
| seal: "insert_seal k db = Inr db' \<Longrightarrow> side_statement db db'"

lemma side_statement_neutral:
  assumes "side_statement db db'" "store_ok db schema tr"
  shows "history_neutral db db'"
  using assms(1)
proof cases
  case (book b)
  then show ?thesis using add_book_neutral [OF assms(2)] by blast
next
  case (page_identifier i)
  then show ?thesis using insert_identifier_neutral [OF assms(2)] by (simp add: add_identifier_def)
next
  case (source s)
  then show ?thesis using insert_source_neutral [OF assms(2)] by (simp add: add_source_row_def)
next
  case (counter c)
  then show ?thesis using insert_counter_neutral [OF assms(2)] by (simp add: add_collision_counter_def)
next
  case (advance c n c')
  then obtain m where "update_counter c n db = Inr (db', m)"
    by (auto simp: advance_collision_counter_def result_simps)
  then show ?thesis using update_counter_neutral [OF assms(2)] by blast
next
  case (audit a)
  then show ?thesis using insert_audit_neutral [OF assms(2)] by blast
next
  case (master_audit m)
  then show ?thesis using insert_master_audit_neutral [OF assms(2)] by blast
next
  case (file_set s)
  then show ?thesis by (rule file_tables_neutral [OF assms(2) insert_file_set_tables])
next
  case (stored_file f)
  then show ?thesis by (rule file_tables_neutral [OF assms(2) insert_file_tables])
next
  case (seal k)
  then show ?thesis by (rule file_tables_neutral [OF assms(2) insert_seal_tables])
qed

text \<open>
  The transactions that change an existing page. The page \<open>p\<close> is the row the service read; it may
  be stale, then the statement fails. An appended Revision is numbered from that row.
\<close>

inductive page_transaction :: "page \<Rightarrow> content_db \<Rightarrow> content_db \<Rightarrow> bool" where
  append: "\<lbrakk>rev_page_key r = page_key p; rv_revision_number r = pg_current_revision_number p + 1;
      add_revision r db = Inr db1; advance_current_revision p r at db1 = Inr (db', Some p')\<rbrakk>
    \<Longrightarrow> page_transaction p db db'"
| append_files: "\<lbrakk>pg_updated_at p < at; add_file_set_revision p rid at m db = Inr db1;
      advance_file_set_current_revision p rid at db1 = Inr (db', Some p')\<rbrakk>
    \<Longrightarrow> page_transaction p db db'"
| correct: "correct_occurrence_row p c db = Inr (db', p', row)
    \<Longrightarrow> page_transaction p db db'"
| lifecycle: "transition_page_lifecycle_row p action caller home master req at db = Inr (db', p', event)
    \<Longrightarrow> page_transaction p db db'"
| retitle: "\<lbrakk>title \<noteq> pg_title p; update_page_title p title at db = Inr (db', Some p')\<rbrakk>
    \<Longrightarrow> page_transaction p db db'"
| move: "\<lbrakk>mp_sequence plan \<noteq> None; apply_page_move plan master caller db = Inr db'\<rbrakk>
    \<Longrightarrow> page_transaction (mp_page plan) db db'"

definition empty_db :: content_db where
  "empty_db =
     \<lparr>t_books = [], t_pages = [], t_revisions = [], t_file_sets = [], t_files = [], t_seals = [],
      t_seal_guards = [], t_identifiers = [], t_counters = [], t_sources = [], t_append_guards = [],
      t_corrections = [], t_correction_guards = [], t_lifecycle_events = [], t_lifecycle_guards = [],
      t_title_events = [], t_move_events = [], t_move_guards = [], t_audits = [],
      t_master_audits = []\<rparr>"

text \<open>
  One step of the store, with the trace of every page: the state of its row after every
  transaction that changed it. The reachable stores are those that steps lead to from nothing.
\<close>

type_synonym traces = "page_key \<Rightarrow> page_state list"

inductive store_step ::
  "(bytes \<Rightarrow> bytes) \<Rightarrow> content_db \<times> traces \<Rightarrow> content_db \<times> traces \<Rightarrow> bool" for sha where
  side: "side_statement db db' \<Longrightarrow> store_step sha (db, tr) (db', tr)"
| create: "\<lbrakk>create_rows sha p r i db = Inr db'; rev_page_key r = page_key p;
      rv_created_at r = pg_created_at p; pg_updated_at p = pg_created_at p\<rbrakk>
    \<Longrightarrow> store_step sha (db, tr) (db', tr(page_key p := [state_of_page p]))"
| change: "\<lbrakk>page_transaction p db db'; new \<in> set (t_pages db'); page_key new = page_key p\<rbrakk>
    \<Longrightarrow> store_step sha (db, tr) (db', tr(page_key p := tr (page_key p) @ [state_of_page new]))"

inductive_cases page_transactionE: "page_transaction p db db'"
inductive_cases store_stepE: "store_step sha (db, tr) (db', tr')"

definition store_steps ::
  "(bytes \<Rightarrow> bytes) \<Rightarrow> content_db \<times> traces \<Rightarrow> content_db \<times> traces \<Rightarrow> bool" where
  "store_steps sha = (store_step sha)\<^sup>*\<^sup>*"

definition reachable :: "(bytes \<Rightarrow> bytes) \<Rightarrow> content_db \<Rightarrow> traces \<Rightarrow> bool" where
  "reachable sha db tr \<longleftrightarrow> store_steps sha (empty_db, \<lambda>_. []) (db, tr)"

lemma reachable_start: "reachable sha empty_db (\<lambda>_. [])"
  by (simp add: reachable_def store_steps_def)

lemma reachable_step: "reachable sha db tr \<Longrightarrow> store_step sha (db, tr) (db', tr') \<Longrightarrow> reachable sha db' tr'"
  by (auto simp: reachable_def store_steps_def intro: rtranclp.rtrancl_into_rtrancl)

lemma append_transaction_step:
  assumes ok: "store_ok db schema tr" and sch: "schema \<in> set CALLER_MOVE_REVISIONS"
    and rk: "rev_page_key r = page_key p" and rn: "rv_revision_number r = pg_current_revision_number p + 1"
    and a: "add_revision r db = Inr db1" and u: "advance_current_revision p r at db1 = Inr (db', Some p')"
  shows "\<exists>new. page_key new = page_key p \<and> new \<in> set (t_pages db')
    \<and> store_ok db' schema (tr(page_key p := tr (page_key p) @ [state_of_page new]))"
proof -
  have at: "rv_created_at r = at" "pg_updated_at p < at"
    using u by (auto simp: advance_current_revision_def split: if_splits)
  show ?thesis
    by (rule append_step [OF ok sch insert_revision_Inr(1) [OF a [unfolded add_revision_def]] rk rn at])
      (use u in \<open>auto simp: advance_current_revision_def Let_def result_simps split: if_splits\<close>)
qed

lemma append_files_transaction_step:
  assumes ok: "store_ok db schema tr" and sch: "schema \<in> set CALLER_MOVE_REVISIONS"
    and at: "pg_updated_at p < at" and a: "add_file_set_revision p rid at m db = Inr db1"
    and u: "advance_file_set_current_revision p rid at db1 = Inr (db', Some p')"
  shows "\<exists>new. page_key new = page_key p \<and> new \<in> set (t_pages db')
    \<and> store_ok db' schema (tr(page_key p := tr (page_key p) @ [state_of_page new]))"
proof -
  let ?r = "\<lparr>rv_library_id = pg_library_id p, rv_revision_id = rid, rv_page_uid = pg_page_uid p,
         rv_revision_number = pg_current_revision_number p + 1, rv_content_md = None,
         rv_content_size_bytes = None, rv_content_sha256 = None, rv_created_at = at\<rparr>"
  obtain d1 d2 d3 fs set k where i: "insert_revision ?r db = Inr d1" and s: "insert_file_set set d1 = Inr d2"
    and f: "insert_files fs d2 = Inr d3" and l: "insert_seal k d3 = Inr db1"
    using a by (auto simp: add_file_set_revision_def Let_def result_simps)
  have "file_tables_only d1 db1"
    using insert_file_set_tables [OF s] insert_files_tables [OF f] insert_seal_tables [OF l]
      file_tables_only_trans by blast
  then have "file_tables_only (db\<lparr>t_revisions := t_revisions db @ [?r],
      t_append_guards := (if rv_revision_number ?r > 1 then t_append_guards db @ [rev_key ?r]
        else t_append_guards db)\<rparr>) db1"
    using insert_revision_Inr(1) [OF i] file_tables_only_trans by blast
  then show ?thesis
    by (rule append_step [OF ok sch])
      (use at u in \<open>auto simp: rev_page_key_def page_key_def advance_file_set_current_revision_def
        Let_def result_simps split: if_splits\<close>)
qed

lemma page_transaction_step:
  assumes t: "page_transaction p db db'" and ok: "store_ok db schema tr"
    and sch: "schema \<in> set CALLER_MOVE_REVISIONS"
  shows "\<exists>new. page_key new = page_key p \<and> new \<in> set (t_pages db')
    \<and> store_ok db' schema (tr(page_key p := tr (page_key p) @ [state_of_page new]))"
  using t
proof cases
  case (append r db1 at p')
  then show ?thesis using append_transaction_step [OF ok sch] by blast
next
  case (append_files at rid m db1 p')
  then show ?thesis using append_files_transaction_step [OF ok sch] by blast
next
  case (correct c p' row)
  let ?g = "c\<lparr>cg_corrected_at := max (cg_corrected_at c) (pg_updated_at p + 1),
    cg_sequence := next_sequence co_key (\<lambda>c. cg_sequence (co_guard c)) (page_key p) (t_corrections db)\<rparr>"
  have "write_correction p ?g db = Inr (db', p', row)" "cg_key ?g = page_key p"
    "cg_old_occurred_at ?g = pg_occurred_at p" "pg_updated_at p < cg_corrected_at ?g"
    using correct by (auto simp: correct_occurrence_row_def Let_def cg_key_def split: if_splits)
  then show ?thesis using correction_step [OF ok sch] by blast
next
  case (lifecycle action caller home master req at p' event)
  let ?g = "\<lparr>le_library_id = pg_library_id p, le_page_uid = pg_page_uid p,
      le_sequence = next_sequence le_key le_sequence (page_key p) (t_lifecycle_events db),
      le_action = action, le_section_id = pg_section_id p,
      le_old_deleted_at = pg_deleted_at p, le_old_updated_at = pg_updated_at p,
      le_changed_at = max at (pg_updated_at p + 1),
      le_at_revision_number = pg_current_revision_number p,
      le_occurred_at_at_event = pg_occurred_at p, le_actor_caller_id = caller,
      le_actor_home_library_id = home, le_master_audit_event_id = master, le_request_id = req\<rparr>"
  have w: "write_lifecycle p ?g db = Inr (db', p', event)"
    and ga: "(action = lit ''delete'') = (pg_deleted_at p = None)"
    using lifecycle by (auto simp: transition_page_lifecycle_row_def Let_def split: if_splits)
  show ?thesis
    by (rule lifecycle_step [OF ok sch w]) (simp_all add: le_key_def page_key_def ga)
next
  case (retitle title at p')
  then show ?thesis using title_step [OF ok sch] by blast
next
  case (move plan master caller)
  then obtain n where n: "mp_sequence plan = Some n" by blast
  show ?thesis unfolding move(1)
    by (rule move_step [OF ok sch])
      (use move(3) n in \<open>auto simp: apply_page_move_def me_key_def page_key_def Let_def split: if_splits\<close>)
qed

lemma empty_store_ok: "store_ok empty_db schema (\<lambda>_. [])"
  by (simp add: store_ok_def rows_owned_def guards_clear_def keys_distinct_def empty_db_def)

lemma store_step_ok:
  assumes s: "store_step sha (db, tr) (db', tr')" and ok: "store_ok db schema tr"
    and sch: "schema \<in> set CALLER_MOVE_REVISIONS"
  shows "store_ok db' schema tr'"
  using s
proof cases
  case side
  then show ?thesis using neutral_store_ok [OF ok] side_statement_neutral [OF _ ok] by blast
next
  case (create p r i)
  show ?thesis unfolding create(1) by (rule create_step(3) [OF ok create(2-5)])
next
  case (change p new)
  obtain n where n: "page_key n = page_key p" "n \<in> set (t_pages db')"
    "store_ok db' schema (tr(page_key p := tr (page_key p) @ [state_of_page n]))"
    using page_transaction_step [OF change(2) ok sch] by blast
  moreover have "distinct (map page_key (t_pages db'))" by (rule store_distinct [OF n(3)])
  ultimately have e: "n = new" using change(3,4) n(1,2) by (auto simp: distinct_map inj_on_def)
  show ?thesis using n(3) unfolding e change(1) .
qed

lemma store_steps_induct [consumes 1, case_names refl step]:
  assumes "store_steps sha (db, tr) (db', tr')"
    and "P db tr"
    and "\<And>d t d' t'. store_steps sha (db, tr) (d, t) \<Longrightarrow> store_step sha (d, t) (d', t') \<Longrightarrow> P d t \<Longrightarrow> P d' t'"
  shows "P db' tr'"
  using assms(1) unfolding store_steps_def
proof (induction "(db', tr')" arbitrary: db' tr' rule: rtranclp_induct)
  case base
  then show ?case using assms(2) by simp
next
  case (step y)
  obtain d t where "y = (d, t)" by (cases y)
  then show ?case using step assms(3) by (simp add: store_steps_def)
qed

lemma reachable_store_ok:
  assumes "reachable sha db tr" and sch: "schema \<in> set CALLER_MOVE_REVISIONS"
  shows "store_ok db schema tr"
  using assms(1) unfolding reachable_def
proof (induction rule: store_steps_induct)
  case refl
  show ?case by (rule empty_store_ok)
next
  case (step d t d' t')
  then show ?case using store_step_ok sch by blast
qed

section \<open>Traces only grow\<close>

lemma page_row_unique:
  "store_ok db schema tr \<Longrightarrow> p \<in> set (t_pages db) \<Longrightarrow> q \<in> set (t_pages db) \<Longrightarrow> page_key p = page_key q
   \<Longrightarrow> p = q"
  using store_distinct by (fastforce simp: distinct_map inj_on_def)

lemma store_trace_last:
  assumes "store_ok db schema tr" "p \<in> set (t_pages db)"
  shows "tr (page_key p) \<noteq> []" and "last (tr (page_key p)) = state_of_page p"
    and "sorted_wrt (<) (map ps_updated_at (tr (page_key p)))"
  using history_last [OF store_page_history [OF assms]] history_times [OF store_page_history [OF assms]]
  by simp_all

lemma update_pages_found:
  "update_pages c f db = Inr (db', n) \<Longrightarrow> n \<noteq> 0 \<Longrightarrow> \<exists>q \<in> set (t_pages db). c q"
  by (auto simp: update_pages_def find_Some_iff dest: nth_mem split: option.splits)

text \<open>Every transaction is conditional on the row it read.\<close>

definition row_as_read :: "page \<Rightarrow> content_db \<Rightarrow> bool" where
  "row_as_read p db \<longleftrightarrow> (\<exists>q \<in> set (t_pages db). page_key q = page_key p \<and> pg_updated_at q = pg_updated_at p)"

lemma insert_revision_pages: "insert_revision r db = Inr db' \<Longrightarrow> t_pages db' = t_pages db"
  using file_tables_only_tables [OF insert_revision_Inr(1)] by simp

definition reads_row :: "page \<Rightarrow> (page \<Rightarrow> bool) \<Rightarrow> bool" where
  "reads_row p c \<longleftrightarrow> (\<forall>q. c q \<longrightarrow> page_key q = page_key p \<and> pg_updated_at q = pg_updated_at p)"

lemma page_transaction_update:
  assumes t: "page_transaction p db db'"
  shows "\<exists>c f db1. t_pages db1 = t_pages db \<and> update_pages c f db1 = Inr (db', 1) \<and> reads_row p c"
  using t
proof cases
  case (append r db1 at p')
  have "t_pages db1 = t_pages db"
    by (rule insert_revision_pages [OF append(3) [unfolded add_revision_def]])
  moreover obtain f where "update_pages (\<lambda>q. same_current p q \<and> pg_occurred_at q = pg_occurred_at p
      \<and> pg_deleted_at q = None) f db1 = Inr (db', 1)"
    using append(4) by (auto simp: advance_current_revision_def Let_def result_simps split: if_splits)
  ultimately show ?thesis by (fastforce simp: reads_row_def same_current_def)
next
  case (append_files at rid m db1 p')
  obtain d1 d2 d3 r fs set k where i: "insert_revision r db = Inr d1" and s: "insert_file_set set d1 = Inr d2"
    and f: "insert_files fs d2 = Inr d3" and l: "insert_seal k d3 = Inr db1"
    using append_files(2) by (auto simp: add_file_set_revision_def Let_def result_simps)
  have "t_pages db1 = t_pages db"
    using insert_revision_pages [OF i] file_tables_only_tables [OF insert_file_set_tables [OF s]]
      file_tables_only_tables [OF insert_files_tables [OF f]]
      file_tables_only_tables [OF insert_seal_tables [OF l]] by simp
  moreover obtain f where "update_pages (\<lambda>q. same_current p q \<and> pg_occurred_at q = pg_occurred_at p
      \<and> pg_deleted_at q = None) f db1 = Inr (db', 1)"
    using append_files(3)
    by (auto simp: advance_file_set_current_revision_def Let_def result_simps split: if_splits)
  ultimately show ?thesis by (fastforce simp: reads_row_def same_current_def)
next
  case (correct c p' row)
  then obtain g where w: "write_correction p g db = Inr (db', p', row)"
    by (auto simp: correct_occurrence_row_def Let_def split: if_splits)
  then obtain db1 f where g: "insert_correction_guard g db = Inr db1"
    and u: "update_pages (\<lambda>q. same_current p q \<and> pg_occurred_at q = pg_occurred_at p) f db1 = Inr (db', 1)"
    by (auto simp: write_correction_def Let_def result_simps split: if_splits option.splits)
  have "t_pages db1 = t_pages db" using g by (auto simp: insert_correction_guard_def split: if_splits)
  with u show ?thesis by (fastforce simp: reads_row_def same_current_def)
next
  case (lifecycle action caller home master req at p' event)
  then obtain g where w: "write_lifecycle p g db = Inr (db', p', event)"
    by (auto simp: transition_page_lifecycle_row_def Let_def split: if_splits)
  then obtain db1 c f where g: "insert_lifecycle_guard g db = Inr db1"
    and u: "update_pages (\<lambda>q. same_current p q \<and> c q) f db1 = Inr (db', 1)"
    by (auto simp: write_lifecycle_def Let_def result_simps split: if_splits option.splits)
  have "t_pages db1 = t_pages db" using g by (auto simp: insert_lifecycle_guard_def split: if_splits)
  with u show ?thesis by (fastforce simp: reads_row_def same_current_def)
next
  case (retitle title at p')
  then obtain c f where u: "update_pages (\<lambda>q. same_current p q \<and> c q) f db = Inr (db', 1)"
    by (auto simp: update_page_title_def result_simps split: if_splits)
  then show ?thesis by (fastforce simp: reads_row_def same_current_def)
next
  case (move plan master caller)
  then obtain g where w: "write_move p g db = Inr db'"
    by (auto simp: apply_page_move_def Let_def split: if_splits option.splits)
  then obtain db1 f where g: "insert_move_guard g db = Inr db1"
    and u: "update_pages (\<lambda>q. page_key q = page_key p \<and> pg_section_id q = pg_section_id p
          \<and> pg_book_id q = pg_book_id p \<and> pg_updated_at q = pg_updated_at p
          \<and> pg_deleted_at q = None) f db1 = Inr (db', 1)"
    by (auto simp: write_move_def Let_def result_simps split: if_splits)
  have "t_pages db1 = t_pages db" using g by (auto simp: insert_move_guard_def split: if_splits)
  with u show ?thesis by (fastforce simp: reads_row_def)
qed

lemma page_transaction_current: "page_transaction p db db' \<Longrightarrow> row_as_read p db"
  using page_transaction_update update_pages_found
  by (fastforce simp: reads_row_def row_as_read_def)

text \<open>An update keeps every row and its page identifier, none with an earlier time.\<close>

definition pages_advance :: "content_db \<Rightarrow> content_db \<Rightarrow> bool" where
  "pages_advance db db' \<longleftrightarrow>
     (\<forall>q \<in> set (t_pages db). \<exists>q' \<in> set (t_pages db'). page_key q' = page_key q
        \<and> pg_page_id q' = pg_page_id q \<and> pg_updated_at q \<le> pg_updated_at q')"

lemma record_pages:
  "record_occurrence old new db = Inr db' \<Longrightarrow> t_pages db' = t_pages db"
  "record_lifecycle old new db = Inr db' \<Longrightarrow> t_pages db' = t_pages db"
  "record_title old new db = Inr db' \<Longrightarrow> t_pages db' = t_pages db"
  "record_move old new db = Inr db' \<Longrightarrow> t_pages db' = t_pages db"
  by (auto simp: record_occurrence_def record_lifecycle_def record_title_def record_move_def Let_def
      split: if_splits option.splits list.splits)

lemma update_pages_advance:
  assumes u: "update_pages c f db = Inr (db', n)" and d: "distinct (map page_key (t_pages db))"
  shows "pages_advance db db'"
proof (cases "find c (t_pages db)")
  case None
  then show ?thesis using u by (auto simp: update_pages_def pages_advance_def)
next
  case (Some old)
  then have o: "old \<in> set (t_pages db)" by (auto simp: find_Some_iff)
  have b: "before_page_update db old (f old)" and pg: "t_pages db' = t_pages (set_page (f old) db)"
    using u Some record_pages
    by (auto simp: update_pages_def Let_def result_simps clear_append_guard_def split: if_splits)
  have k: "page_key (f old) = page_key old" "pg_page_id (f old) = pg_page_id old"
    and t: "pg_updated_at old \<le> pg_updated_at (f old)"
    using b by (auto simp: before_page_update_def stable_identity_def)
  have "q = old" if "q \<in> set (t_pages db)" "page_key q = page_key old" for q
    using that o d by (auto simp: distinct_map inj_on_def)
  then show ?thesis using k t by (fastforce simp: pages_advance_def pg set_page_def)
qed

text \<open>A row newer than the one that was read stays newer.\<close>

definition row_newer :: "page \<Rightarrow> content_db \<Rightarrow> bool" where
  "row_newer p db \<longleftrightarrow> (\<exists>q \<in> set (t_pages db). page_key q = page_key p \<and> pg_updated_at p < pg_updated_at q)"

lemma row_newer_refused:
  assumes ok: "store_ok db schema tr" and n: "row_newer p db"
  shows "\<not> page_transaction p db db'"
proof
  assume "page_transaction p db db'"
  from page_transaction_current [OF this]
  obtain a where a: "a \<in> set (t_pages db)" "page_key a = page_key p" "pg_updated_at a = pg_updated_at p"
    by (auto simp: row_as_read_def)
  obtain b where b: "b \<in> set (t_pages db)" "page_key b = page_key p" "pg_updated_at p < pg_updated_at b"
    using n by (auto simp: row_newer_def)
  show False using page_row_unique [OF ok a(1) b(1)] a b by simp
qed

lemma transaction_newer:
  assumes ok: "store_ok db schema tr" and t: "page_transaction p db db'"
    and ok': "store_ok db' schema (tr(page_key p := tr (page_key p) @ [state_of_page new]))"
    and new: "new \<in> set (t_pages db')" "page_key new = page_key p"
  shows "q \<in> set (t_pages db) \<Longrightarrow> page_key q = page_key p \<Longrightarrow> pg_updated_at q < pg_updated_at new"
    and "pg_updated_at p < pg_updated_at new"
proof -
  show lt: "pg_updated_at q < pg_updated_at new" if q: "q \<in> set (t_pages db)" "page_key q = page_key p" for q
  proof -
    have "sorted_wrt (<) (map ps_updated_at (tr (page_key p) @ [state_of_page new]))"
      using store_trace_last(3) [OF ok' new(1)] new(2) by simp
    moreover have "state_of_page q \<in> set (tr (page_key p))"
      using store_trace_last(1,2) [OF ok q(1)] q(2) by (metis last_in_set)
    ultimately show ?thesis by (auto simp: sorted_wrt_append state_of_page_def)
  qed
  obtain q where "q \<in> set (t_pages db)" "page_key q = page_key p" "pg_updated_at q = pg_updated_at p"
    using page_transaction_current [OF t] by (auto simp: row_as_read_def)
  then show "pg_updated_at p < pg_updated_at new" using lt by metis
qed

lemma store_step_advance:
  assumes s: "store_step sha (db, tr) (db', tr')" and ok: "store_ok db schema tr"
  shows "pages_advance db db'"
  using s
proof cases
  case side
  then show ?thesis using side_statement_neutral [OF _ ok]
    by (auto simp: history_neutral_def pages_advance_def)
next
  case (create p r i)
  then obtain d1 d2 where "insert_page p db = Inr d1" "insert_revision r d1 = Inr d2"
    "insert_identifier i d2 = Inr db'"
    by (auto simp: create_rows_def add_page_def add_revision_def add_identifier_def result_simps split: if_splits)
  then have "t_pages db' = t_pages db @ [p]" using insert_revision_pages [of r d1 d2]
    by (auto simp: insert_page_def insert_identifier_def Let_def split: if_splits)
  then show ?thesis by (auto simp: pages_advance_def)
next
  case (change p new)
  obtain c f db1 where "t_pages db1 = t_pages db" "update_pages c f db1 = Inr (db', 1)"
    using page_transaction_update [OF change(2)] by blast
  then show ?thesis using update_pages_advance [of c f db1 db' 1] store_distinct [OF ok]
    by (simp add: pages_advance_def)
qed

lemma row_newer_step:
  "store_step sha (db, tr) (db', tr') \<Longrightarrow> store_ok db schema tr \<Longrightarrow> row_newer p db \<Longrightarrow> row_newer p db'"
  using store_step_advance by (fastforce simp: row_newer_def pages_advance_def)

lemma row_newer_steps:
  assumes "store_steps sha (db, tr) (db', tr')" "store_ok db schema tr" "row_newer p db"
    and sch: "schema \<in> set CALLER_MOVE_REVISIONS"
  shows "row_newer p db' \<and> store_ok db' schema tr'"
  using assms(1)
proof (induction rule: store_steps_induct)
  case refl
  then show ?case using assms by simp
next
  case (step d t d' t')
  then show ?case using row_newer_step store_step_ok sch by blast
qed

lemma transaction_row_newer:
  assumes ok: "store_ok db schema tr" and t: "page_transaction p db db'"
    and sch: "schema \<in> set CALLER_MOVE_REVISIONS"
  obtains new where "new \<in> set (t_pages db')" "page_key new = page_key p" "row_newer p db'"
    "store_ok db' schema (tr(page_key p := tr (page_key p) @ [state_of_page new]))"
proof -
  obtain new where n: "page_key new = page_key p" "new \<in> set (t_pages db')"
    and o: "store_ok db' schema (tr(page_key p := tr (page_key p) @ [state_of_page new]))"
    using page_transaction_step [OF t ok sch] by blast
  have "row_newer p db'" using transaction_newer(2) [OF ok t o n(2,1)] n by (auto simp: row_newer_def)
  then show thesis using that n o by blast
qed

end
