(* ===== verification/TimelineTheorems.thy ===== *)
theory TimelineTheorems
  imports ReachableStore
begin

text \<open>
  What the history of a page promises to its readers, over every database the transactions reach,
  and a concrete store on which the promises are exercised.
\<close>

section \<open>A concrete store\<close>

definition zero_sha :: "bytes \<Rightarrow> bytes" where
  "zero_sha b = replicate 32 0"

definition sample_id :: pystr where
  "sample_id = replicate 32 97"

definition sample_uid :: bytes where
  "sample_uid = replicate 16 7"

definition sample_page :: page where
  "sample_page =
     \<lparr>pg_library_id = sample_id, pg_page_uid = sample_uid, pg_section_id = sample_id,
      pg_book_id = sample_id, pg_page_id = lit ''19700101t000000000z-notes'',
      pg_id_scheme = PAGE_ID_SCHEME, pg_id_timestamp_micros = 0, pg_base_slug = lit ''notes'',
      pg_collision_ordinal = 1, pg_title = lit ''Notes'', pg_page_type = lit ''archive'',
      pg_occurred_at = 0, pg_current_revision_id = lit ''rev_'' @ sample_id,
      pg_current_revision_number = 1, pg_created_at = 5, pg_updated_at = 5, pg_deleted_at = None\<rparr>"

definition sample_revision :: revision where
  "sample_revision =
     \<lparr>rv_library_id = sample_id, rv_revision_id = lit ''rev_'' @ sample_id, rv_page_uid = sample_uid,
      rv_revision_number = 1, rv_content_md = Some [104, 105], rv_content_size_bytes = Some 2,
      rv_content_sha256 = Some (replicate 32 0), rv_created_at = 5\<rparr>"

definition sample_identifier :: page_identifier where
  "sample_identifier =
     \<lparr>pi_library_id = sample_id, pi_identifier_digest = replicate 32 0,
      pi_identifier_text = lit ''19700101t000000000z-notes'', pi_id_scheme = PAGE_ID_SCHEME,
      pi_identifier_kind = lit ''canonical'', pi_page_uid = sample_uid, pi_created_at = 5\<rparr>"

definition sample_correction :: correction_guard where
  "sample_correction =
     \<lparr>cg_library_id = sample_id, cg_page_uid = sample_uid, cg_sequence = 1, cg_old_occurred_at = 0,
      cg_new_occurred_at = 1000, cg_actor_caller_id = Some sample_id,
      cg_actor_home_library_id = Some sample_id, cg_master_audit_event_id = None,
      cg_corrected_at = 9\<rparr>"

definition sample_db0 :: content_db where
  "sample_db0 = empty_db\<lparr>t_books := [\<lparr>bk_id = sample_id, bk_section_id = sample_id,
     bk_library_id = sample_id\<rparr>]\<rparr>"

definition sample_file_set :: revision_file_set where
  "sample_file_set =
     \<lparr>fs_key = rev_key sample_revision, fs_storage_format = lit ''legacy_markdown'', fs_file_count = 1,
      fs_total_size_bytes = 2, fs_snapshot_sha256 = None\<rparr>"

definition sample_file :: revision_file where
  "sample_file =
     \<lparr>rf_key = rev_key sample_revision, rf_filename = lit ''content.md'', rf_content_bytes = [104, 105],
      rf_size_bytes = 2, rf_content_sha256 = replicate 32 0\<rparr>"

definition sample_db1 :: content_db where
  "sample_db1 = sample_db0\<lparr>t_pages := [sample_page], t_revisions := [sample_revision],
     t_file_sets := [sample_file_set], t_files := [sample_file], t_seals := [rev_key sample_revision],
     t_seal_guards := [rev_key sample_revision], t_identifiers := [sample_identifier]\<rparr>"

definition sample_page2 :: page where
  "sample_page2 = sample_page\<lparr>pg_occurred_at := 1000, pg_updated_at := 9\<rparr>"

definition sample_db2 :: content_db where
  "sample_db2 = sample_db1\<lparr>t_pages := [sample_page2],
     t_corrections := [\<lparr>co_guard = sample_correction, co_at_revision_number = 1\<rparr>]\<rparr>"

definition sample_trace :: "page_key \<Rightarrow> page_state list" where
  "sample_trace = (\<lambda>k. if k = (sample_id, sample_uid)
     then [state_of_page sample_page, state_of_page sample_page2] else [])"

lemma sample_slug: "slugify_creation_title sha (lit ''Notes'') = Inr (lit ''notes'')"
  by (simp add: slugify_creation_title_def lit_def slug_push_def slug_char_def is_upper_def is_lower_def
      is_digit_def is_surrogate_def MAX_BASE_SLUG_BYTES_def rstrip_def)

lemma sample_prefix: "page_id_timestamp_prefix 0 = Inr (lit ''19700101t000000000z'')" by code_simp

lemma sample_wire: "canonical_utc_wire 0 = Inr (format_utc_microseconds 0)" by code_simp

lemma sample_id_valid:
  "validate_page_id (lit ''19700101t000000000z-notes'') = Inr (lit ''19700101t000000000z-notes'')"
  by code_simp

lemma sample_generated:
  "generate_page_id sha \<lparr>utc_microseconds = 0, canonical_utc = format_utc_microseconds 0\<rparr>
     (lit ''Notes'') 1
   = Inr \<lparr>gp_value = lit ''19700101t000000000z-notes'', gp_timestamp_prefix = lit ''19700101t000000000z'',
          gp_base_slug = lit ''notes'', gp_collision_ordinal = 1\<rparr>"
proof -
  have "lit ''19700101t000000000z'' @ lit ''-'' @ lit ''notes'' = lit ''19700101t000000000z-notes''"
    by (simp add: lit_def)
  then show ?thesis
    by (simp add: generate_page_id_def sample_wire sample_prefix sample_slug sample_id_valid
        validate_collision_ordinal_def MAX_COLLISION_ORDINAL_def)
qed

lemma sample_new_page: "new_page_valid sha sample_page"
proof -
  have s: "page_storage_valid sample_page" by code_simp
  show ?thesis using s by (simp add: new_page_valid_def) (simp add: sample_page_def sample_generated)
qed

lemma sample_insert: "insert_page sample_page sample_db0 = Inr (sample_db0\<lparr>t_pages := [sample_page]\<rparr>)"
  by code_simp
lemma sample_insert_revision:
  "insert_revision sample_revision (sample_db0\<lparr>t_pages := [sample_page]\<rparr>)
   = Inr (sample_db1\<lparr>t_identifiers := []\<rparr>)"
proof -
  let ?d = "sample_db0\<lparr>t_pages := [sample_page], t_revisions := [sample_revision]\<rparr>"
  have s: "revision_sequential sample_revision (sample_db0\<lparr>t_pages := [sample_page]\<rparr>)"
    and c: "revision_check sample_revision" and n: "rv_revision_number sample_revision = 1"
    by code_simp+
  have e: "t_revisions sample_db0 = []" by code_simp
  have f: "insert_file_set sample_file_set ?d = Inr (?d\<lparr>t_file_sets := [sample_file_set]\<rparr>)"
    by code_simp
  have "utf8_encode (lit ''content.md'') = Some [99, 111, 110, 116, 101, 110, 116, 46, 109, 100]"
    by (simp add: utf8_encode_def lit_def is_scalar_def is_surrogate_def cp_units_def)
  then have fc: "file_check sample_file"
    by (simp add: file_check_def sample_file_def trimmed_def) (simp add: lit_def)
  have lg: "list_ex (\<lambda>r. rev_key r = rf_key sample_file \<and> rv_content_md r \<noteq> None) [sample_revision]"
    by code_simp
  let ?d2 = "?d\<lparr>t_file_sets := [sample_file_set], t_files := [sample_file]\<rparr>"
  have sc: "seal_complete (rev_key sample_revision) ?d2" by code_simp
  have k: "rf_key sample_file = rev_key sample_revision" "rf_filename sample_file = lit ''content.md''"
    by (simp_all add: sample_file_def)
  have em: "t_files sample_db0 = []" "t_seals sample_db0 = []" by (simp_all add: sample_db0_def empty_db_def)
  have g: "insert_file sample_file (?d\<lparr>t_file_sets := [sample_file_set]\<rparr>)
      = Inr (?d2\<lparr>t_seals := [rev_key sample_revision]\<rparr>)"
    using fc lg sc by (simp add: insert_file_def insert_seal_def revision_exists_def k em)
  have "mirror_content_file sample_revision ?d = Inr (?d\<lparr>t_file_sets := [sample_file_set],
      t_files := [sample_file], t_seals := [rev_key sample_revision]\<rparr>)"
    using f g by (simp add: mirror_content_file_def sample_file_set_def sample_file_def)
      (simp add: sample_revision_def)
  then show ?thesis using s c n e
    by (simp add: insert_revision_def sample_db1_def sample_db0_def empty_db_def)
qed

lemma sample_create:
  "create_rows sha sample_page sample_revision sample_identifier sample_db0 = Inr sample_db1"
proof -
  have "insert_identifier sample_identifier (sample_db1\<lparr>t_identifiers := []\<rparr>) = Inr sample_db1"
    by code_simp
  then show ?thesis
    by (simp add: create_rows_def add_page_def sample_new_page sample_insert add_revision_def
        sample_insert_revision add_identifier_def)
qed

lemma sample_correct:
  "correct_occurrence_row sample_page sample_correction sample_db1
   = Inr (sample_db2, sample_page2, \<lparr>co_guard = sample_correction, co_at_revision_number = 1\<rparr>)"
  by code_simp

lemma sample_keys:
  "page_key sample_page = (sample_id, sample_uid)" "page_key sample_page2 = (sample_id, sample_uid)"
  by (simp_all add: page_key_def sample_page2_def sample_page_def)

lemma sample_reachable1:
  "reachable sha sample_db1 ((\<lambda>_. [])(page_key sample_page := [state_of_page sample_page]))"
proof -
  have "add_book \<lparr>bk_id = sample_id, bk_section_id = sample_id, bk_library_id = sample_id\<rparr> empty_db
      = Inr sample_db0" by (simp add: add_book_def sample_db0_def empty_db_def)
  then have r0: "reachable sha sample_db0 (\<lambda>_. [])"
    using reachable_step [OF reachable_start] store_step.side side_statement.book by blast
  show ?thesis
    by (rule reachable_step [OF r0 store_step.create [OF sample_create]])
      (simp add: sample_keys rev_page_key_def sample_revision_def,
        simp_all add: sample_revision_def sample_page_def)
qed

lemma sample_reachable: "reachable sha sample_db2 sample_trace"
proof -
  have t: "page_transaction sample_page sample_db1 sample_db2"
    using sample_correct page_transaction.correct by blast
  have m: "sample_page2 \<in> set (t_pages sample_db2)" by (simp add: sample_db2_def)
  have "reachable sha sample_db2 (((\<lambda>_. [])(page_key sample_page := [state_of_page sample_page]))
     (page_key sample_page := [state_of_page sample_page] @ [state_of_page sample_page2]))"
    using reachable_step [OF sample_reachable1 store_step.change [OF t m]] sample_keys by simp
  then show ?thesis by (simp add: sample_keys sample_trace_def fun_upd_def cong: if_cong)
qed

lemma sample_schema: "lit ''20261020_0037'' \<in> set CALLER_MOVE_REVISIONS"
  by (simp add: CALLER_MOVE_REVISIONS_def)

lemma sample_page2_in: "sample_page2 \<in> set (t_pages sample_db2)"
  by (simp add: sample_db2_def)

section \<open>The promises\<close>

text \<open>C4: in every reachable database and for every page of it, the reconstruction succeeds and
  gives back, state by state, exactly what the row of the page was after each transaction.\<close>

theorem timeline_complete:
  assumes "reachable sha db tr" and "p \<in> set (t_pages db)" and "schema \<in> set CALLER_MOVE_REVISIONS"
  shows "load_page_state_timeline db schema (page_key p) =
    Inr \<lparr>tl_library_id = pg_library_id p, tl_page_uid = pg_page_uid p, tl_page_id = pg_page_id p,
         tl_states = tr (page_key p)\<rparr>"
  using history_loads [OF store_page_history [OF reachable_store_ok [OF assms(1,3)] assms(2)]]
  by (simp add: page_key_def)

theorem timeline_complete_witness:
  "load_page_state_timeline sample_db2 (lit ''20261020_0037'') (page_key sample_page2) =
    Inr \<lparr>tl_library_id = sample_id, tl_page_uid = sample_uid,
         tl_page_id = lit ''19700101t000000000z-notes'',
         tl_states = [state_of_page sample_page, state_of_page sample_page2]\<rparr>"
  using timeline_complete [OF sample_reachable sample_page2_in sample_schema]
  by (simp add: sample_page2_def sample_page_def page_key_def sample_trace_def)

text \<open>C9: the states of a page follow each other in strictly increasing time and end in its row; the
  state of an instant is found by that instant alone.\<close>

theorem timeline_ordered:
  assumes "reachable sha db tr" and "p \<in> set (t_pages db)" and "schema \<in> set CALLER_MOVE_REVISIONS"
    and "load_page_state_timeline db schema (page_key p) = Inr t"
  shows "sorted_wrt (<) (map ps_updated_at (tl_states t)) \<and> current_state t = state_of_page p
    \<and> (\<forall>s \<in> set (tl_states t). exact_state t (ps_updated_at s) = Inr s)"
proof -
  have ok: "store_ok db schema tr" by (rule reachable_store_ok [OF assms(1,3)])
  have t: "tl_states t = tr (page_key p)"
    using history_loads [OF store_page_history [OF ok assms(2)]] assms(4) by auto
  note l = store_trace_last [OF ok assms(2)]
  have d: "distinct (map ps_updated_at (tl_states t))"
    using l(3) t by (simp add: strict_sorted_iff)
  have "exact_state t (ps_updated_at s) = Inr s" if "s \<in> set (tl_states t)" for s
    using single_row [OF d that] by (simp add: exact_state_def)
  then show ?thesis using l t by (simp add: current_state_def)
qed

theorem timeline_ordered_witness:
  "\<exists>t. load_page_state_timeline sample_db2 (lit ''20261020_0037'') (page_key sample_page2) = Inr t
     \<and> current_state t = state_of_page sample_page2
     \<and> exact_state t 5 = Inr (state_of_page sample_page)"
proof -
  obtain t where t: "load_page_state_timeline sample_db2 (lit ''20261020_0037'') (page_key sample_page2) = Inr t"
    and s: "state_of_page sample_page \<in> set (tl_states t)"
    using history_loads [OF store_page_history [OF reachable_store_ok [OF sample_reachable sample_schema]
      sample_page2_in]] by (auto simp: sample_trace_def sample_page2_def sample_page_def page_key_def)
  have "ps_updated_at (state_of_page sample_page) = 5" by (simp add: state_of_page_def sample_page_def)
  then show ?thesis
    using timeline_ordered [OF sample_reachable sample_page2_in sample_schema t] t s by metis
qed

text \<open>C5: no update is lost. Once a transaction on a page has succeeded, no later transaction
  prepared from the row it read can, whatever happens to the store in between.\<close>

theorem no_lost_update:
  assumes "reachable sha db tr" and "store_step sha (db, tr) (db1, tr1)" and "page_transaction p db db1"
    and "store_steps sha (db1, tr1) (db2, tr2)"
  shows "\<not> page_transaction p db2 db3"
proof -
  have sch: "lit ''20261020_0037'' \<in> set CALLER_MOVE_REVISIONS" by (rule sample_schema)
  have ok: "store_ok db (lit ''20261020_0037'') tr" by (rule reachable_store_ok [OF assms(1) sch])
  obtain new where "row_newer p db1"
    using transaction_row_newer [OF ok assms(3) sch] by metis
  then have "row_newer p db2 \<and> store_ok db2 (lit ''20261020_0037'') tr2"
    using row_newer_steps [OF assms(4) store_step_ok [OF assms(2) ok sch] _ sch] by blast
  then show ?thesis using row_newer_refused by blast
qed

lemma sample_transaction: "page_transaction sample_page sample_db1 sample_db2"
  using sample_correct page_transaction.correct by blast

theorem no_lost_update_witness:
  "\<not> page_transaction sample_page sample_db2 sample_db2"
proof -
  have r: "reachable sha sample_db1 ((\<lambda>_. [])(page_key sample_page := [state_of_page sample_page]))"
    by (rule sample_reachable1)
  have s: "store_step sha (sample_db1, (\<lambda>_. [])(page_key sample_page := [state_of_page sample_page]))
    (sample_db2, ((\<lambda>_. [])(page_key sample_page := [state_of_page sample_page]))
      (page_key sample_page := ((\<lambda>_. [])(page_key sample_page := [state_of_page sample_page])) (page_key sample_page)
         @ [state_of_page sample_page2]))"
    by (rule store_step.change [OF sample_transaction sample_page2_in])
      (simp add: page_key_def sample_page2_def)
  show ?thesis
    by (rule no_lost_update [OF r s sample_transaction, unfolded store_steps_def, OF rtranclp.rtrancl_refl])
qed

end
