(* ===== verification/PageEtags.thy ===== *)
theory PageEtags
  imports TimelineTheorems
begin

text \<open>
  What an entity tag of a page identifies: \<open>page_current_etag\<close> of \<open>content/service.py\<close> and the tag lookups of
  \<open>content/page_membership_history.py\<close>. The digest is a parameter, so that two different inputs
  with the same tag are shown as a collision of it.
\<close>

section \<open>Eight bytes\<close>

definition collides :: "(bytes \<Rightarrow> bytes) \<Rightarrow> bytes \<Rightarrow> bytes \<Rightarrow> bool" where
  "collides sha x y \<longleftrightarrow> x \<noteq> y \<and> sha x = sha y"

definition etag_input :: "bytes \<Rightarrow> pystr \<Rightarrow> int \<Rightarrow> int \<Rightarrow> int \<Rightarrow> bytes" where
  "etag_input u r n a b = PAGE_ETAG_DOMAIN @ etag_body u r n a b"

lemma length_to_bytes8 [simp]: "length (to_bytes8 n) = 8"
  by (simp add: to_bytes8_def)

lemma word8_digits: "(word_of_int a :: byte) = word_of_int b \<longleftrightarrow> a mod 256 = b mod 256"
  by (simp add: word_of_int_eq_iff take_bit_eq_mod)

lemma digits_eq:
  "(\<And>i. i < n \<Longrightarrow> (a :: int) div 256 ^ i mod 256 = b div 256 ^ i mod 256) \<Longrightarrow> a mod 256 ^ n = b mod 256 ^ n"
proof (induction n)
  case (Suc n)
  have "a mod 256 ^ n = b mod 256 ^ n" by (rule Suc.IH) (simp add: Suc.prems)
  moreover have "a div 256 ^ n mod 256 = b div 256 ^ n mod 256" by (rule Suc.prems) simp
  moreover have "c mod 256 ^ Suc n = 256 ^ n * (c div 256 ^ n mod 256) + c mod 256 ^ n" for c :: int
    by (simp add: mod_mult2_eq' mult.commute [of 256] zmod_zmult2_eq)
  ultimately show ?case by presburger
qed simp

lemma to_bytes8_mod:
  assumes "to_bytes8 a = to_bytes8 b"
  shows "a mod 2 ^ 64 = b mod 2 ^ 64"
proof -
  have "a mod 256 ^ 8 = b mod 256 ^ 8"
  proof (rule digits_eq)
    fix i :: nat assume "i < 8"
    then have "i \<in> set (rev [0..<8])" by simp
    then have "(word_of_int (a div 256 ^ i) :: byte) = word_of_int (b div 256 ^ i)"
      using assms unfolding to_bytes8_def map_eq_conv by blast
    then show "a div 256 ^ i mod 256 = b div 256 ^ i mod 256" by (simp only: word8_digits)
  qed
  then show ?thesis by simp
qed

lemma to_bytes8_inj:
  assumes e: "to_bytes8 a = to_bytes8 b" and r: "- (2 ^ 63) \<le> a" "a < 2 ^ 63" "- (2 ^ 63) \<le> b" "b < 2 ^ 63"
  shows "a = b"
proof -
  have "(a + 2 ^ 63) mod 2 ^ 64 = (b + 2 ^ 63) mod 2 ^ 64"
    by (rule mod_add_cong [OF to_bytes8_mod [OF e] refl])
  then show ?thesis using r by (simp add: mod_pos_pos_trivial)
qed

lemma to_bytes8_range_inj:
  "to_bytes8 a = to_bytes8 b \<Longrightarrow> utc_in_range a \<Longrightarrow> utc_in_range b \<Longrightarrow> a = b"
  "to_bytes8 a = to_bytes8 b \<Longrightarrow> 0 \<le> a \<and> a \<le> MAX_I64 \<Longrightarrow> 0 \<le> b \<and> b \<le> MAX_I64 \<Longrightarrow> a = b"
  by (rule to_bytes8_inj; simp add: utc_in_range_def MIN_value MAX_value MAX_I64_def)+

lemma of_nat_ascii_inj:
  "list_all (\<lambda>c. c < 128) s \<Longrightarrow> list_all (\<lambda>c. c < 128) t \<Longrightarrow> map (of_nat :: nat \<Rightarrow> byte) s = map of_nat t \<Longrightarrow> s = t"
proof (induction s arbitrary: t)
  case (Cons c s)
  then obtain d t' where t: "t = d # t'" by (cases t) auto
  have "unat (of_nat c :: byte) = unat (of_nat d :: byte)" using Cons.prems(3) t by simp
  moreover have "c < 128" "d < 128" using Cons.prems t by simp_all
  ultimately have "c = d" by (simp add: unat_of_nat)
  then show ?case using Cons t by simp
qed simp

lemma revision_id_ascii: "revision_id_pattern r \<Longrightarrow> length r = 36 \<and> list_all (\<lambda>c. c < 128) r"
proof -
  assume r: "revision_id_pattern r"
  have "list_all (\<lambda>c. c < 128) (take 4 r @ drop 4 r)"
    using r by (auto simp: revision_id_pattern_def lit_def list_all_append list_all_iff is_lower_hex_def is_digit_def
        simp del: append_take_drop_id)
  then show ?thesis using r by (simp add: revision_id_pattern_def)
qed

section \<open>What a tag identifies\<close>

lemma etag_body_inj:
  assumes e: "etag_body u r n a b = etag_body u' r' n' a' b'"
    and i: "etag_identity_ok u r n" "etag_identity_ok u' r' n'"
    and a: "utc_in_range a" "utc_in_range a'"
    and b: "0 \<le> b \<and> b \<le> MAX_I64" "0 \<le> b' \<and> b' \<le> MAX_I64"
  shows "u = u' \<and> r = r' \<and> n = n' \<and> a = a' \<and> b = b'"
proof -
  have l: "length u = length u'" "length r = length r'"
    and asc: "list_all (\<lambda>c. c < 128) r" "list_all (\<lambda>c. c < 128) r'"
    using i revision_id_ascii by (auto simp: etag_identity_ok_def)
  have "u = u' \<and> map (of_nat :: nat \<Rightarrow> byte) r = map of_nat r' \<and> to_bytes8 n = to_bytes8 n'
    \<and> to_bytes8 a = to_bytes8 a' \<and> to_bytes8 b = to_bytes8 b'"
    using e l by (simp add: etag_body_def)
  moreover have "0 \<le> n \<and> n \<le> MAX_I64" "0 \<le> n' \<and> n' \<le> MAX_I64"
    using i by (auto simp: etag_identity_ok_def MAX_I64_def MAX_REVISION_NUMBER_def)
  ultimately show ?thesis
    using of_nat_ascii_inj [OF asc] to_bytes8_range_inj a b by blast
qed

lemma etag_collision:
  assumes "page_current_etag sha u r n a b = Inr e" "page_current_etag sha u' r' n' a' b' = Inr e"
  shows "(u = u' \<and> r = r' \<and> n = n' \<and> a = a' \<and> b = b')
    \<or> collides sha (etag_input u r n a b) (etag_input u' r' n' a' b')"
proof -
  have c: "etag_identity_ok u r n" "etag_identity_ok u' r' n'" "utc_in_range a" "utc_in_range a'"
    "0 \<le> b \<and> b \<le> MAX_I64" "0 \<le> b' \<and> b' \<le> MAX_I64"
    and h: "sha (PAGE_ETAG_DOMAIN @ etag_body u r n a b) = sha (PAGE_ETAG_DOMAIN @ etag_body u' r' n' a' b')"
    using assms hex_bytes_inj by (auto simp: page_current_etag_def split: if_splits)
  show ?thesis
  proof (cases "etag_body u r n a b = etag_body u' r' n' a' b'")
    case True
    then show ?thesis using etag_body_inj [OF _ c] by blast
  next
    case False
    then have "PAGE_ETAG_DOMAIN @ etag_body u r n a b \<noteq> PAGE_ETAG_DOMAIN @ etag_body u' r' n' a' b'" by simp
    then show ?thesis using h by (simp add: collides_def etag_input_def)
  qed
qed

definition page_etag_input :: "page \<Rightarrow> bytes" where
  "page_etag_input p = etag_input (pg_page_uid p) (pg_current_revision_id p)
     (pg_current_revision_number p) (pg_occurred_at p) (pg_updated_at p)"

text \<open>C11: an entity tag determines everything a conditional request is about; two states of pages
  that share a tag have the same identity, Revision, occurrence time and update time, unless the
  digest collides on the very inputs of the two tags.\<close>

theorem page_etag_identifies:
  assumes "page_etag sha p = Inr e" and "page_etag sha q = Inr e"
  shows "(pg_page_uid p = pg_page_uid q \<and> pg_current_revision_id p = pg_current_revision_id q
      \<and> pg_current_revision_number p = pg_current_revision_number q
      \<and> pg_occurred_at p = pg_occurred_at q \<and> pg_updated_at p = pg_updated_at q)
    \<or> collides sha (page_etag_input p) (page_etag_input q)"
  using etag_collision [of sha "pg_page_uid p" "pg_current_revision_id p"] assms
  by (auto simp: page_etag_def page_etag_input_def)

theorem page_etag_identifies_witness:
  "\<exists>e. page_etag zero_sha sample_page = Inr e
     \<and> pg_occurred_at sample_page = pg_occurred_at (sample_page\<lparr>pg_title := lit ''Other''\<rparr>)"
proof -
  have o: "etag_identity_ok sample_uid (lit ''rev_'' @ sample_id) 1" by code_simp
  obtain e where e: "page_etag zero_sha sample_page = Inr e"
    using o by (auto simp: page_etag_def page_current_etag_def sample_page_def utc_in_range_def MIN_value
        MAX_value MAX_I64_def)
  then have "page_etag zero_sha (sample_page\<lparr>pg_title := lit ''Other''\<rparr>) = Inr e"
    by (simp add: page_etag_def)
  from page_etag_identifies [OF e this] show ?thesis using e by auto
qed

lemma filter_one:
  assumes "x \<in> set xs" "P x" "distinct xs" and u: "\<And>y. y \<in> set xs \<Longrightarrow> P y \<Longrightarrow> y = x"
  shows "filter P xs = [x]"
proof -
  have "P y \<longleftrightarrow> id y = id x" if "y \<in> set xs" for y
    unfolding id_apply using u [OF that] assms(2) by blast
  then have "filter P xs = filter (\<lambda>y. id y = id x) xs" by (rule filter_cong [OF refl])
  moreover have "filter (\<lambda>y. id y = id x) xs = [x]"
    by (rule single_row) (use assms(1,3) in simp_all)
  ultimately show ?thesis by (rule trans)
qed

definition state_etag_input :: "bytes \<Rightarrow> page_state \<Rightarrow> bytes" where
  "state_etag_input uid s = etag_input uid (ps_revision_id s) (ps_revision_number s)
     (ps_occurred_at s) (ps_updated_at s)"

text \<open>A digest of the last 32 bytes, which tells the sample states apart.\<close>

definition tail_sha :: "bytes \<Rightarrow> bytes" where
  "tail_sha b = take 32 (rev b @ replicate 32 0)"

end
