(* ===== verification/Idempotency.thy ===== *)
theory Idempotency
  imports Json ApiPaths AuthStore PageEtags KeyedTable
begin

text \<open>
  Replay records: \<open>idempotency/schemas.py\<close>, \<open>idempotency/models.py\<close>,
  \<open>idempotency/repository.py\<close> and \<open>idempotency/service.py\<close>. The digest is a parameter.
\<close>

section \<open>Digests\<close>

definition IDEMPOTENCY_KEY_DIGEST_DOMAIN :: bytes where
  "IDEMPOTENCY_KEY_DIGEST_DOMAIN = map of_nat (lit ''patchouli-lib/idempotency-key/v1'') @ [0]"

definition REQUEST_FINGERPRINT_DOMAIN :: bytes where
  "REQUEST_FINGERPRINT_DOMAIN = map of_nat (lit ''patchouli-lib/idempotency-request/v1'') @ [0]"

definition MAX_IDEMPOTENCY_KEY_BYTES :: int where "MAX_IDEMPOTENCY_KEY_BYTES = 256"

definition digest_idempotency_key :: "(bytes \<Rightarrow> bytes) \<Rightarrow> pystr \<Rightarrow> bytes sql" where
  "digest_idempotency_key sha key =
     (if \<not> isascii key then Inl BadValue
      else if \<not> (1 \<le> length key \<and> int (length key) \<le> MAX_IDEMPOTENCY_KEY_BYTES)
         \<or> hd key \<in> {32, 9} \<or> last key \<in> {32, 9} \<or> list_ex (\<lambda>c. c < 0x21 \<or> c > 0x7E) key
      then Inl BadValue
      else Inr (sha (IDEMPOTENCY_KEY_DIGEST_DOMAIN @ map of_nat key)))"

definition framed :: "bytes list \<Rightarrow> bytes" where
  "framed parts = concat (map (\<lambda>p. to_bytes8 (int (length p)) @ p) parts)"

definition digest_request_fingerprint :: "(bytes \<Rightarrow> bytes) \<Rightarrow> bytes list \<Rightarrow> bytes" where
  "digest_request_fingerprint sha parts = sha (REQUEST_FINGERPRINT_DOMAIN @ framed parts)"

section \<open>Schemas\<close>

record validated_caller =
  vc_library_id :: pystr
  vc_actor_home_library_id :: pystr
  vc_caller_id :: pystr

record idempotency_request =
  ir_method :: pystr
  ir_route_template :: pystr
  ir_key_digest :: bytes
  ir_request_fingerprint :: bytes

record original_response =
  or_status :: int
  or_media_type :: pystr
  or_body :: bytes
  or_location :: "pystr option"
  or_etag :: pystr
  or_request_id :: pystr
  or_timestamp :: pystr

record idempotency_record =
  ic_caller :: validated_caller
  ic_request :: idempotency_request
  ic_response :: original_response

definition validate_method :: "pystr \<Rightarrow> bool" where
  "validate_method m \<longleftrightarrow> 1 \<le> length m \<and> length m \<le> 16 \<and> list_all is_upper m"

definition plain_segment :: "pystr \<Rightarrow> bool" where
  "plain_segment s \<longleftrightarrow> s \<noteq> [] \<and> (is_lower (hd s) \<or> is_digit (hd s))
     \<and> list_all (\<lambda>c. is_lower c \<or> is_digit c \<or> c = 45) (tl s)"

definition braced_segment :: "pystr \<Rightarrow> bool" where
  "braced_segment s \<longleftrightarrow> 3 \<le> length s \<and> hd s = 123 \<and> last s = 125
     \<and> is_lower (s ! 1) \<and> list_all (\<lambda>c. is_lower c \<or> is_digit c \<or> c = 95) (butlast (tl s))"

definition validate_route_template :: "pystr \<Rightarrow> bool" where
  "validate_route_template v \<longleftrightarrow>
     1 \<le> length v \<and> int (length v) \<le> 2048 \<and> take 8 v = lit ''/api/v1/''
     \<and> list_all (\<lambda>c. c \<notin> {37, 63, 35, 92}) v
     \<and> (let segments = split_on 47 (drop 8 v) in
          list_ex (\<lambda>s. take 1 s = [123]) segments
          \<and> list_all (\<lambda>s. plain_segment s \<or> braced_segment s) segments)"

definition caller_scope_valid :: "validated_caller \<Rightarrow> bool" where
  "caller_scope_valid c \<longleftrightarrow>
     opaque_id (vc_library_id c) \<and> opaque_id (vc_actor_home_library_id c) \<and> opaque_id (vc_caller_id c)"

definition request_valid :: "idempotency_request \<Rightarrow> bool" where
  "request_valid r \<longleftrightarrow>
     validate_method (ir_method r) \<and> validate_route_template (ir_route_template r)
     \<and> length (ir_key_digest r) = 32 \<and> length (ir_request_fingerprint r) = 32"

definition REPLAY_BODY_MAX_BYTES :: int where "REPLAY_BODY_MAX_BYTES = 16 * 1024 * 1024"

definition require_json_object :: "bytes \<Rightarrow> bool" where
  "require_json_object body \<longleftrightarrow>
     0 \<notin> set body
     \<and> (case utf8_decode body of None \<Rightarrow> False
        | Some text \<Rightarrow> (case json_loads text of Some (JObj ms) \<Rightarrow> True | _ \<Rightarrow> False))"

definition strong_etag :: "pystr \<Rightarrow> bool" where
  "strong_etag e \<longleftrightarrow> 3 \<le> length e \<and> int (length e) \<le> 128 \<and> hd e = 34 \<and> last e = 34
     \<and> list_all (\<lambda>c. c = 33 \<or> (35 \<le> c \<and> c \<le> 126)) (butlast (tl e))"

definition request_id_valid :: "pystr \<Rightarrow> bool" where
  "request_id_valid i \<longleftrightarrow>
     length i = 36 \<and> take 4 i = lit ''req_'' \<and> list_all is_lower_hex (drop 4 i)"

definition response_valid :: "original_response \<Rightarrow> bool" where
  "response_valid r \<longleftrightarrow>
     200 \<le> or_status r \<and> or_status r \<le> 299 \<and> or_media_type r = lit ''application/json''
     \<and> 1 \<le> length (or_body r) \<and> int (length (or_body r)) \<le> REPLAY_BODY_MAX_BYTES
     \<and> require_json_object (or_body r)
     \<and> (case or_location r of None \<Rightarrow> True | Some l \<Rightarrow> validate_api_v1_path l = Inr l)
     \<and> strong_etag (or_etag r) \<and> request_id_valid (or_request_id r)
     \<and> canonical_timestamp (or_timestamp r)"

definition record_valid :: "idempotency_record \<Rightarrow> bool" where
  "record_valid r \<longleftrightarrow>
     caller_scope_valid (ic_caller r) \<and> request_valid (ic_request r) \<and> response_valid (ic_response r)"

section \<open>The table\<close>

text \<open>The checks of \<open>idempotency_records\<close>; \<open>json_valid\<close> is read as the grammar of the schema.\<close>

definition printable :: "pystr \<Rightarrow> bool" where
  "printable s \<longleftrightarrow> list_all (\<lambda>c. 33 \<le> c \<and> c \<le> 126 \<and> c \<notin> {37, 63, 35, 92}) s"

definition row_timestamp :: "pystr \<Rightarrow> bool" where
  "row_timestamp t \<longleftrightarrow>
     length t = 27 \<and> all_digits (slice 0 4 t) \<and> t ! 4 = 45 \<and> all_digits (slice 5 7 t) \<and> t ! 7 = 45
     \<and> all_digits (slice 8 10 t) \<and> t ! 10 = 84 \<and> all_digits (slice 11 13 t) \<and> t ! 13 = 58
     \<and> all_digits (slice 14 16 t) \<and> t ! 16 = 58 \<and> all_digits (slice 17 19 t) \<and> t ! 19 = 46
     \<and> all_digits (slice 20 26 t) \<and> t ! 26 = 90
     \<and> date_ok (int_of 0 4 t) (int_of 5 7 t) (int_of 8 10 t)
     \<and> int_of 11 13 t \<le> 23 \<and> int_of 14 16 t \<le> 59 \<and> int_of 17 19 t \<le> 59"

definition record_check :: "idempotency_record \<Rightarrow> bool" where
  "record_check r \<longleftrightarrow>
     opaque_id (vc_library_id (ic_caller r)) \<and> opaque_id (vc_caller_id (ic_caller r))
     \<and> validate_method (ir_method (ic_request r))
     \<and> (let t = ir_route_template (ic_request r) in
          1 \<le> length t \<and> int (length t) \<le> 2048 \<and> take 8 t = lit ''/api/v1/'' \<and> 123 \<in> set t \<and> 125 \<in> set t
          \<and> printable t)
     \<and> length (ir_key_digest (ic_request r)) = 32 \<and> length (ir_request_fingerprint (ic_request r)) = 32
     \<and> (let p = ic_response r in
          200 \<le> or_status p \<and> or_status p \<le> 299 \<and> or_media_type p = lit ''application/json''
          \<and> 1 \<le> length (or_body p) \<and> int (length (or_body p)) \<le> REPLAY_BODY_MAX_BYTES
          \<and> require_json_object (or_body p)
          \<and> (case or_location p of None \<Rightarrow> True
             | Some l \<Rightarrow> 9 \<le> length l \<and> int (length l) \<le> 2048 \<and> take 8 l = lit ''/api/v1/'' \<and> printable l)
          \<and> strong_etag (or_etag p) \<and> request_id_valid (or_request_id p)
          \<and> row_timestamp (or_timestamp p))"

definition record_key ::
  "idempotency_record \<Rightarrow> pystr \<times> pystr \<times> pystr \<times> pystr \<times> bytes" where
  "record_key r = (vc_library_id (ic_caller r), vc_caller_id (ic_caller r), ir_method (ic_request r),
     ir_route_template (ic_request r), ir_key_digest (ic_request r))"

definition matches_record :: "validated_caller \<Rightarrow> idempotency_request \<Rightarrow> idempotency_record \<Rightarrow> bool" where
  "matches_record c q r \<longleftrightarrow>
     ic_caller r = c \<and> ir_method (ic_request r) = ir_method q
     \<and> ir_route_template (ic_request r) = ir_route_template q
     \<and> ir_key_digest (ic_request r) = ir_key_digest q"

definition get_record ::
  "idempotency_record list \<Rightarrow> validated_caller \<Rightarrow> idempotency_request \<Rightarrow> idempotency_record option sql" where
  "get_record rs c q =
     (case find (matches_record c q) rs of
        None \<Rightarrow> Inr None
      | Some r \<Rightarrow> if record_valid r then Inr (Some r) else Inl BadValue)"

definition add_record ::
  "auth_db \<Rightarrow> idempotency_record \<Rightarrow> idempotency_record list \<Rightarrow> idempotency_record list sql" where
  "add_record auth r rs =
     (if \<not> record_check r
         \<or> list_ex (\<lambda>x. record_key x = record_key r) rs
         \<or> \<not> list_ex (\<lambda>c. ca_id c = vc_caller_id (ic_caller r)
              \<and> ca_library_id c = vc_actor_home_library_id (ic_caller r)) (a_callers auth)
         \<or> vc_library_id (ic_caller r) \<notin> set (a_libraries auth)
      then Inl SqlError
      else Inr (rs @ [r]))"

section \<open>Service\<close>

definition require_matching_fingerprint ::
  "idempotency_record \<Rightarrow> idempotency_request \<Rightarrow> unit sql" where
  "require_matching_fingerprint r q =
     requireR (ir_request_fingerprint (ic_request r) = ir_request_fingerprint q) IdempotencyConflict"

definition lookup_replay ::
  "idempotency_record list \<Rightarrow> validated_caller \<Rightarrow> idempotency_request \<Rightarrow> original_response option sql" where
  "lookup_replay rs c q =
     bindR (get_record rs c q) (\<lambda>stored.
     case stored of
       None \<Rightarrow> Inr None
     | Some r \<Rightarrow> bindR (require_matching_fingerprint r q) (\<lambda>_. Inr (Some (ic_response r))))"

definition record_success ::
  "auth_db \<Rightarrow> idempotency_record list \<Rightarrow> validated_caller \<Rightarrow> idempotency_request \<Rightarrow> original_response
    \<Rightarrow> (idempotency_record list \<times> idempotency_record) sql" where
  "record_success auth rs c q p =
     bindR (get_record rs c q) (\<lambda>existing.
     case existing of
       Some r \<Rightarrow> bindR (require_matching_fingerprint r q) (\<lambda>_. Inr (rs, r))
     | None \<Rightarrow>
         let r = \<lparr>ic_caller = c, ic_request = q, ic_response = p\<rparr> in
         if \<not> record_valid r then Inl BadValue
         else case add_record auth r rs of
           Inl e \<Rightarrow> Inl (if e = SqlError then IdempotencyPersistence else e)
         | Inr rs' \<Rightarrow> Inr (rs', r))"

definition presentation_headers :: "original_response \<Rightarrow> (pystr \<times> pystr) list" where
  "presentation_headers p =
     [(lit ''Content-Type'', or_media_type p), (lit ''ETag'', or_etag p),
      (lit ''X-Request-ID'', or_request_id p), (lit ''Idempotency-Replayed'', lit ''true'')]
     @ (case or_location p of None \<Rightarrow> [] | Some l \<Rightarrow> [(lit ''Location'', l)])"

end
