(* ===== verification/ArchiveBodies.thy ===== *)
theory ArchiveBodies
  imports Idempotency
begin

text \<open>
  The commands, the response bodies and the request fingerprints of the archive service:
  \<open>content/schemas.py\<close> and the fingerprint methods of \<open>content/service.py\<close>. A body is a JSON value;
  its text is written and read by the schema library, which is a parameter of the service.
\<close>

section \<open>Commands\<close>

record archive_source =
  as_kind :: pystr
  as_locator :: "pystr option"
  as_captured_at :: "int option"

record create_command =
  cm_library_id :: pystr
  cm_section_id :: pystr
  cm_book_id :: pystr
  cm_title :: pystr
  cm_occurred_at :: "int option"
  cm_content_md :: bytes
  cm_source :: archive_source
  cm_request_id :: pystr

record append_command =
  am_library_id :: pystr
  am_section_id :: pystr
  am_page_id :: pystr
  am_expected_etag :: "pystr option"
  am_source :: archive_source
  am_content_md :: bytes
  am_request_id :: pystr

record occurrence_command =
  om_library_id :: pystr
  om_section_id :: pystr
  om_page_id :: pystr
  om_expected_etag :: pystr
  om_occurred_at :: int
  om_request_id :: pystr

record lifecycle_command =
  lm_library_id :: pystr
  lm_section_id :: pystr
  lm_page_id :: pystr
  lm_expected_etag :: pystr
  lm_request_id :: pystr

definition optional :: "('a \<Rightarrow> bool) \<Rightarrow> 'a option \<Rightarrow> bool" where
  "optional P x \<longleftrightarrow> (case x of None \<Rightarrow> True | Some y \<Rightarrow> P y)"

definition strong_page_etag :: "pystr \<Rightarrow> bool" where
  "strong_page_etag e \<longleftrightarrow> length e = 74
     \<and> (take 9 e = lit ''\"page-v1-'' \<or> take 9 e = lit ''\"page-v2-'')
     \<and> list_all is_lower_hex (slice 9 73 e) \<and> last e = 34"

definition source_input_valid :: "archive_source \<Rightarrow> bool" where
  "source_input_valid s \<longleftrightarrow>
     source_kind_valid (as_kind s) \<and> source_locator_valid (as_locator s)
     \<and> optional utc_in_range (as_captured_at s)"

definition markdown_valid :: "(bytes \<Rightarrow> bytes) \<Rightarrow> bytes \<Rightarrow> bool" where
  "markdown_valid sha b \<longleftrightarrow> markdown_from_bytes sha b = Inr (b, int (length b), sha b)"

definition create_command_valid :: "(bytes \<Rightarrow> bytes) \<Rightarrow> create_command \<Rightarrow> bool" where
  "create_command_valid sha c \<longleftrightarrow>
     opaque_id (cm_library_id c) \<and> opaque_id (cm_section_id c) \<and> opaque_id (cm_book_id c)
     \<and> text_check (cm_title c) \<and> utf8_ok (cm_title c) \<and> optional utc_in_range (cm_occurred_at c)
     \<and> markdown_valid sha (cm_content_md c) \<and> source_input_valid (cm_source c)
     \<and> request_id_valid (cm_request_id c)"

definition append_command_valid :: "(bytes \<Rightarrow> bytes) \<Rightarrow> append_command \<Rightarrow> bool" where
  "append_command_valid sha c \<longleftrightarrow>
     opaque_id (am_library_id c) \<and> opaque_id (am_section_id c)
     \<and> validate_page_id (am_page_id c) = Inr (am_page_id c)
     \<and> optional strong_page_etag (am_expected_etag c) \<and> source_input_valid (am_source c)
     \<and> markdown_valid sha (am_content_md c) \<and> request_id_valid (am_request_id c)"

definition occurrence_command_valid :: "occurrence_command \<Rightarrow> bool" where
  "occurrence_command_valid c \<longleftrightarrow>
     opaque_id (om_library_id c) \<and> opaque_id (om_section_id c)
     \<and> validate_page_id (om_page_id c) = Inr (om_page_id c)
     \<and> strong_page_etag (om_expected_etag c) \<and> utc_in_range (om_occurred_at c)
     \<and> request_id_valid (om_request_id c)"

definition lifecycle_command_valid :: "lifecycle_command \<Rightarrow> bool" where
  "lifecycle_command_valid c \<longleftrightarrow>
     opaque_id (lm_library_id c) \<and> opaque_id (lm_section_id c)
     \<and> validate_page_id (lm_page_id c) = Inr (lm_page_id c)
     \<and> strong_page_etag (lm_expected_etag c) \<and> request_id_valid (lm_request_id c)"

section \<open>Fingerprints\<close>

definition utf8_bytes :: "pystr \<Rightarrow> bytes sql" where
  "utf8_bytes s = optionR BadValue (utf8_encode s)"

definition json_optional :: "('a \<Rightarrow> json) \<Rightarrow> 'a option \<Rightarrow> json" where
  "json_optional f x = (case x of None \<Rightarrow> JNull | Some y \<Rightarrow> f y)"

definition source_json :: "archive_source \<Rightarrow> json" where
  "source_json s = JObj
     [(lit ''captured_at'', json_optional JInt (as_captured_at s)), (lit ''kind'', JStr (as_kind s)),
      (lit ''locator'', json_optional JStr (as_locator s))]"

definition create_metadata :: "create_command \<Rightarrow> json" where
  "create_metadata c = JObj
     [(lit ''book_id'', JStr (cm_book_id c)), (lit ''library_id'', JStr (cm_library_id c)),
      (lit ''occurred_at'', json_optional JInt (cm_occurred_at c)),
      (lit ''operation'', JStr (lit ''archive-create-v1'')), (lit ''section_id'', JStr (cm_section_id c)),
      (lit ''source'', source_json (cm_source c)), (lit ''title'', JStr (cm_title c))]"

definition create_fingerprint :: "(bytes \<Rightarrow> bytes) \<Rightarrow> create_command \<Rightarrow> bytes sql" where
  "create_fingerprint sha c =
     bindR (utf8_bytes (json_dumps (create_metadata c))) (\<lambda>m.
       Inr (digest_request_fingerprint sha [m, cm_content_md c]))"

definition revision_metadata :: "append_command \<Rightarrow> json" where
  "revision_metadata c = JObj
     [(lit ''expected_etag'', json_optional JStr (am_expected_etag c)),
      (lit ''library_id'', JStr (am_library_id c)), (lit ''operation'', JStr (lit ''archive-revise-v1'')),
      (lit ''page_id'', JStr (am_page_id c)), (lit ''section_id'', JStr (am_section_id c)),
      (lit ''source'', source_json (am_source c))]"

definition revision_fingerprint :: "(bytes \<Rightarrow> bytes) \<Rightarrow> append_command \<Rightarrow> bytes sql" where
  "revision_fingerprint sha c =
     bindR (utf8_bytes (json_dumps (revision_metadata c))) (\<lambda>m.
       Inr (digest_request_fingerprint sha [m, am_content_md c]))"

definition occurrence_metadata :: "occurrence_command \<Rightarrow> json" where
  "occurrence_metadata c = JObj
     [(lit ''expected_etag'', JStr (om_expected_etag c)), (lit ''library_id'', JStr (om_library_id c)),
      (lit ''operation'', JStr (lit ''archive-correct-occurrence-v1'')),
      (lit ''page_id'', JStr (om_page_id c)), (lit ''section_id'', JStr (om_section_id c)),
      (lit ''occurred_at'', JInt (om_occurred_at c))]"

definition occurrence_fingerprint :: "(bytes \<Rightarrow> bytes) \<Rightarrow> occurrence_command \<Rightarrow> bytes sql" where
  "occurrence_fingerprint sha c =
     bindR (utf8_bytes (json_dumps (occurrence_metadata c))) (\<lambda>m.
       Inr (digest_request_fingerprint sha [m]))"

definition lifecycle_metadata :: "lifecycle_command \<Rightarrow> pystr \<Rightarrow> json" where
  "lifecycle_metadata c action = JObj
     [(lit ''expected_etag'', JStr (lm_expected_etag c)), (lit ''library_id'', JStr (lm_library_id c)),
      (lit ''operation'', JStr (lit ''archive-'' @ action @ lit ''-v1'')),
      (lit ''page_id'', JStr (lm_page_id c)), (lit ''section_id'', JStr (lm_section_id c))]"

definition lifecycle_fingerprint :: "(bytes \<Rightarrow> bytes) \<Rightarrow> lifecycle_command \<Rightarrow> pystr \<Rightarrow> bytes sql" where
  "lifecycle_fingerprint sha c action =
     bindR (utf8_bytes (json_dumps (lifecycle_metadata c action))) (\<lambda>m.
       Inr (digest_request_fingerprint sha [m]))"

section \<open>Bodies\<close>

record citation =
  ci_section_id :: pystr
  ci_page_id :: pystr
  ci_revision_id :: pystr
  ci_revision_number :: int
  ci_href :: pystr

record page_view =
  vw_section_id :: pystr
  vw_book_id :: pystr
  vw_page_id :: pystr
  vw_title :: pystr
  vw_occurred_at :: pystr
  vw_current_revision_id :: pystr
  vw_current_revision_number :: int

record revision_view =
  vr_page_id :: pystr
  vr_revision_id :: pystr
  vr_revision_number :: int
  vr_created_at :: pystr
  vr_content_sha256 :: pystr
  vr_content :: pystr

text \<open>\<open>ab_notice\<close>: the body carries the notice that the server supplied the declared time.\<close>

record archive_body =
  ab_page :: page_view
  ab_revision :: revision_view
  ab_citation :: citation
  ab_notice :: bool

record correction_body =
  cb_section_id :: pystr
  cb_page_id :: pystr
  cb_previous_occurred_at :: pystr
  cb_occurred_at :: pystr
  cb_current_revision_id :: pystr
  cb_current_revision_number :: int
  cb_citation :: citation

record lifecycle_body =
  lb_section_id :: pystr
  lb_page_id :: pystr
  lb_state :: pystr
  lb_deleted_at :: "pystr option"
  lb_updated_at :: pystr
  lb_current_revision_id :: pystr
  lb_current_revision_number :: int
  lb_citation :: citation

definition page_id_field :: "pystr \<Rightarrow> bool" where
  "page_id_field s \<longleftrightarrow> 1 \<le> length s \<and> length s \<le> 80 \<and> list_all (\<lambda>c. is_lower c \<or> is_digit c \<or> c = 45) s"

definition number_field :: "int \<Rightarrow> bool" where
  "number_field n \<longleftrightarrow> 1 \<le> n \<and> n \<le> MAX_I64"

definition canonical_time_field :: "pystr \<Rightarrow> bool" where
  "canonical_time_field s \<longleftrightarrow>
     (case parse_occurrence_time s of Inl e \<Rightarrow> False | Inr t \<Rightarrow> canonical_utc t = s)"

definition citation_valid :: "citation \<Rightarrow> bool" where
  "citation_valid c \<longleftrightarrow>
     opaque_id (ci_section_id c) \<and> page_id_field (ci_page_id c) \<and> revision_id_pattern (ci_revision_id c)
     \<and> number_field (ci_revision_number c) \<and> validate_api_v1_path (ci_href c) = Inr (ci_href c)"

definition page_view_valid :: "page_view \<Rightarrow> bool" where
  "page_view_valid v \<longleftrightarrow>
     opaque_id (vw_section_id v) \<and> opaque_id (vw_book_id v) \<and> page_id_field (vw_page_id v)
     \<and> vw_title v \<noteq> [] \<and> canonical_time_field (vw_occurred_at v)
     \<and> revision_id_pattern (vw_current_revision_id v) \<and> number_field (vw_current_revision_number v)"

definition revision_view_valid :: "revision_view \<Rightarrow> bool" where
  "revision_view_valid v \<longleftrightarrow>
     page_id_field (vr_page_id v) \<and> revision_id_pattern (vr_revision_id v)
     \<and> number_field (vr_revision_number v) \<and> canonical_time_field (vr_created_at v)
     \<and> length (vr_content_sha256 v) = 64 \<and> list_all is_lower_hex (vr_content_sha256 v)
     \<and> vr_content v \<noteq> []"

definition archive_body_valid :: "archive_body \<Rightarrow> bool" where
  "archive_body_valid b \<longleftrightarrow>
     page_view_valid (ab_page b) \<and> revision_view_valid (ab_revision b) \<and> citation_valid (ab_citation b)
     \<and> vr_page_id (ab_revision b) = vw_page_id (ab_page b)
     \<and> ci_page_id (ab_citation b) = vw_page_id (ab_page b)
     \<and> ci_section_id (ab_citation b) = vw_section_id (ab_page b)
     \<and> vr_revision_id (ab_revision b) = vw_current_revision_id (ab_page b)
     \<and> ci_revision_id (ab_citation b) = vw_current_revision_id (ab_page b)
     \<and> vr_revision_number (ab_revision b) = vw_current_revision_number (ab_page b)
     \<and> ci_revision_number (ab_citation b) = vw_current_revision_number (ab_page b)"

definition correction_body_valid :: "correction_body \<Rightarrow> bool" where
  "correction_body_valid b \<longleftrightarrow>
     opaque_id (cb_section_id b) \<and> page_id_field (cb_page_id b)
     \<and> canonical_time_field (cb_previous_occurred_at b) \<and> canonical_time_field (cb_occurred_at b)
     \<and> revision_id_pattern (cb_current_revision_id b) \<and> number_field (cb_current_revision_number b)
     \<and> citation_valid (cb_citation b) \<and> cb_previous_occurred_at b \<noteq> cb_occurred_at b
     \<and> ci_section_id (cb_citation b) = cb_section_id b \<and> ci_page_id (cb_citation b) = cb_page_id b
     \<and> ci_revision_id (cb_citation b) = cb_current_revision_id b
     \<and> ci_revision_number (cb_citation b) = cb_current_revision_number b"

definition lifecycle_body_valid :: "lifecycle_body \<Rightarrow> bool" where
  "lifecycle_body_valid b \<longleftrightarrow>
     opaque_id (lb_section_id b) \<and> page_id_field (lb_page_id b)
     \<and> lb_state b \<in> {lit ''trashed'', lit ''active''}
     \<and> optional canonical_time_field (lb_deleted_at b) \<and> canonical_time_field (lb_updated_at b)
     \<and> revision_id_pattern (lb_current_revision_id b) \<and> number_field (lb_current_revision_number b)
     \<and> citation_valid (lb_citation b) \<and> (lb_state b = lit ''trashed'') = (lb_deleted_at b \<noteq> None)
     \<and> ci_section_id (lb_citation b) = lb_section_id b \<and> ci_page_id (lb_citation b) = lb_page_id b
     \<and> ci_revision_id (lb_citation b) = lb_current_revision_id b
     \<and> ci_revision_number (lb_citation b) = lb_current_revision_number b"

section \<open>Bodies as JSON\<close>

definition citation_json :: "citation \<Rightarrow> json" where
  "citation_json c = JObj
     [(lit ''section_id'', JStr (ci_section_id c)), (lit ''page_id'', JStr (ci_page_id c)),
      (lit ''revision_id'', JStr (ci_revision_id c)), (lit ''revision_number'', JInt (ci_revision_number c)),
      (lit ''href'', JStr (ci_href c))]"

definition page_view_json :: "page_view \<Rightarrow> json" where
  "page_view_json v = JObj
     [(lit ''section_id'', JStr (vw_section_id v)), (lit ''book_id'', JStr (vw_book_id v)),
      (lit ''page_id'', JStr (vw_page_id v)), (lit ''title'', JStr (vw_title v)),
      (lit ''type'', JStr (lit ''archive'')), (lit ''occurred_at'', JStr (vw_occurred_at v)),
      (lit ''current_revision_id'', JStr (vw_current_revision_id v)),
      (lit ''current_revision_number'', JInt (vw_current_revision_number v))]"

definition CONTENT_TYPE :: pystr where "CONTENT_TYPE = lit ''text/markdown;charset=utf-8''"

definition revision_view_json :: "revision_view \<Rightarrow> json" where
  "revision_view_json v = JObj
     [(lit ''page_id'', JStr (vr_page_id v)), (lit ''revision_id'', JStr (vr_revision_id v)),
      (lit ''revision_number'', JInt (vr_revision_number v)), (lit ''created_at'', JStr (vr_created_at v)),
      (lit ''content_type'', JStr CONTENT_TYPE), (lit ''content_sha256'', JStr (vr_content_sha256 v)),
      (lit ''content'', JStr (vr_content v))]"

definition notice_json :: json where
  "notice_json = JObj
     [(lit ''source'', JStr (lit ''server_utc'')), (lit ''warning_code'', JStr (lit ''occurred_at_defaulted''))]"

text \<open>The notice is a member of the text only when the time was defaulted.\<close>

definition archive_body_json :: "archive_body \<Rightarrow> json" where
  "archive_body_json b = JObj
     ([(lit ''page'', page_view_json (ab_page b)), (lit ''revision'', revision_view_json (ab_revision b)),
       (lit ''citation'', citation_json (ab_citation b))]
      @ (if ab_notice b then [(lit ''occurrence_notice'', notice_json)] else []))"

definition correction_body_json :: "correction_body \<Rightarrow> json" where
  "correction_body_json b = JObj
     [(lit ''section_id'', JStr (cb_section_id b)), (lit ''page_id'', JStr (cb_page_id b)),
      (lit ''previous_occurred_at'', JStr (cb_previous_occurred_at b)),
      (lit ''occurred_at'', JStr (cb_occurred_at b)),
      (lit ''current_revision_id'', JStr (cb_current_revision_id b)),
      (lit ''current_revision_number'', JInt (cb_current_revision_number b)),
      (lit ''citation'', citation_json (cb_citation b))]"

definition lifecycle_body_json :: "lifecycle_body \<Rightarrow> json" where
  "lifecycle_body_json b = JObj
     [(lit ''section_id'', JStr (lb_section_id b)), (lit ''page_id'', JStr (lb_page_id b)),
      (lit ''state'', JStr (lb_state b)), (lit ''deleted_at'', json_optional JStr (lb_deleted_at b)),
      (lit ''updated_at'', JStr (lb_updated_at b)),
      (lit ''current_revision_id'', JStr (lb_current_revision_id b)),
      (lit ''current_revision_number'', JInt (lb_current_revision_number b)),
      (lit ''citation'', citation_json (lb_citation b))]"

text \<open>Reading a member of an object: no member beyond those named, the last of equal names.\<close>

definition members :: "string list \<Rightarrow> json \<Rightarrow> (pystr \<times> json) list option" where
  "members names v =
     (case v of
        JObj ms \<Rightarrow> if list_all (\<lambda>m. fst m \<in> set (map lit names)) ms then Some (rev ms) else None
      | _ \<Rightarrow> None)"

definition str_member :: "(pystr \<times> json) list \<Rightarrow> string \<Rightarrow> pystr option" where
  "str_member ms k = (case map_of ms (lit k) of Some (JStr s) \<Rightarrow> Some s | _ \<Rightarrow> None)"

definition int_member :: "(pystr \<times> json) list \<Rightarrow> string \<Rightarrow> int option" where
  "int_member ms k = (case map_of ms (lit k) of Some (JInt n) \<Rightarrow> Some n | _ \<Rightarrow> None)"

definition literal_member :: "(pystr \<times> json) list \<Rightarrow> string \<Rightarrow> pystr \<Rightarrow> bool \<Rightarrow> bool" where
  "literal_member ms k value absent =
     (case map_of ms (lit k) of None \<Rightarrow> absent | Some v \<Rightarrow> v = JStr value)"

definition citation_of :: "json \<Rightarrow> citation option" where
  "citation_of v =
     (case members [''section_id'', ''page_id'', ''revision_id'', ''revision_number'', ''href''] v of
        None \<Rightarrow> None
      | Some ms \<Rightarrow>
          (case (str_member ms ''section_id'', str_member ms ''page_id'', str_member ms ''revision_id'',
                 int_member ms ''revision_number'', str_member ms ''href'') of
             (Some s, Some p, Some r, Some n, Some h) \<Rightarrow>
               (let c = \<lparr>ci_section_id = s, ci_page_id = p, ci_revision_id = r, ci_revision_number = n,
                        ci_href = h\<rparr>
                in if citation_valid c then Some c else None)
           | _ \<Rightarrow> None))"

definition page_view_of :: "json \<Rightarrow> page_view option" where
  "page_view_of v =
     (case members [''section_id'', ''book_id'', ''page_id'', ''title'', ''type'', ''occurred_at'',
                    ''current_revision_id'', ''current_revision_number''] v of
        None \<Rightarrow> None
      | Some ms \<Rightarrow>
          (case (str_member ms ''section_id'', str_member ms ''book_id'', str_member ms ''page_id'',
                 str_member ms ''title'', str_member ms ''occurred_at'',
                 str_member ms ''current_revision_id'', int_member ms ''current_revision_number'') of
             (Some s, Some b, Some p, Some t, Some o', Some r, Some n) \<Rightarrow>
               (let w = \<lparr>vw_section_id = s, vw_book_id = b, vw_page_id = p, vw_title = t,
                        vw_occurred_at = o', vw_current_revision_id = r, vw_current_revision_number = n\<rparr>
                in if literal_member ms ''type'' (lit ''archive'') False \<and> page_view_valid w
                   then Some w else None)
           | _ \<Rightarrow> None))"

definition revision_view_of :: "json \<Rightarrow> revision_view option" where
  "revision_view_of v =
     (case members [''page_id'', ''revision_id'', ''revision_number'', ''created_at'', ''content_type'',
                    ''content_sha256'', ''content''] v of
        None \<Rightarrow> None
      | Some ms \<Rightarrow>
          (case (str_member ms ''page_id'', str_member ms ''revision_id'', int_member ms ''revision_number'',
                 str_member ms ''created_at'', str_member ms ''content_sha256'', str_member ms ''content'') of
             (Some p, Some r, Some n, Some c, Some h, Some t) \<Rightarrow>
               (let w = \<lparr>vr_page_id = p, vr_revision_id = r, vr_revision_number = n, vr_created_at = c,
                        vr_content_sha256 = h, vr_content = t\<rparr>
                in if literal_member ms ''content_type'' CONTENT_TYPE True \<and> revision_view_valid w
                   then Some w else None)
           | _ \<Rightarrow> None))"

definition notice_of :: "json option \<Rightarrow> bool option" where
  "notice_of v =
     (case v of
        None \<Rightarrow> Some False
      | Some JNull \<Rightarrow> Some False
      | Some n \<Rightarrow>
          (case members [''source'', ''warning_code''] n of
             None \<Rightarrow> None
           | Some ms \<Rightarrow>
               if literal_member ms ''source'' (lit ''server_utc'') True
                  \<and> literal_member ms ''warning_code'' (lit ''occurred_at_defaulted'') True
               then Some True else None))"

definition nested :: "(pystr \<times> json) list \<Rightarrow> string \<Rightarrow> (json \<Rightarrow> 'a option) \<Rightarrow> 'a option" where
  "nested ms k f = (case map_of ms (lit k) of None \<Rightarrow> None | Some v \<Rightarrow> f v)"

definition archive_body_of :: "json \<Rightarrow> archive_body option" where
  "archive_body_of v =
     (case members [''page'', ''revision'', ''citation'', ''occurrence_notice''] v of
        None \<Rightarrow> None
      | Some ms \<Rightarrow>
          (case (nested ms ''page'' page_view_of, nested ms ''revision'' revision_view_of,
                 nested ms ''citation'' citation_of, notice_of (map_of ms (lit ''occurrence_notice''))) of
             (Some p, Some r, Some c, Some n) \<Rightarrow>
               (let b = \<lparr>ab_page = p, ab_revision = r, ab_citation = c, ab_notice = n\<rparr>
                in if archive_body_valid b then Some b else None)
           | _ \<Rightarrow> None))"

definition correction_body_of :: "json \<Rightarrow> correction_body option" where
  "correction_body_of v =
     (case members [''section_id'', ''page_id'', ''previous_occurred_at'', ''occurred_at'',
                    ''current_revision_id'', ''current_revision_number'', ''citation''] v of
        None \<Rightarrow> None
      | Some ms \<Rightarrow>
          (case (str_member ms ''section_id'', str_member ms ''page_id'',
                 str_member ms ''previous_occurred_at'', str_member ms ''occurred_at'',
                 str_member ms ''current_revision_id'', int_member ms ''current_revision_number'',
                 nested ms ''citation'' citation_of) of
             (Some s, Some p, Some a, Some o', Some r, Some n, Some c) \<Rightarrow>
               (let b = \<lparr>cb_section_id = s, cb_page_id = p, cb_previous_occurred_at = a,
                        cb_occurred_at = o', cb_current_revision_id = r, cb_current_revision_number = n,
                        cb_citation = c\<rparr>
                in if correction_body_valid b then Some b else None)
           | _ \<Rightarrow> None))"

definition optional_str_member :: "(pystr \<times> json) list \<Rightarrow> string \<Rightarrow> pystr option option" where
  "optional_str_member ms k =
     (case map_of ms (lit k) of
        Some JNull \<Rightarrow> Some None
      | Some (JStr s) \<Rightarrow> Some (Some s)
      | _ \<Rightarrow> None)"

definition lifecycle_body_of :: "json \<Rightarrow> lifecycle_body option" where
  "lifecycle_body_of v =
     (case members [''section_id'', ''page_id'', ''state'', ''deleted_at'', ''updated_at'',
                    ''current_revision_id'', ''current_revision_number'', ''citation''] v of
        None \<Rightarrow> None
      | Some ms \<Rightarrow>
          (case (str_member ms ''section_id'', str_member ms ''page_id'', str_member ms ''state'',
                 optional_str_member ms ''deleted_at'', str_member ms ''updated_at'',
                 str_member ms ''current_revision_id'', int_member ms ''current_revision_number'',
                 nested ms ''citation'' citation_of) of
             (Some s, Some p, Some st, Some d, Some u, Some r, Some n, Some c) \<Rightarrow>
               (let b = \<lparr>lb_section_id = s, lb_page_id = p, lb_state = st, lb_deleted_at = d,
                        lb_updated_at = u, lb_current_revision_id = r, lb_current_revision_number = n,
                        lb_citation = c\<rparr>
                in if lifecycle_body_valid b then Some b else None)
           | _ \<Rightarrow> None))"

section \<open>A body survives its text\<close>

lemma lit_eq: "(lit s = lit t) = (map of_char s = map (of_char :: char \<Rightarrow> nat) t)"
  by (simp add: lit_def)

lemmas member_simps = members_def str_member_def int_member_def literal_member_def nested_def
  optional_str_member_def notice_of_def lit_def

lemma citation_round: "citation_valid c \<Longrightarrow> citation_of (citation_json c) = Some c"
  by (cases c) (simp add: citation_of_def citation_json_def member_simps Let_def)

lemma page_view_round: "page_view_valid v \<Longrightarrow> page_view_of (page_view_json v) = Some v"
  by (cases v) (simp add: page_view_of_def page_view_json_def member_simps Let_def)

lemma revision_view_round: "revision_view_valid v \<Longrightarrow> revision_view_of (revision_view_json v) = Some v"
  by (cases v) (simp add: revision_view_of_def revision_view_json_def member_simps Let_def)

lemma archive_body_round:
  assumes "archive_body_valid b"
  shows "archive_body_of (archive_body_json b) = Some b"
proof -
  note v = assms [unfolded archive_body_valid_def]
  have "citation_of (citation_json (ab_citation b)) = Some (ab_citation b)"
    "page_view_of (page_view_json (ab_page b)) = Some (ab_page b)"
    "revision_view_of (revision_view_json (ab_revision b)) = Some (ab_revision b)"
    using v citation_round page_view_round revision_view_round by blast+
  then show ?thesis using assms
    by (cases b; cases "ab_notice b")
      (simp_all add: archive_body_of_def archive_body_json_def notice_json_def member_simps Let_def)
qed

lemma correction_body_round:
  assumes "correction_body_valid b"
  shows "correction_body_of (correction_body_json b) = Some b"
proof -
  have "citation_of (citation_json (cb_citation b)) = Some (cb_citation b)"
    using assms citation_round by (simp add: correction_body_valid_def)
  then show ?thesis using assms
    by (cases b) (simp add: correction_body_of_def correction_body_json_def member_simps Let_def)
qed

lemma lifecycle_body_round:
  assumes "lifecycle_body_valid b"
  shows "lifecycle_body_of (lifecycle_body_json b) = Some b"
proof -
  have "citation_of (citation_json (lb_citation b)) = Some (lb_citation b)"
    using assms citation_round by (simp add: lifecycle_body_valid_def)
  then show ?thesis using assms
    by (cases b; cases "lb_deleted_at b")
      (simp_all add: lifecycle_body_of_def lifecycle_body_json_def member_simps json_optional_def Let_def)
qed

end
