(* ===== verification/IdempotencyTheorems.thy ===== *)
theory IdempotencyTheorems
  imports Idempotency AuthTheorems
begin

text \<open>
  What the replay records guarantee: a fingerprint determines the parts it was made of, and the first
  response recorded under a key is the one every later lookup of that key gives.
\<close>

section \<open>Fingerprints\<close>

lemma int_below: "n < 2 ^ 63 \<Longrightarrow> int n < 2 ^ 63"
  using of_nat_less_iff [of n "2 ^ 63", where ?'a = int] by simp

lemma framed_inj:
  assumes "framed xs = framed ys" and "\<forall>p \<in> set xs \<union> set ys. length p < 2 ^ 63"
  shows "xs = ys"
  using assms
proof (induction xs arbitrary: ys)
  case Nil
  have "to_bytes8 n \<noteq> []" for n by (metis length_to_bytes8 list.size(3) zero_neq_numeral)
  then show ?case using Nil by (cases ys) (auto simp: framed_def)
next
  case (Cons x xs)
  have ne: "to_bytes8 n \<noteq> []" for n by (metis length_to_bytes8 list.size(3) zero_neq_numeral)
  then obtain y zs where ys: "ys = y # zs" using Cons.prems(1) by (cases ys) (auto simp: framed_def)
  have e: "to_bytes8 (int (length x)) @ (x @ framed xs) = to_bytes8 (int (length y)) @ (y @ framed zs)"
    using Cons.prems(1) by (simp add: framed_def ys)
  then have h: "to_bytes8 (int (length x)) = to_bytes8 (int (length y))" "x @ framed xs = y @ framed zs"
    by (simp_all add: append_eq_append_conv)
  have "int (length x) = int (length y)"
    by (rule to_bytes8_inj [OF h(1)]) (use Cons.prems(2) ys int_below in \<open>simp_all\<close>)
  then have "x = y" "framed xs = framed zs" using h(2) by (simp_all add: append_eq_append_conv)
  then show ?case using Cons.IH [of zs] Cons.prems(2) ys by simp
qed

text \<open>Two requests with the same fingerprint consist of the same semantic parts, or the digest
  collides on the two framed texts; the framing never lets a boundary between parts move.\<close>

theorem fingerprint_identifies:
  assumes "digest_request_fingerprint sha xs = digest_request_fingerprint sha ys"
    and "\<forall>p \<in> set xs \<union> set ys. length p < 2 ^ 63"
  shows "xs = ys \<or> collides sha (REQUEST_FINGERPRINT_DOMAIN @ framed xs) (REQUEST_FINGERPRINT_DOMAIN @ framed ys)"
  using assms framed_inj [of xs ys] by (auto simp: digest_request_fingerprint_def collides_def)

theorem fingerprint_identifies_witness:
  "digest_request_fingerprint id [[1, 2], [3]] \<noteq> digest_request_fingerprint id [[1], [2, 3]]"
  using fingerprint_identifies [of id "[[1, 2], [3]]" "[[1], [2, 3]]"] by (auto simp: collides_def)

section \<open>Records\<close>

definition find_record ::
  "idempotency_record list \<Rightarrow> pystr \<times> pystr \<times> pystr \<times> pystr \<times> bytes \<Rightarrow> idempotency_record option" where
  "find_record rs k = find (\<lambda>r. record_key r = k) rs"

interpretation record_table: keyed_table find_record "add_record auth" record_key for auth
proof unfold_locales
  fix r k and rs rs' :: "idempotency_record list"
  assume a: "add_record auth r rs = Inr rs'"
  then have rs': "rs' = rs @ [r]" and n: "\<not> list_ex (\<lambda>x. record_key x = record_key r) rs"
    by (auto simp: add_record_def list_ex_iff split: if_splits)
  show f: "find_record rs (record_key r) = None" using n by (simp add: find_record_def find_key_None)
  show "find_record rs' (record_key r) = Some r" using f by (simp add: find_record_def rs' find_key_append)
  show "k \<noteq> record_key r \<Longrightarrow> find_record rs' k = find_record rs k"
    by (auto simp: find_record_def rs' find_key_append split: option.splits)
qed

lemma find_stronger: "find Q xs = Some r \<Longrightarrow> P r \<Longrightarrow> (\<And>x. P x \<Longrightarrow> Q x) \<Longrightarrow> find P xs = Some r"
  by (induction xs) (auto split: if_splits)

lemma matches_record_key:
  "matches_record c q r \<Longrightarrow> record_key r
    = (vc_library_id c, vc_caller_id c, ir_method q, ir_route_template q, ir_key_digest q)"
  by (simp add: matches_record_def record_key_def)

lemma get_record_found:
  assumes f: "find_record rs (record_key r) = Some r" and m: "matches_record c q r" and v: "record_valid r"
  shows "get_record rs c q = Inr (Some r)"
proof -
  have "find (matches_record c q) rs = Some r"
    by (rule find_stronger [where Q = "\<lambda>x. record_key x = record_key r"])
      (use f m in \<open>auto simp: find_record_def dest!: matches_record_key\<close>)
  then show ?thesis using v by (simp add: get_record_def)
qed

text \<open>Any number of records of other requests follow.\<close>

inductive records_later :: "idempotency_record list \<Rightarrow> idempotency_record list \<Rightarrow> bool" where
  refl: "records_later rs rs"
| recorded: "records_later rs rs1 \<Longrightarrow> record_success auth rs1 c q p = Inr (rs2, r) \<Longrightarrow> records_later rs rs2"

lemma record_success_cases:
  assumes "record_success auth rs c q p = Inr (rs', r)"
  obtains "rs' = rs" "get_record rs c q = Inr (Some r)" "ir_request_fingerprint (ic_request r) = ir_request_fingerprint q"
  | "get_record rs c q = Inr None" "r = \<lparr>ic_caller = c, ic_request = q, ic_response = p\<rparr>"
    "record_valid r" "add_record auth r rs = Inr rs'"
proof -
  obtain e where g: "get_record rs c q = Inr e"
    using assms by (cases "get_record rs c q") (auto simp: record_success_def)
  show thesis
  proof (cases e)
    case None
    let ?r = "\<lparr>ic_caller = c, ic_request = q, ic_response = p\<rparr>"
    have v: "record_valid ?r" using assms g None by (auto simp: record_success_def Let_def split: if_splits)
    then obtain rs1 where a: "add_record auth ?r rs = Inr rs1"
      using assms g None by (cases "add_record auth ?r rs") (auto simp: record_success_def Let_def)
    then have "rs' = rs1 \<and> r = ?r" using assms g None v by (simp add: record_success_def Let_def)
    then show thesis using that(2) g None v a by simp
  next
    case (Some x)
    have "ir_request_fingerprint (ic_request x) = ir_request_fingerprint q \<and> rs' = rs \<and> r = x"
      using assms g Some
      by (cases "ir_request_fingerprint (ic_request x) = ir_request_fingerprint q")
        (simp_all add: record_success_def require_matching_fingerprint_def)
    then show thesis using that(1) g Some by simp
  qed
qed

lemma get_record_Some:
  "get_record rs c q = Inr (Some r) \<Longrightarrow> find (matches_record c q) rs = Some r \<and> record_valid r"
  by (auto simp: get_record_def split: option.splits if_splits)

lemma find_matches: "find (matches_record c q) rs = Some r \<Longrightarrow> matches_record c q r \<and> r \<in> set rs"
  by (auto simp: find_Some_iff)

lemma find_append_Some': "find P xs = Some r \<Longrightarrow> find P (xs @ ys) = Some r"
  by (induction xs) auto

lemma records_later_get:
  assumes "records_later rs rs'" and "get_record rs c q = Inr (Some r)"
  shows "get_record rs' c q = Inr (Some r)"
  using assms
proof induction
  case (recorded rs rs1 auth c' q' p rs2 s)
  have ih: "get_record rs1 c q = Inr (Some r)" using recorded by blast
  from recorded.hyps(2) show ?case
  proof (cases rule: record_success_cases)
    case 2
    have "rs2 = rs1 @ [s]" using 2(4) by (auto simp: add_record_def split: if_splits)
    then show ?thesis using get_record_Some [OF ih] by (simp add: get_record_def find_append_Some')
  qed (use ih in simp)
qed

lemma record_success_get:
  assumes "record_success auth rs c q p = Inr (rs', r)"
  shows "get_record rs' c q = Inr (Some r) \<and> ir_request_fingerprint (ic_request r) = ir_request_fingerprint q
    \<and> records_later rs rs'"
  using assms
proof (cases rule: record_success_cases)
  case 1
  then show ?thesis by (simp add: records_later.refl)
next
  case 2
  have "matches_record c q r" using 2(2) by (simp add: matches_record_def)
  then have "get_record rs' c q = Inr (Some r)"
    using get_record_found [OF record_table.found [OF 2(4)]] 2(3) by blast
  then show ?thesis using 2(2) records_later.recorded [OF records_later.refl assms] by simp
qed

lemma lookup_replay_get:
  "get_record rs c q = Inr (Some r) \<Longrightarrow> lookup_replay rs c q'
     = (if ir_request_fingerprint (ic_request r) = ir_request_fingerprint q'
        then Inr (Some (ic_response r)) else Inl IdempotencyConflict)"
  if "ir_method q' = ir_method q" "ir_route_template q' = ir_route_template q" "ir_key_digest q' = ir_key_digest q"
proof -
  have m: "matches_record c q' = matches_record c q" using that by (auto simp: matches_record_def)
  show "get_record rs c q = Inr (Some r) \<Longrightarrow> ?thesis"
    by (simp add: lookup_replay_def get_record_def m require_matching_fingerprint_def requireR_def)
qed

text \<open>C38: once a response is recorded, every later lookup under its key gives the response the first
  recording of that key kept when the request is the same, and a conflict when its fingerprint
  differs; the first recording keeps the response it was given.\<close>

theorem first_response_replayed:
  assumes s: "record_success auth rs c q p = Inr (rs', r)" and l: "records_later rs' rs''"
    and q: "ir_method q' = ir_method q" "ir_route_template q' = ir_route_template q"
      "ir_key_digest q' = ir_key_digest q"
  shows "lookup_replay rs'' c q' = (if ir_request_fingerprint q' = ir_request_fingerprint q
           then Inr (Some (ic_response r)) else Inl IdempotencyConflict)
    \<and> (lookup_replay rs c q = Inr None \<longrightarrow> ic_response r = p)
    \<and> (\<forall>x. lookup_replay rs c q = Inr (Some x) \<longrightarrow> ic_response r = x)"
proof -
  note g = record_success_get [OF s]
  have "lookup_replay rs'' c q' = (if ir_request_fingerprint q' = ir_request_fingerprint q
           then Inr (Some (ic_response r)) else Inl IdempotencyConflict)"
    using lookup_replay_get [OF q records_later_get [OF l]] g by auto
  moreover from s have "(lookup_replay rs c q = Inr None \<longrightarrow> ic_response r = p)
    \<and> (\<forall>x. lookup_replay rs c q = Inr (Some x) \<longrightarrow> ic_response r = x)"
    by (cases rule: record_success_cases)
      (simp_all add: lookup_replay_def require_matching_fingerprint_def)
  ultimately show ?thesis by blast
qed

definition sample_scope :: validated_caller where
  "sample_scope = \<lparr>vc_library_id = auth_id 1, vc_actor_home_library_id = auth_id 1, vc_caller_id = auth_id 2\<rparr>"

definition sample_request :: idempotency_request where
  "sample_request = \<lparr>ir_method = lit ''POST'', ir_route_template = lit ''/api/v1/pages/{page_id}'',
     ir_key_digest = replicate 32 1, ir_request_fingerprint = replicate 32 2\<rparr>"

definition sample_response :: original_response where
  "sample_response = \<lparr>or_status = 200, or_media_type = lit ''application/json'', or_body = [123, 125],
     or_location = None, or_etag = lit ''\"e\"'', or_request_id = lit ''req_0123456789abcdef0123456789abcdef'',
     or_timestamp = lit ''2026-01-02T03:04:05.000006Z''\<rparr>"

definition sample_record :: idempotency_record where
  "sample_record = \<lparr>ic_caller = sample_scope, ic_request = sample_request, ic_response = sample_response\<rparr>"

lemma sample_recorded:
  "record_success auth_db2 [] sample_scope sample_request sample_response = Inr ([sample_record], sample_record)"
  by code_simp

theorem first_response_replayed_witness:
  "lookup_replay [sample_record] sample_scope sample_request = Inr (Some sample_response)
   \<and> lookup_replay [sample_record] sample_scope (sample_request\<lparr>ir_request_fingerprint := replicate 32 3\<rparr>)
     = Inl IdempotencyConflict"
proof -
  note f = first_response_replayed [OF sample_recorded records_later.refl]
  have "ic_response sample_record = sample_response" by (simp add: sample_record_def)
  then show ?thesis
    using f [of sample_request] f [of "sample_request\<lparr>ir_request_fingerprint := replicate 32 3\<rparr>"]
    by (simp add: sample_request_def numeral_eq_Suc)
qed

end
