(* ===== verification/RequestFingerprints.thy ===== *)
theory RequestFingerprints
  imports ArchiveBodies IdempotencyTheorems
begin

text \<open>
  A request fingerprint of the archive service identifies the command it was computed from, all but
  the identifier of the request.
\<close>

lemma sort_key_inj:
  assumes s: "sort_key fst xs = sort_key fst ys" and d: "distinct (map fst xs)" and k: "map fst xs = map fst ys"
  shows "xs = ys"
proof -
  have set: "set xs = set ys" using s by (metis set_sort)
  have r: "x = y" if xy: "x \<in> set ys" "y \<in> set ys" "fst x = fst y" for x y :: "'a \<times> 'b"
  proof -
    have "inj_on fst (set ys)" using d k by (simp add: distinct_map)
    then show ?thesis using xy by (simp add: inj_on_def)
  qed
  show ?thesis
  proof (rule nth_equalityI)
    show l: "length xs = length ys" using k by (metis length_map)
    fix i assume i: "i < length xs"
    have "map fst xs ! i = map fst ys ! i" using k by simp
    then have "fst (xs ! i) = fst (ys ! i)" using i l by simp
    moreover have "xs ! i \<in> set ys" "ys ! i \<in> set ys" using i l nth_mem [of i xs] nth_mem [of i ys] set by simp_all
    ultimately show "xs ! i = ys ! i" using r by blast
  qed
qed

lemma json_sorted_members:
  assumes "json_sorted (JObj ms) = json_sorted (JObj ns)" "distinct (map fst ms)" "map fst ms = map fst ns"
  shows "map (\<lambda>(k, v). (k, json_sorted v)) ms = map (\<lambda>(k, v). (k, json_sorted v)) ns"
proof (rule sort_key_inj)
  show "sort_key fst (map (\<lambda>(k, v). (k, json_sorted v)) ms) = sort_key fst (map (\<lambda>(k, v). (k, json_sorted v)) ns)"
    using assms(1) by simp
  have m: "map fst (map (\<lambda>(k, v). (k, json_sorted v)) xs) = map fst xs" for xs
    by (induction xs) auto
  show "distinct (map fst (map (\<lambda>(k, v). (k, json_sorted v)) ms))" using assms(2) by (simp only: m)
  show "map fst (map (\<lambda>(k, v). (k, json_sorted v)) ms) = map fst (map (\<lambda>(k, v). (k, json_sorted v)) ns)"
    using assms(3) by (simp only: m)
qed

lemma utc_plain:
  assumes "utc_in_range n"
  shows "json_plain (JInt n)"
proof -
  have "\<bar>n\<bar> < 10 ^ 18" using assms by (simp add: utc_in_range_def MIN_value MAX_value abs_less_iff)
  then have "nat \<bar>n\<bar> < 10 ^ 18" by (simp add: nat_less_iff)
  then have "length (dec_str (nat \<bar>n\<bar>)) \<le> 18" by (intro length_dec_str_le) simp
  then show ?thesis by (simp add: MAX_STR_DIGITS_def)
qed

lemma optional_plain:
  "optional utc_in_range x \<Longrightarrow> json_plain (json_optional JInt x)" "json_plain (json_optional JStr y)"
  "json_sorted (json_optional JInt x) = json_optional JInt x"
  "json_sorted (json_optional JStr y) = json_optional JStr y"
  using utc_plain by (auto simp: json_optional_def optional_def split: option.splits)

lemma json_optional_inj:
  "json_optional JInt x = json_optional JInt x' \<longleftrightarrow> x = x'"
  "json_optional JStr y = json_optional JStr y' \<longleftrightarrow> y = y'"
  by (auto simp: json_optional_def split: option.splits)

lemma source_json_inj: "json_sorted (source_json s) = json_sorted (source_json t) \<Longrightarrow> s = t"
  unfolding source_json_def
  by (drule json_sorted_members) (simp_all add: lit_def optional_plain json_optional_inj)

lemma source_json_plain: "source_input_valid s \<Longrightarrow> json_plain (source_json s)"
  by (simp add: source_json_def optional_plain source_input_valid_def)

lemma utf8_bytes_inj: "utf8_bytes s = Inr m \<Longrightarrow> utf8_bytes t = Inr m \<Longrightarrow> s = t"
  by (auto simp: utf8_bytes_def result_simps dest: utf8_encode_inj)

definition fingerprint_input :: "json \<Rightarrow> bytes list \<Rightarrow> bytes" where
  "fingerprint_input v ps = (case utf8_bytes (json_dumps v) of
     Inl e \<Rightarrow> [] | Inr m \<Rightarrow> REQUEST_FINGERPRINT_DOMAIN @ framed (m # ps))"

text \<open>What a fingerprint says of the metadata and of the further parts.\<close>

lemma metadata_identified:
  assumes "utf8_bytes (json_dumps v) = Inr m" "utf8_bytes (json_dumps w) = Inr n"
    and f: "digest_request_fingerprint sha (m # ps) = digest_request_fingerprint sha (n # qs)"
    and l: "\<forall>p \<in> set (m # ps) \<union> set (n # qs). length p < 2 ^ 63"
    and pl: "json_plain v" "json_plain w"
  shows "(json_sorted v = json_sorted w \<and> ps = qs)
    \<or> collides sha (fingerprint_input v ps) (fingerprint_input w qs)"
proof (cases "framed (m # ps) = framed (n # qs)")
  case True
  then have e: "m = n" "ps = qs" using framed_inj [OF True l] by simp_all
  then have "json_dumps v = json_dumps w" using utf8_bytes_inj assms(1,2) by blast
  then show ?thesis using json_dumps_inj [OF pl] e by simp
next
  case False
  then show ?thesis
    using f assms(1,2) by (simp add: digest_request_fingerprint_def collides_def fingerprint_input_def)
qed

lemma create_metadata_inj:
  "json_sorted (create_metadata c) = json_sorted (create_metadata d)
    \<Longrightarrow> cm_content_md c = cm_content_md d \<Longrightarrow> c\<lparr>cm_request_id := cm_request_id d\<rparr> = d"
  unfolding create_metadata_def
  by (drule json_sorted_members; cases c; cases d)
    (auto simp: lit_def optional_plain json_optional_inj dest: source_json_inj)

lemma create_metadata_plain: "create_command_valid sha c \<Longrightarrow> json_plain (create_metadata c)"
  by (simp add: create_metadata_def optional_plain source_json_plain create_command_valid_def)

lemma markdown_length: "markdown_valid sha b \<Longrightarrow> length b < 2 ^ 63"
  by (auto simp: markdown_valid_def markdown_from_bytes_def MAX_MARKDOWN_BYTES_def split: if_splits)

text \<open>C39: two create commands with the same fingerprint ask for the same archive, in every field but the
  request identifier, or the digest collides on
  the two framed texts.\<close>

theorem create_fingerprint_identifies:
  assumes "create_command_valid sha c" "create_command_valid sha d"
    and "create_fingerprint sha c = Inr f" "create_fingerprint sha d = Inr f"
    and l: "\<forall>x \<in> {c, d}. \<forall>m. utf8_bytes (json_dumps (create_metadata x)) = Inr m \<longrightarrow> length m < 2 ^ 63"
  shows "c\<lparr>cm_request_id := cm_request_id d\<rparr> = d
    \<or> collides sha (fingerprint_input (create_metadata c) [cm_content_md c])
         (fingerprint_input (create_metadata d) [cm_content_md d])"
proof -
  obtain m n where m: "utf8_bytes (json_dumps (create_metadata c)) = Inr m"
    "utf8_bytes (json_dumps (create_metadata d)) = Inr n"
    and f: "digest_request_fingerprint sha [m, cm_content_md c] = digest_request_fingerprint sha [n, cm_content_md d]"
    using assms(3,4) by (auto simp: create_fingerprint_def result_simps)
  have "length (cm_content_md c) < 2 ^ 63" "length (cm_content_md d) < 2 ^ 63"
    using assms(1,2) markdown_length by (auto simp: create_command_valid_def)
  then have "\<forall>p \<in> set [m, cm_content_md c] \<union> set [n, cm_content_md d]. length p < 2 ^ 63" using l m by auto
  from metadata_identified [OF m f this create_metadata_plain [OF assms(1)] create_metadata_plain [OF assms(2)]]
  show ?thesis using create_metadata_inj by auto
qed

lemma lifecycle_metadata_inj:
  "json_sorted (lifecycle_metadata c a) = json_sorted (lifecycle_metadata d b)
    \<Longrightarrow> a = b \<and> c\<lparr>lm_request_id := lm_request_id d\<rparr> = d"
  unfolding lifecycle_metadata_def
  by (drule json_sorted_members; cases c; cases d) (auto simp: lit_def)

text \<open>C40: a fingerprint of a lifecycle request determines the action and the command, all but the
  request identifier, or the digest collides on
  the two framed texts.\<close>

theorem lifecycle_fingerprint_identifies:
  assumes "lifecycle_fingerprint sha c a = Inr f" "lifecycle_fingerprint sha d b = Inr f"
    and l: "\<forall>v \<in> {lifecycle_metadata c a, lifecycle_metadata d b}.
      \<forall>m. utf8_bytes (json_dumps v) = Inr m \<longrightarrow> length m < 2 ^ 63"
  shows "(a = b \<and> c\<lparr>lm_request_id := lm_request_id d\<rparr> = d)
    \<or> collides sha (fingerprint_input (lifecycle_metadata c a) [])
         (fingerprint_input (lifecycle_metadata d b) [])"
proof -
  obtain m n where m: "utf8_bytes (json_dumps (lifecycle_metadata c a)) = Inr m"
    "utf8_bytes (json_dumps (lifecycle_metadata d b)) = Inr n"
    and f: "digest_request_fingerprint sha [m] = digest_request_fingerprint sha [n]"
    using assms(1,2) by (auto simp: lifecycle_fingerprint_def result_simps)
  have "\<forall>p \<in> set [m] \<union> set [n]. length p < 2 ^ 63" using l m by auto
  moreover have "json_plain (lifecycle_metadata x y)" for x y by (simp add: lifecycle_metadata_def)
  ultimately show ?thesis using metadata_identified [OF m f] lifecycle_metadata_inj by blast
qed

section \<open>Concrete commands\<close>

lemma utf8_encode_ascii: "isascii s \<Longrightarrow> utf8_encode s = Some (map of_nat s)"
proof -
  assume a: "isascii s"
  have "list_all is_scalar s" using a by (auto simp: isascii_def list_all_iff is_scalar_def is_surrogate_def)
  moreover have "concat (map cp_units s) = s" using a
    by (induction s) (auto simp: isascii_def cp_units_def)
  ultimately show ?thesis by (simp add: utf8_encode_def)
qed

definition sample_command :: create_command where
  "sample_command = \<lparr>cm_library_id = auth_id 1, cm_section_id = auth_id 3, cm_book_id = auth_id 5,
     cm_title = lit ''Notes'', cm_occurred_at = Some 0, cm_content_md = [104, 105],
     cm_source = \<lparr>as_kind = lit ''chat'', as_locator = None, as_captured_at = None\<rparr>,
     cm_request_id = lit ''req_0123456789abcdef0123456789abcdef''\<rparr>"

definition other_command :: create_command where
  "other_command = sample_command\<lparr>cm_title := lit ''Other''\<rparr>"

definition metadata_bytes :: "create_command \<Rightarrow> bytes" where
  "metadata_bytes c = map of_nat (json_dumps (create_metadata c))"

lemma sample_command_ascii:
  "isascii (json_dumps (create_metadata sample_command))" "isascii (json_dumps (create_metadata other_command))"
  by code_simp+

lemma sample_metadata:
  "utf8_bytes (json_dumps (create_metadata sample_command)) = Inr (metadata_bytes sample_command)"
  "utf8_bytes (json_dumps (create_metadata other_command)) = Inr (metadata_bytes other_command)"
  using sample_command_ascii by (simp_all add: utf8_bytes_def utf8_encode_ascii metadata_bytes_def)

lemma utf8_ok_ascii: "isascii s \<Longrightarrow> utf8_ok s"
  by (simp add: utf8_ok_def utf8_encode_ascii)

lemma sample_command_valid: "create_command_valid tail_sha sample_command"
proof -
  have a: "utf8_ok (lit ''Notes'')" "utf8_ok (lit ''chat'')"
    by (rule utf8_ok_ascii, simp add: isascii_def lit_def)+
  have m: "markdown_valid tail_sha [104, 105]" by code_simp
  have u: "utc_in_range 0" by code_simp
  have r: "request_id_valid (lit ''req_0123456789abcdef0123456789abcdef'')" by code_simp
  have i: "opaque_id (auth_id 1)" "opaque_id (auth_id 3)" "opaque_id (auth_id 5)" by code_simp+
  have t: "text_check (lit ''Notes'')" "text_check (lit ''chat'')" by code_simp+
  have k: "is_stripped (lit ''chat'')" by code_simp
  show ?thesis using a m u r i t k
    by (simp add: create_command_valid_def sample_command_def source_input_valid_def source_kind_valid_def
        source_locator_valid_def optional_def) (simp add: lit_def)
qed

lemma other_command_valid: "create_command_valid tail_sha other_command"
proof -
  have "utf8_ok (lit ''Other'')" by (rule utf8_ok_ascii, simp add: isascii_def lit_def)
  moreover have "text_check (lit ''Other'')" by code_simp
  ultimately show ?thesis using sample_command_valid
    by (simp add: other_command_def create_command_valid_def)
qed

theorem create_fingerprint_identifies_witness:
  "(\<exists>f. create_fingerprint tail_sha sample_command = Inr f)
   \<and> create_fingerprint tail_sha sample_command \<noteq> create_fingerprint tail_sha other_command"
proof -
  obtain f where f: "create_fingerprint tail_sha sample_command = Inr f"
    using sample_metadata by (simp add: create_fingerprint_def)
  have "length (metadata_bytes sample_command) < 500" "length (metadata_bytes other_command) < 500"
    by code_simp+
  then have l: "\<forall>x \<in> {sample_command, other_command}.
      \<forall>k. utf8_bytes (json_dumps (create_metadata x)) = Inr k \<longrightarrow> length k < 2 ^ 63"
    using sample_metadata by auto
  have "tail_sha (REQUEST_FINGERPRINT_DOMAIN @ framed [metadata_bytes sample_command, [104, 105]])
      \<noteq> tail_sha (REQUEST_FINGERPRINT_DOMAIN @ framed [metadata_bytes other_command, [104, 105]])" by code_simp
  then have n: "\<not> collides tail_sha (fingerprint_input (create_metadata sample_command) [cm_content_md sample_command])
         (fingerprint_input (create_metadata other_command) [cm_content_md other_command])"
    by (simp add: collides_def fingerprint_input_def sample_metadata)
      (simp add: other_command_def sample_command_def)
  have "sample_command\<lparr>cm_request_id := cm_request_id other_command\<rparr> \<noteq> other_command"
    by (simp add: other_command_def sample_command_def lit_def)
  then have "create_fingerprint tail_sha other_command \<noteq> Inr f"
    using create_fingerprint_identifies [OF sample_command_valid other_command_valid f _ l] n by blast
  then show ?thesis using f by auto
qed

definition sample_lifecycle :: lifecycle_command where
  "sample_lifecycle = \<lparr>lm_library_id = auth_id 1, lm_section_id = auth_id 3,
     lm_page_id = lit ''19700101t000000000z-notes'', lm_expected_etag = lit ''e'', lm_request_id = lit ''r''\<rparr>"

text \<open>The identity tells every two texts apart.\<close>

theorem lifecycle_fingerprint_identifies_witness:
  "lifecycle_fingerprint (\<lambda>b. b) sample_lifecycle (lit ''delete'')
    \<noteq> lifecycle_fingerprint (\<lambda>b. b) sample_lifecycle (lit ''restore'')"
proof
  let ?d = "json_dumps (lifecycle_metadata sample_lifecycle (lit ''delete''))"
  let ?r = "json_dumps (lifecycle_metadata sample_lifecycle (lit ''restore''))"
  assume e: "lifecycle_fingerprint (\<lambda>b. b) sample_lifecycle (lit ''delete'')
    = lifecycle_fingerprint (\<lambda>b. b) sample_lifecycle (lit ''restore'')"
  have "isascii ?d" "isascii ?r" by code_simp+
  then have m: "utf8_bytes ?d = Inr (map of_nat ?d)" "utf8_bytes ?r = Inr (map of_nat ?r)"
    by (simp_all add: utf8_bytes_def utf8_encode_ascii)
  obtain f where f: "lifecycle_fingerprint (\<lambda>b. b) sample_lifecycle (lit ''delete'') = Inr f"
    "lifecycle_fingerprint (\<lambda>b. b) sample_lifecycle (lit ''restore'') = Inr f"
    using m e by (simp add: lifecycle_fingerprint_def)
  have "length ?d < 500" "length ?r < 500" by code_simp+
  then have l: "\<forall>v \<in> {lifecycle_metadata sample_lifecycle (lit ''delete''), lifecycle_metadata sample_lifecycle (lit ''restore'')}.
      \<forall>k. utf8_bytes (json_dumps v) = Inr k \<longrightarrow> length k < 2 ^ 63"
    using m by auto
  from lifecycle_fingerprint_identifies [OF f l] show False by (simp add: collides_def lit_def)
qed

end
