(* ===== verification/UnicodeText.thy ===== *)
theory UnicodeText
  imports Utf8
begin

text \<open>
  The Unicode database of the runtime, which file names and search terms are normalized with.
  \<open>unicodedata.normalize("NFC", s)\<close>, \<open>unicodedata.category(c)\<close>, \<open>str.casefold\<close>,
  \<open>str.upper\<close> and \<open>str.lower\<close> follow tables that are no part of the repository; they are the fields of a record
  that the model takes as an argument. \<open>ascii_unicode\<close> is the part of the tables on ASCII text,
  where NFC changes nothing.
\<close>

record unicode_data =
  uc_nfc :: "pystr \<Rightarrow> pystr"
  uc_casefold :: "pystr \<Rightarrow> pystr"
  uc_upper :: "pystr \<Rightarrow> pystr"
  uc_lower :: "pystr \<Rightarrow> pystr"
  uc_category :: "nat \<Rightarrow> pystr"

text \<open>Unicode normalization forms are idempotent (UAX 15).\<close>

definition nfc_stable :: "unicode_data \<Rightarrow> bool" where
  "nfc_stable u \<longleftrightarrow> (\<forall>s. uc_nfc u (uc_nfc u s) = uc_nfc u s)"

text \<open>Neither normalization nor folding removes all characters of a text.\<close>

definition keeps_text :: "unicode_data \<Rightarrow> bool" where
  "keeps_text u \<longleftrightarrow> (\<forall>s. s \<noteq> [] \<longrightarrow> uc_nfc u s \<noteq> [] \<and> uc_casefold u s \<noteq> [])"

definition ascii_category :: "nat \<Rightarrow> pystr" where
  "ascii_category c =
     (if c < 32 \<or> c = 127 then lit ''Cc''
      else if is_digit c then lit ''Nd''
      else if is_lower c then lit ''Ll''
      else if is_upper c then lit ''Lu''
      else if c = 32 then lit ''Zs'' else lit ''Po'')"

definition ascii_unicode :: unicode_data where
  "ascii_unicode =
     \<lparr>uc_nfc = (\<lambda>s. s), uc_casefold = map (\<lambda>c. if is_upper c then c + 32 else c),
      uc_upper = map (\<lambda>c. if is_lower c then c - 32 else c),
      uc_lower = map (\<lambda>c. if is_upper c then c + 32 else c), uc_category = ascii_category\<rparr>"

lemma ascii_nfc_stable [simp]: "nfc_stable ascii_unicode"
  by (simp add: nfc_stable_def ascii_unicode_def)

lemma ascii_keeps_text [simp]: "keeps_text ascii_unicode"
  by (simp add: keeps_text_def ascii_unicode_def)

lemma utf8_length:
  assumes "utf8_encode s = Some bs"
  shows "length s \<le> length bs"
proof -
  have "length s \<le> length (concat (map cp_units s))" for s
    by (induction s) (auto simp: cp_units_def)
  then show ?thesis using assms by (auto simp: utf8_encode_def split: if_splits)
qed

lemma utf8_encode_Nil [simp]: "utf8_encode [] = Some []"
  by (simp add: utf8_encode_def)

end
