(* ===== verification/FileManifest.thy ===== *)
theory FileManifest
  imports UnicodeText PageEtags Tokens "HOL-Library.List_Lexorder"
begin

text \<open>
  \<open>content/file_manifest.py\<close>: safe file names, and the complete, ordered and hashed snapshot of
  the files of a page. The Unicode tables and the digest are parameters; the checks of exact Python
  types are the types of the model.
\<close>

section \<open>Limits and errors\<close>

definition MAX_FILES_PER_PAGE :: int where "MAX_FILES_PER_PAGE = 64"
definition MAX_FILENAME_BYTES :: int where "MAX_FILENAME_BYTES = 255"
definition MAX_RAW_FILENAME_CHARS :: int where "MAX_RAW_FILENAME_CHARS = 512"
definition MAX_FILE_BYTES :: int where "MAX_FILE_BYTES = 16 * 1024 * 1024"
definition MAX_PAGE_BYTES :: int where "MAX_PAGE_BYTES = 64 * 1024 * 1024"

definition SNAPSHOT_DOMAIN :: bytes where
  "SNAPSHOT_DOMAIN = map of_nat (lit ''patchouli-page-file-snapshot-v1'') @ [0]"
definition WINDOWS_FORBIDDEN :: pystr where
  "WINDOWS_FORBIDDEN = [60, 62, 58, 34, 47, 92, 124, 63, 42]"
definition WINDOWS_DEVICE_NAMES :: "pystr list" where
  "WINDOWS_DEVICE_NAMES =
     [lit ''CON'', lit ''PRN'', lit ''AUX'', lit ''NUL'', lit ''CONIN$'', lit ''CONOUT$'']"
definition WINDOWS_DEVICE_PREFIXES :: "pystr list" where
  "WINDOWS_DEVICE_PREFIXES = [lit ''COM'', lit ''LPT'']"
definition WINDOWS_DEVICE_SUFFIXES :: pystr where
  "WINDOWS_DEVICE_SUFFIXES = lit ''0123456789'' @ [0xB9, 0xB2, 0xB3]"

text \<open>The \<open>ValueError\<close>s of the module by their messages, and the \<open>UnicodeError\<close> of \<open>str.encode\<close>.\<close>

datatype file_error =
    FileNameTooLong
  | NotOneFile
  | AmbiguousEdge
  | PathSeparators
  | ControlCharacters
  | ReservedName
  | NotEncodable
  | NameNotNormalized
  | ContentLimit
  | SizeMismatch
  | DigestMismatch
  | UnboundedFiles
  | NotSorted
  | DuplicateNames
  | PageSizeMismatch
  | SnapshotMismatch
  | TooManyFiles
  | NoFiles

section \<open>File names\<close>

definition dot_parts :: "pystr \<Rightarrow> pystr list" where
  "dot_parts s = split_on 46 s"

definition is_device_name :: "pystr \<Rightarrow> bool" where
  "is_device_name stem \<longleftrightarrow> stem \<in> set WINDOWS_DEVICE_NAMES
     \<or> (length stem = 4 \<and> take 3 stem \<in> set WINDOWS_DEVICE_PREFIXES
        \<and> stem ! 3 \<in> set WINDOWS_DEVICE_SUFFIXES)"

definition normalize_file_name :: "unicode_data \<Rightarrow> pystr \<Rightarrow> file_error + pystr" where
  "normalize_file_name u value =
     (if int (length value) > MAX_RAW_FILENAME_CHARS then Inl FileNameTooLong
      else let name = uc_nfc u value in
        if name = [] \<or> name \<in> {lit ''.'', lit ''..''} then Inl NotOneFile
        else if hd name = 32 \<or> list_ex (\<lambda>part. part \<noteq> [] \<and> last part = 32) (dot_parts name)
        then Inl AmbiguousEdge
        else if last name = 46 then Inl AmbiguousEdge
        else if list_ex (\<lambda>c. c \<in> set WINDOWS_FORBIDDEN) name then Inl PathSeparators
        else if list_ex (\<lambda>c. uc_category u c
          \<in> {lit ''Cc'', lit ''Cf'', lit ''Cs'', lit ''Zl'', lit ''Zp''}) name
        then Inl ControlCharacters
        else if is_device_name (uc_upper u (hd (dot_parts name))) then Inl ReservedName
        else bindR (optionR NotEncodable (utf8_encode name)) (\<lambda>bs.
          if int (length bs) > MAX_FILENAME_BYTES then Inl FileNameTooLong else Inr name))"

section \<open>Snapshots\<close>

text \<open>\<open>name.encode("utf-8")\<close> of a name whose normalization has encoded it.\<close>

definition name_bytes :: "pystr \<Rightarrow> bytes" where
  "name_bytes name = (case utf8_encode name of Some bs \<Rightarrow> bs | None \<Rightarrow> [])"

definition snapshot_entry :: "manifest_entry \<Rightarrow> bytes" where
  "snapshot_entry e = to_bytes8 (int (length (name_bytes (mf_name e)))) @ name_bytes (mf_name e)
     @ to_bytes8 (mf_size_bytes e) @ mf_sha256 e"

definition snapshot_input :: "manifest_entry list \<Rightarrow> bytes" where
  "snapshot_input files =
     SNAPSHOT_DOMAIN @ to_bytes8 (int (length files)) @ concat (map snapshot_entry files)"

definition snapshot_digest :: "(bytes \<Rightarrow> bytes) \<Rightarrow> manifest_entry list \<Rightarrow> bytes" where
  "snapshot_digest sha files = sha (snapshot_input files)"

definition collision_key :: "unicode_data \<Rightarrow> pystr \<Rightarrow> pystr" where
  "collision_key u name = uc_nfc u (uc_casefold u name)"

text \<open>\<open>ManifestFile.__post_init__\<close> and \<open>FileManifest.__post_init__\<close>\<close>

definition manifest_file_check ::
  "unicode_data \<Rightarrow> (bytes \<Rightarrow> bytes) \<Rightarrow> manifest_entry \<Rightarrow> file_error + unit" where
  "manifest_file_check u sha e =
     bindR (normalize_file_name u (mf_name e)) (\<lambda>name.
       if name \<noteq> mf_name e then Inl NameNotNormalized
       else if int (length (mf_content e)) > MAX_FILE_BYTES then Inl ContentLimit
       else if mf_size_bytes e \<noteq> int (length (mf_content e)) then Inl SizeMismatch
       else if length (mf_sha256 e) \<noteq> 32 \<or> mf_sha256 e \<noteq> sha (mf_content e) then Inl DigestMismatch
       else Inr ())"

fun manifest_files_check ::
  "unicode_data \<Rightarrow> (bytes \<Rightarrow> bytes) \<Rightarrow> manifest_entry list \<Rightarrow> file_error + unit" where
  "manifest_files_check u sha [] = Inr ()"
| "manifest_files_check u sha (e # es) =
     bindR (manifest_file_check u sha e) (\<lambda>_. manifest_files_check u sha es)"

definition file_manifest_check ::
  "unicode_data \<Rightarrow> (bytes \<Rightarrow> bytes) \<Rightarrow> file_manifest \<Rightarrow> file_error + unit" where
  "file_manifest_check u sha m =
     (if \<not> (1 \<le> length (fm_files m) \<and> int (length (fm_files m)) \<le> MAX_FILES_PER_PAGE)
      then Inl UnboundedFiles
      else bindR (manifest_files_check u sha (fm_files m)) (\<lambda>_.
        let names = map mf_name (fm_files m); keys = map (collision_key u) names;
            total = sum_list (map mf_size_bytes (fm_files m)) in
        if names \<noteq> sort_key name_bytes names then Inl NotSorted
        else if \<not> distinct keys then Inl DuplicateNames
        else if total > MAX_PAGE_BYTES then Inl ContentLimit
        else if fm_total_size_bytes m \<noteq> total then Inl PageSizeMismatch
        else if length (fm_snapshot_sha256 m) \<noteq> 32
          \<or> fm_snapshot_sha256 m \<noteq> snapshot_digest sha (fm_files m)
        then Inl SnapshotMismatch
        else Inr ()))"

definition manifest_file :: "(bytes \<Rightarrow> bytes) \<Rightarrow> pystr \<Rightarrow> bytes \<Rightarrow> manifest_entry" where
  "manifest_file sha name content =
     \<lparr>mf_name = name, mf_content = content, mf_size_bytes = int (length content),
      mf_sha256 = sha content\<rparr>"

text \<open>The loop of \<open>build_file_manifest\<close> with its entries, its collision keys and its running size.\<close>

fun collect_files ::
  "unicode_data \<Rightarrow> (bytes \<Rightarrow> bytes) \<Rightarrow> manifest_entry list \<Rightarrow> pystr list \<Rightarrow> int
     \<Rightarrow> (pystr \<times> bytes) list \<Rightarrow> file_error + manifest_entry list \<times> int" where
  "collect_files u sha entries seen used [] = Inr (entries, used)"
| "collect_files u sha entries seen used ((raw, content) # rest) =
     (if int (length entries) \<ge> MAX_FILES_PER_PAGE then Inl TooManyFiles
      else bindR (normalize_file_name u raw) (\<lambda>name.
        let key = collision_key u name; size = int (length content) in
        if key \<in> set seen then Inl DuplicateNames
        else if size > MAX_FILE_BYTES \<or> used + size > MAX_PAGE_BYTES then Inl ContentLimit
        else let e = manifest_file sha name content in
          bindR (manifest_file_check u sha e) (\<lambda>_.
            collect_files u sha (entries @ [e]) (key # seen) (used + size) rest)))"

definition build_file_manifest ::
  "unicode_data \<Rightarrow> (bytes \<Rightarrow> bytes) \<Rightarrow> (pystr \<times> bytes) list \<Rightarrow> file_error + file_manifest" where
  "build_file_manifest u sha files =
     bindR (collect_files u sha [] [] 0 files) (\<lambda>(entries, total).
       if entries = [] then Inl NoFiles
       else let ordered = sort_key (\<lambda>e. name_bytes (mf_name e)) entries;
                m = \<lparr>fm_files = ordered, fm_total_size_bytes = total,
                     fm_snapshot_sha256 = snapshot_digest sha ordered\<rparr> in
         bindR (file_manifest_check u sha m) (\<lambda>_. Inr m))"

section \<open>Which uploads build a manifest\<close>

lemma normalize_file_name_shape:
  assumes "normalize_file_name u v = Inr n"
  shows "n = uc_nfc u v" "n \<noteq> []" "n \<noteq> lit ''.''" "n \<noteq> lit ''..''" "set n \<inter> set WINDOWS_FORBIDDEN = {}"
    "\<exists>bs. utf8_encode n = Some bs \<and> int (length bs) \<le> MAX_FILENAME_BYTES"
  using assms
  by (auto simp: normalize_file_name_def Let_def result_simps list_ex_iff split: if_splits)

lemma normalize_file_name_length:
  assumes "normalize_file_name u v = Inr n"
  shows "int (length n) \<le> MAX_FILENAME_BYTES"
  using normalize_file_name_shape(6) [OF assms] utf8_length by fastforce

lemma normalize_file_name_stable:
  assumes "nfc_stable u" and n: "normalize_file_name u v = Inr n"
  shows "normalize_file_name u n = Inr n"
proof -
  have "uc_nfc u n = n" using normalize_file_name_shape(1) [OF n] assms(1) by (simp add: nfc_stable_def)
  moreover have "\<not> int (length n) > MAX_RAW_FILENAME_CHARS"
    using normalize_file_name_length [OF n] by (simp add: MAX_FILENAME_BYTES_def MAX_RAW_FILENAME_CHARS_def)
  ultimately show ?thesis
    using n normalize_file_name_shape(1) [OF n]
    by (simp add: normalize_file_name_def Let_def split: if_splits)
qed

lemma manifest_file_fields [simp]:
  "mf_name (manifest_file sha n c) = n" "mf_content (manifest_file sha n c) = c"
  "mf_size_bytes (manifest_file sha n c) = int (length c)" "mf_sha256 (manifest_file sha n c) = sha c"
  by (simp_all add: manifest_file_def)

lemma manifest_file_check_built:
  assumes "normalize_file_name u n = Inr n" and "int (length c) \<le> MAX_FILE_BYTES" and "length (sha c) = 32"
  shows "manifest_file_check u sha (manifest_file sha n c) = Inr ()"
  using assms by (simp add: manifest_file_check_def)

lemma manifest_files_check_iff:
  "manifest_files_check u sha es = Inr () \<longleftrightarrow> (\<forall>e \<in> set es. manifest_file_check u sha e = Inr ())"
  by (induction es) (auto simp: result_simps)

text \<open>The names and contents that the loop accepts, and the manifest they make.\<close>

definition upload_size :: "(pystr \<times> bytes) list \<Rightarrow> int" where
  "upload_size files = sum_list (map (\<lambda>f. int (length (snd f))) files)"

definition accepted_upload ::
  "unicode_data \<Rightarrow> (pystr \<times> bytes) list \<Rightarrow> (pystr \<times> bytes) list \<Rightarrow> bool" where
  "accepted_upload u files named \<longleftrightarrow>
     map snd named = map snd files
     \<and> map (\<lambda>f. normalize_file_name u (fst f)) files = map (\<lambda>f. Inr (fst f)) named
     \<and> distinct (map (\<lambda>f. collision_key u (fst f)) named)
     \<and> (\<forall>f \<in> set files. int (length (snd f)) \<le> MAX_FILE_BYTES)"

definition entries_of :: "(bytes \<Rightarrow> bytes) \<Rightarrow> (pystr \<times> bytes) list \<Rightarrow> manifest_entry list" where
  "entries_of sha named = map (\<lambda>f. manifest_file sha (fst f) (snd f)) named"

definition manifest_of :: "(bytes \<Rightarrow> bytes) \<Rightarrow> (pystr \<times> bytes) list \<Rightarrow> file_manifest" where
  "manifest_of sha named =
     (let ordered = sort_key (\<lambda>e. name_bytes (mf_name e)) (entries_of sha named) in
      \<lparr>fm_files = ordered, fm_total_size_bytes = upload_size named,
       fm_snapshot_sha256 = snapshot_digest sha ordered\<rparr>)"

lemma upload_size_Cons [simp]: "upload_size (f # fs) = int (length (snd f)) + upload_size fs"
  by (simp add: upload_size_def)

lemma upload_size_nonneg: "0 \<le> upload_size fs"
  unfolding upload_size_def by (rule sum_list_nonneg) auto

lemma upload_size_contents: "map snd fs = map snd gs \<Longrightarrow> upload_size fs = upload_size gs"
proof -
  assume "map snd fs = map snd gs"
  then have "map (\<lambda>c. int (length c)) (map snd fs) = map (\<lambda>c. int (length c)) (map snd gs)" by simp
  then show ?thesis by (simp add: upload_size_def comp_def)
qed

lemma accepted_upload_Cons:
  "accepted_upload u ((raw, c) # fs) named \<longleftrightarrow>
    (\<exists>n named'. named = (n, c) # named' \<and> normalize_file_name u raw = Inr n
      \<and> (\<forall>f \<in> set named'. collision_key u (fst f) \<noteq> collision_key u n)
      \<and> int (length c) \<le> MAX_FILE_BYTES \<and> accepted_upload u fs named')"
proof (cases named)
  case Nil
  then show ?thesis by (simp add: accepted_upload_def)
next
  case (Cons p named')
  obtain n d where "p = (n, d)" by (cases p)
  then show ?thesis unfolding Cons by (auto simp: accepted_upload_def image_iff)
qed

lemma collect_files_iff:
  assumes "nfc_stable u" and "\<And>b. length (sha b) = 32"
  shows "collect_files u sha es seen t files = Inr r \<longleftrightarrow>
    (\<exists>named. accepted_upload u files named
      \<and> (files = [] \<or> int (length es) + int (length files) \<le> MAX_FILES_PER_PAGE)
      \<and> (\<forall>f \<in> set named. collision_key u (fst f) \<notin> set seen)
      \<and> (files = [] \<or> t + upload_size files \<le> MAX_PAGE_BYTES)
      \<and> r = (es @ entries_of sha named, t + upload_size files))"
proof (induction files arbitrary: es seen t)
  case Nil
  then show ?case by (auto simp: accepted_upload_def entries_of_def upload_size_def)
next
  case (Cons f fs)
  obtain raw c where f: "f = (raw, c)" by (cases f)
  show ?case
  proof (cases "normalize_file_name u raw")
    case (Inl e)
    then show ?thesis by (simp add: f accepted_upload_Cons)
  next
    case (Inr n)
    have b: "manifest_file_check u sha (manifest_file sha n c) = Inr ()" if "int (length c) \<le> MAX_FILE_BYTES"
      using manifest_file_check_built [OF normalize_file_name_stable [OF assms(1) Inr] that assms(2)] .
    have l: "collect_files u sha es seen t ((raw, c) # fs) = Inr r \<longleftrightarrow>
      int (length es) < MAX_FILES_PER_PAGE \<and> collision_key u n \<notin> set seen
      \<and> int (length c) \<le> MAX_FILE_BYTES \<and> t + int (length c) \<le> MAX_PAGE_BYTES
      \<and> collect_files u sha (es @ [manifest_file sha n c]) (collision_key u n # seen) (t + int (length c)) fs = Inr r"
      using b by (auto simp: Inr Let_def)
    have z: "0 \<le> upload_size fs" by (rule upload_size_nonneg)
    have e: "entries_of sha ((n, c) # named) = manifest_file sha n c # entries_of sha named" for named
      by (simp add: entries_of_def)
    have n: "upload_size fs = 0" if "fs = []" using that by (simp add: upload_size_def)
    show ?thesis unfolding f l Cons.IH accepted_upload_Cons Inr
      by (rule iffI; elim exE conjE; (intro exI [of _ "(n, c) # _"] exI conjI)?; use z n in \<open>force simp: e add.assoc\<close>)
  qed
qed

lemma accepted_upload_names:
  assumes "accepted_upload u files named" and "f \<in> set named"
  shows "\<exists>raw. normalize_file_name u raw = Inr (fst f)" "int (length (snd f)) \<le> MAX_FILE_BYTES"
proof -
  obtain i where i: "i < length named" "f = named ! i" using assms(2) by (auto simp: in_set_conv_nth)
  have l: "length files = length named" using assms(1) by (metis accepted_upload_def length_map)
  have "map (\<lambda>f. normalize_file_name u (fst f)) files ! i = map (\<lambda>f. Inr (fst f)) named ! i"
    using assms(1) by (simp add: accepted_upload_def)
  then show "\<exists>raw. normalize_file_name u raw = Inr (fst f)" using i l by auto
  have "snd f = snd (files ! i)" using assms(1) i l by (metis accepted_upload_def nth_map)
  moreover have "files ! i \<in> set files" using i l by simp
  ultimately show "int (length (snd f)) \<le> MAX_FILE_BYTES" using assms(1) by (simp add: accepted_upload_def)
qed

lemma manifest_of_files:
  "mset (fm_files (manifest_of sha named)) = mset (entries_of sha named)"
  "sorted (map (\<lambda>e. name_bytes (mf_name e)) (fm_files (manifest_of sha named)))"
  by (simp_all add: manifest_of_def Let_def)

lemma manifest_of_valid:
  assumes "nfc_stable u" and sha: "\<And>b. length (sha b) = 32" and a: "accepted_upload u files named"
    and "named \<noteq> []" and "int (length named) \<le> MAX_FILES_PER_PAGE" and "upload_size named \<le> MAX_PAGE_BYTES"
  shows "file_manifest_check u sha (manifest_of sha named) = Inr ()"
proof -
  let ?m = "manifest_of sha named"
  have p: "mset (fm_files ?m) = mset (entries_of sha named)" by (rule manifest_of_files)
  have l: "length (fm_files ?m) = length named" using mset_eq_length [OF p] by (simp add: entries_of_def)
  have "manifest_file_check u sha e = Inr ()" if "e \<in> set (fm_files ?m)" for e
  proof -
    have "e \<in> set (entries_of sha named)" using that p mset_eq_setD by blast
    then obtain f where f: "f \<in> set named" "e = manifest_file sha (fst f) (snd f)" by (auto simp: entries_of_def)
    then obtain raw where "normalize_file_name u raw = Inr (fst f)" using accepted_upload_names(1) [OF a] by blast
    then have "normalize_file_name u (fst f) = Inr (fst f)" by (rule normalize_file_name_stable [OF assms(1)])
    then show ?thesis unfolding f(2) by (rule manifest_file_check_built [OF _ accepted_upload_names(2) [OF a f(1)] sha])
  qed
  then have c: "manifest_files_check u sha (fm_files ?m) = Inr ()" by (simp add: manifest_files_check_iff)
  have o: "sort_key name_bytes (map mf_name (fm_files ?m)) = map mf_name (fm_files ?m)"
    using manifest_of_files(2) by (intro sort_key_id_if_sorted) (simp add: comp_def)
  have "image_mset (\<lambda>e. collision_key u (mf_name e)) (mset (fm_files ?m))
      = mset (map (\<lambda>f. collision_key u (fst f)) named)"
    unfolding p by (simp add: entries_of_def image_mset.compositionality comp_def)
  moreover have "distinct (map (\<lambda>f. collision_key u (fst f)) named)" using a by (simp add: accepted_upload_def)
  ultimately have d: "distinct (map (collision_key u) (map mf_name (fm_files ?m)))"
    by (metis (no_types, lifting) list.map_comp map_eq_conv mset_eq_imp_distinct_iff mset_map comp_apply)
  have "sum_mset (image_mset mf_size_bytes (mset (fm_files ?m))) = upload_size named"
    unfolding p by (simp add: entries_of_def upload_size_def sum_mset_sum_list comp_def flip: mset_map)
  then have t: "sum_list (map mf_size_bytes (fm_files ?m)) = upload_size named"
    by (metis mset_map sum_mset_sum_list)
  have "fm_total_size_bytes ?m = upload_size named" "fm_snapshot_sha256 ?m = snapshot_digest sha (fm_files ?m)"
    by (simp_all add: manifest_of_def Let_def)
  then show ?thesis
    using c o d t l assms(4-6) sha
    by (simp add: file_manifest_check_def Let_def snapshot_digest_def Suc_le_eq)
qed

lemma build_manifest_iff:
  assumes "nfc_stable u" and "\<And>b. length (sha b) = 32"
  shows "build_file_manifest u sha files = Inr m \<longleftrightarrow>
    files \<noteq> [] \<and> int (length files) \<le> MAX_FILES_PER_PAGE \<and> upload_size files \<le> MAX_PAGE_BYTES
    \<and> (\<exists>named. accepted_upload u files named \<and> m = manifest_of sha named)"
proof -
  have c: "collect_files u sha [] [] 0 files = Inr r \<longleftrightarrow>
      (\<exists>named. accepted_upload u files named
        \<and> (files = [] \<or> int (length files) \<le> MAX_FILES_PER_PAGE \<and> upload_size files \<le> MAX_PAGE_BYTES)
        \<and> r = (entries_of sha named, upload_size files))" for r
    by (subst collect_files_iff [OF assms]) auto
  have v: "file_manifest_check u sha (manifest_of sha named) = Inr ()"
    and s: "upload_size files = upload_size named" and l: "length files = length named"
    if "accepted_upload u files named" "files \<noteq> []" "int (length files) \<le> MAX_FILES_PER_PAGE"
      "upload_size files \<le> MAX_PAGE_BYTES" for named
  proof -
    show s: "upload_size files = upload_size named"
      using that(1) by (metis accepted_upload_def upload_size_contents)
    show l: "length files = length named" using that(1) by (metis accepted_upload_def length_map)
    show "file_manifest_check u sha (manifest_of sha named) = Inr ()"
      by (rule manifest_of_valid [OF assms that(1)]) (use that s l in auto)
  qed
  show ?thesis
  proof
    assume b: "build_file_manifest u sha files = Inr m"
    then obtain named where n: "accepted_upload u files named" "entries_of sha named \<noteq> []"
      and f: "files = [] \<or> int (length files) \<le> MAX_FILES_PER_PAGE \<and> upload_size files \<le> MAX_PAGE_BYTES"
      and m: "m = \<lparr>fm_files = sort_key (\<lambda>e. name_bytes (mf_name e)) (entries_of sha named),
        fm_total_size_bytes = upload_size files, fm_snapshot_sha256 =
          snapshot_digest sha (sort_key (\<lambda>e. name_bytes (mf_name e)) (entries_of sha named))\<rparr>"
      by (auto simp: build_file_manifest_def result_simps c Let_def split: if_splits)
    have "files \<noteq> []" using n by (auto simp: accepted_upload_def entries_of_def)
    then show "files \<noteq> [] \<and> int (length files) \<le> MAX_FILES_PER_PAGE \<and> upload_size files \<le> MAX_PAGE_BYTES
      \<and> (\<exists>named. accepted_upload u files named \<and> m = manifest_of sha named)"
      using f n m s [OF n(1)] by (auto simp: manifest_of_def Let_def)
  next
    assume "files \<noteq> [] \<and> int (length files) \<le> MAX_FILES_PER_PAGE \<and> upload_size files \<le> MAX_PAGE_BYTES
      \<and> (\<exists>named. accepted_upload u files named \<and> m = manifest_of sha named)"
    then obtain named where n: "files \<noteq> []" "int (length files) \<le> MAX_FILES_PER_PAGE"
      "upload_size files \<le> MAX_PAGE_BYTES" "accepted_upload u files named" and m: "m = manifest_of sha named" by blast
    have e: "entries_of sha named \<noteq> []" using l [OF n(4) n(1-3)] n(1) by (auto simp: entries_of_def)
    have "collect_files u sha [] [] 0 files = Inr (entries_of sha named, upload_size files)"
      using c n by blast
    then show "build_file_manifest u sha files = Inr m"
      using e v [OF n(4) n(1-3)] s [OF n(4) n(1-3)] m
      by (simp add: build_file_manifest_def manifest_of_def Let_def)
  qed
qed

end
