(* ===== verification/FileManifestTheorems.thy ===== *)
theory FileManifestTheorems
  imports FileManifest
begin

text \<open>
  The properties of page snapshots: which uploads are accepted does not depend on their order, a
  manifest is rebuilt from its own files, its digest identifies the files, and the names are safe.
\<close>

section \<open>The order of an upload\<close>

definition normalized_file :: "unicode_data \<Rightarrow> pystr \<times> bytes \<Rightarrow> pystr \<times> bytes" where
  "normalized_file u f = (projr (normalize_file_name u (fst f)), snd f)"

lemma accepted_upload_iff:
  "accepted_upload u files named \<longleftrightarrow>
    named = map (normalized_file u) files
    \<and> (\<forall>f \<in> set files. \<not> isl (normalize_file_name u (fst f)) \<and> int (length (snd f)) \<le> MAX_FILE_BYTES)
    \<and> distinct (map (\<lambda>f. collision_key u (fst f)) named)"
proof -
  have "map snd named = map snd files
      \<and> map (\<lambda>f. normalize_file_name u (fst f)) files = map (\<lambda>f. Inr (fst f)) named
    \<longleftrightarrow> named = map (normalized_file u) files \<and> (\<forall>f \<in> set files. \<not> isl (normalize_file_name u (fst f)))"
  proof (induction files arbitrary: named)
    case Nil
    then show ?case by auto
  next
    case (Cons f fs)
    show ?case
    proof (cases named)
      case (Cons p ps)
      then show ?thesis using Cons.IH [of ps]
        by (cases p; cases "normalize_file_name u (fst f)") (auto simp: normalized_file_def)
    qed simp
  qed
  then show ?thesis unfolding accepted_upload_def by blast
qed

lemma accepted_upload_perm:
  assumes "mset files = mset files'" and "accepted_upload u files named"
  shows "accepted_upload u files' (map (normalized_file u) files')"
    "mset (map (normalized_file u) files') = mset named"
proof -
  show m: "mset (map (normalized_file u) files') = mset named"
    using assms by (simp add: accepted_upload_iff)
  have "mset (map (\<lambda>f. collision_key u (fst f)) (map (normalized_file u) files'))
      = mset (map (\<lambda>f. collision_key u (fst f)) named)"
    using m by (metis mset_map)
  then have "distinct (map (\<lambda>f. collision_key u (fst f)) (map (normalized_file u) files'))"
    using assms(2) by (metis accepted_upload_def mset_eq_imp_distinct_iff)
  moreover have "set files = set files'" using assms(1) by (rule mset_eq_setD)
  ultimately show "accepted_upload u files' (map (normalized_file u) files')"
    using assms(2) by (simp add: accepted_upload_iff)
qed

lemma name_bytes_inj:
  assumes "utf8_encode s = Some a" "utf8_encode t = Some b" "name_bytes s = name_bytes t"
  shows "s = t"
  using assms utf8_encode_inj by (auto simp: name_bytes_def)

lemma accepted_upload_bytes_inj:
  assumes a: "accepted_upload u files named"
  shows "inj_on (\<lambda>e. name_bytes (mf_name e)) (set (entries_of sha named))"
proof (rule inj_onI)
  fix x y assume x: "x \<in> set (entries_of sha named)" and y: "y \<in> set (entries_of sha named)"
    and e: "name_bytes (mf_name x) = name_bytes (mf_name y)"
  obtain f g where f: "f \<in> set named" "x = manifest_file sha (fst f) (snd f)"
    and g: "g \<in> set named" "y = manifest_file sha (fst g) (snd g)"
    using x y by (auto simp: entries_of_def)
  obtain r1 r2 where "normalize_file_name u r1 = Inr (fst f)" "normalize_file_name u r2 = Inr (fst g)"
    using accepted_upload_names(1) [OF a] f(1) g(1) by metis
  then obtain b1 b2 where "utf8_encode (fst f) = Some b1" "utf8_encode (fst g) = Some b2"
    using normalize_file_name_shape(6) by metis
  then have n: "fst f = fst g" using e f g name_bytes_inj by simp
  have "inj_on (\<lambda>f. collision_key u (fst f)) (set named)"
    using a by (simp add: accepted_upload_def distinct_map)
  then have "f = g" by (rule inj_onD) (use f(1) g(1) n in simp_all)
  then show "x = y" using f g by simp
qed

lemma upload_size_perm:
  assumes "mset xs = mset ys"
  shows "upload_size xs = upload_size ys"
proof -
  have "upload_size zs = sum_mset (image_mset (\<lambda>f. int (length (snd f))) (mset zs))" for zs :: "(pystr \<times> bytes) list"
    by (simp add: upload_size_def sum_mset_sum_list flip: mset_map)
  then show ?thesis using assms by simp
qed

lemma manifest_of_perm:
  assumes "accepted_upload u files named" and m: "mset named' = mset named"
  shows "manifest_of sha named' = manifest_of sha named"
proof -
  let ?key = "\<lambda>e. name_bytes (mf_name e)"
  have e: "mset (entries_of sha named') = mset (entries_of sha named)"
    using m by (simp add: entries_of_def)
  have "sort_key ?key (entries_of sha named) = sort_key ?key (entries_of sha named')"
    by (rule sort_key_inj_key_eq) (use e accepted_upload_bytes_inj [OF assms(1)] in simp_all)
  moreover have "upload_size named' = upload_size named" using m by (rule upload_size_perm)
  ultimately show ?thesis by (simp add: manifest_of_def)
qed

lemma build_permuted:
  assumes hyp: "nfc_stable u" "\<And>b. length (sha b) = 32" and m: "mset files = mset files'"
    and b: "build_file_manifest u sha files = Inr m"
  shows "build_file_manifest u sha files' = Inr m"
proof -
  obtain named where n: "accepted_upload u files named" "m = manifest_of sha named" and l: "files \<noteq> []"
    "int (length files) \<le> MAX_FILES_PER_PAGE" "upload_size files \<le> MAX_PAGE_BYTES"
    using b by (auto simp: build_manifest_iff [OF hyp])
  have "upload_size files' = upload_size files" using m by (intro upload_size_perm) simp
  moreover have "length files' = length files" using mset_eq_length [OF m] by simp
  moreover have "files' \<noteq> []" using m l(1) by auto
  moreover have "m = manifest_of sha (map (normalized_file u) files')"
    using n(2) manifest_of_perm [OF n(1) accepted_upload_perm(2) [OF m n(1)]] by simp
  ultimately show ?thesis
    using l accepted_upload_perm(1) [OF m n(1)] unfolding build_manifest_iff [OF hyp] by auto
qed

section \<open>Checked manifests\<close>

definition stored_entry :: "manifest_entry \<Rightarrow> bool" where
  "stored_entry e \<longleftrightarrow> (\<exists>bs. utf8_encode (mf_name e) = Some bs \<and> int (length bs) < 2 ^ 63)
     \<and> 0 \<le> mf_size_bytes e \<and> mf_size_bytes e < 2 ^ 63 \<and> length (mf_sha256 e) = 32"

lemma manifest_checked:
  assumes "file_manifest_check u sha m = Inr ()"
  shows "int (length (fm_files m)) \<le> MAX_FILES_PER_PAGE" "fm_snapshot_sha256 m = sha (snapshot_input (fm_files m))"
    "fm_total_size_bytes m = sum_list (map mf_size_bytes (fm_files m))" "fm_total_size_bytes m \<le> MAX_PAGE_BYTES"
    "fm_files m \<noteq> []" "length (fm_snapshot_sha256 m) = 32"
    "distinct (map (collision_key u) (map mf_name (fm_files m)))"
    "e \<in> set (fm_files m) \<Longrightarrow> manifest_file_check u sha e = Inr ()"
  using assms by (auto simp: file_manifest_check_def snapshot_digest_def result_simps Let_def
      manifest_files_check_iff split: if_splits)

lemma manifest_file_checked:
  assumes "manifest_file_check u sha e = Inr ()"
  shows "mf_size_bytes e = int (length (mf_content e))" "mf_sha256 e = sha (mf_content e)" "stored_entry e"
    "normalize_file_name u (mf_name e) = Inr (mf_name e)" "int (length (mf_content e)) \<le> MAX_FILE_BYTES"
    "length (mf_sha256 e) = 32"
proof -
  have c: "normalize_file_name u (mf_name e) = Inr (mf_name e)" "mf_size_bytes e = int (length (mf_content e))"
    "mf_sha256 e = sha (mf_content e)" "int (length (mf_content e)) \<le> MAX_FILE_BYTES" "length (mf_sha256 e) = 32"
    using assms by (auto simp: manifest_file_check_def result_simps split: if_splits)
  then show "mf_size_bytes e = int (length (mf_content e))" "mf_sha256 e = sha (mf_content e)"
    "normalize_file_name u (mf_name e) = Inr (mf_name e)" "int (length (mf_content e)) \<le> MAX_FILE_BYTES"
    "length (mf_sha256 e) = 32" by simp_all
  show "stored_entry e" using c normalize_file_name_shape(6) [OF c(1)]
    by (auto simp: stored_entry_def MAX_FILENAME_BYTES_def MAX_FILE_BYTES_def)
qed

lemma checked_names_sorted:
  assumes "file_manifest_check u sha m = Inr ()"
  shows "sorted (map (\<lambda>e. name_bytes (mf_name e)) (fm_files m))"
proof -
  have "map mf_name (fm_files m) = sort_key name_bytes (map mf_name (fm_files m))"
    using assms by (simp add: file_manifest_check_def result_simps Let_def split: if_splits)
  then have "sorted (map name_bytes (map mf_name (fm_files m)))" by (metis sorted_sort_key)
  then show ?thesis by (simp add: comp_def)
qed

lemma checked_entries:
  assumes "file_manifest_check u sha m = Inr ()"
  shows "entries_of sha (map (\<lambda>e. (mf_name e, mf_content e)) (fm_files m)) = fm_files m"
proof -
  have "manifest_file sha (mf_name e) (mf_content e) = e" if "e \<in> set (fm_files m)" for e
    using manifest_file_checked [OF manifest_checked(8) [OF assms that]] by (simp add: manifest_file_def)
  then show ?thesis by (auto simp: entries_of_def comp_def intro: map_idI)
qed

lemma checked_manifest_builds:
  assumes u: "nfc_stable u" and sha: "\<And>b. length (sha b) = 32" and c: "file_manifest_check u sha m = Inr ()"
  shows "build_file_manifest u sha (map (\<lambda>e. (mf_name e, mf_content e)) (fm_files m)) = Inr m"
proof -
  let ?named = "map (\<lambda>e. (mf_name e, mf_content e)) (fm_files m)"
  note k = manifest_checked [OF c] and e = manifest_file_checked [OF manifest_checked(8) [OF c]]
  have a: "accepted_upload u ?named ?named"
    using e(4,5) k(7) by (auto simp: accepted_upload_def comp_def)
  have "sum_list (map mf_size_bytes (fm_files m)) = upload_size ?named"
    unfolding upload_size_def using e(1) by (simp add: comp_def cong: map_cong)
  then have t: "fm_total_size_bytes m = upload_size ?named" using k(3) by simp
  have "manifest_of sha ?named = m"
    using checked_entries [OF c] checked_names_sorted [OF c] t k(2)
    by (simp add: manifest_of_def Let_def sort_key_id_if_sorted snapshot_digest_def)
  then show ?thesis using a k t by (auto simp: build_manifest_iff [where sha = sha, OF u sha])
qed

lemma built_manifest_checked:
  "build_file_manifest u sha files = Inr m \<Longrightarrow> file_manifest_check u sha m = Inr ()"
  by (auto simp: build_file_manifest_def result_simps Let_def split: if_splits)

section \<open>Properties\<close>

text \<open>C17: the order in which the files of a page are uploaded never matters: any two orders of the
  same files build the same manifest, or neither is accepted.\<close>

theorem build_file_manifest_order:
  assumes u: "nfc_stable u" and sha: "\<And>b. length (sha b) = 32" and m: "mset files = mset files'"
  shows "build_file_manifest u sha files = Inr m \<longleftrightarrow> build_file_manifest u sha files' = Inr m"
  using build_permuted [where sha = sha, OF u sha m] build_permuted [where sha = sha, OF u sha m [symmetric]] by blast

definition sample_upload :: "(pystr \<times> bytes) list" where
  "sample_upload = [(lit ''notes.txt'', [104, 105]), (lit ''README'', [111, 107]), (lit ''a.md'', [])]"

definition sample_digest :: "bytes \<Rightarrow> bytes" where
  "sample_digest b = take 32 (b @ replicate 32 0)"

lemma length_sample_digest [simp]: "length (sample_digest b) = 32"
  by (simp add: sample_digest_def)

theorem build_file_manifest_order_witness:
  "map_sum (\<lambda>_. ()) (\<lambda>m. map mf_name (fm_files m))
       (build_file_manifest ascii_unicode sample_digest (rev sample_upload))
     = Inr [lit ''README'', lit ''a.md'', lit ''notes.txt'']
   \<and> (\<exists>m. build_file_manifest ascii_unicode sample_digest sample_upload = Inr m
       \<and> build_file_manifest ascii_unicode sample_digest (rev sample_upload) = Inr m)"
proof -
  have e: "map_sum (\<lambda>_. ()) (\<lambda>m. map mf_name (fm_files m))
       (build_file_manifest ascii_unicode sample_digest (rev sample_upload))
     = Inr [lit ''README'', lit ''a.md'', lit ''notes.txt'']"
    by code_simp
  then obtain m where "build_file_manifest ascii_unicode sample_digest (rev sample_upload) = Inr m"
    by (cases "build_file_manifest ascii_unicode sample_digest (rev sample_upload)") auto
  then show ?thesis
    using e build_file_manifest_order [of ascii_unicode sample_digest sample_upload "rev sample_upload" m] by auto
qed

text \<open>C16: a manifest is exactly the uploaded contents under their normalized names, and uploading the
  files of a manifest builds that manifest again, which is what a restored Revision does.\<close>

theorem manifest_rebuilt:
  assumes u: "nfc_stable u" and sha: "\<And>b. length (sha b) = 32"
    and b: "build_file_manifest u sha files = Inr m"
  shows "mset (map (\<lambda>e. Inr (mf_name e, mf_content e)) (fm_files m))
      = mset (map (\<lambda>f. map_sum id (\<lambda>n. (n, snd f)) (normalize_file_name u (fst f))) files)
    \<and> build_file_manifest u sha (map (\<lambda>e. (mf_name e, mf_content e)) (fm_files m)) = Inr m"
proof -
  obtain named where n: "accepted_upload u files named" and m: "m = manifest_of sha named" and l: "files \<noteq> []"
    "int (length files) \<le> MAX_FILES_PER_PAGE" "upload_size files \<le> MAX_PAGE_BYTES"
    using b by (auto simp: build_manifest_iff [where sha = sha, OF u sha])
  let ?f = "\<lambda>e. (mf_name e, mf_content e)"
  have "mset (map ?f (fm_files m)) = image_mset ?f (mset (entries_of sha named))"
    by (simp add: m manifest_of_files)
  also have "\<dots> = mset named" by (simp add: entries_of_def image_mset.compositionality comp_def)
  finally have p: "mset named = mset (map ?f (fm_files m))" ..
  have "mset (map (\<lambda>e. Inr (?f e)) (fm_files m)) = mset (map Inr named)"
    using p by (metis (no_types, lifting) list.map_comp comp_apply map_eq_conv mset_map)
  also have "map Inr named = map (\<lambda>f. map_sum id (\<lambda>n. (n, snd f)) (normalize_file_name u (fst f))) files"
  proof -
    have "Inr (normalized_file u f) = map_sum id (\<lambda>n. (n, snd f)) (normalize_file_name u (fst f))"
      if "f \<in> set files" for f
      by (cases "normalize_file_name u (fst f)") (use n that in \<open>auto simp: accepted_upload_iff normalized_file_def\<close>)
    then show ?thesis using n by (simp add: accepted_upload_iff)
  qed
  finally have "mset (map (\<lambda>e. Inr (mf_name e, mf_content e)) (fm_files m))
      = mset (map (\<lambda>f. map_sum id (\<lambda>n. (n, snd f)) (normalize_file_name u (fst f))) files)" by simp
  moreover have "build_file_manifest u sha (map ?f (fm_files m)) = Inr m"
    by (rule checked_manifest_builds [where sha = sha, OF u sha built_manifest_checked [OF b]])
  ultimately show ?thesis by blast
qed

theorem manifest_rebuilt_witness:
  "\<exists>m. build_file_manifest ascii_unicode sample_digest sample_upload = Inr m
    \<and> map mf_name (fm_files m) = [lit ''README'', lit ''a.md'', lit ''notes.txt'']
    \<and> build_file_manifest ascii_unicode sample_digest (map (\<lambda>e. (mf_name e, mf_content e)) (fm_files m)) = Inr m"
proof -
  have e: "map_sum (\<lambda>_. ()) (\<lambda>m. map mf_name (fm_files m))
       (build_file_manifest ascii_unicode sample_digest sample_upload)
     = Inr [lit ''README'', lit ''a.md'', lit ''notes.txt'']"
    by code_simp
  then obtain m where m: "build_file_manifest ascii_unicode sample_digest sample_upload = Inr m"
    by (cases "build_file_manifest ascii_unicode sample_digest sample_upload") auto
  then show ?thesis using e manifest_rebuilt [OF ascii_nfc_stable length_sample_digest m] by auto
qed

section \<open>The snapshot digest\<close>

lemma append_eq_prefix: "a @ x = b @ y \<Longrightarrow> length a = length b \<Longrightarrow> a = b \<and> x = y"
  by simp

lemma snapshot_entry_inj:
  assumes s: "snapshot_entry e @ x = snapshot_entry e' @ y" and ok: "stored_entry e" "stored_entry e'"
  shows "mf_name e = mf_name e' \<and> mf_size_bytes e = mf_size_bytes e' \<and> mf_sha256 e = mf_sha256 e' \<and> x = y"
proof -
  obtain a b where a: "utf8_encode (mf_name e) = Some a" "int (length a) < 2 ^ 63"
    and b: "utf8_encode (mf_name e') = Some b" "int (length b) < 2 ^ 63"
    using ok by (auto simp: stored_entry_def)
  have "to_bytes8 (int (length a)) = to_bytes8 (int (length b))
      \<and> a @ to_bytes8 (mf_size_bytes e) @ mf_sha256 e @ x = b @ to_bytes8 (mf_size_bytes e') @ mf_sha256 e' @ y"
    using s a b by (intro append_eq_prefix) (simp_all add: snapshot_entry_def name_bytes_def)
  then have l: "int (length a) = int (length b)" and r: "a @ to_bytes8 (mf_size_bytes e) @ mf_sha256 e @ x
      = b @ to_bytes8 (mf_size_bytes e') @ mf_sha256 e' @ y"
    using to_bytes8_inj [of "int (length a)" "int (length b)"] a b by auto
  have ab: "a = b" and r: "to_bytes8 (mf_size_bytes e) @ mf_sha256 e @ x = to_bytes8 (mf_size_bytes e') @ mf_sha256 e' @ y"
    using append_eq_prefix [OF r] l by auto
  have "to_bytes8 (mf_size_bytes e) = to_bytes8 (mf_size_bytes e')" and r: "mf_sha256 e @ x = mf_sha256 e' @ y"
    using append_eq_prefix [OF r] by auto
  then have "mf_size_bytes e = mf_size_bytes e'"
    using to_bytes8_inj [of "mf_size_bytes e" "mf_size_bytes e'"] ok by (auto simp: stored_entry_def)
  moreover have "mf_sha256 e = mf_sha256 e' \<and> x = y" using append_eq_prefix [OF r] ok by (auto simp: stored_entry_def)
  moreover have "mf_name e = mf_name e'" using a b ab utf8_encode_inj by blast
  ultimately show ?thesis by blast
qed

lemma snapshot_entries_inj:
  assumes "length xs = length ys" and "concat (map snapshot_entry xs) = concat (map snapshot_entry ys)"
    and "\<forall>e \<in> set xs. stored_entry e" and "\<forall>e \<in> set ys. stored_entry e"
  shows "list_all2 (\<lambda>e e'. mf_name e = mf_name e' \<and> mf_size_bytes e = mf_size_bytes e' \<and> mf_sha256 e = mf_sha256 e') xs ys"
  using assms
proof (induction xs ys rule: list_induct2)
  case (Cons e xs e' ys)
  then show ?case using snapshot_entry_inj [of e "concat (map snapshot_entry xs)" e' "concat (map snapshot_entry ys)"]
    by auto
qed simp

text \<open>C18: two manifests with the same snapshot digest are the same files, in name and content, unless the
  digest collides on the two snapshots or on two of the contents.\<close>

theorem snapshot_identifies_files:
  assumes m: "file_manifest_check u sha m = Inr ()" and m': "file_manifest_check u' sha m' = Inr ()"
    and d: "fm_snapshot_sha256 m = fm_snapshot_sha256 m'"
    and "\<not> collides sha (snapshot_input (fm_files m)) (snapshot_input (fm_files m'))"
    and c: "\<And>e e'. e \<in> set (fm_files m) \<Longrightarrow> e' \<in> set (fm_files m') \<Longrightarrow> \<not> collides sha (mf_content e) (mf_content e')"
  shows "m = m'"
proof -
  have i: "snapshot_input (fm_files m) = snapshot_input (fm_files m')"
    using assms(4) d manifest_checked(2) [OF m] manifest_checked(2) [OF m'] by (simp add: collides_def)
  then have n: "to_bytes8 (int (length (fm_files m))) = to_bytes8 (int (length (fm_files m')))"
    and r: "concat (map snapshot_entry (fm_files m)) = concat (map snapshot_entry (fm_files m'))"
    by (simp_all add: snapshot_input_def)
  have "int (length (fm_files m)) = int (length (fm_files m'))"
    by (rule to_bytes8_inj [OF n]) (use manifest_checked(1) [OF m] manifest_checked(1) [OF m'] in
        \<open>simp_all add: MAX_FILES_PER_PAGE_def\<close>)
  then have "list_all2 (\<lambda>e e'. mf_name e = mf_name e' \<and> mf_size_bytes e = mf_size_bytes e' \<and> mf_sha256 e = mf_sha256 e')
      (fm_files m) (fm_files m')"
    using manifest_file_checked(3) [OF manifest_checked(8) [OF m]] manifest_file_checked(3) [OF manifest_checked(8) [OF m']]
    by (intro snapshot_entries_inj [OF _ r]) simp_all
  then have "list_all2 (=) (fm_files m) (fm_files m')"
  proof (rule list.rel_mono_strong)
    fix e e' assume e: "e \<in> set (fm_files m)" "e' \<in> set (fm_files m')"
      and h: "mf_name e = mf_name e' \<and> mf_size_bytes e = mf_size_bytes e' \<and> mf_sha256 e = mf_sha256 e'"
    have "sha (mf_content e) = sha (mf_content e')"
      using h manifest_file_checked(2) [OF manifest_checked(8) [OF m e(1)]]
        manifest_file_checked(2) [OF manifest_checked(8) [OF m' e(2)]] by simp
    then have "mf_content e = mf_content e'" using c [OF e] by (simp add: collides_def)
    then show "e = e'" using h by simp
  qed
  then have "fm_files m = fm_files m'" by (simp add: list.rel_eq)
  then show "m = m'" using d manifest_checked(3) [OF m] manifest_checked(3) [OF m'] by simp
qed

lemma sample_manifest:
  obtains m where "build_file_manifest ascii_unicode sample_digest sample_upload = Inr m"
    "map mf_content (fm_files m) = [[111, 107], [], [104, 105]]"
proof -
  have e: "map_sum (\<lambda>_. ()) (\<lambda>m. map mf_content (fm_files m))
       (build_file_manifest ascii_unicode sample_digest sample_upload)
     = Inr [[111, 107], [], [104, 105]]"
    by code_simp
  then show ?thesis using that by (cases "build_file_manifest ascii_unicode sample_digest sample_upload") auto
qed

theorem snapshot_identifies_files_witness:
  "\<exists>m m'. build_file_manifest ascii_unicode sample_digest sample_upload = Inr m
    \<and> build_file_manifest ascii_unicode sample_digest (rev sample_upload) = Inr m'
    \<and> fm_snapshot_sha256 m = fm_snapshot_sha256 m' \<and> m = m'"
proof -
  obtain m where m: "build_file_manifest ascii_unicode sample_digest sample_upload = Inr m"
    and c: "map mf_content (fm_files m) = [[111, 107], [], [104, 105]]"
    by (rule sample_manifest)
  have r: "build_file_manifest ascii_unicode sample_digest (rev sample_upload) = Inr m"
    by (rule build_permuted [OF ascii_nfc_stable length_sample_digest _ m]) simp
  have v: "file_manifest_check ascii_unicode sample_digest m = Inr ()"
    using m by (auto simp: build_file_manifest_def result_simps Let_def split: if_splits)
  have "list_all (\<lambda>x. list_all (\<lambda>y. \<not> collides sample_digest x y) [[111, 107], [], [104, 105]])
      [[111, 107], [], [104, 105]]"
    by code_simp
  then have "\<not> collides sample_digest (mf_content e) (mf_content e')"
    if "e \<in> set (fm_files m)" "e' \<in> set (fm_files m)" for e e'
    unfolding c [symmetric] using that by (auto simp: list_all_iff)
  then have "m = m"
    by (intro snapshot_identifies_files [OF v v HOL.refl]) (auto simp: collides_def)
  then show ?thesis using m r by blast
qed

section \<open>Safe names\<close>

lemma split_on_last: "s \<noteq> [] \<Longrightarrow> last s \<noteq> c \<Longrightarrow> last (split_on c s) \<noteq> [] \<and> last (last (split_on c s)) = last s"
proof (induction s)
  case (Cons a s)
  then show ?case by (cases "s = []") (auto split: list.split if_splits simp: Let_def)
qed simp

text \<open>C19: an accepted file name is nonempty, at most 255 bytes of UTF-8, no path of one or two dots, without
  separators, and its own normal form; the check of the stored row accepts it.\<close>

theorem normalized_name_safe:
  assumes "nfc_stable u" and z: "uc_category u 0 = lit ''Cc''" and n: "normalize_file_name u raw = Inr name"
  shows "name \<noteq> [] \<and> name \<noteq> lit ''.'' \<and> name \<noteq> lit ''..'' \<and> 47 \<notin> set name \<and> 92 \<notin> set name
    \<and> normalize_file_name u name = Inr name
    \<and> (\<exists>bs. utf8_encode name = Some bs \<and> 1 \<le> length bs \<and> length bs \<le> 255)
    \<and> file_check \<lparr>rf_key = k, rf_filename = name, rf_content_bytes = content,
         rf_size_bytes = int (length content), rf_content_sha256 = digest\<rparr>
      = (int (length content) \<le> MAX_FILE_BYTES \<and> length digest = 32)"
proof -
  note s = normalize_file_name_shape [OF n]
  obtain bs where b: "utf8_encode name = Some bs" "int (length bs) \<le> 255"
    using s(6) by (auto simp: MAX_FILENAME_BYTES_def)
  have l: "1 \<le> length bs" using utf8_length [OF b(1)] s(2) by (cases name) auto
  have sep: "47 \<notin> set name" "92 \<notin> set name" using s(5) by (auto simp: WINDOWS_FORBIDDEN_def)
  have c: "hd name \<noteq> 32" "last name \<noteq> 46" "\<forall>part \<in> set (dot_parts name). part \<noteq> [] \<longrightarrow> last part \<noteq> 32"
    "0 \<notin> set name"
    using n z s(1) by (auto simp: normalize_file_name_def Let_def list_ex_iff split: if_splits)
  have "last name \<noteq> 32"
  proof
    assume e: "last name = 32"
    have "last (last (dot_parts name)) = 32 \<and> last (dot_parts name) \<noteq> []"
      using s(2) e by (simp add: dot_parts_def split_on_last)
    then show False using c(3) by (metis dot_parts_def last_in_set split_on_nonempty)
  qed
  then have "trimmed name" using c by (simp add: trimmed_def)
  then show ?thesis using s b l sep c normalize_file_name_stable [OF assms(1) n]
    by (auto simp: file_check_def MAX_FILE_BYTES_def)
qed

theorem normalized_name_safe_witness:
  "normalize_file_name ascii_unicode (lit ''a.md'') = Inr (lit ''a.md'')
   \<and> file_check \<lparr>rf_key = ([], [], [], 1), rf_filename = lit ''a.md'', rf_content_bytes = [1],
       rf_size_bytes = 1, rf_content_sha256 = sample_digest [1]\<rparr>"
proof -
  have n: "normalize_file_name ascii_unicode (lit ''a.md'') = Inr (lit ''a.md'')" by code_simp
  have "uc_category ascii_unicode 0 = lit ''Cc''" by code_simp
  from normalized_name_safe [OF ascii_nfc_stable this n, of "([], [], [], 1)" "[1]" "sample_digest [1]"] n
  show ?thesis by (simp add: MAX_FILE_BYTES_def)
qed

end
