(* ===== verification/StorePersistence.thy ===== *)
theory StorePersistence
  imports ReachableStore
begin

text \<open>
  What the content store never loses: Revisions and identifiers are only appended, under new keys, and
  the states a page has been in stay in its trace.
\<close>

definition appended :: "('r \<Rightarrow> 'k) \<Rightarrow> 'r list \<Rightarrow> 'r list \<Rightarrow> bool" where
  "appended key xs ys \<longleftrightarrow> ys = xs \<or> (\<exists>r. ys = xs @ [r] \<and> key r \<notin> key ` set xs)"

lemma appended_refl [simp]: "appended key xs xs"
  by (simp add: appended_def)

lemma appended_distinct: "appended key xs ys \<Longrightarrow> distinct (map key xs) \<Longrightarrow> distinct (map key ys)"
  by (auto simp: appended_def)

lemma appended_subset: "appended key xs ys \<Longrightarrow> set xs \<subseteq> set ys"
  by (auto simp: appended_def)

definition number_key :: "revision \<Rightarrow> page_key \<times> int" where
  "number_key r = (rev_page_key r, rv_revision_number r)"

definition digest_key :: "page_identifier \<Rightarrow> pystr \<times> bytes" where
  "digest_key i = (pi_library_id i, pi_identifier_digest i)"

definition rows_appended :: "content_db \<Rightarrow> content_db \<Rightarrow> bool" where
  "rows_appended db db' \<longleftrightarrow>
     appended number_key (t_revisions db) (t_revisions db')
     \<and> appended digest_key (t_identifiers db) (t_identifiers db')"

definition rows_unique :: "content_db \<Rightarrow> bool" where
  "rows_unique db \<longleftrightarrow>
     distinct (map number_key (t_revisions db)) \<and> distinct (map digest_key (t_identifiers db))"

lemma record_rows:
  "record_occurrence old new db = Inr db' \<Longrightarrow> t_revisions db' = t_revisions db \<and> t_identifiers db' = t_identifiers db"
  "record_lifecycle old new db = Inr db' \<Longrightarrow> t_revisions db' = t_revisions db \<and> t_identifiers db' = t_identifiers db"
  "record_title old new db = Inr db' \<Longrightarrow> t_revisions db' = t_revisions db \<and> t_identifiers db' = t_identifiers db"
  "record_move old new db = Inr db' \<Longrightarrow> t_revisions db' = t_revisions db \<and> t_identifiers db' = t_identifiers db"
  by (auto simp: record_occurrence_def record_lifecycle_def record_title_def record_move_def Let_def
      split: if_splits option.splits list.splits)

lemma update_pages_rows:
  assumes "update_pages c f db = Inr (db', n)"
  shows "t_revisions db' = t_revisions db \<and> t_identifiers db' = t_identifiers db"
proof (cases "find c (t_pages db)")
  case None
  then show ?thesis using assms by (simp add: update_pages_def)
next
  case (Some old)
  then obtain d1 d2 d3 where d: "record_occurrence old (f old) (clear_append_guard old (f old) (set_page (f old) db)) = Inr d1"
    "record_lifecycle old (f old) d1 = Inr d2" "record_title old (f old) d2 = Inr d3"
    "record_move old (f old) d3 = Inr db'"
    using assms by (auto simp: update_pages_def Let_def result_simps split: if_splits)
  show ?thesis
    using record_rows(1) [OF d(1)] record_rows(2) [OF d(2)] record_rows(3) [OF d(3)] record_rows(4) [OF d(4)]
    by (simp add: clear_append_guard_def set_page_def)
qed

lemma insert_revision_rows:
  assumes i: "insert_revision r db = Inr db'"
  shows "rows_appended db db'"
proof -
  note t = insert_revision_Inr(1) [OF i]
  have "t_revisions db' = t_revisions db @ [r]" using file_tables_only_tables(3) [OF t] by simp
  moreover have "t_identifiers db' = t_identifiers db"
    using arg_cong [OF t [unfolded file_tables_only_def], of t_identifiers] by simp
  moreover have "number_key r \<notin> number_key ` set (t_revisions db)"
    using insert_revision_Inr(4) [OF i] by (auto simp: list_ex_iff number_key_def)
  ultimately show ?thesis by (auto simp: rows_appended_def appended_def)
qed

lemma file_tables_rows: "file_tables_only db db' \<Longrightarrow> t_revisions db' = t_revisions db \<and> t_identifiers db' = t_identifiers db"
proof -
  assume t: "file_tables_only db db'"
  show ?thesis using arg_cong [OF t [unfolded file_tables_only_def], of t_identifiers]
      arg_cong [OF t [unfolded file_tables_only_def], of t_revisions] by simp
qed

text \<open>Every transaction on a page writes a Revision, or a guard, or nothing, and then updates the row.\<close>

definition guards_only :: "content_db \<Rightarrow> content_db \<Rightarrow> bool" where
  "guards_only db db' \<longleftrightarrow>
     db' = db\<lparr>t_correction_guards := t_correction_guards db', t_lifecycle_guards := t_lifecycle_guards db',
             t_move_guards := t_move_guards db'\<rparr>"

lemma guards_only_rows:
  assumes "guards_only db db'"
  shows "t_revisions db' = t_revisions db \<and> t_identifiers db' = t_identifiers db"
    "t_file_sets db' = t_file_sets db" "t_files db' = t_files db" "t_seals db' = t_seals db"
    "t_seal_guards db' = t_seal_guards db"
proof -
  note e = arg_cong [OF assms [unfolded guards_only_def]]
  show "t_revisions db' = t_revisions db \<and> t_identifiers db' = t_identifiers db"
    using e [of t_revisions] e [of t_identifiers] by simp
  show "t_file_sets db' = t_file_sets db" "t_files db' = t_files db" "t_seals db' = t_seals db"
    "t_seal_guards db' = t_seal_guards db"
    using e [of t_file_sets] e [of t_files] e [of t_seals] e [of t_seal_guards] by simp_all
qed

lemma guard_inserts:
  "insert_correction_guard g db = Inr db' \<Longrightarrow> guards_only db db'"
  "insert_lifecycle_guard e db = Inr db' \<Longrightarrow> guards_only db db'"
  "insert_move_guard v db = Inr db' \<Longrightarrow> guards_only db db'"
  by (auto simp: insert_correction_guard_def insert_lifecycle_guard_def insert_move_guard_def
      guards_only_def split: if_splits)

lemma page_transaction_writes:
  assumes t: "page_transaction p db db'"
  obtains db1 c f where "update_pages c f db1 = Inr (db', 1)"
    "(\<exists>r. insert_revision r db = Inr db1) \<or> (\<exists>rid at m. add_file_set_revision p rid at m db = Inr db1)
      \<or> guards_only db db1"
  using t
proof cases
  case (append r db1 at p')
  then have "\<exists>c f. update_pages c f db1 = Inr (db', 1)"
    by (auto simp: advance_current_revision_def Let_def result_simps split: if_splits)
  then show ?thesis using append(3) that unfolding add_revision_def by blast
next
  case (append_files at rid m db1 p')
  then have "\<exists>c f. update_pages c f db1 = Inr (db', 1)"
    by (auto simp: advance_file_set_current_revision_def Let_def result_simps split: if_splits)
  then show ?thesis using append_files(2) that by blast
next
  case (correct c p' row)
  then obtain g where "write_correction p g db = Inr (db', p', row)"
    by (auto simp: correct_occurrence_row_def Let_def split: if_splits)
  then obtain db1 c f where "insert_correction_guard g db = Inr db1" "update_pages c f db1 = Inr (db', 1)"
    by (auto simp: write_correction_def Let_def result_simps split: if_splits option.splits)
  then show ?thesis using that guard_inserts(1) by blast
next
  case (lifecycle action caller home master req at p' event)
  then obtain g where "write_lifecycle p g db = Inr (db', p', event)"
    by (auto simp: transition_page_lifecycle_row_def Let_def split: if_splits)
  then obtain db1 c f where "insert_lifecycle_guard g db = Inr db1" "update_pages c f db1 = Inr (db', 1)"
    by (auto simp: write_lifecycle_def Let_def result_simps split: if_splits option.splits)
  then show ?thesis using that guard_inserts(2) by blast
next
  case (retitle title at p')
  then have "\<exists>c f. update_pages c f db = Inr (db', 1)"
    by (auto simp: update_page_title_def result_simps split: if_splits)
  moreover have "guards_only db db" by (simp add: guards_only_def)
  ultimately show ?thesis using that by blast
next
  case (move plan master caller)
  then obtain g where "write_move p g db = Inr db'"
    by (auto simp: apply_page_move_def Let_def split: if_splits option.splits)
  then obtain db1 c f where "insert_move_guard g db = Inr db1" "update_pages c f db1 = Inr (db', 1)"
    by (auto simp: write_move_def Let_def result_simps split: if_splits)
  then show ?thesis using that guard_inserts(3) by blast
qed

lemma add_file_set_revision_writes:
  assumes "add_file_set_revision p rid at m db = Inr db'"
  obtains d1 d2 d3 r s fs k where "insert_revision r db = Inr d1" "insert_file_set s d1 = Inr d2"
    "insert_files fs d2 = Inr d3" "insert_seal k d3 = Inr db'"
  using assms that by (auto simp: add_file_set_revision_def Let_def result_simps)

lemma page_transaction_rows:
  assumes t: "page_transaction p db db'"
  shows "rows_appended db db'"
proof -
  obtain db1 c f where u: "update_pages c f db1 = Inr (db', 1)"
    and w: "(\<exists>r. insert_revision r db = Inr db1) \<or> (\<exists>rid at m. add_file_set_revision p rid at m db = Inr db1)
      \<or> guards_only db db1"
    by (rule page_transaction_writes [OF t])
  have "rows_appended db db1" using w
  proof (elim disjE exE)
    fix r assume "insert_revision r db = Inr db1"
    then show ?thesis by (rule insert_revision_rows)
  next
    fix rid at m assume "add_file_set_revision p rid at m db = Inr db1"
    then obtain d1 d2 d3 r s fs k where "insert_revision r db = Inr d1" "insert_file_set s d1 = Inr d2"
      "insert_files fs d2 = Inr d3" "insert_seal k d3 = Inr db1"
      by (rule add_file_set_revision_writes)
    then show ?thesis
      using insert_revision_rows file_tables_rows [OF insert_file_set_tables] file_tables_rows [OF insert_files_tables]
        file_tables_rows [OF insert_seal_tables] by (simp add: rows_appended_def)
  next
    assume "guards_only db db1"
    then show ?thesis using guards_only_rows(1) by (simp add: rows_appended_def)
  qed
  then show ?thesis using update_pages_rows [OF u] by (simp add: rows_appended_def)
qed

lemma insert_identifier_rows:
  "insert_identifier i db = Inr db' \<Longrightarrow> t_revisions db' = t_revisions db
    \<and> t_identifiers db' = t_identifiers db @ [i] \<and> digest_key i \<notin> digest_key ` set (t_identifiers db)"
  by (auto simp: insert_identifier_def Let_def list_ex_iff digest_key_def split: if_splits)

lemma side_statement_rows:
  assumes "side_statement db db'"
  shows "rows_appended db db'"
  using assms
proof cases
  case (book b)
  then show ?thesis by (auto simp: add_book_def rows_appended_def split: if_splits)
next
  case (page_identifier i)
  then show ?thesis using insert_identifier_rows [of i db db']
    by (auto simp: add_identifier_def rows_appended_def appended_def)
next
  case (source s)
  then show ?thesis by (auto simp: add_source_row_def insert_source_def rows_appended_def split: if_splits)
next
  case (counter c)
  then show ?thesis by (auto simp: add_collision_counter_def insert_counter_def rows_appended_def split: if_splits)
next
  case (advance c n c')
  then show ?thesis
    by (auto simp: advance_collision_counter_def update_counter_def result_simps rows_appended_def split: if_splits)
next
  case (audit a)
  then show ?thesis by (auto simp: insert_audit_def rows_appended_def split: if_splits)
next
  case (master_audit m)
  then show ?thesis by (auto simp: insert_master_audit_def rows_appended_def split: if_splits)
next
  case (file_set s)
  then show ?thesis using file_tables_rows [OF insert_file_set_tables] by (simp add: rows_appended_def)
next
  case (stored_file f)
  then show ?thesis using file_tables_rows [OF insert_file_tables] by (simp add: rows_appended_def)
next
  case (seal k)
  then show ?thesis using file_tables_rows [OF insert_seal_tables] by (simp add: rows_appended_def)
qed

lemma create_rows_rows:
  assumes "create_rows sha p r i db = Inr db'"
  shows "rows_appended db db'" and "r \<in> set (t_revisions db')" and "i \<in> set (t_identifiers db')"
    and "\<not> page_exists db (page_key p)"
proof -
  obtain d1 d2 where a: "insert_page p db = Inr d1" and b: "insert_revision r d1 = Inr d2"
    and c: "insert_identifier i d2 = Inr db'"
    using assms by (auto simp: create_rows_def add_page_def add_revision_def add_identifier_def result_simps
        split: if_splits)
  have t: "t_revisions d1 = t_revisions db" "t_identifiers d1 = t_identifiers db"
    using a by (auto simp: insert_page_def Let_def split: if_splits)
  have ib: "t_identifiers d2 = t_identifiers d1" and rb: "t_revisions d2 = t_revisions d1 @ [r]"
    using file_tables_rows [OF insert_revision_Inr(1) [OF b]] by simp_all
  have "appended number_key (t_revisions db) (t_revisions d2)"
    using insert_revision_rows [OF b] t by (simp add: rows_appended_def)
  then show "rows_appended db db'" using insert_identifier_rows [OF c] ib t
    by (auto simp: rows_appended_def appended_def)
  show "r \<in> set (t_revisions db')" "i \<in> set (t_identifiers db')"
    using insert_identifier_rows [OF c] rb by simp_all
  show "\<not> page_exists db (page_key p)"
    using a by (auto simp: insert_page_def page_exists_def list_ex_iff page_key_def Let_def split: if_splits)
qed

text \<open>What one step, and so any number of steps, keeps.\<close>

definition store_extends :: "content_db \<times> traces \<Rightarrow> content_db \<times> traces \<Rightarrow> bool" where
  "store_extends d e \<longleftrightarrow>
     set (t_revisions (fst d)) \<subseteq> set (t_revisions (fst e))
     \<and> set (t_identifiers (fst d)) \<subseteq> set (t_identifiers (fst e))
     \<and> (\<forall>k. page_exists (fst d) k \<longrightarrow> page_exists (fst e) k \<and> set (snd d k) \<subseteq> set (snd e k))
     \<and> pages_advance (fst d) (fst e)"

lemma store_extends_refl [simp]: "store_extends d d"
  by (auto simp: store_extends_def pages_advance_def)

lemma pages_advance_trans: "pages_advance a b \<Longrightarrow> pages_advance b c \<Longrightarrow> pages_advance a c"
  unfolding pages_advance_def by (metis order_trans)

lemma store_extends_trans: "store_extends a b \<Longrightarrow> store_extends b c \<Longrightarrow> store_extends a c"
  unfolding store_extends_def using pages_advance_trans by blast

lemma store_step_keeps:
  assumes s: "store_step sha (db, tr) (db', tr')" and ok: "store_ok db schema tr"
  shows "store_extends (db, tr) (db', tr')" and "rows_unique db \<Longrightarrow> rows_unique db'"
proof -
  have e: "page_exists db' k" if "page_exists db k" for k
    using store_step_advance [OF s ok] that
    by (fastforce simp: pages_advance_def page_exists_def list_ex_iff)
  have a: "rows_appended db db' \<and> (\<forall>k. page_exists db k \<longrightarrow> set (tr k) \<subseteq> set (tr' k))"
    using s
  proof cases
    case side
    then show ?thesis using side_statement_rows by simp
  next
    case (create p r i)
    then show ?thesis using create_rows_rows(1,4) by (auto simp: page_exists_def)
  next
    case (change p new)
    then show ?thesis using page_transaction_rows by auto
  qed
  then have "set (t_revisions db) \<subseteq> set (t_revisions db')" "set (t_identifiers db) \<subseteq> set (t_identifiers db')"
    unfolding rows_appended_def using appended_subset by blast+
  then show "store_extends (db, tr) (db', tr')"
    using a e store_step_advance [OF s ok] by (simp add: store_extends_def)
  show "rows_unique db \<Longrightarrow> rows_unique db'"
    using a appended_distinct [of number_key "t_revisions db"] appended_distinct [of digest_key "t_identifiers db"]
    by (simp add: rows_appended_def rows_unique_def)
qed

lemma store_steps_keep:
  assumes "store_steps sha (db, tr) (db', tr')" "store_ok db schema tr" "rows_unique db"
    and sch: "schema \<in> set CALLER_MOVE_REVISIONS"
  shows "store_extends (db, tr) (db', tr') \<and> rows_unique db' \<and> store_ok db' schema tr'"
  using assms(1)
proof (induction rule: store_steps_induct)
  case refl
  then show ?case using assms by simp
next
  case (step d t d' t')
  then show ?case
    using store_step_keeps [OF step(2)] store_step_ok sch store_extends_trans by blast
qed

lemma reachable_unique: "reachable sha db tr \<Longrightarrow> rows_unique db"
proof -
  assume r: "reachable sha db tr"
  have "rows_unique empty_db" by (simp add: rows_unique_def empty_db_def)
  moreover have "lit ''20261020_0037'' \<in> set CALLER_MOVE_REVISIONS" by code_simp
  ultimately show ?thesis
    using store_steps_keep [OF r [unfolded reachable_def]] empty_store_ok by blast
qed

end
