(* ===== verification/FileSets.thy ===== *)
theory FileSets
  imports FileManifestTheorems StorePersistence
begin

text \<open>
  Reading the files of a Revision back: \<open>get_current_file_manifest\<close> of \<open>content/repository.py\<close>, and
  what the file tables never lose. A sealed Revision takes no further file, and files are stored only
  under the key of a Revision that exists.
\<close>

section \<open>Reading the current manifest\<close>

definition current_key :: "page \<Rightarrow> rev_key" where
  "current_key p =
     (pg_library_id p, pg_page_uid p, pg_current_revision_id p, pg_current_revision_number p)"

text \<open>The loop over at most 65 rows, with the files read so far and their size.\<close>

fun stored_files :: "revision_file list \<Rightarrow> int \<Rightarrow> revision_file list \<Rightarrow> revision_file list sql" where
  "stored_files got used [] = Inr got"
| "stored_files got used (f # fs) =
     (if int (length got) \<ge> MAX_FILES_PER_PAGE
         \<or> used + int (length (rf_content_bytes f)) > MAX_PAGE_BYTES then Inl StaleContent
      else stored_files (got @ [f]) (used + int (length (rf_content_bytes f))) fs)"

definition metadata_matches :: "revision_file_set \<Rightarrow> revision_file list \<Rightarrow> file_manifest \<Rightarrow> bool" where
  "metadata_matches s stored m \<longleftrightarrow>
     int (length (fm_files m)) = fs_file_count s \<and> fm_total_size_bytes m = fs_total_size_bytes s
     \<and> list_all2 (\<lambda>e f. mf_name e = rf_filename f \<and> mf_size_bytes e = rf_size_bytes f
          \<and> mf_sha256 e = rf_content_sha256 f) (fm_files m) stored"

definition format_matches :: "revision \<Rightarrow> revision_file_set \<Rightarrow> file_manifest \<Rightarrow> bool" where
  "format_matches r s m \<longleftrightarrow>
     (if fs_storage_format s = lit ''legacy_markdown'' then
        (case fm_files m of
           [e] \<Rightarrow> mf_name e = lit ''content.md'' \<and> rv_content_md r = Some (mf_content e)
             \<and> rv_content_size_bytes r = Some (mf_size_bytes e)
             \<and> rv_content_sha256 r = Some (mf_sha256 e) \<and> fs_snapshot_sha256 s = None
         | _ \<Rightarrow> False)
      else if fs_storage_format s = lit ''file_set_v1'' then
        rv_content_md r = None \<and> rv_content_size_bytes r = None \<and> rv_content_sha256 r = None
        \<and> fs_snapshot_sha256 s = Some (fm_snapshot_sha256 m)
      else False)"

definition files_of_key :: "content_db \<Rightarrow> rev_key \<Rightarrow> revision_file list" where
  "files_of_key db k =
     take 65 (sort_key (\<lambda>f. name_bytes (rf_filename f)) (filter (\<lambda>f. rf_key f = k) (t_files db)))"

definition get_current_file_manifest ::
  "unicode_data \<Rightarrow> (bytes \<Rightarrow> bytes) \<Rightarrow> content_db \<Rightarrow> page \<Rightarrow> file_manifest sql" where
  "get_current_file_manifest u sha db p =
     (let k = current_key p in
      case (find (\<lambda>r. rev_key r = k) (t_revisions db), find (\<lambda>s. fs_key s = k) (t_file_sets db)) of
        (Some r, Some s) \<Rightarrow>
          if k \<notin> set (t_seals db) \<or> k \<notin> set (t_seal_guards db) then Inl StaleContent
          else bindR (stored_files [] 0 (files_of_key db k)) (\<lambda>stored.
            case build_file_manifest u sha (map (\<lambda>f. (rf_filename f, rf_content_bytes f)) stored) of
              Inl e \<Rightarrow> Inl StaleContent
            | Inr m \<Rightarrow> if \<not> metadata_matches s stored m \<or> \<not> format_matches r s m then Inl StaleContent
                       else Inr m)
      | _ \<Rightarrow> Inl StaleContent)"

lemma stored_files_all:
  "int (length got + length fs) \<le> MAX_FILES_PER_PAGE
    \<Longrightarrow> used + sum_list (map (\<lambda>f. int (length (rf_content_bytes f))) fs) \<le> MAX_PAGE_BYTES
    \<Longrightarrow> stored_files got used fs = Inr (got @ fs)"
proof (induction fs arbitrary: got used)
  case (Cons f fs)
  have "0 \<le> sum_list (map (\<lambda>f. int (length (rf_content_bytes f))) fs)" by (rule sum_list_nonneg) auto
  then show ?case using Cons.prems Cons.IH [of "got @ [f]" "used + int (length (rf_content_bytes f))"] by simp
qed simp

section \<open>What the file tables keep\<close>

definition files_extend :: "content_db \<Rightarrow> content_db \<Rightarrow> bool" where
  "files_extend db db' \<longleftrightarrow>
     (\<exists>rs ms fs. t_revisions db' = t_revisions db @ rs \<and> t_file_sets db' = t_file_sets db @ ms
        \<and> t_files db' = t_files db @ fs
        \<and> (\<forall>f \<in> set fs. rf_key f \<notin> set (t_seals db) \<and> revision_exists db' (rf_key f)))
     \<and> set (t_seals db) \<subseteq> set (t_seals db') \<and> set (t_seal_guards db) \<subseteq> set (t_seal_guards db')"

definition files_owned :: "content_db \<Rightarrow> bool" where
  "files_owned db \<longleftrightarrow> (\<forall>f \<in> set (t_files db). revision_exists db (rf_key f))"

lemma revision_exists_iff: "revision_exists db k \<longleftrightarrow> k \<in> rev_key ` set (t_revisions db)"
  by (auto simp: revision_exists_def list_ex_iff)

lemma files_extend_refl [simp]: "files_extend db db"
  by (simp add: files_extend_def)

lemma files_extend_trans:
  assumes "files_extend a b" "files_extend b c"
  shows "files_extend a c"
proof -
  obtain rs ms fs rs' ms' fs' where
    "t_revisions b = t_revisions a @ rs" "t_file_sets b = t_file_sets a @ ms" "t_files b = t_files a @ fs"
    "\<forall>f \<in> set fs. rf_key f \<notin> set (t_seals a) \<and> revision_exists b (rf_key f)"
    "t_revisions c = t_revisions b @ rs'" "t_file_sets c = t_file_sets b @ ms'" "t_files c = t_files b @ fs'"
    "\<forall>f \<in> set fs'. rf_key f \<notin> set (t_seals b) \<and> revision_exists c (rf_key f)"
    using assms by (auto simp: files_extend_def)
  then show ?thesis using assms
    by (auto simp: files_extend_def revision_exists_iff intro!: exI [of _ "rs @ rs'"] exI [of _ "ms @ ms'"] exI [of _ "fs @ fs'"])
qed

lemma files_extend_owned: "files_extend db db' \<Longrightarrow> files_owned db \<Longrightarrow> files_owned db'"
  by (auto simp: files_extend_def files_owned_def revision_exists_iff image_Un)

lemma insert_seal_extend: "insert_seal k db = Inr db' \<Longrightarrow> files_extend db db'"
  by (auto simp: insert_seal_def files_extend_def split: if_splits)

lemma insert_file_set_extend: "insert_file_set s db = Inr db' \<Longrightarrow> files_extend db db'"
  by (auto simp: insert_file_set_def files_extend_def split: if_splits)

lemma insert_file_extend: "insert_file f db = Inr db' \<Longrightarrow> files_extend db db'"
  by (auto simp: insert_file_def insert_seal_def files_extend_def revision_exists_def Let_def split: if_splits)

lemma insert_files_extend: "insert_files fs db = Inr db' \<Longrightarrow> files_extend db db'"
proof (induction fs arbitrary: db)
  case (Cons f fs)
  then show ?case using insert_file_extend files_extend_trans by (fastforce simp: result_simps)
qed simp

lemma insert_revision_extend:
  assumes "insert_revision r db = Inr db'"
  shows "files_extend db db'"
proof -
  define db2 where "db2 = (if rv_revision_number r > 1
    then db\<lparr>t_revisions := t_revisions db @ [r], t_append_guards := t_append_guards db @ [rev_key r]\<rparr>
    else db\<lparr>t_revisions := t_revisions db @ [r]\<rparr>)"
  obtain db3 where m: "mirror_content_file r db2 = Inr db3"
    and e: "db' = db3\<lparr>t_seal_guards := t_seal_guards db3 @ [rev_key r]\<rparr>"
    using assms by (auto simp: insert_revision_def db2_def Let_def result_simps split: if_splits)
  have "files_extend db db2" by (simp add: files_extend_def db2_def)
  moreover have "files_extend db2 db3" using m insert_file_extend insert_file_set_extend files_extend_trans
    by (fastforce simp: mirror_content_file_def result_simps split: option.splits)
  moreover have "files_extend db3 db'" by (auto simp: e files_extend_def)
  ultimately show ?thesis using files_extend_trans by blast
qed

lemma same_files_extend:
  "t_revisions db' = t_revisions db \<Longrightarrow> t_file_sets db' = t_file_sets db \<Longrightarrow> t_files db' = t_files db
    \<Longrightarrow> t_seals db' = t_seals db \<Longrightarrow> t_seal_guards db' = t_seal_guards db \<Longrightarrow> files_extend db db'"
  by (simp add: files_extend_def)

lemma record_files:
  "record_occurrence old new db = Inr db' \<Longrightarrow> files_extend db db'"
  "record_lifecycle old new db = Inr db' \<Longrightarrow> files_extend db db'"
  "record_title old new db = Inr db' \<Longrightarrow> files_extend db db'"
  "record_move old new db = Inr db' \<Longrightarrow> files_extend db db'"
  by (auto simp: record_occurrence_def record_lifecycle_def record_title_def record_move_def Let_def
      intro!: same_files_extend split: if_splits option.splits list.splits)

lemma update_pages_extend:
  assumes "update_pages c f db = Inr (db', n)"
  shows "files_extend db db'"
proof (cases "find c (t_pages db)")
  case None
  then show ?thesis using assms by (simp add: update_pages_def)
next
  case (Some old)
  let ?d = "clear_append_guard old (f old) (set_page (f old) db)"
  obtain d1 d2 d3 where d: "record_occurrence old (f old) ?d = Inr d1"
    "record_lifecycle old (f old) d1 = Inr d2" "record_title old (f old) d2 = Inr d3"
    "record_move old (f old) d3 = Inr db'"
    using assms Some by (auto simp: update_pages_def Let_def result_simps split: if_splits)
  have "files_extend db ?d" by (rule same_files_extend) (simp_all add: clear_append_guard_def set_page_def)
  then show ?thesis using record_files(1) [OF d(1)] record_files(2) [OF d(2)] record_files(3) [OF d(3)]
      record_files(4) [OF d(4)] files_extend_trans by blast
qed

lemma add_file_set_revision_extend:
  assumes "add_file_set_revision p rid at m db = Inr db'"
  shows "files_extend db db'"
proof -
  obtain d1 d2 d3 r s fs k where "insert_revision r db = Inr d1" "insert_file_set s d1 = Inr d2"
    "insert_files fs d2 = Inr d3" "insert_seal k d3 = Inr db'"
    using assms by (rule add_file_set_revision_writes)
  then show ?thesis using insert_revision_extend insert_file_set_extend insert_files_extend insert_seal_extend
      files_extend_trans by metis
qed

lemma page_transaction_extend:
  assumes "page_transaction p db db'"
  shows "files_extend db db'"
proof -
  obtain db1 c f where u: "update_pages c f db1 = Inr (db', 1)"
    and w: "(\<exists>r. insert_revision r db = Inr db1) \<or> (\<exists>rid at m. add_file_set_revision p rid at m db = Inr db1)
      \<or> guards_only db db1"
    by (rule page_transaction_writes [OF assms])
  have "files_extend db db1" if "guards_only db db1"
    using guards_only_rows [OF that] by (intro same_files_extend) simp_all
  then show ?thesis using w update_pages_extend [OF u] insert_revision_extend add_file_set_revision_extend
      files_extend_trans by metis
qed

lemma side_statement_extend:
  assumes "side_statement db db'"
  shows "files_extend db db'"
  using assms
proof cases
  case (advance c n c')
  then show ?thesis
    by (auto simp: advance_collision_counter_def update_counter_def result_simps split: if_splits
        intro!: same_files_extend)
next
  case (file_set s)
  then show ?thesis by (rule insert_file_set_extend)
next
  case (stored_file f)
  then show ?thesis by (rule insert_file_extend)
next
  case (seal k)
  then show ?thesis by (rule insert_seal_extend)
qed (auto simp: add_book_def add_identifier_def insert_identifier_def add_source_row_def insert_source_def
    add_collision_counter_def insert_counter_def insert_audit_def insert_master_audit_def Let_def
    split: if_splits intro!: same_files_extend)

lemma create_rows_extend:
  assumes "create_rows sha p r i db = Inr db'"
  shows "files_extend db db'"
proof -
  obtain d1 d2 where a: "insert_page p db = Inr d1" and b: "insert_revision r d1 = Inr d2"
    and c: "insert_identifier i d2 = Inr db'"
    using assms by (auto simp: create_rows_def add_page_def add_revision_def add_identifier_def result_simps
        split: if_splits)
  have "files_extend db d1" using a by (auto simp: insert_page_def Let_def split: if_splits intro!: same_files_extend)
  moreover have "files_extend d2 db'"
    using c by (auto simp: insert_identifier_def Let_def split: if_splits intro!: same_files_extend)
  ultimately show ?thesis using insert_revision_extend [OF b] files_extend_trans by blast
qed

lemma store_step_extend:
  assumes "store_step sha (db, tr) (db', tr')"
  shows "files_extend db db'"
  using assms
proof cases
  case side
  then show ?thesis using side_statement_extend by blast
next
  case (create p r i)
  then show ?thesis using create_rows_extend by blast
next
  case (change p new)
  then show ?thesis using page_transaction_extend by blast
qed

lemma store_steps_extend: "store_steps sha (db, tr) (db', tr') \<Longrightarrow> files_extend db db'"
proof (induction rule: store_steps_induct)
  case (step d t d' t')
  then show ?case using store_step_extend files_extend_trans by blast
qed simp

lemma reachable_files_owned:
  assumes "reachable sha db tr"
  shows "files_owned db"
  by (rule files_extend_owned [OF store_steps_extend [OF assms [unfolded reachable_def]]])
    (simp add: files_owned_def empty_db_def)

section \<open>A sealed Revision never changes\<close>

lemma sealed_manifest_kept:
  assumes e: "files_extend db db'" and m: "get_current_file_manifest u sha db p = Inr m"
  shows "get_current_file_manifest u sha db' p = Inr m"
proof -
  let ?k = "current_key p"
  obtain r s where r: "find (\<lambda>r. rev_key r = ?k) (t_revisions db) = Some r"
    and s: "find (\<lambda>s. fs_key s = ?k) (t_file_sets db) = Some s"
    and k: "?k \<in> set (t_seals db)" "?k \<in> set (t_seal_guards db)"
    using m by (auto simp: get_current_file_manifest_def Let_def split: option.splits if_splits)
  obtain rs ms fs where x: "t_revisions db' = t_revisions db @ rs" "t_file_sets db' = t_file_sets db @ ms"
    "t_files db' = t_files db @ fs" "\<forall>f \<in> set fs. rf_key f \<notin> set (t_seals db)"
    "set (t_seals db) \<subseteq> set (t_seals db')" "set (t_seal_guards db) \<subseteq> set (t_seal_guards db')"
    using e by (auto simp: files_extend_def)
  have "filter (\<lambda>f. rf_key f = ?k) fs = []" using x(4) k(1) by (auto simp: filter_empty_conv)
  then have "files_of_key db' ?k = files_of_key db ?k" by (simp add: files_of_key_def x(3))
  moreover have "?k \<in> set (t_seals db')" "?k \<in> set (t_seal_guards db')" using k x(5,6) by auto
  ultimately show ?thesis
    using m k r s find_append_Some [OF r] find_append_Some [OF s]
    by (simp add: get_current_file_manifest_def Let_def x(1,2))
qed

section \<open>Writing a file set\<close>

definition file_rows :: "rev_key \<Rightarrow> file_manifest \<Rightarrow> revision_file list" where
  "file_rows k m = map (\<lambda>e. \<lparr>rf_key = k, rf_filename = mf_name e, rf_content_bytes = mf_content e,
       rf_size_bytes = mf_size_bytes e, rf_content_sha256 = mf_sha256 e\<rparr>) (fm_files m)"

definition file_set_row :: "rev_key \<Rightarrow> file_manifest \<Rightarrow> revision_file_set" where
  "file_set_row k m =
     \<lparr>fs_key = k, fs_storage_format = lit ''file_set_v1'', fs_file_count = int (length (fm_files m)),
      fs_total_size_bytes = fm_total_size_bytes m, fs_snapshot_sha256 = Some (fm_snapshot_sha256 m)\<rparr>"

lemma insert_files_rows:
  "insert_files fs db = Inr db' \<Longrightarrow> (\<forall>f \<in> set fs. rf_key f = k)
    \<Longrightarrow> (\<forall>r \<in> set (t_revisions db). rev_key r = k \<longrightarrow> rv_content_md r = None)
    \<Longrightarrow> db' = db\<lparr>t_files := t_files db @ fs\<rparr>"
proof (induction fs arbitrary: db)
  case (Cons f fs)
  obtain d where f: "insert_file f db = Inr d" and i: "insert_files fs d = Inr db'"
    using Cons.prems(1) by (auto simp: result_simps)
  have d: "d = db\<lparr>t_files := t_files db @ [f]\<rparr>"
    using f Cons.prems(2,3) by (auto simp: insert_file_def list_ex_iff Let_def split: if_splits)
  show ?case using Cons.IH [OF i] Cons.prems(2,3) by (simp add: d)
qed simp

text \<open>The rows of a file-set Revision that were just written, next to no older file of its key.\<close>

lemma written_files_read:
  assumes u: "nfc_stable u" and sha: "\<And>b. length (sha b) = 32" and c: "file_manifest_check u sha m = Inr ()"
    and r: "find (\<lambda>r. rev_key r = current_key p) (t_revisions db) = Some r"
    and rv: "rv_content_md r = None" "rv_content_size_bytes r = None" "rv_content_sha256 r = None"
    and s: "find (\<lambda>s. fs_key s = current_key p) (t_file_sets db) = Some (file_set_row (current_key p) m)"
    and f: "filter (\<lambda>f. rf_key f = current_key p) (t_files db) = file_rows (current_key p) m"
    and k: "current_key p \<in> set (t_seals db)" "current_key p \<in> set (t_seal_guards db)"
  shows "get_current_file_manifest u sha db p = Inr m"
proof -
  let ?rows = "file_rows (current_key p) m"
  note h = manifest_checked [OF c]
  have "map (\<lambda>f. name_bytes (rf_filename f)) ?rows = map (\<lambda>e. name_bytes (mf_name e)) (fm_files m)"
    by (simp add: file_rows_def)
  then have "sort_key (\<lambda>f. name_bytes (rf_filename f)) ?rows = ?rows"
    using checked_names_sorted [OF c] by (intro sort_key_id_if_sorted) simp
  then have o: "files_of_key db (current_key p) = ?rows"
    using h(1) by (simp add: files_of_key_def f file_rows_def MAX_FILES_PER_PAGE_def)
  have "sum_list (map (\<lambda>f. int (length (rf_content_bytes f))) ?rows) = sum_list (map mf_size_bytes (fm_files m))"
    using manifest_file_checked(1) [OF h(8)] by (simp add: file_rows_def comp_def cong: map_cong)
  then have "stored_files [] 0 ?rows = Inr ?rows"
    using h(1,3,4) stored_files_all [of "[]" ?rows 0] by (simp add: file_rows_def)
  moreover have "map (\<lambda>f. (rf_filename f, rf_content_bytes f)) ?rows = map (\<lambda>e. (mf_name e, mf_content e)) (fm_files m)"
    by (simp add: file_rows_def)
  moreover have "metadata_matches (file_set_row (current_key p) m) ?rows m"
    by (simp add: metadata_matches_def file_set_row_def file_rows_def list_all2_map2 list.rel_refl)
  moreover have "lit ''file_set_v1'' \<noteq> lit ''legacy_markdown''" by code_simp
  then have "format_matches r (file_set_row (current_key p) m) m"
    using rv by (simp add: format_matches_def file_set_row_def)
  ultimately show ?thesis
    using r s k o checked_manifest_builds [where sha = sha, OF u sha c]
    by (simp add: get_current_file_manifest_def Let_def)
qed

lemma find_append_None: "(\<forall>x \<in> set xs. \<not> c x) \<Longrightarrow> find c (xs @ ys) = find c ys"
  by (induction xs) auto

lemma file_set_revision_read:
  assumes u: "nfc_stable u" and sha: "\<And>b. length (sha b) = 32" and c: "file_manifest_check u sha m = Inr ()"
    and o: "files_owned db" and a: "add_file_set_revision p rid at m db = Inr db'"
    and q: "current_key q = (pg_library_id p, pg_page_uid p, rid, pg_current_revision_number p + 1)"
  shows "get_current_file_manifest u sha db' q = Inr m"
proof -
  let ?k = "current_key q"
  let ?r = "\<lparr>rv_library_id = pg_library_id p, rv_revision_id = rid, rv_page_uid = pg_page_uid p,
      rv_revision_number = pg_current_revision_number p + 1, rv_content_md = None,
      rv_content_size_bytes = None, rv_content_sha256 = None, rv_created_at = at\<rparr>"
  obtain d1 d2 d3 where i: "insert_revision ?r db = Inr d1" and s: "insert_file_set (file_set_row ?k m) d1 = Inr d2"
    and f: "insert_files (file_rows ?k m) d2 = Inr d3" and l: "insert_seal ?k d3 = Inr db'"
    using a by (auto simp: add_file_set_revision_def Let_def result_simps file_set_row_def file_rows_def q)
  have k: "rev_key ?r = ?k" by (simp add: rev_key_def q)
  have new: "rev_key x \<noteq> ?k" if "x \<in> set (t_revisions db)" for x
    using i that q by (auto simp: insert_revision_def list_ex_iff rev_key_def Let_def split: if_splits)
  have d1: "t_revisions d1 = t_revisions db @ [?r]" "t_files d1 = t_files db" "?k \<in> set (t_seal_guards d1)"
    using i k by (auto simp: insert_revision_def mirror_content_file_def Let_def split: if_splits)
  have d2: "d2 = d1\<lparr>t_file_sets := t_file_sets d1 @ [file_set_row ?k m]\<rparr>"
    and fresh: "\<forall>s \<in> set (t_file_sets d1). fs_key s \<noteq> ?k"
    using s by (auto simp: insert_file_set_def list_ex_iff file_set_row_def split: if_splits)
  have d3: "d3 = d2\<lparr>t_files := t_files d2 @ file_rows ?k m\<rparr>"
    by (rule insert_files_rows [OF f, where k = ?k]) (use new in \<open>auto simp: d2 d1 file_rows_def\<close>)
  have db': "db' = d3\<lparr>t_seals := t_seals d3 @ [?k]\<rparr>"
    using l by (auto simp: insert_seal_def split: if_splits)
  have "filter (\<lambda>f. rf_key f = ?k) (t_files db) = []"
    using o new by (auto simp: files_owned_def revision_exists_iff filter_empty_conv)
  then have "filter (\<lambda>f. rf_key f = ?k) (t_files db') = file_rows ?k m"
    by (simp add: db' d3 d2 d1 file_rows_def filter_map comp_def)
  moreover have "find (\<lambda>r. rev_key r = ?k) (t_revisions db') = Some ?r"
    using new k by (simp add: db' d3 d2 d1 find_append_None)
  moreover have "find (\<lambda>s. fs_key s = ?k) (t_file_sets db') = Some (file_set_row ?k m)"
    using fresh by (simp add: db' d3 d2 find_append_None) (simp add: file_set_row_def)
  ultimately show ?thesis
    by (intro written_files_read [where sha = sha, OF u sha c, of q db' ?r]) (simp_all add: db' d3 d2 d1)
qed

end
