(* ===== verification/Presentation.thy ===== *)
theory Presentation
  imports FileManifest PageTriggers
begin

text \<open>
  \<open>content/presentation.py\<close>: the entry file of a file-set Revision and the title shown for it. The
  Markdown parser is a third-party package and a parameter: from a text to its block tokens, of which
  the code reads the type, the tag and the inline children.
\<close>

definition UNTITLED :: pystr where "UNTITLED = [0x65E0, 0x6807, 0x9898]"

record presentation =
  pn_primary_file :: "pystr option"
  pn_display_title :: pystr

text \<open>A row of \<open>revision_presentations\<close>.\<close>

record presentation_row =
  pr_key :: rev_key
  pr_primary_file :: "pystr option"
  pr_display_title :: pystr

record md_child =
  mc_type :: pystr
  mc_content :: pystr

record md_token =
  mt_type :: pystr
  mt_tag :: pystr
  mt_children :: "md_child list option"

section \<open>Text\<close>

definition preview_text :: "bytes \<Rightarrow> pystr option" where
  "preview_text content = (if 0 \<in> set content then None else utf8_decode content)"

text \<open>\<open>str.strip()\<close>, \<open>str.splitlines(keepends=True)\<close> and \<open>PurePosixPath(name).suffix\<close>\<close>

definition strip :: "pystr \<Rightarrow> pystr" where
  "strip s = rev (dropWhile is_space (rev (dropWhile is_space s)))"

definition is_line_break :: "nat \<Rightarrow> bool" where
  "is_line_break c \<longleftrightarrow> (10 \<le> c \<and> c \<le> 13) \<or> (28 \<le> c \<and> c \<le> 30) \<or> c \<in> {0x85, 0x2028, 0x2029}"

fun lines_keepends :: "pystr \<Rightarrow> pystr \<Rightarrow> pystr list" where
  "lines_keepends line [] = (if line = [] then [] else [line])"
| "lines_keepends line (c # s) =
     (if c = 13 then (case s of [] \<Rightarrow> [line @ [13]]
        | d # r \<Rightarrow> if d = 10 then (line @ [13, 10]) # lines_keepends [] r
                  else (line @ [13]) # lines_keepends [] (d # r))
      else if is_line_break c then (line @ [c]) # lines_keepends [] s
      else lines_keepends (line @ [c]) s)"

definition splitlines :: "pystr \<Rightarrow> pystr list" where
  "splitlines s = lines_keepends [] s"

definition path_name :: "pystr \<Rightarrow> pystr" where
  "path_name s =
     (let parts = filter (\<lambda>p. p \<noteq> [] \<and> p \<noteq> lit ''.'') (split_on 47 s)
      in if parts = [] then [] else last parts)"

definition path_suffix :: "pystr \<Rightarrow> pystr" where
  "path_suffix s =
     (let name = path_name s; tail = takeWhile (\<lambda>c. c \<noteq> 46) (rev name)
      in if 46 \<notin> set name \<or> length tail + 1 = length name \<or> tail = [] then []
         else 46 # rev tail)"

section \<open>Titles\<close>

text \<open>The text after a front matter between \<open>---\<close> and \<open>---\<close> or \<open>...\<close>, when it is closed.\<close>

fun after_front_matter :: "pystr list \<Rightarrow> pystr list option" where
  "after_front_matter [] = None"
| "after_front_matter (l # ls) =
     (if strip l \<in> {lit ''---'', lit ''...''} then Some ls else after_front_matter ls)"

definition without_front_matter :: "pystr \<Rightarrow> pystr" where
  "without_front_matter s =
     (case splitlines s of
        l # ls \<Rightarrow> if strip l = lit ''---'' then
            (case after_front_matter ls of Some rest \<Rightarrow> concat rest | None \<Rightarrow> s) else s
      | [] \<Rightarrow> s)"

definition heading_text :: "md_child list \<Rightarrow> pystr" where
  "heading_text cs = strip (concat (map
     (\<lambda>c. if mc_type c \<notin> {lit ''softbreak'', lit ''hardbreak''} then mc_content c else [32])
     (filter (\<lambda>c. mc_type c \<in> {lit ''text'', lit ''code_inline'', lit ''image'', lit ''softbreak'',
        lit ''hardbreak''}) cs)))"

fun first_heading :: "md_token list \<Rightarrow> pystr" where
  "first_heading (t # inline # rest) =
     (if mt_type t \<noteq> lit ''heading_open'' \<or> mt_tag t \<noteq> lit ''h1'' then first_heading (inline # rest)
      else let title = heading_text (case mt_children inline of None \<Rightarrow> [] | Some cs \<Rightarrow> cs)
           in if title = [] then UNTITLED else title)"
| "first_heading _ = UNTITLED"

definition extract_title ::
  "unicode_data \<Rightarrow> (pystr \<Rightarrow> md_token list) \<Rightarrow> pystr option \<Rightarrow> bytes option \<Rightarrow> pystr" where
  "extract_title u parse filename content =
     (case (filename, content) of
        (Some name, Some bs) \<Rightarrow>
          if uc_lower u (path_suffix name) \<notin> {lit ''.md'', lit ''.markdown'', lit ''.mdown'', lit ''.mkd''}
          then UNTITLED
          else (case preview_text bs of None \<Rightarrow> UNTITLED
             | Some t \<Rightarrow> first_heading (parse (without_front_matter t)))
      | _ \<Rightarrow> UNTITLED)"

definition presentation_for ::
  "unicode_data \<Rightarrow> (pystr \<Rightarrow> md_token list) \<Rightarrow> file_manifest \<Rightarrow> pystr option \<Rightarrow> presentation sql" where
  "presentation_for u parse m primary =
     (case primary of
        None \<Rightarrow> Inr \<lparr>pn_primary_file = None, pn_display_title = UNTITLED\<rparr>
      | Some name \<Rightarrow>
          (case find (\<lambda>e. mf_name e = name) (fm_files m) of
             None \<Rightarrow> Inl BadValue
           | Some e \<Rightarrow> if preview_text (mf_content e) = None then Inl BadValue
                      else Inr \<lparr>pn_primary_file = Some name,
                                pn_display_title = extract_title u parse (Some name) (Some (mf_content e))\<rparr>))"

section \<open>The table\<close>

text \<open>\<open>None\<close> is a database whose schema is older than the table.\<close>

record archive_db =
  ad_content :: content_db
  ad_presentations :: "presentation_row list option"

definition read_presentation :: "archive_db \<Rightarrow> pystr \<Rightarrow> bytes \<Rightarrow> pystr \<Rightarrow> presentation" where
  "read_presentation db library uid rid =
     (case ad_presentations db of
        None \<Rightarrow> \<lparr>pn_primary_file = None, pn_display_title = UNTITLED\<rparr>
      | Some rows \<Rightarrow>
          (case find (\<lambda>r. case pr_key r of (l, v, i, n) \<Rightarrow> l = library \<and> v = uid \<and> i = rid) rows of
             None \<Rightarrow> \<lparr>pn_primary_file = None, pn_display_title = UNTITLED\<rparr>
           | Some r \<Rightarrow> \<lparr>pn_primary_file = pr_primary_file r, pn_display_title = pr_display_title r\<rparr>))"

definition save_presentation :: "rev_key \<Rightarrow> presentation \<Rightarrow> archive_db \<Rightarrow> archive_db sql" where
  "save_presentation k p db =
     (case ad_presentations db of
        None \<Rightarrow> if pn_primary_file p \<noteq> None then Inl BadValue else Inr db
      | Some rows \<Rightarrow>
          if pn_display_title p = [] \<or> \<not> revision_exists (ad_content db) k
             \<or> list_ex (\<lambda>r. pr_key r = k) rows
          then Inl SqlError
          else Inr (db\<lparr>ad_presentations := Some (rows @
            [\<lparr>pr_key = k, pr_primary_file = pn_primary_file p, pr_display_title = pn_display_title p\<rparr>])\<rparr>))"

lemma UNTITLED_nonempty [simp]: "UNTITLED \<noteq> []"
  by (simp add: UNTITLED_def)

lemma first_heading_nonempty: "first_heading ts \<noteq> []"
  by (induction ts rule: first_heading.induct) (auto simp: Let_def)

lemma extract_title_nonempty: "extract_title u parse f c \<noteq> []"
  by (auto simp: extract_title_def first_heading_nonempty split: option.splits)

lemma presentation_for_Inr:
  assumes "presentation_for u parse m primary = Inr p"
  shows "pn_primary_file p = primary" "pn_display_title p \<noteq> []"
    "primary = Some name \<Longrightarrow> \<exists>e \<in> set (fm_files m). mf_name e = name \<and> preview_text (mf_content e) \<noteq> None"
  using assms extract_title_nonempty
  by (auto simp: presentation_for_def find_Some_iff split: option.splits if_splits)

lemma save_presentation_content: "save_presentation k p db = Inr db' \<Longrightarrow> ad_content db' = ad_content db"
  by (auto simp: save_presentation_def split: option.splits if_splits)

end
