(* ===== verification/ArchiveService.thy ===== *)
theory ArchiveService
  imports ArchiveBodies
begin

text \<open>
  \<open>ArchiveService\<close> of \<open>content/service.py\<close>. The whole store is the content tables, the callers and
  their credentials, and the replay records. The digest, the writer and reader of body texts, the
  clock and the sources of identifiers are fields of the environment. An operation that fails leaves
  no state: its caller rolls the transaction back.
\<close>

record app_db =
  ap_content :: content_db
  ap_auth :: auth_db
  ap_records :: "idempotency_record list"

record service_env =
  sv_sha :: "bytes \<Rightarrow> bytes"
  sv_dump :: "json \<Rightarrow> pystr"
  sv_parse :: "bytes \<Rightarrow> json option"
  sv_in_transaction :: bool
  sv_schema :: pystr
  sv_clock :: int
  sv_ids :: "nat \<Rightarrow> pystr"
  sv_page_uids :: "nat \<Rightarrow> bytes"
  sv_revision_ids :: "nat \<Rightarrow> pystr"
  sv_attempts :: nat

definition CREATE_ROUTE_TEMPLATE :: pystr where
  "CREATE_ROUTE_TEMPLATE = lit ''/api/v1/sections/{section_id}/books/{book_id}/pages''"
definition REVISE_ROUTE_TEMPLATE :: pystr where
  "REVISE_ROUTE_TEMPLATE = lit ''/api/v1/sections/{section_id}/pages/{page_id}/revisions''"
definition CORRECT_OCCURRENCE_ROUTE_TEMPLATE :: pystr where
  "CORRECT_OCCURRENCE_ROUTE_TEMPLATE = lit ''/api/v1/sections/{section_id}/pages/{page_id}/occurrence''"
definition DELETE_PAGE_ROUTE_TEMPLATE :: pystr where
  "DELETE_PAGE_ROUTE_TEMPLATE = lit ''/api/v1/sections/{section_id}/pages/{page_id}''"
definition RESTORE_PAGE_ROUTE_TEMPLATE :: pystr where
  "RESTORE_PAGE_ROUTE_TEMPLATE = lit ''/api/v1/sections/{section_id}/pages/{page_id}/restore''"

section \<open>Small steps\<close>

text \<open>\<open>except SQLAlchemyError: raise ArchivePersistenceError\<close>, and a value error of a helper.\<close>

definition persisted :: "'a sql \<Rightarrow> 'a sql" where
  "persisted r = mapE (\<lambda>e. if e = SqlError then ArchivePersistence else e) r"

definition bad_value :: "'e + 'a \<Rightarrow> 'a sql" where
  "bad_value r = mapE (\<lambda>_. BadValue) r"

definition require_transaction :: "service_env \<Rightarrow> unit sql" where
  "require_transaction env = requireR (sv_in_transaction env) TransactionRequired"

definition require_route_section :: "pystr \<Rightarrow> pystr \<Rightarrow> unit sql" where
  "require_route_section actual route = requireR (actual = route) ArchiveNotFound"

definition operation_time :: "service_env \<Rightarrow> int sql" where
  "operation_time env =
     (if sv_clock env < 0 then Inl ArchivePersistence
      else mapE (\<lambda>_. ArchivePersistence) (bindR (canonical_utc_wire (sv_clock env)) (\<lambda>_. Inr (sv_clock env))))"

definition validated_scope :: "pystr \<Rightarrow> authenticated_caller \<Rightarrow> validated_caller sql" where
  "validated_scope library a =
     (let c = \<lparr>vc_library_id = library, vc_actor_home_library_id = ca_library_id (ac_caller a),
               vc_caller_id = ca_id (ac_caller a)\<rparr>
      in if caller_scope_valid c then Inr c else Inl BadValue)"

definition make_request :: "pystr \<Rightarrow> pystr \<Rightarrow> bytes \<Rightarrow> bytes \<Rightarrow> idempotency_request sql" where
  "make_request meth route key fingerprint =
     (let r = \<lparr>ir_method = meth, ir_route_template = route, ir_key_digest = key,
               ir_request_fingerprint = fingerprint\<rparr>
      in if request_valid r then Inr r else Inl BadValue)"

section \<open>Identifiers\<close>

fun allocate :: "nat \<Rightarrow> ('c \<Rightarrow> bool) \<Rightarrow> ('c \<Rightarrow> bool) \<Rightarrow> (nat \<Rightarrow> 'c) \<Rightarrow> nat \<Rightarrow> 'c option" where
  "allocate 0 valid taken draw i = None"
| "allocate (Suc n) valid taken draw i =
     (if valid (draw i) \<and> \<not> taken (draw i) then Some (draw i)
      else allocate n valid taken draw (Suc i))"

definition allocate_page_uid :: "service_env \<Rightarrow> pystr \<Rightarrow> content_db \<Rightarrow> bytes sql" where
  "allocate_page_uid env library db =
     optionR IdentifierGenerationFailed (allocate (sv_attempts env)
       (\<lambda>u. validate_page_uid u = Inr u) (page_uid_exists db library) (sv_page_uids env) 0)"

definition allocate_revision_id :: "service_env \<Rightarrow> pystr \<Rightarrow> content_db \<Rightarrow> pystr sql" where
  "allocate_revision_id env library db =
     optionR IdentifierGenerationFailed (allocate (sv_attempts env)
       (\<lambda>r. validate_revision_id r = Inr r) (revision_id_exists db library) (sv_revision_ids env) 0)"

definition candidate_page_id ::
  "(bytes \<Rightarrow> bytes) \<Rightarrow> occurrence_time \<Rightarrow> pystr \<Rightarrow> int \<Rightarrow> generated_page_id sql" where
  "candidate_page_id sha occurrence title ordinal = bad_value (generate_page_id sha occurrence title ordinal)"

text \<open>Without a counter the ordinals from 1 on are tried, and the first free one starts the counter.\<close>

fun first_page_id ::
  "(bytes \<Rightarrow> bytes) \<Rightarrow> pystr \<Rightarrow> occurrence_time \<Rightarrow> pystr \<Rightarrow> collision_counter \<Rightarrow> nat \<Rightarrow> int \<Rightarrow> content_db
    \<Rightarrow> (content_db \<times> generated_page_id) sql" where
  "first_page_id sha library occurrence title counter 0 ordinal db = Inl IdentifierExhausted"
| "first_page_id sha library occurrence title counter (Suc n) ordinal db =
     (if ordinal > MAX_COLLISION_ORDINAL then Inl IdentifierExhausted
      else
        bindR (candidate_page_id sha occurrence title ordinal) (\<lambda>candidate.
        bindR (identifier_exists sha db library (gp_value candidate)) (\<lambda>taken.
        if taken then first_page_id sha library occurrence title counter n (ordinal + 1) db
        else
          let c = counter\<lparr>cc_next_ordinal := ordinal + 1\<rparr> in
          if \<not> new_counter_valid c then Inl BadValue
          else bindR (add_collision_counter c db) (\<lambda>db'. Inr (db', candidate)))))"

text \<open>With a counter its next ordinal is taken, whether or not it turns out to be free.\<close>

fun next_page_id ::
  "(bytes \<Rightarrow> bytes) \<Rightarrow> pystr \<Rightarrow> occurrence_time \<Rightarrow> pystr \<Rightarrow> nat \<Rightarrow> collision_counter \<Rightarrow> content_db
    \<Rightarrow> (content_db \<times> generated_page_id) sql" where
  "next_page_id sha library occurrence title 0 counter db = Inl IdentifierExhausted"
| "next_page_id sha library occurrence title (Suc n) counter db =
     (if cc_next_ordinal counter > MAX_COLLISION_ORDINAL then Inl IdentifierExhausted
      else
        let ordinal = cc_next_ordinal counter in
        bindR (advance_collision_counter counter (ordinal + 1) db) (\<lambda>(db', advanced).
        case advanced of
          None \<Rightarrow> Inl ArchivePersistence
        | Some counter' \<Rightarrow>
            bindR (candidate_page_id sha occurrence title ordinal) (\<lambda>candidate.
            bindR (identifier_exists sha db' library (gp_value candidate)) (\<lambda>taken.
            if taken then next_page_id sha library occurrence title n counter' db'
            else Inr (db', candidate)))))"

definition allocate_page_id ::
  "service_env \<Rightarrow> pystr \<Rightarrow> pystr \<Rightarrow> int \<Rightarrow> content_db \<Rightarrow> (content_db \<times> generated_page_id) sql" where
  "allocate_page_id env library title occurred_at db =
     bindR (bad_value (canonical_utc_wire occurred_at)) (\<lambda>wire.
     let occurrence = \<lparr>utc_microseconds = occurred_at, canonical_utc = wire\<rparr>;
         ts = occurred_at div 1000 * 1000; sha = sv_sha env in
     bindR (candidate_page_id sha occurrence title 1) (\<lambda>base.
     case get_collision_counter db library PAGE_ID_SCHEME ts (gp_base_slug base) of
       None \<Rightarrow>
         first_page_id sha library occurrence title
           \<lparr>cc_library_id = library, cc_id_scheme = PAGE_ID_SCHEME, cc_id_timestamp_micros = ts,
            cc_base_slug = gp_base_slug base, cc_next_ordinal = 2\<rparr> (sv_attempts env) 1 db
     | Some counter \<Rightarrow>
         next_page_id sha library occurrence title (sv_attempts env) counter db))"

section \<open>Rows of an operation\<close>

definition add_source ::
  "service_env \<Rightarrow> archive_source \<Rightarrow> pystr \<Rightarrow> bytes \<Rightarrow> revision \<Rightarrow> int \<Rightarrow> content_db
    \<Rightarrow> (content_db \<times> page_source) sql" where
  "add_source env source library uid r operation_at db =
     (let s = \<lparr>so_library_id = library, so_source_id = sv_ids env 0, so_page_uid = uid,
               so_revision_id = rv_revision_id r, so_revision_number = rv_revision_number r,
               so_kind = as_kind source, so_locator = as_locator source,
               so_captured_at = as_captured_at source, so_created_at = operation_at\<rparr>
      in if \<not> new_source_valid s then Inl BadValue
         else bindR (add_source_row s db) (\<lambda>db'. Inr (db', s)))"

definition auth_request_id :: "pystr \<Rightarrow> bool" where
  "auth_request_id r \<longleftrightarrow>
     5 \<le> length r \<and> length r \<le> 100 \<and> take 4 r = lit ''req_''
     \<and> list_all (\<lambda>c. 65 \<le> c \<and> c \<le> 90 \<or> 97 \<le> c \<and> c \<le> 122 \<or> 48 \<le> c \<and> c \<le> 57 \<or> c = 95 \<or> c = 45)
          (drop 4 r)"

definition new_audit_valid :: "audit_event \<Rightarrow> bool" where
  "new_audit_valid a \<longleftrightarrow>
     opaque_id (au_id a) \<and> opaque_id (au_library_id a)
     \<and> list_all (optional opaque_id) [au_actor_home_library_id a, au_actor_caller_id a, au_actor_credential_id a]
     \<and> 1 \<le> length (au_action a) \<and> length (au_action a) \<le> 100
     \<and> 1 \<le> length (au_resource_type a) \<and> length (au_resource_type a) \<le> 100
     \<and> 1 \<le> length (au_resource_id a) \<and> length (au_resource_id a) \<le> 200
     \<and> auth_request_id (au_request_id a) \<and> 0 \<le> au_occurred_at a"

definition audit_references :: "auth_db \<Rightarrow> audit_event \<Rightarrow> bool" where
  "audit_references auth a \<longleftrightarrow>
     au_library_id a \<in> set (a_libraries auth)
     \<and> list_ex (\<lambda>c. au_actor_credential_id a = Some (cr_id c) \<and> au_actor_caller_id a = Some (cr_caller_id c)
          \<and> au_actor_home_library_id a = Some (cr_library_id c)) (a_credentials auth)"

definition add_audit_event :: "auth_db \<Rightarrow> audit_event \<Rightarrow> content_db \<Rightarrow> content_db sql" where
  "add_audit_event auth a db =
     (if \<not> new_audit_valid a then Inl BadValue
      else if \<not> audit_references auth a then Inl SqlError else insert_audit a db)"

definition service_audit ::
  "pystr \<Rightarrow> pystr \<Rightarrow> authenticated_caller \<Rightarrow> pystr \<Rightarrow> pystr \<Rightarrow> pystr \<Rightarrow> pystr \<Rightarrow> int \<Rightarrow> audit_event" where
  "service_audit event_id library a action resource_type resource_id request_id at =
     \<lparr>au_id = event_id, au_library_id = library, au_actor_home_library_id = Some (ca_library_id (ac_caller a)),
      au_actor_caller_id = Some (ca_id (ac_caller a)),
      au_actor_credential_id = Some (cr_id (ac_credential a)), au_action = action,
      au_resource_type = resource_type, au_resource_id = resource_id, au_outcome = lit ''succeeded'',
      au_request_id = request_id, au_occurred_at = at\<rparr>"

section \<open>Responses\<close>

definition page_path :: "pystr \<Rightarrow> pystr \<Rightarrow> pystr sql" where
  "page_path section page_id = build_api_v1_path [lit ''sections'', section, lit ''pages'', page_id]"

definition revision_path :: "pystr \<Rightarrow> pystr \<Rightarrow> int \<Rightarrow> pystr sql" where
  "revision_path section page_id n =
     build_api_v1_path [lit ''sections'', section, lit ''pages'', page_id, lit ''revisions'', int_text n]"

definition wire :: "int \<Rightarrow> pystr sql" where
  "wire at = bad_value (canonical_utc_wire at)"

definition checked :: "('a \<Rightarrow> bool) \<Rightarrow> 'a \<Rightarrow> 'a sql" where
  "checked valid x = (if valid x then Inr x else Inl BadValue)"

definition make_citation :: "pystr \<Rightarrow> pystr \<Rightarrow> pystr \<Rightarrow> int \<Rightarrow> citation sql" where
  "make_citation section page_id rid n =
     bindR (revision_path section page_id n) (\<lambda>href.
     checked citation_valid \<lparr>ci_section_id = section, ci_page_id = page_id, ci_revision_id = rid,
       ci_revision_number = n, ci_href = href\<rparr>)"

definition make_response ::
  "service_env \<Rightarrow> int \<Rightarrow> json \<Rightarrow> pystr \<Rightarrow> pystr \<Rightarrow> pystr \<Rightarrow> pystr \<Rightarrow> original_response sql" where
  "make_response env status body location etag request_id timestamp =
     bindR (utf8_bytes (sv_dump env body)) (\<lambda>b.
     checked response_valid \<lparr>or_status = status, or_media_type = lit ''application/json'', or_body = b,
       or_location = Some location, or_etag = etag, or_request_id = request_id,
       or_timestamp = timestamp\<rparr>)"

definition fresh_response ::
  "service_env \<Rightarrow> page \<Rightarrow> revision \<Rightarrow> pystr \<Rightarrow> bool \<Rightarrow> bool \<Rightarrow> (original_response \<times> citation) sql" where
  "fresh_response env p r request_id revision_location defaulted =
     bindR (make_citation (pg_section_id p) (pg_page_id p) (rv_revision_id r) (rv_revision_number r)) (\<lambda>citation.
     bindR (wire (pg_occurred_at p)) (\<lambda>occurred.
     bindR (wire (rv_created_at r)) (\<lambda>created.
     bindR (optionR BadValue (Option.bind (rv_content_md r) utf8_decode)) (\<lambda>content.
     bindR (checked archive_body_valid
       \<lparr>ab_page = \<lparr>vw_section_id = pg_section_id p, vw_book_id = pg_book_id p, vw_page_id = pg_page_id p,
          vw_title = pg_title p, vw_occurred_at = occurred, vw_current_revision_id = rv_revision_id r,
          vw_current_revision_number = rv_revision_number r\<rparr>,
        ab_revision = \<lparr>vr_page_id = pg_page_id p, vr_revision_id = rv_revision_id r,
          vr_revision_number = rv_revision_number r, vr_created_at = created,
          vr_content_sha256 = (case rv_content_sha256 r of None \<Rightarrow> [] | Some d \<Rightarrow> hex_bytes d),
          vr_content = content\<rparr>,
        ab_citation = citation, ab_notice = defaulted\<rparr>) (\<lambda>body.
     bindR (page_path (pg_section_id p) (pg_page_id p)) (\<lambda>location.
     bindR (page_current_etag (sv_sha env) (pg_page_uid p) (rv_revision_id r) (rv_revision_number r)
              (pg_occurred_at p) (pg_updated_at p)) (\<lambda>etag.
     bindR (make_response env 201 (archive_body_json body)
              (if revision_location then ci_href citation else location) etag request_id created)
       (\<lambda>response. Inr (response, citation)))))))))"

section \<open>Replays\<close>

datatype archive_result =
    ArchiveSuccess page revision page_source citation audit_event original_response
  | ArchiveReplay archive_body original_response

definition replay_timeline :: "service_env \<Rightarrow> content_db \<Rightarrow> page \<Rightarrow> page_state_timeline sql" where
  "replay_timeline env db p =
     mapE (\<lambda>_. ReplayCorrupt) (load_page_state_timeline db (sv_schema env) (page_key p))"

text \<open>Only the errors of the history become a corrupt replay; a tag that cannot be computed raises.\<close>

definition history_replay_error :: "archive_error \<Rightarrow> archive_error" where
  "history_replay_error e = (if e = HistoryInconsistent then ReplayCorrupt else e)"

text \<open>The state a replay answers for: the one whose tag it carries or the one of the instant
  \<open>updated_at\<close>, in the place, at the Revision and with the lifecycle state the caller expects.\<close>

definition require_replay_state ::
  "service_env \<Rightarrow> content_db \<Rightarrow> page \<Rightarrow> original_response \<Rightarrow> pystr \<Rightarrow> pystr \<Rightarrow> int \<Rightarrow> int option
    \<Rightarrow> pystr option \<Rightarrow> bool \<Rightarrow> bool \<Rightarrow> page_state sql" where
  "require_replay_state env db p rp section rid rn updated_at book active allow_legacy =
     bindR (replay_timeline env db p) (\<lambda>t.
     case updated_at of
       None \<Rightarrow> mapE history_replay_error (match_active_etag (sv_sha env) t rid rn (or_etag rp) section book)
     | Some at \<Rightarrow>
         bindR (mapE history_replay_error (exact_state t at)) (\<lambda>s.
         bindR (page_current_etag (sv_sha env) (pg_page_uid p) (ps_revision_id s) (ps_revision_number s)
                  (ps_occurred_at s) (ps_updated_at s)) (\<lambda>e.
         bindR (if allow_legacy
                then bindR (legacy_page_current_etag (sv_sha env) (pg_page_uid p) (ps_revision_id s)
                              (ps_revision_number s)) (\<lambda>l. Inr [e, l])
                else Inr [e]) (\<lambda>etags.
         if ps_section_id s \<noteq> section \<or> \<not> optional (\<lambda>b. ps_book_id s = b) book
            \<or> ps_revision_id s \<noteq> rid \<or> ps_revision_number s \<noteq> rn
            \<or> (ps_deleted_at s = None) \<noteq> active \<or> or_etag rp \<notin> set etags
         then Inl ReplayCorrupt else Inr s))))"

definition replay_body :: "service_env \<Rightarrow> original_response \<Rightarrow> archive_body option" where
  "replay_body env rp = Option.bind (sv_parse env (or_body rp)) archive_body_of"

definition validate_archive_replay ::
  "service_env \<Rightarrow> content_db \<Rightarrow> page \<Rightarrow> archive_body \<Rightarrow> original_response \<Rightarrow> pystr \<Rightarrow> bool \<Rightarrow> unit sql" where
  "validate_archive_replay env db p body rp section revision_location =
     bindR (bad_value (parse_occurrence_time (vr_created_at (ab_revision body)))) (\<lambda>created.
     bindR (require_replay_state env db p rp section (vr_revision_id (ab_revision body))
              (vr_revision_number (ab_revision body)) (Some (utc_microseconds created))
              (Some (vw_book_id (ab_page body))) True True) (\<lambda>s.
     let r = get_revision db (page_key p) (vr_revision_number (ab_revision body)) in
     bindR (revision_path section (pg_page_id p) (vr_revision_number (ab_revision body))) (\<lambda>href.
     bindR (wire (ps_occurred_at s)) (\<lambda>occurred.
     bindR (page_path section (pg_page_id p)) (\<lambda>location.
     if vw_page_id (ab_page body) \<noteq> pg_page_id p \<or> vw_section_id (ab_page body) \<noteq> section
        \<or> vw_title (ab_page body) \<noteq> ps_title s \<or> vw_occurred_at (ab_page body) \<noteq> occurred
        \<or> (case r of None \<Rightarrow> True
           | Some r \<Rightarrow>
               vr_revision_id (ab_revision body) \<noteq> rv_revision_id r
               \<or> utf8_encode (vr_content (ab_revision body)) \<noteq> rv_content_md r
               \<or> map_option hex_bytes (rv_content_sha256 r) \<noteq> Some (vr_content_sha256 (ab_revision body)))
        \<or> or_status rp \<noteq> 201 \<or> or_timestamp rp \<noteq> vr_created_at (ab_revision body)
        \<or> ci_href (ab_citation body) \<noteq> href
        \<or> or_location rp \<noteq> Some (if revision_location then href else location)
     then Inl ReplayCorrupt else Inr ())))))"

definition validate_metadata_replay :: "page \<Rightarrow> original_response \<Rightarrow> citation \<Rightarrow> pystr \<Rightarrow> unit sql" where
  "validate_metadata_replay p rp citation section =
     bindR (page_path section (pg_page_id p)) (\<lambda>location.
     bindR (revision_path section (pg_page_id p) (ci_revision_number citation)) (\<lambda>href.
     if or_status rp \<noteq> 200 \<or> or_location rp \<noteq> Some location \<or> ci_href citation \<noteq> href
     then Inl ReplayCorrupt else Inr ()))"

section \<open>Creating an archive\<close>

definition archive_page :: "page option \<Rightarrow> bool" where
  "archive_page p \<longleftrightarrow> (case p of None \<Rightarrow> False | Some q \<Rightarrow> pg_page_type q = lit ''archive'')"

definition authorize_write ::
  "service_env \<Rightarrow> int \<Rightarrow> pystr \<Rightarrow> pystr \<Rightarrow> pystr \<Rightarrow> auth_db \<Rightarrow> (auth_db \<times> authenticated_caller) sql" where
  "authorize_write env at token library section auth =
     authorize_content (sv_sha env) LAST_USED_COALESCE_MICROSECONDS at at token library section ArchiveWrite auth"

text \<open>The answer to a create request whose key is already recorded.\<close>

definition replay_create ::
  "service_env \<Rightarrow> int \<Rightarrow> pystr \<Rightarrow> create_command \<Rightarrow> validated_caller \<Rightarrow> idempotency_request
    \<Rightarrow> idempotency_record \<Rightarrow> app_db \<Rightarrow> (app_db \<times> archive_result) sql" where
  "replay_create env at token c scope request stored app =
     (case replay_body env (ic_response stored) of
        None \<Rightarrow> Inl AuthorizationFailed
      | Some stored_body \<Rightarrow>
          bindR (get_page (sv_sha env) (ap_content app) (cm_library_id c) (vw_page_id (ab_page stored_body))) (\<lambda>found.
          if \<not> archive_page found then Inl AuthorizationFailed
          else
            let p = the found in
            bindR (authorize_write env at token (cm_library_id c) (pg_section_id p) (ap_auth app)) (\<lambda>(auth, a).
            bindR (lookup_replay (ap_records app) scope request) (\<lambda>rp.
            case rp of
              None \<Rightarrow> Inl ReplayCorrupt
            | Some r \<Rightarrow>
                bindR (optionR ReplayCorrupt (replay_body env r)) (\<lambda>body.
                bindR (validate_archive_replay env (ap_content app) p body r (cm_section_id c) False) (\<lambda>_.
                if vw_book_id (ab_page body) \<noteq> cm_book_id c then Inl ReplayCorrupt
                else Inr (app\<lparr>ap_auth := auth\<rparr>, ArchiveReplay body r)))))))"

definition fresh_page ::
  "create_command \<Rightarrow> book_row \<Rightarrow> generated_page_id \<Rightarrow> bytes \<Rightarrow> pystr \<Rightarrow> int \<Rightarrow> int \<Rightarrow> page" where
  "fresh_page c book g uid rid occurred_at at =
     \<lparr>pg_library_id = cm_library_id c, pg_page_uid = uid, pg_section_id = bk_section_id book,
      pg_book_id = bk_id book, pg_page_id = gp_value g, pg_id_scheme = PAGE_ID_SCHEME,
      pg_id_timestamp_micros = occurred_at div 1000 * 1000, pg_base_slug = gp_base_slug g,
      pg_collision_ordinal = gp_collision_ordinal g, pg_title = cm_title c,
      pg_page_type = lit ''archive'', pg_occurred_at = occurred_at, pg_current_revision_id = rid,
      pg_current_revision_number = 1, pg_created_at = at, pg_updated_at = at, pg_deleted_at = None\<rparr>"

definition markdown_revision :: "pystr \<Rightarrow> bytes \<Rightarrow> pystr \<Rightarrow> int \<Rightarrow> bytes \<times> int \<times> bytes \<Rightarrow> int \<Rightarrow> revision" where
  "markdown_revision library uid rid n content at =
     \<lparr>rv_library_id = library, rv_revision_id = rid, rv_page_uid = uid, rv_revision_number = n,
      rv_content_md = Some (fst content), rv_content_size_bytes = Some (fst (snd content)),
      rv_content_sha256 = Some (snd (snd content)), rv_created_at = at\<rparr>"

definition canonical_identifier :: "pystr \<Rightarrow> pystr \<Rightarrow> bytes \<Rightarrow> bytes \<Rightarrow> int \<Rightarrow> page_identifier" where
  "canonical_identifier library page_id digest uid at =
     \<lparr>pi_library_id = library, pi_identifier_digest = digest, pi_identifier_text = page_id,
      pi_id_scheme = PAGE_ID_SCHEME, pi_identifier_kind = lit ''canonical'', pi_page_uid = uid,
      pi_created_at = at\<rparr>"

text \<open>The rows of a new archive, in the order they are inserted, then its response.\<close>

definition insert_archive ::
  "service_env \<Rightarrow> int \<Rightarrow> create_command \<Rightarrow> book_row \<Rightarrow> authenticated_caller \<Rightarrow> auth_db \<Rightarrow> content_db
    \<Rightarrow> (content_db \<times> page \<times> revision \<times> page_source \<times> citation \<times> audit_event \<times> original_response) sql" where
  "insert_archive env at c book a auth db =
     (let sha = sv_sha env; library = cm_library_id c;
          occurred_at = (case cm_occurred_at c of None \<Rightarrow> at | Some t \<Rightarrow> t) in
      bindR (allocate_page_id env library (cm_title c) occurred_at db) (\<lambda>(db1, g).
      bindR (allocate_page_uid env library db1) (\<lambda>uid.
      bindR (allocate_revision_id env library db1) (\<lambda>rid.
      bindR (markdown_from_bytes sha (cm_content_md c)) (\<lambda>content.
      let p = fresh_page c book g uid rid occurred_at at in
      bindR (add_page sha p db1) (\<lambda>db2.
      bindR (checked (new_revision_valid sha) (markdown_revision library uid rid 1 content at)) (\<lambda>r.
      bindR (add_revision r db2) (\<lambda>db3.
      bindR (registry_digest sha (pg_page_id p)) (\<lambda>digest.
      bindR (checked (new_identifier_valid sha)
        (canonical_identifier library (pg_page_id p) digest uid at)) (\<lambda>i.
      bindR (add_identifier i db3) (\<lambda>db4.
      bindR (add_source env (cm_source c) library uid r at db4) (\<lambda>(db5, s).
      bindR (fresh_response env p r (cm_request_id c) False (cm_occurred_at c = None)) (\<lambda>(response, citation).
      let audit = service_audit (sv_ids env 1) library a (lit ''content.archive.create'') (lit ''page'')
            (pg_page_id p) (cm_request_id c) at in
      bindR (add_audit_event auth audit db5) (\<lambda>db6.
      Inr (db6, p, r, s, citation, audit, response)))))))))))))))"

definition create_archive ::
  "service_env \<Rightarrow> pystr \<Rightarrow> create_command \<Rightarrow> bytes \<Rightarrow> app_db \<Rightarrow> (app_db \<times> archive_result) sql" where
  "create_archive env token c key app =
     bindR (require_transaction env) (\<lambda>_.
     bindR (operation_time env) (\<lambda>at.
     bindR (authenticate (sv_sha env) LAST_USED_COALESCE_MICROSECONDS at token (ap_auth app)) (\<lambda>(auth, a).
     bindR (validated_scope (cm_library_id c) a) (\<lambda>scope.
     bindR (create_fingerprint (sv_sha env) c) (\<lambda>fingerprint.
     bindR (make_request (lit ''POST'') CREATE_ROUTE_TEMPLATE key fingerprint) (\<lambda>request.
     bindR (get_record (ap_records app) scope request) (\<lambda>stored.
     case stored of
       Some r \<Rightarrow> replay_create env at token c scope request r (app\<lparr>ap_auth := auth\<rparr>)
     | None \<Rightarrow>
         (case get_book_section (ap_content app) (cm_library_id c) (cm_book_id c) of
            None \<Rightarrow> Inl ArchiveNotFound
          | Some book \<Rightarrow>
              bindR (authorize_write env at token (cm_library_id c) (bk_section_id book) auth) (\<lambda>(auth', a').
              bindR (require_route_section (bk_section_id book) (cm_section_id c)) (\<lambda>_.
              bindR (lookup_replay (ap_records app) scope request) (\<lambda>rp.
              if rp \<noteq> None then Inl ReplayCorrupt
              else
                persisted
                  (bindR (insert_archive env at c book a' auth' (ap_content app))
                     (\<lambda>(db, p, r, s, citation, audit, response).
                   bindR (record_success auth' (ap_records app) scope request response) (\<lambda>(records, _).
                   Inr (\<lparr>ap_content = db, ap_auth = auth', ap_records = records\<rparr>,
                        ArchiveSuccess p r s citation audit response)))))))))))))))"

section \<open>Appending a Revision\<close>

definition page_write_scope ::
  "service_env \<Rightarrow> int \<Rightarrow> pystr \<Rightarrow> pystr \<Rightarrow> page \<Rightarrow> auth_db
    \<Rightarrow> (auth_db \<times> authenticated_caller \<times> validated_caller) sql" where
  "page_write_scope env at token library p auth =
     bindR (authorize_write env at token library (pg_section_id p) auth) (\<lambda>(auth', a).
     bindR (validated_scope library a) (\<lambda>scope. Inr (auth', a, scope)))"

definition get_archive_page :: "service_env \<Rightarrow> pystr \<Rightarrow> pystr \<Rightarrow> app_db \<Rightarrow> page sql" where
  "get_archive_page env library page_id app =
     bindR (get_page (sv_sha env) (ap_content app) library page_id) (\<lambda>found.
     if archive_page found then Inr (the found) else Inl ArchiveNotFound)"

definition append_ready :: "service_env \<Rightarrow> append_command \<Rightarrow> page \<Rightarrow> int \<Rightarrow> content_db \<Rightarrow> int sql" where
  "append_ready env c p operation_at db =
     bindR (require_route_section (pg_section_id p) (am_section_id c)) (\<lambda>_.
     if pg_deleted_at p \<noteq> None then Inl ArchiveNotFound
     else case am_expected_etag c of
       None \<Rightarrow> Inl PreconditionRequired
     | Some expected \<Rightarrow>
         bindR (page_etag (sv_sha env) p) (\<lambda>current.
         if expected \<noteq> current then Inl PreconditionFailed
         else
           bindR (get_current_revision_storage_format db p) (\<lambda>format.
           if format \<noteq> lit ''legacy_markdown'' then Inl UnsupportedRevisionFormat
           else if pg_current_revision_number p \<ge> MAX_REVISION_NUMBER then Inl ArchivePersistence
           else if pg_updated_at p \<ge> MAX_I64 then Inl ArchivePersistence
           else
             let revision_at = max operation_at (pg_updated_at p + 1) in
             mapE (\<lambda>_. ArchivePersistence) (bindR (canonical_utc_wire revision_at) (\<lambda>_. Inr revision_at)))))"

definition insert_appended ::
  "service_env \<Rightarrow> int \<Rightarrow> int \<Rightarrow> append_command \<Rightarrow> page \<Rightarrow> authenticated_caller \<Rightarrow> auth_db \<Rightarrow> content_db
    \<Rightarrow> (content_db \<times> page \<times> revision \<times> page_source \<times> citation \<times> audit_event \<times> original_response) sql" where
  "insert_appended env at revision_at c p a auth db =
     (let sha = sv_sha env; library = am_library_id c in
      bindR (allocate_revision_id env library db) (\<lambda>rid.
      bindR (markdown_from_bytes sha (am_content_md c)) (\<lambda>content.
      bindR (checked (new_revision_valid sha)
        (markdown_revision library (pg_page_uid p) rid (pg_current_revision_number p + 1) content revision_at)) (\<lambda>r.
      bindR (add_revision r db) (\<lambda>db1.
      bindR (advance_current_revision p r revision_at db1) (\<lambda>(db2, advanced).
      case advanced of
        None \<Rightarrow> Inl PreconditionFailed
      | Some p' \<Rightarrow>
          bindR (add_source env (am_source c) library (pg_page_uid p) r at db2) (\<lambda>(db3, s).
          bindR (fresh_response env p' r (am_request_id c) True False) (\<lambda>(response, citation).
          let audit = service_audit (sv_ids env 1) library a (lit ''content.archive.revise'') (lit ''revision'')
                (rv_revision_id r) (am_request_id c) at in
          bindR (add_audit_event auth audit db3) (\<lambda>db4.
          Inr (db4, p', r, s, citation, audit, response))))))))))"

definition append_revision ::
  "service_env \<Rightarrow> pystr \<Rightarrow> append_command \<Rightarrow> bytes \<Rightarrow> app_db \<Rightarrow> (app_db \<times> archive_result) sql" where
  "append_revision env token c key app =
     bindR (require_transaction env) (\<lambda>_.
     bindR (get_archive_page env (am_library_id c) (am_page_id c) app) (\<lambda>p.
     bindR (operation_time env) (\<lambda>at.
     bindR (page_write_scope env at token (am_library_id c) p (ap_auth app)) (\<lambda>(auth, a, scope).
     bindR (revision_fingerprint (sv_sha env) c) (\<lambda>fingerprint.
     bindR (make_request (lit ''POST'') REVISE_ROUTE_TEMPLATE key fingerprint) (\<lambda>request.
     bindR (lookup_replay (ap_records app) scope request) (\<lambda>found.
     case found of
       Some r \<Rightarrow>
         bindR (optionR ReplayCorrupt (replay_body env r)) (\<lambda>body.
         bindR (validate_archive_replay env (ap_content app) p body r (am_section_id c) True) (\<lambda>_.
         Inr (app\<lparr>ap_auth := auth\<rparr>, ArchiveReplay body r)))
     | None \<Rightarrow>
         bindR (append_ready env c p at (ap_content app)) (\<lambda>revision_at.
         persisted
           (bindR (insert_appended env at revision_at c p a auth (ap_content app))
              (\<lambda>(db, p', r, s, citation, audit, response).
            bindR (record_success auth (ap_records app) scope request response) (\<lambda>(records, _).
            Inr (\<lparr>ap_content = db, ap_auth = auth, ap_records = records\<rparr>,
                 ArchiveSuccess p' r s citation audit response))))))))))))"

section \<open>Correcting the declared time\<close>

definition current_response ::
  "service_env \<Rightarrow> page \<Rightarrow> page \<Rightarrow> json \<Rightarrow> pystr \<Rightarrow> int \<Rightarrow> original_response sql" where
  "current_response env p updated body request_id at =
     bindR (page_path (pg_section_id p) (pg_page_id p)) (\<lambda>location.
     bindR (page_etag (sv_sha env) updated) (\<lambda>etag.
     bindR (wire at) (\<lambda>timestamp.
     make_response env 200 body location etag request_id timestamp)))"

definition replay_correction ::
  "service_env \<Rightarrow> occurrence_command \<Rightarrow> page \<Rightarrow> original_response \<Rightarrow> content_db \<Rightarrow> unit sql" where
  "replay_correction env c p rp db =
     bindR (optionR ReplayCorrupt (Option.bind (sv_parse env (or_body rp)) correction_body_of)) (\<lambda>body.
     bindR (mapE (\<lambda>_. ReplayCorrupt) (parse_occurrence_time (or_timestamp rp))) (\<lambda>corrected.
     let at = utc_microseconds corrected in
     bindR (require_replay_state env db p rp (om_section_id c) (cb_current_revision_id body)
              (cb_current_revision_number body) (Some at) None True False) (\<lambda>s.
     case find (\<lambda>x. co_key x = page_key p \<and> cg_corrected_at (co_guard x) = at) (t_corrections db) of
       None \<Rightarrow> Inl ReplayCorrupt
     | Some row \<Rightarrow>
         bindR (wire (cg_old_occurred_at (co_guard row))) (\<lambda>previous.
         bindR (wire (ps_occurred_at s)) (\<lambda>occurred.
         if cb_page_id body \<noteq> pg_page_id p \<or> cb_section_id body \<noteq> om_section_id c
            \<or> cb_previous_occurred_at body \<noteq> previous \<or> cb_occurred_at body \<noteq> occurred
            \<or> cg_new_occurred_at (co_guard row) \<noteq> om_occurred_at c
         then Inl ReplayCorrupt
         else validate_metadata_replay p rp (cb_citation body) (om_section_id c))))))"

definition insert_corrected ::
  "service_env \<Rightarrow> int \<Rightarrow> occurrence_command \<Rightarrow> page \<Rightarrow> authenticated_caller \<Rightarrow> auth_db \<Rightarrow> content_db
    \<Rightarrow> (content_db \<times> original_response) sql" where
  "insert_corrected env at c p a auth db =
     bindR (checked correction_command_valid
       \<lparr>cg_library_id = pg_library_id p, cg_page_uid = pg_page_uid p, cg_sequence = 0,
        cg_old_occurred_at = pg_occurred_at p, cg_new_occurred_at = om_occurred_at c,
        cg_actor_caller_id = Some (ca_id (ac_caller a)),
        cg_actor_home_library_id = Some (ca_library_id (ac_caller a)), cg_master_audit_event_id = None,
        cg_corrected_at = at\<rparr>) (\<lambda>command.
     bindR (correct_occurrence_row p command db) (\<lambda>(db1, updated, row).
     let corrected_at = cg_corrected_at (co_guard row) in
     bindR (wire (pg_occurred_at p)) (\<lambda>previous.
     bindR (wire (pg_occurred_at updated)) (\<lambda>occurred.
     bindR (make_citation (pg_section_id p) (pg_page_id p) (pg_current_revision_id p)
              (pg_current_revision_number p)) (\<lambda>citation.
     bindR (checked correction_body_valid
       \<lparr>cb_section_id = pg_section_id p, cb_page_id = pg_page_id p, cb_previous_occurred_at = previous,
        cb_occurred_at = occurred, cb_current_revision_id = pg_current_revision_id p,
        cb_current_revision_number = pg_current_revision_number p, cb_citation = citation\<rparr>) (\<lambda>body.
     bindR (current_response env p updated (correction_body_json body) (om_request_id c) corrected_at) (\<lambda>response.
     bindR (add_audit_event auth
       (service_audit (sv_ids env 0) (pg_library_id p) a (lit ''content.archive.correct_occurrence'')
          (lit ''page'') (pg_page_id p) (om_request_id c) corrected_at) db1) (\<lambda>db2.
     Inr (db2, response)))))))))"

definition occurrence_ready :: "service_env \<Rightarrow> occurrence_command \<Rightarrow> page \<Rightarrow> unit sql" where
  "occurrence_ready env c p =
     bindR (require_route_section (pg_section_id p) (om_section_id c)) (\<lambda>_.
     if pg_deleted_at p \<noteq> None then Inl ArchiveNotFound
     else
       bindR (page_etag (sv_sha env) p) (\<lambda>current.
       if om_expected_etag c \<noteq> current then Inl PreconditionFailed
       else if om_occurred_at c = pg_occurred_at p then Inl OccurrenceUnchanged
       else requireR (pg_updated_at p < MAX_I64) ArchivePersistence))"

definition correct_occurrence ::
  "service_env \<Rightarrow> pystr \<Rightarrow> occurrence_command \<Rightarrow> bytes \<Rightarrow> app_db \<Rightarrow> (app_db \<times> original_response) sql" where
  "correct_occurrence env token c key app =
     bindR (require_transaction env) (\<lambda>_.
     bindR (get_archive_page env (om_library_id c) (om_page_id c) app) (\<lambda>p.
     bindR (operation_time env) (\<lambda>at.
     bindR (page_write_scope env at token (om_library_id c) p (ap_auth app)) (\<lambda>(auth, a, scope).
     bindR (occurrence_fingerprint (sv_sha env) c) (\<lambda>fingerprint.
     bindR (make_request (lit ''PATCH'') CORRECT_OCCURRENCE_ROUTE_TEMPLATE key fingerprint) (\<lambda>request.
     bindR (lookup_replay (ap_records app) scope request) (\<lambda>found.
     case found of
       Some r \<Rightarrow>
         bindR (replay_correction env c p r (ap_content app)) (\<lambda>_. Inr (app\<lparr>ap_auth := auth\<rparr>, r))
     | None \<Rightarrow>
         bindR (occurrence_ready env c p) (\<lambda>_.
         persisted
           (bindR (insert_corrected env at c p a auth (ap_content app)) (\<lambda>(db, response).
            bindR (record_success auth (ap_records app) scope request response) (\<lambda>(records, _).
            Inr (\<lparr>ap_content = db, ap_auth = auth, ap_records = records\<rparr>, response))))))))))))"

section \<open>Deleting and restoring\<close>

definition DELETE :: pystr where "DELETE = lit ''delete''"

definition replay_lifecycle ::
  "service_env \<Rightarrow> lifecycle_command \<Rightarrow> pystr \<Rightarrow> page \<Rightarrow> original_response \<Rightarrow> content_db \<Rightarrow> unit sql" where
  "replay_lifecycle env c action p rp db =
     bindR (optionR ReplayCorrupt (Option.bind (sv_parse env (or_body rp)) lifecycle_body_of)) (\<lambda>body.
     bindR (mapE (\<lambda>_. ReplayCorrupt) (parse_occurrence_time (lb_updated_at body))) (\<lambda>changed.
     let at = utc_microseconds changed in
     bindR (require_replay_state env db p rp (lm_section_id c) (lb_current_revision_id body)
              (lb_current_revision_number body) (Some at) None (action \<noteq> DELETE) False) (\<lambda>s.
     bindR (case ps_deleted_at s of None \<Rightarrow> Inr None | Some d \<Rightarrow> bindR (wire d) (\<lambda>w. Inr (Some w))) (\<lambda>deleted.
     case find (\<lambda>x. le_key x = page_key p \<and> le_changed_at x = at) (t_lifecycle_events db) of
       None \<Rightarrow> Inl ReplayCorrupt
     | Some row \<Rightarrow>
         if le_action row \<noteq> action \<or> lb_page_id body \<noteq> pg_page_id p
            \<or> lb_section_id body \<noteq> lm_section_id c
            \<or> lb_state body \<noteq> (if action = DELETE then lit ''trashed'' else lit ''active'')
            \<or> lb_deleted_at body \<noteq> deleted \<or> or_timestamp rp \<noteq> lb_updated_at body
         then Inl ReplayCorrupt
         else validate_metadata_replay p rp (lb_citation body) (lm_section_id c)))))"

definition insert_transition ::
  "service_env \<Rightarrow> int \<Rightarrow> lifecycle_command \<Rightarrow> pystr \<Rightarrow> page \<Rightarrow> authenticated_caller \<Rightarrow> auth_db \<Rightarrow> content_db
    \<Rightarrow> (content_db \<times> original_response) sql" where
  "insert_transition env at c action p a auth db =
     bindR (transition_page_lifecycle_row p action (Some (ca_id (ac_caller a)))
              (Some (ca_library_id (ac_caller a))) None (lm_request_id c) at db) (\<lambda>(db1, updated, event).
     bindR (make_citation (pg_section_id p) (pg_page_id p) (pg_current_revision_id p)
              (pg_current_revision_number p)) (\<lambda>citation.
     bindR (case pg_deleted_at updated of None \<Rightarrow> Inr None | Some d \<Rightarrow> bindR (wire d) (\<lambda>w. Inr (Some w))) (\<lambda>deleted.
     bindR (wire (pg_updated_at updated)) (\<lambda>updated_at.
     bindR (checked lifecycle_body_valid
       \<lparr>lb_section_id = pg_section_id p, lb_page_id = pg_page_id p,
        lb_state = (if action = DELETE then lit ''trashed'' else lit ''active''), lb_deleted_at = deleted,
        lb_updated_at = updated_at, lb_current_revision_id = pg_current_revision_id p,
        lb_current_revision_number = pg_current_revision_number p, lb_citation = citation\<rparr>) (\<lambda>body.
     bindR (current_response env p updated (lifecycle_body_json body) (lm_request_id c) (le_changed_at event)) (\<lambda>response.
     bindR (add_audit_event auth
       (service_audit (sv_ids env 0) (pg_library_id p) a (lit ''content.archive.'' @ action)
          (lit ''page'') (pg_page_id p) (lm_request_id c) (le_changed_at event)) db1) (\<lambda>db2.
     Inr (db2, response))))))))"

definition lifecycle_ready :: "service_env \<Rightarrow> lifecycle_command \<Rightarrow> pystr \<Rightarrow> page \<Rightarrow> unit sql" where
  "lifecycle_ready env c action p =
     bindR (require_route_section (pg_section_id p) (lm_section_id c)) (\<lambda>_.
     bindR (page_etag (sv_sha env) p) (\<lambda>current.
     if lm_expected_etag c \<noteq> current then Inl PreconditionFailed
     else if (action = DELETE) = (pg_deleted_at p \<noteq> None) then Inl LifecycleUnchanged
     else requireR (pg_updated_at p < MAX_I64) ArchivePersistence))"

definition transition_authorized ::
  "service_env \<Rightarrow> page \<Rightarrow> auth_db \<Rightarrow> authenticated_caller \<Rightarrow> lifecycle_command \<Rightarrow> bytes \<Rightarrow> pystr \<Rightarrow> int
    \<Rightarrow> app_db \<Rightarrow> (app_db \<times> original_response) sql" where
  "transition_authorized env p auth a c key action at app =
     bindR (validated_scope (lm_library_id c) a) (\<lambda>scope.
     bindR (lifecycle_fingerprint (sv_sha env) c action) (\<lambda>fingerprint.
     bindR (make_request (if action = DELETE then lit ''DELETE'' else lit ''POST'')
              (if action = DELETE then DELETE_PAGE_ROUTE_TEMPLATE else RESTORE_PAGE_ROUTE_TEMPLATE)
              key fingerprint) (\<lambda>request.
     bindR (lookup_replay (ap_records app) scope request) (\<lambda>found.
     case found of
       Some r \<Rightarrow>
         bindR (replay_lifecycle env c action p r (ap_content app)) (\<lambda>_. Inr (app\<lparr>ap_auth := auth\<rparr>, r))
     | None \<Rightarrow>
         bindR (lifecycle_ready env c action p) (\<lambda>_.
         persisted
           (bindR (insert_transition env at c action p a auth (ap_content app)) (\<lambda>(db, response).
            bindR (record_success auth (ap_records app) scope request response) (\<lambda>(records, _).
            Inr (\<lparr>ap_content = db, ap_auth = auth, ap_records = records\<rparr>, response)))))))))"

definition transition_page_lifecycle ::
  "service_env \<Rightarrow> pystr \<Rightarrow> lifecycle_command \<Rightarrow> bytes \<Rightarrow> pystr \<Rightarrow> app_db \<Rightarrow> (app_db \<times> original_response) sql" where
  "transition_page_lifecycle env token c key action app =
     bindR (require_transaction env) (\<lambda>_.
     bindR (get_archive_page env (lm_library_id c) (lm_page_id c) app) (\<lambda>p.
     bindR (operation_time env) (\<lambda>at.
     bindR (authorize_write env at token (lm_library_id c) (pg_section_id p) (ap_auth app)) (\<lambda>(auth, a).
     transition_authorized env p auth a c key action at app))))"

definition restore_page_as_operator ::
  "service_env \<Rightarrow> pystr \<Rightarrow> lifecycle_command \<Rightarrow> bytes \<Rightarrow> app_db \<Rightarrow> (app_db \<times> original_response) sql" where
  "restore_page_as_operator env token c key app =
     bindR (require_transaction env) (\<lambda>_.
     bindR (operation_time env) (\<lambda>at.
     bindR (require_operator (sv_sha env) LAST_USED_COALESCE_MICROSECONDS at token (lm_library_id c)
              (ap_auth app)) (\<lambda>(auth, a).
     bindR (get_archive_page env (lm_library_id c) (lm_page_id c) app) (\<lambda>p.
     transition_authorized env p auth a c key (lit ''restore'') at app))))"

end
