(* ===== verification/ArchiveSteps.thy ===== *)
theory ArchiveSteps
  imports ArchiveService StorePersistence IdempotencyTheorems
begin

text \<open>
  Every operation of the archive service is a run of the statements and transactions of the content
  store, of the operations of the credential store and of recordings of replay records.
\<close>

section \<open>Runs\<close>

definition app_run :: "(bytes \<Rightarrow> bytes) \<Rightarrow> app_db \<times> traces \<Rightarrow> app_db \<times> traces \<Rightarrow> bool" where
  "app_run sha d e \<longleftrightarrow>
     store_steps sha (ap_content (fst d), snd d) (ap_content (fst e), snd e)
     \<and> auth_steps sha (ap_auth (fst d)) (ap_auth (fst e))
     \<and> records_later (ap_records (fst d)) (ap_records (fst e))"

lemma store_steps_refl [simp]: "store_steps sha d d"
  by (simp add: store_steps_def)

lemma store_steps_trans: "store_steps sha a b \<Longrightarrow> store_steps sha b c \<Longrightarrow> store_steps sha a c"
  by (simp add: store_steps_def)

lemma store_steps_one: "store_step sha a b \<Longrightarrow> store_steps sha a b"
  by (simp add: store_steps_def)

lemma auth_steps_refl [simp]: "auth_steps sha d d"
  by (simp add: auth_steps_def)

lemma auth_steps_trans: "auth_steps sha a b \<Longrightarrow> auth_steps sha b c \<Longrightarrow> auth_steps sha a c"
  by (simp add: auth_steps_def)

lemma records_later_trans: "records_later b c \<Longrightarrow> records_later a b \<Longrightarrow> records_later a c"
  by (induction rule: records_later.induct) (auto intro: records_later.recorded)

lemma app_run_trans: "app_run sha a b \<Longrightarrow> app_run sha b c \<Longrightarrow> app_run sha a c"
  unfolding app_run_def using store_steps_trans auth_steps_trans records_later_trans by blast

section \<open>Authentication\<close>

lemma bindR_InrE:
  assumes "bindR r f = Inr y"
  obtains x where "r = Inr x" "f x = Inr y"
  using assms by (cases r) auto

lemma authenticate_steps:
  assumes "authenticate sha co now token db = Inr (db', a)"
  shows "auth_steps sha db db'"
proof -
  have "db' = db \<or> (\<exists>s s'. touch_credential_last_used s now db = Inr (db', s'))"
    using assms by (auto simp: authenticate_def Let_def split: sum.splits option.splits if_splits elim!: bindR_InrE)
  then show ?thesis by (auto simp: auth_steps_def intro: auth_step.touch)
qed

lemma authorize_content_authenticates:
  assumes "authorize_content sha co now at token library section action db = Inr (db', a)"
  shows "authenticate sha co now token db = Inr (db', a)"
proof -
  obtain x where x: "authenticate sha co now token db = Inr x"
    using assms by (auto simp: authorize_content_def elim: bindR_InrE)
  show ?thesis using assms
    by (cases x) (auto simp: authorize_content_def x split: if_splits library_policy.splits option.splits
        elim!: bindR_InrE)
qed

lemma authorize_write_steps: "authorize_write env at token library section auth = Inr (auth', a)
    \<Longrightarrow> auth_steps (sv_sha env) auth auth'"
  using authorize_content_authenticates authenticate_steps unfolding authorize_write_def by blast

lemma require_operator_steps: "require_operator sha co now token library db = Inr (db', a) \<Longrightarrow> auth_steps sha db db'"
  using authenticate_steps by (fastforce simp: require_operator_def split: if_splits elim!: bindR_InrE)

section \<open>Side statements\<close>

lemma side_step: "side_statement db db' \<Longrightarrow> store_steps sha (db, tr) (db', tr)"
  by (rule store_steps_one) (rule store_step.side)

lemma first_page_id_steps:
  "first_page_id sha library occ title c n ordinal db = Inr (db', g) \<Longrightarrow> store_steps sha (db, tr) (db', tr)"
proof (induction n arbitrary: ordinal)
  case (Suc n)
  then obtain candidate taken where t: "(if taken then first_page_id sha library occ title c n (ordinal + 1) db
        else let c = c\<lparr>cc_next_ordinal := ordinal + 1\<rparr> in
          if \<not> new_counter_valid c then Inl BadValue
          else bindR (add_collision_counter c db) (\<lambda>db'. Inr (db', candidate))) = Inr (db', g)"
    by (auto split: if_splits elim!: bindR_InrE)
  show ?case
  proof (cases taken)
    case True
    then show ?thesis using t Suc.IH by simp
  next
    case False
    then obtain c' where "add_collision_counter c' db = Inr db'"
      using t by (auto simp: Let_def split: if_splits elim!: bindR_InrE)
    then show ?thesis by (intro side_step side_statement.counter)
  qed
qed simp

lemma next_page_id_steps:
  "next_page_id sha library occ title n c db = Inr (db', g) \<Longrightarrow> store_steps sha (db, tr) (db', tr)"
proof (induction n arbitrary: c db)
  case (Suc n)
  then obtain db1 c1 candidate taken where a: "advance_collision_counter c (cc_next_ordinal c + 1) db = Inr (db1, Some c1)"
    and t: "(if taken then next_page_id sha library occ title n c1 db1 else Inr (db1, candidate)) = Inr (db', g)"
    by (auto simp: Let_def split: if_splits option.splits elim!: bindR_InrE)
  have s: "store_steps sha (db, tr) (db1, tr)" using a by (intro side_step side_statement.advance)
  show ?case
  proof (cases taken)
    case True
    then show ?thesis using t Suc.IH store_steps_trans [OF s] by auto
  qed (use t s in auto)
qed simp

lemma allocate_page_id_steps:
  "allocate_page_id env library title at db = Inr (db', g) \<Longrightarrow> store_steps (sv_sha env) (db, tr) (db', tr)"
  using first_page_id_steps next_page_id_steps
  by (auto simp: allocate_page_id_def Let_def split: option.splits elim!: bindR_InrE)

lemma add_source_steps:
  "add_source env source library uid r at db = Inr (db', s) \<Longrightarrow> store_steps sha (db, tr) (db', tr)"
  by (auto simp: add_source_def Let_def split: if_splits elim!: bindR_InrE intro: side_step side_statement.source)

lemma add_audit_steps: "add_audit_event auth a db = Inr db' \<Longrightarrow> store_steps sha (db, tr) (db', tr)"
  by (auto simp: add_audit_event_def split: if_splits intro: side_step side_statement.audit)

lemma checked_Inr [simp]: "checked P x = Inr y \<longleftrightarrow> P x \<and> y = x"
  by (auto simp: checked_def)

section \<open>The operations\<close>

lemma create_rows_Inr:
  "add_page sha p d = Inr d1 \<Longrightarrow> add_revision r d1 = Inr d2 \<Longrightarrow> add_identifier i d2 = Inr d3
    \<Longrightarrow> create_rows sha p r i d = Inr d3"
  by (simp add: create_rows_def)

lemma insert_archive_Inr:
  assumes "insert_archive env at c book a auth db = Inr (db', p, r, s, citation, audit, response)"
  obtains db1 db4 db5 g uid rid content digest where
    "allocate_page_id env (cm_library_id c) (cm_title c) (case cm_occurred_at c of None \<Rightarrow> at | Some t \<Rightarrow> t) db
      = Inr (db1, g)"
    "p = fresh_page c book g uid rid (case cm_occurred_at c of None \<Rightarrow> at | Some t \<Rightarrow> t) at"
    "markdown_from_bytes (sv_sha env) (cm_content_md c) = Inr content"
    "r = markdown_revision (cm_library_id c) uid rid 1 content at"
    "registry_digest (sv_sha env) (pg_page_id p) = Inr digest"
    "create_rows (sv_sha env) p r (canonical_identifier (cm_library_id c) (pg_page_id p) digest uid at) db1 = Inr db4"
    "add_source env (cm_source c) (cm_library_id c) uid r at db4 = Inr (db5, s)"
    "fresh_response env p r (cm_request_id c) False (cm_occurred_at c = None) = Inr (response, citation)"
    "audit = service_audit (sv_ids env 1) (cm_library_id c) a (lit ''content.archive.create'') (lit ''page'')
            (pg_page_id p) (cm_request_id c) at"
    "add_audit_event auth audit db5 = Inr db'"
  using assms unfolding insert_archive_def Let_def
  by (elim bindR_InrE) (auto elim!: bindR_InrE intro!: that simp: create_rows_def simp del: One_nat_def)


lemma insert_archive_steps:
  assumes i: "insert_archive env at c book a auth db = Inr (db', p, r, s, citation, audit, response)"
  shows "store_steps (sv_sha env) (db, tr) (db', tr(page_key p := [state_of_page p]))"
proof -
  obtain db1 db4 db5 g uid rid content digest where
    a: "allocate_page_id env (cm_library_id c) (cm_title c) (case cm_occurred_at c of None \<Rightarrow> at | Some t \<Rightarrow> t) db
        = Inr (db1, g)"
    and p: "p = fresh_page c book g uid rid (case cm_occurred_at c of None \<Rightarrow> at | Some t \<Rightarrow> t) at"
    and r: "r = markdown_revision (cm_library_id c) uid rid 1 content at"
    and rows: "create_rows (sv_sha env) p r
        (canonical_identifier (cm_library_id c) (pg_page_id p) digest uid at) db1 = Inr db4"
    and so: "add_source env (cm_source c) (cm_library_id c) uid r at db4 = Inr (db5, s)"
    and au: "add_audit_event auth audit db5 = Inr db'"
    by (rule insert_archive_Inr [OF i])
  have "store_step (sv_sha env) (db1, tr) (db4, tr(page_key p := [state_of_page p]))"
    by (rule store_step.create [OF rows])
      (simp_all add: p r fresh_page_def markdown_revision_def rev_page_key_def page_key_def)
  then show ?thesis
    by (rule store_steps_trans [OF allocate_page_id_steps [OF a] store_steps_trans [OF store_steps_one
          store_steps_trans [OF add_source_steps [OF so] add_audit_steps [OF au]]]])
qed

text \<open>A transaction on a page of a well-formed store is a step: the trace of the page grows by the state
  of its new row.\<close>

lemma transaction_steps:
  assumes ok: "store_ok db schema tr" and sch: "schema \<in> set CALLER_MOVE_REVISIONS"
    and t: "page_transaction p db db'"
  obtains tr' where "store_steps sha (db, tr) (db', tr')"
proof -
  obtain new where "page_key new = page_key p" "new \<in> set (t_pages db')"
    using page_transaction_step [OF t ok sch] by blast
  then show ?thesis using that store_steps_one [OF store_step.change [OF t]] by blast
qed

lemma insert_appended_steps:
  assumes ok: "store_ok db schema tr" and sch: "schema \<in> set CALLER_MOVE_REVISIONS"
    and lib: "am_library_id c = pg_library_id p"
    and i: "insert_appended env at t c p a auth db = Inr (db', p', r, s, citation, audit, response)"
  obtains tr' where "store_steps (sv_sha env) (db, tr) (db', tr')"
proof -
  obtain rid content db1 db2 db3 where
    r: "r = markdown_revision (am_library_id c) (pg_page_uid p) rid (pg_current_revision_number p + 1) content t"
    and a: "add_revision r db = Inr db1" and u: "advance_current_revision p r t db1 = Inr (db2, Some p')"
    and so: "add_source env (am_source c) (am_library_id c) (pg_page_uid p) r at db2 = Inr (db3, s)"
    and au: "add_audit_event auth audit db3 = Inr db'"
    using i unfolding insert_appended_def Let_def
    by (auto elim!: bindR_InrE split: option.splits)
  have "page_transaction p db db2"
    by (rule page_transaction.append [OF _ _ a u])
      (simp_all add: r markdown_revision_def rev_page_key_def page_key_def lib)
  from transaction_steps [OF ok sch this] obtain tr' where "store_steps (sv_sha env) (db, tr) (db2, tr')" .
  then show ?thesis
    by (rule that [OF store_steps_trans [OF _ store_steps_trans [OF add_source_steps [OF so] add_audit_steps [OF au]]]])
qed

lemma insert_corrected_steps:
  assumes ok: "store_ok db schema tr" and sch: "schema \<in> set CALLER_MOVE_REVISIONS"
    and i: "insert_corrected env at c p a auth db = Inr (db', response)"
  obtains tr' where "store_steps (sv_sha env) (db, tr) (db', tr')"
proof -
  obtain command db1 updated row audit where
    u: "correct_occurrence_row p command db = Inr (db1, updated, row)"
    and au: "add_audit_event auth audit db1 = Inr db'"
    using i unfolding insert_corrected_def Let_def by (auto elim!: bindR_InrE)
  from transaction_steps [OF ok sch page_transaction.correct [OF u]]
  obtain tr' where "store_steps (sv_sha env) (db, tr) (db1, tr')" .
  then show ?thesis by (rule that [OF store_steps_trans [OF _ add_audit_steps [OF au]]])
qed

lemma insert_transition_steps:
  assumes ok: "store_ok db schema tr" and sch: "schema \<in> set CALLER_MOVE_REVISIONS"
    and i: "insert_transition env at c action p a auth db = Inr (db', response)"
  obtains tr' where "store_steps (sv_sha env) (db, tr) (db', tr')"
proof -
  obtain db1 updated event audit where
    u: "transition_page_lifecycle_row p action (Some (ca_id (ac_caller a))) (Some (ca_library_id (ac_caller a)))
        None (lm_request_id c) at db = Inr (db1, updated, event)"
    and au: "add_audit_event auth audit db1 = Inr db'"
    using i unfolding insert_transition_def Let_def by (auto elim!: bindR_InrE)
  from transaction_steps [OF ok sch page_transaction.lifecycle [OF u]]
  obtain tr' where "store_steps (sv_sha env) (db, tr) (db1, tr')" .
  then show ?thesis by (rule that [OF store_steps_trans [OF _ add_audit_steps [OF au]]])
qed

lemma record_success_steps:
  "record_success auth rows scope request response = Inr (rows', x) \<Longrightarrow> records_later rows rows'"
  by (cases x) (auto intro: records_later.intros)

section \<open>A request served\<close>

inductive service_step :: "service_env \<Rightarrow> app_db \<Rightarrow> app_db \<Rightarrow> bool" for env where
  created: "create_archive env token c key app = Inr (app', result) \<Longrightarrow> service_step env app app'"
| revised: "append_revision env token ca key app = Inr (app', result) \<Longrightarrow> service_step env app app'"
| corrected: "correct_occurrence env token co key app = Inr (app', response) \<Longrightarrow> service_step env app app'"
| transitioned: "transition_page_lifecycle env token cl key action app = Inr (app', response) \<Longrightarrow> service_step env app app'"
| restored: "restore_page_as_operator env token cl key app = Inr (app', response) \<Longrightarrow> service_step env app app'"

lemma persisted_Inr [simp]: "persisted r = Inr x \<longleftrightarrow> r = Inr x"
  by (cases r) (auto simp: persisted_def)

lemma app_runI:
  "store_steps sha (ap_content app, tr) (ap_content app', tr') \<Longrightarrow> auth_steps sha (ap_auth app) (ap_auth app')
   \<Longrightarrow> records_later (ap_records app) (ap_records app') \<Longrightarrow> app_run sha (app, tr) (app', tr')"
  by (simp add: app_run_def)

lemma app_run_auth: "auth_steps sha (ap_auth app) auth \<Longrightarrow> app_run sha (app, tr) (app\<lparr>ap_auth := auth\<rparr>, tr)"
  by (intro app_runI) (auto intro: records_later.refl)

lemma replay_create_run:
  assumes "replay_create env at token c scope request stored app = Inr (app', result)"
  shows "app_run (sv_sha env) (app, tr) (app', tr)"
proof -
  obtain auth p a where "app' = app\<lparr>ap_auth := auth\<rparr>"
    "authorize_write env at token (cm_library_id c) p (ap_auth app) = Inr (auth, a)"
    using assms unfolding replay_create_def Let_def by (auto elim!: bindR_InrE split: option.splits if_splits)
  then show ?thesis using app_run_auth authorize_write_steps by blast
qed

lemma create_archive_run:
  assumes i: "create_archive env token c key app = Inr (app', result)"
  obtains tr' where "app_run (sv_sha env) (app, tr) (app', tr')"
proof -
  obtain at auth a scope request stored where
    au: "authenticate (sv_sha env) LAST_USED_COALESCE_MICROSECONDS at token (ap_auth app) = Inr (auth, a)"
    and t: "(case stored of Some r \<Rightarrow> replay_create env at token c scope request r (app\<lparr>ap_auth := auth\<rparr>)
     | None \<Rightarrow>
         (case get_book_section (ap_content app) (cm_library_id c) (cm_book_id c) of
            None \<Rightarrow> Inl ArchiveNotFound
          | Some book \<Rightarrow>
              bindR (authorize_write env at token (cm_library_id c) (bk_section_id book) auth) (\<lambda>(auth', a').
              bindR (require_route_section (bk_section_id book) (cm_section_id c)) (\<lambda>_.
              bindR (lookup_replay (ap_records app) scope request) (\<lambda>rp.
              if rp \<noteq> None then Inl ReplayCorrupt
              else
                persisted
                  (bindR (insert_archive env at c book a' auth' (ap_content app))
                     (\<lambda>(db, p, r, s, citation, audit, response).
                   bindR (record_success auth' (ap_records app) scope request response) (\<lambda>(records, _).
                   Inr (\<lparr>ap_content = db, ap_auth = auth', ap_records = records\<rparr>,
                        ArchiveSuccess p r s citation audit response))))))))) = Inr (app', result)"
    using i unfolding create_archive_def by (auto elim!: bindR_InrE)
  note s1 = authenticate_steps [OF au]
  show ?thesis
  proof (cases stored)
    case (Some r)
    then have "replay_create env at token c scope request r (app\<lparr>ap_auth := auth\<rparr>) = Inr (app', result)"
      using t by simp
    show ?thesis
      by (rule that [OF app_run_trans [OF app_run_auth [OF s1] replay_create_run [OF \<open>replay_create _ _ _ _ _ _ _ _ = _\<close>]]])
  next
    case None
    then obtain book auth' a' db p r s citation audit response records x where
      aw: "authorize_write env at token (cm_library_id c) (bk_section_id book) auth = Inr (auth', a')"
      and ia: "insert_archive env at c book a' auth' (ap_content app) = Inr (db, p, r, s, citation, audit, response)"
      and rs: "record_success auth' (ap_records app) scope request response = Inr (records, x)"
      and app': "app' = \<lparr>ap_content = db, ap_auth = auth', ap_records = records\<rparr>"
      using t by (auto elim!: bindR_InrE split: option.splits if_splits)
    have "app_run (sv_sha env) (app, tr) (app', tr(page_key p := [state_of_page p]))"
      by (rule app_runI) (simp_all add: app' insert_archive_steps [OF ia] record_success_steps [OF rs]
          auth_steps_trans [OF s1 authorize_write_steps [OF aw]])
    then show ?thesis using that by blast
  qed
qed

lemma get_archive_page_library:
  assumes "get_archive_page env library page_id app = Inr p"
  shows "pg_library_id p = library"
  using assms by (auto simp: get_archive_page_def get_page_def archive_page_def find_Some_iff list_ex_iff page_key_def
      elim!: bindR_InrE split: option.splits if_splits)

lemma page_write_scope_steps:
  "page_write_scope env at token library p auth = Inr (auth', a, scope) \<Longrightarrow> auth_steps (sv_sha env) auth auth'"
  by (auto simp: page_write_scope_def elim!: bindR_InrE dest: authorize_write_steps)

lemma append_revision_run:
  assumes i: "append_revision env token c key app = Inr (app', result)"
    and ok: "store_ok (ap_content app) schema tr" and sch: "schema \<in> set CALLER_MOVE_REVISIONS"
  obtains tr' where "app_run (sv_sha env) (app, tr) (app', tr')"
proof -
  obtain p at auth a scope request found where
    gp: "get_archive_page env (am_library_id c) (am_page_id c) app = Inr p"
    and au: "page_write_scope env at token (am_library_id c) p (ap_auth app) = Inr (auth, a, scope)"
    and t: "(case found of
       Some r \<Rightarrow>
         bindR (optionR ReplayCorrupt (replay_body env r)) (\<lambda>body.
         bindR (validate_archive_replay env (ap_content app) p body r (am_section_id c) True) (\<lambda>_.
         Inr (app\<lparr>ap_auth := auth\<rparr>, ArchiveReplay body r)))
     | None \<Rightarrow>
         bindR (append_ready env c p at (ap_content app)) (\<lambda>revision_at.
         persisted
           (bindR (insert_appended env at revision_at c p a auth (ap_content app))
              (\<lambda>(db, p', r, s, citation, audit, response).
            bindR (record_success auth (ap_records app) scope request response) (\<lambda>(records, _).
            Inr (\<lparr>ap_content = db, ap_auth = auth, ap_records = records\<rparr>,
                 ArchiveSuccess p' r s citation audit response)))))) = Inr (app', result)"
    using i unfolding append_revision_def by (auto elim!: bindR_InrE)
  note s1 = page_write_scope_steps [OF au]
  show ?thesis
  proof (cases found)
    case (Some r)
    then have "app' = app\<lparr>ap_auth := auth\<rparr>" using t by (auto elim!: bindR_InrE)
    then show ?thesis using that app_run_auth [OF s1] by blast
  next
    case None
    then obtain revision_at db p' r s citation audit response records x where
      ia: "insert_appended env at revision_at c p a auth (ap_content app) = Inr (db, p', r, s, citation, audit, response)"
      and rs: "record_success auth (ap_records app) scope request response = Inr (records, x)"
      and app': "app' = \<lparr>ap_content = db, ap_auth = auth, ap_records = records\<rparr>"
      using t by (auto elim!: bindR_InrE)
    obtain tr' where "store_steps (sv_sha env) (ap_content app, tr) (db, tr')"
      by (rule insert_appended_steps [OF ok sch get_archive_page_library [OF gp, symmetric] ia])
    then have "app_run (sv_sha env) (app, tr) (app', tr')"
      by (intro app_runI) (simp_all add: app' s1 record_success_steps [OF rs])
    then show ?thesis using that by blast
  qed
qed

text \<open>The answer of an operation without a Revision: the recorded one, or that of the rows it writes.\<close>

lemma answered_run:
  assumes t: "(case found of
       Some r \<Rightarrow> bindR (check r) (\<lambda>_. Inr (app\<lparr>ap_auth := auth\<rparr>, r))
     | None \<Rightarrow>
         bindR ready (\<lambda>_.
         persisted
           (bindR written (\<lambda>(db, response).
            bindR (record_success auth (ap_records app) scope request response) (\<lambda>(records, _).
            Inr (\<lparr>ap_content = db, ap_auth = auth, ap_records = records\<rparr>, response)))))) = Inr (app', result)"
    and s1: "auth_steps sha (ap_auth app) auth"
    and w: "\<And>db response. written = Inr (db, response) \<Longrightarrow> \<exists>tr'. store_steps sha (ap_content app, tr) (db, tr')"
  shows "\<exists>tr'. app_run sha (app, tr) (app', tr')"
proof (cases found)
  case (Some r)
  then have "app' = app\<lparr>ap_auth := auth\<rparr>" using t by (auto elim!: bindR_InrE)
  then show ?thesis using app_run_auth [OF s1] by blast
next
  case None
  then obtain db response records x where ia: "written = Inr (db, response)"
    and rs: "record_success auth (ap_records app) scope request response = Inr (records, x)"
    and app': "app' = \<lparr>ap_content = db, ap_auth = auth, ap_records = records\<rparr>"
    using t by (auto elim!: bindR_InrE)
  obtain tr' where "store_steps sha (ap_content app, tr) (db, tr')" using w [OF ia] by blast
  then have "app_run sha (app, tr) (app', tr')"
    by (intro app_runI) (simp_all add: app' s1 record_success_steps [OF rs])
  then show ?thesis by blast
qed

lemma correct_occurrence_run:
  assumes i: "correct_occurrence env token c key app = Inr (app', result)"
    and ok: "store_ok (ap_content app) schema tr" and sch: "schema \<in> set CALLER_MOVE_REVISIONS"
  shows "\<exists>tr'. app_run (sv_sha env) (app, tr) (app', tr')"
proof -
  obtain p at auth a scope request found where
    au: "page_write_scope env at token (om_library_id c) p (ap_auth app) = Inr (auth, a, scope)"
    and t: "(case found of
       Some r \<Rightarrow> bindR (replay_correction env c p r (ap_content app)) (\<lambda>_. Inr (app\<lparr>ap_auth := auth\<rparr>, r))
     | None \<Rightarrow>
         bindR (occurrence_ready env c p) (\<lambda>_.
         persisted
           (bindR (insert_corrected env at c p a auth (ap_content app)) (\<lambda>(db, response).
            bindR (record_success auth (ap_records app) scope request response) (\<lambda>(records, _).
            Inr (\<lparr>ap_content = db, ap_auth = auth, ap_records = records\<rparr>, response)))))) = Inr (app', result)"
    using i unfolding correct_occurrence_def by (auto elim!: bindR_InrE)
  show ?thesis
    using answered_run [OF t page_write_scope_steps [OF au]] insert_corrected_steps [OF ok sch] by metis
qed

lemma transition_authorized_run:
  assumes i: "transition_authorized env p auth a c key action at app = Inr (app', result)"
    and s1: "auth_steps (sv_sha env) (ap_auth app) auth"
    and ok: "store_ok (ap_content app) schema tr" and sch: "schema \<in> set CALLER_MOVE_REVISIONS"
  shows "\<exists>tr'. app_run (sv_sha env) (app, tr) (app', tr')"
proof -
  obtain scope request found where
    t: "(case found of
       Some r \<Rightarrow> bindR (replay_lifecycle env c action p r (ap_content app)) (\<lambda>_. Inr (app\<lparr>ap_auth := auth\<rparr>, r))
     | None \<Rightarrow>
         bindR (lifecycle_ready env c action p) (\<lambda>_.
         persisted
           (bindR (insert_transition env at c action p a auth (ap_content app)) (\<lambda>(db, response).
            bindR (record_success auth (ap_records app) scope request response) (\<lambda>(records, _).
            Inr (\<lparr>ap_content = db, ap_auth = auth, ap_records = records\<rparr>, response)))))) = Inr (app', result)"
    using i unfolding transition_authorized_def by (auto elim!: bindR_InrE)
  show ?thesis using answered_run [OF t s1] insert_transition_steps [OF ok sch] by metis
qed

lemma service_step_run:
  assumes s: "service_step env app app'"
    and ok: "store_ok (ap_content app) schema tr" and sch: "schema \<in> set CALLER_MOVE_REVISIONS"
  shows "\<exists>tr'. app_run (sv_sha env) (app, tr) (app', tr')"
  using s
proof cases
  case (created token c key result)
  from create_archive_run [OF created] show ?thesis by blast
next
  case (revised token ca key result)
  from append_revision_run [OF revised ok sch] show ?thesis by blast
next
  case (corrected token co key response)
  show ?thesis by (rule correct_occurrence_run [OF corrected ok sch])
next
  case (transitioned token cl key action response)
  then obtain p at auth a where t: "transition_authorized env p auth a cl key action at app = Inr (app', response)"
    and "authorize_write env at token (lm_library_id cl) (pg_section_id p) (ap_auth app) = Inr (auth, a)"
    unfolding transition_page_lifecycle_def by (auto elim!: bindR_InrE)
  then show ?thesis using transition_authorized_run [OF t authorize_write_steps ok sch] by blast
next
  case (restored token cl key response)
  then obtain p at auth a where
    t: "transition_authorized env p auth a cl key (lit ''restore'') at app = Inr (app', response)"
    and "require_operator (sv_sha env) LAST_USED_COALESCE_MICROSECONDS at token (lm_library_id cl) (ap_auth app)
      = Inr (auth, a)"
    unfolding restore_page_as_operator_def by (auto elim!: bindR_InrE)
  then show ?thesis using transition_authorized_run [OF t require_operator_steps ok sch] by blast
qed

lemma newest_schema_moves: "lit ''20261020_0037'' \<in> set CALLER_MOVE_REVISIONS"
  by code_simp

end
