(* ===== verification/FileSetService.thy ===== *)
theory FileSetService
  imports FileSets Presentation ArchiveSteps
begin

text \<open>
  \<open>content/file_set_service.py\<close> and \<open>content/file_set_create_core.py\<close>: appending a complete file
  snapshot to a page, and creating a page with a first snapshot. Both run inside the transaction of
  their caller and undo their own savepoint when they fail.
\<close>

text \<open>The exceptions of the two modules next to those of the manifest and of the store.\<close>

datatype file_set_error =
    FileSetPageNotFound
  | FileSetPreconditionFailed
  | SnapshotDiffers
  | FileSetIdentifiersExhausted
  | BadFiles file_error
  | StoreError archive_error

type_synonym 'a file_set = "file_set_error + 'a"

abbreviation storeE :: "'a sql \<Rightarrow> 'a file_set" where
  "storeE r \<equiv> mapE StoreError r"

section \<open>Appending a snapshot\<close>

record append_result =
  fa_changed :: bool
  fa_page :: page
  fa_etag :: pystr
  fa_manifest :: file_manifest

record file_set_append =
  sa_library_id :: pystr
  sa_page_id :: pystr
  sa_expected_etag :: pystr
  sa_files :: "(pystr \<times> bytes) list"
  sa_revision_id :: pystr
  sa_revision_at :: int
  sa_source :: page_source
  sa_primary_file :: "pystr option"
  sa_override :: "presentation option"

definition chosen_presentation ::
  "unicode_data \<Rightarrow> (pystr \<Rightarrow> md_token list) \<Rightarrow> file_set_append \<Rightarrow> file_manifest \<Rightarrow> presentation sql" where
  "chosen_presentation u parse a m =
     bindR (presentation_for u parse m (sa_primary_file a)) (\<lambda>p.
     case sa_override a of
       None \<Rightarrow> Inr p
     | Some o' \<Rightarrow>
         if pn_primary_file o' \<noteq> sa_primary_file a \<or> strip (pn_display_title o') = []
            \<or> 0 \<in> set (pn_display_title o')
         then Inl BadValue else Inr o')"

definition append_target :: "file_set_append \<Rightarrow> page \<Rightarrow> page_source \<Rightarrow> unit sql" where
  "append_target a p s =
     bindR (mapE (\<lambda>_. BadValue) (validate_revision_id (sa_revision_id a))) (\<lambda>_.
     if pg_current_revision_number p \<ge> MAX_REVISION_NUMBER then Inl BadValue
     else if sa_revision_at a \<le> pg_updated_at p then Inl BadValue
     else bindR (bad_value (canonical_utc_wire (sa_revision_at a))) (\<lambda>_.
       if \<not> new_source_valid s
          \<or> so_library_id s \<noteq> pg_library_id p \<or> so_page_uid s \<noteq> pg_page_uid p
          \<or> so_revision_id s \<noteq> sa_revision_id a
          \<or> so_revision_number s \<noteq> pg_current_revision_number p + 1
       then Inl BadValue else Inr ()))"

definition write_snapshot ::
  "unicode_data \<Rightarrow> (bytes \<Rightarrow> bytes) \<Rightarrow> file_set_append \<Rightarrow> page \<Rightarrow> file_manifest \<Rightarrow> presentation \<Rightarrow> archive_db
    \<Rightarrow> (archive_db \<times> append_result) file_set" where
  "write_snapshot u sha a p m pres db =
     bindR (storeE (add_file_set_revision p (sa_revision_id a) (sa_revision_at a) m (ad_content db))) (\<lambda>c1.
     bindR (storeE (add_source_row (sa_source a) c1)) (\<lambda>c2.
     bindR (storeE (save_presentation (pg_library_id p, pg_page_uid p, sa_revision_id a,
         pg_current_revision_number p + 1) pres (db\<lparr>ad_content := c2\<rparr>))) (\<lambda>db3.
     bindR (storeE (advance_file_set_current_revision p (sa_revision_id a) (sa_revision_at a) (ad_content db3)))
       (\<lambda>(c4, advanced).
     case advanced of
       None \<Rightarrow> Inl FileSetPreconditionFailed
     | Some q \<Rightarrow>
         bindR (storeE (get_current_file_manifest u sha c4 q)) (\<lambda>readback.
         if readback \<noteq> m then Inl SnapshotDiffers
         else bindR (storeE (page_etag sha q)) (\<lambda>etag.
           Inr (db3\<lparr>ad_content := c4\<rparr>,
             \<lparr>fa_changed = True, fa_page = q, fa_etag = etag, fa_manifest = readback\<rparr>)))))))"

definition append_existing_page ::
  "unicode_data \<Rightarrow> (bytes \<Rightarrow> bytes) \<Rightarrow> (pystr \<Rightarrow> md_token list) \<Rightarrow> bool \<Rightarrow> file_set_append \<Rightarrow> archive_db
    \<Rightarrow> (archive_db \<times> append_result) file_set" where
  "append_existing_page u sha parse in_transaction a db =
     (if \<not> in_transaction then Inl (StoreError TransactionRequired)
      else
        bindR (mapE BadFiles (build_file_manifest u sha (sa_files a))) (\<lambda>m.
        bindR (storeE (chosen_presentation u parse a m)) (\<lambda>pres.
        bindR (storeE (get_page sha (ad_content db) (sa_library_id a) (sa_page_id a))) (\<lambda>found.
        case found of
          None \<Rightarrow> Inl FileSetPageNotFound
        | Some p \<Rightarrow>
            if pg_deleted_at p \<noteq> None then Inl FileSetPageNotFound
            else
              bindR (storeE (page_etag sha p)) (\<lambda>etag.
              if \<not> isascii (sa_expected_etag a) then Inl (StoreError BadValue)
              else if sa_expected_etag a \<noteq> etag then Inl FileSetPreconditionFailed
              else
                bindR (storeE (get_current_file_manifest u sha (ad_content db) p)) (\<lambda>current.
                if m = current \<and> pres = read_presentation db (pg_library_id p) (pg_page_uid p)
                     (pg_current_revision_id p)
                then Inr (db, \<lparr>fa_changed = False, fa_page = p, fa_etag = etag, fa_manifest = current\<rparr>)
                else bindR (storeE (append_target a p (sa_source a))) (\<lambda>_.
                  write_snapshot u sha a p m pres db)))))))"

section \<open>Creating a page with a snapshot\<close>

fun create_error :: "archive_error \<Rightarrow> file_set_error" where
  "create_error IdentifierExhausted = FileSetIdentifiersExhausted"
| "create_error IdentifierGenerationFailed = FileSetIdentifiersExhausted"
| "create_error ArchivePersistence = FileSetIdentifiersExhausted"
| "create_error e = StoreError e"

definition initial_page ::
  "book_row \<Rightarrow> pystr \<Rightarrow> generated_page_id \<Rightarrow> bytes \<Rightarrow> pystr \<Rightarrow> int \<Rightarrow> int \<Rightarrow> page" where
  "initial_page book title g uid rid occurred_at at =
     \<lparr>pg_library_id = bk_library_id book, pg_page_uid = uid, pg_section_id = bk_section_id book,
      pg_book_id = bk_id book, pg_page_id = gp_value g, pg_id_scheme = PAGE_ID_SCHEME,
      pg_id_timestamp_micros = occurred_at div 1000 * 1000, pg_base_slug = gp_base_slug g,
      pg_collision_ordinal = gp_collision_ordinal g, pg_title = title,
      pg_page_type = lit ''archive'', pg_occurred_at = occurred_at, pg_current_revision_id = rid,
      pg_current_revision_number = 1, pg_created_at = at, pg_updated_at = at, pg_deleted_at = None\<rparr>"

definition insert_initial_revision :: "page \<Rightarrow> file_manifest \<Rightarrow> content_db \<Rightarrow> content_db sql" where
  "insert_initial_revision p m db =
     (let k = (pg_library_id p, pg_page_uid p, pg_current_revision_id p, 1) in
      bindR (insert_revision
        \<lparr>rv_library_id = pg_library_id p, rv_revision_id = pg_current_revision_id p,
         rv_page_uid = pg_page_uid p, rv_revision_number = 1, rv_content_md = None,
         rv_content_size_bytes = None, rv_content_sha256 = None, rv_created_at = pg_created_at p\<rparr> db) (\<lambda>db1.
      bindR (insert_file_set (file_set_row k m) db1) (\<lambda>db2.
      bindR (insert_files (file_rows k m) db2) (insert_seal k))))"

definition initial_source :: "service_env \<Rightarrow> archive_source \<Rightarrow> page \<Rightarrow> int \<Rightarrow> page_source" where
  "initial_source env source p at =
     \<lparr>so_library_id = pg_library_id p, so_source_id = sv_ids env 0, so_page_uid = pg_page_uid p,
      so_revision_id = pg_current_revision_id p, so_revision_number = 1, so_kind = as_kind source,
      so_locator = as_locator source, so_captured_at = as_captured_at source, so_created_at = at\<rparr>"

definition create_page ::
  "unicode_data \<Rightarrow> (pystr \<Rightarrow> md_token list) \<Rightarrow> service_env \<Rightarrow> book_row \<Rightarrow> pystr \<Rightarrow> int \<Rightarrow> int \<Rightarrow> file_manifest
    \<Rightarrow> archive_source \<Rightarrow> pystr option \<Rightarrow> archive_db \<Rightarrow> (archive_db \<times> page) file_set" where
  "create_page u parse env book title occurred_at at m source primary db =
     (if \<not> sv_in_transaction env then Inl (StoreError TransactionRequired)
      else
        let sha = sv_sha env; library = bk_library_id book in
        bindR (mapE BadFiles (file_manifest_check u sha m)) (\<lambda>_.
        bindR (storeE (presentation_for u parse m primary)) (\<lambda>pres.
        bindR (storeE (bad_value (canonical_utc_wire occurred_at))) (\<lambda>_.
        bindR (storeE (bad_value (canonical_utc_wire at))) (\<lambda>_.
        bindR (mapE create_error (allocate_page_id env library title occurred_at (ad_content db))) (\<lambda>(c1, g).
        bindR (mapE create_error (allocate_page_uid env library c1)) (\<lambda>uid.
        bindR (mapE create_error (allocate_revision_id env library c1)) (\<lambda>rid.
        let p = initial_page book title g uid rid occurred_at at in
        bindR (storeE (add_page sha p c1)) (\<lambda>c2.
        bindR (storeE (insert_initial_revision p m c2)) (\<lambda>c3.
        bindR (storeE (save_presentation (current_key p) pres (db\<lparr>ad_content := c3\<rparr>))) (\<lambda>db4.
        bindR (storeE (registry_digest sha (pg_page_id p))) (\<lambda>digest.
        let i = canonical_identifier library (pg_page_id p) digest uid at; s = initial_source env source p at in
        if \<not> new_identifier_valid sha i then Inl (StoreError BadValue)
        else bindR (storeE (add_identifier i (ad_content db4))) (\<lambda>c5.
        if \<not> new_source_valid s then Inl (StoreError BadValue)
        else bindR (storeE (add_source_row s c5)) (\<lambda>c6.
        bindR (storeE (get_current_file_manifest u sha c6 p)) (\<lambda>stored.
        if stored \<noteq> m then Inl SnapshotDiffers
        else Inr (db4\<lparr>ad_content := c6\<rparr>, p))))))))))))))))"

end
