(* ===== verification/FileSetSteps.thy ===== *)
theory FileSetSteps
  imports FileSetService
begin

text \<open>
  Appending and creating snapshots as transactions of the content store, and the reading back of what
  they wrote.
\<close>

section \<open>Statements that do not see each other\<close>

lemma record_sources:
  "record_occurrence old new (db\<lparr>t_sources := xs\<rparr>) = map_sum id (\<lambda>d. d\<lparr>t_sources := xs\<rparr>) (record_occurrence old new db)"
  "record_lifecycle old new (db\<lparr>t_sources := xs\<rparr>) = map_sum id (\<lambda>d. d\<lparr>t_sources := xs\<rparr>) (record_lifecycle old new db)"
  "record_title old new (db\<lparr>t_sources := xs\<rparr>) = map_sum id (\<lambda>d. d\<lparr>t_sources := xs\<rparr>) (record_title old new db)"
  "record_move old new (db\<lparr>t_sources := xs\<rparr>) = map_sum id (\<lambda>d. d\<lparr>t_sources := xs\<rparr>) (record_move old new db)"
  unfolding record_occurrence_def record_lifecycle_def record_title_def record_move_def Let_def
  by (auto simp: title_audits_def title_event_ok_def split: option.splits list.splits)

lemma before_update_sources: "before_page_update (db\<lparr>t_sources := xs\<rparr>) old new = before_page_update db old new"
  by (simp add: before_page_update_def revision_advance_ok_def occurrence_guarded_def lifecycle_guarded_def
      title_audited_def title_audits_def move_guarded_def)

lemma bind_map_sum: "bindR (map_sum id g r) k = bindR r (\<lambda>x. k (g x))"
  by (cases r) auto

lemma map_sum_bind: "map_sum id h (bindR r k) = bindR r (\<lambda>x. map_sum id h (k x))"
  by (cases r) auto

lemma update_pages_sources:
  "update_pages c f (db\<lparr>t_sources := xs\<rparr>) = map_sum id (\<lambda>(d, n). (d\<lparr>t_sources := xs\<rparr>, n)) (update_pages c f db)"
proof (cases "find c (t_pages db)")
  case None
  then show ?thesis by (simp add: update_pages_def)
next
  case (Some old)
  have s: "clear_append_guard old new (set_page new (db\<lparr>t_sources := xs\<rparr>))
      = (clear_append_guard old new (set_page new db))\<lparr>t_sources := xs\<rparr>" for new
    by (simp add: clear_append_guard_def set_page_def)
  have b: "book_exists (db\<lparr>t_sources := xs\<rparr>) l i j = book_exists db l i j" for l i j
    by (simp add: book_exists_def)
  show ?thesis using Some
    by (simp add: update_pages_def Let_def before_update_sources s b record_sources bind_map_sum map_sum_bind)
qed

lemma insert_file_set_identifiers:
  "insert_file_set s (db\<lparr>t_identifiers := xs\<rparr>) = map_sum id (\<lambda>d. d\<lparr>t_identifiers := xs\<rparr>) (insert_file_set s db)"
  by (simp add: insert_file_set_def)

lemma insert_seal_identifiers:
  "insert_seal k (db\<lparr>t_identifiers := xs\<rparr>) = map_sum id (\<lambda>d. d\<lparr>t_identifiers := xs\<rparr>) (insert_seal k db)"
  by (simp add: insert_seal_def seal_complete_def)

lemma insert_file_identifiers:
  "insert_file f (db\<lparr>t_identifiers := xs\<rparr>) = map_sum id (\<lambda>d. d\<lparr>t_identifiers := xs\<rparr>) (insert_file f db)"
proof -
  have r: "revision_exists (db\<lparr>t_identifiers := xs\<rparr>) k = revision_exists db k" for k
    by (simp add: revision_exists_def)
  have c: "db\<lparr>t_identifiers := xs, t_files := fs\<rparr> = (db\<lparr>t_files := fs\<rparr>)\<lparr>t_identifiers := xs\<rparr>" for fs by simp
  show ?thesis by (simp add: insert_file_def Let_def r c insert_seal_identifiers del: content_db.update_convs)
qed

lemma insert_files_identifiers:
  "insert_files fs (db\<lparr>t_identifiers := xs\<rparr>) = map_sum id (\<lambda>d. d\<lparr>t_identifiers := xs\<rparr>) (insert_files fs db)"
  by (induction fs arbitrary: db) (simp_all add: insert_file_identifiers bind_map_sum map_sum_bind)

lemma mapE_Inl: "mapE h r = Inl e \<longleftrightarrow> (\<exists>x. r = Inl x \<and> e = h x)"
  by (cases r) auto

lemma create_error_not_differs [simp]: "create_error e \<noteq> SnapshotDiffers" "SnapshotDiffers \<noteq> create_error e"
  by (cases e; simp)+

section \<open>The operations as steps of the store\<close>

lemma file_steps: "insert_files fs db = Inr db' \<Longrightarrow> store_steps sha (db, tr) (db', tr)"
proof (induction fs arbitrary: db)
  case (Cons f fs)
  then obtain d where "insert_file f db = Inr d" "insert_files fs d = Inr db'" by (auto simp: result_simps)
  then show ?case using Cons.IH store_steps_trans side_step [OF side_statement.stored_file] by blast
qed simp

lemma write_snapshot_Inr:
  assumes "write_snapshot u sha a p m pres db = Inr (db', res)"
  obtains c1 c2 db3 c4 q where
    "add_file_set_revision p (sa_revision_id a) (sa_revision_at a) m (ad_content db) = Inr c1"
    "add_source_row (sa_source a) c1 = Inr c2"
    "save_presentation (pg_library_id p, pg_page_uid p, sa_revision_id a, pg_current_revision_number p + 1) pres
       (db\<lparr>ad_content := c2\<rparr>) = Inr db3"
    "advance_file_set_current_revision p (sa_revision_id a) (sa_revision_at a) (ad_content db3) = Inr (c4, Some q)"
    "get_current_file_manifest u sha c4 q = Inr m" "page_etag sha q = Inr (fa_etag res)"
    "ad_content db' = c4" "fa_page res = q" "fa_manifest res = m" "fa_changed res"
  using assms that
  by (auto simp: write_snapshot_def result_simps split: option.splits if_splits)

lemma update_pages_keeps_sources:
  assumes u: "update_pages c f db = Inr (d, n)"
  shows "t_sources d = t_sources db"
proof -
  have "update_pages c f (db\<lparr>t_sources := t_sources db\<rparr>) = Inr (d\<lparr>t_sources := t_sources db\<rparr>, n)"
    unfolding update_pages_sources by (simp add: u)
  then have "d = d\<lparr>t_sources := t_sources db\<rparr>" using u by simp
  from arg_cong [OF this, of t_sources] show ?thesis by simp
qed

lemma add_file_set_revision_pages:
  assumes "add_file_set_revision p rid at m db = Inr db'"
  shows "t_pages db' = t_pages db"
proof -
  obtain d1 d2 d3 r s fs k where "insert_revision r db = Inr d1" "insert_file_set s d1 = Inr d2"
    "insert_files fs d2 = Inr d3" "insert_seal k d3 = Inr db'"
    using assms by (rule add_file_set_revision_writes)
  then show ?thesis
    using insert_revision_pages file_tables_only_tables(2) [OF insert_file_set_tables]
      file_tables_only_tables(2) [OF insert_files_tables] file_tables_only_tables(2) [OF insert_seal_tables] by metis
qed

lemma reachable_steps_pages:
  assumes "reachable sha db tr" "store_steps sha (db, tr) (db', tr')" "page_exists db k"
  shows "page_exists db' k"
proof -
  have "store_extends (db, tr) (db', tr')"
    using store_steps_keep [OF assms(2) reachable_store_ok [OF assms(1) newest_schema_moves]
        reachable_unique [OF assms(1)] newest_schema_moves] by blast
  then show ?thesis using assms(3) unfolding store_extends_def fst_conv by blast
qed

lemma file_set_transaction_steps:
  assumes r: "reachable sha db tr" and at: "pg_updated_at p < at"
    and a: "add_file_set_revision p rid at m db = Inr c1" and s: "add_source_row s c1 = Inr c2"
    and v: "advance_file_set_current_revision p rid at c2 = Inr (c4, Some q)"
  obtains tr' where "store_steps sha (db, tr) (c4, tr')"
proof -
  let ?xs = "t_sources c1 @ [s]"
  have c2: "c2 = c1\<lparr>t_sources := ?xs\<rparr>" and chk: "source_check s"
    "page_exists c1 (so_library_id s, so_page_uid s)"
    "revision_exists c1 (so_library_id s, so_page_uid s, so_revision_id s, so_revision_number s)"
    "\<not> list_ex (\<lambda>x. so_library_id x = so_library_id s \<and> so_source_id x = so_source_id s) (t_sources c1)"
    using s by (auto simp: add_source_row_def insert_source_def split: if_splits)
  obtain c f n where u2: "update_pages c f c2 = Inr (c4, n)" "n = 1"
    and v': "advance_file_set_current_revision p rid at d = bindR (update_pages c f d)
      (\<lambda>(db', n). Inr (db', if n \<noteq> 1 then None else Some q))" for d
    using v by (auto simp: advance_file_set_current_revision_def Let_def result_simps split: if_splits)
  obtain c4' where u1: "update_pages c f c1 = Inr (c4', 1)" and c4: "c4 = c4'\<lparr>t_sources := ?xs\<rparr>"
    using u2 by (cases "update_pages c f c1") (auto simp: c2 update_pages_sources)
  have "advance_file_set_current_revision p rid at c1 = Inr (c4', Some q)" using u1 by (simp add: v')
  then have t: "page_transaction p db c4'" using page_transaction.append_files [OF at a] by blast
  obtain tr' where st: "store_steps sha (db, tr) (c4', tr')" 
    by (rule transaction_steps [OF reachable_store_ok [OF r newest_schema_moves] newest_schema_moves t])
  have "page_exists db (so_library_id s, so_page_uid s)"
    using chk(2) add_file_set_revision_pages [OF a] by (simp add: page_exists_def)
  then have "page_exists c4' (so_library_id s, so_page_uid s)"
    using reachable_steps_pages [OF r st] by blast
  moreover have "t_sources c4' = t_sources c1" by (rule update_pages_keeps_sources [OF u1])
  moreover have "revision_exists c4' k = revision_exists c1 k" for k
    using update_pages_rows [OF u1] by (simp add: revision_exists_def)
  ultimately have "insert_source s c4' = Inr c4" using chk by (simp add: insert_source_def c4)
  then have "side_statement c4' c4" by (intro side_statement.source) (simp add: add_source_row_def)
  then show ?thesis using that store_steps_trans [OF st side_step] by blast
qed

lemma advance_file_set_page:
  assumes "advance_file_set_current_revision p rid at db = Inr (db', Some q)"
  shows "current_key q = (pg_library_id p, pg_page_uid p, rid, pg_current_revision_number p + 1)"
    "q = p\<lparr>pg_current_revision_id := rid, pg_current_revision_number := pg_current_revision_number p + 1,
      pg_updated_at := at\<rparr>" "files_extend db db'"
  using assms update_pages_extend
  by (auto simp: advance_file_set_current_revision_def Let_def result_simps current_key_def split: if_splits)

lemma add_source_extend: "add_source_row s db = Inr db' \<Longrightarrow> files_extend db db'"
  by (auto simp: add_source_row_def insert_source_def split: if_splits intro!: same_files_extend)

text \<open>What the service writes is what it reads back.\<close>

lemma written_snapshot_read:
  assumes u: "nfc_stable u" and sha: "\<And>b. length (sha b) = 32" and c: "file_manifest_check u sha m = Inr ()"
    and o: "files_owned db" and a: "add_file_set_revision p rid at m db = Inr c1"
    and s: "add_source_row s c1 = Inr c2" and v: "advance_file_set_current_revision p rid at c2 = Inr (c4, Some q)"
  shows "get_current_file_manifest u sha c4 q = Inr m"
proof -
  have "get_current_file_manifest u sha c1 q = Inr m"
    by (rule file_set_revision_read [where sha = sha, OF u sha c o a advance_file_set_page(1) [OF v]])
  then show ?thesis
    using sealed_manifest_kept files_extend_trans add_source_extend [OF s] advance_file_set_page(3) [OF v] by blast
qed

lemma append_existing_page_Inr:
  assumes "append_existing_page u sha parse tx a db = Inr (db', res)"
  obtains m p where "build_file_manifest u sha (sa_files a) = Inr m"
    "get_page sha (ad_content db) (sa_library_id a) (sa_page_id a) = Inr (Some p)" "pg_deleted_at p = None"
    "page_etag sha p = Inr (sa_expected_etag a)" "fa_manifest res = m"
    "(db' = db \<and> \<not> fa_changed res \<and> fa_page res = p \<and> get_current_file_manifest u sha (ad_content db) p = Inr m)
     \<or> (fa_changed res \<and> pg_updated_at p < sa_revision_at a
        \<and> (\<exists>pres. write_snapshot u sha a p m pres db = Inr (db', res)))"
proof -
  have "\<exists>m pres p current. build_file_manifest u sha (sa_files a) = Inr m
      \<and> get_page sha (ad_content db) (sa_library_id a) (sa_page_id a) = Inr (Some p) \<and> pg_deleted_at p = None
      \<and> page_etag sha p = Inr (sa_expected_etag a) \<and> get_current_file_manifest u sha (ad_content db) p = Inr current
      \<and> ((m = current \<and> db' = db
          \<and> res = \<lparr>fa_changed = False, fa_page = p, fa_etag = sa_expected_etag a, fa_manifest = current\<rparr>)
        \<or> (append_target a p (sa_source a) = Inr () \<and> write_snapshot u sha a p m pres db = Inr (db', res)))"
    using assms unfolding append_existing_page_def
    by (auto simp: mapE_Inr elim!: bindR_InrE split: option.splits if_splits)
  then obtain m pres p current where
    m: "build_file_manifest u sha (sa_files a) = Inr m"
    and p: "get_page sha (ad_content db) (sa_library_id a) (sa_page_id a) = Inr (Some p)" "pg_deleted_at p = None"
    and e: "page_etag sha p = Inr (sa_expected_etag a)"
    and cur: "get_current_file_manifest u sha (ad_content db) p = Inr current"
    and r: "(m = current \<and> db' = db
        \<and> res = \<lparr>fa_changed = False, fa_page = p, fa_etag = sa_expected_etag a, fa_manifest = current\<rparr>)
      \<or> (append_target a p (sa_source a) = Inr () \<and> write_snapshot u sha a p m pres db = Inr (db', res))"
    by blast
  show ?thesis using r
  proof
    assume "m = current \<and> db' = db
        \<and> res = \<lparr>fa_changed = False, fa_page = p, fa_etag = sa_expected_etag a, fa_manifest = current\<rparr>"
    then show ?thesis using cur by (intro that [OF m p e]) auto
  next
    assume w: "append_target a p (sa_source a) = Inr () \<and> write_snapshot u sha a p m pres db = Inr (db', res)"
    then have "pg_updated_at p < sa_revision_at a"
      by (auto simp: append_target_def result_simps split: if_splits)
    then show ?thesis using w by (intro that [OF m p e]) (auto elim: write_snapshot_Inr)
  qed
qed

text \<open>Creation writes the first Revision like an appended one of a page at number zero.\<close>

lemma insert_initial_revision_eq:
  "insert_initial_revision p m db =
     add_file_set_revision (p\<lparr>pg_current_revision_number := 0\<rparr>) (pg_current_revision_id p) (pg_created_at p) m db"
  by (simp add: insert_initial_revision_def add_file_set_revision_def Let_def file_set_row_def file_rows_def)

lemma create_page_Inr:
  assumes "create_page u parse env book title occurred_at at m source primary db = Inr (db', p)"
  obtains c1 g uid rid c2 c3 c5 digest where "file_manifest_check u (sv_sha env) m = Inr ()"
    "allocate_page_id env (bk_library_id book) title occurred_at (ad_content db) = Inr (c1, g)"
    "p = initial_page book title g uid rid occurred_at at" "add_page (sv_sha env) p c1 = Inr c2"
    "insert_initial_revision p m c2 = Inr c3"
    "add_identifier (canonical_identifier (bk_library_id book) (pg_page_id p) digest uid at) c3 = Inr c5"
    "add_source_row (initial_source env source p at) c5 = Inr (ad_content db')"
    "get_current_file_manifest u (sv_sha env) (ad_content db') p = Inr m"
proof -
  have "\<exists>c1 g uid rid c2 c3 c5 digest. file_manifest_check u (sv_sha env) m = Inr ()
    \<and> allocate_page_id env (bk_library_id book) title occurred_at (ad_content db) = Inr (c1, g)
    \<and> p = initial_page book title g uid rid occurred_at at \<and> add_page (sv_sha env) p c1 = Inr c2
    \<and> insert_initial_revision p m c2 = Inr c3
    \<and> add_identifier (canonical_identifier (bk_library_id book) (pg_page_id p) digest uid at) c3 = Inr c5
    \<and> add_source_row (initial_source env source p at) c5 = Inr (ad_content db')
    \<and> get_current_file_manifest u (sv_sha env) (ad_content db') p = Inr m"
    using assms unfolding create_page_def Let_def
    by (auto simp: mapE_Inr elim!: bindR_InrE split: if_splits dest!: save_presentation_content) blast
  then show ?thesis using that by blast
qed

lemma create_page_steps:
  assumes "create_page u parse env book title occurred_at at m source primary db = Inr (db', p)"
  shows "store_steps (sv_sha env) (ad_content db, tr) (ad_content db', tr(page_key p := [state_of_page p]))"
proof -
  obtain c1 g uid rid c2 c3 c5 digest where
    a: "allocate_page_id env (bk_library_id book) title occurred_at (ad_content db) = Inr (c1, g)"
    and p: "p = initial_page book title g uid rid occurred_at at" and b: "add_page (sv_sha env) p c1 = Inr c2"
    and c: "insert_initial_revision p m c2 = Inr c3"
    and d: "add_identifier (canonical_identifier (bk_library_id book) (pg_page_id p) digest uid at) c3 = Inr c5"
    and e: "add_source_row (initial_source env source p at) c5 = Inr (ad_content db')"
    by (rule create_page_Inr [OF assms])
  let ?i = "canonical_identifier (bk_library_id book) (pg_page_id p) digest uid at"
  let ?r = "\<lparr>rv_library_id = pg_library_id p, rv_revision_id = pg_current_revision_id p,
      rv_page_uid = pg_page_uid p, rv_revision_number = 1, rv_content_md = None,
      rv_content_size_bytes = None, rv_content_sha256 = None, rv_created_at = pg_created_at p\<rparr>"
  let ?k = "(pg_library_id p, pg_page_uid p, pg_current_revision_id p, 1)"
  obtain d1 d2 d3 where i: "insert_revision ?r c2 = Inr d1" and s: "insert_file_set (file_set_row ?k m) d1 = Inr d2"
    and f: "insert_files (file_rows ?k m) d2 = Inr d3" and l: "insert_seal ?k d3 = Inr c3"
    using c by (auto simp: insert_initial_revision_def Let_def result_simps)
  have t: "file_tables_only d1 c3"
    using insert_file_set_tables [OF s] insert_files_tables [OF f] insert_seal_tables [OF l]
      file_tables_only_trans by blast
  let ?x = "t_identifiers d1 @ [?i]"
  have "insert_identifier ?i d1 = Inr (d1\<lparr>t_identifiers := ?x\<rparr>)" and c5: "c5 = c3\<lparr>t_identifiers := ?x\<rparr>"
    using d file_tables_only_tables(2,14) [OF t]
    by (auto simp: add_identifier_def insert_identifier_def page_exists_def Let_def split: if_splits)
  then have rows: "create_rows (sv_sha env) p ?r ?i c1 = Inr (d1\<lparr>t_identifiers := ?x\<rparr>)"
    using b i by (simp add: create_rows_def add_revision_def add_identifier_def)
  have step: "store_step (sv_sha env) (c1, tr) (d1\<lparr>t_identifiers := ?x\<rparr>, tr(page_key p := [state_of_page p]))"
    by (rule store_step.create [OF rows]) (simp_all add: p initial_page_def rev_page_key_def page_key_def)
  have 1: "insert_file_set (file_set_row ?k m) (d1\<lparr>t_identifiers := ?x\<rparr>) = Inr (d2\<lparr>t_identifiers := ?x\<rparr>)"
    by (simp add: insert_file_set_identifiers s)
  have 2: "insert_files (file_rows ?k m) (d2\<lparr>t_identifiers := ?x\<rparr>) = Inr (d3\<lparr>t_identifiers := ?x\<rparr>)"
    by (simp add: insert_files_identifiers f)
  have 3: "insert_seal ?k (d3\<lparr>t_identifiers := ?x\<rparr>) = Inr c5"
    by (simp add: insert_seal_identifiers l c5)
  show ?thesis
    by (rule store_steps_trans [OF allocate_page_id_steps [OF a] store_steps_trans [OF store_steps_one [OF step]
        store_steps_trans [OF side_step [OF side_statement.file_set [OF 1]] store_steps_trans [OF file_steps [OF 2]
        store_steps_trans [OF side_step [OF side_statement.seal [OF 3]] side_step [OF side_statement.source [OF e]]]]]]])
qed

lemma created_snapshot_read:
  assumes u: "nfc_stable u" and sha: "\<And>b. length (sha b) = 32" and c: "file_manifest_check u sha m = Inr ()"
    and o: "files_owned c1" and b: "add_page sha p c1 = Inr c2" and i: "insert_initial_revision p m c2 = Inr c3"
    and n: "pg_current_revision_number p = 1" and d: "add_identifier x c3 = Inr c5" and e: "add_source_row s c5 = Inr c6"
  shows "get_current_file_manifest u sha c6 p = Inr m"
proof -
  have "files_extend c1 c2"
    using b by (auto simp: add_page_def insert_page_def Let_def split: if_splits intro!: same_files_extend)
  then have o2: "files_owned c2" using o files_extend_owned by blast
  have "get_current_file_manifest u sha c3 p = Inr m"
    by (rule file_set_revision_read [where sha = sha, OF u sha c o2 i [unfolded insert_initial_revision_eq]])
      (simp add: current_key_def n)
  moreover have "files_extend c3 c5"
    using d by (auto simp: add_identifier_def insert_identifier_def Let_def split: if_splits intro!: same_files_extend)
  ultimately show ?thesis using sealed_manifest_kept files_extend_trans add_source_extend [OF e] by blast
qed

lemma bindR_InlE:
  assumes "bindR r f = Inl e"
  obtains "r = Inl e" | x where "r = Inr x" "f x = Inl e"
  using assms by (cases r) auto

lemma write_snapshot_differs:
  assumes "write_snapshot u sha a p m pres db = Inl SnapshotDiffers"
  shows "\<exists>c1 c2 c4 q.
    add_file_set_revision p (sa_revision_id a) (sa_revision_at a) m (ad_content db) = Inr c1
    \<and> add_source_row (sa_source a) c1 = Inr c2
    \<and> advance_file_set_current_revision p (sa_revision_id a) (sa_revision_at a) c2 = Inr (c4, Some q)
    \<and> get_current_file_manifest u sha c4 q \<noteq> Inr m"
  using assms unfolding write_snapshot_def
  by (auto simp: mapE_Inr mapE_Inl elim!: bindR_InlE split: if_splits option.splits dest!: save_presentation_content)

lemma append_differs:
  assumes "append_existing_page u sha parse tx a db = Inl SnapshotDiffers"
  shows "\<exists>m p pres. build_file_manifest u sha (sa_files a) = Inr m
    \<and> write_snapshot u sha a p m pres db = Inl SnapshotDiffers"
  using assms unfolding append_existing_page_def
  by (auto simp: mapE_Inr mapE_Inl elim!: bindR_InlE split: if_splits option.splits) blast+

lemma initial_page_number [simp]: "pg_current_revision_number (initial_page book title g uid rid oc at) = 1"
  by (simp add: initial_page_def)

lemma create_differs:
  assumes "create_page u parse env book title occurred_at at m source primary db = Inl SnapshotDiffers"
  obtains c1 g p c2 c3 i c5 s c6 where "file_manifest_check u (sv_sha env) m = Inr ()"
    "allocate_page_id env (bk_library_id book) title occurred_at (ad_content db) = Inr (c1, g)"
    "pg_current_revision_number p = 1" "add_page (sv_sha env) p c1 = Inr c2"
    "insert_initial_revision p m c2 = Inr c3" "add_identifier i c3 = Inr c5" "add_source_row s c5 = Inr c6"
    "get_current_file_manifest u (sv_sha env) c6 p \<noteq> Inr m"
proof -
  have "\<exists>c1 g uid rid c2 c3 i c5 s c6. file_manifest_check u (sv_sha env) m = Inr ()
    \<and> allocate_page_id env (bk_library_id book) title occurred_at (ad_content db) = Inr (c1, g)
    \<and> add_page (sv_sha env) (initial_page book title g uid rid occurred_at at) c1 = Inr c2
    \<and> insert_initial_revision (initial_page book title g uid rid occurred_at at) m c2 = Inr c3
    \<and> add_identifier i c3 = Inr c5 \<and> add_source_row s c5 = Inr c6
    \<and> get_current_file_manifest u (sv_sha env) c6 (initial_page book title g uid rid occurred_at at) \<noteq> Inr m"
    using assms unfolding create_page_def Let_def
    by (auto simp: mapE_Inr mapE_Inl elim!: bindR_InlE split: if_splits dest!: save_presentation_content)
      (metis sum.inject(2))
  then show ?thesis using that initial_page_number by blast
qed

end
