(* ===== verification/ArchiveSamples.thy ===== *)
theory ArchiveSamples
  imports ArchiveSteps RequestFingerprints TimelineTheorems
begin

text \<open>
  A concrete store and a request served on it, evaluated step by step: the examples of the theorems
  about the archive service. The digest is constant, so that bodies and tags are short to evaluate.
\<close>

definition sample_env :: service_env where
  "sample_env = \<lparr>sv_sha = sample_sha, sv_dump = json_text,
     sv_parse = (\<lambda>b. Option.bind (utf8_decode b) json_loads), sv_in_transaction = True,
     sv_schema = lit ''20261020_0037'', sv_clock = 50, sv_ids = (\<lambda>n. auth_id (6 + n)),
     sv_page_uids = (\<lambda>_. sample_uid), sv_revision_ids = (\<lambda>_. lit ''rev_'' @ sample_id),
     sv_attempts = 4\<rparr>"

lemma sample_env_simps [simp]:
  "sv_sha sample_env = sample_sha" "sv_dump sample_env = json_text"
  "sv_parse sample_env = (\<lambda>b. Option.bind (utf8_decode b) json_loads)" "sv_in_transaction sample_env"
  "sv_schema sample_env = lit ''20261020_0037''" "sv_clock sample_env = 50"
  "sv_ids sample_env = (\<lambda>n. auth_id (6 + n))" "sv_page_uids sample_env = (\<lambda>_. sample_uid)"
  "sv_revision_ids sample_env = (\<lambda>_. lit ''rev_'' @ sample_id)" "sv_attempts sample_env = 4"
  by (simp_all add: sample_env_def)

definition sample_book :: book_row where
  "sample_book = \<lparr>bk_id = auth_id 5, bk_section_id = auth_id 3, bk_library_id = auth_id 1\<rparr>"

definition sample_content :: content_db where
  "sample_content = empty_db\<lparr>t_books := [sample_book]\<rparr>"

definition sample_app :: app_db where
  "sample_app = \<lparr>ap_content = sample_content, ap_auth = auth_db4, ap_records = []\<rparr>"

definition sample_caller :: authenticated_caller where
  "sample_caller = \<lparr>ac_caller = sample_agent, ac_credential = credential_metadata sample_credential\<rparr>"

definition create_request :: idempotency_request where
  "create_request = \<lparr>ir_method = lit ''POST'', ir_route_template = CREATE_ROUTE_TEMPLATE,
     ir_key_digest = replicate 32 1, ir_request_fingerprint = replicate 32 7\<rparr>"

section \<open>The rows\<close>

definition new_page :: page where
  "new_page = sample_page\<lparr>pg_library_id := auth_id 1, pg_section_id := auth_id 3, pg_book_id := auth_id 5,
     pg_created_at := 50, pg_updated_at := 50\<rparr>"

definition new_revision :: revision where
  "new_revision = markdown_revision (auth_id 1) sample_uid (lit ''rev_'' @ sample_id) 1
     ([104, 105], 2, replicate 32 7) 50"

definition new_identifier :: page_identifier where
  "new_identifier = canonical_identifier (auth_id 1) (lit ''19700101t000000000z-notes'') (replicate 32 7) sample_uid 50"

definition new_counter :: collision_counter where
  "new_counter = \<lparr>cc_library_id = auth_id 1, cc_id_scheme = PAGE_ID_SCHEME, cc_id_timestamp_micros = 0,
     cc_base_slug = lit ''notes'', cc_next_ordinal = 2\<rparr>"

definition new_source :: page_source where
  "new_source = \<lparr>so_library_id = auth_id 1, so_source_id = auth_id 6, so_page_uid = sample_uid,
     so_revision_id = lit ''rev_'' @ sample_id, so_revision_number = 1, so_kind = lit ''chat'',
     so_locator = None, so_captured_at = None, so_created_at = 50\<rparr>"

definition new_audit :: audit_event where
  "new_audit = service_audit (auth_id 7) (auth_id 1) sample_caller (lit ''content.archive.create'') (lit ''page'')
     (lit ''19700101t000000000z-notes'') (cm_request_id sample_command) 50"

definition new_generated :: generated_page_id where
  "new_generated = \<lparr>gp_value = lit ''19700101t000000000z-notes'', gp_timestamp_prefix = lit ''19700101t000000000z'',
     gp_base_slug = lit ''notes'', gp_collision_ordinal = 1\<rparr>"

definition content1 :: content_db where
  "content1 = sample_content\<lparr>t_counters := [new_counter]\<rparr>"

definition content2 :: content_db where
  "content2 = content1\<lparr>t_pages := [new_page]\<rparr>"

definition content3 :: content_db where
  "content3 = content2\<lparr>t_revisions := [new_revision],
     t_file_sets := [sample_file_set\<lparr>fs_key := rev_key new_revision\<rparr>],
     t_files := [sample_file\<lparr>rf_key := rev_key new_revision, rf_content_sha256 := replicate 32 7\<rparr>],
     t_seals := [rev_key new_revision], t_seal_guards := [rev_key new_revision]\<rparr>"

definition content4 :: content_db where
  "content4 = content3\<lparr>t_identifiers := [new_identifier], t_sources := [new_source], t_audits := [new_audit]\<rparr>"

lemma sample_time: "operation_time sample_env = Inr 50"
proof -
  have "\<not> isl (canonical_utc_wire 50)" by code_simp
  then show ?thesis by (cases "canonical_utc_wire 50") (simp_all add: operation_time_def)
qed

lemma sample_authenticate:
  "authenticate sample_sha LAST_USED_COALESCE_MICROSECONDS 50 sample_token auth_db4 = Inr (auth_db4, sample_caller)"
  "validated_scope (auth_id 1) sample_caller = Inr sample_scope"
  "authorize_content sample_sha LAST_USED_COALESCE_MICROSECONDS 50 50 sample_token (auth_id 1) (auth_id 3)
     ArchiveWrite auth_db4 = Inr (auth_db4, sample_caller)"
  by code_simp+

lemma sample_create_request:
  "make_request (lit ''POST'') CREATE_ROUTE_TEMPLATE (replicate 32 1) (replicate 32 7) = Inr create_request"
  "get_record [] sample_scope create_request = Inr None"
  "lookup_replay [] sample_scope create_request = Inr None"
  by code_simp+

lemma sample_create_fingerprint: "create_fingerprint sample_sha sample_command = Inr (replicate 32 7)"
  using sample_metadata(1) by (simp add: create_fingerprint_def digest_request_fingerprint_def sample_sha_def)

lemma sample_allocated:
  "allocate_page_id sample_env (auth_id 1) (lit ''Notes'') 0 sample_content = Inr (content1, new_generated)"
  "allocate_page_uid sample_env (auth_id 1) content1 = Inr sample_uid"
  "allocate_revision_id sample_env (auth_id 1) content1 = Inr (lit ''rev_'' @ sample_id)"
proof -
  have g: "candidate_page_id sample_sha \<lparr>utc_microseconds = 0, canonical_utc = format_utc_microseconds 0\<rparr> (lit ''Notes'') 1
      = Inr new_generated"
    using sample_generated by (simp add: candidate_page_id_def new_generated_def bad_value_def)
  have n: "gp_value new_generated = lit ''19700101t000000000z-notes''" "gp_base_slug new_generated = lit ''notes''"
    "new_counter\<lparr>cc_next_ordinal := 2\<rparr> = new_counter"
    by (simp_all add: new_generated_def new_counter_def)
  have c: "get_collision_counter sample_content (auth_id 1) PAGE_ID_SCHEME 0 (lit ''notes'') = None" by code_simp
  have "identifier_exists sample_sha sample_content (auth_id 1) (lit ''19700101t000000000z-notes'') = Inr False"
    "add_collision_counter new_counter sample_content = Inr content1" "new_counter_valid new_counter"
    by code_simp+
  then have "first_page_id sample_sha (auth_id 1) \<lparr>utc_microseconds = 0, canonical_utc = format_utc_microseconds 0\<rparr>
      (lit ''Notes'') new_counter (Suc 3) 1 sample_content = Inr (content1, new_generated)"
    using g n by (subst first_page_id.simps) (simp add: MAX_COLLISION_ORDINAL_def)
  then have f: "first_page_id sample_sha (auth_id 1) \<lparr>utc_microseconds = 0, canonical_utc = format_utc_microseconds 0\<rparr>
      (lit ''Notes'') new_counter 4 1 sample_content = Inr (content1, new_generated)" by simp
  show "allocate_page_id sample_env (auth_id 1) (lit ''Notes'') 0 sample_content = Inr (content1, new_generated)"
    using g c f n by (simp add: allocate_page_id_def sample_wire bad_value_def new_counter_def)
  have "validate_page_uid sample_uid = Inr sample_uid" "\<not> page_uid_exists content1 (auth_id 1) sample_uid"
    "validate_revision_id (lit ''rev_'' @ sample_id) = Inr (lit ''rev_'' @ sample_id)"
    "\<not> revision_id_exists content1 (auth_id 1) (lit ''rev_'' @ sample_id)"
    by code_simp+
  then show "allocate_page_uid sample_env (auth_id 1) content1 = Inr sample_uid"
    "allocate_revision_id sample_env (auth_id 1) content1 = Inr (lit ''rev_'' @ sample_id)"
    by (simp_all add: allocate_page_uid_def allocate_revision_id_def numeral_eq_Suc)
qed

lemma sample_add_page: "add_page sample_sha new_page content1 = Inr content2"
proof -
  have "page_storage_valid new_page" "insert_page new_page content1 = Inr content2" by code_simp+
  then show ?thesis by (simp add: add_page_def new_page_valid_def)
    (simp add: new_page_def sample_page_def sample_generated)
qed

lemma sample_rows:
  "markdown_from_bytes sample_sha [104, 105] = Inr ([104, 105], 2, replicate 32 7)"
  "new_revision_valid sample_sha new_revision"
  "add_revision new_revision content2 = Inr content3"
  "registry_digest sample_sha (lit ''19700101t000000000z-notes'') = Inr (replicate 32 7)"
  "new_identifier_valid sample_sha new_identifier"
  by code_simp+

lemma sample_side_rows:
  "add_identifier new_identifier content3 = Inr (content3\<lparr>t_identifiers := [new_identifier]\<rparr>)"
  "add_source sample_env (cm_source sample_command) (auth_id 1) sample_uid new_revision 50
     (content3\<lparr>t_identifiers := [new_identifier]\<rparr>)
   = Inr (content3\<lparr>t_identifiers := [new_identifier], t_sources := [new_source]\<rparr>, new_source)"
  "add_audit_event auth_db4 new_audit (content3\<lparr>t_identifiers := [new_identifier], t_sources := [new_source]\<rparr>)
   = Inr content4"
proof -
  show "add_identifier new_identifier content3 = Inr (content3\<lparr>t_identifiers := [new_identifier]\<rparr>)" by code_simp
  have "new_source_valid new_source" "add_source_row new_source (content3\<lparr>t_identifiers := [new_identifier]\<rparr>)
      = Inr (content3\<lparr>t_identifiers := [new_identifier], t_sources := [new_source]\<rparr>)" by code_simp+
  then show "add_source sample_env (cm_source sample_command) (auth_id 1) sample_uid new_revision 50
     (content3\<lparr>t_identifiers := [new_identifier]\<rparr>)
   = Inr (content3\<lparr>t_identifiers := [new_identifier], t_sources := [new_source]\<rparr>, new_source)"
    by (simp add: add_source_def new_source_def new_revision_def markdown_revision_def sample_command_def Let_def)
  show "add_audit_event auth_db4 new_audit (content3\<lparr>t_identifiers := [new_identifier], t_sources := [new_source]\<rparr>)
   = Inr content4" by code_simp
qed

section \<open>The response\<close>

definition new_citation :: citation where
  "new_citation = \<lparr>ci_section_id = auth_id 3, ci_page_id = lit ''19700101t000000000z-notes'',
     ci_revision_id = lit ''rev_'' @ sample_id, ci_revision_number = 1,
     ci_href = lit ''/api/v1/sections/'' @ auth_id 3 @ lit ''/pages/19700101t000000000z-notes/revisions/1''\<rparr>"

definition new_body :: archive_body where
  "new_body = \<lparr>ab_page = \<lparr>vw_section_id = auth_id 3, vw_book_id = auth_id 5,
       vw_page_id = lit ''19700101t000000000z-notes'', vw_title = lit ''Notes'',
       vw_occurred_at = lit ''1970-01-01T00:00:00.000000Z'', vw_current_revision_id = lit ''rev_'' @ sample_id,
       vw_current_revision_number = 1\<rparr>,
     ab_revision = \<lparr>vr_page_id = lit ''19700101t000000000z-notes'', vr_revision_id = lit ''rev_'' @ sample_id,
       vr_revision_number = 1, vr_created_at = lit ''1970-01-01T00:00:00.000050Z'',
       vr_content_sha256 = hex_bytes (replicate 32 7), vr_content = lit ''hi''\<rparr>,
     ab_citation = new_citation, ab_notice = False\<rparr>"

definition new_body_bytes :: bytes where
  "new_body_bytes = map of_nat (json_text (archive_body_json new_body))"

definition new_etag :: pystr where
  "new_etag = 34 # lit ''page-v2-'' @ hex_bytes (replicate 32 7) @ [34]"

definition new_location :: pystr where
  "new_location = lit ''/api/v1/sections/'' @ auth_id 3 @ lit ''/pages/19700101t000000000z-notes''"

definition new_response :: original_response where
  "new_response = \<lparr>or_status = 201, or_media_type = lit ''application/json'', or_body = new_body_bytes,
     or_location = Some new_location,
     or_etag = new_etag, or_request_id = cm_request_id sample_command,
     or_timestamp = lit ''1970-01-01T00:00:00.000050Z''\<rparr>"

lemma new_body_plain: "json_plain (archive_body_json new_body)" "json_ascii (archive_body_json new_body)"
  "length (json_text (archive_body_json new_body)) < 1000"
  by code_simp+

lemma new_body_text:
  "isascii (json_text (archive_body_json new_body))" "0 \<notin> set (json_text (archive_body_json new_body))"
  using json_text_chars [OF new_body_plain(1)] new_body_plain(2) by (force simp: isascii_def list_all_iff)+

lemma new_body_encoded: "utf8_encode (json_text (archive_body_json new_body)) = Some new_body_bytes"
  using new_body_text by (simp add: utf8_encode_ascii new_body_bytes_def)

lemma new_body_parsed:
  "utf8_decode new_body_bytes = Some (json_text (archive_body_json new_body))"
  "json_loads (json_text (archive_body_json new_body)) = Some (archive_body_json new_body)"
  using new_body_encoded new_body_plain(1) by (simp_all add: utf8_decode_encode json_loads_text)

lemma new_body_object: "require_json_object new_body_bytes"
proof -
  have "0 \<notin> set new_body_bytes"
  proof
    assume "0 \<in> set new_body_bytes"
    then obtain c where c: "c \<in> set (json_text (archive_body_json new_body))" "(of_nat c :: 8 word) = 0"
      unfolding new_body_bytes_def by auto
    have "32 \<le> c \<and> c < 128" using json_text_chars [OF new_body_plain(1) c(1)] new_body_plain(2) by blast
    then have "unat (of_nat c :: 8 word) = c" by (simp add: unat_of_nat)
    with c \<open>32 \<le> c \<and> c < 128\<close> show False by simp
  qed
  then show ?thesis using new_body_parsed by (simp add: require_json_object_def archive_body_json_def)
qed

lemma new_page_path: "page_path (auth_id 3) (lit ''19700101t000000000z-notes'') = Inr new_location"
  by code_simp

lemma new_citation_made:
  "make_citation (auth_id 3) (lit ''19700101t000000000z-notes'') (lit ''rev_'' @ sample_id) 1 = Inr new_citation"
  by code_simp

lemma new_body_valid: "archive_body_valid new_body"
  by code_simp

lemma new_etag_made: "page_current_etag sample_sha sample_uid (lit ''rev_'' @ sample_id) 1 0 50 = Inr new_etag"
  by code_simp

lemma new_wires: "wire 0 = Inr (lit ''1970-01-01T00:00:00.000000Z'')" "wire 50 = Inr (lit ''1970-01-01T00:00:00.000050Z'')"
  by code_simp+

lemma new_response_valid: "response_valid new_response"
proof -
  have "strong_etag new_etag" by code_simp
  moreover have "request_id_valid (cm_request_id sample_command)"
    "canonical_timestamp (lit ''1970-01-01T00:00:00.000050Z'')" by code_simp+
  moreover have "validate_api_v1_path new_location = Inr new_location"
    by code_simp
  moreover have "1 \<le> length new_body_bytes" "int (length new_body_bytes) \<le> REPLAY_BODY_MAX_BYTES"
    using new_body_plain(3) by (auto simp: new_body_bytes_def REPLAY_BODY_MAX_BYTES_def archive_body_json_def Suc_le_eq)
  ultimately show ?thesis using new_body_object by (simp add: response_valid_def new_response_def)
qed

lemma new_response_made:
  "make_response sample_env 201 (archive_body_json new_body) new_location new_etag
     (cm_request_id sample_command) (lit ''1970-01-01T00:00:00.000050Z'') = Inr new_response"
  using new_response_valid new_body_encoded
  by (simp add: make_response_def utf8_bytes_def checked_def) (simp add: new_response_def)

lemma new_fresh_response:
  "fresh_response sample_env new_page new_revision (cm_request_id sample_command) False False
   = Inr (new_response, new_citation)"
proof -
  have d: "utf8_decode [104, 105] = Some (lit ''hi'')" by code_simp
  have b: "archive_body_valid \<lparr>ab_page = \<lparr>vw_section_id = auth_id 3, vw_book_id = auth_id 5,
       vw_page_id = lit ''19700101t000000000z-notes'', vw_title = lit ''Notes'',
       vw_occurred_at = lit ''1970-01-01T00:00:00.000000Z'', vw_current_revision_id = lit ''rev_'' @ sample_id,
       vw_current_revision_number = 1\<rparr>,
     ab_revision = \<lparr>vr_page_id = lit ''19700101t000000000z-notes'', vr_revision_id = lit ''rev_'' @ sample_id,
       vr_revision_number = 1, vr_created_at = lit ''1970-01-01T00:00:00.000050Z'',
       vr_content_sha256 = hex_bytes (replicate 32 7), vr_content = lit ''hi''\<rparr>,
     ab_citation = new_citation, ab_notice = False\<rparr>"
    using new_body_valid by (simp only: new_body_def)
  have p: "pg_section_id new_page = auth_id 3" "pg_book_id new_page = auth_id 5" "pg_occurred_at new_page = 0"
    "pg_page_id new_page = lit ''19700101t000000000z-notes''" "pg_title new_page = lit ''Notes''"
    "pg_updated_at new_page = 50" "pg_page_uid new_page = sample_uid"
    "rv_revision_id new_revision = lit ''rev_'' @ sample_id" "rv_revision_number new_revision = 1"
    "rv_created_at new_revision = 50" "rv_content_md new_revision = Some [104, 105]"
    "rv_content_sha256 new_revision = Some (replicate 32 7)"
    by (simp_all add: new_page_def sample_page_def new_revision_def markdown_revision_def)
  show ?thesis
    unfolding fresh_response_def p sample_env_simps new_citation_made new_wires new_page_path new_etag_made
    using b d new_response_made by (simp add: checked_def new_body_def)
qed

definition new_record :: idempotency_record where
  "new_record = \<lparr>ic_caller = sample_scope, ic_request = create_request, ic_response = new_response\<rparr>"

lemma new_recorded: "record_success auth_db4 [] sample_scope create_request new_response = Inr ([new_record], new_record)"
proof -
  have "caller_scope_valid sample_scope" "request_valid create_request" by code_simp+
  then have v: "record_valid new_record" using new_response_valid by (simp add: record_valid_def new_record_def)
  have l: "9 \<le> length new_location" "int (length new_location) \<le> 2048"
    "take 8 new_location = lit ''/api/v1/''" "printable new_location"
    "opaque_id (auth_id 1)" "opaque_id (auth_id 2)" "validate_method (lit ''POST'')"
    "1 \<le> length CREATE_ROUTE_TEMPLATE" "int (length CREATE_ROUTE_TEMPLATE) \<le> 2048"
    "take 8 CREATE_ROUTE_TEMPLATE = lit ''/api/v1/''" "123 \<in> set CREATE_ROUTE_TEMPLATE"
    "125 \<in> set CREATE_ROUTE_TEMPLATE" "printable CREATE_ROUTE_TEMPLATE"
    "row_timestamp (lit ''1970-01-01T00:00:00.000050Z'')"
    by code_simp+
  have "record_check new_record" using new_response_valid l
    by (simp add: record_check_def new_record_def response_valid_def sample_scope_def create_request_def Let_def)
      (simp add: new_response_def)
  moreover have "list_ex (\<lambda>c. ca_id c = auth_id 2 \<and> ca_library_id c = auth_id 1) (a_callers auth_db4)"
    "auth_id 1 \<in> set (a_libraries auth_db4)" by code_simp+
  ultimately show ?thesis using sample_create_request(2) v
    by (simp add: record_success_def Let_def add_record_def new_record_def sample_scope_def)
qed

lemma sample_insert_archive:
  "insert_archive sample_env 50 sample_command sample_book sample_caller auth_db4 sample_content
   = Inr (content4, new_page, new_revision, new_source, new_citation, new_audit, new_response)"
proof -
  have p: "fresh_page sample_command sample_book new_generated sample_uid (lit ''rev_'' @ sample_id) 0 50 = new_page"
    by (simp add: fresh_page_def new_page_def sample_page_def sample_command_def sample_book_def new_generated_def)
  have c: "cm_library_id sample_command = auth_id 1" "cm_title sample_command = lit ''Notes''"
    "cm_occurred_at sample_command = Some 0" "cm_content_md sample_command = [104, 105]"
    by (simp_all add: sample_command_def)
  have i: "pg_page_id new_page = lit ''19700101t000000000z-notes''" by (simp add: new_page_def sample_page_def)
  show ?thesis
    unfolding insert_archive_def Let_def c option.case sample_env_simps
    by (simp add: sample_allocated [unfolded sample_env_simps] sample_allocated p i sample_add_page checked_def
        new_revision_def [symmetric] new_identifier_def [symmetric] sample_rows sample_side_rows new_fresh_response
        new_audit_def [symmetric] del: One_nat_def)
qed

lemma sample_created:
  "create_archive sample_env sample_token sample_command (replicate 32 1) sample_app
   = Inr (\<lparr>ap_content = content4, ap_auth = auth_db4, ap_records = [new_record]\<rparr>,
      ArchiveSuccess new_page new_revision new_source new_citation new_audit new_response)"
proof -
  have c: "cm_library_id sample_command = auth_id 1" "cm_section_id sample_command = auth_id 3"
    "cm_book_id sample_command = auth_id 5"
    by (simp_all add: sample_command_def)
  have g: "get_book_section sample_content (auth_id 1) (auth_id 5) = Some sample_book" by code_simp
  show ?thesis
    by (simp add: create_archive_def require_transaction_def requireR_def sample_time c sample_app_def sample_authenticate
        sample_create_fingerprint sample_create_request g authorize_write_def require_route_section_def sample_book_def
        sample_insert_archive [unfolded sample_book_def] new_recorded del: One_nat_def)
qed

end
