(* ===== verification/ArchiveTheorems.thy ===== *)
theory ArchiveTheorems
  imports ArchiveSamples
begin

text \<open>
  What the archive service promises: its requests refine the transactions of the stores.
\<close>

lemma sample_reachable_start: "reachable sample_sha sample_content (\<lambda>_. [])"
proof -
  have "add_book sample_book empty_db = Inr sample_content"
    by (simp add: add_book_def sample_content_def empty_db_def)
  then show ?thesis by (intro reachable_step [OF reachable_start] store_step.side side_statement.book)
qed

text \<open>C1: A request that the archive service answers - creating an archive, appending a Revision,
  correcting the declared time, deleting, restoring, or replaying an earlier answer - takes a store that
  the content transactions reach to one that they reach, by content transactions, operations of the
  credential store and recordings of replay records only.\<close>

theorem service_refines_store:
  assumes "reachable (sv_sha env) (ap_content app) tr" and "service_step env app app'"
  shows "\<exists>tr'. app_run (sv_sha env) (app, tr) (app', tr') \<and> reachable (sv_sha env) (ap_content app') tr'"
proof -
  obtain tr' where r: "app_run (sv_sha env) (app, tr) (app', tr')"
    using service_step_run [OF assms(2) reachable_store_ok [OF assms(1) newest_schema_moves] newest_schema_moves]
    by blast
  then have "reachable (sv_sha env) (ap_content app') tr'"
    using assms(1) by (auto simp: reachable_def app_run_def intro: store_steps_trans)
  then show ?thesis using r by blast
qed

theorem service_refines_store_witness:
  "\<exists>tr'. reachable sample_sha content4 tr'"
proof -
  have "reachable (sv_sha sample_env) (ap_content sample_app) (\<lambda>_. [])"
    using sample_reachable_start by (simp add: sample_app_def)
  from service_refines_store [OF this service_step.created [OF sample_created]]
  show ?thesis by auto
qed

end
