(* ===== verification/ReplayTheorems.thy ===== *)
theory ReplayTheorems
  imports ArchiveTheorems
begin

text \<open>
  Repeating a request that was answered: the recorded answer stays valid for the state of the page it
  was given for, whatever requests, transactions and changes of credentials came in between.
\<close>

section \<open>The fresh answer\<close>

definition fresh_body :: "page \<Rightarrow> revision \<Rightarrow> pystr \<Rightarrow> pystr \<Rightarrow> pystr \<Rightarrow> pystr \<Rightarrow> bool \<Rightarrow> archive_body" where
  "fresh_body p r href occurred created content defaulted =
     \<lparr>ab_page = \<lparr>vw_section_id = pg_section_id p, vw_book_id = pg_book_id p, vw_page_id = pg_page_id p,
        vw_title = pg_title p, vw_occurred_at = occurred, vw_current_revision_id = rv_revision_id r,
        vw_current_revision_number = rv_revision_number r\<rparr>,
      ab_revision = \<lparr>vr_page_id = pg_page_id p, vr_revision_id = rv_revision_id r,
        vr_revision_number = rv_revision_number r, vr_created_at = created,
        vr_content_sha256 = (case rv_content_sha256 r of None \<Rightarrow> [] | Some d \<Rightarrow> hex_bytes d),
        vr_content = content\<rparr>,
      ab_citation = \<lparr>ci_section_id = pg_section_id p, ci_page_id = pg_page_id p,
        ci_revision_id = rv_revision_id r, ci_revision_number = rv_revision_number r, ci_href = href\<rparr>,
      ab_notice = defaulted\<rparr>"

lemma make_response_Inr:
  assumes "make_response env status body location etag request_id timestamp = Inr response"
  shows "utf8_encode (sv_dump env body) = Some (or_body response)" and "or_status response = status"
    and "or_location response = Some location" and "or_etag response = etag" and "or_timestamp response = timestamp"
  using assms by (auto simp: make_response_def utf8_bytes_def optionR_Inr elim!: bindR_InrE)

lemma fresh_response_Inr:
  assumes f: "fresh_response env p r rq loc notice = Inr (response, citation)"
  obtains href occurred created content location etag where
    "revision_path (pg_section_id p) (pg_page_id p) (rv_revision_number r) = Inr href"
    "wire (pg_occurred_at p) = Inr occurred" "wire (rv_created_at r) = Inr created"
    "Option.bind (rv_content_md r) utf8_decode = Some content"
    "archive_body_valid (fresh_body p r href occurred created content notice)"
    "page_path (pg_section_id p) (pg_page_id p) = Inr location"
    "page_current_etag (sv_sha env) (pg_page_uid p) (rv_revision_id r) (rv_revision_number r)
       (pg_occurred_at p) (pg_updated_at p) = Inr etag"
    "make_response env 201 (archive_body_json (fresh_body p r href occurred created content notice))
       (if loc then href else location) etag rq created = Inr response"
  using f unfolding fresh_response_def make_citation_def
  by (auto elim!: bindR_InrE simp: optionR_Inr fresh_body_def [symmetric] intro!: that)

lemma wire_parsed: "wire u = Inr w \<Longrightarrow> parse_occurrence_time w = Inr \<lparr>utc_microseconds = u, canonical_utc = w\<rparr>"
  by (auto simp: wire_def bad_value_def canonical_utc_wire_def parse_format split: if_splits)

section \<open>The state it was given for\<close>

lemma replay_state_found:
  assumes ok: "store_ok db (sv_schema env) tr" and q: "q \<in> set (t_pages db)" and s: "s \<in> set (tr (page_key q))"
  obtains t where "replay_timeline env db q = Inr t" "exact_state t (ps_updated_at s) = Inr s"
proof -
  obtain t where t: "load_page_state_timeline db (sv_schema env) (page_key q) = Inr t" "tl_states t = tr (page_key q)"
    using history_loads [OF store_page_history [OF ok q]] by auto
  have "distinct (map ps_updated_at (tr (page_key q)))"
    using store_trace_last(3) [OF ok q] by (simp add: strict_sorted_iff)
  from single_row [OF this s] have "exact_state t (ps_updated_at s) = Inr s" by (simp add: exact_state_def t)
  then show ?thesis using that t by (simp add: replay_timeline_def)
qed

lemma revision_found:
  assumes "rows_unique db" and r: "r \<in> set (t_revisions db)"
  shows "get_revision db (rev_page_key r) (rv_revision_number r) = Some r"
proof -
  have "filter (\<lambda>x. number_key x = number_key r) (t_revisions db) = [r]"
    using single_row [of number_key, OF _ r] assms(1) by (simp add: rows_unique_def)
  from find_single [OF this] show ?thesis by (simp add: get_revision_def number_key_def)
qed

text \<open>The bodies the writer writes are read back as they were.\<close>

definition bodies_read_back :: "service_env \<Rightarrow> service_env \<Rightarrow> bool" where
  "bodies_read_back env env' \<longleftrightarrow>
     (\<forall>b bs. archive_body_valid b \<longrightarrow> utf8_encode (sv_dump env (archive_body_json b)) = Some bs
        \<longrightarrow> sv_parse env' bs = Some (archive_body_json b))"

lemma archive_replay_valid:
  assumes f: "fresh_response env p r rq loc notice = Inr (response, citation)"
    and ok: "store_ok db (sv_schema env') tr" and u: "rows_unique db"
    and q: "q \<in> set (t_pages db)" "page_key q = page_key p" "pg_page_id q = pg_page_id p"
    and s: "state_of_page p \<in> set (tr (page_key p))" and live: "pg_deleted_at p = None"
    and r: "r \<in> set (t_revisions db)" "rev_page_key r = page_key p" "rv_revision_id r = pg_current_revision_id p"
      "rv_revision_number r = pg_current_revision_number p" "rv_created_at r = pg_updated_at p"
    and sha: "sv_sha env' = sv_sha env" and rb: "bodies_read_back env env'"
  obtains body where "replay_body env' response = Some body" "vw_page_id (ab_page body) = pg_page_id p"
    "vw_book_id (ab_page body) = pg_book_id p"
    "validate_archive_replay env' db q body response (pg_section_id p) loc = Inr ()"
proof -
  obtain href occurred created content location etag where
    href: "revision_path (pg_section_id p) (pg_page_id p) (rv_revision_number r) = Inr href"
    and occurred: "wire (pg_occurred_at p) = Inr occurred" and created: "wire (rv_created_at r) = Inr created"
    and content: "Option.bind (rv_content_md r) utf8_decode = Some content"
    and valid: "archive_body_valid (fresh_body p r href occurred created content notice)"
    and location: "page_path (pg_section_id p) (pg_page_id p) = Inr location"
    and etag: "page_current_etag (sv_sha env) (pg_page_uid p) (rv_revision_id r) (rv_revision_number r)
       (pg_occurred_at p) (pg_updated_at p) = Inr etag"
    and made: "make_response env 201 (archive_body_json (fresh_body p r href occurred created content notice))
       (if loc then href else location) etag rq created = Inr response"
    by (rule fresh_response_Inr [OF f])
  note m = make_response_Inr [OF made]
  let ?b = "fresh_body p r href occurred created content notice"
  have "replay_body env' response = Some ?b"
    using rb valid m(1) archive_body_round [OF valid] by (simp add: bodies_read_back_def replay_body_def)
  moreover have "validate_archive_replay env' db q ?b response (pg_section_id p) loc = Inr ()"
  proof -
    have sq: "state_of_page p \<in> set (tr (page_key q))" using s q(2) by simp
    obtain t where t: "replay_timeline env' db q = Inr t" "exact_state t (pg_updated_at p) = Inr (state_of_page p)"
      by (rule replay_state_found [OF ok q(1) sq]) (simp add: state_of_page_def)
    have uid: "pg_page_uid q = pg_page_uid p" using q(2) by (simp add: page_key_def)
    obtain l where l: "legacy_page_current_etag (sv_sha env) (pg_page_uid p) (rv_revision_id r) (rv_revision_number r) = Inr l"
      using etag by (auto simp: page_current_etag_def legacy_page_current_etag_def split: if_splits)
    have st: "require_replay_state env' db q response (pg_section_id p) (rv_revision_id r) (rv_revision_number r)
        (Some (pg_updated_at p)) (Some (pg_book_id p)) True True = Inr (state_of_page p)"
      using t etag l live r m(4)
      by (simp add: require_replay_state_def uid sha state_of_page_def optional_def)
    have g: "get_revision db (page_key q) (rv_revision_number r) = Some r"
      using revision_found [OF u r(1)] r(2) q(2) by simp
    obtain cb where cb: "rv_content_md r = Some cb" "utf8_encode content = Some cb"
      using content utf8_encode_decode by (auto simp: bind_eq_Some_conv)
    obtain d where d: "rv_content_sha256 r = Some d"
      using valid by (cases "rv_content_sha256 r") (auto simp: archive_body_valid_def revision_view_valid_def fresh_body_def)
    show ?thesis
      using wire_parsed [OF created] st g href occurred location m cb d r(5) q(3)
      by (simp add: validate_archive_replay_def fresh_body_def bad_value_def state_of_page_def)
  qed
  ultimately show ?thesis by (intro that) (simp_all add: fresh_body_def)
qed

section \<open>Repeating a creation\<close>

lemma insert_archive_rows:
  assumes i: "insert_archive env at c book a auth db = Inr (db', p, r, s, citation, audit, response)"
  obtains digest where "p \<in> set (t_pages db')" "r \<in> set (t_revisions db')"
    "registry_digest (sv_sha env) (pg_page_id p) = Inr digest"
    "canonical_identifier (cm_library_id c) (pg_page_id p) digest (pg_page_uid p) at \<in> set (t_identifiers db')"
    "page_key p = (cm_library_id c, pg_page_uid p)" "pg_deleted_at p = None" "pg_section_id p = bk_section_id book"
    "pg_book_id p = bk_id book" "rev_page_key r = page_key p" "rv_revision_id r = pg_current_revision_id p"
    "rv_revision_number r = pg_current_revision_number p" "rv_created_at r = pg_updated_at p"
    "fresh_response env p r (cm_request_id c) False (cm_occurred_at c = None) = Inr (response, citation)"
proof -
  obtain db1 db4 db5 g uid rid content digest where
    p: "p = fresh_page c book g uid rid (case cm_occurred_at c of None \<Rightarrow> at | Some t \<Rightarrow> t) at"
    and r: "r = markdown_revision (cm_library_id c) uid rid 1 content at"
    and d: "registry_digest (sv_sha env) (pg_page_id p) = Inr digest"
    and rows: "create_rows (sv_sha env) p r
        (canonical_identifier (cm_library_id c) (pg_page_id p) digest uid at) db1 = Inr db4"
    and so: "add_source env (cm_source c) (cm_library_id c) uid r at db4 = Inr (db5, s)"
    and au: "add_audit_event auth audit db5 = Inr db'"
    and f: "fresh_response env p r (cm_request_id c) False (cm_occurred_at c = None) = Inr (response, citation)"
    by (rule insert_archive_Inr [OF i])
  have "t_pages db5 = t_pages db4 \<and> t_revisions db5 = t_revisions db4 \<and> t_identifiers db5 = t_identifiers db4"
    using so by (auto simp: add_source_def add_source_row_def insert_source_def Let_def split: if_splits elim!: bindR_InrE)
  moreover have "t_pages db' = t_pages db5 \<and> t_revisions db' = t_revisions db5 \<and> t_identifiers db' = t_identifiers db5"
    using au by (auto simp: add_audit_event_def insert_audit_def split: if_splits)
  moreover have "p \<in> set (t_pages db4)"
  proof -
    obtain d1 d2 where a: "insert_page p db1 = Inr d1" and b: "insert_revision r d1 = Inr d2"
      and c: "insert_identifier (canonical_identifier (cm_library_id c) (pg_page_id p) digest uid at) d2 = Inr db4"
      using rows by (auto simp: create_rows_def add_page_def add_revision_def add_identifier_def result_simps
          split: if_splits)
    have "p \<in> set (t_pages d1)" using a by (auto simp: insert_page_def Let_def split: if_splits)
    then show ?thesis using insert_revision_pages [OF b] c
      by (auto simp: insert_identifier_def Let_def split: if_splits)
  qed
  ultimately show ?thesis
    using that [of digest] create_rows_rows(2,3) [OF rows] d f p r
    by (simp add: fresh_page_def markdown_revision_def rev_page_key_def page_key_def)
qed

lemma create_archive_success:
  assumes i: "create_archive env token c key app = Inr (app', ArchiveSuccess p r s citation audit response)"
  obtains at auth a scope fingerprint request book auth' a' db records where
    "operation_time env = Inr at"
    "authenticate (sv_sha env) LAST_USED_COALESCE_MICROSECONDS at token (ap_auth app) = Inr (auth, a)"
    "validated_scope (cm_library_id c) a = Inr scope"
    "create_fingerprint (sv_sha env) c = Inr fingerprint"
    "make_request (lit ''POST'') CREATE_ROUTE_TEMPLATE key fingerprint = Inr request"
    "get_record (ap_records app) scope request = Inr None"
    "get_book_section (ap_content app) (cm_library_id c) (cm_book_id c) = Some book"
    "bk_section_id book = cm_section_id c"
    "insert_archive env at c book a' auth' (ap_content app) = Inr (db, p, r, s, citation, audit, response)"
    "record_success auth' (ap_records app) scope request response
       = Inr (records, \<lparr>ic_caller = scope, ic_request = request, ic_response = response\<rparr>)"
    "app' = \<lparr>ap_content = db, ap_auth = auth', ap_records = records\<rparr>"
proof -
  obtain at auth a scope fingerprint request stored where
    h: "operation_time env = Inr at"
    "authenticate (sv_sha env) LAST_USED_COALESCE_MICROSECONDS at token (ap_auth app) = Inr (auth, a)"
    "validated_scope (cm_library_id c) a = Inr scope"
    "create_fingerprint (sv_sha env) c = Inr fingerprint"
    "make_request (lit ''POST'') CREATE_ROUTE_TEMPLATE key fingerprint = Inr request"
    "get_record (ap_records app) scope request = Inr stored"
    and t: "(case stored of Some r \<Rightarrow> replay_create env at token c scope request r (app\<lparr>ap_auth := auth\<rparr>)
     | None \<Rightarrow>
         (case get_book_section (ap_content app) (cm_library_id c) (cm_book_id c) of
            None \<Rightarrow> Inl ArchiveNotFound
          | Some book \<Rightarrow>
              bindR (authorize_write env at token (cm_library_id c) (bk_section_id book) auth) (\<lambda>(auth', a').
              bindR (require_route_section (bk_section_id book) (cm_section_id c)) (\<lambda>_.
              bindR (lookup_replay (ap_records app) scope request) (\<lambda>rp.
              if rp \<noteq> None then Inl ReplayCorrupt
              else
                persisted
                  (bindR (insert_archive env at c book a' auth' (ap_content app))
                     (\<lambda>(db, p, r, s, citation, audit, response).
                   bindR (record_success auth' (ap_records app) scope request response) (\<lambda>(records, _).
                   Inr (\<lparr>ap_content = db, ap_auth = auth', ap_records = records\<rparr>,
                        ArchiveSuccess p r s citation audit response)))))))))
      = Inr (app', ArchiveSuccess p r s citation audit response)"
    using i unfolding create_archive_def by (auto elim!: bindR_InrE)
  have n: "stored = None"
    using t by (auto simp: replay_create_def Let_def split: option.splits if_splits elim!: bindR_InrE)
  then obtain book auth' a' db records x where b: "get_book_section (ap_content app) (cm_library_id c) (cm_book_id c) = Some book"
    "bk_section_id book = cm_section_id c"
    "insert_archive env at c book a' auth' (ap_content app) = Inr (db, p, r, s, citation, audit, response)"
    "app' = \<lparr>ap_content = db, ap_auth = auth', ap_records = records\<rparr>"
    and rs: "record_success auth' (ap_records app) scope request response = Inr (records, x)"
    using t by (auto simp: require_route_section_def requireR_Inr elim!: bindR_InrE split: option.splits if_splits)
  have "x = \<lparr>ic_caller = scope, ic_request = request, ic_response = response\<rparr>"
    using rs by (cases rule: record_success_cases) (use h(6) n in simp_all)
  then show ?thesis using that h b rs n by blast
qed

lemma persisted_page:
  assumes reach: "reachable sha (ap_content app) tr" and run: "app_run sha (app, tr) (app', tr')"
    and schema: "schema \<in> set CALLER_MOVE_REVISIONS" and p: "p \<in> set (t_pages (ap_content app))"
  shows "store_ok (ap_content app') schema tr'" and "rows_unique (ap_content app')"
    and "set (t_revisions (ap_content app)) \<subseteq> set (t_revisions (ap_content app'))"
    and "set (t_identifiers (ap_content app)) \<subseteq> set (t_identifiers (ap_content app'))"
    and "state_of_page p \<in> set (tr' (page_key p))"
    and "\<And>q. q \<in> set (t_pages (ap_content app')) \<Longrightarrow> page_key q = page_key p \<Longrightarrow> pg_page_id q = pg_page_id p"
proof -
  have ok: "store_ok (ap_content app) schema tr" by (rule reachable_store_ok [OF reach schema])
  have st: "store_steps sha (ap_content app, tr) (ap_content app', tr')" using run by (simp add: app_run_def)
  note k = store_steps_keep [OF st ok reachable_unique [OF reach] schema]
  then show "store_ok (ap_content app') schema tr'" "rows_unique (ap_content app')" by simp_all
  show "set (t_revisions (ap_content app)) \<subseteq> set (t_revisions (ap_content app'))"
    "set (t_identifiers (ap_content app)) \<subseteq> set (t_identifiers (ap_content app'))"
    using k by (simp_all add: store_extends_def)
  have "state_of_page p \<in> set (tr (page_key p))"
    using store_trace_last(1,2) [OF ok p] last_in_set [of "tr (page_key p)"] by simp
  then show "state_of_page p \<in> set (tr' (page_key p))"
    using k page_exists_in [OF p] unfolding store_extends_def fst_conv snd_conv by blast
  fix q assume q: "q \<in> set (t_pages (ap_content app'))" "page_key q = page_key p"
  obtain q' where q': "q' \<in> set (t_pages (ap_content app'))" "page_key q' = page_key p" "pg_page_id q' = pg_page_id p"
    using k p by (auto simp: store_extends_def pages_advance_def)
  have "q = q'" using page_row_unique [OF _ q(1) q'(1)] k q(2) q'(2) by auto
  then show "pg_page_id q = pg_page_id p" using q' by simp
qed

lemma identified_page:
  assumes u: "rows_unique db" and i: "canonical_identifier library page_id digest uid at \<in> set (t_identifiers db)"
    and d: "registry_digest sha page_id = Inr digest" and g: "get_page sha db library page_id = Inr (Some q)"
  shows "q \<in> set (t_pages db) \<and> page_key q = (library, uid)"
proof -
  let ?i = "canonical_identifier library page_id digest uid at"
  obtain x where x: "x \<in> set (t_identifiers db)" "pi_library_id x = library" "pi_identifier_digest x = digest"
    "(pi_library_id x, pi_page_uid x) = page_key q" and q: "q \<in> set (t_pages db)"
    using g d by (auto simp: get_page_def find_Some_iff list_ex_iff split: option.splits if_splits)
  have "digest_key x = digest_key ?i" using x by (simp add: digest_key_def canonical_identifier_def)
  then have "x = ?i" using u x(1) i by (auto simp: rows_unique_def distinct_map inj_on_def)
  then show ?thesis using x q by (simp add: canonical_identifier_def)
qed

lemma same_fingerprint: "create_fingerprint sha (c\<lparr>cm_request_id := request_id\<rparr>) = create_fingerprint sha c"
  by (simp add: create_fingerprint_def create_metadata_def)

lemma same_scope:
  "ca_id (ac_caller b) = ca_id (ac_caller a) \<Longrightarrow> ca_library_id (ac_caller b) = ca_library_id (ac_caller a)
   \<Longrightarrow> validated_scope library b = validated_scope library a"
  by (simp add: validated_scope_def)

lemma created_answer_valid:
  assumes reach: "reachable (sv_sha env) (ap_content app1) tr1" and run: "app_run (sv_sha env) (app1, tr1) (app2, tr2)"
    and i: "insert_archive env at c book a auth db = Inr (ap_content app1, p, r, s, citation, audit, response)"
    and e: "sv_sha env' = sv_sha env" "sv_schema env' \<in> set CALLER_MOVE_REVISIONS" "bodies_read_back env env'"
    and g: "get_archive_page env' (cm_library_id c) (pg_page_id p) app2 = Inr q"
  obtains body where "replay_body env' response = Some body" "vw_page_id (ab_page body) = pg_page_id p"
    "vw_book_id (ab_page body) = bk_id book"
    "validate_archive_replay env' (ap_content app2) q body response (bk_section_id book) False = Inr ()"
    "get_page (sv_sha env) (ap_content app2) (cm_library_id c) (pg_page_id p) = Inr (Some q)" "archive_page (Some q)"
proof -
  let ?db = "ap_content app2"
  obtain digest where rows: "p \<in> set (t_pages (ap_content app1))" "r \<in> set (t_revisions (ap_content app1))"
    "registry_digest (sv_sha env) (pg_page_id p) = Inr digest"
    "canonical_identifier (cm_library_id c) (pg_page_id p) digest (pg_page_uid p) at \<in> set (t_identifiers (ap_content app1))"
    "page_key p = (cm_library_id c, pg_page_uid p)" "pg_deleted_at p = None" "pg_section_id p = bk_section_id book"
    "pg_book_id p = bk_id book" "rev_page_key r = page_key p" "rv_revision_id r = pg_current_revision_id p"
    "rv_revision_number r = pg_current_revision_number p" "rv_created_at r = pg_updated_at p"
    "fresh_response env p r (cm_request_id c) False (cm_occurred_at c = None) = Inr (response, citation)"
    by (rule insert_archive_rows [OF i])
  note k = persisted_page [OF reach run e(2) rows(1)]
  have gp: "get_page (sv_sha env) ?db (cm_library_id c) (pg_page_id p) = Inr (Some q)" "archive_page (Some q)"
    using e(1) g by (auto simp: get_archive_page_def archive_page_def elim!: bindR_InrE split: option.splits if_splits)
  have iq: "canonical_identifier (cm_library_id c) (pg_page_id p) digest (pg_page_uid p) at \<in> set (t_identifiers ?db)"
    using k(4) rows(4) by auto
  have q: "q \<in> set (t_pages ?db)" "page_key q = page_key p"
    using identified_page [OF k(2) iq rows(3) gp(1)] rows(5) by simp_all
  have rm: "r \<in> set (t_revisions ?db)" using k(3) rows(2) by auto
  obtain body where "replay_body env' response = Some body" "vw_page_id (ab_page body) = pg_page_id p"
    "vw_book_id (ab_page body) = pg_book_id p"
    "validate_archive_replay env' ?db q body response (pg_section_id p) False = Inr ()"
    by (rule archive_replay_valid [OF rows(13) k(1,2) q k(6) [OF q] k(5) rows(6) rm rows(9-12) e(1,3)])
  then show ?thesis using that gp rows(7,8) by simp
qed

text \<open>C2: a creation that was answered and is sent again under its key gets the response of the first creation
  and changes nothing but the time of the credential's last use, whatever requests, transactions and changes
  of credentials lie in between. The later request has to come from the same caller, which still
  authenticates and may still write where the page now is; the page can be read, and the stored bodies
  read back as they were written. Records have no expiry.\<close>

theorem create_repeated:
  assumes "reachable (sv_sha env) (ap_content app1) tr1"
    and "create_archive env token c key app = Inr (app1, ArchiveSuccess p r s citation audit response)"
    and "authenticate (sv_sha env) LAST_USED_COALESCE_MICROSECONDS (sv_clock env) token (ap_auth app) = Inr (auth, a)"
    and "app_run (sv_sha env) (app1, tr1) (app2, tr2)"
    and "sv_sha env' = sv_sha env" and "sv_in_transaction env'" and "sv_schema env' \<in> set CALLER_MOVE_REVISIONS"
    and "operation_time env' = Inr now" and "bodies_read_back env env'"
    and "authenticate (sv_sha env) LAST_USED_COALESCE_MICROSECONDS now token' (ap_auth app2) = Inr (auth1, a1)"
    and "ca_id (ac_caller a1) = ca_id (ac_caller a)" and "ca_library_id (ac_caller a1) = ca_library_id (ac_caller a)"
    and "get_archive_page env' (cm_library_id c) (pg_page_id p) app2 = Inr q"
    and "authorize_write env' now token' (cm_library_id c) (pg_section_id q) auth1 = Inr (auth2, a2)"
  shows "\<exists>body. create_archive env' token' (c\<lparr>cm_request_id := request_id\<rparr>) key app2
    = Inr (app2\<lparr>ap_auth := auth2\<rparr>, ArchiveReplay body response)"
proof -
  obtain at auth0 a0 scope fingerprint request book auth' a' db records where
    at: "operation_time env = Inr at"
    and au: "authenticate (sv_sha env) LAST_USED_COALESCE_MICROSECONDS at token (ap_auth app) = Inr (auth0, a0)"
    and sc: "validated_scope (cm_library_id c) a0 = Inr scope"
    and f: "create_fingerprint (sv_sha env) c = Inr fingerprint"
    and rq: "make_request (lit ''POST'') CREATE_ROUTE_TEMPLATE key fingerprint = Inr request"
    and gb: "get_book_section (ap_content app) (cm_library_id c) (cm_book_id c) = Some book"
    and sec: "bk_section_id book = cm_section_id c"
    and i: "insert_archive env at c book a' auth' (ap_content app) = Inr (db, p, r, s, citation, audit, response)"
    and rs: "record_success auth' (ap_records app) scope request response
       = Inr (records, \<lparr>ic_caller = scope, ic_request = request, ic_response = response\<rparr>)"
    and app1: "app1 = \<lparr>ap_content = db, ap_auth = auth', ap_records = records\<rparr>"
    by (rule create_archive_success [OF assms(2)])
  let ?x = "\<lparr>ic_caller = scope, ic_request = request, ic_response = response\<rparr>"
  have "at = sv_clock env" using at by (auto simp: operation_time_def result_simps split: if_splits)
  then have "a0 = a" using au assms(3) by simp
  then have sc1: "validated_scope (cm_library_id c) a1 = Inr scope" using sc same_scope assms(11,12) by metis
  obtain body where body: "replay_body env' response = Some body" "vw_page_id (ab_page body) = pg_page_id p"
    "vw_book_id (ab_page body) = bk_id book"
    "validate_archive_replay env' (ap_content app2) q body response (bk_section_id book) False = Inr ()"
    and gp: "get_page (sv_sha env) (ap_content app2) (cm_library_id c) (pg_page_id p) = Inr (Some q)" "archive_page (Some q)"
    by (rule created_answer_valid [OF assms(1,4) _ assms(5,7,9,13)]) (use i in \<open>simp add: app1\<close>)
  have "get_record records scope request = Inr (Some ?x)" using record_success_get [OF rs] by simp
  then have g: "get_record (ap_records app2) scope request = Inr (Some ?x)"
    using records_later_get [of records] assms(4) by (simp add: app_run_def app1)
  have l: "lookup_replay (ap_records app2) scope request = Inr (Some response)"
    using lookup_replay_get [OF HOL.refl HOL.refl HOL.refl g] by simp
  have bk: "bk_id book = cm_book_id c" using gb by (auto simp: get_book_section_def find_Some_iff split: option.splits)
  have "replay_create env' now token' (c\<lparr>cm_request_id := request_id\<rparr>) scope request ?x (app2\<lparr>ap_auth := auth1\<rparr>)
      = Inr (app2\<lparr>ap_auth := auth2\<rparr>, ArchiveReplay body response)"
    using body gp assms(5,14) l bk sec by (simp add: replay_create_def)
  then show ?thesis
    using assms(5,6,8,10) sc1 f rq g
    by (auto simp: create_archive_def require_transaction_def same_fingerprint)
qed

lemma sample_bodies_read_back:
  assumes "sv_dump env = json_text" "sv_parse env' = (\<lambda>b. Option.bind (utf8_decode b) json_loads)"
  shows "bodies_read_back env env'"
proof -
  have n: "int (length (dec_str (nat \<bar>n\<bar>))) \<le> MAX_STR_DIGITS" if "number_field n" for n
  proof -
    have "nat n < 10 ^ 19" using that by (simp add: number_field_def MAX_I64_def nat_less_iff)
    then have "length (dec_str (nat n)) \<le> 19" by (intro length_dec_str_le) simp
    then show ?thesis using that by (simp add: number_field_def MAX_STR_DIGITS_def)
  qed
  have "json_plain (archive_body_json b)" if "archive_body_valid b" for b
    using that n by (simp add: archive_body_valid_def page_view_valid_def revision_view_valid_def citation_valid_def
        archive_body_json_def page_view_json_def revision_view_json_def citation_json_def notice_json_def)
  then show ?thesis using utf8_decode_encode json_loads_text by (simp add: bodies_read_back_def assms)
qed

lemma sample_created_reachable: "\<exists>tr. reachable sample_sha content4 tr"
proof -
  obtain tr where "app_run (sv_sha sample_env) (sample_app, \<lambda>_. [])
      (\<lparr>ap_content = content4, ap_auth = auth_db4, ap_records = [new_record]\<rparr>, tr)"
    by (rule create_archive_run [OF sample_created])
  then have "store_steps sample_sha (sample_content, \<lambda>_. []) (content4, tr)"
    by (simp add: app_run_def sample_app_def)
  then show ?thesis using sample_reachable_start store_steps_trans unfolding reachable_def by blast
qed

lemma sample_later:
  "operation_time (sample_env\<lparr>sv_clock := 60\<rparr>) = Inr 60"
  "authenticate sample_sha LAST_USED_COALESCE_MICROSECONDS 60 sample_token auth_db4 = Inr (auth_db4, sample_caller)"
  "authorize_content sample_sha LAST_USED_COALESCE_MICROSECONDS 60 60 sample_token (auth_id 1) (auth_id 3)
     ArchiveWrite auth_db4 = Inr (auth_db4, sample_caller)"
  "get_page sample_sha content4 (auth_id 1) (lit ''19700101t000000000z-notes'') = Inr (Some new_page)"
proof -
  have "\<not> isl (canonical_utc_wire 60)" by code_simp
  then show "operation_time (sample_env\<lparr>sv_clock := 60\<rparr>) = Inr 60"
    by (cases "canonical_utc_wire 60") (simp_all add: operation_time_def)
qed code_simp+

theorem create_repeated_witness:
  "\<exists>body. create_archive (sample_env\<lparr>sv_clock := 60\<rparr>) sample_token
     (sample_command\<lparr>cm_request_id := lit ''req_00000000000000000000000000000000''\<rparr>) (replicate 32 1)
     \<lparr>ap_content = content4, ap_auth = auth_db4, ap_records = [new_record]\<rparr>
   = Inr (\<lparr>ap_content = content4, ap_auth = auth_db4, ap_records = [new_record]\<rparr>, ArchiveReplay body new_response)"
proof -
  let ?app = "\<lparr>ap_content = content4, ap_auth = auth_db4, ap_records = [new_record]\<rparr>"
  let ?env = "sample_env\<lparr>sv_clock := 60\<rparr>"
  obtain tr where tr: "reachable (sv_sha sample_env) (ap_content ?app) tr" using sample_created_reachable by auto
  have run: "app_run (sv_sha sample_env) (?app, tr) (?app, tr)" by (rule app_runI) (simp_all add: records_later.refl)
  have rb: "bodies_read_back sample_env ?env" by (rule sample_bodies_read_back) simp_all
  have c: "cm_library_id sample_command = auth_id 1" by (simp add: sample_command_def)
  have p: "pg_page_id new_page = lit ''19700101t000000000z-notes''" "pg_section_id new_page = auth_id 3"
    "pg_page_type new_page = lit ''archive''" by (simp_all add: new_page_def sample_page_def)
  have "\<exists>body. create_archive ?env sample_token
     (sample_command\<lparr>cm_request_id := lit ''req_00000000000000000000000000000000''\<rparr>) (replicate 32 1) ?app
   = Inr (?app\<lparr>ap_auth := auth_db4\<rparr>, ArchiveReplay body new_response)"
    by (rule create_repeated [OF tr sample_created _ run _ _ _ sample_later(1) rb, where q = new_page
          and a = sample_caller and ?a1.0 = sample_caller and ?a2.0 = sample_caller])
      (simp_all add: sample_later sample_authenticate newest_schema_moves c p sample_app_def get_archive_page_def
        archive_page_def authorize_write_def del: One_nat_def, rule sample_later(3))
  then show ?thesis by simp
qed

end
