(* ===== verification/FileSetSamples.thy ===== *)
theory FileSetSamples
  imports FileSetSteps ReplayTheorems
begin

text \<open>
  A concrete append of two files to the page of the sample archive, evaluated step by step.
\<close>

section \<open>A sample append\<close>

text \<open>Two files for the page of the sample archive, whose Revision so far is its Markdown mirror.\<close>

definition sample_append :: file_set_append where
  "sample_append = \<lparr>sa_library_id = auth_id 1, sa_page_id = lit ''19700101t000000000z-notes'',
     sa_expected_etag = projr (page_etag sample_sha new_page),
     sa_files = [(lit ''b.txt'', [111, 107]), (lit ''a.md'', [104, 105])],
     sa_revision_id = lit ''rev_'' @ replicate 32 49, sa_revision_at = 60,
     sa_source = new_source\<lparr>so_source_id := auth_id 9, so_revision_id := lit ''rev_'' @ replicate 32 49,
       so_revision_number := 2\<rparr>,
     sa_primary_file = Some (lit ''a.md''), sa_override = None\<rparr>"

definition sample_archive :: archive_db where
  "sample_archive = \<lparr>ad_content = content4, ad_presentations = Some []\<rparr>"

lemma length_sample_sha [simp]: "length (sample_sha b) = 32"
  by (simp add: sample_sha_def)

definition sample_snapshot :: file_manifest where
  "sample_snapshot = \<lparr>fm_files = [manifest_file sample_sha (lit ''a.md'') [104, 105], manifest_file sample_sha (lit ''b.txt'') [111, 107]],
     fm_total_size_bytes = 4, fm_snapshot_sha256 = replicate 32 7\<rparr>"

definition next_key :: rev_key where
  "next_key = (auth_id 1, sample_uid, lit ''rev_'' @ replicate 32 49, 2)"

definition snapshot_revision :: revision where
  "snapshot_revision = \<lparr>rv_library_id = auth_id 1, rv_revision_id = lit ''rev_'' @ replicate 32 49, rv_page_uid = sample_uid,
     rv_revision_number = 2, rv_content_md = None, rv_content_size_bytes = None, rv_content_sha256 = None,
     rv_created_at = 60\<rparr>"

definition snapshot1 :: content_db where
  "snapshot1 = content4\<lparr>t_revisions := t_revisions content4 @ [snapshot_revision],
     t_file_sets := t_file_sets content4 @ [file_set_row next_key sample_snapshot],
     t_files := t_files content4 @ file_rows next_key sample_snapshot,
     t_seals := t_seals content4 @ [next_key], t_seal_guards := t_seal_guards content4 @ [next_key],
     t_append_guards := [next_key]\<rparr>"

definition snapshot2 :: content_db where
  "snapshot2 = snapshot1\<lparr>t_sources := t_sources content4 @ [sa_source sample_append]\<rparr>"

definition snapshot_page :: page where
  "snapshot_page = new_page\<lparr>pg_current_revision_id := lit ''rev_'' @ replicate 32 49, pg_current_revision_number := 2,
     pg_updated_at := 60\<rparr>"

definition snapshot3 :: content_db where
  "snapshot3 = snapshot2\<lparr>t_pages := [snapshot_page], t_append_guards := []\<rparr>"

definition snapshot_title :: presentation where
  "snapshot_title = \<lparr>pn_primary_file = Some (lit ''a.md''), pn_display_title = UNTITLED\<rparr>"

lemma sample_files_added:
  "add_file_set_revision new_page (lit ''rev_'' @ replicate 32 49) 60 sample_snapshot content4 = Inr snapshot1"
  by code_simp

lemma sample_source_added: "add_source_row (sa_source sample_append) snapshot1 = Inr snapshot2"
proof -
  have "source_check (sa_source sample_append)" by code_simp
  then show ?thesis
    by (simp add: add_source_row_def insert_source_def snapshot2_def snapshot1_def snapshot_revision_def
        rev_key_def revision_exists_def page_exists_def sample_append_def new_source_def content4_def content3_def
        content2_def new_page_def sample_page_def page_key_def) code_simp
qed

lemma sample_advanced:
  "advance_file_set_current_revision new_page (lit ''rev_'' @ replicate 32 49) 60 snapshot2
     = Inr (snapshot3, Some snapshot_page)"
  by code_simp

lemma sample_tags: "\<not> isl (page_etag sample_sha snapshot_page)" "\<not> isl (page_etag sample_sha new_page)"
  "isascii (projr (page_etag sample_sha new_page))"
  by code_simp+

lemmas sample_writes = sample_files_added sample_source_added sample_advanced sample_tags

lemma sample_saved:
  "save_presentation next_key snapshot_title \<lparr>ad_content = snapshot2, ad_presentations = Some []\<rparr>
     = Inr \<lparr>ad_content = snapshot2, ad_presentations = Some [\<lparr>pr_key = next_key,
         pr_primary_file = Some (lit ''a.md''), pr_display_title = UNTITLED\<rparr>]\<rparr>"
proof -
  have "revision_exists snapshot2 next_key"
    by (simp add: revision_exists_def snapshot2_def snapshot1_def snapshot_revision_def rev_key_def next_key_def)
  then show ?thesis by (simp add: save_presentation_def snapshot_title_def)
qed

lemma sample_built: "build_file_manifest ascii_unicode sample_sha (sa_files sample_append) = Inr sample_snapshot"
  by code_simp

lemma sample_found: "get_page sample_sha content4 (auth_id 1) (lit ''19700101t000000000z-notes'') = Inr (Some new_page)"
  by code_simp

lemma sample_mirror:
  "get_current_file_manifest ascii_unicode sample_sha content4 new_page =
     Inr \<lparr>fm_files = [manifest_file sample_sha (lit ''content.md'') [104, 105]],
       fm_total_size_bytes = 2, fm_snapshot_sha256 = replicate 32 7\<rparr>"
  by code_simp

lemma sample_target: "append_target sample_append new_page (sa_source sample_append) = Inr ()"
  "chosen_presentation ascii_unicode (\<lambda>_. []) sample_append sample_snapshot = Inr snapshot_title"
  by code_simp+

lemmas sample_reads = sample_built sample_found sample_mirror sample_target

lemma sample_read_back: "get_current_file_manifest ascii_unicode sample_sha snapshot3 snapshot_page = Inr sample_snapshot"
proof -
  obtain tr where "reachable sample_sha content4 tr" using sample_created_reachable by blast
  from written_snapshot_read [OF ascii_nfc_stable length_sample_sha built_manifest_checked [OF sample_reads(1)]
      reachable_files_owned [OF this] sample_writes(1-3)]
  show ?thesis .
qed

lemma sample_appended:
  obtains db res where "append_existing_page ascii_unicode sample_sha (\<lambda>_. []) True sample_append sample_archive = Inr (db, res)"
    "fa_changed res" "fa_manifest res = sample_snapshot" "fa_page res = snapshot_page" "ad_content db = snapshot3"
proof -
  obtain e where e: "page_etag sample_sha new_page = Inr e"
    using sample_writes(5) by (cases "page_etag sample_sha new_page") auto
  obtain e' where e': "page_etag sample_sha snapshot_page = Inr e'"
    using sample_writes(4) by (cases "page_etag sample_sha snapshot_page") auto
  have a: "sa_expected_etag sample_append = e" "sa_library_id sample_append = auth_id 1"
    "sa_page_id sample_append = lit ''19700101t000000000z-notes''" "sa_revision_at sample_append = 60"
    "sa_revision_id sample_append = lit ''rev_'' @ replicate 32 49"
    by (simp_all add: sample_append_def e)
  have p: "pg_deleted_at new_page = None" "pg_library_id new_page = auth_id 1" "pg_page_uid new_page = sample_uid"
    "pg_current_revision_number new_page = 1"
    by (simp_all add: new_page_def sample_page_def)
  have k: "(auth_id 1, sample_uid, lit ''rev_'' @ replicate 32 49, 2) = next_key" by (simp add: next_key_def)
  have "isascii e" using sample_writes(6) by (simp add: e)
  moreover have "sample_snapshot \<noteq> \<lparr>fm_files = [manifest_file sample_sha (lit ''content.md'') [104, 105]],
       fm_total_size_bytes = 2, fm_snapshot_sha256 = replicate 32 7\<rparr>" by (simp add: sample_snapshot_def)
  ultimately show ?thesis using that
    by (simp add: append_existing_page_def write_snapshot_def sample_archive_def sample_reads a p e e'
        k sample_writes sample_saved sample_read_back del: One_nat_def)
qed

end
