(* ===== verification/FileSetTheorems.thy ===== *)
theory FileSetTheorems
  imports FileSetSamples
begin

text \<open>
  A snapshot that was written is read back exactly, now and in every later store; its operations are
  transactions of the content store, and the check of the written rows never fails.
\<close>

section \<open>Properties\<close>

text \<open>C12: the snapshot that an append stores, or finds already stored, is the manifest of the uploaded
  files, and reading the files of that Revision returns it in every later store: a sealed Revision never
  changes. The append itself is a run of content transactions.\<close>

theorem append_read_back:
  assumes u: "nfc_stable u" and sha: "\<And>b. length (sha b) = 32" and r: "reachable sha (ad_content db) tr"
    and a: "append_existing_page u sha parse tx a db = Inr (db', res)"
  shows "build_file_manifest u sha (sa_files a) = Inr (fa_manifest res)
    \<and> (\<exists>tr'. store_steps sha (ad_content db, tr) (ad_content db', tr'))
    \<and> (\<forall>t later t'. store_steps sha (ad_content db', t) (later, t')
        \<longrightarrow> get_current_file_manifest u sha later (fa_page res) = Inr (fa_manifest res))"
proof -
  obtain m p where m: "build_file_manifest u sha (sa_files a) = Inr m" "fa_manifest res = m"
    and c: "(db' = db \<and> \<not> fa_changed res \<and> fa_page res = p \<and> get_current_file_manifest u sha (ad_content db) p = Inr m)
     \<or> (fa_changed res \<and> pg_updated_at p < sa_revision_at a
        \<and> (\<exists>pres. write_snapshot u sha a p m pres db = Inr (db', res)))"
    by (rule append_existing_page_Inr [OF a])
  have "get_current_file_manifest u sha (ad_content db') (fa_page res) = Inr m
    \<and> (\<exists>tr'. store_steps sha (ad_content db, tr) (ad_content db', tr'))"
    using c
  proof
    assume "db' = db \<and> \<not> fa_changed res \<and> fa_page res = p \<and> get_current_file_manifest u sha (ad_content db) p = Inr m"
    then show ?thesis by (auto intro: store_steps_refl)
  next
    assume w: "fa_changed res \<and> pg_updated_at p < sa_revision_at a
        \<and> (\<exists>pres. write_snapshot u sha a p m pres db = Inr (db', res))"
    then obtain pres where "write_snapshot u sha a p m pres db = Inr (db', res)" by blast
    then obtain c1 c2 db3 c4 q where w1: "add_file_set_revision p (sa_revision_id a) (sa_revision_at a) m (ad_content db) = Inr c1"
      and w2: "add_source_row (sa_source a) c1 = Inr c2"
      and w3: "save_presentation (pg_library_id p, pg_page_uid p, sa_revision_id a, pg_current_revision_number p + 1) pres
        (db\<lparr>ad_content := c2\<rparr>) = Inr db3"
      and w4: "advance_file_set_current_revision p (sa_revision_id a) (sa_revision_at a) (ad_content db3) = Inr (c4, Some q)"
      and w5: "get_current_file_manifest u sha c4 q = Inr m" "ad_content db' = c4" "fa_page res = q"
      by (rule write_snapshot_Inr)
    have "ad_content db3 = c2" using save_presentation_content [OF w3] by simp
    then show ?thesis
      using file_set_transaction_steps [OF r _ w1 w2, of c4 q] w w4 w5 by metis
  qed
  then show ?thesis using m sealed_manifest_kept store_steps_extend by blast
qed

text \<open>C13: the read-back check after a write never fails. Whatever is appended to or created in a reachable
  store, the services never report that the stored snapshot differs from the request.\<close>

theorem snapshot_never_differs:
  assumes u: "nfc_stable u" and sha: "\<And>b. length (sv_sha env b) = 32"
    and r: "reachable (sv_sha env) (ad_content db) tr"
  shows "append_existing_page u (sv_sha env) parse tx a db \<noteq> Inl SnapshotDiffers
    \<and> create_page u parse env book title occurred_at at m source primary db \<noteq> Inl SnapshotDiffers"
proof
  note o = reachable_files_owned [OF r]
  show "append_existing_page u (sv_sha env) parse tx a db \<noteq> Inl SnapshotDiffers"
  proof
    assume "append_existing_page u (sv_sha env) parse tx a db = Inl SnapshotDiffers"
    then obtain m p pres where m: "build_file_manifest u (sv_sha env) (sa_files a) = Inr m"
      and d: "write_snapshot u (sv_sha env) a p m pres db = Inl SnapshotDiffers"
      using append_differs by blast
    show False
      using write_snapshot_differs [OF d]
        written_snapshot_read [where sha = "sv_sha env", OF u sha built_manifest_checked [OF m] o] by blast
  qed
  show "create_page u parse env book title occurred_at at m source primary db \<noteq> Inl SnapshotDiffers"
  proof
    assume d: "create_page u parse env book title occurred_at at m source primary db = Inl SnapshotDiffers"
    from d obtain c1 g p c2 c3 i c5 s c6 where c: "file_manifest_check u (sv_sha env) m = Inr ()"
      and al: "allocate_page_id env (bk_library_id book) title occurred_at (ad_content db) = Inr (c1, g)"
      and w: "add_page (sv_sha env) p c1 = Inr c2" "insert_initial_revision p m c2 = Inr c3"
        "pg_current_revision_number p = 1" "add_identifier i c3 = Inr c5" "add_source_row s c5 = Inr c6"
      and ne: "get_current_file_manifest u (sv_sha env) c6 p \<noteq> Inr m"
      by (rule create_differs)
    have "files_owned c1"
      using files_extend_owned [OF store_steps_extend [OF allocate_page_id_steps [OF al]] o] .
    then show False
      using created_snapshot_read [where sha = "sv_sha env", OF u sha c _ w] ne by blast
  qed
qed

theorem append_read_back_witness:
  "\<exists>db res. append_existing_page ascii_unicode sample_sha (\<lambda>_. []) True sample_append sample_archive = Inr (db, res)
    \<and> fa_changed res \<and> map mf_name (fm_files (fa_manifest res)) = [lit ''a.md'', lit ''b.txt'']
    \<and> get_current_file_manifest ascii_unicode sample_sha (ad_content db) (fa_page res) = Inr (fa_manifest res)"
proof -
  obtain db res where a: "append_existing_page ascii_unicode sample_sha (\<lambda>_. []) True sample_append sample_archive = Inr (db, res)"
    and c: "fa_changed res" "fa_manifest res = sample_snapshot"
    by (rule sample_appended)
  obtain tr where "reachable sample_sha (ad_content sample_archive) tr"
    using sample_created_reachable by (auto simp: sample_archive_def)
  from append_read_back [OF ascii_nfc_stable length_sample_sha this a] store_steps_refl
  have "get_current_file_manifest ascii_unicode sample_sha (ad_content db) (fa_page res) = Inr (fa_manifest res)" by blast
  then show ?thesis using a c by (auto simp: sample_snapshot_def)
qed

theorem snapshot_never_differs_witness:
  "append_existing_page ascii_unicode sample_sha (\<lambda>_. []) True sample_append sample_archive \<noteq> Inl SnapshotDiffers
   \<and> \<not> isl (append_existing_page ascii_unicode sample_sha (\<lambda>_. []) True sample_append sample_archive)"
proof -
  obtain db res where a: "append_existing_page ascii_unicode sample_sha (\<lambda>_. []) True sample_append sample_archive = Inr (db, res)"
    by (rule sample_appended)
  obtain tr where "reachable (sv_sha sample_env) (ad_content sample_archive) tr"
    using sample_created_reachable by (auto simp: sample_archive_def)
  from snapshot_never_differs [OF ascii_nfc_stable _ this, of "\<lambda>_. []" True sample_append]
  show ?thesis by (simp add: a)
qed

end
