(* ===== verification/SearchLiteral.thy ===== *)
theory SearchLiteral
  imports FileManifest "HOL-Library.Sublist"
begin

text \<open>
  \<open>search/literal_v2.py\<close>: normalization of literals, the 1-, 2- and 3-gram terms of a field, the
  candidate expression of a query, and the exact verification of a page. The Unicode tables are the
  record of \<open>UnicodeText\<close>; the size of a chunk, its cache and the term budget are arguments of the
  gram loop, so that it can be evaluated on small texts.
\<close>

section \<open>Limits, values and errors\<close>

definition MAX_UNIQUE_TERMS :: int where "MAX_UNIQUE_TERMS = 262144"
definition MAX_QUERY_BYTES :: int where "MAX_QUERY_BYTES = 32 * 1024"
definition MAX_QUERY_KEYWORDS :: int where "MAX_QUERY_KEYWORDS = 256"
definition MAX_NORMALIZED_QUERY_BYTES :: int where "MAX_NORMALIZED_QUERY_BYTES = 4 * MAX_QUERY_BYTES"
definition MAX_NORMALIZED_FIELD_BYTES :: int where "MAX_NORMALIZED_FIELD_BYTES = 4 * MAX_FILE_BYTES"
definition MAX_PAGE_MATCH_WORK :: int where "MAX_PAGE_MATCH_WORK = 512 * 1024 * 1024"
definition GRAM_CHUNK_CODEPOINTS :: nat where "GRAM_CHUNK_CODEPOINTS = 4096"
definition MAX_CACHED_GRAM_CHUNKS :: int where "MAX_CACHED_GRAM_CHUNKS = 1024"

text \<open>A \<open>str\<close> or a \<open>bytes\<close> argument.\<close>

datatype literal_value = Text pystr | Raw bytes

datatype literal_error =
    InvalidUtf8
  | CodepointLimit
  | ByteLimit
  | NormalizedCodepointLimit
  | NormalizedByteLimit
  | KeywordCount
  | EmptyKeyword
  | QueryByteLimit
  | NormalizedQueryLimit
  | EmptyLibrary
  | UniqueGramLimit
  | FilterOnly
  | TooManyPageFiles
  | PageByteLimit
  | MatchWorkLimit
  | DuplicatePageFiles

datatype hit_source = TitleHit | BodyHit | FileNameHit | FileTextHit

record literal_hit =
  lh_keyword :: pystr
  lh_source :: hit_source
  lh_file_name :: "pystr option"

section \<open>Normalization\<close>

definition input_byte_size :: "literal_value \<Rightarrow> literal_error + int" where
  "input_byte_size v =
     (case v of
        Raw b \<Rightarrow> Inr (int (length b))
      | Text s \<Rightarrow> bindR (optionR InvalidUtf8 (utf8_encode s)) (\<lambda>b. Inr (int (length b))))"

definition fold_text :: "unicode_data \<Rightarrow> pystr \<Rightarrow> pystr" where
  "fold_text u s = uc_nfc u (uc_casefold u (uc_nfc u s))"

definition literal_text :: "literal_value \<Rightarrow> literal_error + pystr" where
  "literal_text v = (case v of Raw b \<Rightarrow> optionR InvalidUtf8 (utf8_decode b) | Text s \<Rightarrow> Inr s)"

definition normalize_literal :: "unicode_data \<Rightarrow> literal_value \<Rightarrow> literal_error + pystr" where
  "normalize_literal u v =
     (if (case v of Text s \<Rightarrow> int (length s) > MAX_FILE_BYTES | Raw _ \<Rightarrow> False) then Inl CodepointLimit
      else bindR (input_byte_size v) (\<lambda>n.
        if n > MAX_FILE_BYTES then Inl ByteLimit
        else bindR (literal_text v) (\<lambda>t.
          let normalized = fold_text u t in
          if int (length normalized) > MAX_NORMALIZED_FIELD_BYTES then Inl NormalizedCodepointLimit
          else bindR (optionR InvalidUtf8 (utf8_encode normalized)) (\<lambda>b.
            if int (length b) > MAX_NORMALIZED_FIELD_BYTES then Inl NormalizedByteLimit
            else Inr normalized))))"

text \<open>The loop of \<open>normalize_keywords\<close> with its two running sizes, its set and its result.\<close>

fun collect_keywords ::
  "unicode_data \<Rightarrow> int \<Rightarrow> int \<Rightarrow> pystr list \<Rightarrow> pystr list \<Rightarrow> literal_error + pystr list" where
  "collect_keywords u raw folded found [] = Inr found"
| "collect_keywords u raw folded found (k # ks) =
     (if k = [] then Inl EmptyKeyword
      else bindR (optionR InvalidUtf8 (utf8_encode k)) (\<lambda>b.
        let raw' = raw + int (length b) in
        if raw' > MAX_QUERY_BYTES then Inl QueryByteLimit
        else bindR (normalize_literal u (Text k)) (\<lambda>n.
          bindR (optionR InvalidUtf8 (utf8_encode n)) (\<lambda>nb.
            let folded' = folded + int (length nb) in
            if folded' > MAX_NORMALIZED_QUERY_BYTES then Inl NormalizedQueryLimit
            else collect_keywords u raw' folded' (if n \<in> set found then found else found @ [n]) ks))))"

definition normalize_keywords :: "unicode_data \<Rightarrow> pystr list \<Rightarrow> literal_error + pystr list" where
  "normalize_keywords u ks =
     (if int (length ks) > MAX_QUERY_KEYWORDS then Inl KeywordCount else collect_keywords u 0 0 [] ks)"

section \<open>Terms\<close>

definition encoded_gram :: "pystr \<Rightarrow> pystr" where
  "encoded_gram gram = lit ''g'' @ dec_str (length gram) @ lit ''x'' @ hex_bytes (name_bytes gram)"

definition encoded_library_token :: "(bytes \<Rightarrow> bytes) \<Rightarrow> pystr \<Rightarrow> literal_error + pystr" where
  "encoded_library_token sha library =
     (if library = [] then Inl EmptyLibrary
      else bindR (optionR InvalidUtf8 (utf8_encode library)) (\<lambda>b.
        Inr (lit ''libx'' @ take 32 (hex_bytes (sha b)))))"

text \<open>The grams that start in the first \<open>places\<close> places of a window, in the order of the two loops.\<close>

definition window_grams :: "nat \<Rightarrow> pystr \<Rightarrow> pystr list" where
  "window_grams places window =
     concat (map (\<lambda>offset. map (\<lambda>width. slice offset (offset + width) window)
        [1..<min 3 (length window - offset) + 1]) [0..<places])"

fun add_grams :: "int \<Rightarrow> pystr list \<Rightarrow> pystr list \<Rightarrow> literal_error + pystr list" where
  "add_grams limit grams [] = Inr grams"
| "add_grams limit grams (g # gs) =
     (if g \<in> set grams then add_grams limit grams gs
      else if int (length grams) \<ge> limit then Inl UniqueGramLimit
      else add_grams limit (g # grams) gs)"

fun gram_chunks ::
  "nat \<Rightarrow> int \<Rightarrow> int \<Rightarrow> pystr list \<Rightarrow> pystr list \<Rightarrow> pystr list \<Rightarrow> literal_error + pystr list" where
  "gram_chunks chunk cache limit cached grams [] = Inr grams"
| "gram_chunks chunk cache limit cached grams (w # ws) =
     (if w \<in> set cached then gram_chunks chunk cache limit cached grams ws
      else bindR (add_grams limit grams (window_grams (min chunk (length w)) w)) (\<lambda>grams'.
        gram_chunks chunk cache limit
          (if int (length cached) < cache then w # cached else cached) grams' ws))"

definition gram_windows :: "nat \<Rightarrow> pystr \<Rightarrow> pystr list" where
  "gram_windows chunk s =
     map (\<lambda>i. take (chunk + 2) (drop (i * chunk) s)) [0..<(length s + chunk - 1) div chunk]"

definition encoded_grams :: "unicode_data \<Rightarrow> literal_value \<Rightarrow> literal_error + pystr list" where
  "encoded_grams u v =
     bindR (normalize_literal u v) (\<lambda>s.
     bindR (gram_chunks GRAM_CHUNK_CODEPOINTS MAX_CACHED_GRAM_CHUNKS MAX_UNIQUE_TERMS [] []
         (gram_windows GRAM_CHUNK_CODEPOINTS s)) (\<lambda>grams.
     Inr (sort (map encoded_gram grams))))"

definition candidate_token :: "pystr \<Rightarrow> pystr" where
  "candidate_token keyword = encoded_gram (take (min 3 (length keyword)) keyword)"

fun join_or :: "pystr list \<Rightarrow> pystr" where
  "join_or [] = []"
| "join_or [t] = 34 # t @ [34]"
| "join_or (t # ts) = (34 # t @ [34]) @ lit '' OR '' @ join_or ts"

definition candidate_match_expression :: "unicode_data \<Rightarrow> pystr list \<Rightarrow> literal_error + pystr" where
  "candidate_match_expression u ks =
     bindR (normalize_keywords u ks) (\<lambda>normalized.
     if normalized = [] then Inl FilterOnly
     else Inr (join_or (sort (remdups (map candidate_token normalized)))))"

section \<open>Verification of a page\<close>

text \<open>\<open>keyword in field\<close>\<close>

fun contains :: "pystr \<Rightarrow> pystr \<Rightarrow> bool" where
  "contains k [] = (k = [])"
| "contains k (c # s) = (take (length k) (c # s) = k \<or> contains k s)"

record match_state =
  ms_hits :: "literal_hit list"
  ms_names :: "pystr list"
  ms_bytes :: int
  ms_work :: int

definition check_field ::
  "unicode_data \<Rightarrow> pystr list \<Rightarrow> hit_source \<Rightarrow> pystr option \<Rightarrow> literal_value \<Rightarrow> bool \<Rightarrow> match_state
    \<Rightarrow> literal_error + match_state" where
  "check_field u needles source name v counted m =
     bindR (if counted then input_byte_size v else Inr 0) (\<lambda>n.
     let total = ms_bytes m + n in
     if counted \<and> total > MAX_PAGE_BYTES then Inl PageByteLimit
     else bindR (normalize_literal u v) (\<lambda>text.
       let work = ms_work m + int (length text) * int (length needles) in
       if work > MAX_PAGE_MATCH_WORK then Inl MatchWorkLimit
       else Inr (m\<lparr>ms_hits := ms_hits m @ map (\<lambda>k. \<lparr>lh_keyword = k, lh_source = source, lh_file_name = name\<rparr>)
                      (filter (\<lambda>k. contains k text) needles),
                   ms_bytes := total, ms_work := work\<rparr>)))"

definition check_name :: "unicode_data \<Rightarrow> pystr \<Rightarrow> match_state \<Rightarrow> literal_error + match_state" where
  "check_name u name m =
     bindR (normalize_literal u (Text name)) (\<lambda>key.
     if key \<in> set (ms_names m) then Inl DuplicatePageFiles
     else Inr (m\<lparr>ms_names := key # ms_names m\<rparr>))"

fun check_text_files ::
  "unicode_data \<Rightarrow> pystr list \<Rightarrow> (pystr \<times> literal_value) list \<Rightarrow> match_state \<Rightarrow> literal_error + match_state" where
  "check_text_files u needles [] m = Inr m"
| "check_text_files u needles ((name, content) # fs) m =
     bindR (check_name u name m) (\<lambda>m1.
     bindR (check_field u needles FileNameHit (Some name) (Text name) False m1) (\<lambda>m2.
     bindR (check_field u needles FileTextHit (Some name) content True m2) (check_text_files u needles fs)))"

fun check_opaque_files :: "unicode_data \<Rightarrow> pystr list \<Rightarrow> pystr list \<Rightarrow> match_state \<Rightarrow> literal_error + match_state" where
  "check_opaque_files u needles [] m = Inr m"
| "check_opaque_files u needles (name # fs) m =
     bindR (check_name u name m) (\<lambda>m1.
     bindR (check_field u needles FileNameHit (Some name) (Text name) False m1) (check_opaque_files u needles fs))"

definition find_page_hits ::
  "unicode_data \<Rightarrow> pystr list \<Rightarrow> pystr \<Rightarrow> literal_value option \<Rightarrow> (pystr \<times> literal_value) list \<Rightarrow> pystr list
    \<Rightarrow> literal_error + literal_hit list" where
  "find_page_hits u keywords title body text_files opaque =
     bindR (normalize_keywords u keywords) (\<lambda>needles.
     if int (length text_files) + int (length opaque) > MAX_FILES_PER_PAGE then Inl TooManyPageFiles
     else
       bindR (check_field u needles TitleHit None (Text title) False
         \<lparr>ms_hits = [], ms_names = [], ms_bytes = 0, ms_work = 0\<rparr>) (\<lambda>m1.
       bindR (case body of None \<Rightarrow> Inr m1 | Some b \<Rightarrow> check_field u needles BodyHit None b True m1) (\<lambda>m2.
       bindR (check_text_files u needles text_files m2) (\<lambda>m3.
       bindR (check_opaque_files u needles opaque m3) (\<lambda>m4. Inr (ms_hits m4))))))"

section \<open>The gram loop\<close>

definition grams_of :: "pystr \<Rightarrow> pystr set" where
  "grams_of s = {g. g \<noteq> [] \<and> length g \<le> 3 \<and> sublist g s}"

lemma sublist_take_drop: "sublist g s \<longleftrightarrow> (\<exists>i. i + length g \<le> length s \<and> g = take (length g) (drop i s))"
proof
  assume "sublist g s"
  then obtain p q where "s = p @ g @ q" by (auto simp: sublist_def)
  then show "\<exists>i. i + length g \<le> length s \<and> g = take (length g) (drop i s)"
    by (intro exI [of _ "length p"]) simp
next
  assume "\<exists>i. i + length g \<le> length s \<and> g = take (length g) (drop i s)"
  then obtain i where "g = take (length g) (drop i s)" by blast
  then have "s = take i s @ g @ drop (length g) (drop i s)" by (metis append_take_drop_id)
  then show "sublist g s" by (auto simp: sublist_def)
qed

lemma contains_iff: "contains k s \<longleftrightarrow> sublist k s"
proof (induction s)
  case (Cons c s)
  have "take (length k) (c # s) = k \<longleftrightarrow> prefix k (c # s)"
    by (metis append_eq_conv_conj prefix_def take_is_prefix)
  then show ?case using Cons by (simp add: sublist_Cons_right)
qed simp

lemma set_window_grams:
  "set (window_grams places w) =
     {slice i (i + n) w | i n. i < places \<and> 1 \<le> n \<and> n \<le> 3 \<and> i + n \<le> length w}"
  by (force simp: window_grams_def)

text \<open>Every gram of a text starts in one chunk, and its window has all of it.\<close>

lemma windows_cover:
  assumes c: "0 < chunk"
  shows "(\<Union>w \<in> set (gram_windows chunk s). set (window_grams (min chunk (length w)) w)) = grams_of s"
proof (intro set_eqI iffI)
  fix g assume "g \<in> (\<Union>w \<in> set (gram_windows chunk s). set (window_grams (min chunk (length w)) w))"
  then obtain k i n where g: "g = slice i (i + n) (take (chunk + 2) (drop (k * chunk) s))" and n: "1 \<le> n" "n \<le> 3"
    and l: "i + n \<le> length (take (chunk + 2) (drop (k * chunk) s))"
    by (auto simp: set_window_grams gram_windows_def)
  have "drop i (take (chunk + 2) (drop (k * chunk) s)) = take (chunk + 2 - i) (drop (k * chunk + i) s)"
    by (simp add: drop_take add.commute)
  moreover have "n \<le> chunk + 2 - i" using l by (auto split: if_splits)
  ultimately have d: "g = take n (drop (k * chunk + i) s)" by (simp add: g slice_def min_absorb1 take_take)
  have "k * chunk + i + n \<le> length s" using l n by auto
  then have "length g = n \<and> k * chunk + i + length g \<le> length s" by (simp add: d)
  then show "g \<in> grams_of s" using n d unfolding grams_of_def sublist_take_drop by force
next
  fix g assume "g \<in> grams_of s"
  then obtain i where i: "i + length g \<le> length s" "g = take (length g) (drop i s)" and n: "g \<noteq> []" "length g \<le> 3"
    by (auto simp: grams_of_def sublist_take_drop)
  obtain k p where io: "k * chunk + p = i" "p < chunk" and k: "k = i div chunk"
    using c div_mult_mod_eq mod_less_divisor by blast
  let ?w = "take (chunk + 2) (drop (k * chunk) s)"
  have l: "1 \<le> length g" using n by (cases g) auto
  then have il: "i < length s" using i by simp
  have "k < (length s + chunk - 1) div chunk"
  proof -
    have "(i + chunk) div chunk \<le> (length s + chunk - 1) div chunk" using il by (intro div_le_mono) simp
    moreover have "(i + chunk) div chunk = Suc (i div chunk)" using c div_add_self2 [of chunk i] by simp
    ultimately show ?thesis using k by linarith
  qed
  then have w: "?w \<in> set (gram_windows chunk s)" by (auto simp: gram_windows_def)
  have lw: "p + length g \<le> length ?w" using i io n by simp
  have "drop p ?w = take (chunk + 2 - p) (drop i s)" using io by (simp add: drop_take add.commute)
  then have "slice p (p + length g) ?w = take (length g) (drop i s)" using io n by (simp add: slice_def min_def)
  then have g: "g = slice p (p + length g) ?w" using i(2) by simp
  have "p < min chunk (length ?w)" using io lw l by simp
  then have "g \<in> set (window_grams (min chunk (length ?w)) ?w)"
    unfolding set_window_grams using g l n(2) lw by blast
  then show "g \<in> (\<Union>w \<in> set (gram_windows chunk s). set (window_grams (min chunk (length w)) w))"
    using w by blast
qed

lemma add_grams_spec:
  assumes "distinct grams" and "int (length grams) \<le> limit"
  shows "if int (card (set grams \<union> set gs)) \<le> limit
    then \<exists>r. add_grams limit grams gs = Inr r \<and> distinct r \<and> set r = set grams \<union> set gs
    else add_grams limit grams gs = Inl UniqueGramLimit"
  using assms
proof (induction gs arbitrary: grams)
  case Nil
  then show ?case by (simp add: distinct_card)
next
  case (Cons g gs)
  consider "g \<in> set grams" | "g \<notin> set grams" "int (length grams) \<ge> limit"
    | "g \<notin> set grams" "int (length grams) < limit" by linarith
  then show ?case
  proof cases
    case 1
    then have "set grams \<union> set (g # gs) = set grams \<union> set gs" by auto
    then show ?thesis using Cons.IH [OF Cons.prems] 1 by simp
  next
    case 2
    have "card (insert g (set grams)) \<le> card (set grams \<union> set (g # gs))" by (intro card_mono) auto
    then have "limit < int (card (set grams \<union> set (g # gs)))"
      using 2 Cons.prems(1) by (simp add: distinct_card)
    then show ?thesis using 2 by simp
  next
    case 3
    have "set (g # grams) \<union> set gs = set grams \<union> set (g # gs)" by auto
    then show ?thesis using Cons.IH [of "g # grams"] 3 Cons.prems by (auto split: if_split_asm)
  qed
qed

lemma gram_chunks_spec:
  assumes "distinct grams" and "int (length grams) \<le> limit"
    and "\<forall>w \<in> set cached. set (window_grams (min chunk (length w)) w) \<subseteq> set grams"
  shows "let all = set grams \<union> (\<Union>w \<in> set ws. set (window_grams (min chunk (length w)) w)) in
    if int (card all) \<le> limit
    then \<exists>r. gram_chunks chunk cache limit cached grams ws = Inr r \<and> distinct r \<and> set r = all
    else gram_chunks chunk cache limit cached grams ws = Inl UniqueGramLimit"
  using assms
proof (induction ws arbitrary: grams cached)
  case Nil
  then show ?case by (simp add: Let_def distinct_card)
next
  case (Cons w ws)
  let ?g = "\<lambda>w. set (window_grams (min chunk (length w)) w)"
  show ?case
  proof (cases "w \<in> set cached")
    case True
    then have e: "set grams \<union> (\<Union>w \<in> set (w # ws). ?g w) = set grams \<union> (\<Union>w \<in> set ws. ?g w)"
      using Cons.prems(3) by auto
    show ?thesis using Cons.IH [OF Cons.prems] True unfolding e gram_chunks.simps(2) by simp
  next
    case False
    let ?new = "window_grams (min chunk (length w)) w"
    let ?all = "set grams \<union> (\<Union>w \<in> set (w # ws). ?g w)"
    note a = add_grams_spec [OF Cons.prems(1,2), of ?new]
    show ?thesis
    proof (cases "int (card (set grams \<union> set ?new)) \<le> limit")
      case True
      then obtain r where r: "add_grams limit grams ?new = Inr r" "distinct r" "set r = set grams \<union> set ?new"
        using a by auto
      have "int (length r) \<le> limit" using True r by (simp add: distinct_card [symmetric])
      moreover have "set r \<union> (\<Union>w \<in> set ws. ?g w) = ?all" using r(3) by auto
      ultimately show ?thesis
        using Cons.IH [of r "if int (length cached) < cache then w # cached else cached"] r False Cons.prems(3)
        by (fastforce simp: Let_def split: if_splits)
    next
      case f: False
      have "card (set grams \<union> set ?new) \<le> card ?all" by (intro card_mono) auto
      then have "limit < int (card ?all)" using f by simp
      then show ?thesis using a f False by (simp add: Let_def)
    qed
  qed
qed

end
