(* ===== verification/SearchTheorems.thy ===== *)
theory SearchTheorems
  imports SearchLiteral
begin

text \<open>
  The search terms and their verification: the chunked gram loop computes the grams of the whole field,
  a query term never misses a field that contains a keyword, and the hits of a page are exactly the
  keywords its fields contain.
\<close>

section \<open>Terms of one field\<close>

lemma finite_grams_of: "finite (grams_of s)"
proof -
  have "grams_of s \<subseteq> (\<lambda>(i, n). take n (drop i s)) ` ({..length s} \<times> {..3})"
    by (force simp: grams_of_def sublist_take_drop image_iff)
  then show ?thesis by (rule finite_subset) simp
qed

lemma encodable_sublist:
  assumes "utf8_encode s = Some b" "sublist g s"
  shows "utf8_encode g = Some (name_bytes g)"
proof -
  have "list_all is_scalar s" using assms(1) utf8_encode_defined by blast
  then have "list_all is_scalar g" using assms(2) by (auto simp: sublist_def)
  then show ?thesis using utf8_encode_defined [of g] by (auto simp: name_bytes_def)
qed

lemma takeWhile_dec_str: "takeWhile is_digit (dec_str n @ 120 # t) = dec_str n"
proof -
  have "takeWhile is_digit (d @ 120 # t) = d" if "list_all is_digit d" for d
    using that by (induction d) (auto simp: is_digit_def)
  then show ?thesis using dec_str_digits by blast
qed

lemma encoded_gram_inj:
  assumes "utf8_encode g = Some b" "utf8_encode h = Some c" "encoded_gram g = encoded_gram h"
  shows "g = h"
proof -
  have e: "dec_str (length g) @ 120 # hex_bytes (name_bytes g) = dec_str (length h) @ 120 # hex_bytes (name_bytes h)"
    using assms(3) by (simp add: encoded_gram_def lit_def)
  then have "dec_str (length g) = dec_str (length h)" by (metis takeWhile_dec_str)
  then have "hex_bytes (name_bytes g) = hex_bytes (name_bytes h)" using e by simp
  then have "b = c" using assms(1,2) hex_bytes_inj by (auto simp: name_bytes_def)
  then show ?thesis using assms utf8_encode_inj by blast
qed

lemma normalize_literal_Inr:
  assumes "normalize_literal u v = Inr s"
  shows "\<exists>t b. literal_text v = Inr t \<and> s = fold_text u t \<and> utf8_encode s = Some b
    \<and> int (length b) \<le> MAX_NORMALIZED_FIELD_BYTES \<and> int (length s) \<le> MAX_NORMALIZED_FIELD_BYTES"
  using assms by (auto simp: normalize_literal_def result_simps Let_def split: if_splits)

lemma sort_sorted_list_of_set: "distinct xs \<Longrightarrow> sort xs = sorted_list_of_set (set xs)"
  by (simp add: sorted_list_of_set_sort_remdups distinct_remdups_id)

lemma encoded_grams_terms:
  assumes n: "normalize_literal u v = Inr s"
  shows "encoded_grams u v =
    (if int (card (grams_of s)) \<le> MAX_UNIQUE_TERMS then Inr (sorted_list_of_set (encoded_gram ` grams_of s))
     else Inl UniqueGramLimit)"
proof -
  obtain b where b: "utf8_encode s = Some b" using normalize_literal_Inr [OF n] by blast
  have inj: "inj_on encoded_gram (grams_of s)"
    using encodable_sublist [OF b] encoded_gram_inj by (intro inj_onI) (fastforce simp: grams_of_def)
  have c: "{} \<union> (\<Union>w \<in> set (gram_windows GRAM_CHUNK_CODEPOINTS s).
      set (window_grams (min GRAM_CHUNK_CODEPOINTS (length w)) w)) = grams_of s"
    using windows_cover [of GRAM_CHUNK_CODEPOINTS s] by (simp add: GRAM_CHUNK_CODEPOINTS_def)
  have sp: "if int (card (grams_of s)) \<le> MAX_UNIQUE_TERMS
    then \<exists>r. gram_chunks GRAM_CHUNK_CODEPOINTS MAX_CACHED_GRAM_CHUNKS MAX_UNIQUE_TERMS [] []
        (gram_windows GRAM_CHUNK_CODEPOINTS s) = Inr r \<and> distinct r \<and> set r = grams_of s
    else gram_chunks GRAM_CHUNK_CODEPOINTS MAX_CACHED_GRAM_CHUNKS MAX_UNIQUE_TERMS [] []
        (gram_windows GRAM_CHUNK_CODEPOINTS s) = Inl UniqueGramLimit"
  proof -
    have "int (length ([] :: pystr list)) \<le> MAX_UNIQUE_TERMS" by (simp add: MAX_UNIQUE_TERMS_def)
    from gram_chunks_spec [OF distinct.simps(1) [THEN iffD2, OF TrueI] this, of "[]" GRAM_CHUNK_CODEPOINTS
        "gram_windows GRAM_CHUNK_CODEPOINTS s" MAX_CACHED_GRAM_CHUNKS]
    show ?thesis using c by (auto simp: Let_def split: if_split_asm)
  qed
  show ?thesis
  proof (cases "int (card (grams_of s)) \<le> MAX_UNIQUE_TERMS")
    case True
    then obtain r where r: "gram_chunks GRAM_CHUNK_CODEPOINTS MAX_CACHED_GRAM_CHUNKS MAX_UNIQUE_TERMS [] []
        (gram_windows GRAM_CHUNK_CODEPOINTS s) = Inr r" "distinct r" "set r = grams_of s"
      using sp by auto
    have "distinct (map encoded_gram r)" using r inj by (simp add: distinct_map)
    then have "sort (map encoded_gram r) = sorted_list_of_set (encoded_gram ` grams_of s)"
      using sort_sorted_list_of_set [of "map encoded_gram r"] r(3) by simp
    then show ?thesis using True r by (simp add: encoded_grams_def n)
  next
    case False
    then show ?thesis using sp by (simp add: encoded_grams_def n)
  qed
qed

text \<open>C22: the terms of a field are the encodings of all its 1-, 2- and 3-grams, sorted and without
  repetition, although the field is read in chunks of which equal ones are skipped; and the only other
  outcome is the error for too many distinct terms, never a partial index.\<close>

theorem encoded_grams_all:
  assumes "normalize_literal u v = Inr s"
  shows "encoded_grams u v =
    (if int (card {g. g \<noteq> [] \<and> length g \<le> 3 \<and> sublist g s}) \<le> MAX_UNIQUE_TERMS
     then Inr (sorted_list_of_set (encoded_gram ` {g. g \<noteq> [] \<and> length g \<le> 3 \<and> sublist g s}))
     else Inl UniqueGramLimit)"
  using encoded_grams_terms [OF assms] by (simp add: grams_of_def)

theorem encoded_grams_all_witness:
  "encoded_grams ascii_unicode (Text (lit ''Ab''))
   = Inr (sorted_list_of_set (encoded_gram ` {g. g \<noteq> [] \<and> length g \<le> 3 \<and> sublist g (lit ''ab'')}))"
proof -
  have n: "normalize_literal ascii_unicode (Text (lit ''Ab'')) = Inr (lit ''ab'')" by code_simp
  have e: "encoded_grams ascii_unicode (Text (lit ''Ab'')) = Inr [lit ''g1x61'', lit ''g1x62'', lit ''g2x6162'']"
    by code_simp
  then show ?thesis using encoded_grams_all [OF n] by (simp split: if_splits)
qed

section \<open>Queries\<close>

text \<open>What the loop over the keywords returns.\<close>

definition folded_keyword :: "unicode_data \<Rightarrow> pystr \<Rightarrow> pystr" where
  "folded_keyword u k = projr (normalize_literal u (Text k))"

definition text_bytes :: "pystr list \<Rightarrow> int" where
  "text_bytes ks = sum_list (map (\<lambda>k. int (length (name_bytes k))) ks)"

lemma text_bytes_append [simp]: "text_bytes (xs @ ys) = text_bytes xs + text_bytes ys"
  by (simp add: text_bytes_def)

lemma text_bytes_nonneg [simp]: "0 \<le> text_bytes ks"
  unfolding text_bytes_def by (rule sum_list_nonneg) auto

lemma collect_keywords_Inr:
  assumes "collect_keywords u raw folded found ks = Inr needles"
  shows "set needles = set found \<union> folded_keyword u ` set ks"
    "distinct found \<Longrightarrow> distinct needles"
    "\<forall>k \<in> set ks. k \<noteq> [] \<and> normalize_literal u (Text k) = Inr (folded_keyword u k)"
    "text_bytes needles + folded \<le> text_bytes found + MAX_NORMALIZED_QUERY_BYTES \<or> needles = found"
proof -
  have "set needles = set found \<union> folded_keyword u ` set ks \<and> (distinct found \<longrightarrow> distinct needles)
    \<and> (\<forall>k \<in> set ks. k \<noteq> [] \<and> normalize_literal u (Text k) = Inr (folded_keyword u k))
    \<and> (text_bytes needles + folded \<le> text_bytes found + MAX_NORMALIZED_QUERY_BYTES \<or> needles = found)"
    using assms
  proof (induction ks arbitrary: raw folded found)
    case Nil
    then show ?case by simp
  next
    case (Cons k ks)
    obtain b n nb where k: "k \<noteq> []" "utf8_encode k = Some b" "normalize_literal u (Text k) = Inr n"
      "utf8_encode n = Some nb" and lim: "folded + int (length nb) \<le> MAX_NORMALIZED_QUERY_BYTES"
      and r: "collect_keywords u (raw + int (length b)) (folded + int (length nb))
        (if n \<in> set found then found else found @ [n]) ks = Inr needles"
      using Cons.prems by (auto simp: Let_def result_simps split: if_splits)
    have f: "folded_keyword u k = n" using k by (simp add: folded_keyword_def)
    have nb: "text_bytes [n] = int (length nb)" using k by (simp add: text_bytes_def name_bytes_def)
    show ?case using Cons.IH [OF r] k f nb lim by (auto split: if_splits)
  qed
  then show "set needles = set found \<union> folded_keyword u ` set ks"
    "distinct found \<Longrightarrow> distinct needles"
    "\<forall>k \<in> set ks. k \<noteq> [] \<and> normalize_literal u (Text k) = Inr (folded_keyword u k)"
    "text_bytes needles + folded \<le> text_bytes found + MAX_NORMALIZED_QUERY_BYTES \<or> needles = found"
    by blast+
qed

lemma normalize_keywords_Inr:
  assumes "normalize_keywords u ks = Inr needles"
  shows "set needles = folded_keyword u ` set ks" "distinct needles" "int (length ks) \<le> MAX_QUERY_KEYWORDS"
    "text_bytes needles \<le> MAX_NORMALIZED_QUERY_BYTES"
    "k \<in> set ks \<Longrightarrow> k \<noteq> [] \<and> normalize_literal u (Text k) = Inr (folded_keyword u k)"
proof -
  have c: "collect_keywords u 0 0 [] ks = Inr needles" and l: "int (length ks) \<le> MAX_QUERY_KEYWORDS"
    using assms by (auto simp: normalize_keywords_def split: if_splits)
  note i = collect_keywords_Inr [OF c]
  show "set needles = folded_keyword u ` set ks" "distinct needles" "int (length ks) \<le> MAX_QUERY_KEYWORDS"
    using i l by simp_all
  show "text_bytes needles \<le> MAX_NORMALIZED_QUERY_BYTES"
    using i(4) by (auto simp: text_bytes_def MAX_NORMALIZED_QUERY_BYTES_def MAX_QUERY_BYTES_def)
  show "k \<in> set ks \<Longrightarrow> k \<noteq> [] \<and> normalize_literal u (Text k) = Inr (folded_keyword u k)" using i(3) by blast
qed

lemma needles_nonempty:
  assumes "keeps_text u" "normalize_keywords u ks = Inr needles" "n \<in> set needles"
  shows "n \<noteq> []"
proof -
  obtain k where k: "k \<in> set ks" "n = folded_keyword u k" using normalize_keywords_Inr(1) [OF assms(2)] assms(3) by auto
  then have "k \<noteq> []" "n = fold_text u k"
    using normalize_keywords_Inr(5) [OF assms(2) k(1)] normalize_literal_Inr [of u "Text k"] by (auto simp: literal_text_def)
  then show ?thesis using assms(1) by (auto simp: keeps_text_def fold_text_def)
qed

lemma candidate_token_grams:
  assumes k: "keyword \<noteq> []" and s: "utf8_encode s = Some b"
  shows "sublist keyword s \<Longrightarrow> candidate_token keyword \<in> encoded_gram ` grams_of s"
    and "length keyword \<le> 3 \<Longrightarrow> utf8_encode keyword = Some c
      \<Longrightarrow> candidate_token keyword \<in> encoded_gram ` grams_of s \<longleftrightarrow> sublist keyword s"
proof -
  let ?t = "take (min 3 (length keyword)) keyword"
  have "sublist ?t keyword" by (metis append_take_drop_id append_Nil sublist_def)
  moreover have "?t \<noteq> []" "length ?t \<le> 3" using k by (cases keyword; simp)+
  ultimately show 1: "candidate_token keyword \<in> encoded_gram ` grams_of s" if "sublist keyword s"
    using that sublist_order.order.trans unfolding candidate_token_def grams_of_def by blast
  show "candidate_token keyword \<in> encoded_gram ` grams_of s \<longleftrightarrow> sublist keyword s"
    if l: "length keyword \<le> 3" and c: "utf8_encode keyword = Some c"
  proof
    assume "candidate_token keyword \<in> encoded_gram ` grams_of s"
    then obtain g where g: "g \<in> grams_of s" "encoded_gram keyword = encoded_gram g"
      using l by (auto simp: candidate_token_def min_def split: if_splits)
    then have "keyword = g" using encoded_gram_inj [OF c] encodable_sublist [OF s] by (auto simp: grams_of_def)
    then show "sublist keyword s" using g by (simp add: grams_of_def)
  qed (rule 1)
qed

section \<open>Hits\<close>

text \<open>The fields of a page in the order they are read, with their sources and file names.\<close>

definition page_fields ::
  "pystr \<Rightarrow> literal_value option \<Rightarrow> (pystr \<times> literal_value) list \<Rightarrow> pystr list
    \<Rightarrow> (hit_source \<times> pystr option \<times> literal_value) list" where
  "page_fields title body text_files opaque =
     (TitleHit, None, Text title) # (case body of None \<Rightarrow> [] | Some b \<Rightarrow> [(BodyHit, None, b)])
     @ concat (map (\<lambda>(n, c). [(FileNameHit, Some n, Text n), (FileTextHit, Some n, c)]) text_files)
     @ map (\<lambda>n. (FileNameHit, Some n, Text n)) opaque"

definition field_hits ::
  "unicode_data \<Rightarrow> pystr list \<Rightarrow> hit_source \<times> pystr option \<times> literal_value \<Rightarrow> literal_hit list" where
  "field_hits u needles f =
     (case f of (source, name, v) \<Rightarrow>
        map (\<lambda>k. \<lparr>lh_keyword = k, lh_source = source, lh_file_name = name\<rparr>)
          (filter (\<lambda>k. sublist k (projr (normalize_literal u v))) needles))"

lemma check_field_Inr:
  assumes "check_field u needles source name v counted m = Inr m'"
  shows "ms_hits m' = ms_hits m @ field_hits u needles (source, name, v)" "\<not> isl (normalize_literal u v)"
  using assms by (auto simp: check_field_def field_hits_def result_simps Let_def contains_iff split: if_splits)

lemma check_name_Inr: "check_name u name m = Inr m' \<Longrightarrow> ms_hits m' = ms_hits m"
  by (auto simp: check_name_def result_simps split: if_splits)

lemma check_text_files_Inr:
  "check_text_files u needles fs m = Inr m' \<Longrightarrow>
    ms_hits m' = ms_hits m @ concat (map (field_hits u needles)
      (concat (map (\<lambda>(n, c). [(FileNameHit, Some n, Text n), (FileTextHit, Some n, c)]) fs)))
    \<and> (\<forall>(n, c) \<in> set fs. \<not> isl (normalize_literal u (Text n)) \<and> \<not> isl (normalize_literal u c))"
proof (induction fs arbitrary: m)
  case (Cons f fs)
  obtain n c where f: "f = (n, c)" by (cases f)
  obtain m1 m2 m3 where "check_name u n m = Inr m1"
    "check_field u needles FileNameHit (Some n) (Text n) False m1 = Inr m2"
    "check_field u needles FileTextHit (Some n) c True m2 = Inr m3" "check_text_files u needles fs m3 = Inr m'"
    using Cons.prems by (auto simp: f result_simps)
  then show ?case using Cons.IH check_name_Inr check_field_Inr by (fastforce simp: f)
qed simp

lemma check_opaque_files_Inr:
  "check_opaque_files u needles fs m = Inr m' \<Longrightarrow>
    ms_hits m' = ms_hits m @ concat (map (field_hits u needles) (map (\<lambda>n. (FileNameHit, Some n, Text n)) fs))
    \<and> (\<forall>n \<in> set fs. \<not> isl (normalize_literal u (Text n)))"
proof (induction fs arbitrary: m)
  case (Cons n fs)
  obtain m1 m2 where "check_name u n m = Inr m1"
    "check_field u needles FileNameHit (Some n) (Text n) False m1 = Inr m2" "check_opaque_files u needles fs m2 = Inr m'"
    using Cons.prems by (auto simp: result_simps)
  then show ?case using Cons.IH check_name_Inr check_field_Inr by (fastforce simp: comp_def)
qed simp

lemma find_page_hits_fields:
  assumes "find_page_hits u ks title body text_files opaque = Inr hits"
  shows "\<exists>needles. normalize_keywords u ks = Inr needles
    \<and> hits = concat (map (field_hits u needles) (page_fields title body text_files opaque))
    \<and> (\<forall>(source, name, v) \<in> set (page_fields title body text_files opaque). \<not> isl (normalize_literal u v))"
proof -
  let ?m0 = "\<lparr>ms_hits = [], ms_names = [], ms_bytes = 0, ms_work = 0\<rparr>"
  obtain needles m1 m2 m3 m4 where n: "normalize_keywords u ks = Inr needles"
    and m1: "check_field u needles TitleHit None (Text title) False ?m0 = Inr m1"
    and m2: "(case body of None \<Rightarrow> Inr m1 | Some b \<Rightarrow> check_field u needles BodyHit None b True m1) = Inr m2"
    and m3: "check_text_files u needles text_files m2 = Inr m3"
    and m4: "check_opaque_files u needles opaque m3 = Inr m4" and h: "hits = ms_hits m4"
    using assms by (auto simp: find_page_hits_def result_simps split: if_splits)
  have b: "ms_hits m2 = ms_hits m1 @ concat (map (field_hits u needles) (case body of None \<Rightarrow> [] | Some b \<Rightarrow> [(BodyHit, None, b)]))
    \<and> (\<forall>b. body = Some b \<longrightarrow> \<not> isl (normalize_literal u b))"
    using m2 check_field_Inr by (cases body) auto
  have "hits = concat (map (field_hits u needles) (page_fields title body text_files opaque))"
    using h check_field_Inr(1) [OF m1] b check_text_files_Inr [OF m3] check_opaque_files_Inr [OF m4]
    by (simp add: page_fields_def)
  moreover have "\<forall>(source, name, v) \<in> set (page_fields title body text_files opaque). \<not> isl (normalize_literal u v)"
    using check_field_Inr(2) [OF m1] b check_text_files_Inr [OF m3] check_opaque_files_Inr [OF m4]
    by (auto simp: page_fields_def split: option.splits)
  ultimately show ?thesis using n by blast
qed

section \<open>Properties\<close>

text \<open>C20: the hits of a page are exactly the normalized keywords that its normalized fields contain, field by
  field - title, body, then name and text of each text file, then the names of the others - each keyword at
  most once in a field.\<close>

theorem find_page_hits_exact:
  assumes "find_page_hits u keywords title body text_files opaque = Inr hits"
  shows "\<exists>needles. normalize_keywords u keywords = Inr needles \<and> distinct needles
    \<and> hits = concat (map (\<lambda>(source, name, v).
        map (\<lambda>k. \<lparr>lh_keyword = k, lh_source = source, lh_file_name = name\<rparr>)
          (filter (\<lambda>k. sublist k (projr (normalize_literal u v))) needles))
        (page_fields title body text_files opaque))
    \<and> (\<forall>(source, name, v) \<in> set (page_fields title body text_files opaque). \<not> isl (normalize_literal u v))"
  using find_page_hits_fields [OF assms] normalize_keywords_Inr(2)
  by (auto simp: field_hits_def [abs_def] case_prod_unfold)

theorem find_page_hits_exact_witness:
  "find_page_hits ascii_unicode [lit ''AB'', lit ''zz''] (lit ''xab'') None [(lit ''a.txt'', Raw [65, 66])] [lit ''zz.bin'']
   = Inr [\<lparr>lh_keyword = lit ''ab'', lh_source = TitleHit, lh_file_name = None\<rparr>,
      \<lparr>lh_keyword = lit ''ab'', lh_source = FileTextHit, lh_file_name = Some (lit ''a.txt'')\<rparr>,
      \<lparr>lh_keyword = lit ''zz'', lh_source = FileNameHit, lh_file_name = Some (lit ''zz.bin'')\<rparr>]
   \<and> (\<exists>needles. normalize_keywords ascii_unicode [lit ''AB'', lit ''zz''] = Inr needles \<and> distinct needles)"
proof -
  have e: "find_page_hits ascii_unicode [lit ''AB'', lit ''zz''] (lit ''xab'') None [(lit ''a.txt'', Raw [65, 66])] [lit ''zz.bin'']
   = Inr [\<lparr>lh_keyword = lit ''ab'', lh_source = TitleHit, lh_file_name = None\<rparr>,
      \<lparr>lh_keyword = lit ''ab'', lh_source = FileTextHit, lh_file_name = Some (lit ''a.txt'')\<rparr>,
      \<lparr>lh_keyword = lit ''zz'', lh_source = FileNameHit, lh_file_name = Some (lit ''zz.bin'')\<rparr>]"
    by code_simp
  show ?thesis using e find_page_hits_exact [OF e] by blast
qed

text \<open>C21: the candidate terms of a query never miss: whenever the verification of a page reports a keyword in
  one of its fields, the term that the query looks for is among the indexed terms of that field; and for a
  keyword of at most three code points the term is there only if the keyword is.\<close>

theorem candidates_complete:
  assumes "keeps_text u" and h: "find_page_hits u keywords title body text_files opaque = Inr hits"
    and hit: "hit \<in> set hits"
  shows "\<exists>v. (lh_source hit, lh_file_name hit, v) \<in> set (page_fields title body text_files opaque)
    \<and> (\<forall>terms. encoded_grams u v = Inr terms \<longrightarrow> candidate_token (lh_keyword hit) \<in> set terms)
    \<and> (\<forall>w terms. length (lh_keyword hit) \<le> 3 \<and> encoded_grams u w = Inr terms \<longrightarrow>
        (candidate_token (lh_keyword hit) \<in> set terms) = sublist (lh_keyword hit) (projr (normalize_literal u w)))"
proof -
  obtain needles where n: "normalize_keywords u keywords = Inr needles"
    and hs: "hits = concat (map (field_hits u needles) (page_fields title body text_files opaque))"
    and ok: "\<forall>(source, name, v) \<in> set (page_fields title body text_files opaque). \<not> isl (normalize_literal u v)"
    using find_page_hits_fields [OF h] by blast
  obtain f where f: "f \<in> set (page_fields title body text_files opaque)" "hit \<in> set (field_hits u needles f)"
    using hit by (auto simp: hs)
  obtain source name v where fv: "f = (source, name, v)" by (cases f)
  have k: "lh_keyword hit \<in> set needles" "lh_source hit = source" "lh_file_name hit = name"
    and sub: "sublist (lh_keyword hit) (projr (normalize_literal u v))"
    using f(2) by (auto simp: field_hits_def fv)
  have ne: "lh_keyword hit \<noteq> []" by (rule needles_nonempty [OF assms(1) n k(1)])
  obtain kw where "lh_keyword hit = folded_keyword u kw" "kw \<in> set keywords"
    using normalize_keywords_Inr(1) [OF n] k(1) by auto
  then obtain kb where kb: "utf8_encode (lh_keyword hit) = Some kb"
    using normalize_keywords_Inr(5) [OF n] normalize_literal_Inr by metis
  have terms: "\<exists>s b. normalize_literal u w = Inr s \<and> utf8_encode s = Some b \<and> set ts = encoded_gram ` grams_of s"
    if "encoded_grams u w = Inr ts" for w ts
  proof -
    obtain s where s: "normalize_literal u w = Inr s" using \<open>encoded_grams u w = Inr ts\<close>
      by (auto simp: encoded_grams_def result_simps)
    then have "ts = sorted_list_of_set (encoded_gram ` grams_of s)"
      using encoded_grams_terms [OF s] that by (simp split: if_splits)
    then have "set ts = encoded_gram ` grams_of s" using finite_grams_of by simp
    then show ?thesis using s normalize_literal_Inr [OF s] by blast
  qed
  have "candidate_token (lh_keyword hit) \<in> set ts" if "encoded_grams u v = Inr ts" for ts
    using terms [OF that] candidate_token_grams(1) [OF ne] sub by fastforce
  moreover have "(candidate_token (lh_keyword hit) \<in> set ts) = sublist (lh_keyword hit) (projr (normalize_literal u w))"
    if "length (lh_keyword hit) \<le> 3" "encoded_grams u w = Inr ts" for w ts
    using terms [OF that(2)] candidate_token_grams(2) [OF ne _ that(1) kb] by fastforce
  ultimately show ?thesis using f(1) k by (auto simp: fv)
qed

theorem candidates_complete_witness:
  "encoded_grams ascii_unicode (Text (lit ''xab'')) =
     Inr [lit ''g1x61'', lit ''g1x62'', lit ''g1x78'', lit ''g2x6162'', lit ''g2x7861'', lit ''g3x786162'']
   \<and> candidate_token (lit ''ab'') \<in> set [lit ''g1x61'', lit ''g1x62'', lit ''g1x78'', lit ''g2x6162'',
        lit ''g2x7861'', lit ''g3x786162'']"
proof -
  have h: "find_page_hits ascii_unicode [lit ''AB''] (lit ''xab'') None [] []
   = Inr [\<lparr>lh_keyword = lit ''ab'', lh_source = TitleHit, lh_file_name = None\<rparr>]"
    by code_simp
  have g: "encoded_grams ascii_unicode (Text (lit ''xab'')) =
     Inr [lit ''g1x61'', lit ''g1x62'', lit ''g1x78'', lit ''g2x6162'', lit ''g2x7861'', lit ''g3x786162'']"
    by code_simp
  have "page_fields (lit ''xab'') None [] [] = [(TitleHit, None, Text (lit ''xab''))]" by (simp add: page_fields_def)
  with candidates_complete [OF ascii_keeps_text h list.set_intros(1)] g show ?thesis by auto
qed

section \<open>The budgets of a query\<close>

text \<open>The first copy of each member, in the order of the list.\<close>

definition first_copies :: "'a list \<Rightarrow> 'a list" where
  "first_copies xs = rev (remdups (rev xs))"

lemma first_copies_snoc: "first_copies (xs @ [x]) = (if x \<in> set xs then first_copies xs else first_copies xs @ [x])"
  by (simp add: first_copies_def)

lemma set_first_copies [simp]: "set (first_copies xs) = set xs"
  by (simp add: first_copies_def)

lemma text_bytes_simps [simp]: "text_bytes [] = 0" "text_bytes (x # xs) = int (length (name_bytes x)) + text_bytes xs"
  by (simp_all add: text_bytes_def)

definition query_accepted :: "unicode_data \<Rightarrow> int \<Rightarrow> int \<Rightarrow> pystr list \<Rightarrow> bool" where
  "query_accepted u raw folded ks \<longleftrightarrow>
     (\<forall>k \<in> set ks. k \<noteq> [] \<and> utf8_encode k \<noteq> None \<and> (\<exists>n. normalize_literal u (Text k) = Inr n))
     \<and> (ks \<noteq> [] \<longrightarrow> raw + text_bytes ks \<le> MAX_QUERY_BYTES
          \<and> folded + text_bytes (map (folded_keyword u) ks) \<le> MAX_NORMALIZED_QUERY_BYTES)"

lemma query_accepted_Cons:
  "query_accepted u raw folded (k # ks) \<longleftrightarrow>
     k \<noteq> [] \<and> (\<exists>b n nb. utf8_encode k = Some b \<and> normalize_literal u (Text k) = Inr n \<and> utf8_encode n = Some nb
       \<and> raw + int (length b) \<le> MAX_QUERY_BYTES \<and> folded + int (length nb) \<le> MAX_NORMALIZED_QUERY_BYTES
       \<and> query_accepted u (raw + int (length b)) (folded + int (length nb)) ks)"
proof (cases "k \<noteq> [] \<and> utf8_encode k \<noteq> None \<and> (\<exists>n. normalize_literal u (Text k) = Inr n)")
  case False
  then show ?thesis by (auto simp: query_accepted_def)
next
  case True
  then obtain b n where kb: "utf8_encode k = Some b" and n: "normalize_literal u (Text k) = Inr n" by blast
  obtain nb where nb: "utf8_encode n = Some nb" using normalize_literal_Inr [OF n] by blast
  have f: "folded_keyword u k = n" using n by (simp add: folded_keyword_def)
  have l: "name_bytes k = b" "name_bytes n = nb" using kb nb by (simp_all add: name_bytes_def)
  have p: "0 \<le> text_bytes ks" "0 \<le> text_bytes (map (folded_keyword u) ks)" by simp_all
  let ?P = "\<forall>x \<in> set ks. x \<noteq> [] \<and> utf8_encode x \<noteq> None \<and> (\<exists>n. normalize_literal u (Text x) = Inr n)"
  have "query_accepted u raw folded (k # ks) \<longleftrightarrow> ?P
     \<and> raw + (int (length b) + text_bytes ks) \<le> MAX_QUERY_BYTES
     \<and> folded + (int (length nb) + text_bytes (map (folded_keyword u) ks)) \<le> MAX_NORMALIZED_QUERY_BYTES"
    using True by (simp add: query_accepted_def f l)
  also have "\<dots> \<longleftrightarrow> raw + int (length b) \<le> MAX_QUERY_BYTES \<and> folded + int (length nb) \<le> MAX_NORMALIZED_QUERY_BYTES
     \<and> query_accepted u (raw + int (length b)) (folded + int (length nb)) ks"
    unfolding query_accepted_def using p by (cases "ks = []") (simp, linarith)
  finally show ?thesis using True kb n nb by simp
qed

lemma collect_keywords_iff:
  "collect_keywords u raw folded (first_copies (map (folded_keyword u) done)) ks = Inr needles \<longleftrightarrow>
     query_accepted u raw folded ks \<and> needles = first_copies (map (folded_keyword u) (done @ ks))"
proof (induction ks arbitrary: raw folded "done")
  case Nil
  then show ?case by (auto simp: query_accepted_def)
next
  case (Cons k ks)
  have step: "(if n \<in> set (first_copies (map (folded_keyword u) done)) then first_copies (map (folded_keyword u) done)
      else first_copies (map (folded_keyword u) done) @ [n]) = first_copies (map (folded_keyword u) (done @ [k]))"
    if "normalize_literal u (Text k) = Inr n" for n
    using that by (simp add: first_copies_snoc folded_keyword_def)
  show ?case
  proof (cases "k \<noteq> [] \<and> utf8_encode k \<noteq> None \<and> (\<exists>n. normalize_literal u (Text k) = Inr n)")
    case False
    then show ?thesis
      by (cases "utf8_encode k"; cases "normalize_literal u (Text k)") (auto simp: query_accepted_Cons Let_def)
  next
    case True
    then obtain b n where kb: "utf8_encode k = Some b" and n: "normalize_literal u (Text k) = Inr n" by blast
    obtain nb where nb: "utf8_encode n = Some nb" using normalize_literal_Inr [OF n] by blast
    show ?thesis
      using True Cons.IH [of "raw + int (length b)" "folded + int (length nb)" "done @ [k]"]
      by (simp add: query_accepted_Cons Let_def kb n nb step [OF n] not_less del: set_first_copies)
  qed
qed

text \<open>C23: a query is accepted exactly when it has at most 256 keywords, none of them empty and each with a
  UTF-8 form and a normal form, the given texts take at most 32 KiB together and their normal forms,
  repetitions counted, at most 128 KiB; the result is then the first copy of every normal form, in order.\<close>

theorem normalize_keywords_bounded:
  "normalize_keywords u keywords = Inr needles \<longleftrightarrow>
     int (length keywords) \<le> 256
     \<and> (\<forall>k \<in> set keywords. k \<noteq> [] \<and> utf8_encode k \<noteq> None \<and> (\<exists>n. normalize_literal u (Text k) = Inr n))
     \<and> sum_list (map (\<lambda>k. int (length (name_bytes k))) keywords) \<le> 32768
     \<and> sum_list (map (\<lambda>k. int (length (name_bytes (folded_keyword u k)))) keywords) \<le> 131072
     \<and> needles = rev (remdups (rev (map (folded_keyword u) keywords)))"
proof -
  have c: "collect_keywords u 0 0 [] keywords = Inr needles \<longleftrightarrow>
      query_accepted u 0 0 keywords \<and> needles = rev (remdups (rev (map (folded_keyword u) keywords)))"
    using collect_keywords_iff [of u 0 0 "[]" "keywords" needles] by (simp add: first_copies_def)
  have "query_accepted u 0 0 keywords \<longleftrightarrow>
      (\<forall>k \<in> set keywords. k \<noteq> [] \<and> utf8_encode k \<noteq> None \<and> (\<exists>n. normalize_literal u (Text k) = Inr n))
      \<and> text_bytes keywords \<le> MAX_QUERY_BYTES
      \<and> text_bytes (map (folded_keyword u) keywords) \<le> MAX_NORMALIZED_QUERY_BYTES"
    by (cases "keywords = []") (simp_all add: query_accepted_def MAX_NORMALIZED_QUERY_BYTES_def MAX_QUERY_BYTES_def)
  then show ?thesis
    by (simp add: normalize_keywords_def c text_bytes_def comp_def MAX_QUERY_KEYWORDS_def
        MAX_NORMALIZED_QUERY_BYTES_def MAX_QUERY_BYTES_def)
qed

theorem normalize_keywords_bounded_witness:
  "normalize_keywords ascii_unicode [lit ''Ab'', lit ''aB'', lit ''c''] = Inr [lit ''ab'', lit ''c'']
   \<and> sum_list (map (\<lambda>k. int (length (name_bytes k))) [lit ''Ab'', lit ''aB'', lit ''c'']) \<le> 32768"
proof -
  have n: "normalize_keywords ascii_unicode [lit ''Ab'', lit ''aB'', lit ''c''] = Inr [lit ''ab'', lit ''c'']"
    by code_simp
  show ?thesis using n normalize_keywords_bounded [of ascii_unicode "[lit ''Ab'', lit ''aB'', lit ''c'']" "[lit ''ab'', lit ''c'']"]
    by blast
qed

end
