(* ===== verification/OperatorService.thy ===== *)
theory OperatorService
  imports ArchiveService
begin

text \<open>
  \<open>operator/service.py\<close>: the local bootstrap and recovery of an operator, and the operator's
  requests on callers, credentials and Section grants, with the audit rows they write. The clock
  and the identifier factory are sequences: the \<open>i\<close>-th call of a request returns the \<open>i\<close>-th value.
  A request that raises is rolled back, so it has no new store.
\<close>

section \<open>State, errors and surroundings\<close>

record operator_audit = audit_event +
  oa_target_caller_id :: "pystr option"
  oa_section_id :: "pystr option"
  oa_section_action :: "section_action option"
  oa_policy_version_before :: "int option"
  oa_policy_version_after :: "int option"

record bootstrap_marker =
  bm_library_id :: pystr
  bm_operator_caller_id :: pystr
  bm_initial_credential_id :: pystr
  bm_created_at :: int

record operator_db =
  op_auth :: auth_db
  op_markers :: "bootstrap_marker list"
  op_audits :: "operator_audit list"

datatype operator_error =
    OperatorAuth archive_error
  | BootstrapAlreadyCompleted
  | ResourceNotFound
  | CredentialLifecycle
  | PolicyConflict
  | OperatorRecoveryUnavailable

text \<open>\<open>oe_strip\<close> is the trimming of the schemas, \<open>oe_selector\<close> and \<open>oe_secret\<close> the random bytes of
  the token a request issues.\<close>

record operator_env =
  oe_sha :: "bytes \<Rightarrow> bytes"
  oe_clock :: "nat \<Rightarrow> int"
  oe_ids :: "nat \<Rightarrow> pystr"
  oe_selector :: bytes
  oe_secret :: bytes
  oe_strip :: "pystr \<Rightarrow> pystr"

section \<open>Rows the requests insert\<close>

definition bounded_text :: "nat \<Rightarrow> nat \<Rightarrow> pystr \<Rightarrow> bool" where
  "bounded_text lo hi s \<longleftrightarrow> lo \<le> length s \<and> length s \<le> hi \<and> utf8_encode s \<noteq> None"

definition new_caller_valid :: "caller \<Rightarrow> bool" where
  "new_caller_valid c \<longleftrightarrow>
     opaque_hex (ca_id c) \<and> opaque_hex (ca_library_id c) \<and> bounded_text 1 200 (ca_name c)
     \<and> bounded_text 0 4000 (ca_description c) \<and> 1 \<le> ca_policy_version c
     \<and> 0 \<le> ca_created_at c \<and> 0 \<le> ca_updated_at c"

definition new_caller ::
  "operator_env \<Rightarrow> pystr \<Rightarrow> pystr \<Rightarrow> caller_kind \<Rightarrow> pystr \<Rightarrow> pystr \<Rightarrow> int \<Rightarrow> caller" where
  "new_caller env new_id library kind name description at =
     \<lparr>ca_id = new_id, ca_library_id = library, ca_kind = kind, ca_name = oe_strip env name,
      ca_description = oe_strip env description, ca_policy_version = 1, ca_created_at = at,
      ca_updated_at = at, ca_disabled_at = None\<rparr>"

definition insert_caller :: "caller \<Rightarrow> auth_db \<Rightarrow> auth_db sql" where
  "insert_caller c auth = (if new_caller_valid c then add_caller c auth else Inl BadValue)"

definition grant_action :: "pystr \<Rightarrow> bool" where
  "grant_action a \<longleftrightarrow> a = lit ''auth.grant.add'' \<or> a = lit ''auth.grant.remove''"

definition operator_audit_valid :: "operator_audit \<Rightarrow> bool" where
  "operator_audit_valid a \<longleftrightarrow>
     new_audit_valid (audit_event.truncate a) \<and> optional opaque_hex (oa_target_caller_id a)
     \<and> optional opaque_hex (oa_section_id a)
     \<and> optional ((\<le>) 1) (oa_policy_version_before a) \<and> optional ((\<le>) 1) (oa_policy_version_after a)
     \<and> (if grant_action (au_action a)
        then oa_target_caller_id a \<noteq> None \<and> oa_section_id a \<noteq> None \<and> oa_section_action a \<noteq> None
        else oa_target_caller_id a = None \<and> oa_section_id a = None \<and> oa_section_action a = None)"

text \<open>\<open>AuthRepository.add_audit_event\<close>: the schema, then the foreign and primary keys.\<close>

definition insert_operator_audit ::
  "auth_db \<Rightarrow> operator_audit \<Rightarrow> operator_audit list \<Rightarrow> operator_audit list sql" where
  "insert_operator_audit auth a audits =
     (if \<not> operator_audit_valid a then Inl BadValue
      else if \<not> audit_references auth (audit_event.truncate a)
         \<or> (case oa_target_caller_id a of None \<Rightarrow> False
            | Some c \<Rightarrow> \<not> list_ex (\<lambda>x. ca_id x = c \<and> ca_library_id x = au_library_id a) (a_callers auth))
         \<or> (case oa_section_id a of None \<Rightarrow> False
            | Some s \<Rightarrow> (au_library_id a, s) \<notin> set (a_sections auth))
         \<or> list_ex (\<lambda>x. au_id x = au_id a) audits
      then Inl SqlError else Inr (audits @ [a]))"

definition operator_event ::
  "pystr \<Rightarrow> pystr \<Rightarrow> pystr \<Rightarrow> pystr \<Rightarrow> pystr \<Rightarrow> pystr \<Rightarrow> pystr \<Rightarrow> pystr \<Rightarrow> int \<Rightarrow> operator_audit" where
  "operator_event event_id library caller_id credential_id action resource_type resource_id request_id at =
     \<lparr>au_id = event_id, au_library_id = library, au_actor_home_library_id = Some library,
      au_actor_caller_id = Some caller_id, au_actor_credential_id = Some credential_id,
      au_action = action, au_resource_type = resource_type, au_resource_id = resource_id,
      au_outcome = lit ''succeeded'', au_request_id = request_id, au_occurred_at = at,
      oa_target_caller_id = None, oa_section_id = None, oa_section_action = None,
      oa_policy_version_before = None, oa_policy_version_after = None\<rparr>"

text \<open>\<open>OperatorService._audit\<close> for the authenticated operator.\<close>

definition actor_event ::
  "authenticated_caller \<Rightarrow> pystr \<Rightarrow> pystr \<Rightarrow> pystr \<Rightarrow> pystr \<Rightarrow> pystr \<Rightarrow> int \<Rightarrow> operator_audit" where
  "actor_event actor event_id action resource_type resource_id request_id at =
     operator_event event_id (ca_library_id (ac_caller actor)) (ca_id (ac_caller actor))
       (cr_id (ac_credential actor)) action resource_type resource_id request_id at"

definition audited ::
  "auth_db \<Rightarrow> operator_audit \<Rightarrow> operator_db \<Rightarrow> 'a \<Rightarrow> operator_error + operator_db \<times> 'a" where
  "audited auth a db x =
     bindR (mapE OperatorAuth (insert_operator_audit auth a (op_audits db))) (\<lambda>audits.
     Inr (db\<lparr>op_auth := auth, op_audits := audits\<rparr>, x))"

definition issue_for ::
  "operator_env \<Rightarrow> nat \<Rightarrow> int \<Rightarrow> caller \<Rightarrow> int option \<Rightarrow> auth_db
    \<Rightarrow> operator_error + auth_db \<times> pystr \<times> credential_record" where
  "issue_for env i at c expires_at auth =
     mapE OperatorAuth
       (issue_credential (oe_sha env) (oe_selector env) (oe_secret env) (oe_ids env i) at c expires_at auth)"

text \<open>A policy row: its foreign key, its checks and the trigger that admits Agent credentials only.\<close>

definition insert_library_policy :: "library_policy_row \<Rightarrow> auth_db \<Rightarrow> auth_db sql" where
  "insert_library_policy p auth =
     (if get_credential auth (lp_home_library_id p) (lp_caller_id p) (lp_credential_id p) = None
         \<or> \<not> (case get_caller auth (lp_home_library_id p) (lp_caller_id p) of
              None \<Rightarrow> False | Some c \<Rightarrow> ca_kind c = Agent)
         \<or> lp_mode p \<noteq> lit ''library_grants''
         \<or> lp_read_mode p \<notin> {lit ''include'', lit ''exclude''}
         \<or> lp_write_mode p \<notin> {lit ''include'', lit ''exclude''} \<or> lp_scope_revision p < 0
         \<or> list_ex (\<lambda>x. lp_credential_id x = lp_credential_id p \<and> lp_caller_id x = lp_caller_id p
              \<and> lp_home_library_id x = lp_home_library_id p) (a_policies auth)
      then Inl SqlError else Inr (auth\<lparr>a_policies := a_policies auth @ [p]\<rparr>))"

section \<open>Bootstrap and recovery\<close>

definition get_bootstrap_marker :: "operator_db \<Rightarrow> pystr \<Rightarrow> bootstrap_marker option" where
  "get_bootstrap_marker db library = find (\<lambda>m. bm_library_id m = library) (op_markers db)"

definition add_bootstrap_marker ::
  "auth_db \<Rightarrow> bootstrap_marker \<Rightarrow> bootstrap_marker list \<Rightarrow> bootstrap_marker list sql" where
  "add_bootstrap_marker auth m markers =
     (if bm_library_id m \<notin> set (a_libraries auth)
         \<or> get_credential auth (bm_library_id m) (bm_operator_caller_id m) (bm_initial_credential_id m) = None
         \<or> bm_created_at m < 0
         \<or> list_ex (\<lambda>x. bm_library_id x = bm_library_id m
              \<or> bm_initial_credential_id x = bm_initial_credential_id m) markers
      then Inl SqlError else Inr (markers @ [m]))"

fun add_grants :: "section_grant list \<Rightarrow> auth_db \<Rightarrow> auth_db sql" where
  "add_grants [] auth = Inr auth"
| "add_grants (g # gs) auth = bindR (add_grant g auth) (add_grants gs)"

definition initial_grant :: "pystr \<Rightarrow> pystr \<Rightarrow> pystr \<times> section_action \<Rightarrow> section_grant" where
  "initial_grant library caller_id g =
     \<lparr>sg_library_id = library, sg_caller_id = caller_id, sg_section_id = fst g, sg_action = snd g\<rparr>"

definition bootstrap ::
  "operator_env \<Rightarrow> pystr \<Rightarrow> pystr \<Rightarrow> pystr \<Rightarrow> int \<Rightarrow> pystr \<Rightarrow> (pystr \<times> section_action) list \<Rightarrow> operator_db
    \<Rightarrow> operator_error + operator_db \<times> bootstrap_marker \<times> caller \<times> pystr \<times> credential_record" where
  "bootstrap env library name description expires_at request_id grants db =
     (if get_bootstrap_marker db library \<noteq> None then Inl BootstrapAlreadyCompleted
      else if library \<notin> set (a_libraries (op_auth db)) then Inl ResourceNotFound
      else
        let at = oe_clock env 0; c = new_caller env (oe_ids env 0) library Operator name description at in
        if expires_at \<le> at then Inl (OperatorAuth CredentialExpiry)
        else
          bindR (mapE OperatorAuth (insert_caller c (op_auth db))) (\<lambda>auth1.
          bindR (issue_for env 1 at c (Some expires_at) auth1) (\<lambda>(auth2, value, credential).
          bindR (mapE OperatorAuth (add_grants (map (initial_grant library (ca_id c)) grants) auth2)) (\<lambda>auth3.
          let m = \<lparr>bm_library_id = library, bm_operator_caller_id = ca_id c,
                   bm_initial_credential_id = cr_id credential, bm_created_at = at\<rparr> in
          bindR (mapE OperatorAuth (add_bootstrap_marker auth3 m (op_markers db))) (\<lambda>markers.
          audited auth3
            (operator_event (oe_ids env 2) library (ca_id c) (cr_id credential) (lit ''operator.bootstrap'')
               (lit ''library'') library request_id at)
            (db\<lparr>op_markers := markers\<rparr>) (m, c, value, credential))))))"

definition list_active_credentials :: "auth_db \<Rightarrow> pystr \<Rightarrow> pystr \<Rightarrow> int \<Rightarrow> credential list" where
  "list_active_credentials auth library caller_id at =
     filter (\<lambda>c. cr_library_id c = library \<and> cr_caller_id c = caller_id \<and> credential_active c at)
       (a_credentials auth)"

text \<open>The loop over the prior active credentials; it returns the retired identifiers.\<close>

fun retire_credentials ::
  "credential list \<Rightarrow> int \<Rightarrow> auth_db \<Rightarrow> operator_error + auth_db \<times> pystr list" where
  "retire_credentials [] at auth = Inr (auth, [])"
| "retire_credentials (c # cs) at auth =
     bindR (mapE OperatorAuth (revoke_credential c at auth)) (\<lambda>(auth1, revoked).
     if revoked = None then Inl OperatorRecoveryUnavailable
     else bindR (retire_credentials cs at auth1) (\<lambda>(auth2, ids). Inr (auth2, cr_id c # ids)))"

text \<open>The \<open>except\<close> clause of the recovery; validation errors of the schemas pass through.\<close>

fun recovery_error :: "operator_error \<Rightarrow> operator_error" where
  "recovery_error (OperatorAuth e) =
     (if e \<in> {CredentialExpiry, CredentialPersistence, SqlError} then OperatorRecoveryUnavailable
      else OperatorAuth e)"
| "recovery_error e = e"

definition recoverable :: "operator_db \<Rightarrow> pystr \<Rightarrow> bootstrap_marker \<Rightarrow> caller option \<Rightarrow> bool" where
  "recoverable db library m caller \<longleftrightarrow>
     (case caller of None \<Rightarrow> False
      | Some c \<Rightarrow> ca_kind c = Operator \<and> ca_disabled_at c = None)
     \<and> get_credential (op_auth db) library (bm_operator_caller_id m) (bm_initial_credential_id m) \<noteq> None"

definition recover ::
  "operator_env \<Rightarrow> pystr \<Rightarrow> int \<Rightarrow> pystr \<Rightarrow> operator_db
    \<Rightarrow> operator_error + operator_db \<times> bootstrap_marker \<times> caller \<times> pystr \<times> credential_record \<times> pystr list" where
  "recover env library expires_at request_id db =
     (case get_bootstrap_marker db library of
        None \<Rightarrow> Inl OperatorRecoveryUnavailable
      | Some m \<Rightarrow>
          let caller = get_caller (op_auth db) library (bm_operator_caller_id m) in
          if \<not> recoverable db library m caller then Inl OperatorRecoveryUnavailable
          else
            let c = the caller; at = oe_clock env 0;
                prior = list_active_credentials (op_auth db) library (ca_id c) at in
            mapE recovery_error
              (bindR (issue_for env 0 at c (Some expires_at) (op_auth db)) (\<lambda>(auth1, value, credential).
               bindR (retire_credentials prior at auth1) (\<lambda>(auth2, retired).
               audited auth2
                 (operator_event (oe_ids env 1) library (ca_id c) (cr_id credential)
                    (lit ''auth.operator.recovery'') (lit ''caller'') (ca_id c) request_id at)
                 db (m, c, value, credential, retired)))))"

section \<open>Requests of the operator\<close>

definition operator_actor ::
  "operator_env \<Rightarrow> int \<Rightarrow> nat \<Rightarrow> pystr \<Rightarrow> pystr \<Rightarrow> auth_db
    \<Rightarrow> operator_error + auth_db \<times> authenticated_caller" where
  "operator_actor env coalesce i token library auth =
     mapE OperatorAuth (require_operator (oe_sha env) coalesce (oe_clock env i) token library auth)"

definition require_caller :: "auth_db \<Rightarrow> pystr \<Rightarrow> pystr \<Rightarrow> operator_error + caller" where
  "require_caller auth library caller_id =
     (case get_caller auth library caller_id of
        None \<Rightarrow> Inl ResourceNotFound
      | Some c \<Rightarrow> if ca_disabled_at c \<noteq> None then Inl (OperatorAuth AuthenticationFailed) else Inr c)"

definition require_agent_caller :: "auth_db \<Rightarrow> pystr \<Rightarrow> pystr \<Rightarrow> operator_error + caller" where
  "require_agent_caller auth library caller_id =
     bindR (require_caller auth library caller_id) (\<lambda>c.
     if ca_kind c \<noteq> Agent then Inl ResourceNotFound else Inr c)"

definition create_agent_caller ::
  "operator_env \<Rightarrow> pystr \<Rightarrow> pystr \<Rightarrow> pystr \<Rightarrow> pystr \<Rightarrow> pystr \<Rightarrow> operator_db
    \<Rightarrow> operator_error + operator_db \<times> caller" where
  "create_agent_caller env token library name description request_id db =
     bindR (operator_actor env LAST_USED_COALESCE_MICROSECONDS 0 token library (op_auth db)) (\<lambda>(auth, actor).
     let at = oe_clock env 1; c = new_caller env (oe_ids env 0) library Agent name description at in
     bindR (mapE OperatorAuth (insert_caller c auth)) (\<lambda>auth1.
     audited auth1
       (actor_event actor (oe_ids env 1) (lit ''auth.caller.create'') (lit ''caller'') (ca_id c) request_id at)
       db c))"

definition create_credential ::
  "operator_env \<Rightarrow> pystr \<Rightarrow> pystr \<Rightarrow> pystr \<Rightarrow> int \<Rightarrow> pystr \<Rightarrow> operator_db
    \<Rightarrow> operator_error + operator_db \<times> pystr \<times> credential_record" where
  "create_credential env token library caller_id expires_at request_id db =
     bindR (operator_actor env LAST_USED_COALESCE_MICROSECONDS 0 token library (op_auth db)) (\<lambda>(auth, actor).
     bindR (require_caller auth library caller_id) (\<lambda>c.
     bindR (issue_for env 0 (oe_clock env 1) c (Some expires_at) auth) (\<lambda>(auth1, value, issued).
     audited auth1
       (actor_event actor (oe_ids env 1) (lit ''auth.credential.create'') (lit ''credential'') (cr_id issued)
          request_id (cr_created_at issued))
       db (value, issued))))"

definition has_library_grant_policy :: "auth_db \<Rightarrow> pystr \<Rightarrow> pystr \<Rightarrow> pystr \<Rightarrow> bool" where
  "has_library_grant_policy auth library caller_id credential_id =
     list_ex (\<lambda>p. lp_home_library_id p = library \<and> lp_caller_id p = caller_id
        \<and> lp_credential_id p = credential_id \<and> lp_mode p = lit ''library_grants'') (a_policies auth)"

definition rotate_credential ::
  "operator_env \<Rightarrow> pystr \<Rightarrow> pystr \<Rightarrow> pystr \<Rightarrow> pystr \<Rightarrow> int \<Rightarrow> pystr \<Rightarrow> operator_db
    \<Rightarrow> operator_error + operator_db \<times> pystr \<times> credential_record" where
  "rotate_credential env token library caller_id credential_id expires_at request_id db =
     bindR (operator_actor env LAST_USED_COALESCE_MICROSECONDS 0 token library (op_auth db)) (\<lambda>(auth, actor).
     bindR (require_caller auth library caller_id) (\<lambda>c.
     case get_credential auth library caller_id credential_id of
       None \<Rightarrow> Inl CredentialLifecycle
     | Some current \<Rightarrow>
         if cr_revoked_at current \<noteq> None \<or> cr_rotated_at current \<noteq> None then Inl CredentialLifecycle
         else if has_library_grant_policy auth library caller_id credential_id then Inl PolicyConflict
         else
           let at = oe_clock env 1 in
           bindR (issue_for env 0 at c (Some expires_at) auth) (\<lambda>(auth1, value, replacement).
           bindR (mapE OperatorAuth (mark_credential_rotated current (cr_id replacement) at auth1)) (\<lambda>(auth2, rotated).
           if rotated = None then Inl CredentialLifecycle
           else
             audited auth2
               (actor_event actor (oe_ids env 1) (lit ''auth.credential.rotate'') (lit ''credential'')
                  (cr_id current) request_id at)
               db (value, replacement)))))"

definition revoke_agent_credential ::
  "operator_env \<Rightarrow> pystr \<Rightarrow> pystr \<Rightarrow> pystr \<Rightarrow> pystr \<Rightarrow> pystr \<Rightarrow> operator_db
    \<Rightarrow> operator_error + operator_db \<times> credential_record" where
  "revoke_agent_credential env token library caller_id credential_id request_id db =
     bindR (operator_actor env LAST_USED_COALESCE_MICROSECONDS 0 token library (op_auth db)) (\<lambda>(auth, actor).
     case get_credential auth library caller_id credential_id of
       None \<Rightarrow> Inl CredentialLifecycle
     | Some current \<Rightarrow>
         if cr_revoked_at current \<noteq> None \<or> cr_rotated_at current \<noteq> None
         then Inr (db\<lparr>op_auth := auth\<rparr>, credential_metadata current)
         else
           let at = oe_clock env 1 in
           bindR (mapE OperatorAuth (revoke_credential current at auth)) (\<lambda>(auth1, revoked).
           case revoked of
             None \<Rightarrow> Inl CredentialLifecycle
           | Some r \<Rightarrow>
               audited auth1
                 (actor_event actor (oe_ids env 0) (lit ''auth.credential.revoke'') (lit ''credential'')
                    (cr_id current) request_id at)
                 db (credential_metadata r)))"

definition with_versions :: "int \<Rightarrow> int \<Rightarrow> operator_audit \<Rightarrow> operator_audit" where
  "with_versions before after a =
     a\<lparr>oa_policy_version_before := Some before, oa_policy_version_after := Some after\<rparr>"

definition disable_agent_caller ::
  "operator_env \<Rightarrow> pystr \<Rightarrow> pystr \<Rightarrow> pystr \<Rightarrow> pystr \<Rightarrow> operator_db
    \<Rightarrow> operator_error + operator_db \<times> caller" where
  "disable_agent_caller env token library caller_id request_id db =
     bindR (operator_actor env (-1) 0 token library (op_auth db)) (\<lambda>(auth0, _).
     case get_caller auth0 library caller_id of
       None \<Rightarrow> Inl ResourceNotFound
     | Some current \<Rightarrow>
         if ca_kind current \<noteq> Agent then Inl ResourceNotFound
         else
           bindR (operator_actor env LAST_USED_COALESCE_MICROSECONDS 1 token library auth0) (\<lambda>(auth, actor).
           if ca_disabled_at current \<noteq> None then Inr (db\<lparr>op_auth := auth\<rparr>, current)
           else
             let at = oe_clock env 2 in
             bindR (mapE OperatorAuth (disable_caller library caller_id at auth)) (\<lambda>(auth1, disabled).
             case disabled of
               None \<Rightarrow> Inl ResourceNotFound
             | Some d \<Rightarrow>
                 audited auth1
                   (with_versions (ca_policy_version current) (ca_policy_version d)
                      (actor_event actor (oe_ids env 0) (lit ''auth.caller.disable'') (lit ''caller'')
                         caller_id request_id at))
                   db d)))"

definition with_grant :: "section_grant \<Rightarrow> operator_audit \<Rightarrow> operator_audit" where
  "with_grant g a =
     a\<lparr>oa_target_caller_id := Some (sg_caller_id g), oa_section_id := Some (sg_section_id g),
       oa_section_action := Some (sg_action g)\<rparr>"

text \<open>The new policy version of the caller and the audit row, common to adding and removing a grant.\<close>

definition grant_changed ::
  "operator_env \<Rightarrow> authenticated_caller \<Rightarrow> pystr \<Rightarrow> caller \<Rightarrow> section_grant \<Rightarrow> pystr \<Rightarrow> auth_db \<Rightarrow> operator_db \<Rightarrow> 'a
    \<Rightarrow> operator_error + operator_db \<times> 'a" where
  "grant_changed env actor action c g request_id auth db x =
     (let at = oe_clock env 1 in
      bindR (mapE OperatorAuth
        (increment_policy_version (sg_library_id g) (sg_caller_id g) (ca_policy_version c) at auth)) (\<lambda>(auth1, updated).
      case updated of
        None \<Rightarrow> Inl PolicyConflict
      | Some u \<Rightarrow>
          audited auth1
            (with_versions (ca_policy_version c) (ca_policy_version u) (with_grant g
               (actor_event actor (oe_ids env 0) action (lit ''section_grant'') (sg_section_id g) request_id at)))
            db x))"

definition new_grant_valid :: "section_grant \<Rightarrow> int \<Rightarrow> bool" where
  "new_grant_valid g at \<longleftrightarrow>
     opaque_hex (sg_library_id g) \<and> opaque_hex (sg_caller_id g) \<and> opaque_hex (sg_section_id g) \<and> 0 \<le> at"

definition add_section_grant ::
  "operator_env \<Rightarrow> pystr \<Rightarrow> section_grant \<Rightarrow> pystr \<Rightarrow> operator_db
    \<Rightarrow> operator_error + operator_db \<times> section_grant" where
  "add_section_grant env token g request_id db =
     bindR (operator_actor env LAST_USED_COALESCE_MICROSECONDS 0 token (sg_library_id g) (op_auth db)) (\<lambda>(auth, actor).
     bindR (require_agent_caller auth (sg_library_id g) (sg_caller_id g)) (\<lambda>c.
     case get_grant auth (sg_library_id g) (sg_caller_id g) (sg_section_id g) (sg_action g) of
       Some existing \<Rightarrow> Inr (db\<lparr>op_auth := auth\<rparr>, existing)
     | None \<Rightarrow>
         bindR (requireR (new_grant_valid g (oe_clock env 1)) (OperatorAuth BadValue)) (\<lambda>_.
         bindR (mapE OperatorAuth (add_grant g auth)) (\<lambda>auth1.
         grant_changed env actor (lit ''auth.grant.add'') c g request_id auth1 db g))))"

definition remove_section_grant ::
  "operator_env \<Rightarrow> pystr \<Rightarrow> section_grant \<Rightarrow> pystr \<Rightarrow> operator_db \<Rightarrow> operator_error + operator_db \<times> bool" where
  "remove_section_grant env token g request_id db =
     bindR (operator_actor env LAST_USED_COALESCE_MICROSECONDS 0 token (sg_library_id g) (op_auth db)) (\<lambda>(auth, actor).
     bindR (require_agent_caller auth (sg_library_id g) (sg_caller_id g)) (\<lambda>c.
     case remove_grant (sg_library_id g) (sg_caller_id g) (sg_section_id g) (sg_action g) auth of
       (auth1, removed) \<Rightarrow>
         if \<not> removed then Inr (db\<lparr>op_auth := auth1\<rparr>, False)
         else grant_changed env actor (lit ''auth.grant.remove'') c g request_id auth1 db True))"

end
