(* ===== verification/BackupAuth.thy ===== *)
theory BackupAuth
  imports OperatorService
begin

text \<open>
  \<open>backup/validation.py\<close>, the checks of the authentication tables in a restored database: unbounded
  credentials, bootstrap markers, grants, policies, revealable token values and the graph of
  rotations. The rows are those of the newest schema; a check raises \<open>BackupDatabaseError\<close>. The walk
  along a chain of rotations is a loop that stops only when it meets the end of the chain or a row it
  has seen, so it is a partial function and its result an option.
\<close>

datatype backup_error = BackupDatabaseError

section \<open>Counting queries\<close>

definition kind_of :: "auth_db \<Rightarrow> pystr \<Rightarrow> pystr \<Rightarrow> caller_kind option" where
  "kind_of auth library caller_id = map_option ca_kind (get_caller auth library caller_id)"

definition require_policy_modes :: "auth_db \<Rightarrow> backup_error + unit" where
  "require_policy_modes auth =
     requireR (list_all (\<lambda>p. lp_read_mode p \<in> {lit ''include'', lit ''exclude''}
        \<and> lp_write_mode p \<in> {lit ''include'', lit ''exclude''} \<and> 0 \<le> lp_scope_revision p)
       (a_policies auth)) BackupDatabaseError"

definition require_bounded_credentials :: "auth_db \<Rightarrow> backup_error + unit" where
  "require_bounded_credentials auth =
     requireR (length (filter (\<lambda>k. cr_expires_at k = None
        \<and> kind_of auth (cr_library_id k) (cr_caller_id k) \<noteq> Some Agent) (a_credentials auth)) = 0)
       BackupDatabaseError"

definition require_bootstrap_markers :: "operator_db \<Rightarrow> backup_error + unit" where
  "require_bootstrap_markers db =
     requireR (length (filter (\<lambda>m.
        kind_of (op_auth db) (bm_library_id m) (bm_operator_caller_id m) \<noteq> Some Operator
        \<or> get_credential (op_auth db) (bm_library_id m) (bm_operator_caller_id m)
             (bm_initial_credential_id m) = None) (op_markers db)) = 0) BackupDatabaseError"

definition require_agent_grants :: "auth_db \<Rightarrow> backup_error + unit" where
  "require_agent_grants auth =
     requireR (length (filter (\<lambda>g. case kind_of auth (sg_library_id g) (sg_caller_id g) of
        None \<Rightarrow> False | Some k \<Rightarrow> k \<noteq> Agent) (a_section_grants auth)) = 0) BackupDatabaseError"

definition require_policy_callers :: "auth_db \<Rightarrow> backup_error + unit" where
  "require_policy_callers auth =
     requireR (length (filter (\<lambda>p.
        get_credential auth (lp_home_library_id p) (lp_caller_id p) (lp_credential_id p) = None
        \<or> kind_of auth (lp_home_library_id p) (lp_caller_id p) \<noteq> Some Agent) (a_policies auth)) = 0)
       BackupDatabaseError"

section \<open>Revealable token values\<close>

definition token_value_sound :: "(bytes \<Rightarrow> bytes) \<Rightarrow> auth_db \<Rightarrow> token_value \<Rightarrow> bool" where
  "token_value_sound sha auth t \<longleftrightarrow>
     (case find (\<lambda>k. cr_id k = tv_credential_id t) (a_credentials auth) of
        None \<Rightarrow> False
      | Some k \<Rightarrow>
          (case get_caller auth (cr_library_id k) (cr_caller_id k) of
             None \<Rightarrow> False
           | Some a \<Rightarrow>
               ca_kind a = Agent \<and> ca_disabled_at a = None \<and> cr_revoked_at k = None
               \<and> cr_rotated_at k = None
               \<and> (case parse_token sha (tv_value t) of
                    Inl e \<Rightarrow> False
                  | Inr parsed \<Rightarrow>
                      pt_version parsed = cr_token_version k \<and> pt_selector parsed = cr_selector k
                      \<and> verify_token sha parsed (Some (cr_verifier k)))))"

definition require_agent_token_values :: "(bytes \<Rightarrow> bytes) \<Rightarrow> auth_db \<Rightarrow> backup_error + unit" where
  "require_agent_token_values sha auth =
     requireR (list_all (token_value_sound sha auth) (a_token_values auth)) BackupDatabaseError"

section \<open>The graph of rotations\<close>

text \<open>The dictionary \<open>rotations\<close>: one entry for each credential, in the order of the rows.\<close>

record rotation_row =
  rr_id :: pystr
  rr_library_id :: pystr
  rr_caller_id :: pystr
  rr_target :: "pystr option"
  rr_rotated_at :: "int option"
  rr_revoked_at :: "int option"
  rr_created_at :: int

definition rotation_row_of :: "credential \<Rightarrow> rotation_row" where
  "rotation_row_of c =
     \<lparr>rr_id = cr_id c, rr_library_id = cr_library_id c, rr_caller_id = cr_caller_id c,
      rr_target = cr_rotated_to c, rr_rotated_at = cr_rotated_at c, rr_revoked_at = cr_revoked_at c,
      rr_created_at = cr_created_at c\<rparr>"

definition find_rotation :: "rotation_row list \<Rightarrow> pystr \<Rightarrow> rotation_row option" where
  "find_rotation rows i = find (\<lambda>r. rr_id r = i) rows"

text \<open>\<open>while cursor is not None\<close>\<close>

partial_function (option) follow_rotations ::
  "rotation_row list \<Rightarrow> pystr list \<Rightarrow> pystr option \<Rightarrow> (backup_error + unit) option" where
  "follow_rotations rows seen cursor =
     (case cursor of
        None \<Rightarrow> Some (Inr ())
      | Some c \<Rightarrow>
          if c \<in> set seen then Some (Inl BackupDatabaseError)
          else case find_rotation rows c of
            None \<Rightarrow> Some (Inl BackupDatabaseError)
          | Some r \<Rightarrow> follow_rotations rows (c # seen) (rr_target r))"

text \<open>The tests on one rotated credential before its chain is followed.\<close>

definition rotation_sound :: "rotation_row list \<Rightarrow> pystr list \<Rightarrow> rotation_row \<Rightarrow> pystr \<Rightarrow> bool" where
  "rotation_sound rows targets r target \<longleftrightarrow>
     target \<notin> set targets \<and> rr_rotated_at r \<noteq> None \<and> rr_revoked_at r = rr_rotated_at r
     \<and> (case find_rotation rows target of
          None \<Rightarrow> False
        | Some t \<Rightarrow> rr_library_id t = rr_library_id r \<and> rr_caller_id t = rr_caller_id r
            \<and> Some (rr_created_at t) = rr_rotated_at r)"

fun check_rotations ::
  "rotation_row list \<Rightarrow> pystr list \<Rightarrow> rotation_row list \<Rightarrow> (backup_error + unit) option" where
  "check_rotations rows targets [] = Some (Inr ())"
| "check_rotations rows targets (r # rs) =
     (case rr_target r of
        None \<Rightarrow> check_rotations rows targets rs
      | Some target \<Rightarrow>
          if \<not> rotation_sound rows targets r target then Some (Inl BackupDatabaseError)
          else case follow_rotations rows [rr_id r] (Some target) of
            None \<Rightarrow> None
          | Some (Inl e) \<Rightarrow> Some (Inl e)
          | Some (Inr _) \<Rightarrow> check_rotations rows (target # targets) rs)"

definition require_rotations :: "rotation_row list \<Rightarrow> (backup_error + unit) option" where
  "require_rotations rows = check_rotations rows [] rows"

text \<open>The checks of \<open>_require_auth_graph\<close> on these tables, in its order.\<close>

definition require_auth_tables :: "(bytes \<Rightarrow> bytes) \<Rightarrow> operator_db \<Rightarrow> (backup_error + unit) option" where
  "require_auth_tables sha db =
     (let auth = op_auth db in
      case bindR (require_policy_modes auth) (\<lambda>_.
           bindR (require_bounded_credentials auth) (\<lambda>_.
           bindR (require_bootstrap_markers db) (\<lambda>_.
           bindR (require_agent_grants auth) (\<lambda>_.
           bindR (require_policy_callers auth) (\<lambda>_. require_agent_token_values sha auth))))) of
        Inl e \<Rightarrow> Some (Inl e)
      | Inr _ \<Rightarrow> require_rotations (map rotation_row_of (a_credentials auth)))"

section \<open>Following a chain\<close>

lemma find_rotation_mem: "find_rotation rows i = Some r \<Longrightarrow> r \<in> set rows \<and> rr_id r = i"
  by (auto simp: find_rotation_def find_Some_iff)

lemma find_rotation_unique:
  "distinct (map rr_id rows) \<Longrightarrow> r \<in> set rows \<Longrightarrow> find_rotation rows (rr_id r) = Some r"
  unfolding find_rotation_def
  by (induction rows) auto

text \<open>The relation the chain follows: from a rotated credential to its replacement.\<close>

definition rotated_to :: "rotation_row list \<Rightarrow> (pystr \<times> pystr) set" where
  "rotated_to rows = {(rr_id r, t) | r t. r \<in> set rows \<and> rr_target r = Some t}"

lemma rotated_toI: "r \<in> set rows \<Longrightarrow> rr_target r = Some t \<Longrightarrow> (rr_id r, t) \<in> rotated_to rows"
  by (auto simp: rotated_to_def)

lemma rotated_to_unique:
  "distinct (map rr_id rows) \<Longrightarrow> r \<in> set rows \<Longrightarrow> (rr_id r, t) \<in> rotated_to rows \<Longrightarrow> rr_target r = Some t"
  by (auto simp: rotated_to_def distinct_map inj_on_def)

text \<open>Every step of the loop marks one more row as seen, so it returns.\<close>

lemma follow_returns: "\<exists>r. follow_rotations rows seen cursor = Some r"
proof (induction "card (rr_id ` set rows - set seen)" arbitrary: seen cursor rule: less_induct)
  case less
  show ?case
  proof (cases "\<exists>c r. cursor = Some c \<and> c \<notin> set seen \<and> find_rotation rows c = Some r")
    case True
    then obtain c r where c: "cursor = Some c" "c \<notin> set seen" "find_rotation rows c = Some r" by blast
    then have "c \<in> rr_id ` set rows - set seen" using find_rotation_mem by blast
    then have "card (rr_id ` set rows - set (c # seen)) < card (rr_id ` set rows - set seen)"
      by (intro psubset_card_mono) auto
    from less [OF this] show ?thesis using c by (subst follow_rotations.simps) simp
  next
    case False
    then show ?thesis by (subst follow_rotations.simps) (auto split: option.splits)
  qed
qed

lemma follow_acyclic:
  assumes d: "distinct (map rr_id rows)" and ac: "acyclic (rotated_to rows)"
    and ex: "\<forall>r \<in> set rows. \<forall>t. rr_target r = Some t \<longrightarrow> t \<in> rr_id ` set rows"
    and s: "\<forall>s \<in> set seen. (s, c) \<in> (rotated_to rows)\<^sup>+" and c: "c \<in> rr_id ` set rows"
  shows "follow_rotations rows seen (Some c) = Some (Inr ())"
  using s c
proof (induction "card (rr_id ` set rows - set seen)" arbitrary: seen c rule: less_induct)
  case less
  obtain r where r: "r \<in> set rows" "rr_id r = c" using less.prems(2) by auto
  have f: "find_rotation rows c = Some r" using find_rotation_unique [OF d r(1)] r(2) by simp
  have n: "c \<notin> set seen" using less.prems(1) ac by (auto simp: acyclic_def)
  have m: "card (rr_id ` set rows - set (c # seen)) < card (rr_id ` set rows - set seen)"
    using n less.prems(2) by (intro psubset_card_mono) auto
  show ?case
  proof (cases "rr_target r")
    case None
    then show ?thesis using f n
      by (subst follow_rotations.simps) (simp, subst follow_rotations.simps, simp)
  next
    case (Some t)
    have e: "(c, t) \<in> rotated_to rows" using rotated_toI [OF r(1) Some] r(2) by simp
    have "\<forall>s \<in> set (c # seen). (s, t) \<in> (rotated_to rows)\<^sup>+"
      using less.prems(1) e by (auto intro: trancl_into_trancl)
    then have "follow_rotations rows (c # seen) (Some t) = Some (Inr ())"
      using less.hyps [OF m] ex r(1) Some by blast
    then show ?thesis using f n Some by (subst follow_rotations.simps) simp
  qed
qed

lemma follow_avoids:
  assumes d: "distinct (map rr_id rows)"
    and "follow_rotations rows seen (Some c) = Some (Inr ())" and "(c, y) \<in> (rotated_to rows)\<^sup>*"
  shows "y \<notin> set seen"
  using assms(2,3)
proof (induction "card (rr_id ` set rows - set seen)" arbitrary: seen c rule: less_induct)
  case less
  have n: "c \<notin> set seen" and "find_rotation rows c \<noteq> None"
    using less.prems(1) by (subst (asm) follow_rotations.simps, auto split: if_splits option.splits)+
  then obtain r where f: "find_rotation rows c = Some r" by auto
  then have r: "r \<in> set rows" "rr_id r = c" using find_rotation_mem by blast+
  have fw: "follow_rotations rows (c # seen) (rr_target r) = Some (Inr ())"
    using less.prems(1) n f by (subst (asm) follow_rotations.simps) simp
  have m: "card (rr_id ` set rows - set (c # seen)) < card (rr_id ` set rows - set seen)"
    using n r by (intro psubset_card_mono) auto
  show ?case
  proof (cases "c = y")
    case True
    then show ?thesis using n by simp
  next
    case False
    then obtain t where t: "(c, t) \<in> rotated_to rows" "(t, y) \<in> (rotated_to rows)\<^sup>*"
      using less.prems(2) by (metis converse_rtranclE)
    have "rr_target r = Some t" using rotated_to_unique [OF d r(1)] t(1) r(2) by simp
    then show ?thesis using less.hyps [OF m] fw t(2) by auto
  qed
qed

end
