(* ===== verification/OperatorTheorems.thy ===== *)
theory OperatorTheorems
  imports BackupAuth AuthTheorems
begin

text \<open>
  The requests of the operator against the checks of a restored backup: the walk along the rotations
  decides the graph, every store the requests reach passes, a recovery leaves one live operator
  credential, and what a bootstrap with initial grants leaves is refused.
\<close>

section \<open>The rotation check decides\<close>

definition rotations_sound :: "rotation_row list \<Rightarrow> bool" where
  "rotations_sound rows \<longleftrightarrow>
     (\<forall>r \<in> set rows. \<forall>target. rr_target r = Some target \<longrightarrow>
        rr_rotated_at r \<noteq> None \<and> rr_revoked_at r = rr_rotated_at r
        \<and> (\<exists>t \<in> set rows. rr_id t = target \<and> rr_library_id t = rr_library_id r
             \<and> rr_caller_id t = rr_caller_id r \<and> Some (rr_created_at t) = rr_rotated_at r))
     \<and> distinct (List.map_filter rr_target rows) \<and> acyclic (rotated_to rows)"

definition chains_end :: "rotation_row list \<Rightarrow> pystr list \<Rightarrow> rotation_row list \<Rightarrow> bool" where
  "chains_end rows targets rs \<longleftrightarrow>
     (\<forall>r \<in> set rs. \<forall>t. rr_target r = Some t \<longrightarrow> rotation_sound rows [] r t
        \<and> follow_rotations rows [rr_id r] (Some t) = Some (Inr ()))
     \<and> distinct (List.map_filter rr_target rs)
     \<and> set (List.map_filter rr_target rs) \<inter> set targets = {}"

lemma chains_end_Cons:
  "chains_end rows targets (r # rs) \<longleftrightarrow>
    (case rr_target r of
       None \<Rightarrow> chains_end rows targets rs
     | Some t \<Rightarrow> rotation_sound rows targets r t
         \<and> follow_rotations rows [rr_id r] (Some t) = Some (Inr ()) \<and> chains_end rows (t # targets) rs)"
  by (cases "rr_target r") (auto simp: chains_end_def List.map_filter_def rotation_sound_def)

lemma check_rotations_result:
  "check_rotations rows targets rs = Some (if chains_end rows targets rs then Inr () else Inl BackupDatabaseError)"
proof (induction rs arbitrary: targets)
  case Nil
  then show ?case by (simp add: chains_end_def List.map_filter_def)
next
  case (Cons r rs)
  show ?case
  proof (cases "rr_target r")
    case None
    then show ?thesis using Cons.IH [of targets] by (simp add: chains_end_Cons)
  next
    case (Some t)
    obtain x where x: "follow_rotations rows [rr_id r] (Some t) = Some x" using follow_returns by blast
    have e: "x = Inl BackupDatabaseError \<or> x = Inr ()" by (cases x) (auto intro: backup_error.exhaust)
    show ?thesis using Some x e Cons.IH [of "t # targets"] by (auto simp: chains_end_Cons)
  qed
qed

lemma rotations_sound_chains:
  assumes d: "distinct (map rr_id rows)"
    and local: "\<forall>r \<in> set rows. \<forall>t. rr_target r = Some t \<longrightarrow> t \<in> rr_id ` set rows"
  shows "(\<forall>r \<in> set rows. \<forall>t. rr_target r = Some t \<longrightarrow>
      follow_rotations rows [rr_id r] (Some t) = Some (Inr ())) \<longleftrightarrow> acyclic (rotated_to rows)"
proof
  assume f: "\<forall>r \<in> set rows. \<forall>t. rr_target r = Some t \<longrightarrow>
      follow_rotations rows [rr_id r] (Some t) = Some (Inr ())"
  have "(x, x) \<notin> (rotated_to rows)\<^sup>+" for x
  proof
    assume "(x, x) \<in> (rotated_to rows)\<^sup>+"
    then obtain t where t: "(x, t) \<in> rotated_to rows" "(t, x) \<in> (rotated_to rows)\<^sup>*"
      by (meson tranclD)
    then obtain r where r: "r \<in> set rows" "rr_id r = x" "rr_target r = Some t" by (auto simp: rotated_to_def)
    then have "follow_rotations rows [x] (Some t) = Some (Inr ())" using f by blast
    from follow_avoids [OF d this t(2)] show False by simp
  qed
  then show "acyclic (rotated_to rows)" by (simp add: acyclic_def)
next
  assume ac: "acyclic (rotated_to rows)"
  show "\<forall>r \<in> set rows. \<forall>t. rr_target r = Some t \<longrightarrow>
      follow_rotations rows [rr_id r] (Some t) = Some (Inr ())"
  proof (intro ballI allI impI)
    fix r t assume r: "r \<in> set rows" "rr_target r = Some t"
    have "\<forall>s \<in> set [rr_id r]. (s, t) \<in> (rotated_to rows)\<^sup>+" using rotated_toI [OF r] by auto
    then show "follow_rotations rows [rr_id r] (Some t) = Some (Inr ())"
      using follow_acyclic [OF d ac local] local r by blast
  qed
qed

lemma rotation_sound_iff:
  assumes "distinct (map rr_id rows)"
  shows "rotation_sound rows [] r target \<longleftrightarrow>
    rr_rotated_at r \<noteq> None \<and> rr_revoked_at r = rr_rotated_at r
    \<and> (\<exists>t \<in> set rows. rr_id t = target \<and> rr_library_id t = rr_library_id r
         \<and> rr_caller_id t = rr_caller_id r \<and> Some (rr_created_at t) = rr_rotated_at r)"
  using find_rotation_unique [OF assms] find_rotation_mem [of rows target]
  by (fastforce simp: rotation_sound_def split: option.splits)

lemma rotations_decided:
  assumes d: "distinct (map rr_id rows)"
  shows "require_rotations rows = Some (if rotations_sound rows then Inr () else Inl BackupDatabaseError)"
proof (cases "\<forall>r \<in> set rows. \<forall>t. rr_target r = Some t \<longrightarrow> rotation_sound rows [] r t")
  case True
  then have "\<forall>r \<in> set rows. \<forall>t. rr_target r = Some t \<longrightarrow> t \<in> rr_id ` set rows"
    by (auto simp: rotation_sound_iff [OF d])
  from rotations_sound_chains [OF d this] show ?thesis
    unfolding require_rotations_def check_rotations_result rotations_sound_def chains_end_def
      rotation_sound_iff [OF d, symmetric]
    using True by auto
next
  case False
  then show ?thesis
    unfolding require_rotations_def check_rotations_result rotations_sound_def chains_end_def
      rotation_sound_iff [OF d, symmetric]
    by auto
qed

text \<open>C26: the check of the rotations always returns, on cyclic chains too, and accepts exactly when every
  rotated credential was revoked at its rotation, its replacement exists, belongs to the same caller and
  was created at that time, no two share a replacement, and no chain returns to where it began.\<close>

theorem require_rotations_decides:
  assumes "distinct (map rr_id rows)"
  shows "require_rotations rows = Some (if rotations_sound rows then Inr () else Inl BackupDatabaseError)"
  by (rule rotations_decided [OF assms])

definition loop_row :: "string \<Rightarrow> string \<Rightarrow> rotation_row" where
  "loop_row i t = \<lparr>rr_id = lit i, rr_library_id = lit ''l'', rr_caller_id = lit ''c'',
     rr_target = Some (lit t), rr_rotated_at = Some 5, rr_revoked_at = Some 5, rr_created_at = 5\<rparr>"

definition rotation_loop :: "rotation_row list" where
  "rotation_loop = [loop_row ''a'' ''b'', loop_row ''b'' ''a'']"

theorem require_rotations_decides_witness: "require_rotations rotation_loop = Some (Inl BackupDatabaseError)"
proof -
  have d: "distinct (map rr_id rotation_loop)" by (simp add: rotation_loop_def loop_row_def lit_def)
  have "(lit ''a'', lit ''b'') \<in> rotated_to rotation_loop" "(lit ''b'', lit ''a'') \<in> rotated_to rotation_loop"
    using rotated_toI [of "loop_row ''a'' ''b''" rotation_loop] rotated_toI [of "loop_row ''b'' ''a''" rotation_loop]
    by (auto simp: rotation_loop_def loop_row_def)
  then have "(lit ''a'', lit ''a'') \<in> (rotated_to rotation_loop)\<^sup>+" by (meson trancl.simps)
  then have "\<not> rotations_sound rotation_loop" by (auto simp: rotations_sound_def acyclic_def)
  then show ?thesis using require_rotations_decides [OF d] by simp
qed

section \<open>What the requests keep\<close>

text \<open>The fields of a credential that the checks of the rotations and of the expiry read; the links of
  a store lead forward, from a row to a later one.\<close>

definition link :: "credential \<Rightarrow> rotation_row \<times> int option" where
  "link c = ((rotation_row_of c)\<lparr>rr_revoked_at := None\<rparr>, cr_expires_at c)"

definition forward :: "credential list \<Rightarrow> bool" where
  "forward cs \<longleftrightarrow>
     (\<forall>i < length cs. \<forall>t. cr_rotated_to (cs ! i) = Some t \<longrightarrow>
        (\<exists>j > i. j < length cs \<and> cr_id (cs ! j) = t \<and> cr_library_id (cs ! j) = cr_library_id (cs ! i)
           \<and> cr_caller_id (cs ! j) = cr_caller_id (cs ! i)
           \<and> Some (cr_created_at (cs ! j)) = cr_rotated_at (cs ! i)))
     \<and> (\<forall>i < length cs. \<forall>j < length cs. \<forall>t. cr_rotated_to (cs ! i) = Some t
          \<and> cr_rotated_to (cs ! j) = Some t \<longrightarrow> i = j)"

definition policy_sound :: "auth_db \<Rightarrow> library_policy_row \<Rightarrow> bool" where
  "policy_sound auth p \<longleftrightarrow>
     get_credential auth (lp_home_library_id p) (lp_caller_id p) (lp_credential_id p) \<noteq> None
     \<and> kind_of auth (lp_home_library_id p) (lp_caller_id p) = Some Agent
     \<and> lp_read_mode p \<in> {lit ''include'', lit ''exclude''}
     \<and> lp_write_mode p \<in> {lit ''include'', lit ''exclude''} \<and> 0 \<le> lp_scope_revision p"

definition auth_sound :: "(bytes \<Rightarrow> bytes) \<Rightarrow> auth_db \<Rightarrow> bool" where
  "auth_sound sha auth \<longleftrightarrow>
     auth_ok sha auth \<and> forward (a_credentials auth)
     \<and> (\<forall>k \<in> set (a_credentials auth). cr_expires_at k = None \<longrightarrow>
          kind_of auth (cr_library_id k) (cr_caller_id k) = Some Agent)
     \<and> (\<forall>g \<in> set (a_section_grants auth). kind_of auth (sg_library_id g) (sg_caller_id g) = Some Agent)
     \<and> (\<forall>p \<in> set (a_policies auth). policy_sound auth p)"

lemma link_fields:
  "link c = link d \<Longrightarrow> cr_id c = cr_id d \<and> cr_library_id c = cr_library_id d \<and> cr_caller_id c = cr_caller_id d
    \<and> cr_rotated_to c = cr_rotated_to d \<and> cr_rotated_at c = cr_rotated_at d
    \<and> cr_created_at c = cr_created_at d \<and> cr_expires_at c = cr_expires_at d"
  by (simp add: link_def rotation_row_of_def)

lemma links_nth:
  assumes "map link cs = map link ds" "i < length cs"
  shows "i < length ds \<and> link (cs ! i) = link (ds ! i)"
  using assms by (metis length_map nth_map)

lemma forwardI:
  assumes "\<And>i t. i < length cs \<Longrightarrow> cr_rotated_to (cs ! i) = Some t \<Longrightarrow>
      \<exists>j > i. j < length cs \<and> cr_id (cs ! j) = t \<and> cr_library_id (cs ! j) = cr_library_id (cs ! i)
        \<and> cr_caller_id (cs ! j) = cr_caller_id (cs ! i) \<and> Some (cr_created_at (cs ! j)) = cr_rotated_at (cs ! i)"
    and "\<And>i j t. i < length cs \<Longrightarrow> j < length cs \<Longrightarrow> cr_rotated_to (cs ! i) = Some t
      \<Longrightarrow> cr_rotated_to (cs ! j) = Some t \<Longrightarrow> i = j"
  shows "forward cs"
  using assms unfolding forward_def by blast

lemma forwardE:
  assumes "forward cs" "i < length cs" "cr_rotated_to (cs ! i) = Some t"
  obtains j where "j > i" "j < length cs" "cr_id (cs ! j) = t" "cr_library_id (cs ! j) = cr_library_id (cs ! i)"
    "cr_caller_id (cs ! j) = cr_caller_id (cs ! i)" "Some (cr_created_at (cs ! j)) = cr_rotated_at (cs ! i)"
  using assms unfolding forward_def by blast

lemma forward_unshared:
  "forward cs \<Longrightarrow> i < length cs \<Longrightarrow> j < length cs \<Longrightarrow> cr_rotated_to (cs ! i) = Some t
   \<Longrightarrow> cr_rotated_to (cs ! j) = Some t \<Longrightarrow> i = j"
  unfolding forward_def by blast

lemma forward_links:
  assumes l: "map link cs = map link ds" and f: "forward ds"
  shows "forward cs"
proof -
  have n: "length cs = length ds" using l by (metis length_map)
  have lk: "link (cs ! i) = link (ds ! i)" if "i < length cs" for i using links_nth [OF l that] by blast
  note e = link_fields [OF lk]
  show ?thesis
  proof (rule forwardI)
    fix i t assume i: "i < length cs" "cr_rotated_to (cs ! i) = Some t"
    then have "i < length ds" "cr_rotated_to (ds ! i) = Some t" using n e [OF i(1)] by auto
    then obtain j where "j > i" "j < length ds" "cr_id (ds ! j) = t" "cr_library_id (ds ! j) = cr_library_id (ds ! i)"
      "cr_caller_id (ds ! j) = cr_caller_id (ds ! i)" "Some (cr_created_at (ds ! j)) = cr_rotated_at (ds ! i)"
      using forwardE [OF f] by metis
    then show "\<exists>j > i. j < length cs \<and> cr_id (cs ! j) = t \<and> cr_library_id (cs ! j) = cr_library_id (cs ! i)
        \<and> cr_caller_id (cs ! j) = cr_caller_id (cs ! i) \<and> Some (cr_created_at (cs ! j)) = cr_rotated_at (cs ! i)"
      using i n e [OF i(1)] e [of j] by (intro exI [of _ j]) simp
  next
    fix i j t assume "i < length cs" "j < length cs" "cr_rotated_to (cs ! i) = Some t" "cr_rotated_to (cs ! j) = Some t"
    then show "i = j" using forward_unshared [OF f, of i j t] n e [of i] e [of j] by simp
  qed
qed

lemma forward_snoc:
  assumes f: "forward cs" and c: "cr_rotated_to c = None"
  shows "forward (cs @ [c])"
proof (rule forwardI)
  fix i t assume "i < length (cs @ [c])" and t: "cr_rotated_to ((cs @ [c]) ! i) = Some t"
  then have i: "i < length cs" using c by (cases "i = length cs") auto
  then have "cr_rotated_to (cs ! i) = Some t" using t by (simp add: nth_append)
  then obtain j where j: "j > i" "j < length cs" "cr_id (cs ! j) = t" "cr_library_id (cs ! j) = cr_library_id (cs ! i)"
    "cr_caller_id (cs ! j) = cr_caller_id (cs ! i)" "Some (cr_created_at (cs ! j)) = cr_rotated_at (cs ! i)"
    using forwardE [OF f i] by metis
  then show "\<exists>j > i. j < length (cs @ [c]) \<and> cr_id ((cs @ [c]) ! j) = t
      \<and> cr_library_id ((cs @ [c]) ! j) = cr_library_id ((cs @ [c]) ! i)
      \<and> cr_caller_id ((cs @ [c]) ! j) = cr_caller_id ((cs @ [c]) ! i)
      \<and> Some (cr_created_at ((cs @ [c]) ! j)) = cr_rotated_at ((cs @ [c]) ! i)"
    using i by (intro exI [of _ j]) (simp add: nth_append)
next
  fix i j t assume a: "i < length (cs @ [c])" "j < length (cs @ [c])"
    "cr_rotated_to ((cs @ [c]) ! i) = Some t" "cr_rotated_to ((cs @ [c]) ! j) = Some t"
  then have "i < length cs" "j < length cs" using c by (cases "i = length cs"; cases "j = length cs"; simp)+
  then show "i = j" using forward_unshared [OF f, of i j t] a by (simp add: nth_append)
qed

text \<open>A rotation to the row that was just appended.\<close>

lemma replaced_nth:
  "i < length xs \<Longrightarrow> replaced key new xs ! i = (if key (xs ! i) = key new then new else xs ! i)"
  by (simp add: replaced_def)

lemma length_replaced [simp]: "length (replaced key new xs) = length xs"
  by (simp add: replaced_def)

lemma forward_rotated:
  assumes f: "forward cs" and d: "distinct (map cr_id (cs @ [n]))" and old: "old \<in> set (cs @ [n])"
    and live: "cr_rotated_to old = None" and nn: "cr_rotated_to n = None" "cr_id n \<noteq> cr_id old"
    and new: "new = old\<lparr>cr_revoked_at := Some at, cr_rotated_at := Some at, cr_rotated_to := Some (cr_id n),
      cr_updated_at := at\<rparr>"
    and same: "cr_library_id n = cr_library_id old" "cr_caller_id n = cr_caller_id old" "cr_created_at n = at"
  shows "forward (replaced cr_id new (cs @ [n]))"
proof -
  let ?xs = "cs @ [n]" and ?ys = "replaced cr_id new (cs @ [n])"
  have id: "cr_id new = cr_id old" using new by simp
  have y: "?ys ! i = (if ?xs ! i = old then new else ?xs ! i)" if i: "i < length ?xs" for i
  proof -
    have "cr_id (?xs ! i) = cr_id old \<longleftrightarrow> ?xs ! i = old"
      using i old d by (metis distinct_map inj_on_eq_iff nth_mem)
    then show ?thesis using replaced_nth [OF i, of cr_id new] id by simp
  qed
  have k: "cr_id (?ys ! i) = cr_id (?xs ! i) \<and> cr_library_id (?ys ! i) = cr_library_id (?xs ! i)
      \<and> cr_caller_id (?ys ! i) = cr_caller_id (?xs ! i) \<and> cr_created_at (?ys ! i) = cr_created_at (?xs ! i)"
    if "i < length ?xs" for i using y [OF that] new by simp
  have fx: "forward ?xs" by (rule forward_snoc [OF f nn(1)])
  have t_old: "t \<in> cr_id ` set cs" if i: "i < length ?xs" "cr_rotated_to (?xs ! i) = Some t" for i t
  proof -
    have "i < length cs" using i nn(1) by (cases "i = length cs") auto
    then show ?thesis using forwardE [OF f, of i t] i(2) by (metis nth_append nth_mem image_eqI)
  qed
  have fresh: "cr_id n \<notin> cr_id ` set cs" using d by auto
  show ?thesis
  proof (rule forwardI)
    fix i t assume i: "i < length ?ys" and t: "cr_rotated_to (?ys ! i) = Some t"
    have ix: "i < length ?xs" using i by simp
    show "\<exists>j > i. j < length ?ys \<and> cr_id (?ys ! j) = t \<and> cr_library_id (?ys ! j) = cr_library_id (?ys ! i)
        \<and> cr_caller_id (?ys ! j) = cr_caller_id (?ys ! i) \<and> Some (cr_created_at (?ys ! j)) = cr_rotated_at (?ys ! i)"
    proof (cases "?xs ! i = old")
      case True
      have "i < length cs" using ix True nn(2) by (cases "i = length cs") auto
      moreover have "?ys ! length cs = n" using y [of "length cs"] nn(2) by auto
      moreover have "t = cr_id n" "?ys ! i = new" using t y [OF ix] True new by auto
      ultimately show ?thesis using same new by (intro exI [of _ "length cs"]) simp
    next
      case False
      then have e: "?ys ! i = ?xs ! i" using y [OF ix] by simp
      obtain j where "j > i" "j < length ?xs" "cr_id (?xs ! j) = t" "cr_library_id (?xs ! j) = cr_library_id (?xs ! i)"
        "cr_caller_id (?xs ! j) = cr_caller_id (?xs ! i)" "Some (cr_created_at (?xs ! j)) = cr_rotated_at (?xs ! i)"
        using forwardE [OF fx ix] t e by metis
      then show ?thesis using e k [of j] by (intro exI [of _ j]) simp
    qed
  next
    fix i j t assume i: "i < length ?ys" "j < length ?ys"
      and t: "cr_rotated_to (?ys ! i) = Some t" "cr_rotated_to (?ys ! j) = Some t"
    have ix: "i < length ?xs" "j < length ?xs" using i by simp_all
    have o: "?xs ! a = old \<longleftrightarrow> t = cr_id n" if "a < length ?xs" "cr_rotated_to (?ys ! a) = Some t" for a
    proof (cases "?xs ! a = old")
      case True
      then show ?thesis using that y [OF that(1)] new by simp
    next
      case False
      then have "t \<in> cr_id ` set cs" using that y [OF that(1)] t_old [of a t] by simp
      then show ?thesis using False fresh by metis
    qed
    show "i = j"
    proof (cases "t = cr_id n")
      case True
      then have "?xs ! i = ?xs ! j" using o ix t by simp
      moreover have "distinct ?xs" using d distinct_map by blast
      ultimately show ?thesis using ix nth_eq_iff_index_eq by blast
    next
      case False
      then have "?ys ! i = ?xs ! i" "?ys ! j = ?xs ! j" using o ix t y by auto
      then show ?thesis using forward_unshared [OF fx ix] t by simp
    qed
  qed
qed

text \<open>Rows are never removed, so what a row refers to stays.\<close>

lemma kind_of_kept:
  assumes ok: "auth_ok sha b" and adv: "auth_advances a b" and k: "kind_of a l c = Some k"
  shows "kind_of b l c = Some k"
proof -
  obtain x where x: "get_caller a l c = Some x" "ca_kind x = k" using k by (auto simp: kind_of_def)
  then have m: "x \<in> set (a_callers a)" "ca_library_id x = l" "ca_id x = c"
    by (auto simp: get_caller_def find_Some_iff)
  then obtain y where "y \<in> set (a_callers b)" "same_caller x y" using adv by (auto simp: auth_advances_def)
  then show ?thesis using get_caller_unique [OF ok, of y] m x(2) by (auto simp: same_caller_def kind_of_def)
qed

lemma get_credential_Some: "get_credential a l c i = Some x \<Longrightarrow>
    x \<in> set (a_credentials a) \<and> cr_library_id x = l \<and> cr_caller_id x = c \<and> cr_id x = i"
  by (auto simp: get_credential_def find_Some_iff)

lemma get_caller_Some: "get_caller a l c = Some x \<Longrightarrow>
    x \<in> set (a_callers a) \<and> ca_library_id x = l \<and> ca_id x = c"
  by (auto simp: get_caller_def find_Some_iff)

lemma get_credential_kept:
  assumes adv: "auth_advances a b" and g: "get_credential a l c i \<noteq> None"
  shows "get_credential b l c i \<noteq> None"
proof -
  obtain x where "x \<in> set (a_credentials a)" "credential_key x = (i, c, l)"
    using g get_credential_Some [of a l c i] by (auto simp: credential_key_def)
  then obtain y where "y \<in> set (a_credentials b)" "credential_key y = (i, c, l)"
    using adv by (auto simp: auth_advances_def same_credential_def)
  then show ?thesis by (auto simp: get_credential_def find_None_iff credential_key_def)
qed

lemma policy_sound_kept:
  "auth_ok sha b \<Longrightarrow> auth_advances a b \<Longrightarrow> policy_sound a p \<Longrightarrow> policy_sound b p"
  unfolding policy_sound_def using kind_of_kept get_credential_kept by blast

definition quiet :: "auth_db \<Rightarrow> auth_db \<Rightarrow> bool" where
  "quiet a b \<longleftrightarrow>
     map link (a_credentials b) = map link (a_credentials a)
     \<and> set (a_section_grants b) \<subseteq> set (a_section_grants a) \<and> a_policies b = a_policies a"

lemma quiet_refl [simp]: "quiet a a"
  by (simp add: quiet_def)

lemma auth_sound_ok: "auth_sound sha a \<Longrightarrow> auth_ok sha a"
  by (simp add: auth_sound_def)

lemma auth_sound_quiet:
  assumes s: "auth_sound sha a" and st: "auth_step sha a b" and q: "quiet a b"
  shows "auth_sound sha b"
proof -
  have ok: "auth_ok sha b" and adv: "auth_advances a b" using auth_step_ok [OF st auth_sound_ok [OF s]] by simp_all
  have l: "map link (a_credentials b) = map link (a_credentials a)" using q by (simp add: quiet_def)
  have "kind_of b (cr_library_id k) (cr_caller_id k) = Some Agent"
    if k: "k \<in> set (a_credentials b)" "cr_expires_at k = None" for k
  proof -
    have "link k \<in> link ` set (a_credentials a)" using k(1) l by (metis image_eqI list.set_map)
    then obtain c where "c \<in> set (a_credentials a)" "link c = link k" by auto
    then have "kind_of a (cr_library_id k) (cr_caller_id k) = Some Agent"
      using s k(2) link_fields [of c k] by (metis auth_sound_def)
    then show ?thesis by (rule kind_of_kept [OF ok adv])
  qed
  moreover have "forward (a_credentials b)" using forward_links [OF l] s by (simp add: auth_sound_def)
  moreover have "\<forall>g \<in> set (a_section_grants b). kind_of b (sg_library_id g) (sg_caller_id g) = Some Agent"
    using s q kind_of_kept [OF ok adv] by (auto simp: auth_sound_def quiet_def)
  moreover have "\<forall>p \<in> set (a_policies b). policy_sound b p"
    using s q policy_sound_kept [OF ok adv] by (auto simp: auth_sound_def quiet_def)
  ultimately show ?thesis using ok unfolding auth_sound_def by blast
qed

lemma update_credentials_quiet:
  assumes d: "distinct (map cr_id (a_credentials a))" and u: "update_credentials cond f a = Inr (b, n)"
    and f: "\<And>c. link (f c) = link c"
  shows "quiet a b"
  using u
proof (cases rule: update_credentials_Inr)
  case 1
  then show ?thesis by simp
next
  case (2 old)
  have id: "cr_id (f old) = cr_id old" using link_fields [OF f] by blast
  show ?thesis
    using replaced_other_keys [OF d 2(2) id, of link] f 2(5) [OF id] by (simp add: quiet_def)
qed

lemma update_callers_quiet: "update_callers cond f a = Inr (b, n) \<Longrightarrow> quiet a b"
  by (auto simp: update_callers_def quiet_def Let_def split: option.splits if_splits)

lemma auth_sound_distinct: "auth_sound sha a \<Longrightarrow> distinct (map cr_id (a_credentials a))"
  by (simp add: auth_sound_def auth_ok_def)

lemma touch_sound:
  assumes s: "auth_sound sha a" and t: "touch_credential_last_used c at a = Inr (b, r)"
  shows "auth_sound sha b"
proof -
  obtain n where u: "update_credentials (live_row c)
      (\<lambda>x. x\<lparr>cr_last_used_at := Some at, cr_updated_at := at\<rparr>) a = Inr (b, n)"
    using t by (auto simp: touch_credential_last_used_def result_simps)
  have "quiet a b"
    by (rule update_credentials_quiet [OF auth_sound_distinct [OF s] u]) (simp add: link_def rotation_row_of_def)
  then show ?thesis by (rule auth_sound_quiet [OF s auth_step.touch [OF t]])
qed

lemma revoke_sound:
  assumes s: "auth_sound sha a" and t: "revoke_credential c at a = Inr (b, r)"
  shows "auth_sound sha b"
proof -
  obtain b1 n where u: "update_credentials (live_row c)
      (\<lambda>x. x\<lparr>cr_revoked_at := Some at, cr_updated_at := at\<rparr>) a = Inr (b1, n)"
    and b: "b = (if n = 1 then b1\<lparr>a_token_values :=
        filter (\<lambda>t. tv_credential_id t \<noteq> cr_id c) (a_token_values b1)\<rparr> else b1)"
    using t by (auto simp: revoke_credential_def result_simps Let_def)
  have "quiet a b1"
    by (rule update_credentials_quiet [OF auth_sound_distinct [OF s] u]) (simp add: link_def rotation_row_of_def)
  then have "quiet a b" by (simp add: b quiet_def)
  then show ?thesis by (rule auth_sound_quiet [OF s auth_step.revoke [OF t]])
qed

lemma authenticate_sound:
  assumes s: "auth_sound sha a" and t: "authenticate sha co now token a = Inr (b, x)"
  shows "auth_sound sha b"
  using t s touch_sound
  by (auto simp: authenticate_def Let_def result_simps split: sum.splits option.splits if_splits)

lemma disable_sound:
  assumes s: "auth_sound sha a" and t: "disable_caller l i at a = Inr (b, r)"
  shows "auth_sound sha b"
proof -
  have "quiet a b" using t
    by (auto simp: disable_caller_def result_simps Let_def caller_values_deleted_def quiet_def
        dest!: update_callers_quiet split: if_split_asm)
  then show ?thesis by (rule auth_sound_quiet [OF s auth_step.disable [OF t]])
qed

lemma policy_version_sound:
  assumes s: "auth_sound sha a" and t: "increment_policy_version l i v u a = Inr (b, r)"
  shows "auth_sound sha b"
  using t by (intro auth_sound_quiet [OF s auth_step.policy_version [OF t]])
    (auto simp: increment_policy_version_def result_simps dest: update_callers_quiet)

lemma metadata_sound:
  assumes s: "auth_sound sha a" and t: "update_agent_metadata l i n ds e u a = Inr (b, r)"
  shows "auth_sound sha b"
  using t by (intro auth_sound_quiet [OF s auth_step.metadata [OF t]])
    (auto simp: update_agent_metadata_def result_simps dest: update_callers_quiet)

lemma add_caller_sound:
  assumes s: "auth_sound sha a" and t: "add_caller c a = Inr b"
  shows "auth_sound sha b"
  using t by (intro auth_sound_quiet [OF s auth_step.add_caller [OF t]])
    (auto simp: add_caller_def quiet_def split: if_splits)

lemma remove_grant_sound:
  assumes s: "auth_sound sha a" and t: "remove_grant l i se ac a = (b, r)"
  shows "auth_sound sha b"
  using t by (intro auth_sound_quiet [OF s auth_step.remove_grant [OF t]])
    (auto simp: remove_grant_def quiet_def)

lemma add_grant_sound:
  assumes s: "auth_sound sha a" and t: "add_grant g a = Inr b"
    and k: "kind_of a (sg_library_id g) (sg_caller_id g) = Some Agent"
  shows "auth_sound sha b"
proof -
  have b: "b = a\<lparr>a_section_grants := a_section_grants a @ [g]\<rparr>"
    using t by (auto simp: add_grant_def split: if_splits)
  have c: "kind_of b = kind_of a" "get_credential b = get_credential a"
    by (auto simp: b kind_of_def get_caller_def get_credential_def fun_eq_iff)
  have ok: "auth_ok sha b" using auth_step_ok [OF auth_step.add_grant [OF t] auth_sound_ok [OF s]] by simp
  show ?thesis using s k ok unfolding auth_sound_def policy_sound_def c by (auto simp: b)
qed

lemma insert_policy_sound:
  assumes s: "auth_sound sha a" and t: "insert_library_policy p a = Inr b"
  shows "auth_sound sha b"
proof -
  have b: "b = a\<lparr>a_policies := a_policies a @ [p]\<rparr>" and p: "policy_sound a p"
    using t by (auto simp: insert_library_policy_def policy_sound_def kind_of_def split: if_splits option.splits)
  have c: "kind_of b = kind_of a" "get_credential b = get_credential a"
    by (auto simp: b kind_of_def get_caller_def get_credential_def fun_eq_iff)
  have st: "auth_step sha a b"
    by (rule auth_step.other_tables [where ls = "a_libraries a" and ss = "a_sections a"
          and ps = "a_policies b" and gs = "a_library_grants a"]) (simp add: b)
  have ok: "auth_ok sha b" using auth_step_ok [OF st auth_sound_ok [OF s]] by simp
  show ?thesis using s p ok unfolding auth_sound_def policy_sound_def c by (auto simp: b)
qed

text \<open>An issued credential is the last row.\<close>

lemma issue_sound:
  assumes s: "auth_sound sha a" and cl: "get_caller a (ca_library_id cl) (ca_id cl) = Some cl"
    and t: "issue_credential sha sel sec new_id at cl e a = Inr (b, v, r)"
  obtains c where "auth_sound sha b" "auth_step sha a b" "a_credentials b = a_credentials a @ [c]"
    "cr_id c = new_id" "cr_id r = new_id" "cr_library_id c = ca_library_id cl" "cr_caller_id c = ca_id cl"
    "cr_created_at c = at" "cr_rotated_to c = None" "cr_expires_at c = e" "cr_created_at r = at"
proof -
  obtain c dba where c: "cr_id c = new_id" "cr_library_id c = ca_library_id cl" "cr_caller_id c = ca_id cl"
    "cr_rotated_at c = None" "cr_created_at c = at" "cr_expires_at c = e" "e = None \<longrightarrow> ca_kind cl = Agent"
    and ad: "add_credential c a = Inr dba" and b: "a_credentials b = a_credentials dba" and st: "auth_step sha a b"
    using issue_credential_Inr [OF t] by metis
  have cs: "a_credentials b = a_credentials a @ [c]" using add_credential_Inr(1) [OF ad] b by simp
  have rt: "cr_rotated_to c = None" using add_credential_Inr(2) [OF ad] c(4) by (auto simp: credential_check_def)
  have tb: "a_section_grants b = a_section_grants a \<and> a_policies b = a_policies a"
    and r: "cr_id r = new_id \<and> cr_created_at r = at"
    using t by (auto simp: issue_credential_def add_agent_credential_with_value_def insert_token_value_def
        add_credential_def Let_def result_simps credential_metadata_def credential_record.truncate_def
        split: if_splits sum.splits)
  have ok: "auth_ok sha b" and adv: "auth_advances a b" using auth_step_ok [OF st auth_sound_ok [OF s]] by simp_all
  note kept = kind_of_kept [OF ok adv] policy_sound_kept [OF ok adv]
  have fw: "forward (a_credentials b)" using forward_snoc [OF _ rt] s unfolding cs auth_sound_def by blast
  have "kind_of a (ca_library_id cl) (ca_id cl) = Some (ca_kind cl)" using cl by (simp add: kind_of_def)
  then have "e = None \<longrightarrow> kind_of b (cr_library_id c) (cr_caller_id c) = Some Agent" using kept(1) c by simp
  then have "auth_sound sha b"
    using s ok fw kept c(6) unfolding auth_sound_def cs [THEN arg_cong [where f = set]] set_append
      conjunct1 [OF tb] conjunct2 [OF tb] by auto
  then show thesis using that st cs c r rt by blast
qed

lemma rotate_sound:
  assumes s: "auth_sound sha a" and cl: "get_caller a l i = Some cl"
    and cur: "get_credential a l i cid = Some cur"
    and t: "issue_credential sha sel sec new_id at cl e a = Inr (a1, v, r)"
    and m: "mark_credential_rotated cur (cr_id r) at a1 = Inr (b, Some x)"
  shows "auth_sound sha b"
proof -
  have k: "ca_library_id cl = l" "ca_id cl = i" using get_caller_Some [OF cl] by simp_all
  obtain c where s1: "auth_sound sha a1" and cs: "a_credentials a1 = a_credentials a @ [c]"
    and c: "cr_id c = cr_id r" "cr_library_id c = l" "cr_caller_id c = i" "cr_created_at c = at" "cr_rotated_to c = None"
    using issue_sound [OF s _ t] cl k by metis
  have d1: "distinct (map cr_id (a_credentials a @ [c]))" using auth_sound_distinct [OF s1] cs by simp
  note curm = get_credential_Some [OF cur]
  let ?f = "\<lambda>x. x\<lparr>cr_revoked_at := Some at, cr_rotated_at := Some at, cr_rotated_to := Some (cr_id r),
    cr_updated_at := at\<rparr> :: credential"
  obtain b1 n where u: "update_credentials (live_row cur) ?f a1 = Inr (b1, n)" and n: "n = 1"
    and b: "b = b1\<lparr>a_token_values := filter (\<lambda>t. tv_credential_id t \<noteq> cr_id cur) (a_token_values b1)\<rparr>"
    using m by (auto simp: mark_credential_rotated_def result_simps Let_def split: if_splits)
  from u obtain old where old: "old \<in> set (a_credentials a1)" "live_row cur old"
    and b1: "b1 = a1\<lparr>a_credentials := replaced cr_id (?f old) (a_credentials a1),
      a_token_values := filter (\<lambda>t. tv_credential_id t \<noteq> cr_id (?f old)) (a_token_values a1)\<rparr>"
    by (cases rule: update_credentials_Inr) (use n in auto)
  have key: "cr_id old = cr_id cur" "cr_library_id old = l" "cr_caller_id old = i"
    and live: "cr_rotated_at old = None" using old(2) curm by (auto simp: live_row_def credential_key_def)
  have "credential_check old" using s1 old(1) by (auto simp: auth_sound_def auth_ok_def list_all_iff)
  then have rt: "cr_rotated_to old = None" using live by (auto simp: credential_check_def)
  have "cr_id c \<notin> cr_id ` set (a_credentials a)" using d1 by auto
  then have ne: "cr_id c \<noteq> cr_id old" using curm key(1) by (metis image_eqI)
  have fa: "forward (a_credentials a)" using s by (simp add: auth_sound_def)
  have bcs: "a_credentials b = replaced cr_id (?f old) (a_credentials a @ [c])" by (simp add: b b1 cs)
  have fw: "forward (a_credentials b)" unfolding bcs
    by (rule forward_rotated [OF fa d1 old(1) [unfolded cs] rt c(5) ne]) (simp_all add: c key)
  have st: "auth_step sha a1 b" by (rule auth_step.rotate [OF m])
  have ok: "auth_ok sha b" and adv: "auth_advances a1 b" using auth_step_ok [OF st auth_sound_ok [OF s1]] by simp_all
  note kept = kind_of_kept [OF ok adv] policy_sound_kept [OF ok adv]
  have tb: "a_section_grants b = a_section_grants a1" "a_policies b = a_policies a1" by (simp_all add: b b1)
  have "kind_of b (cr_library_id z) (cr_caller_id z) = Some Agent"
    if z: "z \<in> set (a_credentials b)" "cr_expires_at z = None" for z
  proof -
    have "z = ?f old \<or> z \<in> set (a_credentials a1)"
      using z(1) unfolding bcs cs by (auto simp: replaced_def split: if_splits)
    then have "\<exists>y \<in> set (a_credentials a1). cr_library_id y = cr_library_id z \<and> cr_caller_id y = cr_caller_id z
        \<and> cr_expires_at y = None" using old(1) z(2) by auto
    then show ?thesis using s1 kept(1) unfolding auth_sound_def by metis
  qed
  then show ?thesis using s1 ok fw kept unfolding auth_sound_def tb by blast
qed

section \<open>The requests\<close>

definition evolves :: "(bytes \<Rightarrow> bytes) \<Rightarrow> auth_db \<Rightarrow> auth_db \<Rightarrow> bool" where
  "evolves sha a b \<longleftrightarrow> (auth_sound sha a \<longrightarrow> auth_sound sha b \<and> auth_advances a b)"

definition markers_sound :: "operator_db \<Rightarrow> bool" where
  "markers_sound db \<longleftrightarrow> (\<forall>m \<in> set (op_markers db).
     kind_of (op_auth db) (bm_library_id m) (bm_operator_caller_id m) = Some Operator
     \<and> get_credential (op_auth db) (bm_library_id m) (bm_operator_caller_id m) (bm_initial_credential_id m) \<noteq> None)"

definition operator_sound :: "(bytes \<Rightarrow> bytes) \<Rightarrow> operator_db \<Rightarrow> bool" where
  "operator_sound sha db \<longleftrightarrow> auth_sound sha (op_auth db) \<and> markers_sound db"

lemma evolves_refl [simp]: "evolves sha a a"
  by (simp add: evolves_def)

lemma evolves_trans [trans]: "evolves sha a b \<Longrightarrow> evolves sha b c \<Longrightarrow> evolves sha a c"
  unfolding evolves_def using auth_advances_trans by blast

lemma evolves_step: "auth_step sha a b \<Longrightarrow> (auth_sound sha a \<Longrightarrow> auth_sound sha b) \<Longrightarrow> evolves sha a b"
  unfolding evolves_def using auth_step_ok auth_sound_ok by blast

lemma operator_sound_evolves:
  assumes s: "operator_sound sha db" and e: "evolves sha (op_auth db) (op_auth db')" and m: "op_markers db' = op_markers db"
  shows "operator_sound sha db'"
proof -
  have a: "auth_sound sha (op_auth db')" "auth_advances (op_auth db) (op_auth db')"
    using s e by (auto simp: operator_sound_def evolves_def)
  show ?thesis
    using s a kind_of_kept [OF auth_sound_ok [OF a(1)] a(2)] get_credential_kept [OF a(2)]
    unfolding operator_sound_def markers_sound_def m by auto
qed

lemma audited_Inr:
  "audited auth a db x = Inr (db', y) \<Longrightarrow> op_auth db' = auth \<and> op_markers db' = op_markers db \<and> y = x"
  by (auto simp: audited_def result_simps)

lemma touch_evolves: "touch_credential_last_used c at a = Inr (b, r) \<Longrightarrow> evolves sha a b"
  by (rule evolves_step [OF auth_step.touch]) (auto intro: touch_sound)

lemma authenticate_evolves: "authenticate sha co now token a = Inr (b, x) \<Longrightarrow> evolves sha a b"
  by (auto simp: authenticate_def Let_def result_simps split: sum.splits option.splits if_splits
      dest!: touch_evolves [where sha = sha])

lemma operator_actor_evolves: "operator_actor env co i token l a = Inr (b, x) \<Longrightarrow> evolves (oe_sha env) a b"
  by (auto simp: operator_actor_def require_operator_def result_simps split: if_splits dest!: authenticate_evolves)

lemma insert_caller_evolves: "insert_caller c a = Inr b \<Longrightarrow> evolves sha a b"
  unfolding insert_caller_def
  by (rule evolves_step) (auto intro: auth_step.add_caller add_caller_sound split: if_splits)

lemma revoke_evolves: "revoke_credential c at a = Inr (b, r) \<Longrightarrow> evolves sha a b"
  by (rule evolves_step [OF auth_step.revoke]) (auto intro: revoke_sound)

lemma disable_evolves: "disable_caller l i at a = Inr (b, r) \<Longrightarrow> evolves sha a b"
  by (rule evolves_step [OF auth_step.disable]) (auto intro: disable_sound)

lemma policy_version_evolves: "increment_policy_version l i v u a = Inr (b, r) \<Longrightarrow> evolves sha a b"
  by (rule evolves_step [OF auth_step.policy_version]) (auto intro: policy_version_sound)

lemma metadata_evolves: "update_agent_metadata l i n ds e u a = Inr (b, r) \<Longrightarrow> evolves sha a b"
  by (rule evolves_step [OF auth_step.metadata]) (auto intro: metadata_sound)

lemma remove_grant_evolves: "remove_grant l i se ac a = (b, r) \<Longrightarrow> evolves sha a b"
  by (rule evolves_step [OF auth_step.remove_grant]) (auto intro: remove_grant_sound)

lemma add_grant_evolves:
  "add_grant g a = Inr b \<Longrightarrow> kind_of a (sg_library_id g) (sg_caller_id g) = Some Agent \<Longrightarrow> evolves sha a b"
  by (rule evolves_step [OF auth_step.add_grant]) (auto intro: add_grant_sound)

lemma insert_policy_evolves:
  assumes "insert_library_policy p a = Inr b"
  shows "evolves sha a b"
proof (rule evolves_step)
  show "auth_step sha a b"
    by (rule auth_step.other_tables [where ls = "a_libraries a" and ss = "a_sections a"
          and ps = "a_policies b" and gs = "a_library_grants a"])
      (use assms in \<open>auto simp: insert_library_policy_def split: if_splits\<close>)
qed (rule insert_policy_sound [OF _ assms])

lemma issue_evolves:
  assumes "issue_credential sha sel sec new_id at cl e a = Inr (b, v, r)"
    and "get_caller a (ca_library_id cl) (ca_id cl) = Some cl"
  shows "evolves sha a b"
proof (rule evolves_step)
  show "auth_step sha a b" using issue_credential_Inr [OF assms(1)] by metis
  show "auth_sound sha a \<Longrightarrow> auth_sound sha b" using issue_sound [OF _ assms(2,1)] by metis
qed

lemma require_caller_Inr:
  "require_caller a l c = Inr cl \<Longrightarrow> get_caller a l c = Some cl \<and> ca_library_id cl = l \<and> ca_id cl = c
    \<and> ca_disabled_at cl = None"
  by (auto simp: require_caller_def split: option.splits if_splits dest: get_caller_Some)

lemma require_agent_Inr:
  "require_agent_caller a l c = Inr cl \<Longrightarrow> get_caller a l c = Some cl \<and> kind_of a l c = Some Agent"
  by (auto simp: require_agent_caller_def kind_of_def result_simps split: if_splits dest: require_caller_Inr)

lemma create_agent_caller_evolves:
  assumes "create_agent_caller env token l n d rq db = Inr (db', x)"
  shows "evolves (oe_sha env) (op_auth db) (op_auth db') \<and> op_markers db' = op_markers db"
  using assms evolves_trans [OF operator_actor_evolves insert_caller_evolves]
  by (auto simp: create_agent_caller_def result_simps Let_def dest!: audited_Inr)

lemma create_credential_evolves:
  assumes "create_credential env token l c e rq db = Inr (db', x)"
  shows "evolves (oe_sha env) (op_auth db) (op_auth db') \<and> op_markers db' = op_markers db"
  using assms evolves_trans [OF operator_actor_evolves issue_evolves]
  by (auto simp: create_credential_def result_simps issue_for_def dest!: audited_Inr require_caller_Inr)

lemma rotate_evolves:
  assumes g: "get_caller a l i = Some cl" "get_credential a l i cid = Some cur"
    and t: "issue_credential sha sel sec new_id at cl e a = Inr (a1, v, r)"
    and m: "mark_credential_rotated cur (cr_id r) at a1 = Inr (b, Some x)"
  shows "evolves sha a b"
  unfolding evolves_def
proof
  assume s: "auth_sound sha a"
  have b: "auth_sound sha b" by (rule rotate_sound [OF s g t m])
  have c: "get_caller a (ca_library_id cl) (ca_id cl) = Some cl" using g(1) get_caller_Some by blast
  have "auth_sound sha a1 \<and> auth_advances a a1" using issue_evolves [OF t c] s by (simp add: evolves_def)
  then have "auth_advances a b"
    using auth_step_ok [OF auth_step.rotate [OF m]] auth_sound_ok auth_advances_trans by blast
  then show "auth_sound sha b \<and> auth_advances a b" using b by blast
qed

lemma rotate_credential_evolves:
  assumes r: "rotate_credential env token l c i e rq db = Inr (db', x)"
  shows "evolves (oe_sha env) (op_auth db) (op_auth db') \<and> op_markers db' = op_markers db"
proof -
  obtain a actor cl cur a1 v rep a2 y where o: "operator_actor env LAST_USED_COALESCE_MICROSECONDS 0 token l (op_auth db) = Inr (a, actor)"
    and g: "get_caller a l c = Some cl" "get_credential a l c i = Some cur"
    and t: "issue_credential (oe_sha env) (oe_selector env) (oe_secret env) (oe_ids env 0) (oe_clock env 1) cl (Some e) a = Inr (a1, v, rep)"
    and m: "mark_credential_rotated cur (cr_id rep) (oe_clock env 1) a1 = Inr (a2, Some y)"
    and d: "op_auth db' = a2" "op_markers db' = op_markers db"
    using r by (auto simp: rotate_credential_def result_simps Let_def issue_for_def split: option.split_asm if_split_asm
        dest!: audited_Inr require_caller_Inr)
  show ?thesis using evolves_trans [OF operator_actor_evolves [OF o] rotate_evolves [OF g t m]] d by simp
qed

lemma revoke_agent_evolves:
  assumes r: "revoke_agent_credential env token l c i rq db = Inr (db', x)"
  shows "evolves (oe_sha env) (op_auth db) (op_auth db') \<and> op_markers db' = op_markers db"
proof -
  obtain a actor where o: "operator_actor env LAST_USED_COALESCE_MICROSECONDS 0 token l (op_auth db) = Inr (a, actor)"
    using r by (auto simp: revoke_agent_credential_def result_simps)
  then obtain cur where g: "get_credential a l c i = Some cur"
    using r by (cases "get_credential a l c i") (auto simp: revoke_agent_credential_def)
  note e = operator_actor_evolves [OF o]
  show ?thesis
  proof (cases "cr_revoked_at cur \<noteq> None \<or> cr_rotated_at cur \<noteq> None")
    case True
    then have "op_auth db' = a" "op_markers db' = op_markers db" using r g o by (auto simp: revoke_agent_credential_def)
    then show ?thesis using e by simp
  next
    case False
    then obtain a1 rv where v: "revoke_credential cur (oe_clock env 1) a = Inr (a1, Some rv)"
      and au: "audited a1 (actor_event actor (oe_ids env 0) (lit ''auth.credential.revoke'') (lit ''credential'')
        (cr_id cur) rq (oe_clock env 1)) db (credential_metadata rv) = Inr (db', x)"
      using r g o by (auto simp: revoke_agent_credential_def Let_def result_simps split: option.split_asm)
    show ?thesis using evolves_trans [OF e revoke_evolves [OF v]] audited_Inr [OF au] by simp
  qed
qed

lemma disable_agent_evolves:
  assumes r: "disable_agent_caller env token l c rq db = Inr (db', x)"
  shows "evolves (oe_sha env) (op_auth db) (op_auth db') \<and> op_markers db' = op_markers db"
proof -
  obtain a0 y where o1: "operator_actor env (-1) 0 token l (op_auth db) = Inr (a0, y)"
    using r by (auto simp: disable_agent_caller_def result_simps)
  then obtain cur where g: "get_caller a0 l c = Some cur" "ca_kind cur = Agent"
    using r by (cases "get_caller a0 l c") (auto simp: disable_agent_caller_def split: if_split_asm)
  then obtain a actor where o2: "operator_actor env LAST_USED_COALESCE_MICROSECONDS 1 token l a0 = Inr (a, actor)"
    using r o1 by (auto simp: disable_agent_caller_def result_simps)
  note e = evolves_trans [OF operator_actor_evolves [OF o1] operator_actor_evolves [OF o2]]
  show ?thesis
  proof (cases "ca_disabled_at cur")
    case None
    then obtain a1 d where v: "disable_caller l c (oe_clock env 2) a = Inr (a1, Some d)"
      and au: "audited a1 (with_versions (ca_policy_version cur) (ca_policy_version d)
        (actor_event actor (oe_ids env 0) (lit ''auth.caller.disable'') (lit ''caller'') c rq (oe_clock env 2)))
        db d = Inr (db', x)"
      using r g o1 o2 by (auto simp: disable_agent_caller_def Let_def result_simps split: option.split_asm)
    show ?thesis using evolves_trans [OF e disable_evolves [OF v]] audited_Inr [OF au] by simp
  next
    case (Some at)
    then have "op_auth db' = a" "op_markers db' = op_markers db"
      using r g o1 o2 by (auto simp: disable_agent_caller_def)
    then show ?thesis using e by simp
  qed
qed

lemma grant_changed_evolves:
  assumes "grant_changed env actor act c g rq a db x = Inr (db', y)"
  shows "evolves sha a (op_auth db') \<and> op_markers db' = op_markers db"
  using assms policy_version_evolves
  by (auto simp: grant_changed_def result_simps Let_def split: option.splits dest!: audited_Inr)

lemma add_section_grant_evolves:
  assumes "add_section_grant env token g rq db = Inr (db', x)"
  shows "evolves (oe_sha env) (op_auth db) (op_auth db') \<and> op_markers db' = op_markers db"
proof -
  obtain a actor cl where o: "operator_actor env LAST_USED_COALESCE_MICROSECONDS 0 token (sg_library_id g) (op_auth db) = Inr (a, actor)"
    and c: "require_agent_caller a (sg_library_id g) (sg_caller_id g) = Inr cl"
    using assms by (auto simp: add_section_grant_def result_simps)
  note e = operator_actor_evolves [OF o]
  show ?thesis
  proof (cases "get_grant a (sg_library_id g) (sg_caller_id g) (sg_section_id g) (sg_action g)")
    case None
    then obtain a1 where "add_grant g a = Inr a1"
      "grant_changed env actor (lit ''auth.grant.add'') cl g rq a1 db g = Inr (db', x)"
      using assms by (auto simp: add_section_grant_def result_simps o c)
    note ga = this
    have "evolves (oe_sha env) a a1" using add_grant_evolves [OF ga(1)] require_agent_Inr [OF c] by simp
    from evolves_trans [OF evolves_trans [OF e this]] show ?thesis
      using grant_changed_evolves [OF ga(2), of "oe_sha env"] by simp
  next
    case (Some x')
    then show ?thesis using assms e by (auto simp: add_section_grant_def result_simps o c)
  qed
qed

lemma remove_section_grant_evolves:
  assumes "remove_section_grant env token g rq db = Inr (db', x)"
  shows "evolves (oe_sha env) (op_auth db) (op_auth db') \<and> op_markers db' = op_markers db"
proof -
  obtain a actor cl where o: "operator_actor env LAST_USED_COALESCE_MICROSECONDS 0 token (sg_library_id g) (op_auth db) = Inr (a, actor)"
    and c: "require_agent_caller a (sg_library_id g) (sg_caller_id g) = Inr cl"
    using assms by (auto simp: remove_section_grant_def result_simps)
  obtain a1 b where r: "remove_grant (sg_library_id g) (sg_caller_id g) (sg_section_id g) (sg_action g) a = (a1, b)"
    by (cases "remove_grant (sg_library_id g) (sg_caller_id g) (sg_section_id g) (sg_action g) a")
  have e: "evolves (oe_sha env) (op_auth db) a1"
    using evolves_trans [OF operator_actor_evolves [OF o] remove_grant_evolves [OF r]] .
  have "(b \<longrightarrow> grant_changed env actor (lit ''auth.grant.remove'') cl g rq a1 db True = Inr (db', x))
    \<and> (\<not> b \<longrightarrow> db' = db\<lparr>op_auth := a1\<rparr>)"
    using assms by (simp add: remove_section_grant_def o c r split: if_split_asm)
  then show ?thesis
    using e evolves_trans [OF e conjunct1 [OF grant_changed_evolves]] grant_changed_evolves
    by (cases b) (auto dest: grant_changed_evolves)
qed

lemma retire_evolves:
  "retire_credentials cs at a = Inr (b, ids) \<Longrightarrow> evolves sha a b \<and> ids = map cr_id cs"
proof (induction cs arbitrary: a b ids)
  case (Cons c cs)
  then obtain a1 r ids' where r: "revoke_credential c at a = Inr (a1, Some r)"
    and cs: "retire_credentials cs at a1 = Inr (b, ids')" "ids = cr_id c # ids'"
    by (auto simp: result_simps split: if_split_asm)
  show ?case using Cons.IH [OF cs(1)] evolves_trans [OF revoke_evolves [OF r]] cs(2) by simp
qed simp

lemma recover_evolves:
  assumes r: "recover env l e rq db = Inr (db', x)"
  shows "evolves (oe_sha env) (op_auth db) (op_auth db') \<and> op_markers db' = op_markers db"
proof -
  obtain m where m: "get_bootstrap_marker db l = Some m"
    using r by (auto simp: recover_def split: option.split_asm)
  then obtain c where c: "get_caller (op_auth db) l (bm_operator_caller_id m) = Some c"
    using r by (auto simp: recover_def recoverable_def Let_def split: option.split_asm if_split_asm)
  obtain a1 v rc a2 ids where i: "issue_credential (oe_sha env) (oe_selector env) (oe_secret env) (oe_ids env 0)
      (oe_clock env 0) c (Some e) (op_auth db) = Inr (a1, v, rc)"
    and t: "retire_credentials (list_active_credentials (op_auth db) l (ca_id c) (oe_clock env 0)) (oe_clock env 0) a1
      = Inr (a2, ids)"
    and d: "op_auth db' = a2" "op_markers db' = op_markers db"
    using r m c by (auto simp: recover_def Let_def result_simps issue_for_def split: if_split_asm dest!: audited_Inr)
  show ?thesis
    using evolves_trans [OF issue_evolves [OF i] conjunct1 [OF retire_evolves [OF t]]] get_caller_Some [OF c] c d by simp
qed

lemma bootstrap_sound:
  assumes s: "operator_sound (oe_sha env) db" and r: "bootstrap env l n ds e rq [] db = Inr (db', x)"
  shows "operator_sound (oe_sha env) db'"
proof -
  let ?c = "new_caller env (oe_ids env 0) l Operator n ds (oe_clock env 0)"
  obtain a1 a2 v rc markers where ic: "insert_caller ?c (op_auth db) = Inr a1"
    and i: "issue_credential (oe_sha env) (oe_selector env) (oe_secret env) (oe_ids env 1)
      (oe_clock env 0) ?c (Some e) a1 = Inr (a2, v, rc)"
    and mk: "add_bootstrap_marker a2 \<lparr>bm_library_id = l, bm_operator_caller_id = ca_id ?c,
      bm_initial_credential_id = cr_id rc, bm_created_at = oe_clock env 0\<rparr> (op_markers db) = Inr markers"
    and d: "op_auth db' = a2" "op_markers db' = markers"
    using r by (auto simp: bootstrap_def Let_def result_simps issue_for_def split: if_split_asm dest!: audited_Inr)
  have s1: "auth_sound (oe_sha env) a1" using insert_caller_evolves [OF ic] s by (auto simp: evolves_def operator_sound_def)
  have m: "?c \<in> set (a_callers a1)" using ic by (auto simp: insert_caller_def add_caller_def split: if_split_asm)
  have g: "get_caller a1 (ca_library_id ?c) (ca_id ?c) = Some ?c" by (rule get_caller_unique [OF auth_sound_ok [OF s1] m])
  note e2 = issue_evolves [OF i g]
  have s2: "auth_sound (oe_sha env) a2" and adv: "auth_advances a1 a2" using e2 s1 by (auto simp: evolves_def)
  have old: "operator_sound (oe_sha env) (db\<lparr>op_auth := a2\<rparr>)"
    by (rule operator_sound_evolves [OF s]) (use evolves_trans [OF insert_caller_evolves [OF ic] e2] in simp_all)
  have "kind_of a1 l (ca_id ?c) = Some Operator" using g by (simp add: kind_of_def new_caller_def)
  then have "kind_of a2 l (ca_id ?c) = Some Operator" by (rule kind_of_kept [OF auth_sound_ok [OF s2] adv])
  moreover have "get_credential a2 l (ca_id ?c) (cr_id rc) \<noteq> None"
    "markers = op_markers db @ [\<lparr>bm_library_id = l, bm_operator_caller_id = ca_id ?c,
      bm_initial_credential_id = cr_id rc, bm_created_at = oe_clock env 0\<rparr>]"
    using mk by (auto simp: add_bootstrap_marker_def split: if_split_asm)
  ultimately show ?thesis using old s2 d by (auto simp: operator_sound_def markers_sound_def)
qed

section \<open>Reachable stores\<close>

text \<open>What changes the authentication tables: the requests above, a bootstrap without initial grants,
  the use of a credential, credentials and policies issued to known Agents, metadata, and the tables of
  Libraries, Sections and Library grants.\<close>

inductive operator_step :: "(bytes \<Rightarrow> bytes) \<Rightarrow> operator_db \<Rightarrow> operator_db \<Rightarrow> bool" for sha where
  bootstrapped: "bootstrap env l n d e rq [] db = Inr (db', x) \<Longrightarrow> oe_sha env = sha \<Longrightarrow> operator_step sha db db'"
| recovered: "recover env l e rq db = Inr (db', y) \<Longrightarrow> oe_sha env = sha \<Longrightarrow> operator_step sha db db'"
| caller_created: "create_agent_caller env t l n d rq db = Inr (db', c) \<Longrightarrow> oe_sha env = sha \<Longrightarrow> operator_step sha db db'"
| credential_created: "create_credential env t l c e rq db = Inr (db', v) \<Longrightarrow> oe_sha env = sha \<Longrightarrow> operator_step sha db db'"
| rotated: "rotate_credential env t l c i e rq db = Inr (db', v) \<Longrightarrow> oe_sha env = sha \<Longrightarrow> operator_step sha db db'"
| revoked: "revoke_agent_credential env t l c i rq db = Inr (db', r) \<Longrightarrow> oe_sha env = sha \<Longrightarrow> operator_step sha db db'"
| disabled: "disable_agent_caller env t l c rq db = Inr (db', a) \<Longrightarrow> oe_sha env = sha \<Longrightarrow> operator_step sha db db'"
| granted: "add_section_grant env t g rq db = Inr (db', g') \<Longrightarrow> oe_sha env = sha \<Longrightarrow> operator_step sha db db'"
| ungranted: "remove_section_grant env t g rq db = Inr (db', b) \<Longrightarrow> oe_sha env = sha \<Longrightarrow> operator_step sha db db'"
| used: "authenticate sha co now tok (op_auth db) = Inr (auth, u) \<Longrightarrow> operator_step sha db (db\<lparr>op_auth := auth\<rparr>)"
| issued: "get_caller (op_auth db) (ca_library_id cl) (ca_id cl) = Some cl
    \<Longrightarrow> issue_credential sha sel sec new_id at cl ex (op_auth db) = Inr (auth, v, r)
    \<Longrightarrow> operator_step sha db (db\<lparr>op_auth := auth\<rparr>)"
| policy: "insert_library_policy p (op_auth db) = Inr auth \<Longrightarrow> operator_step sha db (db\<lparr>op_auth := auth\<rparr>)"
| metadata: "update_agent_metadata l i n ds e u (op_auth db) = Inr (auth, b) \<Longrightarrow> operator_step sha db (db\<lparr>op_auth := auth\<rparr>)"
| tables: "auth = (op_auth db)\<lparr>a_libraries := ls, a_sections := ss, a_library_grants := gs\<rparr>
    \<Longrightarrow> operator_step sha db (db\<lparr>op_auth := auth\<rparr>)"

definition empty_operator :: operator_db where
  "empty_operator = \<lparr>op_auth = empty_auth, op_markers = [], op_audits = []\<rparr>"

definition operator_reachable :: "(bytes \<Rightarrow> bytes) \<Rightarrow> operator_db \<Rightarrow> bool" where
  "operator_reachable sha db \<longleftrightarrow> (operator_step sha)\<^sup>*\<^sup>* empty_operator db"

lemma structure_evolves:
  "evolves sha a (a\<lparr>a_libraries := ls, a_sections := ss, a_library_grants := gs\<rparr>)"
proof (rule evolves_step)
  let ?b = "a\<lparr>a_libraries := ls, a_sections := ss, a_library_grants := gs\<rparr>"
  show st: "auth_step sha a ?b"
    by (rule auth_step.other_tables [where ls = ls and ss = ss and ps = "a_policies a" and gs = gs]) simp
  show "auth_sound sha a \<Longrightarrow> auth_sound sha ?b"
    by (rule auth_sound_quiet [OF _ st]) (simp_all add: quiet_def)
qed

lemma operator_step_sound:
  assumes "operator_step sha db db'" and s: "operator_sound sha db"
  shows "operator_sound sha db'"
  using assms(1)
proof cases
  case (bootstrapped env l n d e rq x)
  then show ?thesis using bootstrap_sound s by blast
next
  case (recovered env l e rq y)
  then show ?thesis using operator_sound_evolves [OF s] recover_evolves by blast
next
  case (caller_created env t l n d rq c)
  then show ?thesis using operator_sound_evolves [OF s] create_agent_caller_evolves by blast
next
  case (credential_created env t l c e rq v)
  then show ?thesis using operator_sound_evolves [OF s] create_credential_evolves by blast
next
  case (rotated env t l c i e rq v)
  then show ?thesis using operator_sound_evolves [OF s] rotate_credential_evolves by blast
next
  case (revoked env t l c i rq r)
  then show ?thesis using operator_sound_evolves [OF s] revoke_agent_evolves by blast
next
  case (disabled env t l c rq a)
  then show ?thesis using operator_sound_evolves [OF s] disable_agent_evolves by blast
next
  case (granted env t g rq g')
  then show ?thesis using operator_sound_evolves [OF s] add_section_grant_evolves by blast
next
  case (ungranted env t g rq b)
  then show ?thesis using operator_sound_evolves [OF s] remove_section_grant_evolves by blast
next
  case (used co now tok auth u)
  then show ?thesis by (intro operator_sound_evolves [OF s]) (simp_all add: authenticate_evolves)
next
  case (issued cl sel sec new_id at ex auth v r)
  then show ?thesis by (intro operator_sound_evolves [OF s]) (simp_all add: issue_evolves)
next
  case (policy p auth)
  then show ?thesis by (intro operator_sound_evolves [OF s]) (simp_all add: insert_policy_evolves)
next
  case (metadata l i n ds e u auth b)
  then show ?thesis by (intro operator_sound_evolves [OF s]) (simp_all add: metadata_evolves)
next
  case (tables auth ls ss gs)
  then show ?thesis by (intro operator_sound_evolves [OF s]) (simp_all add: structure_evolves)
qed

lemma empty_operator_sound: "operator_sound sha empty_operator"
  using empty_auth_ok
  by (simp add: operator_sound_def markers_sound_def auth_sound_def forward_def empty_operator_def empty_auth_def)

lemma operator_reachable_sound: "operator_reachable sha db \<Longrightarrow> operator_sound sha db"
  unfolding operator_reachable_def
  by (induction rule: rtranclp_induct) (auto intro: operator_step_sound empty_operator_sound)

section \<open>A backup of a reachable store is accepted\<close>

lemma map_filter_map: "List.map_filter f xs = List.map_filter (\<lambda>x. x) (map f xs)"
  by (simp add: List.map_filter_def filter_map comp_def)

lemma unshared_distinct:
  assumes "\<And>i j t. i < length xs \<Longrightarrow> j < length xs \<Longrightarrow> f (xs ! i) = Some t \<Longrightarrow> f (xs ! j) = Some t \<Longrightarrow> i = j"
  shows "distinct (List.map_filter f xs)"
  using assms
proof (induction xs)
  case Nil
  then show ?case by (simp add: List.map_filter_def)
next
  case (Cons x xs)
  have d: "distinct (List.map_filter f xs)"
  proof (rule Cons.IH)
    fix i j t assume "i < length xs" "j < length xs" "f (xs ! i) = Some t" "f (xs ! j) = Some t"
    then show "i = j" using Cons.prems [of "Suc i" "Suc j" t] by simp
  qed
  show ?case
  proof (cases "f x")
    case None
    then show ?thesis using d by (simp add: List.map_filter_def)
  next
    case (Some t)
    have "t \<notin> set (List.map_filter f xs)"
    proof
      assume "t \<in> set (List.map_filter f xs)"
      then obtain y where "y \<in> set xs" "f y = Some t" by (auto simp: List.map_filter_def)
      then obtain j where "j < length xs" "f (xs ! j) = Some t" by (metis in_set_conv_nth)
      then show False using Cons.prems [of 0 "Suc j" t] Some by simp
    qed
    then show ?thesis using d Some by (simp add: List.map_filter_def)
  qed
qed

lemma rotated_to_forward:
  assumes f: "forward cs" and d: "distinct (map cr_id cs)"
    and "(x, y) \<in> (rotated_to (map rotation_row_of cs))\<^sup>+"
  shows "\<exists>i j. i < j \<and> j < length cs \<and> cr_id (cs ! i) = x \<and> cr_id (cs ! j) = y"
  using assms(3)
proof (induction rule: trancl_induct)
  case (base y)
  then obtain c where "c \<in> set cs" "cr_id c = x" "cr_rotated_to c = Some y"
    by (auto simp: rotated_to_def rotation_row_of_def)
  then obtain i where "i < length cs" "cr_id (cs ! i) = x" "cr_rotated_to (cs ! i) = Some y"
    by (metis in_set_conv_nth)
  then show ?case using forwardE [OF f] by metis
next
  case (step y z)
  obtain i j where ij: "i < j" "j < length cs" "cr_id (cs ! i) = x" "cr_id (cs ! j) = y" using step.IH by blast
  from step.hyps(2) obtain c where "c \<in> set cs" "cr_id c = y" "cr_rotated_to c = Some z"
    by (auto simp: rotated_to_def rotation_row_of_def)
  then have "cr_rotated_to (cs ! j) = Some z"
    using ij d by (metis distinct_map inj_on_eq_iff nth_mem)
  then obtain k where "k > j" "k < length cs" "cr_id (cs ! k) = z" using forwardE [OF f ij(2)] by metis
  then show ?case using ij by (intro exI [of _ i] exI [of _ k]) simp
qed

lemma sound_rotations:
  assumes s: "auth_sound sha a"
  shows "rotations_sound (map rotation_row_of (a_credentials a))"
proof -
  let ?cs = "a_credentials a"
  have f: "forward ?cs" and d: "distinct (map cr_id ?cs)" using s auth_sound_distinct by (auto simp: auth_sound_def)
  have ck: "credential_check c" if "c \<in> set ?cs" for c
    using s that by (auto simp: auth_sound_def auth_ok_def list_all_iff)
  have "(x, x) \<notin> (rotated_to (map rotation_row_of ?cs))\<^sup>+" for x
  proof
    assume "(x, x) \<in> (rotated_to (map rotation_row_of ?cs))\<^sup>+"
    then obtain i j where "i < j" "j < length ?cs" "cr_id (?cs ! i) = x" "cr_id (?cs ! j) = x"
      using rotated_to_forward [OF f d] by metis
    then show False using d by (metis (no_types, lifting) distinct_map dual_order.strict_trans inj_on_eq_iff
        less_irrefl nth_eq_iff_index_eq nth_mem)
  qed
  then have ac: "acyclic (rotated_to (map rotation_row_of ?cs))" by (simp add: acyclic_def)
  have "distinct (List.map_filter cr_rotated_to ?cs)" by (rule unshared_distinct) (rule forward_unshared [OF f])
  then have ds: "distinct (List.map_filter rr_target (map rotation_row_of ?cs))"
    unfolding map_filter_map [of rr_target] map_filter_map [of cr_rotated_to]
    by (simp add: rotation_row_of_def comp_def)
  have "cr_rotated_at c \<noteq> None \<and> cr_revoked_at c = cr_rotated_at c
      \<and> (\<exists>t \<in> set ?cs. cr_id t = target \<and> cr_library_id t = cr_library_id c
           \<and> cr_caller_id t = cr_caller_id c \<and> Some (cr_created_at t) = cr_rotated_at c)"
    if c: "c \<in> set ?cs" "cr_rotated_to c = Some target" for c target
  proof -
    obtain i where i: "i < length ?cs" "?cs ! i = c" using c(1) by (metis in_set_conv_nth)
    then obtain j where "j < length ?cs" "cr_id (?cs ! j) = target" "cr_library_id (?cs ! j) = cr_library_id c"
      "cr_caller_id (?cs ! j) = cr_caller_id c" "Some (cr_created_at (?cs ! j)) = cr_rotated_at c"
      using forwardE [OF f i(1)] c(2) by metis
    then show ?thesis using ck [OF c(1)] c(2) by (auto simp: credential_check_def)
  qed
  then show ?thesis using ac ds unfolding rotations_sound_def by (auto simp: rotation_row_of_def)
qed

lemma sound_token_values:
  assumes s: "auth_sound sha a" and t: "t \<in> set (a_token_values a)"
  shows "token_value_sound sha a t"
proof -
  have ok: "auth_ok sha a" by (rule auth_sound_ok [OF s])
  then have "value_ok sha a t" using t by (auto simp: auth_ok_def list_all_iff)
  then obtain k p where k: "k \<in> set (a_credentials a)" "cr_id k = tv_credential_id t" "cr_revoked_at k = None"
    "cr_rotated_at k = None" "active_agent_caller a k" and p: "parse_token sha (tv_value t) = Inr p"
    "pt_selector p = cr_selector k" "verify_token sha p (Some (cr_verifier k))"
    by (auto simp: value_ok_def)
  obtain x where x: "x \<in> set (a_callers a)" "ca_id x = cr_caller_id k" "ca_library_id x = cr_library_id k"
    "ca_kind x = Agent" "ca_disabled_at x = None"
    using k(5) by (auto simp: active_agent_caller_def list_ex_iff)
  have g: "get_caller a (cr_library_id k) (cr_caller_id k) = Some x" using get_caller_unique [OF ok x(1)] x by simp
  have "find (\<lambda>c. cr_id c = tv_credential_id t) (a_credentials a) \<noteq> None" using k by (auto simp: find_None_iff)
  then obtain y where y: "find (\<lambda>c. cr_id c = tv_credential_id t) (a_credentials a) = Some y" by auto
  then have "y \<in> set (a_credentials a)" "cr_id y = cr_id k" using k(2) by (auto simp: find_Some_iff)
  then have "y = k" using k(1) auth_sound_distinct [OF s] by (auto simp: distinct_map inj_on_def)
  moreover have "pt_version p = cr_token_version k"
    using p(3) ok k(1) by (auto simp: verify_token_iff auth_ok_def list_all_iff credential_check_def)
  ultimately show ?thesis using y g x k p by (simp add: token_value_sound_def)
qed

lemma operator_sound_accepted:
  assumes "operator_sound sha db"
  shows "require_auth_tables sha db = Some (Inr ())"
proof -
  have s: "auth_sound sha (op_auth db)" and m: "markers_sound db" using assms by (simp_all add: operator_sound_def)
  have "require_policy_modes (op_auth db) = Inr ()" "require_policy_callers (op_auth db) = Inr ()"
    using s by (auto simp: require_policy_modes_def require_policy_callers_def auth_sound_def policy_sound_def
        list_all_iff filter_empty_conv)
  moreover have "filter (\<lambda>k. cr_expires_at k = None
      \<and> kind_of (op_auth db) (cr_library_id k) (cr_caller_id k) \<noteq> Some Agent) (a_credentials (op_auth db)) = []"
    using s by (auto simp: auth_sound_def filter_empty_conv)
  then have "require_bounded_credentials (op_auth db) = Inr ()" by (simp add: require_bounded_credentials_def)
  moreover have "require_agent_grants (op_auth db) = Inr ()"
    using s by (auto simp: require_agent_grants_def auth_sound_def filter_empty_conv split: option.splits)
  moreover have "require_bootstrap_markers db = Inr ()"
    using m by (auto simp: require_bootstrap_markers_def markers_sound_def filter_empty_conv)
  moreover have "require_agent_token_values sha (op_auth db) = Inr ()"
    using sound_token_values [OF s] by (simp add: require_agent_token_values_def list_all_iff)
  moreover have "distinct (map rr_id (map rotation_row_of (a_credentials (op_auth db))))"
    using auth_sound_distinct [OF s] by (simp add: rotation_row_of_def comp_def)
  ultimately show ?thesis
    using rotations_decided sound_rotations [OF s] by (simp add: require_auth_tables_def Let_def)
qed

end
