(* ===== verification/OperatorBackups.thy ===== *)
theory OperatorBackups
  imports OperatorTheorems
begin

text \<open>
  What the operator's requests promise: their stores pass the checks of a restored backup unless a
  bootstrap had initial grants, and a recovery leaves its new credential as the only live one.
\<close>

lemma map_sum_InrE: "map_sum f g x = Inr y \<Longrightarrow> \<exists>z. x = Inr z \<and> g z = y"
  by (cases x) auto

section \<open>Backups\<close>

text \<open>C25: the authentication tables of every store that the operator's requests, bootstraps without
  initial grants, recoveries and the use of credentials reach pass the checks of a restored backup, and
  the walk along the rotations ends.\<close>

theorem reachable_backup_accepted:
  assumes "operator_reachable sha db"
  shows "require_auth_tables sha db = Some (Inr ())"
  by (rule operator_sound_accepted [OF operator_reachable_sound [OF assms]])

definition sample_operator_env :: "int \<Rightarrow> nat \<Rightarrow> operator_env" where
  "sample_operator_env at n = \<lparr>oe_sha = sample_sha, oe_clock = (\<lambda>_. at), oe_ids = (\<lambda>i. auth_id (n + i)),
     oe_selector = replicate 16 (of_nat n), oe_secret = replicate 32 7, oe_strip = (\<lambda>s. s)\<rparr>"

definition operator_db0 :: operator_db where
  "operator_db0 = empty_operator\<lparr>op_auth := (op_auth empty_operator)\<lparr>a_libraries := [auth_id 1],
     a_sections := [(auth_id 1, auth_id 9)], a_library_grants := []\<rparr>\<rparr>"

definition sample_request_id :: pystr where
  "sample_request_id = lit ''req_00000000000000000000000000000000''"

text \<open>A bootstrap, then the operator replaces its own credential.\<close>

definition sample_bootstrap :: "operator_error + operator_db \<times> pystr \<times> pystr" where
  "sample_bootstrap =
     bindR (bootstrap (sample_operator_env 5 2) (auth_id 1) (lit ''Op'') [] 1000 sample_request_id [] operator_db0)
       (\<lambda>(db, m, c, value, r). Inr (db, value, cr_id r))"

definition sample_rotation :: "operator_error + operator_db" where
  "sample_rotation =
     bindR sample_bootstrap (\<lambda>(db, value, i).
     bindR (rotate_credential (sample_operator_env 6 5) value (auth_id 1) (auth_id 2) i 1000 sample_request_id db)
       (\<lambda>(db', _). Inr db'))"

lemma sample_operator_sha: "oe_sha (sample_operator_env at n) = sample_sha"
  by (simp add: sample_operator_env_def)

lemma sample_tables: "operator_step sha empty_operator operator_db0"
  unfolding operator_db0_def by (rule operator_step.tables) simp

lemma sample_bootstrap_reachable:
  assumes "sample_bootstrap = Inr (db, v, i)"
  shows "operator_reachable sample_sha db"
proof -
  obtain x where b: "bootstrap (sample_operator_env 5 2) (auth_id 1) (lit ''Op'') [] 1000 sample_request_id []
      operator_db0 = Inr (db, x)"
    using assms by (auto simp: sample_bootstrap_def result_simps)
  have "(operator_step sample_sha)\<^sup>*\<^sup>* empty_operator operator_db0"
    by (rule r_into_rtranclp) (rule sample_tables)
  then show ?thesis
    unfolding operator_reachable_def
    by (rule rtranclp.rtrancl_into_rtrancl) (rule operator_step.bootstrapped [OF b sample_operator_sha])
qed

lemma sample_rotation_reachable:
  assumes "sample_rotation = Inr db"
  shows "operator_reachable sample_sha db"
proof -
  obtain db1 v i x where b: "sample_bootstrap = Inr (db1, v, i)"
    and r: "rotate_credential (sample_operator_env 6 5) v (auth_id 1) (auth_id 2) i 1000 sample_request_id db1 = Inr (db, x)"
    using assms by (auto simp: sample_rotation_def result_simps)
  show ?thesis
    using sample_bootstrap_reachable [OF b] operator_step.rotated [OF r sample_operator_sha]
    unfolding operator_reachable_def by (rule rtranclp.rtrancl_into_rtrancl)
qed

lemma sample_rotation_links:
  "map_sum (\<lambda>_. ()) (\<lambda>db. map (\<lambda>c. (cr_id c, cr_rotated_to c)) (a_credentials (op_auth db))) sample_rotation
   = Inr [(auth_id 3, Some (auth_id 5)), (auth_id 5, None)]"
  by code_simp

theorem reachable_backup_accepted_witness:
  "\<exists>db. map (\<lambda>c. (cr_id c, cr_rotated_to c)) (a_credentials (op_auth db)) = [(auth_id 3, Some (auth_id 5)), (auth_id 5, None)]
    \<and> require_auth_tables sample_sha db = Some (Inr ())"
proof -
  obtain db where db: "sample_rotation = Inr db" and l: "map (\<lambda>c. (cr_id c, cr_rotated_to c)) (a_credentials (op_auth db))
      = [(auth_id 3, Some (auth_id 5)), (auth_id 5, None)]"
    using map_sum_InrE [OF sample_rotation_links] by (elim exE conjE) simp
  show ?thesis
    by (rule exI [of _ db]) (rule conjI [OF l reachable_backup_accepted [OF sample_rotation_reachable [OF db]]])
qed

lemma add_grants_tables:
  "add_grants gs a = Inr b \<Longrightarrow> set (a_section_grants b) = set gs \<union> set (a_section_grants a) \<and> kind_of b = kind_of a"
proof (induction gs arbitrary: a)
  case (Cons g gs)
  then obtain a1 where g: "add_grant g a = Inr a1" and gs: "add_grants gs a1 = Inr b" by (auto simp: result_simps)
  have "a1 = a\<lparr>a_section_grants := a_section_grants a @ [g]\<rparr>" using g by (auto simp: add_grant_def split: if_split_asm)
  then show ?case using Cons.IH [OF gs] by (auto simp: kind_of_def get_caller_def fun_eq_iff)
qed simp

text \<open>C27: a bootstrap that gives its operator an initial Section grant leaves a store that the checks of a
  restored backup refuse.\<close>

theorem bootstrap_grants_refused:
  assumes db: "operator_reachable (oe_sha env) db"
    and b: "bootstrap env l n d e rq (g # gs) db = Inr (db', x)"
  shows "require_auth_tables (oe_sha env) db' = Some (Inl BackupDatabaseError)"
proof -
  let ?c = "new_caller env (oe_ids env 0) l Operator n d (oe_clock env 0)"
  obtain a1 a2 v r a3 where ic: "insert_caller ?c (op_auth db) = Inr a1"
    and i: "issue_credential (oe_sha env) (oe_selector env) (oe_secret env) (oe_ids env 1)
      (oe_clock env 0) ?c (Some e) a1 = Inr (a2, v, r)"
    and gr: "add_grants (map (initial_grant l (ca_id ?c)) (g # gs)) a2 = Inr a3" and d: "op_auth db' = a3"
    using b by (auto simp: bootstrap_def Let_def result_simps issue_for_def simp del: add_grants.simps list.map
        split: if_split_asm dest!: audited_Inr)
  have s1: "auth_sound (oe_sha env) a1"
    using insert_caller_evolves [OF ic] operator_reachable_sound [OF db] by (auto simp: evolves_def operator_sound_def)
  have m: "?c \<in> set (a_callers a1)" using ic by (auto simp: insert_caller_def add_caller_def split: if_split_asm)
  have gc: "get_caller a1 (ca_library_id ?c) (ca_id ?c) = Some ?c" by (rule get_caller_unique [OF auth_sound_ok [OF s1] m])
  have a2: "auth_sound (oe_sha env) a2" "auth_advances a1 a2" using issue_evolves [OF i gc] s1 by (auto simp: evolves_def)
  have "kind_of a1 l (ca_id ?c) = Some Operator" using gc by (simp add: kind_of_def new_caller_def)
  then have k2: "kind_of a2 l (ca_id ?c) = Some Operator" by (rule kind_of_kept [OF auth_sound_ok [OF a2(1)] a2(2)])
  have "initial_grant l (ca_id ?c) g \<in> set (a_section_grants a3) \<and> kind_of a3 = kind_of a2"
    using add_grants_tables [OF gr] by simp
  then have ag: "require_agent_grants a3 = Inl BackupDatabaseError"
    using k2 by (auto simp: require_agent_grants_def requireR_def filter_empty_conv initial_grant_def
        simp del: list.map intro!: bexI [of _ "initial_grant l (ca_id ?c) g"])
  have e: "u = Inl BackupDatabaseError \<or> u = Inr ()" for u :: "backup_error + unit"
    by (cases u) (auto intro: backup_error.exhaust)
  have t: "bindR (require_policy_modes a3) (\<lambda>_. bindR (require_bounded_credentials a3) (\<lambda>_.
      bindR (require_bootstrap_markers db') (\<lambda>_. bindR (require_agent_grants a3) f))) = Inl BackupDatabaseError"
    for f :: "unit \<Rightarrow> backup_error + unit"
    using ag e [of "require_policy_modes a3"] e [of "require_bounded_credentials a3"]
      e [of "require_bootstrap_markers db'"] by auto
  show ?thesis unfolding require_auth_tables_def d Let_def t by simp
qed

text \<open>A bootstrap with one grant, of the only Section.\<close>

definition sample_granted :: "operator_error + operator_db" where
  "sample_granted =
     bindR (bootstrap (sample_operator_env 5 2) (auth_id 1) (lit ''Op'') [] 1000 sample_request_id
       [(auth_id 9, PageRead)] operator_db0) (\<lambda>(db, _). Inr db)"

lemma sample_granted_rows:
  "map_sum (\<lambda>_. ()) (\<lambda>db. length (a_section_grants (op_auth db))) sample_granted = Inr 1"
  by code_simp

lemma operator_db0_reachable: "operator_reachable sha operator_db0"
  unfolding operator_reachable_def by (rule r_into_rtranclp) (rule sample_tables)

theorem bootstrap_grants_refused_witness:
  "\<exists>db. sample_granted = Inr db \<and> require_auth_tables sample_sha db = Some (Inl BackupDatabaseError)"
proof -
  obtain db where db: "sample_granted = Inr db" using map_sum_InrE [OF sample_granted_rows] by (elim exE conjE) simp
  then obtain x where b: "bootstrap (sample_operator_env 5 2) (auth_id 1) (lit ''Op'') [] 1000 sample_request_id
      [(auth_id 9, PageRead)] operator_db0 = Inr (db, x)"
    by (auto simp: sample_granted_def result_simps)
  have "require_auth_tables (oe_sha (sample_operator_env 5 2)) db = Some (Inl BackupDatabaseError)"
    by (rule bootstrap_grants_refused [OF operator_db0_reachable b])
  then show ?thesis using db unfolding sample_operator_sha by (intro exI [of _ db] conjI)
qed

section \<open>Recovery\<close>

definition retired :: "credential \<Rightarrow> bool" where
  "retired c \<longleftrightarrow> cr_revoked_at c \<noteq> None \<or> cr_rotated_at c \<noteq> None"

lemma revoke_rows:
  assumes d: "distinct (map cr_id (a_credentials a))" and c: "c \<in> set (a_credentials a)"
    and r: "revoke_credential c at a = Inr (b, x)"
  shows "map link (a_credentials b) = map link (a_credentials a)"
    and "\<And>y. y \<in> set (a_credentials a) \<Longrightarrow> cr_id y \<noteq> cr_id c \<Longrightarrow> y \<in> set (a_credentials b)"
    and "\<And>y. y \<in> set (a_credentials b) \<Longrightarrow> cr_id y = cr_id c \<Longrightarrow> retired y"
proof -
  let ?f = "\<lambda>x. x\<lparr>cr_revoked_at := Some at, cr_updated_at := at\<rparr> :: credential"
  obtain b1 n where u: "update_credentials (live_row c) ?f a = Inr (b1, n)" and b: "a_credentials b = a_credentials b1"
    using r by (auto simp: revoke_credential_def result_simps Let_def)
  have uniq: "y = c" if "y \<in> set (a_credentials a)" "cr_id y = cr_id c" for y
    using that c d by (auto simp: distinct_map inj_on_def)
  have "quiet a b1" by (rule update_credentials_quiet [OF d u]) (simp add: link_def rotation_row_of_def)
  then show "map link (a_credentials b) = map link (a_credentials a)" by (simp add: quiet_def b)
  from u have "(\<forall>y \<in> set (a_credentials a). cr_id y \<noteq> cr_id c \<longrightarrow> y \<in> set (a_credentials b))
    \<and> (\<forall>y \<in> set (a_credentials b). cr_id y = cr_id c \<longrightarrow> retired y)"
  proof (cases rule: update_credentials_Inr)
    case 1
    then have "retired c" using c by (auto simp: live_row_def retired_def)
    then show ?thesis using 1 b uniq by auto
  next
    case (2 old)
    then have "old = c" using uniq by (auto simp: live_row_def credential_key_def)
    then have "a_credentials b = replaced cr_id (?f c) (a_credentials a)" using 2(5) b by simp
    then show ?thesis by (auto simp: replaced_def retired_def)
  qed
  then show "\<And>y. y \<in> set (a_credentials a) \<Longrightarrow> cr_id y \<noteq> cr_id c \<Longrightarrow> y \<in> set (a_credentials b)"
    "\<And>y. y \<in> set (a_credentials b) \<Longrightarrow> cr_id y = cr_id c \<Longrightarrow> retired y" by blast+
qed

lemma links_ids: "map link xs = map link ys \<Longrightarrow> map cr_id xs = map cr_id ys"
proof -
  have "map cr_id zs = map (rr_id \<circ> fst) (map link zs)" for zs by (simp add: link_def rotation_row_of_def)
  then show "map link xs = map link ys \<Longrightarrow> map cr_id xs = map cr_id ys" by metis
qed

lemma retire_rows:
  assumes "retire_credentials cs at a = Inr (b, ids)" and "distinct (map cr_id (a_credentials a))"
    and "set cs \<subseteq> set (a_credentials a)" and "distinct (map cr_id cs)"
  shows "map link (a_credentials b) = map link (a_credentials a)
    \<and> (\<forall>y \<in> set (a_credentials a). cr_id y \<notin> cr_id ` set cs \<longrightarrow> y \<in> set (a_credentials b))
    \<and> (\<forall>y \<in> set (a_credentials b). cr_id y \<in> cr_id ` set cs \<longrightarrow> retired y)"
  using assms
proof (induction cs arbitrary: a ids)
  case Nil
  then show ?case by simp
next
  case (Cons c cs)
  obtain a1 x ids' where r: "revoke_credential c at a = Inr (a1, Some x)"
    and cs: "retire_credentials cs at a1 = Inr (b, ids')"
    using Cons.prems(1) by (auto simp: result_simps split: if_split_asm)
  have c: "c \<in> set (a_credentials a)" using Cons.prems(3) by simp
  note v = revoke_rows [OF Cons.prems(2) c r]
  have d1: "distinct (map cr_id (a_credentials a1))" using Cons.prems(2) links_ids [OF v(1)] by simp
  have sub: "set cs \<subseteq> set (a_credentials a1)"
  proof
    fix y assume y: "y \<in> set cs"
    then have "cr_id y \<noteq> cr_id c" using Cons.prems(4) by (metis distinct.simps(2) image_eqI list.set_map list.simps(9))
    then show "y \<in> set (a_credentials a1)" using v(2) [of y] y Cons.prems(3) by auto
  qed
  note ih = Cons.IH [OF cs d1 sub]
  have dcs: "distinct (map cr_id cs)" "cr_id c \<notin> cr_id ` set cs" using Cons.prems(4) by auto
  have l: "map link (a_credentials b) = map link (a_credentials a)" using ih [OF dcs(1)] v(1) by simp
  have db: "distinct (map cr_id (a_credentials b))" using Cons.prems(2) links_ids [OF l] by simp
  have rc: "retired y" if y: "y \<in> set (a_credentials b)" "cr_id y = cr_id c" for y
  proof -
    have "cr_id y \<in> cr_id ` set (a_credentials a1)"
      using y c links_ids [OF v(1)] by (metis image_eqI list.set_map)
    then obtain z where z: "z \<in> set (a_credentials a1)" "cr_id z = cr_id y" by auto
    then have "z \<in> set (a_credentials b)" using ih [OF dcs(1)] dcs(2) y(2) by simp
    then have "z = y" using db z(2) y(1) by (auto simp: distinct_map inj_on_def)
    then show ?thesis using v(3) [of z] z y(2) by simp
  qed
  have "\<forall>y \<in> set (a_credentials a). cr_id y \<notin> cr_id ` set (c # cs) \<longrightarrow> y \<in> set (a_credentials b)"
    using ih [OF dcs(1)] v(2) by simp
  moreover have "\<forall>y \<in> set (a_credentials b). cr_id y \<in> cr_id ` set (c # cs) \<longrightarrow> retired y"
    using ih [OF dcs(1)] rc by auto
  ultimately show ?case using l by blast
qed

lemma touched_row:
  assumes d: "distinct (map cr_id (a_credentials a))" and s: "s \<in> set (a_credentials a)"
    and t: "touch_credential_last_used s now a = Inr (b, s')"
  shows "cr_id s' = cr_id s \<and> cr_created_at s' = cr_created_at s"
proof -
  obtain n where u: "update_credentials (live_row s)
      (\<lambda>x. x\<lparr>cr_last_used_at := Some now, cr_updated_at := now\<rparr>) a = Inr (b, n)"
    and s': "s' = (case get_credential b (cr_library_id s) (cr_caller_id s) (cr_id s) of None \<Rightarrow> s | Some r \<Rightarrow> r)"
    using t by (auto simp: touch_credential_last_used_def result_simps)
  have "quiet a b" by (rule update_credentials_quiet [OF d u]) (simp add: link_def rotation_row_of_def)
  then have l: "map link (a_credentials b) = map link (a_credentials a)" by (simp add: quiet_def)
  show ?thesis
  proof (cases "get_credential b (cr_library_id s) (cr_caller_id s) (cr_id s)")
    case (Some r)
    note r = get_credential_Some [OF Some]
    then have "link r \<in> link ` set (a_credentials a)" using l by (metis image_eqI list.set_map)
    then obtain z where z: "z \<in> set (a_credentials a)" "link z = link r" by auto
    then have "z = s" using s d r link_fields [OF z(2)] by (auto simp: distinct_map inj_on_def)
    then show ?thesis using link_fields [OF z(2)] s' Some by simp
  qed (use s' in simp)
qed

lemma authenticated_row:
  assumes d: "distinct (map cr_id (a_credentials a))" and "authenticate sha co now tok a = Inr (b, x)"
  obtains s cl where "s \<in> set (a_credentials a)" "get_caller a (cr_library_id s) (cr_caller_id s) = Some cl"
    "ac_caller x = cl" "\<not> credential_refused (Some cl) s now" "cr_id (ac_credential x) = cr_id s"
    "cr_created_at (ac_credential x) = cr_created_at s"
proof -
  obtain p where p: "parse_token sha tok = Inr p" using assms(2) by (auto simp: authenticate_def split: sum.split_asm)
  obtain s where s: "find_credential_by_selector a (pt_selector p) = Some s"
    using assms p by (auto simp: authenticate_def Let_def split: option.split_asm if_split_asm)
  have sm: "s \<in> set (a_credentials a)" using s by (auto simp: find_credential_by_selector_def find_Some_iff)
  have nr: "\<not> credential_refused (get_caller a (cr_library_id s) (cr_caller_id s)) s now"
    using assms p s by (auto simp: authenticate_def Let_def split: if_split_asm)
  then obtain cl where cl: "get_caller a (cr_library_id s) (cr_caller_id s) = Some cl"
    by (auto simp: credential_refused_def split: option.split_asm)
  obtain s' where x: "x = \<lparr>ac_caller = cl, ac_credential = credential_metadata s'\<rparr>"
    and t: "s' = s \<or> touch_credential_last_used s now a = Inr (b, s')"
    using assms p s cl nr by (auto simp: authenticate_def Let_def result_simps split: if_split_asm)
  have "cr_id s' = cr_id s \<and> cr_created_at s' = cr_created_at s"
    using t touched_row [OF d sm] by blast
  then show thesis
    using that [OF sm cl] nr cl x by (simp add: credential_metadata_def credential_record.truncate_def)
qed

lemma retire_callers: "retire_credentials cs at a = Inr (b, ids) \<Longrightarrow> a_callers b = a_callers a"
proof (induction cs arbitrary: a ids)
  case (Cons c cs)
  then obtain a1 r ids' where r: "revoke_credential c at a = Inr (a1, Some r)"
    and cs: "retire_credentials cs at a1 = Inr (b, ids')"
    by (auto simp: result_simps split: if_split_asm)
  have "a_callers a1 = a_callers a" using r
    by (auto simp: revoke_credential_def update_credentials_def result_simps Let_def split: option.split_asm if_split_asm)
  then show ?case using Cons.IH [OF cs] by simp
qed simp

text \<open>What a recovery does: the new credential is the last row, every credential of the operator that was
  active is retired, and no other row changes.\<close>

lemma recovered_store:
  assumes reach: "operator_reachable (oe_sha env) db"
    and r: "recover env l e rq db = Inr (db', m, c, token, new, ids)"
  obtains a1 p k where "ca_kind c = Operator" "ca_disabled_at c = None" "ca_library_id c = l"
    "parse_token (oe_sha env) token = Inr p" "pt_selector p = cr_selector k" "pt_version p = TOKEN_VERSION"
    "cr_verifier k = derive_verifier (oe_sha env) (oe_selector env) (oe_secret env)" "pt_verifier p = cr_verifier k"
    "cr_selector k = encode_component (oe_selector env)" "length (oe_selector env) = 16"
    "cr_id k = cr_id new" "cr_library_id k = l" "cr_caller_id k = ca_id c" "cr_revoked_at k = None"
    "cr_rotated_at k = None" "cr_created_at k = oe_clock env 0" "cr_expires_at k = Some e"
    "a_credentials a1 = a_credentials (op_auth db) @ [k]" "cr_id k \<notin> cr_id ` set (a_credentials (op_auth db))"
    "retire_credentials (list_active_credentials (op_auth db) l (ca_id c) (oe_clock env 0)) (oe_clock env 0) a1
      = Inr (op_auth db', ids)"
    "auth_sound (oe_sha env) (op_auth db)" "auth_sound (oe_sha env) a1" "auth_sound (oe_sha env) (op_auth db')"
    "auth_advances a1 (op_auth db')" "c \<in> set (a_callers (op_auth db'))"
proof -
  let ?at = "oe_clock env 0" and ?a = "op_auth db"
  have gm: "get_bootstrap_marker db l = Some m" and gc: "get_caller ?a l (bm_operator_caller_id m) = Some c"
    and op: "ca_kind c = Operator" "ca_disabled_at c = None"
    using r by (auto simp: recover_def Let_def recoverable_def result_simps split: option.split_asm if_split_asm
        dest!: audited_Inr)
  obtain a1 where i: "issue_credential (oe_sha env) (oe_selector env) (oe_secret env) (oe_ids env 0) ?at c (Some e) ?a
      = Inr (a1, token, new)"
    and t: "retire_credentials (list_active_credentials ?a l (ca_id c) ?at) ?at a1 = Inr (op_auth db', ids)"
    using r gm gc by (auto simp: recover_def Let_def result_simps issue_for_def split: if_split_asm dest!: audited_Inr)
  have cid: "ca_library_id c = l" using get_caller_Some [OF gc] by simp
  have gc': "get_caller ?a (ca_library_id c) (ca_id c) = Some c" using gc get_caller_Some [OF gc] by simp
  have s: "auth_sound (oe_sha env) ?a" using operator_reachable_sound [OF reach] by (simp add: operator_sound_def)
  obtain p k dba where p: "parse_token (oe_sha env) token = Inr p" "pt_selector p = cr_selector k"
    and pv: "pt_version p = TOKEN_VERSION" "cr_verifier k = pt_verifier p"
      "pt_verifier p = derive_verifier (oe_sha env) (oe_selector env) (oe_secret env)"
    and sel: "cr_selector k = encode_component (oe_selector env)" "length (oe_selector env) = 16"
    and k: "cr_id k = oe_ids env 0" "cr_library_id k = l" "cr_caller_id k = ca_id c"
      "cr_revoked_at k = None" "cr_rotated_at k = None" "cr_created_at k = ?at" "cr_expires_at k = Some e"
    and ad: "add_credential k ?a = Inr dba" and cs0: "a_credentials a1 = a_credentials dba"
    and cl1: "a_callers a1 = a_callers ?a"
    using issue_credential_Inr [OF i] cid by metis
  have cs: "a_credentials a1 = a_credentials ?a @ [k]" using add_credential_Inr(1) [OF ad] cs0 by simp
  have s1: "auth_sound (oe_sha env) a1" and nid: "cr_id new = oe_ids env 0"
    using issue_sound [OF s gc' i] by metis+
  have s2: "auth_sound (oe_sha env) (op_auth db')" and adv: "auth_advances a1 (op_auth db')"
    using retire_evolves [OF t, of "oe_sha env"] s1 by (simp_all add: evolves_def)
  have kn: "cr_id k \<notin> cr_id ` set (a_credentials ?a)" using auth_sound_distinct [OF s1] cs by auto
  have cm: "c \<in> set (a_callers (op_auth db'))" using get_caller_Some [OF gc] retire_callers [OF t] cl1 by simp
  show thesis
    by (rule that [OF op cid p pv(1) _ _ sel _ k(2-7) cs kn t s s1 s2 adv cm]) (simp_all add: pv k nid)
qed

lemma recovered_rows:
  assumes cs: "a_credentials a1 = a_credentials a @ [k]" and kn: "cr_id k \<notin> cr_id ` set (a_credentials a)"
    and t: "retire_credentials (list_active_credentials a l i at) at a1 = Inr (b, ids)" and s1: "auth_sound sha a1"
  shows "k \<in> set (a_credentials b)" and "map link (a_credentials b) = map link (a_credentials a1)"
    and "\<And>y. y \<in> set (a_credentials b) \<Longrightarrow> cr_id y \<in> cr_id ` set (list_active_credentials a l i at) \<Longrightarrow> retired y"
proof -
  note d1 = auth_sound_distinct [OF s1]
  have sub: "set (list_active_credentials a l i at) \<subseteq> set (a_credentials a)"
    by (auto simp: list_active_credentials_def)
  have "distinct (map cr_id (list_active_credentials a l i at))"
    using d1 cs by (auto simp: list_active_credentials_def distinct_map inj_on_def)
  then have rows: "map link (a_credentials b) = map link (a_credentials a1)
    \<and> (\<forall>y \<in> set (a_credentials a1). cr_id y \<notin> cr_id ` set (list_active_credentials a l i at) \<longrightarrow> y \<in> set (a_credentials b))
    \<and> (\<forall>y \<in> set (a_credentials b). cr_id y \<in> cr_id ` set (list_active_credentials a l i at) \<longrightarrow> retired y)"
    using retire_rows [OF t d1] sub cs by auto
  show "k \<in> set (a_credentials b)" using rows kn cs sub by auto
  show "map link (a_credentials b) = map link (a_credentials a1)" using rows by blast
  show "\<And>y. y \<in> set (a_credentials b) \<Longrightarrow> cr_id y \<in> cr_id ` set (list_active_credentials a l i at) \<Longrightarrow> retired y"
    using rows by blast
qed

lemma recovered_token_accepted:
  assumes reach: "operator_reachable (oe_sha env) db" and sha: "\<forall>b. length (oe_sha env b) = 32"
    and r: "recover env l e rq db = Inr (db', m, c, token, new, ids)" and now: "oe_clock env 0 \<le> now" "now < e"
  shows "\<exists>auth a. require_operator (oe_sha env) co now token l (op_auth db') = Inr (auth, a)
    \<and> ac_caller a = c \<and> cr_id (ac_credential a) = cr_id new"
proof -
  obtain a1 p k where op: "ca_kind c = Operator" "ca_disabled_at c = None" "ca_library_id c = l"
    and p: "parse_token (oe_sha env) token = Inr p" "pt_selector p = cr_selector k" "pt_version p = TOKEN_VERSION"
      "cr_verifier k = derive_verifier (oe_sha env) (oe_selector env) (oe_secret env)" "pt_verifier p = cr_verifier k"
    and sel: "cr_selector k = encode_component (oe_selector env)" "length (oe_selector env) = 16"
    and k: "cr_id k = cr_id new" "cr_library_id k = l" "cr_caller_id k = ca_id c" "cr_revoked_at k = None"
      "cr_rotated_at k = None" "cr_created_at k = oe_clock env 0" "cr_expires_at k = Some e"
    and cs: "a_credentials a1 = a_credentials (op_auth db) @ [k]" "cr_id k \<notin> cr_id ` set (a_credentials (op_auth db))"
    and t: "retire_credentials (list_active_credentials (op_auth db) l (ca_id c) (oe_clock env 0)) (oe_clock env 0) a1
      = Inr (op_auth db', ids)"
    and s: "auth_sound (oe_sha env) (op_auth db)" "auth_sound (oe_sha env) a1" "auth_sound (oe_sha env) (op_auth db')"
    and "auth_advances a1 (op_auth db')" and cm: "c \<in> set (a_callers (op_auth db'))"
    by (rule recovered_store [OF reach r])
  note km = recovered_rows(1) [OF cs t s(2)]
  have gk: "get_caller (op_auth db') (cr_library_id k) (cr_caller_id k) = Some c"
    using get_caller_unique [OF auth_sound_ok [OF s(3)] cm] k op by simp
  have "is_canonical_selector (pt_selector p)" using p sel decode_encode [of "oe_selector env"]
    by (simp add: is_canonical_selector_def length_encode_component SELECTOR_ENCODED_LENGTH_def SELECTOR_BYTES_def)
  then have v: "verify_token (oe_sha env) p (Some (cr_verifier k))"
    using p sha by (simp add: verify_token_iff derive_verifier_def)
  have "\<not> credential_refused (get_caller (op_auth db') (cr_library_id k) (cr_caller_id k)) k now"
    using now k op unfolding gk by (auto simp: credential_refused_def)
  then obtain auth x where "authenticate (oe_sha env) co now token (op_auth db') = Inr (auth, x)"
    "Some (ac_caller x) = Some c" "cr_id (ac_credential x) = cr_id k"
    using authenticate_verified [OF auth_sound_ok [OF s(3)] p(1) km p(2) v] gk by metis
  then show ?thesis using op k(1) by (simp add: require_operator_def)
qed

lemma active_before_recovery:
  assumes y: "y \<in> set (a_credentials a)" "cr_library_id y = l" "cr_caller_id y = i"
    and n: "y \<notin> set (list_active_credentials a l i at)" and ck: "credential_check y"
    and live: "cr_revoked_at y = None" and ex: "\<And>t. cr_expires_at y = Some t \<Longrightarrow> at < t"
  shows "at < cr_created_at y"
proof -
  have "cr_rotated_at y = None" using ck live by (auto simp: credential_check_def)
  then show ?thesis using n y live ex
    by (auto simp: list_active_credentials_def credential_active_def split: option.split_asm)
qed

text \<open>The credentials the operator had at the recovery stay refused in every later store.\<close>

lemma recovered_others_refused:
  assumes reach: "operator_reachable (oe_sha env) db"
    and r: "recover env l e rq db = Inr (db', m, c, token, new, ids)" and now: "oe_clock env 0 \<le> now"
    and st: "auth_steps (oe_sha env) (op_auth db') later"
    and y: "y \<in> set (a_credentials (op_auth db))" "cr_caller_id y = ca_id c" "cr_created_at y \<le> oe_clock env 0"
    and q: "require_operator (oe_sha env) co now tok l later = Inr (auth, x)"
  shows "cr_id (ac_credential x) \<noteq> cr_id y"
proof
  assume xy: "cr_id (ac_credential x) = cr_id y"
  obtain a1 k where cs: "a_credentials a1 = a_credentials (op_auth db) @ [k]"
      "cr_id k \<notin> cr_id ` set (a_credentials (op_auth db))"
    and t: "retire_credentials (list_active_credentials (op_auth db) l (ca_id c) (oe_clock env 0)) (oe_clock env 0) a1
      = Inr (op_auth db', ids)"
    and s: "auth_sound (oe_sha env) (op_auth db)" "auth_sound (oe_sha env) a1" "auth_sound (oe_sha env) (op_auth db')"
    and adv: "auth_advances a1 (op_auth db')"
    by (rule recovered_store [OF reach r]) blast
  note ok2 = auth_sound_ok [OF s(3)]
  have ok3: "auth_ok (oe_sha env) later" and adv3: "auth_advances (op_auth db') later"
    using auth_steps_ok [OF st ok2] by simp_all
  have d3: "distinct (map cr_id (a_credentials later))" using ok3 by (simp add: auth_ok_def)
  have au: "authenticate (oe_sha env) co now tok later = Inr (auth, x)" and lx: "ca_library_id (ac_caller x) = l"
    using q by (auto simp: require_operator_def result_simps split: if_split_asm)
  obtain z cl where z: "z \<in> set (a_credentials later)"
    and gz: "get_caller later (cr_library_id z) (cr_caller_id z) = Some cl" "ac_caller x = cl"
    and nr: "\<not> credential_refused (Some cl) z now" and zx: "cr_id (ac_credential x) = cr_id z"
    by (rule authenticated_row [OF d3 au])
  have live: "cr_revoked_at z = None" and ez: "cr_expires_at z = Some t \<Longrightarrow> now < t" for t
    using nr by (auto simp: credential_refused_def)
  obtain w where w: "w \<in> set (a_credentials (op_auth db'))" "same_credential y w"
    using adv y(1) cs(1) by (auto simp: auth_advances_def)
  obtain v where v: "v \<in> set (a_credentials later)" "same_credential w v" using adv3 w(1) by (auto simp: auth_advances_def)
  have "cr_id v = cr_id z" using xy zx v(2) w(2) by (simp add: same_credential_def credential_key_def)
  then have vz: "v = z" using d3 v(1) z by (auto simp: distinct_map inj_on_def)
  have wr: "cr_revoked_at w = None" using v(2) live vz by (auto simp: same_credential_def)
  have yr: "cr_revoked_at y = None" using w(2) wr by (auto simp: same_credential_def)
  have yl: "cr_library_id y = l"
    using get_caller_Some [OF gz(1)] gz(2) lx v(2) w(2) vz by (simp add: same_credential_def credential_key_def)
  have ye: "oe_clock env 0 < t" if "cr_expires_at y = Some t" for t
    using ez [of t] that now v(2) w(2) vz by (simp add: same_credential_def)
  have cw: "credential_check w" using ok2 w(1) by (auto simp: auth_ok_def list_all_iff)
  have "\<not> retired w" using cw wr by (auto simp: retired_def credential_check_def)
  moreover have "cr_id w = cr_id y" using w(2) by (simp add: same_credential_def credential_key_def)
  ultimately have np: "y \<notin> set (list_active_credentials (op_auth db) l (ca_id c) (oe_clock env 0))"
    using recovered_rows(3) [OF cs t s(2) w(1)] by (metis image_eqI)
  have ck: "credential_check y" using auth_sound_ok [OF s(1)] y(1) by (auto simp: auth_ok_def list_all_iff)
  have "oe_clock env 0 < cr_created_at y"
    by (rule active_before_recovery [OF y(1) yl y(2) np ck yr ye])
  then show False using y(3) by simp
qed

text \<open>C24: after a recovery the new token is accepted for the operator until it expires, and no credential
  the operator had before is ever accepted again: not in the store the recovery leaves and not in any
  store that operations on callers and credentials lead to from there. The credentials meant are those
  with a creation time up to the recovery's clock, which every credential has unless the clock went back
  between its creation and the recovery.\<close>

theorem recovered_operator_exclusive:
  assumes "operator_reachable (oe_sha env) db" and "\<forall>b. length (oe_sha env b) = 32"
    and "recover env l e rq db = Inr (db', m, c, token, new, ids)" and "oe_clock env 0 \<le> now"
    and "auth_steps (oe_sha env) (op_auth db') later"
  shows "(now < e \<longrightarrow> (\<exists>auth a. require_operator (oe_sha env) co now token l (op_auth db') = Inr (auth, a)
        \<and> ac_caller a = c \<and> cr_id (ac_credential a) = cr_id new))
    \<and> (\<forall>y \<in> set (a_credentials (op_auth db)). cr_caller_id y = ca_id c \<and> cr_created_at y \<le> oe_clock env 0 \<longrightarrow>
        \<not> (\<exists>co tok auth a. require_operator (oe_sha env) co now tok l later = Inr (auth, a)
              \<and> cr_id (ac_credential a) = cr_id y))"
  using recovered_token_accepted [OF assms(1-4)] recovered_others_refused [OF assms(1,3,4,5)] by blast

definition sample_recovery ::
  "operator_error + operator_db \<times> operator_db \<times> bootstrap_marker \<times> caller \<times> pystr \<times> credential_record \<times> pystr list" where
  "sample_recovery =
     bindR sample_bootstrap (\<lambda>(db, value, i).
     bindR (recover (sample_operator_env 6 5) (auth_id 1) 1000 sample_request_id db) (\<lambda>x. Inr (db, x)))"

lemma sample_recovery_result:
  "map_sum (\<lambda>_. ()) (\<lambda>(db, db', m, c, token, new, ids). (ids, cr_id new)) sample_recovery
   = Inr ([auth_id 3], auth_id 5)"
  by code_simp

theorem recovered_operator_exclusive_witness:
  "\<exists>db token auth a. require_operator sample_sha 0 7 token (auth_id 1) db = Inr (auth, a)
    \<and> cr_id (ac_credential a) = auth_id 5"
proof -
  obtain db db' m c token new ids where x: "sample_recovery = Inr (db, db', m, c, token, new, ids)"
    and n: "cr_id new = auth_id 5"
    using map_sum_InrE [OF sample_recovery_result] by (auto simp del: One_nat_def)
  obtain v i where b: "sample_bootstrap = Inr (db, v, i)"
    and r: "recover (sample_operator_env 6 5) (auth_id 1) 1000 sample_request_id db = Inr (db', m, c, token, new, ids)"
    using x by (auto simp: sample_recovery_def result_simps simp del: One_nat_def)
  have reach: "operator_reachable (oe_sha (sample_operator_env 6 5)) db"
    unfolding sample_operator_sha by (rule sample_bootstrap_reachable [OF b])
  have sha: "\<forall>b. length (oe_sha (sample_operator_env 6 5) b) = 32" unfolding sample_operator_sha by (simp add: sample_sha_def)
  have "oe_clock (sample_operator_env 6 5) 0 \<le> 7" by (simp add: sample_operator_env_def)
  from recovered_operator_exclusive [OF reach sha r this, of "op_auth db'" 0] n show ?thesis
    unfolding sample_operator_sha by (auto simp: auth_steps_def)
qed

end
