(* ===== verification/BackupPages.thy ===== *)
theory BackupPages
  imports BackupAuth FileSets
begin

text \<open>
  \<open>backup/validation.py\<close>, the checks of the content tables in a restored database of the newest
  schema: the graph of pages and Revisions, the sources, the files and their seals, the chains of
  occurrence corrections, the registered identifiers and the collision counters.
\<close>

section \<open>Pages and their Revisions\<close>

fun require_each :: "('a \<Rightarrow> backup_error + unit) \<Rightarrow> 'a list \<Rightarrow> backup_error + unit" where
  "require_each check [] = Inr ()"
| "require_each check (x # xs) = bindR (check x) (\<lambda>_. require_each check xs)"

definition require_none :: "('a \<Rightarrow> bool) \<Rightarrow> 'a list \<Rightarrow> backup_error + unit" where
  "require_none bad rows = requireR (length (filter bad rows) = 0) BackupDatabaseError"

text \<open>\<open>min\<close> and \<open>max\<close> of no rows are \<open>NULL\<close>, and a comparison with \<open>NULL\<close> does not hold.\<close>

fun sql_fold :: "(int \<Rightarrow> int \<Rightarrow> int) \<Rightarrow> int list \<Rightarrow> int option" where
  "sql_fold f [] = None"
| "sql_fold f (x # xs) = Some (foldr f xs x)"

definition sql_differs :: "int option \<Rightarrow> int \<Rightarrow> bool" where
  "sql_differs v n \<longleftrightarrow> (case v of None \<Rightarrow> False | Some x \<Rightarrow> x \<noteq> n)"

definition page_numbers :: "content_db \<Rightarrow> page_key \<Rightarrow> int list" where
  "page_numbers db k = map rv_revision_number (filter (\<lambda>r. rev_page_key r = k) (t_revisions db))"

definition current_invalid :: "content_db \<Rightarrow> page \<Rightarrow> bool" where
  "current_invalid db p \<longleftrightarrow>
     (let numbers = page_numbers db (page_key p); current = pg_current_revision_number p in
      \<not> revision_exists db (current_key p)
      \<or> sql_differs (sql_fold min numbers) 1
      \<or> sql_differs (sql_fold max numbers) current
      \<or> int (length numbers) \<noteq> current)"

definition content_sound :: "(bytes \<Rightarrow> bytes) \<Rightarrow> revision \<Rightarrow> bool" where
  "content_sound sha r \<longleftrightarrow>
     (case (rv_content_md r, rv_content_size_bytes r, rv_content_sha256 r) of
        (None, None, None) \<Rightarrow> True
      | (Some content, Some n, Some digest) \<Rightarrow>
          utf8_decode content \<noteq> None \<and> 0 \<notin> set content \<and> int (length content) = n \<and> sha content = digest
      | _ \<Rightarrow> False)"

definition source_key :: "page_source \<Rightarrow> rev_key" where
  "source_key s = (so_library_id s, so_page_uid s, so_revision_id s, so_revision_number s)"

section \<open>Files\<close>

fun backup_files ::
  "(bytes \<Rightarrow> bytes) \<Rightarrow> (pystr \<times> bytes) list \<Rightarrow> int \<Rightarrow> revision_file list \<Rightarrow> backup_error + (pystr \<times> bytes) list" where
  "backup_files sha files used [] = Inr files"
| "backup_files sha files used (f # fs) =
     (let n = int (length (rf_content_bytes f)) in
      if int (length files) \<ge> MAX_FILES_PER_PAGE \<or> n > MAX_FILE_BYTES \<or> used + n > MAX_PAGE_BYTES
         \<or> rf_size_bytes f \<noteq> n \<or> rf_content_sha256 f \<noteq> sha (rf_content_bytes f)
      then Inl BackupDatabaseError
      else backup_files sha (files @ [(rf_filename f, rf_content_bytes f)]) (used + n) fs)"

text \<open>The storage format against the columns of the Revision.\<close>

definition format_sound :: "revision \<Rightarrow> revision_file_set \<Rightarrow> file_manifest \<Rightarrow> bool" where
  "format_sound r s m \<longleftrightarrow>
     (if fs_storage_format s = lit ''legacy_markdown'' then
        rv_content_md r \<noteq> None \<and> rv_content_size_bytes r \<noteq> None \<and> rv_content_sha256 r \<noteq> None
        \<and> (case fm_files m of
             [e] \<Rightarrow> mf_name e = lit ''content.md'' \<and> Some (mf_content e) = rv_content_md r
               \<and> Some (mf_size_bytes e) = rv_content_size_bytes r \<and> Some (mf_sha256 e) = rv_content_sha256 r
           | _ \<Rightarrow> False)
        \<and> fs_snapshot_sha256 s = None
      else
        rv_content_md r = None \<and> rv_content_size_bytes r = None \<and> rv_content_sha256 r = None
        \<and> fs_snapshot_sha256 s = Some (fm_snapshot_sha256 m))"

definition require_files ::
  "unicode_data \<Rightarrow> (bytes \<Rightarrow> bytes) \<Rightarrow> content_db \<Rightarrow> revision \<times> revision_file_set option \<Rightarrow> backup_error + unit" where
  "require_files u sha db x =
     (case x of
        (r, None) \<Rightarrow> Inl BackupDatabaseError
      | (r, Some s) \<Rightarrow>
          bindR (requireR (fs_storage_format s \<in> {lit ''legacy_markdown'', lit ''file_set_v1''})
            BackupDatabaseError) (\<lambda>_.
          bindR (backup_files sha [] 0
            (sort_key (\<lambda>f. name_bytes (rf_filename f)) (filter (\<lambda>f. rf_key f = rev_key r) (t_files db)))) (\<lambda>files.
          bindR (mapE (\<lambda>_. BackupDatabaseError) (build_file_manifest u sha files)) (\<lambda>m.
          requireR (map (\<lambda>e. (mf_name e, mf_content e)) (fm_files m) = files
            \<and> fs_file_count s = int (length (fm_files m)) \<and> fs_total_size_bytes s = fm_total_size_bytes m
            \<and> format_sound r s m) BackupDatabaseError))))"

text \<open>\<open>revisions LEFT JOIN revision_file_sets\<close>\<close>

definition with_file_sets :: "content_db \<Rightarrow> (revision \<times> revision_file_set option) list" where
  "with_file_sets db =
     concat (map (\<lambda>r.
       case filter (\<lambda>s. fs_key s = rev_key r) (t_file_sets db) of
         [] \<Rightarrow> [(r, None)]
       | sets \<Rightarrow> map (\<lambda>s. (r, Some s)) sets) (t_revisions db))"

definition require_manifested_revision_files ::
  "unicode_data \<Rightarrow> (bytes \<Rightarrow> bytes) \<Rightarrow> content_db \<Rightarrow> backup_error + unit" where
  "require_manifested_revision_files u sha db =
     bindR (requireR (length (t_revisions db) = length (t_file_sets db)) BackupDatabaseError) (\<lambda>_.
     require_each (require_files u sha db) (with_file_sets db))"

definition require_revision_seals :: "content_db \<Rightarrow> backup_error + unit" where
  "require_revision_seals db =
     bindR (require_none (\<lambda>r. rev_key r \<notin> set (t_seals db) \<or> rev_key r \<notin> set (t_seal_guards db))
       (t_revisions db)) (\<lambda>_.
     requireR (length (t_seals db) = length (t_revisions db)
       \<and> length (t_seal_guards db) = length (t_revisions db)) BackupDatabaseError)"

section \<open>Occurrence corrections\<close>

definition correction_row_sound :: "content_db \<Rightarrow> correction \<Rightarrow> bool" where
  "correction_row_sound db c \<longleftrightarrow>
     (let g = co_guard c in
      page_exists db (cg_key g)
      \<and> (case cg_master_audit_event_id g of
           None \<Rightarrow> cg_actor_caller_id g \<noteq> None
         | Some i \<Rightarrow>
             cg_actor_caller_id g = None
             \<and> (case find (\<lambda>a. ma_id a = i) (t_master_audits db) of
                  None \<Rightarrow> False
                | Some a \<Rightarrow>
                    ma_action a = lit ''content.page.occurrence.correct'' \<and> ma_target_type a = lit ''page''
                    \<and> ma_target_id a = page_target (cg_key g) \<and> ma_occurred_at a = cg_corrected_at g)))"

text \<open>The dictionary \<open>revision_created\<close>, in which a later row replaces an earlier one.\<close>

definition revision_created :: "content_db \<Rightarrow> page_key \<Rightarrow> int \<Rightarrow> int option" where
  "revision_created db k n =
     map_option rv_created_at
       (find (\<lambda>r. rev_page_key r = k \<and> rv_revision_number r = n) (rev (t_revisions db)))"

definition correction_in_chain ::
  "(int \<Rightarrow> int option) \<Rightarrow> page \<Rightarrow> int \<Rightarrow> int \<Rightarrow> int \<Rightarrow> int \<Rightarrow> correction \<Rightarrow> bool" where
  "correction_in_chain created p expected value prior_revision prior_time c \<longleftrightarrow>
     (let g = co_guard c; at = co_at_revision_number c; current = pg_current_revision_number p;
          next = (if at < current then created (at + 1) else None) in
      cg_sequence g = expected \<and> cg_old_occurred_at g = value
      \<and> cg_new_occurred_at g \<noteq> cg_old_occurred_at g
      \<and> prior_revision \<le> at \<and> at \<le> current \<and> prior_time < cg_corrected_at g
      \<and> pg_created_at p \<le> cg_corrected_at g
      \<and> (case created at of None \<Rightarrow> False | Some t \<Rightarrow> t \<le> cg_corrected_at g)
      \<and> (at < current \<longrightarrow> (case next of None \<Rightarrow> False | Some t \<Rightarrow> cg_corrected_at g < t))
      \<and> cg_corrected_at g \<le> pg_updated_at p)"

fun check_chain ::
  "(int \<Rightarrow> int option) \<Rightarrow> page \<Rightarrow> int \<Rightarrow> int \<Rightarrow> int \<Rightarrow> int \<Rightarrow> correction list \<Rightarrow> backup_error + int" where
  "check_chain created p expected value prior_revision prior_time [] = Inr value"
| "check_chain created p expected value prior_revision prior_time (c # cs) =
     (if \<not> correction_in_chain created p expected value prior_revision prior_time c
      then Inl BackupDatabaseError
      else check_chain created p (expected + 1) (cg_new_occurred_at (co_guard c))
             (co_at_revision_number c) (cg_corrected_at (co_guard c)) cs)"

definition initial_occurrence :: "content_db \<Rightarrow> page \<Rightarrow> int" where
  "initial_occurrence db p =
     (case corrections_of db (page_key p) of
        [] \<Rightarrow> pg_occurred_at p
      | c # _ \<Rightarrow> cg_old_occurred_at (co_guard c))"

definition check_page_chain :: "content_db \<Rightarrow> page \<Rightarrow> backup_error + unit" where
  "check_page_chain db p =
     bindR (check_chain (revision_created db (page_key p)) p 1 (initial_occurrence db p) 1 (-1)
       (corrections_of db (page_key p))) (\<lambda>value.
     requireR (value = pg_occurred_at p) BackupDatabaseError)"

definition require_occurrence_graph :: "content_db \<Rightarrow> backup_error + (page_key \<times> int) list" where
  "require_occurrence_graph db =
     bindR (requireR (length (t_correction_guards db) = 0) BackupDatabaseError) (\<lambda>_.
     bindR (requireR (list_all (correction_row_sound db) (t_corrections db)) BackupDatabaseError) (\<lambda>_.
     bindR (require_each (check_page_chain db) (t_pages db)) (\<lambda>_.
     Inr (map (\<lambda>p. (page_key p, initial_occurrence db p)) (t_pages db)))))"

section \<open>Identifiers and counters\<close>

definition identifier_row_sound :: "(bytes \<Rightarrow> bytes) \<Rightarrow> page_identifier \<Rightarrow> bool" where
  "identifier_row_sound sha i \<longleftrightarrow>
     validate_page_id (pi_identifier_text i) = Inr (pi_identifier_text i)
     \<and> page_id_registry_digest sha (pi_identifier_text i) = Inr (pi_identifier_digest i)"

definition page_counter_key :: "page \<Rightarrow> pystr \<times> pystr \<times> int \<times> pystr" where
  "page_counter_key p = (pg_library_id p, pg_id_scheme p, pg_id_timestamp_micros p, pg_base_slug p)"

definition canonical_count :: "content_db \<Rightarrow> page \<Rightarrow> nat" where
  "canonical_count db p =
     length (filter (\<lambda>i. (pi_library_id i, pi_page_uid i) = page_key p \<and> pi_identifier_text i = pg_page_id p
       \<and> pi_identifier_kind i = lit ''canonical'') (t_identifiers db))"

definition page_identity_sound :: "content_db \<Rightarrow> (page_key \<times> int) list \<Rightarrow> page \<Rightarrow> bool" where
  "page_identity_sound db initials p \<longleftrightarrow>
     (case page_id_timestamp_prefix (pg_id_timestamp_micros p) of
        Inl e \<Rightarrow> False
      | Inr prefix \<Rightarrow>
          let expected = prefix @ lit ''-'' @ pg_base_slug p
                @ (if pg_collision_ordinal p = 1 then []
                   else lit ''-'' @ int_text (pg_collision_ordinal p)) in
          validate_page_id expected = Inr expected \<and> pg_id_scheme p = PAGE_ID_SCHEME
          \<and> pg_page_id p = expected
          \<and> pg_id_timestamp_micros p
              = (case map_of initials (page_key p) of None \<Rightarrow> pg_occurred_at p | Some t \<Rightarrow> t) div 1000 * 1000
          \<and> canonical_count db p = 1)"

definition counter_row_sound :: "content_db \<Rightarrow> collision_counter \<Rightarrow> bool" where
  "counter_row_sound db c \<longleftrightarrow>
     (case sql_fold max (map pg_collision_ordinal
             (filter (\<lambda>p. page_counter_key p = counter_key c) (t_pages db))) of
        None \<Rightarrow> False
      | Some ordinal \<Rightarrow> ordinal < cc_next_ordinal c)"

definition require_identities ::
  "(bytes \<Rightarrow> bytes) \<Rightarrow> content_db \<Rightarrow> (page_key \<times> int) list \<Rightarrow> backup_error + unit" where
  "require_identities sha db initials =
     bindR (requireR (list_all (identifier_row_sound sha) (t_identifiers db)) BackupDatabaseError) (\<lambda>_.
     bindR (requireR (list_all (page_identity_sound db initials) (t_pages db)) BackupDatabaseError) (\<lambda>_.
     bindR (requireR (list_all (counter_row_sound db) (t_counters db)) BackupDatabaseError) (\<lambda>_.
     requireR (set (map page_counter_key (t_pages db)) = set (map counter_key (t_counters db)))
       BackupDatabaseError)))"

section \<open>The whole graph\<close>

definition require_page_graph ::
  "unicode_data \<Rightarrow> (bytes \<Rightarrow> bytes) \<Rightarrow> content_db \<Rightarrow> backup_error + unit" where
  "require_page_graph u sha db =
     bindR (requireR (length (t_append_guards db) = 0) BackupDatabaseError) (\<lambda>_.
     bindR (require_none (current_invalid db) (t_pages db)) (\<lambda>_.
     bindR (requireR (list_all (content_sound sha) (t_revisions db)) BackupDatabaseError) (\<lambda>_.
     bindR (require_none (\<lambda>s. \<not> revision_exists db (source_key s)) (t_sources db)) (\<lambda>_.
     bindR (require_none (\<lambda>r. \<not> list_ex (\<lambda>s. source_key s = rev_key r) (t_sources db)) (t_revisions db)) (\<lambda>_.
     bindR (require_manifested_revision_files u sha db) (\<lambda>_.
     bindR (require_revision_seals db) (\<lambda>_.
     bindR (require_occurrence_graph db) (\<lambda>initials.
     require_identities sha db initials))))))))"

lemma require_none_Inr [result_simps]: "require_none bad rows = Inr x \<longleftrightarrow> (\<forall>r \<in> set rows. \<not> bad r)"
  by (simp add: require_none_def requireR_Inr filter_empty_conv)

lemma require_each_Inr [result_simps]: "require_each check xs = Inr y \<longleftrightarrow> (\<forall>x \<in> set xs. check x = Inr ())"
  by (induction xs) (auto simp: bindR_Inr_iff)

end
