(* ===== verification/BackupHistory.thy ===== *)
theory BackupHistory
  imports BackupPages
begin

text \<open>
  A history that can be reconstructed passes the checks of the backup on the Revisions and on the
  occurrence corrections of its page: the two read the same rows in different ways.
\<close>

section \<open>The Revisions and the corrections among the operations\<close>

fun revision_op :: "operation \<Rightarrow> revision list" where
  "revision_op (OpRevision r) = [r]"
| "revision_op _ = []"

fun correction_op :: "operation \<Rightarrow> correction list" where
  "correction_op (OpCorrection c) = [c]"
| "correction_op _ = []"

definition op_revisions :: "operation list \<Rightarrow> revision list" where
  "op_revisions xs = concat (map revision_op xs)"

definition op_corrections :: "operation list \<Rightarrow> correction list" where
  "op_corrections xs = concat (map correction_op xs)"

lemma op_revisions_simps [simp]:
  "op_revisions [] = []" "op_revisions (x # xs) = revision_op x @ op_revisions xs"
  "op_revisions (xs @ ys) = op_revisions xs @ op_revisions ys"
  by (simp_all add: op_revisions_def)

lemma op_corrections_simps [simp]:
  "op_corrections [] = []" "op_corrections (x # xs) = correction_op x @ op_corrections xs"
  "op_corrections (xs @ ys) = op_corrections xs @ op_corrections ys"
  by (simp_all add: op_corrections_def)

lemma op_revisions_maps [simp]:
  "op_revisions (map OpRevision rs) = rs" "op_revisions (map OpCorrection cs) = []"
  "op_revisions (map OpLifecycle ls) = []" "op_revisions (map OpTitle ts) = []" "op_revisions (map OpMove ms) = []"
  by (induction rs, simp_all) (induction cs, simp_all, induction ls, simp_all, induction ts, simp_all, induction ms, simp_all)

lemma op_corrections_maps [simp]:
  "op_corrections (map OpRevision rs) = []" "op_corrections (map OpCorrection cs) = cs"
  "op_corrections (map OpLifecycle ls) = []" "op_corrections (map OpTitle ts) = []" "op_corrections (map OpMove ms) = []"
  by (induction rs, simp_all) (induction cs, simp_all, induction ls, simp_all, induction ts, simp_all, induction ms, simp_all)

lemma set_op_revisions: "r \<in> set (op_revisions xs) \<longleftrightarrow> OpRevision r \<in> set xs"
proof (induction xs)
  case (Cons x xs)
  then show ?case by (cases x) auto
qed simp

lemma mset_concat_map: "mset xs = mset ys \<Longrightarrow> mset (concat (map f xs)) = mset (concat (map f ys))"
proof -
  have e: "mset (concat (map f xs)) = \<Sum>\<^sub># (image_mset (\<lambda>x. mset (f x)) (mset xs))" for xs
    by (induction xs) simp_all
  show "mset xs = mset ys \<Longrightarrow> mset (concat (map f xs)) = mset (concat (map f ys))" by (simp add: e)
qed

section \<open>What a replay says of them\<close>

lemma replay_ConsE:
  assumes "replay db k i (s, q) (x # xs) = Inr (states, f, q')"
  obtains s1 q1 st where "apply_operation db k i (s, q) x = Inr (s1, q1)"
    "replay db k i (s1, q1) xs = Inr (st, f, q')" "states = s1 # st"
  using assms by (auto simp: result_simps)

lemma apply_operation_number:
  "apply_operation db k i (s, q) x = Inr (s1, q1)
    \<Longrightarrow> ps_revision_number s1 = ps_revision_number s + int (length (revision_op x))
      \<and> (\<forall>r \<in> set (revision_op x). rv_revision_number r = ps_revision_number s + 1)"
  by (cases x) (auto simp: Let_def split: if_splits)

lemma replay_numbers:
  assumes "replay db k i (s, q) xs = Inr (states, f, q')"
  shows "ps_revision_number s \<le> ps_revision_number f
    \<and> map rv_revision_number (op_revisions xs) = [ps_revision_number s + 1 .. ps_revision_number f]"
  using assms
proof (induction xs arbitrary: s q states)
  case Nil
  then show ?case by simp
next
  case (Cons x xs)
  obtain s1 q1 st where a: "apply_operation db k i (s, q) x = Inr (s1, q1)"
    and r: "replay db k i (s1, q1) xs = Inr (st, f, q')" using Cons.prems by (rule replay_ConsE)
  note n = apply_operation_number [OF a] and ih = Cons.IH [OF r]
  show ?case
  proof (cases "revision_op x")
    case Nil
    then show ?thesis using n ih by simp
  next
    case (Cons y ys)
    then have "x = OpRevision y" "ys = []" by (cases x; simp)+
    then show ?thesis using n ih upto_rec1 [of "ps_revision_number s + 1" "ps_revision_number f"] by simp
  qed
qed

lemma replay_current:
  assumes "replay db k i (s, q) xs = Inr (states, f, q')"
  shows "(ps_revision_id f, ps_revision_number f) \<in> insert (ps_revision_id s, ps_revision_number s)
    ((\<lambda>r. (rv_revision_id r, rv_revision_number r)) ` set (op_revisions xs))"
  using assms
proof (induction xs arbitrary: s q states)
  case Nil
  then show ?case by simp
next
  case (Cons x xs)
  obtain s1 q1 st where a: "apply_operation db k i (s, q) x = Inr (s1, q1)"
    and r: "replay db k i (s1, q1) xs = Inr (st, f, q')" using Cons.prems by (rule replay_ConsE)
  have "(ps_revision_id s1, ps_revision_number s1) \<in> insert (ps_revision_id s, ps_revision_number s)
      ((\<lambda>r. (rv_revision_id r, rv_revision_number r)) ` set (revision_op x))"
    using a by (cases x) (auto simp: Let_def split: if_splits)
  then show ?case using Cons.IH [OF r] by auto
qed

lemma replay_correction_sequences:
  assumes "replay db k i (s, q) xs = Inr (states, f, q')"
  shows "sq_correction q \<le> sq_correction q'
    \<and> map (\<lambda>c. cg_sequence (co_guard c)) (op_corrections xs) = [sq_correction q + 1 .. sq_correction q']"
  using assms
proof (induction xs arbitrary: s q states)
  case Nil
  then show ?case by simp
next
  case (Cons x xs)
  obtain s1 q1 st where a: "apply_operation db k i (s, q) x = Inr (s1, q1)"
    and r: "replay db k i (s1, q1) xs = Inr (st, f, q')" using Cons.prems by (rule replay_ConsE)
  note ih = Cons.IH [OF r]
  show ?case
  proof (cases x)
    case (OpCorrection c)
    then have "sq_correction q1 = sq_correction q + 1" "cg_sequence (co_guard c) = sq_correction q + 1"
      using a by (auto simp: Let_def event_in_order_def split: if_splits)
    then show ?thesis using OpCorrection ih upto_rec1 [of "sq_correction q + 1" "sq_correction q'"] by simp
  qed (use a ih in \<open>auto split: if_splits\<close>)
qed

lemma replay_later_revision:
  assumes r: "replay db k i (s, q) xs = Inr (states, f, q')" and n: "ps_revision_number s < ps_revision_number f"
  obtains x where "x \<in> set (op_revisions xs)" "rv_revision_number x = ps_revision_number s + 1"
    "ps_updated_at s < rv_created_at x"
proof -
  have "ps_revision_number s + 1 \<in> set (map rv_revision_number (op_revisions xs))"
    using replay_numbers [OF r] n by simp
  then obtain x where x: "x \<in> set (op_revisions xs)" "rv_revision_number x = ps_revision_number s + 1" by auto
  have "ps_updated_at s < op_time (OpRevision x)"
    using replay_times(2) [OF r] x(1) unfolding set_op_revisions by blast
  then show thesis using that x by simp
qed

lemma replay_chain:
  assumes "replay db k i (s, q) xs = Inr (states, f, q')"
    and "created (ps_revision_number s) = Some t" "t \<le> ps_updated_at s"
    and "\<forall>r \<in> set (op_revisions xs). created (rv_revision_number r) = Some (rv_created_at r)"
    and "pg_current_revision_number p = ps_revision_number f" "pg_updated_at p = ps_updated_at f"
    and "pg_created_at p \<le> ps_updated_at s"
    and "prior_revision \<le> ps_revision_number s" "prior_time \<le> ps_updated_at s"
  shows "check_chain created p (sq_correction q + 1) (ps_occurred_at s) prior_revision prior_time
      (op_corrections xs) = Inr (ps_occurred_at f)"
  using assms
proof (induction xs arbitrary: s q states t prior_revision prior_time)
  case Nil
  then show ?case by simp
next
  case (Cons x xs)
  obtain s1 q1 st where a: "apply_operation db k i (s, q) x = Inr (s1, q1)"
    and r: "replay db k i (s1, q1) xs = Inr (st, f, q')" using Cons.prems(1) by (rule replay_ConsE)
  have t: "ps_updated_at s < op_time x" "ps_updated_at s1 = op_time x" using apply_operation_time [OF a] by simp_all
  have created: "\<forall>r \<in> set (op_revisions xs). created (rv_revision_number r) = Some (rv_created_at r)"
    using Cons.prems(4) by simp
  note ih = Cons.IH [OF r _ _ created Cons.prems(5,6)]
  show ?case
  proof (cases x)
    case (OpRevision y)
    then have "ps_revision_number s1 = rv_revision_number y" "rv_revision_number y = ps_revision_number s + 1"
      "ps_occurred_at s1 = ps_occurred_at s" "q1 = q" "created (rv_revision_number y) = Some (rv_created_at y)"
      using a Cons.prems(4) by (auto split: if_splits)
    then show ?thesis using ih [of "rv_created_at y" prior_revision prior_time] OpRevision t Cons.prems(7-9) by simp
  next
    case (OpCorrection c)
    let ?g = "co_guard c"
    have c: "cg_sequence ?g = sq_correction q + 1" "co_at_revision_number c = ps_revision_number s"
      "cg_old_occurred_at ?g = ps_occurred_at s" "cg_new_occurred_at ?g \<noteq> ps_occurred_at s"
      "ps_occurred_at s1 = cg_new_occurred_at ?g" "sq_correction q1 = sq_correction q + 1"
      "ps_revision_number s1 = ps_revision_number s"
      using a OpCorrection by (auto simp: Let_def event_in_order_def split: if_splits)
    have ct: "ps_updated_at s < cg_corrected_at ?g" "ps_updated_at s1 = cg_corrected_at ?g"
      using t OpCorrection by simp_all
    have le: "ps_revision_number s \<le> ps_revision_number f" using replay_numbers [OF r] c(7) by simp
    have last: "cg_corrected_at ?g \<le> pg_updated_at p" using replay_times(3) [OF r] ct Cons.prems(6) by simp
    have later: "case created (ps_revision_number s + 1) of None \<Rightarrow> False | Some t \<Rightarrow> cg_corrected_at ?g < t"
      if lt: "ps_revision_number s < ps_revision_number f"
    proof -
      obtain y where "y \<in> set (op_revisions xs)" "rv_revision_number y = ps_revision_number s1 + 1"
        "ps_updated_at s1 < rv_created_at y" by (rule replay_later_revision [OF r]) (use lt c(7) in simp)
      then show ?thesis using created c(7) ct(2) by fastforce
    qed
    have "correction_in_chain created p (sq_correction q + 1) (ps_occurred_at s) prior_revision prior_time c"
      unfolding correction_in_chain_def Let_def
      using c ct le last later Cons.prems(2,3,5,7-9) by simp
    then show ?thesis
      using ih [of t "ps_revision_number s" "cg_corrected_at ?g"] OpCorrection c ct Cons.prems(2,3,7) by simp
  qed (use a t ih [of t prior_revision prior_time] Cons.prems in \<open>auto split: if_splits\<close>)
qed

section \<open>The history of a page\<close>

lemma historyE:
  assumes "history db schema k p tr"
  obtains states q where "replay db k (pg_page_id p) (first_state db schema k p, no_sequences)
      (sort_key op_time (page_ops db schema k)) = Inr (states, state_of_page p, q)"
    "tr = first_state db schema k p # states"
  using assms by (auto simp: history_def)

lemma op_revisions_of:
  "mset (op_revisions (sort_key op_time (page_ops db schema k))) = mset (tl (revisions_of db k))"
proof -
  have "mset (op_revisions (sort_key op_time (page_ops db schema k))) = mset (op_revisions (page_ops db schema k))"
    unfolding op_revisions_def by (rule mset_concat_map) simp
  then show ?thesis by (simp add: page_ops_def operations_of_def)
qed

lemma op_corrections_of:
  assumes "history db schema k p tr"
  shows "op_corrections (sort_key op_time (page_ops db schema k)) = corrections_of db k"
proof -
  let ?xs = "sort_key op_time (page_ops db schema k)" and ?seq = "\<lambda>c. cg_sequence (co_guard c)"
  obtain states q where r: "replay db k (pg_page_id p) (first_state db schema k p, no_sequences) ?xs
      = Inr (states, state_of_page p, q)" using assms by (rule historyE)
  have m: "mset (op_corrections ?xs) = mset (op_corrections (page_ops db schema k))"
    unfolding op_corrections_def by (rule mset_concat_map) simp
  have s: "map ?seq (op_corrections ?xs) = [sq_correction no_sequences + 1 .. sq_correction q]"
    using replay_correction_sequences [OF r] by simp
  have "distinct (map ?seq (op_corrections ?xs))" unfolding s by simp
  then have i: "inj_on ?seq (set (op_corrections ?xs))" by (simp add: distinct_map)
  have "sort_key ?seq (filter (\<lambda>c. co_key c = k) (t_corrections db)) = op_corrections ?xs"
  proof (rule sort_key_inj_key_eq)
    show e: "mset (filter (\<lambda>c. co_key c = k) (t_corrections db)) = mset (op_corrections ?xs)"
      unfolding m by (simp add: page_ops_def operations_of_def corrections_of_def)
    show "inj_on ?seq (set (filter (\<lambda>c. co_key c = k) (t_corrections db)))"
      using i mset_eq_setD [OF e] by simp
    show "sorted (map ?seq (op_corrections ?xs))" unfolding s by simp
  qed
  then show ?thesis by (simp add: corrections_of_def)
qed

lemma history_page_numbers:
  assumes h: "history db schema k p tr"
  shows "mset (page_numbers db k) = mset [1 .. pg_current_revision_number p]"
    and "1 \<le> pg_current_revision_number p"
proof -
  obtain states q where r: "replay db k (pg_page_id p) (first_state db schema k p, no_sequences)
      (sort_key op_time (page_ops db schema k)) = Inr (states, state_of_page p, q)" using h by (rule historyE)
  obtain first rest where f: "revisions_of db k = first # rest" "rv_revision_number first = 1"
    using h by (auto simp: history_def neq_Nil_conv)
  have n: "1 \<le> pg_current_revision_number p"
    and m: "map rv_revision_number (op_revisions (sort_key op_time (page_ops db schema k)))
      = [2 .. pg_current_revision_number p]"
    using replay_numbers [OF r] by (simp_all add: first_state_def initial_state_def state_of_page_def)
  have "mset (page_numbers db k) = image_mset rv_revision_number (mset (revisions_of db k))"
    by (simp add: page_numbers_def revisions_of_def)
  also have "\<dots> = {#1#} + image_mset rv_revision_number (mset rest)" by (simp add: f)
  also have "mset rest = mset (op_revisions (sort_key op_time (page_ops db schema k)))"
    by (simp add: op_revisions_of f)
  also have "{#1#} + image_mset rv_revision_number (mset (op_revisions (sort_key op_time (page_ops db schema k))))
      = mset (1 # [2 .. pg_current_revision_number p])"
    by (simp flip: m)
  finally show "mset (page_numbers db k) = mset [1 .. pg_current_revision_number p]"
    using upto_rec1 [of 1 "pg_current_revision_number p"] n by simp
  show "1 \<le> pg_current_revision_number p" by (rule n)
qed

lemma sql_fold_eq:
  "xs \<noteq> [] \<Longrightarrow> sql_fold min xs = Some (Min (set xs))" "xs \<noteq> [] \<Longrightarrow> sql_fold max xs = Some (Max (set xs))"
proof -
  have "foldr min ys (x :: int) = Min (set (x # ys))" for x ys
    by (induction ys) (auto simp: insert_commute)
  moreover have "foldr max ys (x :: int) = Max (set (x # ys))" for x ys
    by (induction ys) (auto simp: insert_commute)
  ultimately show "xs \<noteq> [] \<Longrightarrow> sql_fold min xs = Some (Min (set xs))"
    "xs \<noteq> [] \<Longrightarrow> sql_fold max xs = Some (Max (set xs))" by (cases xs; simp)+
qed

lemma history_current:
  assumes h: "history db schema (page_key p) p tr"
  shows "\<not> current_invalid db p"
proof -
  let ?n = "pg_current_revision_number p" and ?k = "page_key p"
  note m = history_page_numbers [OF h]
  have s: "set (page_numbers db ?k) = {1 .. ?n}" "length (page_numbers db ?k) = nat ?n"
    using mset_eq_setD [OF m(1)] mset_eq_length [OF m(1)] m(2) by simp_all
  have ne: "page_numbers db ?k \<noteq> []" using s(2) m(2) by force
  have mm: "Min {1 .. ?n} = 1" "Max {1 .. ?n} = ?n" using m(2) by (auto intro: Min_eqI Max_eqI)
  obtain states q where r: "replay db ?k (pg_page_id p) (first_state db schema ?k p, no_sequences)
      (sort_key op_time (page_ops db schema ?k)) = Inr (states, state_of_page p, q)" using h by (rule historyE)
  obtain first rest where f: "revisions_of db ?k = first # rest" "rv_revision_number first = 1"
    using h by (auto simp: history_def neq_Nil_conv)
  have "set (op_revisions (sort_key op_time (page_ops db schema ?k))) = set rest"
    using mset_eq_setD [OF op_revisions_of [of db schema ?k]] f by simp
  then have "(pg_current_revision_id p, ?n) \<in> (\<lambda>r. (rv_revision_id r, rv_revision_number r)) ` set (revisions_of db ?k)"
    using replay_current [OF r] f by (auto simp: first_state_def initial_state_def state_of_page_def)
  then have "revision_exists db (current_key p)"
    by (auto simp: revision_exists_def list_ex_iff revisions_of_def rev_page_key_def page_key_def rev_key_def
        current_key_def)
  then show ?thesis using s ne mm m(2) by (simp add: current_invalid_def sql_fold_eq sql_differs_def Let_def)
qed

lemma revision_created_of:
  assumes d: "distinct (page_numbers db k)" and r: "r \<in> set (t_revisions db)" "rev_page_key r = k"
  shows "revision_created db k (rv_revision_number r) = Some (rv_created_at r)"
proof -
  let ?P = "\<lambda>x. rev_page_key x = k \<and> rv_revision_number x = rv_revision_number r"
  have "find ?P (rev (t_revisions db)) \<noteq> None" using r by (auto simp: find_None_iff)
  then obtain y where y: "find ?P (rev (t_revisions db)) = Some y" by blast
  then have "y \<in> set (t_revisions db)" "?P y" using find_SomeD [OF y] by simp_all
  then have "y = r" using d r by (auto simp: page_numbers_def distinct_map inj_on_def)
  then show ?thesis using y by (simp add: revision_created_def)
qed

lemma first_state_occurred: "ps_occurred_at (first_state db schema (page_key p) p) = initial_occurrence db p"
  by (simp add: first_state_def initial_state_def initial_occurrence_def)

lemma history_chain:
  assumes h: "history db schema (page_key p) p tr" and c: "0 \<le> pg_created_at p"
  shows "check_page_chain db p = Inr ()" and "initial_occurrence db p = ps_occurred_at (hd tr)"
proof -
  let ?k = "page_key p" and ?xs = "sort_key op_time (page_ops db schema (page_key p))"
  obtain states q where r: "replay db ?k (pg_page_id p) (first_state db schema ?k p, no_sequences) ?xs
      = Inr (states, state_of_page p, q)" and tr: "tr = first_state db schema ?k p # states" using h by (rule historyE)
  show "initial_occurrence db p = ps_occurred_at (hd tr)" by (simp add: tr first_state_occurred)
  have "distinct (page_numbers db ?k)"
    using mset_eq_imp_distinct_iff [OF history_page_numbers(1) [OF h]] by simp
  note created = revision_created_of [OF this]
  have rm: "x \<in> set (t_revisions db) \<and> rev_page_key x = ?k" if "x \<in> set (revisions_of db ?k)" for x
    using that by (simp add: revisions_of_def)
  obtain first rest where f: "revisions_of db ?k = first # rest" "rv_revision_number first = 1"
      "rv_created_at first = pg_created_at p"
    using h by (auto simp: history_def neq_Nil_conv)
  have "set (op_revisions ?xs) = set rest"
    using mset_eq_setD [OF op_revisions_of [of db schema ?k]] f by simp
  then have rs: "\<forall>x \<in> set (op_revisions ?xs). revision_created db ?k (rv_revision_number x) = Some (rv_created_at x)"
    using created rm f by simp
  have f1: "revision_created db ?k 1 = Some (pg_created_at p)" using created [of first] rm [of first] f by simp
  have s0: "ps_revision_number (first_state db schema ?k p) = 1"
      "ps_updated_at (first_state db schema ?k p) = pg_created_at p"
    by (simp_all add: first_state_def initial_state_def)
  have "check_chain (revision_created db ?k) p (sq_correction no_sequences + 1)
      (ps_occurred_at (first_state db schema ?k p)) 1 (- 1) (op_corrections ?xs) = Inr (ps_occurred_at (state_of_page p))"
    by (rule replay_chain [OF r, where t = "pg_created_at p"]) (use f1 s0 rs c in \<open>simp_all add: state_of_page_def\<close>)
  then show "check_page_chain db p = Inr ()"
    by (simp add: check_page_chain_def op_corrections_of [OF h] first_state_occurred no_sequences_def
        state_of_page_def requireR_def)
qed

end
