(* ===== verification/BackupStore.thy ===== *)
theory BackupStore
  imports BackupHistory
begin

text \<open>
  What the content transactions keep of the rows that the backup checks: the typed columns and the
  identifier of every page, and the origin of every occurrence correction.
\<close>

section \<open>The identifier of a page\<close>

definition page_components_sound :: "page \<Rightarrow> bool" where
  "page_components_sound p \<longleftrightarrow>
     (case page_id_timestamp_prefix (pg_id_timestamp_micros p) of
        Inl e \<Rightarrow> False
      | Inr prefix \<Rightarrow>
          validate_page_id (pg_page_id p) = Inr (pg_page_id p) \<and> pg_id_scheme p = PAGE_ID_SCHEME
          \<and> pg_page_id p = prefix @ lit ''-'' @ pg_base_slug p
              @ (if pg_collision_ordinal p = 1 then [] else lit ''-'' @ int_text (pg_collision_ordinal p)))"

lemma prefix_of_millisecond:
  "utc_in_range (u div 1000 * 1000) \<Longrightarrow> page_id_timestamp_prefix u = Inr prefix
    \<Longrightarrow> page_id_timestamp_prefix (u div 1000 * 1000) = Inr prefix"
  by (simp add: page_id_timestamp_prefix_def Let_def split: if_splits)

lemma new_page_components:
  assumes "new_page_valid sha p"
  shows "page_components_sound p" and "pg_id_timestamp_micros p = pg_occurred_at p div 1000 * 1000"
proof -
  show ts: "pg_id_timestamp_micros p = pg_occurred_at p div 1000 * 1000"
    using assms by (simp add: new_page_valid_def)
  obtain g where g: "generate_page_id sha \<lparr>utc_microseconds = pg_occurred_at p,
        canonical_utc = format_utc_microseconds (pg_occurred_at p)\<rparr> (pg_title p) (pg_collision_ordinal p) = Inr g"
    and e: "pg_page_id p = gp_value g" "pg_base_slug p = gp_base_slug g"
    using assms by (auto simp: new_page_valid_def split: sum.splits)
  obtain prefix where x: "page_id_timestamp_prefix (pg_occurred_at p) = Inr prefix"
    and v: "gp_value g = prefix @ lit ''-'' @ gp_base_slug g
        @ (if pg_collision_ordinal p = 1 then [] else lit ''-'' @ dec_str (nat (pg_collision_ordinal p)))"
    using g by (auto simp: generate_page_id_def validate_collision_ordinal_def Let_def result_simps split: if_splits)
  have s: "page_storage_valid p" using assms by (simp add: new_page_valid_def)
  then have "utc_in_range (pg_occurred_at p div 1000 * 1000)" "1 \<le> pg_collision_ordinal p"
    using ts by (simp_all add: page_storage_valid_def)
  then show "page_components_sound p"
    using prefix_of_millisecond [OF _ x] ts s v e
    by (simp add: page_components_sound_def page_storage_valid_def int_text_def)
qed

lemma stable_components:
  "stable_identity old new \<Longrightarrow> page_components_sound old \<Longrightarrow> page_components_sound new"
  unfolding stable_identity_def by (elim conjE) (simp only: page_components_sound_def)

section \<open>The statements\<close>

lemma update_pages_new_rows:
  assumes "update_pages c f db = Inr (db', n)" and "p \<in> set (t_pages db')"
  shows "p \<in> set (t_pages db) \<or> page_check p \<and> (\<exists>old \<in> set (t_pages db). stable_identity old p)"
proof (cases "find c (t_pages db)")
  case None
  then show ?thesis using assms by (simp add: update_pages_def)
next
  case (Some old)
  then have o: "old \<in> set (t_pages db)" using find_SomeD by fast
  have b: "before_page_update db old (f old)" "page_check (f old)" and pg: "t_pages db' = t_pages (set_page (f old) db)"
    using assms(1) Some record_pages
    by (auto simp: update_pages_def Let_def result_simps clear_append_guard_def split: if_splits)
  have "p = f old \<or> p \<in> set (t_pages db)" using assms(2) by (auto simp: pg set_page_def split: if_splits)
  then show ?thesis using b o by (auto simp: before_page_update_def)
qed

lemma record_other:
  "record_lifecycle old new db = Inr db' \<Longrightarrow> t_corrections db' = t_corrections db \<and> t_master_audits db' = t_master_audits db"
  "record_title old new db = Inr db' \<Longrightarrow> t_corrections db' = t_corrections db \<and> t_master_audits db' = t_master_audits db"
  "record_move old new db = Inr db' \<Longrightarrow> t_corrections db' = t_corrections db \<and> t_master_audits db' = t_master_audits db"
  by (auto simp: record_lifecycle_def record_title_def record_move_def Let_def
      split: if_splits option.splits list.splits)

text \<open>An update that leaves the declared times alone writes no correction.\<close>

definition corrections_same :: "content_db \<Rightarrow> content_db \<Rightarrow> bool" where
  "corrections_same db db' \<longleftrightarrow> t_corrections db' = t_corrections db \<and> t_master_audits db' = t_master_audits db"

lemma corrections_same_trans: "corrections_same a b \<Longrightarrow> corrections_same b c \<Longrightarrow> corrections_same a c"
  by (simp add: corrections_same_def)

lemma update_pages_corrections:
  assumes "update_pages c f db = Inr (db', n)" and "\<And>q. pg_occurred_at (f q) = pg_occurred_at q"
  shows "corrections_same db db'"
proof (cases "find c (t_pages db)")
  case None
  then show ?thesis using assms by (simp add: update_pages_def corrections_same_def)
next
  case (Some old)
  obtain d1 d2 d3 where d: "record_lifecycle old (f old) d1 = Inr d2" "record_title old (f old) d2 = Inr d3"
      "record_move old (f old) d3 = Inr db'"
    and d1: "record_occurrence old (f old) (clear_append_guard old (f old) (set_page (f old) db)) = Inr d1"
    using assms(1) Some by (auto simp: update_pages_def Let_def result_simps split: if_splits)
  have "corrections_same db d1" using d1 assms(2) [of old]
    by (auto simp: corrections_same_def clear_append_guard_def)
  then show ?thesis using record_other(1) [OF d(1)] record_other(2) [OF d(2)] record_other(3) [OF d(3)]
    by (simp add: corrections_same_def)
qed

lemma file_tables_corrections: "file_tables_only db db' \<Longrightarrow> corrections_same db db'"
  using file_tables_only_tables by (simp add: corrections_same_def)

lemma insert_revision_corrections: "insert_revision r db = Inr db' \<Longrightarrow> corrections_same db db'"
  using file_tables_only_tables [OF insert_revision_Inr(1)] by (simp add: corrections_same_def)

definition correction_written :: "content_db \<Rightarrow> content_db \<Rightarrow> bool" where
  "correction_written db db' \<longleftrightarrow> t_master_audits db' = t_master_audits db
     \<and> (\<exists>g n d. t_corrections db' = t_corrections db @ [\<lparr>co_guard = g, co_at_revision_number = n\<rparr>]
        \<and> insert_correction_guard g db = Inr d)"

lemma page_transaction_corrections:
  assumes "page_transaction p db db'"
  shows "corrections_same db db' \<or> correction_written db db'"
  using assms
proof cases
  case (append r db1 at p')
  have "corrections_same db db1" using append(3) insert_revision_corrections by (simp add: add_revision_def)
  moreover have "corrections_same db1 db'"
    using append(4) by (auto simp: advance_current_revision_def Let_def result_simps split: if_splits
        intro: update_pages_corrections)
  ultimately show ?thesis using corrections_same_trans by blast
next
  case (append_files at rid m db1 p')
  obtain d1 d2 d3 r fs set k where i: "insert_revision r db = Inr d1" and s: "insert_file_set set d1 = Inr d2"
    and f: "insert_files fs d2 = Inr d3" and l: "insert_seal k d3 = Inr db1"
    using append_files(2) by (auto simp: add_file_set_revision_def Let_def result_simps)
  have "corrections_same db db1"
    using corrections_same_trans [OF insert_revision_corrections [OF i] file_tables_corrections
        [OF file_tables_only_trans [OF insert_file_set_tables [OF s] file_tables_only_trans
          [OF insert_files_tables [OF f] insert_seal_tables [OF l]]]]] .
  moreover have "corrections_same db1 db'"
    using append_files(3) by (auto simp: advance_file_set_current_revision_def Let_def result_simps split: if_splits
        intro: update_pages_corrections)
  ultimately show ?thesis using corrections_same_trans by blast
next
  case (correct c p' row)
  then obtain g where w: "write_correction p g db = Inr (db', p', row)" and gk: "cg_key g = page_key p"
    and go: "cg_old_occurred_at g = pg_occurred_at p" and gt: "pg_updated_at p < cg_corrected_at g"
    by (auto simp: correct_occurrence_row_def Let_def cg_key_def split: if_splits)
  obtain d where "insert_correction_guard g db = Inr d"
    using w by (auto simp: write_correction_def result_simps)
  moreover obtain n where "t_corrections db' = t_corrections db @ [\<lparr>co_guard = g, co_at_revision_number = n\<rparr>]"
    "t_master_audits db' = t_master_audits db"
    by (rule write_correction_Inr [OF w gk go gt]) simp
  ultimately show ?thesis unfolding correction_written_def by blast
next
  case (lifecycle action caller home master req at p' event)
  then obtain g where "write_lifecycle p g db = Inr (db', p', event)"
    by (auto simp: transition_page_lifecycle_row_def Let_def split: if_splits)
  then obtain db1 c f where g: "insert_lifecycle_guard g db = Inr db1"
    and u: "update_pages c f db1 = Inr (db', 1)" and f: "\<And>q. pg_occurred_at (f q) = pg_occurred_at q"
    by (fastforce simp: write_lifecycle_def Let_def result_simps split: if_splits option.splits)
  have "corrections_same db db1" using g by (auto simp: insert_lifecycle_guard_def corrections_same_def split: if_splits)
  then show ?thesis using update_pages_corrections [OF u f] corrections_same_trans by blast
next
  case (retitle title at p')
  then show ?thesis
    by (auto simp: update_page_title_def result_simps split: if_splits intro: update_pages_corrections)
next
  case (move plan master caller)
  then obtain g where "write_move p g db = Inr db'"
    by (auto simp: apply_page_move_def Let_def split: if_splits option.splits)
  then obtain db1 c f where g: "insert_move_guard g db = Inr db1"
    and u: "update_pages c f db1 = Inr (db', 1)" and f: "\<And>q. pg_occurred_at (f q) = pg_occurred_at q"
    by (fastforce simp: write_move_def Let_def result_simps split: if_splits)
  have "corrections_same db db1" using g by (auto simp: insert_move_guard_def corrections_same_def split: if_splits)
  then show ?thesis using update_pages_corrections [OF u f] corrections_same_trans by blast
qed

section \<open>The rows of a reachable store\<close>

definition page_row_sound :: "traces \<Rightarrow> page \<Rightarrow> bool" where
  "page_row_sound tr p \<longleftrightarrow>
     page_check p \<and> page_components_sound p
     \<and> pg_id_timestamp_micros p = ps_occurred_at (hd (tr (page_key p))) div 1000 * 1000"

definition rows_sound :: "content_db \<Rightarrow> traces \<Rightarrow> bool" where
  "rows_sound db tr \<longleftrightarrow>
     (\<forall>p \<in> set (t_pages db). page_row_sound tr p) \<and> (\<forall>c \<in> set (t_corrections db). correction_row_sound db c)"

lemma correction_row_kept:
  assumes "correction_row_sound db c" and "page_exists db (co_key c) \<Longrightarrow> page_exists db' (co_key c)"
    and "t_master_audits db' = t_master_audits db @ ms"
  shows "correction_row_sound db' c"
  using assms by (auto simp: correction_row_sound_def co_key_def Let_def find_append_Some split: option.splits)

lemma guard_correction_sound:
  assumes g: "insert_correction_guard g db = Inr d" and k: "distinct (map ma_id (t_master_audits db))"
  shows "correction_row_sound db \<lparr>co_guard = g, co_at_revision_number = n\<rparr>"
proof -
  have e: "page_exists db (cg_key g)" and c: "correction_guard_check g"
    and m: "cg_master_audit_event_id g \<noteq> None \<Longrightarrow> master_audit_matches db (cg_master_audit_event_id g)
                  (lit ''content.page.occurrence.correct'') (cg_key g) (cg_corrected_at g)"
    using g by (auto simp: insert_correction_guard_def master_correction_audited_def page_exists_def list_ex_iff split: if_splits)
  show ?thesis
  proof (cases "cg_master_audit_event_id g")
    case None
    then show ?thesis using e c by (auto simp: correction_row_sound_def correction_guard_check_def actor_kind_check_def)
  next
    case (Some i)
    then obtain a where a: "a \<in> set (t_master_audits db)" "ma_id a = i"
      "ma_action a = lit ''content.page.occurrence.correct''" "ma_target_type a = lit ''page''"
      "ma_target_id a = page_target (cg_key g)" "ma_occurred_at a = cg_corrected_at g"
      using m by (auto simp: master_audit_matches_def list_ex_iff)
    have "find (\<lambda>a. ma_id a = i) (t_master_audits db) = Some a"
      using find_unique_key [OF k a(1)] a(2) by simp
    then show ?thesis using Some e c a
      by (auto simp: correction_row_sound_def correction_guard_check_def actor_kind_check_def)
  qed
qed

lemma side_statement_audits: "side_statement db db' \<Longrightarrow> \<exists>ms. t_master_audits db' = t_master_audits db @ ms"
proof (induction rule: side_statement.induct)
  case (file_set s db db')
  then show ?case using file_tables_only_tables(13) [OF insert_file_set_tables] by fastforce
next
  case (stored_file f db db')
  then show ?case using file_tables_only_tables(13) [OF insert_file_tables] by fastforce
next
  case (seal k db db')
  then show ?case using file_tables_only_tables(13) [OF insert_seal_tables] by fastforce
qed (auto simp: add_book_def add_identifier_def insert_identifier_def add_source_row_def insert_source_def
    add_collision_counter_def insert_counter_def advance_collision_counter_def update_counter_def insert_audit_def
    insert_master_audit_def Let_def result_simps split: if_splits)

lemma create_rows_tables:
  assumes "create_rows sha p r i db = Inr db'"
  shows "t_pages db' = t_pages db @ [p]" "corrections_same db db'" "new_page_valid sha p" "page_check p"
proof -
  obtain d1 d2 where d: "insert_page p db = Inr d1" "insert_revision r d1 = Inr d2" "insert_identifier i d2 = Inr db'"
    and v: "new_page_valid sha p"
    using assms by (auto simp: create_rows_def add_page_def add_revision_def add_identifier_def result_simps
        split: if_splits)
  show "new_page_valid sha p" by (rule v)
  show "page_check p" using d(1) by (auto simp: insert_page_def Let_def split: if_splits)
  show "t_pages db' = t_pages db @ [p]" using d insert_revision_pages [OF d(2)]
    by (auto simp: insert_page_def insert_identifier_def Let_def split: if_splits)
  show "corrections_same db db'" using d insert_revision_corrections [OF d(2)]
    by (auto simp: corrections_same_def insert_page_def insert_identifier_def Let_def split: if_splits)
qed

lemma store_step_rows:
  assumes s: "store_step sha (db, tr) (db', tr')" and ok: "store_ok db schema tr" and r: "rows_sound db tr"
    and sch: "schema \<in> set CALLER_MOVE_REVISIONS"
  shows "rows_sound db' tr'"
  using s
proof cases
  case side
  obtain ms where m: "t_master_audits db' = t_master_audits db @ ms" using side_statement_audits [OF side(2)] by blast
  have t: "t_pages db' = t_pages db" "t_corrections db' = t_corrections db"
    using side_statement_neutral [OF side(2) ok] by (simp_all add: history_neutral_def)
  have "correction_row_sound db' c" if "c \<in> set (t_corrections db)" for c
    by (rule correction_row_kept [OF _ _ m]) (use r that t in \<open>auto simp: rows_sound_def page_exists_def\<close>)
  then show ?thesis using r t side(1) by (simp add: rows_sound_def)
next
  case (create p v i)
  note t = create_rows_tables [OF create(2)]
  have fresh: "\<not> page_exists db (page_key p)" by (rule create_step(1) [OF ok create(2-5)])
  have "page_row_sound tr' p"
    using t(4) new_page_components [OF t(3)] by (simp add: page_row_sound_def create(1) state_of_page_def)
  moreover have "page_row_sound tr' q" if "q \<in> set (t_pages db)" for q
    using that r fresh by (auto simp: page_row_sound_def rows_sound_def create(1) dest: page_exists_in)
  moreover have "correction_row_sound db' c" if "c \<in> set (t_corrections db)" for c
    by (rule correction_row_kept [where ms = "[]"])
      (use r that t in \<open>auto simp: rows_sound_def page_exists_def corrections_same_def\<close>)
  ultimately show ?thesis using t by (simp add: rows_sound_def corrections_same_def)
next
  case (change p new)
  obtain c f db1 where d1: "t_pages db1 = t_pages db" and u: "update_pages c f db1 = Inr (db', 1)"
    using page_transaction_update [OF change(2)] by blast
  have hd: "hd (tr' (page_key q)) = hd (tr (page_key q))" if "q \<in> set (t_pages db)" for q
    using store_trace_last(1) [OF ok that] by (cases "page_key q = page_key p") (simp_all add: change(1))
  have pages: "page_row_sound tr' q" if q: "q \<in> set (t_pages db')" for q
  proof -
    consider "q \<in> set (t_pages db)" | old where "page_check q" "old \<in> set (t_pages db)" "stable_identity old q"
      using update_pages_new_rows [OF u q] d1 by auto
    then show ?thesis
    proof cases
      case 1
      then show ?thesis using r hd by (simp add: rows_sound_def page_row_sound_def)
    next
      case 2
      then have "page_row_sound tr old" using r by (simp add: rows_sound_def)
      then show ?thesis using 2 hd [OF 2(2)] stable_components [OF 2(3)]
        by (simp add: page_row_sound_def stable_identity_def)
    qed
  qed
  have ex: "page_exists db k \<Longrightarrow> page_exists db' k" for k
    using store_step_advance [OF s ok] by (fastforce simp: page_exists_def list_ex_iff pages_advance_def)
  have kept: "t_master_audits db' = t_master_audits db \<Longrightarrow> correction_row_sound db x \<Longrightarrow> correction_row_sound db' x" for x
    by (rule correction_row_kept [where ms = "[]", OF _ ex]) simp_all
  have "distinct (map ma_id (t_master_audits db))" using ok by (simp add: store_ok_def keys_distinct_def)
  then have "\<forall>x \<in> set (t_corrections db'). correction_row_sound db' x"
    using page_transaction_corrections [OF change(2)] r kept guard_correction_sound
    by (fastforce simp: corrections_same_def correction_written_def rows_sound_def)
  then show ?thesis using pages by (simp add: rows_sound_def)
qed

lemma reachable_rows_sound:
  assumes "reachable sha db tr"
  shows "rows_sound db tr"
proof -
  have sch: "lit ''20261020_0037'' \<in> set CALLER_MOVE_REVISIONS" by (simp add: CALLER_MOVE_REVISIONS_def)
  have "store_ok db (lit ''20261020_0037'') tr \<and> rows_sound db tr"
    using assms unfolding reachable_def
  proof (induction rule: store_steps_induct)
    case refl
    show ?case using empty_store_ok by (simp add: rows_sound_def empty_db_def)
  next
    case (step d t d' t')
    then show ?case using store_step_ok [OF _ _ sch] store_step_rows [OF _ _ _ sch] by blast
  qed
  then show ?thesis by blast
qed

section \<open>The checks of the backup\<close>

lemma reachable_page_checks:
  assumes "reachable sha db tr"
  shows "t_append_guards db = []" and "\<forall>p \<in> set (t_pages db). \<not> current_invalid db p"
    and "require_occurrence_graph db
      = Inr (map (\<lambda>p. (page_key p, ps_occurred_at (hd (tr (page_key p))))) (t_pages db))"
proof -
  have sch: "lit ''20261020_0037'' \<in> set CALLER_MOVE_REVISIONS" by (simp add: CALLER_MOVE_REVISIONS_def)
  have ok: "store_ok db (lit ''20261020_0037'') tr" by (rule reachable_store_ok [OF assms sch])
  have r: "rows_sound db tr" by (rule reachable_rows_sound [OF assms])
  show "t_append_guards db = []" using ok by (simp add: store_ok_def guards_clear_def)
  show "\<forall>p \<in> set (t_pages db). \<not> current_invalid db p" using store_page_history [OF ok] history_current by blast
  have c: "0 \<le> pg_created_at p" if "p \<in> set (t_pages db)" for p
    using r that by (simp add: rows_sound_def page_row_sound_def page_check_def)
  have "\<forall>p \<in> set (t_pages db). check_page_chain db p = Inr ()"
    and i: "\<forall>p \<in> set (t_pages db). initial_occurrence db p = ps_occurred_at (hd (tr (page_key p)))"
    using history_chain [OF store_page_history [OF ok] c] by blast+
  moreover have "t_correction_guards db = []" using ok by (simp add: store_ok_def guards_clear_def)
  moreover have "map (\<lambda>p. (page_key p, initial_occurrence db p)) (t_pages db)
      = map (\<lambda>p. (page_key p, ps_occurred_at (hd (tr (page_key p))))) (t_pages db)" using i by simp
  ultimately show "require_occurrence_graph db
      = Inr (map (\<lambda>p. (page_key p, ps_occurred_at (hd (tr (page_key p))))) (t_pages db))"
    using r by (simp add: require_occurrence_graph_def bindR_Inr_iff requireR_Inr require_each_Inr rows_sound_def
        list_all_iff)
qed

end
