(* ===== verification/ArchiveBackups.thy ===== *)
theory ArchiveBackups
  imports BackupStore ArchiveSteps
begin

text \<open>
  The rows the archive service writes outside the histories of the pages: the file tables, sources,
  identifiers and collision counters. What the service keeps of them, with what the content
  transactions keep, is what the backup checks.
\<close>

section \<open>Writing the content tables\<close>

text \<open>What a served request does to the content tables.\<close>

inductive content_write :: "service_env \<Rightarrow> content_db \<Rightarrow> content_db \<Rightarrow> bool" for env where
  unchanged: "content_write env db db"
| created: "insert_archive env at c book a auth db = Inr (db', p, r, s, citation, audit, response)
    \<Longrightarrow> content_write env db db'"
| appended: "am_library_id ca = pg_library_id p
    \<Longrightarrow> insert_appended env at t ca p a auth db = Inr (db', p', r, s, citation, audit, response)
    \<Longrightarrow> content_write env db db'"
| corrected: "insert_corrected env at co p a auth db = Inr (db', response) \<Longrightarrow> content_write env db db'"
| transitioned: "insert_transition env at cl action p a auth db = Inr (db', response)
    \<Longrightarrow> content_write env db db'"

lemma answered_write:
  assumes t: "(case found of
       Some r \<Rightarrow> bindR (check r) (\<lambda>_. Inr (app\<lparr>ap_auth := auth\<rparr>, r))
     | None \<Rightarrow>
         bindR ready (\<lambda>_.
         persisted
           (bindR written (\<lambda>(db, response).
            bindR (record_success auth (ap_records app) scope request response) (\<lambda>(records, _).
            Inr (\<lparr>ap_content = db, ap_auth = auth, ap_records = records\<rparr>, response)))))) = Inr (app', result)"
    and w: "\<And>db response. written = Inr (db, response) \<Longrightarrow> content_write env (ap_content app) db"
  shows "content_write env (ap_content app) (ap_content app')"
  using t w by (cases found) (auto elim!: bindR_InrE intro: content_write.unchanged)

lemma transition_authorized_write:
  assumes "transition_authorized env p auth a c key action at app = Inr (app', result)"
  shows "content_write env (ap_content app) (ap_content app')"
proof -
  obtain scope request found where
    t: "(case found of
       Some r \<Rightarrow> bindR (replay_lifecycle env c action p r (ap_content app)) (\<lambda>_. Inr (app\<lparr>ap_auth := auth\<rparr>, r))
     | None \<Rightarrow>
         bindR (lifecycle_ready env c action p) (\<lambda>_.
         persisted
           (bindR (insert_transition env at c action p a auth (ap_content app)) (\<lambda>(db, response).
            bindR (record_success auth (ap_records app) scope request response) (\<lambda>(records, _).
            Inr (\<lparr>ap_content = db, ap_auth = auth, ap_records = records\<rparr>, response)))))) = Inr (app', result)"
    using assms unfolding transition_authorized_def by (auto elim!: bindR_InrE)
  show ?thesis by (rule answered_write [OF t]) (rule content_write.transitioned)
qed

lemma service_step_write:
  assumes "service_step env app app'"
  shows "content_write env (ap_content app) (ap_content app')"
  using assms
proof cases
  case (created token c key result)
  then show ?thesis unfolding create_archive_def replay_create_def Let_def
    by (auto elim!: bindR_InrE split: option.splits if_splits)
      (erule content_write.created | rule content_write.unchanged)+
next
  case (revised token ca key result)
  then obtain p at auth a scope request found where gp: "get_archive_page env (am_library_id ca) (am_page_id ca) app = Inr p"
    and t: "(case found of
       Some r \<Rightarrow>
         bindR (optionR ReplayCorrupt (replay_body env r)) (\<lambda>body.
         bindR (validate_archive_replay env (ap_content app) p body r (am_section_id ca) True) (\<lambda>_.
         Inr (app\<lparr>ap_auth := auth\<rparr>, ArchiveReplay body r)))
     | None \<Rightarrow>
         bindR (append_ready env ca p at (ap_content app)) (\<lambda>revision_at.
         persisted
           (bindR (insert_appended env at revision_at ca p a auth (ap_content app))
              (\<lambda>(db, p', r, s, citation, audit, response).
            bindR (record_success auth (ap_records app) scope request response) (\<lambda>(records, _).
            Inr (\<lparr>ap_content = db, ap_auth = auth, ap_records = records\<rparr>,
                 ArchiveSuccess p' r s citation audit response)))))) = Inr (app', result)"
    unfolding append_revision_def by (auto elim!: bindR_InrE)
  have "am_library_id ca = pg_library_id p" using get_archive_page_library [OF gp] by simp
  then show ?thesis using t
    by (cases found) (auto elim!: bindR_InrE intro: content_write.unchanged, erule (1) content_write.appended)
next
  case (corrected token co key response)
  then obtain p at auth a scope request found where
    t: "(case found of
       Some r \<Rightarrow> bindR (replay_correction env co p r (ap_content app)) (\<lambda>_. Inr (app\<lparr>ap_auth := auth\<rparr>, r))
     | None \<Rightarrow>
         bindR (occurrence_ready env co p) (\<lambda>_.
         persisted
           (bindR (insert_corrected env at co p a auth (ap_content app)) (\<lambda>(db, response).
            bindR (record_success auth (ap_records app) scope request response) (\<lambda>(records, _).
            Inr (\<lparr>ap_content = db, ap_auth = auth, ap_records = records\<rparr>, response)))))) = Inr (app', response)"
    unfolding correct_occurrence_def by (auto elim!: bindR_InrE)
  show ?thesis by (rule answered_write [OF t]) (rule content_write.corrected)
next
  case (transitioned token cl key action response)
  then show ?thesis unfolding transition_page_lifecycle_def
    by (auto elim!: bindR_InrE intro: transition_authorized_write)
next
  case (restored token cl key response)
  then show ?thesis unfolding restore_page_as_operator_def
    by (auto elim!: bindR_InrE intro: transition_authorized_write)
qed

section \<open>The tables that a page update leaves alone\<close>

definition other_tables ::
  "content_db \<Rightarrow> revision list \<times> revision_file_set list \<times> revision_file list \<times> rev_key list \<times> rev_key list
    \<times> page_identifier list \<times> collision_counter list \<times> page_source list" where
  "other_tables db = (t_revisions db, t_file_sets db, t_files db, t_seals db, t_seal_guards db, t_identifiers db,
     t_counters db, t_sources db)"

definition page_identity :: "page \<Rightarrow> page_key \<times> pystr \<times> (pystr \<times> pystr \<times> int \<times> pystr) \<times> int" where
  "page_identity p = (page_key p, pg_page_id p, page_counter_key p, pg_collision_ordinal p)"

lemma record_other_tables:
  "record_occurrence old new db = Inr db' \<Longrightarrow> other_tables db' = other_tables db \<and> t_pages db' = t_pages db"
  "record_lifecycle old new db = Inr db' \<Longrightarrow> other_tables db' = other_tables db \<and> t_pages db' = t_pages db"
  "record_title old new db = Inr db' \<Longrightarrow> other_tables db' = other_tables db \<and> t_pages db' = t_pages db"
  "record_move old new db = Inr db' \<Longrightarrow> other_tables db' = other_tables db \<and> t_pages db' = t_pages db"
  by (auto simp: other_tables_def record_occurrence_def record_lifecycle_def record_title_def record_move_def Let_def
      split: if_splits option.splits list.splits)

definition same_rows :: "content_db \<Rightarrow> content_db \<Rightarrow> bool" where
  "same_rows db db' \<longleftrightarrow> other_tables db' = other_tables db
     \<and> map page_identity (t_pages db') = map page_identity (t_pages db)"

lemma same_rows_trans: "same_rows a b \<Longrightarrow> same_rows b c \<Longrightarrow> same_rows a c"
  by (simp add: same_rows_def)

lemma update_pages_same_rows:
  assumes u: "update_pages c f db = Inr (db', n)" and d: "distinct (map page_key (t_pages db))"
  shows "same_rows db db'"
proof (cases "find c (t_pages db)")
  case None
  then show ?thesis using u by (simp add: update_pages_def same_rows_def)
next
  case (Some old)
  then have o: "old \<in> set (t_pages db)" using find_SomeD by fast
  obtain d1 d2 d3 where r: "record_occurrence old (f old) (clear_append_guard old (f old) (set_page (f old) db)) = Inr d1"
      "record_lifecycle old (f old) d1 = Inr d2" "record_title old (f old) d2 = Inr d3"
      "record_move old (f old) d3 = Inr db'"
    and b: "before_page_update db old (f old)"
    using u Some by (auto simp: update_pages_def Let_def result_simps split: if_splits)
  have t: "other_tables db' = other_tables db" "t_pages db' = t_pages (set_page (f old) db)"
    using record_other_tables(1) [OF r(1)] record_other_tables(2) [OF r(2)] record_other_tables(3) [OF r(3)]
      record_other_tables(4) [OF r(4)]
    by (simp_all add: clear_append_guard_def other_tables_def set_page_def)
  have k: "page_key (f old) = page_key old" "page_identity (f old) = page_identity old"
    using b by (auto simp: before_page_update_def stable_identity_def page_identity_def page_counter_key_def page_key_def)
  have "page_identity (if page_key q = page_key (f old) then f old else q) = page_identity q"
    if "q \<in> set (t_pages db)" for q
  proof -
    have "page_key q = page_key old \<Longrightarrow> q = old" using that o d by (auto simp: distinct_map inj_on_def)
    then show ?thesis using k by auto
  qed
  then show ?thesis using t by (simp add: same_rows_def set_page_def)
qed

section \<open>Inserting a Markdown Revision\<close>

definition markdown_set :: "revision \<Rightarrow> revision_file_set" where
  "markdown_set r =
     \<lparr>fs_key = rev_key r, fs_storage_format = lit ''legacy_markdown'', fs_file_count = 1,
      fs_total_size_bytes = the (rv_content_size_bytes r), fs_snapshot_sha256 = None\<rparr>"

definition markdown_file :: "revision \<Rightarrow> revision_file" where
  "markdown_file r =
     \<lparr>rf_key = rev_key r, rf_filename = lit ''content.md'', rf_content_bytes = the (rv_content_md r),
      rf_size_bytes = the (rv_content_size_bytes r), rf_content_sha256 = the (rv_content_sha256 r)\<rparr>"

lemma new_revision_content:
  "new_revision_valid sha r \<Longrightarrow> \<exists>b. rv_content_md r = Some b \<and> rv_content_size_bytes r = Some (int (length b))
    \<and> rv_content_sha256 r = Some (sha b) \<and> int (length b) \<le> MAX_MARKDOWN_BYTES \<and> 0 \<notin> set b \<and> utf8_decode b \<noteq> None"
  by (auto simp: new_revision_valid_def markdown_from_bytes_def split: option.splits if_splits)

lemma insert_markdown_revision:
  assumes i: "insert_revision r db = Inr db'" and v: "new_revision_valid sha r"
  shows "db' = db\<lparr>t_revisions := t_revisions db @ [r],
      t_append_guards := (if rv_revision_number r > 1 then t_append_guards db @ [rev_key r] else t_append_guards db),
      t_file_sets := t_file_sets db @ [markdown_set r], t_files := t_files db @ [markdown_file r],
      t_seals := t_seals db @ [rev_key r], t_seal_guards := t_seal_guards db @ [rev_key r]\<rparr>"
    and "rev_key r \<notin> rev_key ` set (t_revisions db)"
proof -
  obtain b where b: "rv_content_md r = Some b" "rv_content_size_bytes r = Some (int (length b))"
    "rv_content_sha256 r = Some (sha b)" using new_revision_content [OF v] by blast
  let ?d = "db\<lparr>t_revisions := t_revisions db @ [r],
      t_append_guards := (if rv_revision_number r > 1 then t_append_guards db @ [rev_key r] else t_append_guards db)\<rparr>"
  obtain d3 where m: "mirror_content_file r ?d = Inr d3"
    and d': "db' = d3\<lparr>t_seal_guards := t_seal_guards d3 @ [rev_key r]\<rparr>"
    and n: "\<not> list_ex (\<lambda>x. rv_library_id x = rv_library_id r \<and> rv_revision_id x = rv_revision_id r) (t_revisions db)"
    using i by (auto simp: insert_revision_def Let_def result_simps split: if_splits)
  show "rev_key r \<notin> rev_key ` set (t_revisions db)" using n by (auto simp: list_ex_iff rev_key_def)
  obtain d2 where s: "insert_file_set (markdown_set r) ?d = Inr d2" and f: "insert_file (markdown_file r) d2 = Inr d3"
    using m b by (auto simp: mirror_content_file_def markdown_set_def markdown_file_def result_simps)
  have d2: "d2 = ?d\<lparr>t_file_sets := t_file_sets db @ [markdown_set r]\<rparr>"
    using s by (auto simp: insert_file_set_def split: if_splits)
  have legacy: "list_ex (\<lambda>x. rev_key x = rf_key (markdown_file r) \<and> rv_content_md x \<noteq> None) (t_revisions d2)"
    using b by (simp add: d2 markdown_file_def)
  have "insert_seal (rev_key r) (d2\<lparr>t_files := t_files db @ [markdown_file r]\<rparr>) = Inr d3"
    using f legacy by (auto simp: insert_file_def Let_def d2 markdown_file_def split: if_splits)
  then have "d3 = d2\<lparr>t_files := t_files db @ [markdown_file r], t_seals := t_seals db @ [rev_key r]\<rparr>"
    by (auto simp: insert_seal_def d2 split: if_splits)
  then show "db' = db\<lparr>t_revisions := t_revisions db @ [r],
      t_append_guards := (if rv_revision_number r > 1 then t_append_guards db @ [rev_key r] else t_append_guards db),
      t_file_sets := t_file_sets db @ [markdown_set r], t_files := t_files db @ [markdown_file r],
      t_seals := t_seals db @ [rev_key r], t_seal_guards := t_seal_guards db @ [rev_key r]\<rparr>"
    by (simp add: d' d2)
qed

section \<open>The rows the service keeps\<close>

definition revision_rows_sound :: "(bytes \<Rightarrow> bytes) \<Rightarrow> content_db \<Rightarrow> bool" where
  "revision_rows_sound sha db \<longleftrightarrow>
     list_all (new_revision_valid sha) (t_revisions db) \<and> distinct (map rev_key (t_revisions db))
     \<and> t_file_sets db = map markdown_set (t_revisions db) \<and> t_files db = map markdown_file (t_revisions db)
     \<and> t_seals db = map rev_key (t_revisions db) \<and> t_seal_guards db = map rev_key (t_revisions db)
     \<and> map source_key (t_sources db) = map rev_key (t_revisions db)"

definition identifier_rows_sound :: "(bytes \<Rightarrow> bytes) \<Rightarrow> content_db \<Rightarrow> bool" where
  "identifier_rows_sound sha db \<longleftrightarrow>
     list_all (identifier_row_sound sha) (t_identifiers db)
     \<and> map (\<lambda>i. ((pi_library_id i, pi_page_uid i), pi_identifier_text i, pi_identifier_kind i)) (t_identifiers db)
         = map (\<lambda>p. (page_key p, pg_page_id p, lit ''canonical'')) (t_pages db)"

definition counter_rows_sound :: "content_db \<Rightarrow> bool" where
  "counter_rows_sound db \<longleftrightarrow>
     distinct (map counter_key (t_counters db))
     \<and> counter_key ` set (t_counters db) = page_counter_key ` set (t_pages db)
     \<and> (\<forall>c \<in> set (t_counters db). \<forall>p \<in> set (t_pages db). page_counter_key p = counter_key c
          \<longrightarrow> pg_collision_ordinal p < cc_next_ordinal c)"

definition service_rows :: "(bytes \<Rightarrow> bytes) \<Rightarrow> content_db \<Rightarrow> bool" where
  "service_rows sha db \<longleftrightarrow>
     revision_rows_sound sha db \<and> identifier_rows_sound sha db \<and> counter_rows_sound db"

lemma identities_pages:
  assumes "map page_identity (t_pages db') = map page_identity (t_pages db)"
  shows "map (\<lambda>p. (page_key p, pg_page_id p, k)) (t_pages db') = map (\<lambda>p. (page_key p, pg_page_id p, k)) (t_pages db)"
    and "(\<lambda>p. (page_counter_key p, pg_collision_ordinal p)) ` set (t_pages db')
      = (\<lambda>p. (page_counter_key p, pg_collision_ordinal p)) ` set (t_pages db)"
proof -
  have e: "map (f \<circ> page_identity) (t_pages db') = map (f \<circ> page_identity) (t_pages db)" for f :: "_ \<Rightarrow> 'z"
    using arg_cong [OF assms, of "map f"] by simp
  show "map (\<lambda>p. (page_key p, pg_page_id p, k)) (t_pages db') = map (\<lambda>p. (page_key p, pg_page_id p, k)) (t_pages db)"
    using e [of "\<lambda>(x, y, _). (x, y, k)"] by (simp add: comp_def page_identity_def)
  have "map (\<lambda>p. (page_counter_key p, pg_collision_ordinal p)) (t_pages db')
      = map (\<lambda>p. (page_counter_key p, pg_collision_ordinal p)) (t_pages db)"
    using e [of "\<lambda>(_, _, z). z"] by (simp add: comp_def page_identity_def)
  from arg_cong [OF this, of set] show "(\<lambda>p. (page_counter_key p, pg_collision_ordinal p)) ` set (t_pages db')
      = (\<lambda>p. (page_counter_key p, pg_collision_ordinal p)) ` set (t_pages db)" by simp
qed

lemma counter_rows_alt:
  "counter_rows_sound db \<longleftrightarrow>
     (let ps = (\<lambda>p. (page_counter_key p, pg_collision_ordinal p)) ` set (t_pages db) in
      distinct (map counter_key (t_counters db)) \<and> counter_key ` set (t_counters db) = fst ` ps
      \<and> (\<forall>c \<in> set (t_counters db). \<forall>(k, n) \<in> ps. k = counter_key c \<longrightarrow> n < cc_next_ordinal c))"
  by (force simp: counter_rows_sound_def Let_def image_image)

lemma same_rows_service: "same_rows db db' \<Longrightarrow> service_rows sha db \<Longrightarrow> service_rows sha db'"
  using identities_pages(1) [where k = "lit ''canonical''" and db = db and db' = db'] identities_pages(2) [of db' db]
  by (simp add: same_rows_def service_rows_def revision_rows_sound_def identifier_rows_sound_def counter_rows_alt
      other_tables_def)

section \<open>The statements of a request\<close>

lemma insert_audit_same_rows: "insert_audit a db = Inr db' \<Longrightarrow> same_rows db db'"
  by (auto simp: insert_audit_def same_rows_def other_tables_def split: if_splits)

lemma add_audit_same_rows: "add_audit_event auth a db = Inr db' \<Longrightarrow> same_rows db db'"
  using insert_audit_same_rows by (auto simp: add_audit_event_def split: if_splits)

lemma write_correction_same_rows:
  assumes "write_correction p g db = Inr (db', p', row)" and d: "distinct (map page_key (t_pages db))"
  shows "same_rows db db'"
proof -
  obtain d1 n c f where g: "insert_correction_guard g db = Inr d1" and u: "update_pages c f d1 = Inr (db', n)"
    using assms(1) by (auto simp: write_correction_def Let_def result_simps split: if_splits option.splits)
  have "same_rows db d1" "t_pages d1 = t_pages db"
    using g by (auto simp: insert_correction_guard_def same_rows_def other_tables_def split: if_splits)
  then show ?thesis using update_pages_same_rows [OF u] d same_rows_trans by simp
qed

lemma write_lifecycle_same_rows:
  assumes "write_lifecycle p g db = Inr (db', p', event)" and d: "distinct (map page_key (t_pages db))"
  shows "same_rows db db'"
proof -
  obtain d1 n c f where g: "insert_lifecycle_guard g db = Inr d1" and u: "update_pages c f d1 = Inr (db', n)"
    using assms(1) by (auto simp: write_lifecycle_def Let_def result_simps split: if_splits option.splits)
  have "same_rows db d1" "t_pages d1 = t_pages db"
    using g by (auto simp: insert_lifecycle_guard_def same_rows_def other_tables_def split: if_splits)
  then show ?thesis using update_pages_same_rows [OF u] d same_rows_trans by simp
qed

lemma corrected_same_rows:
  assumes i: "insert_corrected env at c p a auth db = Inr (db', response)" and d: "distinct (map page_key (t_pages db))"
  shows "same_rows db db'"
proof -
  obtain command d1 updated row audit where u: "correct_occurrence_row p command db = Inr (d1, updated, row)"
    and au: "add_audit_event auth audit d1 = Inr db'"
    using i unfolding insert_corrected_def Let_def by (auto elim!: bindR_InrE)
  obtain g where "write_correction p g db = Inr (d1, updated, row)"
    using u by (auto simp: correct_occurrence_row_def Let_def split: if_splits)
  then show ?thesis using write_correction_same_rows [OF _ d] add_audit_same_rows [OF au] same_rows_trans by blast
qed

lemma transitioned_same_rows:
  assumes i: "insert_transition env at c action p a auth db = Inr (db', response)"
    and d: "distinct (map page_key (t_pages db))"
  shows "same_rows db db'"
proof -
  obtain d1 updated event audit where
    u: "transition_page_lifecycle_row p action (Some (ca_id (ac_caller a))) (Some (ca_library_id (ac_caller a)))
        None (lm_request_id c) at db = Inr (d1, updated, event)"
    and au: "add_audit_event auth audit d1 = Inr db'"
    using i unfolding insert_transition_def Let_def by (auto elim!: bindR_InrE)
  obtain g where "write_lifecycle p g db = Inr (d1, updated, event)"
    using u by (auto simp: transition_page_lifecycle_row_def Let_def split: if_splits)
  then show ?thesis using write_lifecycle_same_rows [OF _ d] add_audit_same_rows [OF au] same_rows_trans by blast
qed

text \<open>A Revision with its source.\<close>

lemma revision_rows_added:
  assumes r: "revision_rows_sound sha db" and v: "new_revision_valid sha x" and n: "rev_key x \<notin> rev_key ` set (t_revisions db)"
    and t: "t_revisions db' = t_revisions db @ [x]" "t_file_sets db' = t_file_sets db @ [markdown_set x]"
      "t_files db' = t_files db @ [markdown_file x]" "t_seals db' = t_seals db @ [rev_key x]"
      "t_seal_guards db' = t_seal_guards db @ [rev_key x]" "t_sources db' = t_sources db @ [s]"
    and s: "source_key s = rev_key x"
  shows "revision_rows_sound sha db'"
  using r v n s by (auto simp: revision_rows_sound_def t)

lemma add_source_Inr:
  assumes "add_source env source library uid r at db = Inr (db', s)" and "library = rv_library_id r" "uid = rv_page_uid r"
  shows "db' = db\<lparr>t_sources := t_sources db @ [s]\<rparr> \<and> source_key s = rev_key r"
  using assms by (auto simp: add_source_def add_source_row_def insert_source_def Let_def source_key_def rev_key_def
      split: if_splits elim!: bindR_InrE)

lemma appended_service_rows:
  assumes i: "insert_appended env at t c p a auth db = Inr (db', p', r, s, citation, audit, response)"
    and rows: "service_rows (sv_sha env) db" and d: "distinct (map page_key (t_pages db))"
  shows "service_rows (sv_sha env) db'"
proof -
  obtain rid content d1 d2 d3 where
    r: "r = markdown_revision (am_library_id c) (pg_page_uid p) rid (pg_current_revision_number p + 1) content t"
    and v: "new_revision_valid (sv_sha env) r"
    and ir: "add_revision r db = Inr d1" and u: "advance_current_revision p r t d1 = Inr (d2, Some p')"
    and so: "add_source env (am_source c) (am_library_id c) (pg_page_uid p) r at d2 = Inr (d3, s)"
    and au: "add_audit_event auth audit d3 = Inr db'"
    using i unfolding insert_appended_def Let_def by (auto elim!: bindR_InrE split: option.splits)
  note mr = insert_markdown_revision [OF ir [unfolded add_revision_def] v]
  obtain c' f n where up: "update_pages c' f d1 = Inr (d2, n)"
    using u by (auto simp: advance_current_revision_def Let_def result_simps split: if_splits)
  have p1: "t_pages d1 = t_pages db" "t_identifiers d1 = t_identifiers db" "t_counters d1 = t_counters db"
    "t_sources d1 = t_sources db" by (simp_all add: mr(1))
  have s2: "same_rows d1 d2" using update_pages_same_rows [OF up] d p1 by simp
  have "am_library_id c = rv_library_id r" "pg_page_uid p = rv_page_uid r" by (simp_all add: r markdown_revision_def)
  then have s3: "d3 = d2\<lparr>t_sources := t_sources d2 @ [s]\<rparr>" "source_key s = rev_key r"
    using add_source_Inr [OF so] by blast+
  have "revision_rows_sound (sv_sha env) (d1\<lparr>t_sources := t_sources d1 @ [s]\<rparr>)"
    by (rule revision_rows_added [OF _ v mr(2), where s = s]) (use rows s3(2) in \<open>simp_all add: service_rows_def mr(1)\<close>)
  then have "service_rows (sv_sha env) (d1\<lparr>t_sources := t_sources d1 @ [s]\<rparr>)"
    using rows by (simp add: service_rows_def identifier_rows_sound_def counter_rows_sound_def p1)
  moreover have "same_rows (d1\<lparr>t_sources := t_sources d1 @ [s]\<rparr>) d3"
    using s2 by (simp add: s3(1) same_rows_def other_tables_def)
  ultimately show ?thesis using same_rows_service same_rows_trans add_audit_same_rows [OF au] by blast
qed

section \<open>Creating an archive\<close>

lemma candidate_fields:
  assumes "candidate_page_id sha occurrence title ordinal = Inr g"
  shows "gp_collision_ordinal g = ordinal \<and> slugify_creation_title sha title = Inr (gp_base_slug g)"
proof -
  have "generate_page_id sha occurrence title ordinal = Inr g"
    using assms by (cases "generate_page_id sha occurrence title ordinal")
      (simp_all add: candidate_page_id_def bad_value_def)
  then show ?thesis
    by (auto simp: generate_page_id_def validate_collision_ordinal_def Let_def result_simps split: if_splits)
qed

text \<open>The counter of a key has passed the ordinal \<open>n\<close>; the other counters are as they were.\<close>

definition counter_passed ::
  "pystr \<times> pystr \<times> int \<times> pystr \<Rightarrow> int \<Rightarrow> collision_counter list \<Rightarrow> collision_counter list \<Rightarrow> bool" where
  "counter_passed k n cs cs' \<longleftrightarrow>
     distinct (map counter_key cs') \<and> counter_key ` set cs' = insert k (counter_key ` set cs)
     \<and> (\<forall>c' \<in> set cs'.
          (counter_key c' = k \<longrightarrow> n < cc_next_ordinal c')
          \<and> ((\<exists>c \<in> set cs. counter_key c = counter_key c' \<and> cc_next_ordinal c \<le> cc_next_ordinal c')
             \<or> (counter_key c' = k \<and> k \<notin> counter_key ` set cs)))"

lemma counter_passed_trans:
  assumes "counter_passed k m cs cs1" "counter_passed k n cs1 cs'" "k \<in> counter_key ` set cs"
  shows "counter_passed k n cs cs'"
  unfolding counter_passed_def
proof (intro conjI ballI)
  show "distinct (map counter_key cs')" using assms(2) by (simp add: counter_passed_def)
  show "counter_key ` set cs' = insert k (counter_key ` set cs)" using assms by (simp add: counter_passed_def)
  fix c' assume c': "c' \<in> set cs'"
  then show "counter_key c' = k \<longrightarrow> n < cc_next_ordinal c'" using assms(2) by (simp add: counter_passed_def)
  have "k \<in> counter_key ` set cs1" using assms(1) by (simp add: counter_passed_def)
  then obtain c1 where c1: "c1 \<in> set cs1" "counter_key c1 = counter_key c'" "cc_next_ordinal c1 \<le> cc_next_ordinal c'"
    using assms(2) c' unfolding counter_passed_def by blast
  then obtain c where "c \<in> set cs" "counter_key c = counter_key c1" "cc_next_ordinal c \<le> cc_next_ordinal c1"
    using assms(1,3) unfolding counter_passed_def by blast
  then show "(\<exists>c \<in> set cs. counter_key c = counter_key c' \<and> cc_next_ordinal c \<le> cc_next_ordinal c')
      \<or> (counter_key c' = k \<and> k \<notin> counter_key ` set cs)" using c1 by force
qed

lemma counter_key_next [simp]: "counter_key (c\<lparr>cc_next_ordinal := n\<rparr>) = counter_key c"
  by (simp add: counter_key_def)

lemma first_page_id_counter:
  assumes "first_page_id sha library occ title c n ordinal db = Inr (db', g)" and "distinct (map counter_key (t_counters db))"
  shows "\<exists>cs. db' = db\<lparr>t_counters := cs\<rparr> \<and> counter_passed (counter_key c) (gp_collision_ordinal g) (t_counters db) cs
    \<and> slugify_creation_title sha title = Inr (gp_base_slug g)"
  using assms(1)
proof (induction n arbitrary: ordinal)
  case (Suc n)
  then obtain candidate taken where cd: "candidate_page_id sha occ title ordinal = Inr candidate"
    and t: "(if taken then first_page_id sha library occ title c n (ordinal + 1) db
        else let c = c\<lparr>cc_next_ordinal := ordinal + 1\<rparr> in
          if \<not> new_counter_valid c then Inl BadValue
          else bindR (add_collision_counter c db) (\<lambda>db'. Inr (db', candidate))) = Inr (db', g)"
    by (auto split: if_splits elim!: bindR_InrE)
  show ?case
  proof (cases taken)
    case True
    then show ?thesis using t Suc.IH by simp
  next
    case False
    let ?c = "c\<lparr>cc_next_ordinal := ordinal + 1\<rparr>"
    have i: "insert_counter ?c db = Inr db'" and g: "g = candidate"
      using t False by (auto simp: Let_def add_collision_counter_def split: if_splits elim!: bindR_InrE)
    have "db' = db\<lparr>t_counters := t_counters db @ [?c]\<rparr>" and n: "counter_key c \<notin> counter_key ` set (t_counters db)"
      using i by (auto simp: insert_counter_def list_ex_iff split: if_splits)
    moreover have "counter_passed (counter_key c) (gp_collision_ordinal g) (t_counters db) (t_counters db @ [?c])"
    proof -
      have "\<forall>x \<in> set (t_counters db). counter_key x \<noteq> counter_key c" using n by (metis image_eqI)
      then show ?thesis using n assms(2) candidate_fields [OF cd] by (auto simp: counter_passed_def g)
    qed
    ultimately show ?thesis using candidate_fields [OF cd] g by blast
  qed
qed simp

lemma counter_passed_map:
  assumes d: "distinct (map counter_key cs)" and k: "k \<in> counter_key ` set cs"
    and up: "\<And>y. counter_key (up y) = counter_key y" "\<And>y. cc_next_ordinal y \<le> cc_next_ordinal (up y)"
    and n: "\<And>y. y \<in> set cs \<Longrightarrow> counter_key y = k \<Longrightarrow> n < cc_next_ordinal (up y)"
  shows "counter_passed k n cs (map up cs)"
proof -
  have "map counter_key (map up cs) = map counter_key cs" by (simp add: up(1))
  then have "distinct (map counter_key (map up cs))" using d by (simp only:)
  moreover have "counter_key ` set (map up cs) = counter_key ` set cs" by (simp add: image_image up(1))
  moreover have "insert k (counter_key ` set cs) = counter_key ` set cs" using k by (rule insert_absorb)
  moreover have "\<exists>y \<in> set cs. counter_key y = counter_key (up z) \<and> cc_next_ordinal y \<le> cc_next_ordinal (up z)"
    if "z \<in> set cs" for z
    using that up by metis
  moreover have "counter_key (up z) = k \<longrightarrow> n < cc_next_ordinal (up z)" if "z \<in> set cs" for z
    using n [OF that] up(1) by simp
  ultimately show ?thesis unfolding counter_passed_def by simp
qed

lemma advance_counter_passed:
  assumes a: "advance_collision_counter c (cc_next_ordinal c + 1) db = Inr (db', Some c')"
    and d: "distinct (map counter_key (t_counters db))"
  shows "\<exists>cs. db' = db\<lparr>t_counters := cs\<rparr> \<and> counter_passed (counter_key c) (cc_next_ordinal c) (t_counters db) cs
    \<and> counter_key c' = counter_key c \<and> counter_key c \<in> counter_key ` set (t_counters db)"
proof -
  let ?up = "\<lambda>x. if counter_key x = counter_key c \<and> cc_next_ordinal x = cc_next_ordinal c
      then x\<lparr>cc_next_ordinal := cc_next_ordinal c + 1\<rparr> else x"
  obtain x where x: "x \<in> set (t_counters db)" "counter_key x = counter_key c" "cc_next_ordinal x = cc_next_ordinal c"
    and db': "db' = db\<lparr>t_counters := map ?up (t_counters db)\<rparr>" and c': "c' = c\<lparr>cc_next_ordinal := cc_next_ordinal c + 1\<rparr>"
    using a by (auto simp: advance_collision_counter_def update_counter_def list_ex_iff result_simps split: if_splits)
  have k: "counter_key c \<in> counter_key ` set (t_counters db)" using x(1,2) by (metis image_eqI)
  have "y = x" if "y \<in> set (t_counters db)" "counter_key y = counter_key c" for y
    using that x d by (auto simp: distinct_map inj_on_def)
  then have "counter_passed (counter_key c) (cc_next_ordinal c) (t_counters db) (map ?up (t_counters db))"
    using x(3) by (intro counter_passed_map [OF d k]) auto
  then show ?thesis using k db' c' by auto
qed

lemma next_page_id_counter:
  assumes "next_page_id sha library occ title n c db = Inr (db', g)" and "distinct (map counter_key (t_counters db))"
  shows "\<exists>cs. db' = db\<lparr>t_counters := cs\<rparr> \<and> counter_passed (counter_key c) (gp_collision_ordinal g) (t_counters db) cs
    \<and> slugify_creation_title sha title = Inr (gp_base_slug g)"
  using assms
proof (induction n arbitrary: c db)
  case (Suc n)
  then obtain db1 c1 candidate taken where a: "advance_collision_counter c (cc_next_ordinal c + 1) db = Inr (db1, Some c1)"
    and cd: "candidate_page_id sha occ title (cc_next_ordinal c) = Inr candidate"
    and t: "(if taken then next_page_id sha library occ title n c1 db1 else Inr (db1, candidate)) = Inr (db', g)"
    by (auto simp: Let_def split: if_splits option.splits elim!: bindR_InrE)
  obtain cs where cs: "db1 = db\<lparr>t_counters := cs\<rparr>" "counter_passed (counter_key c) (cc_next_ordinal c) (t_counters db) cs"
    "counter_key c1 = counter_key c" "counter_key c \<in> counter_key ` set (t_counters db)"
    using advance_counter_passed [OF a Suc.prems(2)] by blast
  show ?case
  proof (cases taken)
    case True
    have "distinct (map counter_key (t_counters db1))" using cs(1,2) by (simp add: counter_passed_def)
    then obtain cs' where "db' = db1\<lparr>t_counters := cs'\<rparr>"
      "counter_passed (counter_key c) (gp_collision_ordinal g) cs cs'" "slugify_creation_title sha title = Inr (gp_base_slug g)"
      using Suc.IH [of c1 db1] t True cs(1,3) by auto
    then show ?thesis using counter_passed_trans [OF cs(2) _ cs(4)] cs(1) by auto
  next
    case False
    then show ?thesis using t cs candidate_fields [OF cd] by auto
  qed
qed simp

lemma allocate_page_id_counter:
  assumes a: "allocate_page_id env library title at db = Inr (db', g)" and d: "distinct (map counter_key (t_counters db))"
  shows "\<exists>cs. db' = db\<lparr>t_counters := cs\<rparr>
    \<and> counter_passed (library, PAGE_ID_SCHEME, at div 1000 * 1000, gp_base_slug g) (gp_collision_ordinal g) (t_counters db) cs"
proof -
  let ?ts = "at div 1000 * 1000"
  obtain occ base where b: "candidate_page_id (sv_sha env) occ title 1 = Inr base"
    and t: "(case get_collision_counter db library PAGE_ID_SCHEME ?ts (gp_base_slug base) of
       None \<Rightarrow>
         first_page_id (sv_sha env) library occ title
           \<lparr>cc_library_id = library, cc_id_scheme = PAGE_ID_SCHEME, cc_id_timestamp_micros = ?ts,
            cc_base_slug = gp_base_slug base, cc_next_ordinal = 2\<rparr> (sv_attempts env) 1 db
     | Some counter \<Rightarrow> next_page_id (sv_sha env) library occ title (sv_attempts env) counter db) = Inr (db', g)"
    using a unfolding allocate_page_id_def Let_def by (auto elim!: bindR_InrE)
  obtain c where k: "counter_key c = (library, PAGE_ID_SCHEME, ?ts, gp_base_slug base)"
    and cs: "\<exists>cs. db' = db\<lparr>t_counters := cs\<rparr> \<and> counter_passed (counter_key c) (gp_collision_ordinal g) (t_counters db) cs
      \<and> slugify_creation_title (sv_sha env) title = Inr (gp_base_slug g)"
  proof (cases "get_collision_counter db library PAGE_ID_SCHEME ?ts (gp_base_slug base)")
    case None
    then have "first_page_id (sv_sha env) library occ title
           \<lparr>cc_library_id = library, cc_id_scheme = PAGE_ID_SCHEME, cc_id_timestamp_micros = ?ts,
            cc_base_slug = gp_base_slug base, cc_next_ordinal = 2\<rparr> (sv_attempts env) 1 db = Inr (db', g)" using t by simp
    from first_page_id_counter [OF this d] show thesis by (rule that [rotated]) (simp add: counter_key_def)
  next
    case (Some c)
    then have "next_page_id (sv_sha env) library occ title (sv_attempts env) c db = Inr (db', g)" using t by simp
    moreover have "counter_key c = (library, PAGE_ID_SCHEME, ?ts, gp_base_slug base)"
      using find_SomeD [OF Some [unfolded get_collision_counter_def]] by simp
    ultimately show thesis using that next_page_id_counter d by blast
  qed
  have "gp_base_slug base = gp_base_slug g" using candidate_fields [OF b] cs by auto
  then show ?thesis using cs unfolding k by auto
qed

lemma counter_rows_added:
  assumes c: "counter_rows_sound db" and k: "counter_passed (page_counter_key p) (pg_collision_ordinal p) (t_counters db) cs"
    and t: "t_counters db' = cs" "t_pages db' = t_pages db @ [p]"
  shows "counter_rows_sound db'"
  unfolding counter_rows_sound_def
proof (intro conjI ballI impI)
  have ks: "counter_key ` set cs = insert (page_counter_key p) (page_counter_key ` set (t_pages db))"
    using c k by (simp add: counter_rows_sound_def counter_passed_def)
  show "distinct (map counter_key (t_counters db'))" using k t by (simp add: counter_passed_def)
  show "counter_key ` set (t_counters db') = page_counter_key ` set (t_pages db')" by (simp add: t ks)
  fix x q assume x: "x \<in> set (t_counters db')" and q: "q \<in> set (t_pages db')" "page_counter_key q = counter_key x"
  show "pg_collision_ordinal q < cc_next_ordinal x"
  proof (cases "q = p")
    case True
    then show ?thesis using k x q(2) t by (simp add: counter_passed_def)
  next
    case False
    then have qm: "q \<in> set (t_pages db)" using q t by simp
    then have "counter_key x \<in> counter_key ` set (t_counters db)"
      using c q(2) by (simp add: counter_rows_sound_def) (metis image_eqI)
    then obtain y where "y \<in> set (t_counters db)" "counter_key y = counter_key x" "cc_next_ordinal y \<le> cc_next_ordinal x"
      using k x t unfolding counter_passed_def by metis
    then show ?thesis using c qm q(2) unfolding counter_rows_sound_def by (metis order_less_le_trans)
  qed
qed

lemma insert_archive_valid:
  assumes "insert_archive env at c book a auth db = Inr (db', p, r, s, citation, audit, response)"
  shows "new_revision_valid (sv_sha env) r
    \<and> (\<forall>digest. registry_digest (sv_sha env) (pg_page_id p) = Inr digest \<longrightarrow>
         new_identifier_valid (sv_sha env) (canonical_identifier (cm_library_id c) (pg_page_id p) digest (pg_page_uid p) at))"
  using assms unfolding insert_archive_def Let_def
  by (elim bindR_InrE) (auto elim!: bindR_InrE simp: fresh_page_def simp del: One_nat_def)

lemma created_service_rows:
  assumes i: "insert_archive env at c book a auth db = Inr (db', p, r, s, citation, audit, response)"
    and rows: "service_rows (sv_sha env) db"
  shows "service_rows (sv_sha env) db'"
proof -
  let ?sha = "sv_sha env" and ?occ = "case cm_occurred_at c of None \<Rightarrow> at | Some t \<Rightarrow> t"
  obtain d1 d4 d5 g uid rid content digest where
    al: "allocate_page_id env (cm_library_id c) (cm_title c) ?occ db = Inr (d1, g)"
    and p: "p = fresh_page c book g uid rid ?occ at"
    and r: "r = markdown_revision (cm_library_id c) uid rid 1 content at"
    and cr: "create_rows ?sha p r (canonical_identifier (cm_library_id c) (pg_page_id p) digest uid at) d1 = Inr d4"
    and dg: "registry_digest ?sha (pg_page_id p) = Inr digest"
    and so: "add_source env (cm_source c) (cm_library_id c) uid r at d4 = Inr (d5, s)"
    and au: "add_audit_event auth audit d5 = Inr db'"
    by (rule insert_archive_Inr [OF i])
  let ?i = "canonical_identifier (cm_library_id c) (pg_page_id p) digest uid at"
  have v: "new_revision_valid ?sha r" and iv: "new_identifier_valid ?sha ?i"
    using insert_archive_valid [OF i] dg by (simp_all add: p fresh_page_def)
  obtain cs where d1: "d1 = db\<lparr>t_counters := cs\<rparr>"
    and cs: "counter_passed (page_counter_key p) (pg_collision_ordinal p) (t_counters db) cs"
    using allocate_page_id_counter [OF al] rows
    by (auto simp: service_rows_def counter_rows_sound_def p fresh_page_def page_counter_key_def)
  obtain d2 d3 where ip: "insert_page p d1 = Inr d2" and ir: "insert_revision r d2 = Inr d3"
    and ii: "insert_identifier ?i d3 = Inr d4"
    using cr by (auto simp: create_rows_def add_page_def add_revision_def add_identifier_def result_simps split: if_splits)
  have d2: "d2 = db\<lparr>t_counters := cs, t_pages := t_pages db @ [p]\<rparr>"
    using ip by (auto simp: insert_page_def d1 Let_def split: if_splits)
  note mr = insert_markdown_revision [OF ir v]
  have d4: "d4 = d3\<lparr>t_identifiers := t_identifiers d3 @ [?i]\<rparr>"
    using ii by (auto simp: insert_identifier_def Let_def split: if_splits)
  have "cm_library_id c = rv_library_id r" "uid = rv_page_uid r" by (simp_all add: r markdown_revision_def)
  then have d5: "d5 = d4\<lparr>t_sources := t_sources d4 @ [s]\<rparr>" "source_key s = rev_key r"
    using add_source_Inr [OF so] by blast+
  have "revision_rows_sound ?sha d5"
    by (rule revision_rows_added [OF _ v mr(2), where s = s])
      (use rows d5(2) in \<open>simp_all add: service_rows_def revision_rows_sound_def d5(1) d4 mr(1) d2\<close>)
  moreover have "identifier_rows_sound ?sha d5"
    using rows iv by (simp add: service_rows_def identifier_rows_sound_def d5(1) d4 mr(1) d2 identifier_row_sound_def
        new_identifier_valid_def canonical_identifier_def page_key_def p fresh_page_def)
  moreover have "counter_rows_sound d5"
    by (rule counter_rows_added [OF _ cs]) (use rows in \<open>simp_all add: service_rows_def d5(1) d4 mr(1) d2\<close>)
  ultimately have "service_rows ?sha d5" by (simp add: service_rows_def)
  then show ?thesis using same_rows_service [OF add_audit_same_rows [OF au]] by blast
qed

end
