(* ===== verification/ContentBackups.thy ===== *)
theory ContentBackups
  imports ArchiveBackups ArchiveSamples
begin

text \<open>
  What the backup accepts: the databases that the content transactions reach pass its checks of
  pages, Revisions and corrections, and those that the archive service reaches pass all its checks of
  the content tables.
\<close>

section \<open>The stores of the archive service\<close>

inductive service_reachable :: "(bytes \<Rightarrow> bytes) \<Rightarrow> app_db \<Rightarrow> bool" for sha where
  start: "service_reachable sha \<lparr>ap_content = empty_db, ap_auth = auth, ap_records = []\<rparr>"
| book: "\<lbrakk>service_reachable sha app; add_book b (ap_content app) = Inr db\<rbrakk>
    \<Longrightarrow> service_reachable sha (app\<lparr>ap_content := db\<rparr>)"
| credentials: "service_reachable sha app \<Longrightarrow> service_reachable sha (app\<lparr>ap_auth := auth\<rparr>)"
| served: "\<lbrakk>service_reachable sha app; service_step env app app'; sv_sha env = sha\<rbrakk> \<Longrightarrow> service_reachable sha app'"

lemma content_write_rows:
  assumes "content_write env db db'" and "service_rows (sv_sha env) db" and "distinct (map page_key (t_pages db))"
  shows "service_rows (sv_sha env) db'"
  using assms(1)
proof cases
  case unchanged
  then show ?thesis using assms(2) by simp
next
  case created
  then show ?thesis using created_service_rows assms(2) by blast
next
  case appended
  then show ?thesis using appended_service_rows assms(2,3) by blast
next
  case corrected
  then show ?thesis using corrected_same_rows same_rows_service assms(2,3) by blast
next
  case transitioned
  then show ?thesis using transitioned_same_rows same_rows_service assms(2,3) by blast
qed

lemma service_reachable_rows:
  assumes "service_reachable sha app"
  shows "service_rows sha (ap_content app) \<and> (\<exists>tr. reachable sha (ap_content app) tr)"
  using assms
proof induction
  case (start auth)
  have "service_rows sha empty_db"
    by (simp add: service_rows_def revision_rows_sound_def identifier_rows_sound_def counter_rows_sound_def empty_db_def)
  then show ?case using reachable_start by auto
next
  case (book app b db)
  have "same_rows (ap_content app) db"
    using book(2) by (auto simp: add_book_def same_rows_def other_tables_def split: if_splits)
  moreover obtain tr where "reachable sha (ap_content app) tr" using book by blast
  ultimately show ?case
    using book same_rows_service reachable_step store_step.side side_statement.book by fastforce
next
  case (credentials app auth)
  then show ?case by simp
next
  case (served app env app')
  then obtain tr where r: "reachable sha (ap_content app) tr" by blast
  have ok: "store_ok (ap_content app) (lit ''20261020_0037'') tr" by (rule reachable_store_ok [OF r newest_schema_moves])
  obtain tr' where "app_run (sv_sha env) (app, tr) (app', tr')"
    using service_step_run [OF served(2) ok newest_schema_moves] by blast
  then have "reachable sha (ap_content app') tr'"
    using r served(3) by (auto simp: reachable_def app_run_def intro: store_steps_trans)
  moreover have "service_rows sha (ap_content app')"
    using content_write_rows [OF service_step_write [OF served(2)]] served store_distinct [OF ok] by blast
  ultimately show ?case by blast
qed

section \<open>Files\<close>

text \<open>The tables of the Unicode database on printable ASCII text.\<close>

definition ascii_text_kept :: "unicode_data \<Rightarrow> bool" where
  "ascii_text_kept u \<longleftrightarrow>
     (\<forall>s. list_all (\<lambda>c. 32 \<le> c \<and> c < 127) s \<longrightarrow>
        uc_nfc u s = s \<and> uc_upper u s = map (\<lambda>c. if is_lower c then c - 32 else c) s)
     \<and> (\<forall>c. 32 \<le> c \<and> c < 127 \<longrightarrow>
        uc_category u c \<notin> {lit ''Cc'', lit ''Cf'', lit ''Cs'', lit ''Zl'', lit ''Zp''})"

lemma normalize_content_md:
  assumes "ascii_text_kept u"
  shows "normalize_file_name u (lit ''content.md'') = Inr (lit ''content.md'')"
proof -
  have p: "list_all (\<lambda>c. 32 \<le> c \<and> c < 127) (lit ''content.md'')" by code_simp
  have n: "uc_nfc u (lit ''content.md'') = lit ''content.md''" using assms p by (simp add: ascii_text_kept_def)
  have h: "hd (dot_parts (lit ''content.md'')) = lit ''content''" by code_simp
  have q: "list_all (\<lambda>c. 32 \<le> c \<and> c < 127) (lit ''content'')" by code_simp
  have up: "uc_upper u (lit ''content'') = lit ''CONTENT''"
  proof -
    have "map (\<lambda>c. if is_lower c then c - 32 else c) (lit ''content'') = lit ''CONTENT''" by code_simp
    then show ?thesis using assms q by (simp add: ascii_text_kept_def)
  qed
  have cat: "\<not> list_ex (\<lambda>c. uc_category u c \<in> {lit ''Cc'', lit ''Cf'', lit ''Cs'', lit ''Zl'', lit ''Zp''})
      (lit ''content.md'')"
    using assms p by (auto simp: ascii_text_kept_def list_ex_iff list_all_iff)
  have r: "int (length (lit ''content.md'')) \<le> MAX_RAW_FILENAME_CHARS" "lit ''content.md'' \<noteq> []"
    "lit ''content.md'' \<notin> {lit ''.'', lit ''..''}" "hd (lit ''content.md'') \<noteq> 32"
    "\<not> list_ex (\<lambda>part. part \<noteq> [] \<and> last part = 32) (dot_parts (lit ''content.md''))"
    "last (lit ''content.md'') \<noteq> 46" "\<not> list_ex (\<lambda>c. c \<in> set WINDOWS_FORBIDDEN) (lit ''content.md'')"
    "\<not> is_device_name (lit ''CONTENT'')"
    "case utf8_encode (lit ''content.md'') of None \<Rightarrow> False | Some b \<Rightarrow> int (length b) \<le> MAX_FILENAME_BYTES"
    by code_simp+
  show ?thesis using r cat by (auto simp: normalize_file_name_def Let_def n h up optionR_def split: option.splits)
qed

text \<open>The file of a Markdown Revision as the backup reads it.\<close>

lemma markdown_manifest:
  assumes u: "nfc_stable u" "ascii_text_kept u" and sha: "\<And>b. length (sha b) = 32"
    and b: "int (length b) \<le> MAX_MARKDOWN_BYTES"
  shows "build_file_manifest u sha [(lit ''content.md'', b)]
    = Inr \<lparr>fm_files = [manifest_file sha (lit ''content.md'') b], fm_total_size_bytes = int (length b),
        fm_snapshot_sha256 = snapshot_digest sha [manifest_file sha (lit ''content.md'') b]\<rparr>"
proof -
  have l: "int (length b) \<le> MAX_FILE_BYTES" "int (length b) \<le> MAX_PAGE_BYTES"
    using b by (simp_all add: MAX_MARKDOWN_BYTES_def MAX_FILE_BYTES_def MAX_PAGE_BYTES_def)
  have a: "accepted_upload u [(lit ''content.md'', b)] [(lit ''content.md'', b)]"
    using l normalize_content_md [OF u(2)] by (simp add: accepted_upload_def)
  have "build_file_manifest u sha [(lit ''content.md'', b)] = Inr (manifest_of sha [(lit ''content.md'', b)])"
    using a l by (auto simp: build_manifest_iff [OF u(1) sha] upload_size_def MAX_FILES_PER_PAGE_def)
  then show ?thesis by (simp add: manifest_of_def entries_of_def upload_size_def Let_def)
qed

lemma require_markdown_files:
  assumes u: "nfc_stable u" "ascii_text_kept u" and sha: "\<And>b. length (sha b) = 32"
    and rows: "revision_rows_sound sha db" and r: "r \<in> set (t_revisions db)"
  shows "require_files u sha db (r, Some (markdown_set r)) = Inr ()"
proof -
  have v: "new_revision_valid sha r" using rows r by (simp add: revision_rows_sound_def list_all_iff)
  obtain b where b: "rv_content_md r = Some b" "rv_content_size_bytes r = Some (int (length b))"
    "rv_content_sha256 r = Some (sha b)" "int (length b) \<le> MAX_MARKDOWN_BYTES" using new_revision_content [OF v] by blast
  have d: "distinct (map rev_key (t_revisions db))" using rows by (simp add: revision_rows_sound_def)
  have "filter (\<lambda>f. rf_key f = rev_key r) (map markdown_file (t_revisions db))
      = map markdown_file (filter (\<lambda>x. rev_key x = rev_key r) (t_revisions db))"
    by (simp add: filter_map comp_def markdown_file_def)
  then have f: "filter (\<lambda>f. rf_key f = rev_key r) (t_files db) = [markdown_file r]"
    using rows single_row [OF d r] by (simp add: revision_rows_sound_def)
  have "backup_files sha [] 0 [markdown_file r] = Inr [(lit ''content.md'', b)]"
    using b by (simp add: markdown_file_def MAX_FILES_PER_PAGE_def MAX_MARKDOWN_BYTES_def MAX_FILE_BYTES_def MAX_PAGE_BYTES_def)
  then show ?thesis
    using markdown_manifest [OF u sha b(4)] b
    by (simp add: require_files_def f markdown_set_def format_sound_def requireR_def)
qed

lemma with_markdown_sets:
  assumes "revision_rows_sound sha db"
  shows "with_file_sets db = map (\<lambda>r. (r, Some (markdown_set r))) (t_revisions db)"
proof -
  have d: "distinct (map rev_key (t_revisions db))" and s: "t_file_sets db = map markdown_set (t_revisions db)"
    using assms by (simp_all add: revision_rows_sound_def)
  have f: "filter (\<lambda>s. fs_key s = rev_key r) (t_file_sets db) = [markdown_set r]" if "r \<in> set (t_revisions db)" for r
  proof -
    have "filter (\<lambda>s. fs_key s = rev_key r) (map markdown_set (t_revisions db))
        = map markdown_set (filter (\<lambda>x. rev_key x = rev_key r) (t_revisions db))"
      by (simp add: filter_map comp_def markdown_set_def)
    then show ?thesis using single_row [OF d that] s by simp
  qed
  have "concat (map (\<lambda>r. case filter (\<lambda>s. fs_key s = rev_key r) (t_file_sets db) of
         [] \<Rightarrow> [(r, None)] | sets \<Rightarrow> map (\<lambda>s. (r, Some s)) sets) (t_revisions db))
      = concat (map (\<lambda>r. [(r, Some (markdown_set r))]) (t_revisions db))"
    by (rule arg_cong [where f = concat], rule map_cong) (simp_all add: f)
  then show ?thesis unfolding with_file_sets_def by simp
qed

lemma service_file_checks:
  assumes "nfc_stable u" "ascii_text_kept u" and sha: "\<And>b. length (sha b) = 32" and rows: "revision_rows_sound sha db"
  shows "require_manifested_revision_files u sha db = Inr ()" and "require_revision_seals db = Inr ()"
    and "list_all (content_sound sha) (t_revisions db)"
    and "source_key ` set (t_sources db) = rev_key ` set (t_revisions db)"
proof -
  have "length (t_revisions db) = length (t_file_sets db)" using rows by (simp add: revision_rows_sound_def)
  then show "require_manifested_revision_files u sha db = Inr ()"
    using require_markdown_files [OF assms]
    by (simp add: require_manifested_revision_files_def requireR_def require_each_Inr with_markdown_sets [OF rows])
  show "require_revision_seals db = Inr ()"
    using rows by (simp add: require_revision_seals_def revision_rows_sound_def require_none_def requireR_def)
  show "list_all (content_sound sha) (t_revisions db)"
    using rows new_revision_content by (fastforce simp: revision_rows_sound_def list_all_iff content_sound_def)
  have "set (map source_key (t_sources db)) = set (map rev_key (t_revisions db))"
    using rows by (simp add: revision_rows_sound_def)
  then show "source_key ` set (t_sources db) = rev_key ` set (t_revisions db)" by simp
qed

section \<open>Identifiers and counters\<close>

lemma canonical_count_one:
  assumes i: "identifier_rows_sound sha db" and d: "distinct (map page_key (t_pages db))" and p: "p \<in> set (t_pages db)"
  shows "canonical_count db p = 1"
proof -
  let ?f = "\<lambda>i. ((pi_library_id i, pi_page_uid i), pi_identifier_text i, pi_identifier_kind i)"
    and ?g = "\<lambda>p. (page_key p, pg_page_id p, lit ''canonical'')"
  have "canonical_count db p = length (filter (\<lambda>i. ?f i = ?g p) (t_identifiers db))"
    by (simp add: canonical_count_def page_key_def conj_ac)
  also have "\<dots> = length (filter (\<lambda>x. x = ?g p) (map ?f (t_identifiers db)))" by (simp add: filter_map comp_def)
  also have "\<dots> = length (filter (\<lambda>x. x = ?g p) (map ?g (t_pages db)))" using i by (simp only: identifier_rows_sound_def)
  also have "\<dots> = length (filter (\<lambda>q. ?g q = ?g p) (t_pages db))" by (simp add: filter_map comp_def)
  also have "filter (\<lambda>q. ?g q = ?g p) (t_pages db) = filter (\<lambda>q. pg_page_id q = pg_page_id p)
      (filter (\<lambda>q. page_key q = page_key p) (t_pages db))" by (simp add: conj_ac)
  finally show ?thesis using single_row [OF d p] by simp
qed

lemma service_identity_checks:
  assumes r: "reachable sha db tr" and rows: "service_rows sha db"
  shows "require_identities sha db (map (\<lambda>p. (page_key p, ps_occurred_at (hd (tr (page_key p))))) (t_pages db)) = Inr ()"
proof -
  let ?initials = "map (\<lambda>p. (page_key p, ps_occurred_at (hd (tr (page_key p))))) (t_pages db)"
  have ok: "store_ok db (lit ''20261020_0037'') tr" by (rule reachable_store_ok [OF r newest_schema_moves])
  note d = store_distinct [OF ok]
  have page: "page_identity_sound db ?initials p" if p: "p \<in> set (t_pages db)" for p
  proof -
    have s: "page_row_sound tr p" using reachable_rows_sound [OF r] p by (simp add: rows_sound_def)
    have "map_of ?initials (page_key p) = Some (ps_occurred_at (hd (tr (page_key p))))"
      by (rule map_of_is_SomeI) (use d p in \<open>auto simp: comp_def\<close>)
    moreover have "canonical_count db p = 1"
      using rows d p by (intro canonical_count_one [where sha = sha]) (simp_all add: service_rows_def)
    ultimately show ?thesis using s
      by (auto simp: page_identity_sound_def page_row_sound_def page_components_sound_def Let_def split: sum.splits)
  qed
  have c: "counter_rows_sound db" using rows by (simp add: service_rows_def)
  have counter: "counter_row_sound db c" if cm: "c \<in> set (t_counters db)" for c
  proof -
    let ?ps = "filter (\<lambda>p. page_counter_key p = counter_key c) (t_pages db)"
    have "counter_key c \<in> page_counter_key ` set (t_pages db)" using c cm by (auto simp: counter_rows_sound_def)
    then have ne: "map pg_collision_ordinal ?ps \<noteq> []" by (auto simp: filter_empty_conv)
    have "Max (set (map pg_collision_ordinal ?ps)) \<in> set (map pg_collision_ordinal ?ps)"
      using ne by (intro Max_in finite_set) (simp only: set_empty not_False_eq_True)
    then have "Max (set (map pg_collision_ordinal ?ps)) < cc_next_ordinal c"
      using c cm by (auto simp: counter_rows_sound_def)
    then show ?thesis by (simp add: counter_row_sound_def sql_fold_eq(2) [OF ne] del: set_map)
  qed
  have "list_all (identifier_row_sound sha) (t_identifiers db)"
    using rows by (simp add: service_rows_def identifier_rows_sound_def)
  moreover have "set (map page_counter_key (t_pages db)) = set (map counter_key (t_counters db))"
    using c by (simp add: counter_rows_sound_def)
  ultimately show ?thesis using page counter
    by (simp add: require_identities_def list_all_iff requireR_def)
qed

section \<open>The promises\<close>

text \<open>C7: every database that the archive service reaches - from no content, by added books, changed
  credentials and any served requests - passes all the checks of the backup validation on pages,
  Revisions, sources, files, seals, occurrence corrections, identifiers and collision counters.\<close>

theorem service_backup_accepted:
  assumes "service_reachable sha app" and "nfc_stable u" and "ascii_text_kept u" and "\<And>b. length (sha b) = 32"
  shows "require_page_graph u sha (ap_content app) = Inr ()"
proof -
  let ?db = "ap_content app"
  obtain tr where r: "reachable sha ?db tr" and rows: "service_rows sha ?db"
    using service_reachable_rows [OF assms(1)] by blast
  note p = reachable_page_checks [OF r]
  have rv: "revision_rows_sound sha ?db" using rows by (simp add: service_rows_def)
  note f = service_file_checks [OF assms(2,3,4) rv]
  have so: "revision_exists ?db (source_key s)" if "s \<in> set (t_sources ?db)" for s
    using f(4) that unfolding revision_exists_iff by blast
  have rs: "list_ex (\<lambda>s. source_key s = rev_key x) (t_sources ?db)" if "x \<in> set (t_revisions ?db)" for x
  proof -
    have "rev_key x \<in> source_key ` set (t_sources ?db)" using f(4) that by blast
    then show ?thesis by (auto simp: list_ex_iff)
  qed
  have "require_none (current_invalid ?db) (t_pages ?db) = Inr ()"
    "require_none (\<lambda>s. \<not> revision_exists ?db (source_key s)) (t_sources ?db) = Inr ()"
    "require_none (\<lambda>r. \<not> list_ex (\<lambda>s. source_key s = rev_key r) (t_sources ?db)) (t_revisions ?db) = Inr ()"
    using p(2) so rs by (simp_all add: require_none_Inr)
  then show ?thesis
    using f p(1,3) service_identity_checks [OF r rows] by (simp add: require_page_graph_def requireR_def)
qed

lemma sample_service_reachable:
  "service_reachable sample_sha \<lparr>ap_content = content4, ap_auth = auth_db4, ap_records = [new_record]\<rparr>"
proof -
  have s: "service_reachable sample_sha \<lparr>ap_content = empty_db, ap_auth = auth_db4, ap_records = []\<rparr>"
    by (rule service_reachable.start)
  have "add_book sample_book empty_db = Inr sample_content"
    by (simp add: add_book_def sample_content_def empty_db_def)
  then have "service_reachable sample_sha sample_app"
    using service_reachable.book [OF s] by (simp add: sample_app_def)
  then show ?thesis using service_reachable.served [OF _ service_step.created [OF sample_created]] by simp
qed

lemma ascii_unicode_kept: "ascii_text_kept ascii_unicode"
proof -
  have "ascii_category c \<notin> {lit ''Cc'', lit ''Cf'', lit ''Cs'', lit ''Zl'', lit ''Zp''}"
    if "32 \<le> c \<and> c < 127" for c
    using that by (simp add: ascii_category_def lit_def)
  then show ?thesis by (simp add: ascii_text_kept_def ascii_unicode_def)
qed

theorem service_backup_accepted_witness:
  "require_page_graph ascii_unicode sample_sha content4 = Inr ()"
  using service_backup_accepted [OF sample_service_reachable ascii_nfc_stable ascii_unicode_kept]
  by (simp add: sample_sha_def)

text \<open>C14: in every store that the content transactions reach a page row keeps the types and bounds of
  its columns, names a Revision that is stored under its own key, and its Revisions are numbered
  from 1 to the current one without a gap or a repetition.\<close>

theorem page_rows_well_formed:
  assumes "reachable sha db tr" and "p \<in> set (t_pages db)"
  shows "page_check p \<and> revision_exists db (current_key p)
    \<and> mset (page_numbers db (page_key p)) = mset [1 .. pg_current_revision_number p]"
proof -
  have ok: "store_ok db (lit ''20261020_0037'') tr" by (rule reachable_store_ok [OF assms(1) newest_schema_moves])
  have "page_check p" using reachable_rows_sound [OF assms(1)] assms(2) by (simp add: rows_sound_def page_row_sound_def)
  moreover have "revision_exists db (current_key p)"
    using reachable_page_checks(2) [OF assms(1)] assms(2) by (auto simp: current_invalid_def Let_def)
  ultimately show ?thesis using history_page_numbers(1) [OF store_page_history [OF ok assms(2)]] by simp
qed

theorem page_rows_well_formed_witness:
  "page_check sample_page2 \<and> revision_exists sample_db2 (current_key sample_page2)
   \<and> mset (page_numbers sample_db2 (page_key sample_page2)) = mset [1 .. 1]"
  using page_rows_well_formed [OF sample_reachable sample_page2_in]
  by (simp add: sample_page2_def sample_page_def)

text \<open>C15: the two readings of a page's occurrence corrections agree: in every store that the content
  transactions reach - requests of callers and of the administrator alike - the backup accepts every
  chain of corrections and reads from it, for each page, the declared time the page was created with.\<close>

theorem occurrence_graph_initials:
  assumes "reachable sha db tr"
  shows "require_occurrence_graph db
    = Inr (map (\<lambda>p. (page_key p, ps_occurred_at (hd (tr (page_key p))))) (t_pages db))"
  by (rule reachable_page_checks(3) [OF assms])

theorem occurrence_graph_initials_witness:
  "require_occurrence_graph sample_db2 = Inr [((sample_id, sample_uid), 0)]"
  using occurrence_graph_initials [OF sample_reachable]
  by (simp add: sample_db2_def sample_trace_def sample_keys) (simp add: state_of_page_def sample_page_def)

end
