(* ===== verification/EtagLookup.thy ===== *)
theory EtagLookup
  imports PageEtags BackupStore
begin

text \<open>
  The lookup of a state by the entity tag a client holds: \<open>match_active_etag\<close> of
  \<open>content/page_membership_history.py\<close>. Every state of a timeline has times a tag can be computed from,
  so the lookup computes the tag of each state it has to compare and does not fail on one.
\<close>

definition state_times_ok :: "page_state \<Rightarrow> bool" where
  "state_times_ok s \<longleftrightarrow> utc_in_range (ps_occurred_at s) \<and> 0 \<le> ps_updated_at s"

lemma page_state_times: "page_check p \<Longrightarrow> state_times_ok (state_of_page p)"
  by (simp add: page_check_def state_times_ok_def state_of_page_def occurrence_check_def utc_in_range_def)

lemma store_steps_times:
  assumes "store_steps sha (empty_db, \<lambda>_. []) y"
  shows "\<forall>k. \<forall>s \<in> set (snd y k). state_times_ok s"
  using assms unfolding store_steps_def
proof (induction rule: rtranclp_induct)
  case (step y z)
  obtain db tr db' tr' where y: "y = (db, tr)" "z = (db', tr')" by (cases y, cases z)
  have r: "reachable sha db' tr'"
    using step(1,2) unfolding reachable_def store_steps_def y(2) [symmetric] by (rule rtranclp.rtrancl_into_rtrancl)
  have pc: "p \<in> set (t_pages db') \<Longrightarrow> state_times_ok (state_of_page p)" for p
    using reachable_rows_sound [OF r] by (auto intro: page_state_times simp: rows_sound_def page_row_sound_def)
  from step(2) [unfolded y] show ?case
  proof cases
    case side
    then show ?thesis using step.IH by (simp add: y)
  next
    case (create p r i)
    then show ?thesis using step.IH pc [of p] create_rows_tables(1) [OF create(2)] by (auto simp: y simp del: split_paired_All)
  next
    case (change p new)
    then show ?thesis using step.IH pc [of new] by (auto simp: y simp del: split_paired_All)
  qed
qed simp

lemma trace_times_ok: "reachable sha db tr \<Longrightarrow> s \<in> set (tr k) \<Longrightarrow> state_times_ok s"
  using store_steps_times [of sha "(db, tr)"] unfolding reachable_def snd_conv by blast

lemma sorted_last_greatest:
  assumes "sorted_wrt (<) (map f xs)" "x \<in> set xs"
  shows "(f x :: int) \<le> f (last xs)"
proof -
  obtain ys z where xs: "xs = ys @ [z]" using assms(2) by (cases xs rule: rev_cases) auto
  show ?thesis using assms by (auto simp: xs sorted_wrt_append)
qed

lemma state_etag_computed:
  assumes "state_times_ok x" "ps_updated_at x \<le> MAX_I64" "etag_identity_ok uid (ps_revision_id x) (ps_revision_number x)"
  shows "\<exists>e. state_etag sha uid x = Inr e"
  using assms by (simp add: state_etag_def page_current_etag_def state_times_ok_def)

text \<open>C10: the state a client saw is found again by its tag. For every active state of a page's
  timeline, the lookup with the tag and the place of that state gives this state and no other, and
  computing the tags of the other states does not fail, unless the digest collides on the inputs of
  this tag and of another one of the timeline. The last update time has to fit the 64 bits of its
  column.\<close>

theorem match_active_etag_finds:
  assumes "reachable sha db tr" and "p \<in> set (t_pages db)" and "pg_updated_at p \<le> MAX_I64"
    and "schema \<in> set CALLER_MOVE_REVISIONS"
    and "load_page_state_timeline db schema (page_key p) = Inr t"
    and "s \<in> set (tl_states t)" and "ps_deleted_at s = None"
    and "state_etag sha (tl_page_uid t) s = Inr e"
    and col: "\<forall>x \<in> set (tl_states t).
      \<not> collides sha (state_etag_input (tl_page_uid t) x) (state_etag_input (tl_page_uid t) s)"
  shows "match_active_etag sha t (ps_revision_id s) (ps_revision_number s) e (ps_section_id s)
      (Some (ps_book_id s)) = Inr s"
proof -
  have ok: "store_ok db schema tr" by (rule reachable_store_ok [OF assms(1,4)])
  have t: "tl_states t = tr (page_key p)"
    using history_loads [OF store_page_history [OF ok assms(2)]] assms(5) by auto
  note last = store_trace_last [OF ok assms(2)]
  have d: "distinct (map ps_updated_at (tl_states t))" using last(3) t by (simp add: strict_sorted_iff)
  have bound: "ps_updated_at x \<le> MAX_I64" if "x \<in> set (tl_states t)" for x
    using sorted_last_greatest [OF last(3), of x] that last(2) t assms(3) by (simp add: state_of_page_def)
  have id: "etag_identity_ok (tl_page_uid t) (ps_revision_id s) (ps_revision_number s)"
    using assms(8) by (auto simp: state_etag_def page_current_etag_def split: if_splits)
  let ?same = "\<lambda>x. ps_deleted_at x = None \<and> ps_revision_id x = ps_revision_id s
      \<and> ps_revision_number x = ps_revision_number s \<and> ps_section_id x = ps_section_id s
      \<and> ps_book_id x = ps_book_id s"
  let ?P = "\<lambda>x. ?same x \<and> state_etag sha (tl_page_uid t) x = Inr e"
  have cond: "active_etag_matches sha (tl_page_uid t) (ps_revision_id s) (ps_revision_number s) e (ps_section_id s)
      (Some (ps_book_id s)) x = Inr (?P x)" if x: "x \<in> set (tl_states t)" for x
  proof (cases "?same x")
    case True
    then obtain e' where "state_etag sha (tl_page_uid t) x = Inr e'"
      using state_etag_computed [OF trace_times_ok [OF assms(1)] bound [OF x], of "page_key p" "tl_page_uid t" sha] x t id
      by auto
    then show ?thesis using True by (simp add: active_etag_matches_def)
  next
    case False
    then show ?thesis by (auto simp: active_etag_matches_def)
  qed
  have u: "x = s" if "x \<in> set (tl_states t)" "state_etag sha (tl_page_uid t) x = Inr e" for x
  proof -
    have "ps_updated_at x = ps_updated_at s"
      using etag_collision [OF that(2) [unfolded state_etag_def] assms(8) [unfolded state_etag_def]] col that(1)
      by (simp add: state_etag_input_def)
    then show ?thesis using d that(1) assms(6) by (auto simp: distinct_map inj_on_def)
  qed
  have "filter ?P (tl_states t) = [s]"
  proof (rule filter_one [OF assms(6)])
    show "?P s" using assms(7,8) by simp
    show "distinct (tl_states t)" using d by (simp add: distinct_map)
    show "x = s" if "x \<in> set (tl_states t)" "?P x" for x using u that by blast
  qed
  then show ?thesis using matching_filter [of "tl_states t", OF ballI [OF cond]] by (simp add: match_active_etag_def)
qed

theorem match_active_etag_finds_witness:
  "\<exists>t e. load_page_state_timeline sample_db2 (lit ''20261020_0037'') (page_key sample_page2) = Inr t
     \<and> match_active_etag tail_sha t (lit ''rev_'' @ sample_id) 1 e sample_id (Some sample_id)
          = Inr (state_of_page sample_page)"
proof -
  obtain t where t: "load_page_state_timeline sample_db2 (lit ''20261020_0037'') (page_key sample_page2) = Inr t"
    and st: "tl_states t = [state_of_page sample_page, state_of_page sample_page2]"
    and u: "tl_page_uid t = sample_uid"
    using history_loads [OF store_page_history [OF reachable_store_ok [OF sample_reachable [of tail_sha]
      sample_schema] sample_page2_in]]
    by (auto simp: sample_trace_def sample_page2_def sample_page_def page_key_def)
  have s: "state_of_page sample_page \<in> set (tl_states t)" by (simp add: st)
  have o: "etag_identity_ok sample_uid (lit ''rev_'' @ sample_id) 1" by code_simp
  obtain e where e: "state_etag tail_sha (tl_page_uid t) (state_of_page sample_page) = Inr e"
    using o by (auto simp: state_etag_def state_of_page_def page_current_etag_def sample_page_def u
        utc_in_range_def MIN_value MAX_value MAX_I64_def)
  have d: "ps_deleted_at (state_of_page sample_page) = None" by (simp add: state_of_page_def sample_page_def)
  have "tail_sha (state_etag_input sample_uid (state_of_page sample_page2))
      \<noteq> tail_sha (state_etag_input sample_uid (state_of_page sample_page))" by code_simp
  then have "\<forall>x \<in> set (tl_states t).
      \<not> collides tail_sha (state_etag_input (tl_page_uid t) x)
          (state_etag_input (tl_page_uid t) (state_of_page sample_page))"
    by (auto simp: st u collides_def)
  moreover have "pg_updated_at sample_page2 \<le> MAX_I64" by (simp add: sample_page2_def sample_page_def MAX_I64_def)
  ultimately have "match_active_etag tail_sha t (ps_revision_id (state_of_page sample_page))
      (ps_revision_number (state_of_page sample_page)) e (ps_section_id (state_of_page sample_page))
      (Some (ps_book_id (state_of_page sample_page))) = Inr (state_of_page sample_page)"
    by (intro match_active_etag_finds [OF sample_reachable sample_page2_in _ sample_schema t s d e])
  then show ?thesis using t by (auto simp: state_of_page_def sample_page_def)
qed

end
