(* ===== verification/CallerLifecycle.thy ===== *)
theory CallerLifecycle
  imports ArchiveService FileSets
begin

text \<open>
  Deleting and restoring a page by a caller with write permission for its Library:
  \<open>content/page_lifecycle_schemas.py\<close>, \<open>content/page_lifecycle_receipts.py\<close> and
  \<open>content/page_lifecycle_service.py\<close>, with the authorization of \<open>content/page_move_service.py\<close>. A
  receipt is a recorded success; it counts only while the history, the event and the audit row that
  it describes can all be found.
\<close>

text \<open>The exceptions of the caller-facing page services next to those of the stores.\<close>

datatype page_change_error =
    LifecycleVersionUnavailable
  | LifecycleStateConflict
  | LifecycleReplayCorrupt
  | MoveReplayCorrupt
  | ChangeStore archive_error

type_synonym 'a page_change = "page_change_error + 'a"

abbreviation changeE :: "'a sql \<Rightarrow> 'a page_change" where
  "changeE r \<equiv> mapE ChangeStore r"

section \<open>Commands\<close>

definition LIBRARY_DELETE_PAGE_ROUTE :: pystr where
  "LIBRARY_DELETE_PAGE_ROUTE = lit ''/api/v1/libraries/{library_id}/pages/{page_id}''"
definition LIBRARY_RESTORE_PAGE_ROUTE :: pystr where
  "LIBRARY_RESTORE_PAGE_ROUTE = LIBRARY_DELETE_PAGE_ROUTE @ lit ''/restore''"

definition LIBRARY_LIFECYCLE_REVISIONS :: "pystr list" where
  "LIBRARY_LIFECYCLE_REVISIONS =
     [lit ''20261003_0030'', lit ''20261018_0031'', lit ''20261019_0032'', lit ''20261019_0033'',
      lit ''20261020_0034'', lit ''20261020_0035'', lit ''20261020_0036'', lit ''20261020_0037'']"

record page_lifecycle_command =
  pc_library_id :: pystr
  pc_page_id :: pystr
  pc_action :: pystr
  pc_expected_etag :: pystr
  pc_request_id :: pystr

definition page_lifecycle_command_valid :: "page_lifecycle_command \<Rightarrow> bool" where
  "page_lifecycle_command_valid c \<longleftrightarrow>
     opaque_id (pc_library_id c) \<and> page_id_field (pc_page_id c)
     \<and> validate_page_id (pc_page_id c) = Inr (pc_page_id c)
     \<and> pc_action c \<in> {lit ''delete'', lit ''restore''} \<and> strong_page_etag (pc_expected_etag c)
     \<and> request_id_valid (pc_request_id c)"

definition lifecycle_route :: "pystr \<Rightarrow> pystr \<times> pystr" where
  "lifecycle_route action =
     (if action = DELETE then (lit ''DELETE'', LIBRARY_DELETE_PAGE_ROUTE)
      else (lit ''POST'', LIBRARY_RESTORE_PAGE_ROUTE))"

text \<open>The members of a valid command are ASCII, so that escaping other characters changes nothing.\<close>

definition library_lifecycle_json :: "page_lifecycle_command \<Rightarrow> json" where
  "library_lifecycle_json c = JObj
     [(lit ''library_id'', JStr (pc_library_id c)), (lit ''page_id'', JStr (pc_page_id c)),
      (lit ''action'', JStr (pc_action c)), (lit ''expected_etag'', JStr (pc_expected_etag c))]"

definition library_lifecycle_fingerprint :: "(bytes \<Rightarrow> bytes) \<Rightarrow> page_lifecycle_command \<Rightarrow> bytes sql" where
  "library_lifecycle_fingerprint sha c =
     bindR (utf8_bytes (json_dumps (library_lifecycle_json c))) (\<lambda>m.
       Inr (digest_request_fingerprint sha
         [map of_nat (lit ''caller-library-page-lifecycle-v1''), m]))"

text \<open>The key of the caller, within the Library it is at home in.\<close>

definition scoped_key_digest :: "(bytes \<Rightarrow> bytes) \<Rightarrow> pystr \<Rightarrow> bytes \<Rightarrow> pystr \<Rightarrow> bytes sql" where
  "scoped_key_digest sha domain key home =
     (if \<not> isascii home then Inl BadValue
      else Inr (digest_request_fingerprint sha [map of_nat domain, key, map of_nat home]))"

definition lifecycle_key_digest :: "(bytes \<Rightarrow> bytes) \<Rightarrow> bytes \<Rightarrow> pystr \<Rightarrow> bytes sql" where
  "lifecycle_key_digest sha key home =
     scoped_key_digest sha (lit ''caller-library-page-lifecycle-key-v1'') key home"

section \<open>The body of a success\<close>

record library_lifecycle_body =
  yb_library_id :: pystr
  yb_page_id :: pystr
  yb_section_id :: pystr
  yb_book_id :: pystr
  yb_state :: pystr
  yb_deleted_at :: "pystr option"
  yb_revision_id :: pystr
  yb_revision_number :: int
  yb_occurred_at :: pystr
  yb_original_updated_at :: pystr
  yb_updated_at :: pystr
  yb_request_etag :: pystr

definition library_lifecycle_body_valid :: "library_lifecycle_body \<Rightarrow> bool" where
  "library_lifecycle_body_valid b \<longleftrightarrow>
     opaque_id (yb_library_id b) \<and> page_id_field (yb_page_id b)
     \<and> validate_page_id (yb_page_id b) = Inr (yb_page_id b)
     \<and> opaque_id (yb_section_id b) \<and> opaque_id (yb_book_id b)
     \<and> yb_state b \<in> {lit ''active'', lit ''trashed''} \<and> optional canonical_time_field (yb_deleted_at b)
     \<and> revision_id_pattern (yb_revision_id b) \<and> number_field (yb_revision_number b)
     \<and> canonical_time_field (yb_occurred_at b) \<and> canonical_time_field (yb_original_updated_at b)
     \<and> canonical_time_field (yb_updated_at b) \<and> strong_page_etag (yb_request_etag b)"

definition library_lifecycle_body_json :: "library_lifecycle_body \<Rightarrow> json" where
  "library_lifecycle_body_json b = JObj
     [(lit ''library_id'', JStr (yb_library_id b)), (lit ''page_id'', JStr (yb_page_id b)),
      (lit ''section_id'', JStr (yb_section_id b)), (lit ''book_id'', JStr (yb_book_id b)),
      (lit ''state'', JStr (yb_state b)), (lit ''deleted_at'', json_optional JStr (yb_deleted_at b)),
      (lit ''revision_id'', JStr (yb_revision_id b)), (lit ''revision_number'', JInt (yb_revision_number b)),
      (lit ''occurred_at'', JStr (yb_occurred_at b)),
      (lit ''original_updated_at'', JStr (yb_original_updated_at b)),
      (lit ''updated_at'', JStr (yb_updated_at b)), (lit ''request_etag'', JStr (yb_request_etag b))]"

definition library_lifecycle_body_of :: "json \<Rightarrow> library_lifecycle_body option" where
  "library_lifecycle_body_of v =
     (case members [''library_id'', ''page_id'', ''section_id'', ''book_id'', ''state'', ''deleted_at'',
                    ''revision_id'', ''revision_number'', ''occurred_at'', ''original_updated_at'',
                    ''updated_at'', ''request_etag''] v of
        None \<Rightarrow> None
      | Some ms \<Rightarrow>
          (case (str_member ms ''library_id'', str_member ms ''page_id'', str_member ms ''section_id'',
                 str_member ms ''book_id'', str_member ms ''state'', optional_str_member ms ''deleted_at'',
                 str_member ms ''revision_id'', int_member ms ''revision_number'',
                 str_member ms ''occurred_at'', str_member ms ''original_updated_at'',
                 str_member ms ''updated_at'', str_member ms ''request_etag'') of
             (Some l, Some p, Some s, Some bk, Some st, Some d, Some r, Some n, Some oc, Some ou, Some u, Some e) \<Rightarrow>
               (let b = \<lparr>yb_library_id = l, yb_page_id = p, yb_section_id = s, yb_book_id = bk,
                        yb_state = st, yb_deleted_at = d, yb_revision_id = r, yb_revision_number = n,
                        yb_occurred_at = oc, yb_original_updated_at = ou, yb_updated_at = u,
                        yb_request_etag = e\<rparr>
                in if library_lifecycle_body_valid b then Some b else None)
           | _ \<Rightarrow> None))"

lemma library_lifecycle_body_round:
  "library_lifecycle_body_valid b \<Longrightarrow> library_lifecycle_body_of (library_lifecycle_body_json b) = Some b"
  by (cases b; cases "yb_deleted_at b")
    (simp_all add: library_lifecycle_body_of_def library_lifecycle_body_json_def member_simps
      json_optional_def Let_def)

section \<open>Receipts\<close>

text \<open>The page behind a public identifier, by the registry alone.\<close>

definition registered_page :: "(bytes \<Rightarrow> bytes) \<Rightarrow> content_db \<Rightarrow> pystr \<Rightarrow> pystr \<Rightarrow> bytes sql" where
  "registered_page sha db library page_id =
     bindR (registry_digest sha page_id) (\<lambda>digest.
     case find (\<lambda>i. pi_library_id i = library \<and> pi_identifier_digest i = digest
            \<and> pi_identifier_text i = page_id) (t_identifiers db) of
       None \<Rightarrow> Inl BadValue
     | Some i \<Rightarrow> Inr (pi_page_uid i))"

text \<open>The body of a record, whose bytes have to be those the body is written with.\<close>

definition canonical_body :: "service_env \<Rightarrow> (json \<Rightarrow> 'b option) \<Rightarrow> ('b \<Rightarrow> json) \<Rightarrow> bytes \<Rightarrow> 'b sql" where
  "canonical_body env read write bs =
     bindR (optionR BadValue (Option.bind (sv_parse env bs) read)) (\<lambda>b.
     if utf8_encode (sv_dump env (write b)) \<noteq> Some bs then Inl BadValue else Inr b)"

definition state_at :: "page_state_timeline \<Rightarrow> pystr \<Rightarrow> page_state sql" where
  "state_at t w = bindR (bad_value (parse_occurrence_time w)) (\<lambda>o'. exact_state t (utc_microseconds o'))"

definition lifecycle_states_match :: "library_lifecycle_body \<Rightarrow> pystr \<Rightarrow> page_state \<Rightarrow> page_state \<Rightarrow> bool" where
  "lifecycle_states_match b action before after \<longleftrightarrow>
     ps_updated_at before < ps_updated_at after
     \<and> ps_section_id before = ps_section_id after \<and> ps_section_id after = yb_section_id b
     \<and> ps_book_id before = ps_book_id after \<and> ps_book_id after = yb_book_id b
     \<and> ps_title before = ps_title after
     \<and> ps_revision_id before = ps_revision_id after \<and> ps_revision_id after = yb_revision_id b
     \<and> ps_revision_number before = ps_revision_number after
     \<and> ps_revision_number after = yb_revision_number b
     \<and> ps_occurred_at before = ps_occurred_at after \<and> wire (ps_occurred_at after) = Inr (yb_occurred_at b)
     \<and> (ps_deleted_at before = None) = (action = DELETE)
     \<and> ps_deleted_at after = (if action = DELETE then Some (ps_updated_at after) else None)
     \<and> yb_deleted_at b = (if action = DELETE then Some (yb_updated_at b) else None)"

definition lifecycle_events_match ::
  "content_db \<Rightarrow> idempotency_record \<Rightarrow> library_lifecycle_body \<Rightarrow> bytes \<Rightarrow> pystr \<Rightarrow> page_state \<Rightarrow> page_state \<Rightarrow> bool" where
  "lifecycle_events_match db x b uid action before after \<longleftrightarrow>
     map (\<lambda>e. (le_action e, le_section_id e, le_old_deleted_at e, le_old_updated_at e, le_at_revision_number e,
               le_occurred_at_at_event e, le_actor_caller_id e, le_actor_home_library_id e,
               le_request_id e, le_master_audit_event_id e))
       (filter (\<lambda>e. le_key e = (vc_library_id (ic_caller x), uid) \<and> le_changed_at e = ps_updated_at after)
         (t_lifecycle_events db))
     = [(action, yb_section_id b, ps_deleted_at before, ps_updated_at before, yb_revision_number b,
         ps_occurred_at before, Some (vc_caller_id (ic_caller x)),
         Some (vc_actor_home_library_id (ic_caller x)), or_request_id (ic_response x), None)]"

definition lifecycle_audits_match ::
  "app_db \<Rightarrow> idempotency_record \<Rightarrow> library_lifecycle_body \<Rightarrow> pystr \<Rightarrow> page_state \<Rightarrow> bool" where
  "lifecycle_audits_match app x b action after \<longleftrightarrow>
     concat (map (\<lambda>a. map (\<lambda>c. (au_actor_home_library_id a, au_actor_caller_id a, cr_caller_id c,
           cr_library_id c, au_resource_type a, au_outcome a))
         (filter (\<lambda>c. au_actor_credential_id a = Some (cr_id c)) (a_credentials (ap_auth app))))
       (filter (\<lambda>a. au_library_id a = vc_library_id (ic_caller x)
          \<and> au_action a = lit ''content.page.'' @ action \<and> au_resource_id a = yb_page_id b
          \<and> au_request_id a = or_request_id (ic_response x) \<and> au_occurred_at a = ps_updated_at after)
         (t_audits (ap_content app))))
     = [(Some (vc_actor_home_library_id (ic_caller x)), Some (vc_caller_id (ic_caller x)),
         vc_caller_id (ic_caller x), vc_actor_home_library_id (ic_caller x), lit ''page'',
         lit ''succeeded'')]"

definition lifecycle_receipt_command :: "idempotency_record \<Rightarrow> library_lifecycle_body \<Rightarrow> pystr \<Rightarrow> page_lifecycle_command" where
  "lifecycle_receipt_command x b action =
     \<lparr>pc_library_id = yb_library_id b, pc_page_id = yb_page_id b, pc_action = action,
      pc_expected_etag = yb_request_etag b, pc_request_id = or_request_id (ic_response x)\<rparr>"

definition lifecycle_record_matches ::
  "(bytes \<Rightarrow> bytes) \<Rightarrow> idempotency_record \<Rightarrow> library_lifecycle_body \<Rightarrow> pystr \<Rightarrow> page_state_timeline \<Rightarrow> bool" where
  "lifecycle_record_matches sha x b action t \<longleftrightarrow>
     (ir_method (ic_request x), ir_route_template (ic_request x)) = lifecycle_route action
     \<and> or_status (ic_response x) = 200 \<and> or_media_type (ic_response x) = lit ''application/json''
     \<and> or_location (ic_response x) = None
     \<and> yb_library_id b = vc_library_id (ic_caller x) \<and> yb_page_id b = tl_page_id t
     \<and> or_timestamp (ic_response x) = yb_updated_at b
     \<and> page_lifecycle_command_valid (lifecycle_receipt_command x b action)
     \<and> library_lifecycle_fingerprint sha (lifecycle_receipt_command x b action)
         = Inr (ir_request_fingerprint (ic_request x))"

definition lifecycle_receipt_body ::
  "service_env \<Rightarrow> app_db \<Rightarrow> idempotency_record \<Rightarrow> library_lifecycle_body sql" where
  "lifecycle_receipt_body env app x =
     (let sha = sv_sha env; db = ap_content app; library = vc_library_id (ic_caller x) in
      bindR (requireR (sv_schema env \<in> set LIBRARY_LIFECYCLE_REVISIONS) BadValue) (\<lambda>_.
      bindR (canonical_body env library_lifecycle_body_of library_lifecycle_body_json
               (or_body (ic_response x))) (\<lambda>b.
      bindR (registered_page sha db library (yb_page_id b)) (\<lambda>uid.
      bindR (load_page_state_timeline db (sv_schema env) (library, uid)) (\<lambda>t.
      bindR (state_at t (yb_original_updated_at b)) (\<lambda>before.
      bindR (state_at t (yb_updated_at b)) (\<lambda>after.
      let action = (if yb_state b = lit ''trashed'' then DELETE else lit ''restore'') in
      bindR (requireR (lifecycle_record_matches sha x b action t
          \<and> lifecycle_states_match b action before after
          \<and> state_etag sha uid before = Inr (yb_request_etag b)
          \<and> state_etag sha uid after = Inr (or_etag (ic_response x))) BadValue) (\<lambda>_.
      bindR (requireR (lifecycle_events_match db x b uid action before after) BadValue) (\<lambda>_.
      bindR (requireR (lifecycle_audits_match app x b action after) BadValue) (\<lambda>_.
      Inr b))))))))))"

definition validate_library_lifecycle_receipt ::
  "service_env \<Rightarrow> app_db \<Rightarrow> idempotency_record \<Rightarrow> library_lifecycle_body page_change" where
  "validate_library_lifecycle_receipt env app x =
     mapE (\<lambda>_. LifecycleReplayCorrupt) (lifecycle_receipt_body env app x)"

section \<open>The service\<close>

text \<open>Only an explicit policy with write permission for the Library counts, no Section grant.\<close>

definition authorize_page_move ::
  "(bytes \<Rightarrow> bytes) \<Rightarrow> bool \<Rightarrow> int \<Rightarrow> pystr \<Rightarrow> pystr \<Rightarrow> auth_db \<Rightarrow> (auth_db \<times> authenticated_caller) sql" where
  "authorize_page_move sha touch now token library db =
     bindR (authenticate sha (if touch then LAST_USED_COALESCE_MICROSECONDS else - 1) now token db) (\<lambda>(db', a).
     if ca_kind (ac_caller a) \<noteq> Agent then Inl AuthorizationFailed
     else
       bindR (resolve_library_policy db' (cr_id (ac_credential a)) (ca_id (ac_caller a))
                (ca_library_id (ac_caller a)) library now) (\<lambda>policy.
       case policy of
         None \<Rightarrow> Inl AuthenticationFailed
       | Some LegacySectionPolicy \<Rightarrow> Inl AuthorizationFailed
       | Some (LibraryGrantPolicy r w) \<Rightarrow>
           if policy_allows r w LibraryWrite then Inr (db', a) else Inl AuthorizationFailed))"

definition change_time :: "service_env \<Rightarrow> int sql" where
  "change_time env =
     (if sv_clock env < 0 then Inl BadValue
      else bindR (bad_value (canonical_utc_wire (sv_clock env))) (\<lambda>_. Inr (sv_clock env)))"

definition lifecycle_target ::
  "service_env \<Rightarrow> unicode_data \<Rightarrow> page_lifecycle_command \<Rightarrow> content_db \<Rightarrow> page page_change" where
  "lifecycle_target env u c db =
     bindR (changeE (get_page (sv_sha env) db (pc_library_id c) (pc_page_id c))) (\<lambda>found.
     if \<not> archive_page found then Inl (ChangeStore PageMoveNotFound)
     else
       let p = the found in
       bindR (changeE (page_etag (sv_sha env) p)) (\<lambda>etag.
       if etag \<noteq> pc_expected_etag c then Inl (ChangeStore PreconditionFailed)
       else if (pg_deleted_at p = None) \<noteq> (pc_action c = DELETE) then Inl LifecycleStateConflict
       else bindR (changeE (get_current_file_manifest u (sv_sha env) db p)) (\<lambda>_. Inr p)))"

definition lifecycle_response ::
  "service_env \<Rightarrow> page_lifecycle_command \<Rightarrow> page \<Rightarrow> page \<Rightarrow> original_response sql" where
  "lifecycle_response env c p updated =
     bindR (case pg_deleted_at updated of None \<Rightarrow> Inr None | Some d \<Rightarrow> bindR (wire d) (\<lambda>w. Inr (Some w))) (\<lambda>deleted.
     bindR (wire (pg_occurred_at p)) (\<lambda>occurred.
     bindR (wire (pg_updated_at p)) (\<lambda>original.
     bindR (wire (pg_updated_at updated)) (\<lambda>updated_at.
     bindR (checked library_lifecycle_body_valid
       \<lparr>yb_library_id = pg_library_id p, yb_page_id = pg_page_id p, yb_section_id = pg_section_id p,
        yb_book_id = pg_book_id p,
        yb_state = (if pg_deleted_at updated \<noteq> None then lit ''trashed'' else lit ''active''),
        yb_deleted_at = deleted, yb_revision_id = pg_current_revision_id p,
        yb_revision_number = pg_current_revision_number p, yb_occurred_at = occurred,
        yb_original_updated_at = original, yb_updated_at = updated_at,
        yb_request_etag = pc_expected_etag c\<rparr>) (\<lambda>body.
     bindR (utf8_bytes (sv_dump env (library_lifecycle_body_json body))) (\<lambda>bs.
     bindR (page_etag (sv_sha env) updated) (\<lambda>etag.
     checked response_valid \<lparr>or_status = 200, or_media_type = lit ''application/json'', or_body = bs,
       or_location = None, or_etag = etag, or_request_id = pc_request_id c,
       or_timestamp = updated_at\<rparr>)))))))"

text \<open>The transition, its audit row and its answer.\<close>

definition write_transition ::
  "service_env \<Rightarrow> int \<Rightarrow> page_lifecycle_command \<Rightarrow> authenticated_caller \<Rightarrow> page \<Rightarrow> auth_db \<Rightarrow> content_db
    \<Rightarrow> (content_db \<times> original_response) sql" where
  "write_transition env now c a p auth db =
     bindR (transition_page_lifecycle_row p (pc_action c) (Some (ca_id (ac_caller a)))
              (Some (ca_library_id (ac_caller a))) None (pc_request_id c) now db) (\<lambda>(db1, updated, event).
     bindR (add_audit_event auth
       (service_audit (sv_ids env 0) (pc_library_id c) a (lit ''content.page.'' @ pc_action c) (lit ''page'')
          (pg_page_id p) (pc_request_id c) (le_changed_at event)) db1) (\<lambda>db2.
     bindR (lifecycle_response env c p updated) (\<lambda>response.
     Inr (db2, response))))"

definition lifecycle_request ::
  "service_env \<Rightarrow> page_lifecycle_command \<Rightarrow> bytes \<Rightarrow> authenticated_caller
    \<Rightarrow> (validated_caller \<times> idempotency_request) sql" where
  "lifecycle_request env c key a =
     bindR (validated_scope (pc_library_id c) a) (\<lambda>scope.
     bindR (lifecycle_key_digest (sv_sha env) key (vc_actor_home_library_id scope)) (\<lambda>digest.
     bindR (library_lifecycle_fingerprint (sv_sha env) c) (\<lambda>fingerprint.
     bindR (make_request (fst (lifecycle_route (pc_action c))) (snd (lifecycle_route (pc_action c)))
              digest fingerprint) (\<lambda>request.
     Inr (scope, request)))))"

text \<open>The answer to a key that is already recorded.\<close>

definition replay_receipt ::
  "(app_db \<Rightarrow> idempotency_record \<Rightarrow> 'b page_change) \<Rightarrow> validated_caller \<Rightarrow> idempotency_request
    \<Rightarrow> original_response \<Rightarrow> app_db \<Rightarrow> (app_db \<times> original_response) page_change" where
  "replay_receipt validate scope request r app =
     bindR (changeE (get_record (ap_records app) scope request)) (\<lambda>stored.
     case stored of
       None \<Rightarrow> Inl (ChangeStore BadValue)
     | Some x \<Rightarrow> bindR (validate app x) (\<lambda>_. Inr (app, r)))"

text \<open>The record of a success, validated before the answer is given.\<close>

definition record_receipt ::
  "(app_db \<Rightarrow> idempotency_record \<Rightarrow> 'b page_change) \<Rightarrow> validated_caller \<Rightarrow> idempotency_request
    \<Rightarrow> original_response \<Rightarrow> app_db \<Rightarrow> (app_db \<times> original_response) page_change" where
  "record_receipt validate scope request response app =
     bindR (changeE (record_success (ap_auth app) (ap_records app) scope request response)) (\<lambda>(records, x).
     let app' = app\<lparr>ap_records := records\<rparr> in
     bindR (validate app' x) (\<lambda>_. Inr (app', response)))"

definition transition ::
  "service_env \<Rightarrow> unicode_data \<Rightarrow> pystr \<Rightarrow> page_lifecycle_command \<Rightarrow> bytes \<Rightarrow> app_db
    \<Rightarrow> (app_db \<times> original_response) page_change" where
  "transition env u token c key app =
     (if \<not> sv_in_transaction env then Inl (ChangeStore TransactionRequired)
      else if sv_schema env \<notin> set LIBRARY_LIFECYCLE_REVISIONS then Inl LifecycleVersionUnavailable
      else
        bindR (changeE (change_time env)) (\<lambda>now.
        bindR (changeE (authorize_page_move (sv_sha env) True now token (pc_library_id c) (ap_auth app))) (\<lambda>(auth, a).
        bindR (changeE (lifecycle_request env c key a)) (\<lambda>(scope, request).
        bindR (changeE (lookup_replay (ap_records app) scope request)) (\<lambda>found.
        case found of
          Some r \<Rightarrow> replay_receipt (validate_library_lifecycle_receipt env) scope request r (app\<lparr>ap_auth := auth\<rparr>)
        | None \<Rightarrow>
            bindR (lifecycle_target env u c (ap_content app)) (\<lambda>p.
            bindR (changeE (write_transition env now c a p auth (ap_content app))) (\<lambda>(db, response).
            record_receipt (validate_library_lifecycle_receipt env) scope request response
              (app\<lparr>ap_content := db, ap_auth := auth\<rparr>))))))))"

end
