(* ===== verification/CallerMoves.thy ===== *)
theory CallerMoves
  imports CallerLifecycle
begin

text \<open>
  Moving a page to another Book by a caller: \<open>content/page_move_schemas.py\<close>,
  \<open>content/page_move_receipts.py\<close> and \<open>content/page_move_service.py\<close>. The move is the one of
  \<open>content/page_move_core.py\<close>; a move to where the page already is changes nothing and is answered.
\<close>

section \<open>Commands\<close>

definition PAGE_MOVE_ROUTE_TEMPLATE :: pystr where
  "PAGE_MOVE_ROUTE_TEMPLATE = lit ''/api/v1/libraries/{library_id}/pages/{page_id}/move''"

record page_move_command =
  vm_source_section_id :: pystr
  vm_source_book_id :: pystr
  vm_target_section_id :: pystr
  vm_target_book_id :: pystr
  vm_library_id :: pystr
  vm_page_id :: pystr
  vm_expected_etag :: pystr
  vm_request_id :: pystr

definition page_move_command_valid :: "page_move_command \<Rightarrow> bool" where
  "page_move_command_valid c \<longleftrightarrow>
     list_all opaque_id [vm_source_section_id c, vm_source_book_id c, vm_target_section_id c,
       vm_target_book_id c, vm_library_id c]
     \<and> page_id_field (vm_page_id c) \<and> validate_page_id (vm_page_id c) = Inr (vm_page_id c)
     \<and> strong_page_etag (vm_expected_etag c) \<and> request_id_valid (vm_request_id c)"

definition page_move_json :: "page_move_command \<Rightarrow> json" where
  "page_move_json c = JObj
     [(lit ''source_section_id'', JStr (vm_source_section_id c)),
      (lit ''source_book_id'', JStr (vm_source_book_id c)),
      (lit ''target_section_id'', JStr (vm_target_section_id c)),
      (lit ''target_book_id'', JStr (vm_target_book_id c)),
      (lit ''library_id'', JStr (vm_library_id c)), (lit ''page_id'', JStr (vm_page_id c)),
      (lit ''expected_etag'', JStr (vm_expected_etag c))]"

definition move_fingerprint :: "(bytes \<Rightarrow> bytes) \<Rightarrow> page_move_command \<Rightarrow> bytes sql" where
  "move_fingerprint sha c =
     bindR (utf8_bytes (json_dumps (page_move_json c))) (\<lambda>m.
       Inr (digest_request_fingerprint sha [map of_nat (lit ''caller-page-move-v1''), m]))"

definition caller_move_key_digest :: "(bytes \<Rightarrow> bytes) \<Rightarrow> bytes \<Rightarrow> pystr \<Rightarrow> bytes sql" where
  "caller_move_key_digest sha key home = scoped_key_digest sha (lit ''caller-page-move-key-v1'') key home"

section \<open>The body of a success\<close>

record page_move_body =
  vb_source_section_id :: pystr
  vb_source_book_id :: pystr
  vb_target_section_id :: pystr
  vb_target_book_id :: pystr
  vb_changed :: bool
  vb_library_id :: pystr
  vb_page_id :: pystr
  vb_revision_id :: pystr
  vb_revision_number :: int
  vb_occurred_at :: pystr
  vb_original_updated_at :: pystr
  vb_updated_at :: pystr
  vb_request_etag :: pystr

definition page_move_body_valid :: "page_move_body \<Rightarrow> bool" where
  "page_move_body_valid b \<longleftrightarrow>
     list_all opaque_id [vb_source_section_id b, vb_source_book_id b, vb_target_section_id b,
       vb_target_book_id b, vb_library_id b]
     \<and> page_id_field (vb_page_id b) \<and> validate_page_id (vb_page_id b) = Inr (vb_page_id b)
     \<and> revision_id_pattern (vb_revision_id b) \<and> number_field (vb_revision_number b)
     \<and> canonical_time_field (vb_occurred_at b) \<and> canonical_time_field (vb_original_updated_at b)
     \<and> canonical_time_field (vb_updated_at b) \<and> strong_page_etag (vb_request_etag b)"

definition page_move_body_json :: "page_move_body \<Rightarrow> json" where
  "page_move_body_json b = JObj
     [(lit ''source_section_id'', JStr (vb_source_section_id b)),
      (lit ''source_book_id'', JStr (vb_source_book_id b)),
      (lit ''target_section_id'', JStr (vb_target_section_id b)),
      (lit ''target_book_id'', JStr (vb_target_book_id b)), (lit ''changed'', JBool (vb_changed b)),
      (lit ''library_id'', JStr (vb_library_id b)), (lit ''page_id'', JStr (vb_page_id b)),
      (lit ''revision_id'', JStr (vb_revision_id b)), (lit ''revision_number'', JInt (vb_revision_number b)),
      (lit ''occurred_at'', JStr (vb_occurred_at b)),
      (lit ''original_updated_at'', JStr (vb_original_updated_at b)),
      (lit ''updated_at'', JStr (vb_updated_at b)), (lit ''request_etag'', JStr (vb_request_etag b))]"

definition bool_member :: "(pystr \<times> json) list \<Rightarrow> string \<Rightarrow> bool option" where
  "bool_member ms k = (case map_of ms (lit k) of Some (JBool b) \<Rightarrow> Some b | _ \<Rightarrow> None)"

definition page_move_body_of :: "json \<Rightarrow> page_move_body option" where
  "page_move_body_of v =
     (case members [''source_section_id'', ''source_book_id'', ''target_section_id'', ''target_book_id'',
                    ''changed'', ''library_id'', ''page_id'', ''revision_id'', ''revision_number'',
                    ''occurred_at'', ''original_updated_at'', ''updated_at'', ''request_etag''] v of
        None \<Rightarrow> None
      | Some ms \<Rightarrow>
          (case (str_member ms ''source_section_id'', str_member ms ''source_book_id'',
                 str_member ms ''target_section_id'', str_member ms ''target_book_id'',
                 bool_member ms ''changed'', str_member ms ''library_id'', str_member ms ''page_id'',
                 str_member ms ''revision_id'', int_member ms ''revision_number'',
                 str_member ms ''occurred_at'', str_member ms ''original_updated_at'',
                 str_member ms ''updated_at'', str_member ms ''request_etag'') of
             (Some ss, Some sb, Some ts, Some tb, Some ch, Some l, Some p, Some r, Some n, Some oc, Some ou,
                Some u, Some e) \<Rightarrow>
               (let b = \<lparr>vb_source_section_id = ss, vb_source_book_id = sb, vb_target_section_id = ts,
                        vb_target_book_id = tb, vb_changed = ch, vb_library_id = l, vb_page_id = p,
                        vb_revision_id = r, vb_revision_number = n, vb_occurred_at = oc,
                        vb_original_updated_at = ou, vb_updated_at = u, vb_request_etag = e\<rparr>
                in if page_move_body_valid b then Some b else None)
           | _ \<Rightarrow> None))"

lemma page_move_body_round: "page_move_body_valid b \<Longrightarrow> page_move_body_of (page_move_body_json b) = Some b"
  by (cases b) (simp add: page_move_body_of_def page_move_body_json_def member_simps bool_member_def Let_def)

section \<open>Receipts\<close>

definition move_receipt_command :: "idempotency_record \<Rightarrow> page_move_body \<Rightarrow> page_move_command" where
  "move_receipt_command x b =
     \<lparr>vm_source_section_id = vb_source_section_id b, vm_source_book_id = vb_source_book_id b,
      vm_target_section_id = vb_target_section_id b, vm_target_book_id = vb_target_book_id b,
      vm_library_id = vb_library_id b, vm_page_id = vb_page_id b,
      vm_expected_etag = vb_request_etag b, vm_request_id = or_request_id (ic_response x)\<rparr>"

definition move_record_matches ::
  "(bytes \<Rightarrow> bytes) \<Rightarrow> idempotency_record \<Rightarrow> page_move_body \<Rightarrow> page_state_timeline \<Rightarrow> bool" where
  "move_record_matches sha x b t \<longleftrightarrow>
     ir_method (ic_request x) = lit ''POST'' \<and> ir_route_template (ic_request x) = PAGE_MOVE_ROUTE_TEMPLATE
     \<and> or_status (ic_response x) = 200 \<and> or_location (ic_response x) = None
     \<and> vb_library_id b = vc_library_id (ic_caller x) \<and> tl_page_id t = vb_page_id b
     \<and> page_move_command_valid (move_receipt_command x b)
     \<and> move_fingerprint sha (move_receipt_command x b) = Inr (ir_request_fingerprint (ic_request x))"

definition move_states_match :: "page_move_body \<Rightarrow> page_state \<Rightarrow> page_state \<Rightarrow> bool" where
  "move_states_match b source result \<longleftrightarrow>
     ps_deleted_at source = None \<and> ps_deleted_at result = None
     \<and> (ps_section_id source, ps_book_id source) = (vb_source_section_id b, vb_source_book_id b)
     \<and> (ps_section_id result, ps_book_id result) = (vb_target_section_id b, vb_target_book_id b)
     \<and> ps_revision_id source = ps_revision_id result \<and> ps_revision_id result = vb_revision_id b
     \<and> ps_revision_number source = ps_revision_number result
     \<and> ps_revision_number result = vb_revision_number b
     \<and> ps_occurred_at source = ps_occurred_at result
     \<and> map_sum (\<lambda>_. ()) utc_microseconds (parse_occurrence_time (vb_occurred_at b)) = Inr (ps_occurred_at source)
     \<and> ps_title source = ps_title result"

text \<open>The event of the move, joined with the audit row it names.\<close>

definition move_events_match ::
  "content_db \<Rightarrow> idempotency_record \<Rightarrow> page_move_body \<Rightarrow> bytes \<Rightarrow> page_state \<Rightarrow> page_state \<Rightarrow> bool" where
  "move_events_match db x b uid source result \<longleftrightarrow>
     concat (map (\<lambda>e. map (\<lambda>a.
           ((me_old_section_id e, me_old_book_id e, me_new_section_id e, me_new_book_id e),
            (me_old_updated_at e, me_at_revision_id e, me_at_revision_number e, me_occurred_at_at_event e),
            (au_library_id a, au_actor_home_library_id a, au_actor_caller_id a, au_action a),
            (au_resource_type a, au_resource_id a, au_outcome a, au_request_id a, au_occurred_at a)))
         (filter (\<lambda>a. me_caller_audit_event_id e = Some (au_id a)) (t_audits db)))
       (filter (\<lambda>e. me_key e = (vc_library_id (ic_caller x), uid) \<and> me_changed_at e = ps_updated_at result
          \<and> me_master_audit_event_id e = None) (t_move_events db)))
     = [((vb_source_section_id b, vb_source_book_id b, vb_target_section_id b, vb_target_book_id b),
         (ps_updated_at source, vb_revision_id b, vb_revision_number b, ps_occurred_at source),
         (vc_library_id (ic_caller x), Some (vc_actor_home_library_id (ic_caller x)),
          Some (vc_caller_id (ic_caller x)), lit ''content.page.move''),
         (lit ''page'', vb_page_id b, lit ''succeeded'', or_request_id (ic_response x),
          ps_updated_at result))]"

definition move_receipt_body :: "service_env \<Rightarrow> app_db \<Rightarrow> idempotency_record \<Rightarrow> page_move_body sql" where
  "move_receipt_body env app x =
     (let sha = sv_sha env; db = ap_content app; library = vc_library_id (ic_caller x) in
      bindR (canonical_body env page_move_body_of page_move_body_json (or_body (ic_response x))) (\<lambda>b.
      bindR (registered_page sha db library (vb_page_id b)) (\<lambda>uid.
      bindR (load_page_state_timeline db (sv_schema env) (library, uid)) (\<lambda>t.
      bindR (state_at t (vb_original_updated_at b)) (\<lambda>source.
      bindR (state_at t (vb_updated_at b)) (\<lambda>result.
      bindR (requireR (move_record_matches sha x b t \<and> move_states_match b source result
          \<and> state_etag sha uid source = Inr (vb_request_etag b)
          \<and> state_etag sha uid result = Inr (or_etag (ic_response x))) BadValue) (\<lambda>_.
      if vb_changed b then
        bindR (requireR (move_events_match db x b uid source result
            \<and> ps_updated_at source < ps_updated_at result) BadValue) (\<lambda>_. Inr b)
      else if source \<noteq> result then Inl BadValue
      else Inr b)))))))"

definition validate_caller_move_receipt ::
  "service_env \<Rightarrow> app_db \<Rightarrow> idempotency_record \<Rightarrow> page_move_body page_change" where
  "validate_caller_move_receipt env app x = mapE (\<lambda>_. MoveReplayCorrupt) (move_receipt_body env app x)"

section \<open>The service\<close>

definition move_request ::
  "service_env \<Rightarrow> page_move_command \<Rightarrow> bytes \<Rightarrow> authenticated_caller
    \<Rightarrow> (validated_caller \<times> idempotency_request) sql" where
  "move_request env c key a =
     bindR (validated_scope (vm_library_id c) a) (\<lambda>scope.
     bindR (caller_move_key_digest (sv_sha env) key (vc_actor_home_library_id scope)) (\<lambda>digest.
     bindR (move_fingerprint (sv_sha env) c) (\<lambda>fingerprint.
     bindR (make_request (lit ''POST'') PAGE_MOVE_ROUTE_TEMPLATE digest fingerprint) (\<lambda>request.
     Inr (scope, request)))))"

definition move_response :: "service_env \<Rightarrow> int \<Rightarrow> page_move_command \<Rightarrow> page_move_plan \<Rightarrow> original_response sql" where
  "move_response env now c plan =
     (let p = mp_page plan in
      bindR (wire (pg_occurred_at p)) (\<lambda>occurred.
      bindR (wire (pg_updated_at p)) (\<lambda>original.
      bindR (wire (mp_updated_at plan)) (\<lambda>updated_at.
      bindR (checked page_move_body_valid
        \<lparr>vb_source_section_id = vm_source_section_id c, vb_source_book_id = vm_source_book_id c,
         vb_target_section_id = vm_target_section_id c, vb_target_book_id = vm_target_book_id c,
         vb_changed = (mp_sequence plan \<noteq> None), vb_library_id = vm_library_id c,
         vb_page_id = vm_page_id c, vb_revision_id = pg_current_revision_id p,
         vb_revision_number = pg_current_revision_number p, vb_occurred_at = occurred,
         vb_original_updated_at = original, vb_updated_at = updated_at,
         vb_request_etag = vm_expected_etag c\<rparr>) (\<lambda>body.
      bindR (utf8_bytes (sv_dump env (page_move_body_json body))) (\<lambda>bs.
      bindR (page_current_etag (sv_sha env) (pg_page_uid p) (pg_current_revision_id p)
               (pg_current_revision_number p) (pg_occurred_at p) (mp_updated_at plan)) (\<lambda>etag.
      bindR (wire now) (\<lambda>timestamp.
      checked response_valid \<lparr>or_status = 200, or_media_type = lit ''application/json'', or_body = bs,
        or_location = None, or_etag = etag, or_request_id = vm_request_id c,
        or_timestamp = timestamp\<rparr>))))))))"

text \<open>The audit row of a move that changes something, the move, the answer.\<close>

definition write_page_move ::
  "service_env \<Rightarrow> int \<Rightarrow> page_move_command \<Rightarrow> authenticated_caller \<Rightarrow> page_move_plan \<Rightarrow> auth_db \<Rightarrow> content_db
    \<Rightarrow> (content_db \<times> original_response) sql" where
  "write_page_move env now c a plan auth db =
     bindR (if mp_sequence plan = None then Inr (db, None)
            else
              bindR (add_audit_event auth
                (service_audit (sv_ids env 0) (vm_library_id c) a (lit ''content.page.move'') (lit ''page'')
                   (vm_page_id c) (vm_request_id c) (mp_updated_at plan)) db) (\<lambda>db1.
              Inr (db1, Some (sv_ids env 0)))) (\<lambda>(db1, audit_id).
     bindR (apply_page_move plan None audit_id db1) (\<lambda>db2.
     bindR (move_response env now c plan) (\<lambda>response.
     Inr (db2, response))))"

definition move_page ::
  "service_env \<Rightarrow> pystr \<Rightarrow> page_move_command \<Rightarrow> bytes \<Rightarrow> app_db \<Rightarrow> (app_db \<times> original_response) page_change" where
  "move_page env token c key app =
     (if \<not> sv_in_transaction env then Inl (ChangeStore TransactionRequired)
      else
        bindR (changeE (change_time env)) (\<lambda>now.
        bindR (changeE (authorize_page_move (sv_sha env) True now token (vm_library_id c) (ap_auth app))) (\<lambda>(auth, a).
        bindR (changeE (move_request env c key a)) (\<lambda>(scope, request).
        bindR (changeE (lookup_replay (ap_records app) scope request)) (\<lambda>found.
        case found of
          Some r \<Rightarrow> replay_receipt (validate_caller_move_receipt env) scope request r (app\<lparr>ap_auth := auth\<rparr>)
        | None \<Rightarrow>
            bindR (changeE (prepare_page_move (sv_sha env) (ap_content app) (vm_library_id c) (vm_page_id c)
              (vm_source_section_id c, vm_source_book_id c) (vm_target_section_id c, vm_target_book_id c)
              (vm_expected_etag c) now)) (\<lambda>plan.
            bindR (changeE (write_page_move env now c a plan auth (ap_content app))) (\<lambda>(db, response).
            record_receipt (validate_caller_move_receipt env) scope request response
              (app\<lparr>ap_content := db, ap_auth := auth\<rparr>))))))))"

end
