(* ===== verification/ReceiptRows.thy ===== *)
theory ReceiptRows
  imports CallerMoves ArchiveBackups
begin

text \<open>
  The rows a receipt refers to: event rows and audit rows are never lost, the public identifiers of
  the pages stay distinct, and the statements of the services write one audit row each.
\<close>

section \<open>Event rows\<close>

definition events_grow :: "content_db \<Rightarrow> content_db \<Rightarrow> bool" where
  "events_grow db db' \<longleftrightarrow>
     set (t_lifecycle_events db) \<subseteq> set (t_lifecycle_events db')
     \<and> set (t_move_events db) \<subseteq> set (t_move_events db') \<and> set (t_audits db) \<subseteq> set (t_audits db')"

definition events_written :: "content_db \<Rightarrow> content_db \<Rightarrow> bool" where
  "events_written db db' \<longleftrightarrow> events_grow db db' \<and> t_audits db' = t_audits db"

lemma events_grow_refl [simp]: "events_grow db db"
  by (simp add: events_grow_def)

lemma events_grow_trans: "events_grow a b \<Longrightarrow> events_grow b c \<Longrightarrow> events_grow a c"
  by (auto simp: events_grow_def)

lemma events_written_trans: "events_written a b \<Longrightarrow> events_written b c \<Longrightarrow> events_written a c"
  using events_grow_trans by (auto simp: events_written_def)

lemma same_events_written:
  "t_lifecycle_events db' = t_lifecycle_events db \<Longrightarrow> t_move_events db' = t_move_events db
    \<Longrightarrow> t_audits db' = t_audits db \<Longrightarrow> events_written db db'"
  by (simp add: events_written_def events_grow_def)

lemma file_tables_events: "file_tables_only db db' \<Longrightarrow> events_written db db'"
  using file_tables_only_tables by (intro same_events_written) blast+

lemma record_events:
  "record_occurrence old new db = Inr db' \<Longrightarrow> events_written db db'"
  "record_lifecycle old new db = Inr db' \<Longrightarrow> events_written db db'"
  "record_title old new db = Inr db' \<Longrightarrow> events_written db db'"
  "record_move old new db = Inr db' \<Longrightarrow> events_written db db'"
  by (auto simp: record_occurrence_def record_lifecycle_def record_title_def record_move_def Let_def
      events_written_def events_grow_def split: if_splits option.splits list.splits)

lemma update_pages_events:
  assumes "update_pages c f db = Inr (db', n)"
  shows "events_written db db'"
proof (cases "find c (t_pages db)")
  case None
  then show ?thesis using assms by (simp add: update_pages_def events_written_def)
next
  case (Some old)
  let ?d = "clear_append_guard old (f old) (set_page (f old) db)"
  obtain d1 d2 d3 where d: "record_occurrence old (f old) ?d = Inr d1" "record_lifecycle old (f old) d1 = Inr d2"
    "record_title old (f old) d2 = Inr d3" "record_move old (f old) d3 = Inr db'"
    using assms Some by (auto simp: update_pages_def Let_def result_simps split: if_splits)
  have "events_written db ?d" by (rule same_events_written) (simp_all add: clear_append_guard_def)
  then show ?thesis using d record_events events_written_trans by meson
qed

lemma insert_revision_events:
  assumes "insert_revision r db = Inr db'"
  shows "events_written db db'"
  using file_tables_only_tables [OF insert_revision_Inr(1) [OF assms]] by (intro same_events_written) simp_all

lemma add_file_set_revision_events:
  assumes "add_file_set_revision p rid at m db = Inr db'"
  shows "events_written db db'"
proof -
  obtain d1 d2 d3 r s fs k where "insert_revision r db = Inr d1" "insert_file_set s d1 = Inr d2"
    "insert_files fs d2 = Inr d3" "insert_seal k d3 = Inr db'"
    using assms by (rule add_file_set_revision_writes)
  then show ?thesis
    using insert_revision_events file_tables_events insert_file_set_tables insert_files_tables insert_seal_tables
      events_written_trans by meson
qed

lemma guards_only_events: "guards_only db db' \<Longrightarrow> events_written db db'"
proof -
  assume "guards_only db db'"
  note e = arg_cong [OF this [unfolded guards_only_def]]
  show ?thesis
    using e [of t_lifecycle_events] e [of t_move_events] e [of t_audits] by (intro same_events_written) simp_all
qed

lemma page_transaction_events: "page_transaction p db db' \<Longrightarrow> events_written db db'"
  by (erule page_transaction_writes)
    (metis update_pages_events insert_revision_events add_file_set_revision_events guards_only_events
      events_written_trans)

lemma create_rows_events:
  assumes "create_rows sha p r i db = Inr db'"
  shows "events_written db db'"
proof -
  obtain d1 d2 where d: "insert_page p db = Inr d1" "insert_revision r d1 = Inr d2" "insert_identifier i d2 = Inr db'"
    using assms by (auto simp: create_rows_def add_page_def add_revision_def add_identifier_def result_simps
        split: if_splits)
  have "events_written db d1" "events_written d2 db'" using d(1,3)
    by (auto simp: insert_page_def insert_identifier_def Let_def split: if_splits intro!: same_events_written)
  then show ?thesis using insert_revision_events [OF d(2)] events_written_trans by blast
qed

lemma side_statement_events:
  assumes "side_statement db db'"
  shows "events_grow db db'"
  using assms
proof cases
  case (file_set s)
  then show ?thesis using file_tables_events [OF insert_file_set_tables] by (simp add: events_written_def)
next
  case (stored_file f)
  then show ?thesis using file_tables_events [OF insert_file_tables] by (simp add: events_written_def)
next
  case (seal k)
  then show ?thesis using file_tables_events [OF insert_seal_tables] by (simp add: events_written_def)
qed (auto simp: add_book_def add_identifier_def insert_identifier_def add_source_row_def insert_source_def
    add_collision_counter_def insert_counter_def advance_collision_counter_def update_counter_def insert_audit_def
    insert_master_audit_def Let_def result_simps events_grow_def split: if_splits)

section \<open>Public identifiers\<close>

definition page_place :: "page \<Rightarrow> pystr \<times> pystr" where
  "page_place p = (pg_library_id p, pg_page_id p)"

definition places_distinct :: "content_db \<Rightarrow> bool" where
  "places_distinct db \<longleftrightarrow> distinct (map page_place (t_pages db))"

lemma same_places:
  assumes "map page_identity (t_pages db') = map page_identity (t_pages db)"
  shows "map page_place (t_pages db') = map page_place (t_pages db)"
  using arg_cong [OF assms, of "map (\<lambda>(k, i, _). (fst k, i))"]
  by (simp add: page_identity_def page_place_def [abs_def] page_key_def comp_def)

lemma store_step_receipts:
  assumes s: "store_step sha (db, tr) (db', tr')" and ok: "store_ok db schema tr"
  shows "events_grow db db'" and "places_distinct db \<Longrightarrow> places_distinct db'"
proof -
  have "events_grow db db' \<and> (places_distinct db \<longrightarrow> places_distinct db')"
    using s
  proof cases
    case side
    then show ?thesis using side_statement_events side_statement_neutral [OF side(2) ok]
      by (simp add: places_distinct_def history_neutral_def)
  next
    case (create p r i)
    then obtain d1 where "insert_page p db = Inr d1"
      by (auto simp: create_rows_def add_page_def result_simps split: if_splits)
    then have "page_place p \<notin> page_place ` set (t_pages db)"
      by (auto simp: insert_page_def list_ex_iff page_place_def Let_def split: if_splits)
    then show ?thesis using create_rows_tables(1) [OF create(2)] create_rows_events [OF create(2)]
      by (simp add: places_distinct_def events_written_def)
  next
    case (change p new)
    obtain c f d1 where "t_pages d1 = t_pages db" "update_pages c f d1 = Inr (db', 1)"
      using page_transaction_update [OF change(2)] by blast
    then have "map page_identity (t_pages db') = map page_identity (t_pages db)"
      using update_pages_same_rows store_distinct [OF ok] by (fastforce simp: same_rows_def)
    from same_places [OF this] show ?thesis
      using page_transaction_events [OF change(2)] by (simp add: places_distinct_def events_written_def)
  qed
  then show "events_grow db db'" "places_distinct db \<Longrightarrow> places_distinct db'" by blast+
qed

lemma store_steps_receipts:
  assumes "store_steps sha (db, tr) (db', tr')" and ok: "store_ok db schema tr"
    and sch: "schema \<in> set CALLER_MOVE_REVISIONS" and d: "places_distinct db"
  shows "events_grow db db' \<and> places_distinct db' \<and> store_ok db' schema tr'"
  using assms(1)
proof (induction rule: store_steps_induct)
  case refl
  then show ?case using ok d by simp
next
  case (step d t d' t')
  then show ?case
    using store_step_receipts [OF step(2)] store_step_ok [OF step(2) _ sch] events_grow_trans by blast
qed

lemma reachable_places: "reachable sha db tr \<Longrightarrow> places_distinct db"
  using store_steps_receipts [OF _ empty_store_ok newest_schema_moves]
  by (simp add: reachable_def places_distinct_def empty_db_def)

section \<open>The audit row of a request\<close>

lemma add_audit_Inr:
  "add_audit_event auth a db = Inr db' \<Longrightarrow> t_audits db' = t_audits db @ [a] \<and> t_pages db' = t_pages db
    \<and> audit_references auth a"
  by (auto simp: add_audit_event_def insert_audit_def split: if_splits)

lemma counters_audits:
  "first_page_id sha library occ title c n ordinal db = Inr (db', g) \<Longrightarrow> t_audits db' = t_audits db"
  "next_page_id sha library occ title n c db = Inr (db', g) \<Longrightarrow> t_audits db' = t_audits db"
proof (induction n arbitrary: ordinal c db)
  case (Suc n)
  {
    case 1
    then show ?case using Suc.IH(1)
      by (auto simp: Let_def add_collision_counter_def insert_counter_def split: if_splits elim!: bindR_InrE)
  next
    case 2
    then obtain db1 c1 candidate taken where a: "advance_collision_counter c (cc_next_ordinal c + 1) db = Inr (db1, Some c1)"
      and t: "(if taken then next_page_id sha library occ title n c1 db1 else Inr (db1, candidate)) = Inr (db', g)"
      by (auto simp: Let_def split: if_splits option.splits elim!: bindR_InrE)
    have "t_audits db1 = t_audits db" using a
      by (auto simp: advance_collision_counter_def update_counter_def result_simps split: if_splits)
    then show ?case using t Suc.IH(2) by (auto split: if_splits)
  }
qed simp_all

lemma allocate_page_id_audits: "allocate_page_id env library title at db = Inr (db', g) \<Longrightarrow> t_audits db' = t_audits db"
  by (auto simp: allocate_page_id_def Let_def split: option.splits elim!: bindR_InrE dest: counters_audits)

lemma add_source_audits: "add_source env source library uid r at db = Inr (db', s) \<Longrightarrow> t_audits db' = t_audits db"
  by (auto simp: add_source_def add_source_row_def insert_source_def Let_def split: if_splits elim!: bindR_InrE)

definition PAGE_ACTIONS :: "pystr list" where
  "PAGE_ACTIONS = [lit ''content.page.delete'', lit ''content.page.restore'']"

definition one_audit :: "content_db \<Rightarrow> content_db \<Rightarrow> bool" where
  "one_audit db db' \<longleftrightarrow> (\<exists>as. t_audits db' = t_audits db @ as \<and> (\<forall>a \<in> set as. au_action a \<notin> set PAGE_ACTIONS))"

lemma page_actions [simp]:
  "lit ''content.archive.'' @ s \<notin> set PAGE_ACTIONS" "lit ''content.archive.create'' \<notin> set PAGE_ACTIONS"
  "lit ''content.archive.revise'' \<notin> set PAGE_ACTIONS" "lit ''content.archive.correct_occurrence'' \<notin> set PAGE_ACTIONS"
  "lit ''content.page.move'' \<notin> set PAGE_ACTIONS"
  by (simp_all add: PAGE_ACTIONS_def lit_def)

lemma one_auditI:
  "t_audits d = t_audits db \<Longrightarrow> add_audit_event auth a d = Inr db' \<Longrightarrow> au_action a \<notin> set PAGE_ACTIONS \<Longrightarrow> one_audit db db'"
  using add_audit_Inr by (fastforce simp: one_audit_def)

lemma written_audits: "events_written a b \<Longrightarrow> t_audits b = t_audits a"
  by (simp add: events_written_def)

lemma content_write_audits:
  assumes "content_write env db db'"
  shows "one_audit db db'"
  using assms
proof cases
  case unchanged
  then show ?thesis by (simp add: one_audit_def)
next
  case (created at c book a auth p r s citation audit response)
  obtain db1 db4 db5 g content digest uid rid where
    w: "allocate_page_id env (cm_library_id c) (cm_title c) (case cm_occurred_at c of None \<Rightarrow> at | Some t \<Rightarrow> t) db = Inr (db1, g)"
    "create_rows (sv_sha env) p r (canonical_identifier (cm_library_id c) (pg_page_id p) digest uid at) db1 = Inr db4"
    "add_source env (cm_source c) (cm_library_id c) uid r at db4 = Inr (db5, s)"
    and x: "audit = service_audit (sv_ids env 1) (cm_library_id c) a (lit ''content.archive.create'') (lit ''page'')
            (pg_page_id p) (cm_request_id c) at" "add_audit_event auth audit db5 = Inr db'"
    by (rule insert_archive_Inr [OF created])
  have "t_audits db5 = t_audits db"
    using allocate_page_id_audits [OF w(1)] written_audits [OF create_rows_events [OF w(2)]] add_source_audits [OF w(3)]
    by simp
  then show ?thesis by (rule one_auditI [OF _ x(2)]) (simp add: x(1) service_audit_def)
next
  case (appended ca p at t a auth p' r s citation audit response)
  then obtain rid db1 db2 db3 where w: "add_revision r db = Inr db1"
    "advance_current_revision p r t db1 = Inr (db2, Some p')"
    "add_source env (am_source ca) (am_library_id ca) (pg_page_uid p) r at db2 = Inr (db3, s)"
    "add_audit_event auth (service_audit (sv_ids env 1) (am_library_id ca) a (lit ''content.archive.revise'')
       (lit ''revision'') (rv_revision_id r) (am_request_id ca) at) db3 = Inr db'"
    unfolding insert_appended_def Let_def
    by (auto elim!: bindR_InrE split: option.splits simp del: One_nat_def)
  obtain c f n where "update_pages c f db1 = Inr (db2, n)"
    using w(2) by (auto simp: advance_current_revision_def Let_def result_simps split: if_splits)
  then have "t_audits db3 = t_audits db"
    using w update_pages_events insert_revision_events written_audits add_source_audits
    unfolding add_revision_def by metis
  from one_auditI [OF this w(4)] show ?thesis by (simp add: service_audit_def)
next
  case (corrected at co p a auth response)
  then obtain command db1 updated row x where u: "correct_occurrence_row p command db = Inr (db1, updated, row)"
    and x: "add_audit_event auth (service_audit (sv_ids env 0) (pg_library_id p) a
       (lit ''content.archive.correct_occurrence'') (lit ''page'') (pg_page_id p) (om_request_id co) x) db1 = Inr db'"
    unfolding insert_corrected_def Let_def by (auto elim!: bindR_InrE)
  show ?thesis
    using one_auditI [OF written_audits [OF page_transaction_events [OF page_transaction.correct [OF u]]] x]
    by (simp add: service_audit_def)
next
  case (transitioned at cl action p a auth response)
  then obtain db1 updated event x where
    u: "transition_page_lifecycle_row p action (Some (ca_id (ac_caller a))) (Some (ca_library_id (ac_caller a)))
        None (lm_request_id cl) at db = Inr (db1, updated, event)"
    and x: "add_audit_event auth (service_audit (sv_ids env 0) (pg_library_id p) a (lit ''content.archive.'' @ action)
       (lit ''page'') (pg_page_id p) (lm_request_id cl) x) db1 = Inr db'"
    unfolding insert_transition_def Let_def by (auto elim!: bindR_InrE)
  show ?thesis
    using one_auditI [OF written_audits [OF page_transaction_events [OF page_transaction.lifecycle [OF u]]] x]
    by (simp add: service_audit_def)
qed

end
