(* ===== verification/CallerReceipts.thy ===== *)
theory CallerReceipts
  imports ReceiptRows AuthTheorems
begin

text \<open>
  A receipt that is valid stays valid: the history it reads only grows, its event and its audit row are
  the only ones of their time, and the credential of its actor keeps its caller.
\<close>

section \<open>One row at a time\<close>

lemma strict_times_distinct: "sorted_wrt (<) (map f (sort_key g xs)) \<Longrightarrow> distinct (map (f :: 'a \<Rightarrow> int) xs)"
proof -
  assume "sorted_wrt (<) (map f (sort_key g xs))"
  then have "distinct (map f (sort_key g xs))" by (simp only: strict_sorted_iff)
  moreover have "mset (map f (sort_key g xs)) = mset (map f xs)" by simp
  ultimately show ?thesis by (metis mset_eq_imp_distinct_iff)
qed

lemma history_operation_times:
  assumes "history db schema k p tr"
  shows "distinct (map op_time (page_ops db schema k))"
    and "\<forall>x \<in> set (page_ops db schema k). op_time x \<le> pg_updated_at p"
proof -
  obtain states q where r: "replay db k (pg_page_id p) (first_state db schema k p, no_sequences)
      (sort_key op_time (page_ops db schema k)) = Inr (states, state_of_page p, q)"
    using assms by (auto simp: history_def)
  show "distinct (map op_time (page_ops db schema k))" using replay_times(1) [OF r] by (rule strict_times_distinct)
  show "\<forall>x \<in> set (page_ops db schema k). op_time x \<le> pg_updated_at p"
    using replay_times(2) [OF r] by (simp add: state_of_page_def)
qed

lemma sorted_rows_distinct: "distinct (map f (sort_key g xs)) \<longleftrightarrow> distinct (map f xs)"
  by (rule mset_eq_imp_distinct_iff) simp

lemma history_event_times:
  assumes h: "history db schema k p tr" and sch: "schema \<in> set CALLER_MOVE_REVISIONS"
  shows "distinct (map le_changed_at (filter (\<lambda>e. le_key e = k) (t_lifecycle_events db)))"
    and "distinct (map me_changed_at (filter (\<lambda>e. me_key e = k) (t_move_events db)))"
    and "\<forall>e \<in> set (t_lifecycle_events db). le_key e = k \<longrightarrow> le_changed_at e \<le> pg_updated_at p"
    and "\<forall>e \<in> set (t_move_events db). me_key e = k \<longrightarrow> me_changed_at e \<le> pg_updated_at p"
proof -
  have m: "moves_of db schema k = sort_key me_sequence (filter (\<lambda>e. me_key e = k) (t_move_events db))"
    using sch by (simp add: moves_of_def MOVE_REVISIONS_def)
  have "distinct (map (op_time \<circ> OpLifecycle) (lifecycle_of db k))" "distinct (map (op_time \<circ> OpMove) (moves_of db schema k))"
    using history_operation_times(1) [OF h] by (simp_all add: page_ops_def operations_of_def)
  then show "distinct (map le_changed_at (filter (\<lambda>e. le_key e = k) (t_lifecycle_events db)))"
    "distinct (map me_changed_at (filter (\<lambda>e. me_key e = k) (t_move_events db)))"
    by (simp_all add: m comp_def lifecycle_of_def sorted_rows_distinct)
  show "\<forall>e \<in> set (t_lifecycle_events db). le_key e = k \<longrightarrow> le_changed_at e \<le> pg_updated_at p"
  proof (intro ballI impI)
    fix e assume "e \<in> set (t_lifecycle_events db)" "le_key e = k"
    then have "OpLifecycle e \<in> set (page_ops db schema k)" by (simp add: page_ops_def operations_of_def lifecycle_of_def)
    then show "le_changed_at e \<le> pg_updated_at p" using history_operation_times(2) [OF h] by fastforce
  qed
  show "\<forall>e \<in> set (t_move_events db). me_key e = k \<longrightarrow> me_changed_at e \<le> pg_updated_at p"
  proof (intro ballI impI)
    fix e assume "e \<in> set (t_move_events db)" "me_key e = k"
    then have "OpMove e \<in> set (page_ops db schema k)" by (simp add: page_ops_def operations_of_def m)
    then show "me_changed_at e \<le> pg_updated_at p" using history_operation_times(2) [OF h] by fastforce
  qed
qed

lemma single_filtered:
  assumes "distinct (map f (filter P xs))" "x \<in> set xs" "P x"
  shows "filter (\<lambda>y. P y \<and> f y = f x) xs = [x]"
proof -
  have "filter (\<lambda>y. f y = f x) (filter P xs) = [x]" by (rule single_row [OF assms(1)]) (simp add: assms)
  then show ?thesis by (simp only: filter_filter)
qed

lemma event_found:
  assumes ok: "store_ok db schema tr" and sch: "schema \<in> set CALLER_MOVE_REVISIONS" and p: "p \<in> set (t_pages db)"
  shows "e \<in> set (t_lifecycle_events db) \<Longrightarrow> le_key e = page_key p
      \<Longrightarrow> filter (\<lambda>x. le_key x = page_key p \<and> le_changed_at x = le_changed_at e) (t_lifecycle_events db) = [e]"
    and "v \<in> set (t_move_events db) \<Longrightarrow> me_key v = page_key p
      \<Longrightarrow> filter (\<lambda>x. me_key x = page_key p \<and> me_changed_at x = me_changed_at v) (t_move_events db) = [v]"
  using single_filtered [OF history_event_times(1) [OF store_page_history [OF ok p] sch]]
    single_filtered [OF history_event_times(2) [OF store_page_history [OF ok p] sch]] by blast+

section \<open>Audit rows of a page\<close>

definition audit_place :: "audit_event \<Rightarrow> pystr \<times> pystr \<times> int" where
  "audit_place a = (au_library_id a, au_resource_id a, au_occurred_at a)"

definition page_audit :: "audit_event \<Rightarrow> bool" where
  "page_audit a \<longleftrightarrow> au_action a \<in> set PAGE_ACTIONS"

text \<open>An audit row of a deletion or restoration is of a page, no later than its clock, and alone.\<close>

definition audits_tied :: "content_db \<Rightarrow> bool" where
  "audits_tied db \<longleftrightarrow>
     (\<forall>a \<in> set (t_audits db). page_audit a \<longrightarrow>
        (\<exists>q \<in> set (t_pages db). page_place q = (au_library_id a, au_resource_id a)
           \<and> au_occurred_at a \<le> pg_updated_at q))
     \<and> distinct (map audit_place (filter page_audit (t_audits db)))"

lemma page_advanced:
  assumes "pages_advance db db'" "q \<in> set (t_pages db)"
  obtains q' where "q' \<in> set (t_pages db')" "page_place q' = page_place q" "pg_updated_at q \<le> pg_updated_at q'"
    "page_key q' = page_key q"
  using assms by (fastforce simp: pages_advance_def page_place_def page_key_def)

lemma audits_tied_kept:
  assumes t: "audits_tied db" and o: "one_audit db db'" and p: "pages_advance db db'"
  shows "audits_tied db'"
proof -
  obtain as where as: "t_audits db' = t_audits db @ as" "\<forall>a \<in> set as. \<not> page_audit a"
    using o by (auto simp: one_audit_def page_audit_def)
  have "filter page_audit (t_audits db') = filter page_audit (t_audits db)" using as by (simp add: filter_empty_conv)
  moreover have "\<exists>q \<in> set (t_pages db'). page_place q = (au_library_id a, au_resource_id a)
      \<and> au_occurred_at a \<le> pg_updated_at q" if "a \<in> set (t_audits db')" "page_audit a" for a
  proof -
    have "a \<in> set (t_audits db)" using that as by auto
    then obtain q where "q \<in> set (t_pages db)" "page_place q = (au_library_id a, au_resource_id a)"
      "au_occurred_at a \<le> pg_updated_at q" using t \<open>page_audit a\<close> unfolding audits_tied_def by blast
    then show ?thesis using page_advanced [OF p] by (metis order_trans)
  qed
  ultimately show ?thesis using t by (simp add: audits_tied_def)
qed

lemma audits_tied_added:
  assumes t: "audits_tied db" and d: "places_distinct db" and p: "pages_advance db db'"
    and a: "t_audits db' = t_audits db @ [a]"
    and q: "q \<in> set (t_pages db)" "page_place q = (au_library_id a, au_resource_id a)" "pg_updated_at q < au_occurred_at a"
    and r: "r \<in> set (t_pages db')" "page_place r = page_place q" "au_occurred_at a \<le> pg_updated_at r"
  shows "audits_tied db'"
proof -
  have n: "audit_place a \<notin> audit_place ` set (filter page_audit (t_audits db))"
  proof
    assume "audit_place a \<in> audit_place ` set (filter page_audit (t_audits db))"
    then obtain b where b: "b \<in> set (t_audits db)" "page_audit b" "audit_place b = audit_place a" by auto
    then obtain s where s: "s \<in> set (t_pages db)" "page_place s = (au_library_id b, au_resource_id b)"
      "au_occurred_at b \<le> pg_updated_at s" using t by (auto simp: audits_tied_def)
    have "page_place s = page_place q" using s(2) b(3) q(2) by (simp add: audit_place_def)
    then have "s = q" using s(1) q(1) d by (auto simp: places_distinct_def distinct_map inj_on_def)
    then show False using s(3) q(3) b(3) by (simp add: audit_place_def)
  qed
  have "\<exists>q \<in> set (t_pages db'). page_place q = (au_library_id b, au_resource_id b)
      \<and> au_occurred_at b \<le> pg_updated_at q" if b: "b \<in> set (t_audits db')" "page_audit b" for b
  proof (cases "b = a")
    case True
    then show ?thesis using r q(2) by auto
  next
    case False
    then obtain s where "s \<in> set (t_pages db)" "page_place s = (au_library_id b, au_resource_id b)"
      "au_occurred_at b \<le> pg_updated_at s" using t b a by (auto simp: audits_tied_def)
    then show ?thesis using page_advanced [OF p] by (metis order_trans)
  qed
  then show ?thesis using t n a by (auto simp: audits_tied_def)
qed

lemma page_audit_found:
  assumes "audits_tied db" "a \<in> set (t_audits db)" "page_audit a"
    and "\<And>b. P b \<Longrightarrow> page_audit b \<and> audit_place b = audit_place a" "P a"
  shows "filter P (t_audits db) = [a]"
proof -
  have d: "distinct (map audit_place (filter page_audit (t_audits db)))" using assms(1) by (simp add: audits_tied_def)
  have "filter (\<lambda>b. page_audit b \<and> audit_place b = audit_place a) (t_audits db) = [a]"
    by (rule single_filtered [OF d assms(2,3)])
  moreover have "filter P (t_audits db) = filter P (filter (\<lambda>b. page_audit b \<and> audit_place b = audit_place a) (t_audits db))"
    using assms(4) by (auto intro: filter_cong)
  ultimately show ?thesis using assms(5) by simp
qed

section \<open>Credentials\<close>

lemma credential_found:
  assumes "auth_ok sha auth" "c \<in> set (a_credentials auth)"
  shows "filter (\<lambda>x. Some (cr_id c) = Some (cr_id x)) (a_credentials auth) = [c]"
  using single_row [of cr_id "a_credentials auth" c] assms by (simp add: auth_ok_def eq_commute)

lemma credential_later:
  assumes "auth_advances auth auth'" "c \<in> set (a_credentials auth)"
  obtains d where "d \<in> set (a_credentials auth')" "cr_id d = cr_id c" "cr_caller_id d = cr_caller_id c"
    "cr_library_id d = cr_library_id c"
  using assms by (fastforce simp: auth_advances_def same_credential_def credential_key_def)

section \<open>The history of a receipt\<close>

lemma registered_kept:
  assumes r: "registered_page sha db library i = Inr uid" and u: "rows_unique db'"
    and s: "set (t_identifiers db) \<subseteq> set (t_identifiers db')"
  shows "registered_page sha db' library i = Inr uid"
proof -
  obtain digest x where d: "registry_digest sha i = Inr digest" and x: "x \<in> set (t_identifiers db)" "pi_library_id x = library"
    "pi_identifier_digest x = digest" "pi_identifier_text x = i" "pi_page_uid x = uid"
    using r by (auto simp: registered_page_def split: option.splits elim!: bindR_InrE dest!: find_SomeD)
  let ?P = "\<lambda>i'. pi_library_id i' = library \<and> pi_identifier_digest i' = digest \<and> pi_identifier_text i' = i"
  have "distinct (map digest_key (t_identifiers db'))" using u by (simp add: rows_unique_def)
  from single_row [OF this] have "filter (\<lambda>y. digest_key y = digest_key x) (t_identifiers db') = [x]"
    using s x(1) by blast
  moreover have "filter ?P (t_identifiers db') = filter ?P (filter (\<lambda>y. digest_key y = digest_key x) (t_identifiers db'))"
    using x(2,3) by (simp add: digest_key_def conj_ac cong: conj_cong)
  ultimately have "filter ?P (t_identifiers db') = [x]" using x by simp
  from find_single [OF this] show ?thesis using d x by (simp add: registered_page_def)
qed

lemma timeline_of_page:
  assumes l: "load_page_state_timeline db schema k = Inr t" and ok: "store_ok db schema tr"
  obtains p where "p \<in> set (t_pages db)" "page_key p = k" "tl_states t = tr k" "tl_page_id t = pg_page_id p"
proof -
  obtain p where f: "filter (\<lambda>p. page_key p = k) (t_pages db) = [p]"
    using l by (auto simp: load_page_state_timeline_def split: list.splits)
  then have "p \<in> set (filter (\<lambda>p. page_key p = k) (t_pages db))" by simp
  then have p: "p \<in> set (t_pages db)" "page_key p = k" by simp_all
  show ?thesis using that [OF p] history_loads [OF store_page_history [OF ok p(1)]] l p(2) by auto
qed

lemma timeline_loaded:
  assumes "store_ok db schema tr" "p \<in> set (t_pages db)"
  shows "load_page_state_timeline db schema (page_key p)
    = Inr \<lparr>tl_library_id = fst (page_key p), tl_page_uid = snd (page_key p), tl_page_id = pg_page_id p,
           tl_states = tr (page_key p)\<rparr>"
  by (rule history_loads [OF store_page_history [OF assms]])

lemma state_at_found:
  assumes ok: "store_ok db schema tr" and p: "p \<in> set (t_pages db)" and s: "s \<in> set (tr (page_key p))"
    and t: "tl_states t = tr (page_key p)" and w: "parse_occurrence_time w = Inr o'" "utc_microseconds o' = ps_updated_at s"
  shows "state_at t w = Inr s"
proof -
  have "distinct (map ps_updated_at (tr (page_key p)))"
    using store_trace_last(3) [OF ok p] by (simp add: strict_sorted_iff)
  from single_row [OF this s] show ?thesis using w t by (simp add: state_at_def bad_value_def exact_state_def)
qed

lemma state_at_Inr:
  assumes "state_at t w = Inr s"
  obtains o' where "parse_occurrence_time w = Inr o'" "utc_microseconds o' = ps_updated_at s" "s \<in> set (tl_states t)"
proof -
  obtain o' where o: "parse_occurrence_time w = Inr o'" and e: "exact_state t (utc_microseconds o') = Inr s"
    using assms by (cases "parse_occurrence_time w") (auto simp: state_at_def bad_value_def)
  then have "filter (\<lambda>s. ps_updated_at s = utc_microseconds o') (tl_states t) = [s]"
    by (auto simp: exact_state_def split: list.splits)
  then have "s \<in> set (filter (\<lambda>s. ps_updated_at s = utc_microseconds o') (tl_states t))" by simp
  then show ?thesis using that o by auto
qed

text \<open>What a receipt reads of the history, in a later store: the same.\<close>

lemma receipt_history_kept:
  assumes ext: "store_extends (db, tr) (db', tr')" and ok: "store_ok db schema tr" "store_ok db' schema tr'"
    and l: "load_page_state_timeline db schema k = Inr t"
  obtains p p' t' where "p \<in> set (t_pages db)" "page_key p = k" "p' \<in> set (t_pages db')" "page_key p' = k"
    "pg_page_id p' = pg_page_id p" "load_page_state_timeline db' schema k = Inr t'" "tl_page_id t' = tl_page_id t"
    "tl_page_id t = pg_page_id p" "\<And>w s. state_at t w = Inr s \<Longrightarrow> state_at t' w = Inr s"
proof -
  obtain p where p: "p \<in> set (t_pages db)" "page_key p = k" "tl_states t = tr k" "tl_page_id t = pg_page_id p"
    by (rule timeline_of_page [OF l ok(1)])
  obtain p' where p': "p' \<in> set (t_pages db')" "page_key p' = k" "pg_page_id p' = pg_page_id p"
    using ext p by (auto simp: store_extends_def pages_advance_def)
  let ?t = "\<lparr>tl_library_id = fst k, tl_page_uid = snd k, tl_page_id = pg_page_id p', tl_states = tr' k\<rparr>"
  have "load_page_state_timeline db' schema k = Inr ?t" using timeline_loaded [OF ok(2) p'(1)] p'(2) by simp
  moreover have "state_at ?t w = Inr s" if s: "state_at t w = Inr s" for w s
  proof -
    obtain o' where o: "parse_occurrence_time w = Inr o'" "utc_microseconds o' = ps_updated_at s" "s \<in> set (tl_states t)"
      by (rule state_at_Inr [OF s])
    have "set (tr (page_key p)) \<subseteq> set (tr' (page_key p))"
      using ext page_exists_in [OF p(1)] unfolding store_extends_def fst_conv snd_conv by blast
    then have "s \<in> set (tr' (page_key p'))" using o(3) p p' by auto
    from state_at_found [OF ok(2) p'(1) this _ o(1,2)] show ?thesis using p'(2) by simp
  qed
  ultimately show ?thesis using that [of p p' ?t] p p' by simp
qed

section \<open>The audit row with its credential\<close>

lemma concat_single_Inr:
  assumes "concat (map f xs) = [y]"
  shows "\<exists>x \<in> set xs. y \<in> set (f x)"
proof -
  have "y \<in> set (concat (map f xs))" by (simp add: assms)
  then show ?thesis by auto
qed

lemma lifecycle_audits_row:
  assumes "lifecycle_audits_match app x b action after"
  obtains a c where "a \<in> set (t_audits (ap_content app))" "c \<in> set (a_credentials (ap_auth app))"
    "au_library_id a = vc_library_id (ic_caller x)" "au_action a = lit ''content.page.'' @ action"
    "au_resource_id a = yb_page_id b" "au_request_id a = or_request_id (ic_response x)"
    "au_occurred_at a = ps_updated_at after" "au_actor_credential_id a = Some (cr_id c)"
    "(au_actor_home_library_id a, au_actor_caller_id a, cr_caller_id c, cr_library_id c, au_resource_type a,
      au_outcome a) = (Some (vc_actor_home_library_id (ic_caller x)), Some (vc_caller_id (ic_caller x)),
         vc_caller_id (ic_caller x), vc_actor_home_library_id (ic_caller x), lit ''page'', lit ''succeeded'')"
  using concat_single_Inr [OF assms [unfolded lifecycle_audits_match_def]] that by auto

lemma lifecycle_audits_found:
  assumes t: "audits_tied (ap_content app)" and au: "auth_ok sha (ap_auth app)"
    and a: "a \<in> set (t_audits (ap_content app))" "c \<in> set (a_credentials (ap_auth app))"
    "au_library_id a = vc_library_id (ic_caller x)" "au_action a = lit ''content.page.'' @ action"
    "au_resource_id a = yb_page_id b" "au_request_id a = or_request_id (ic_response x)"
    "au_occurred_at a = ps_updated_at after" "au_actor_credential_id a = Some (cr_id c)"
    "(au_actor_home_library_id a, au_actor_caller_id a, cr_caller_id c, cr_library_id c, au_resource_type a,
      au_outcome a) = (Some (vc_actor_home_library_id (ic_caller x)), Some (vc_caller_id (ic_caller x)),
         vc_caller_id (ic_caller x), vc_actor_home_library_id (ic_caller x), lit ''page'', lit ''succeeded'')"
    and act: "action \<in> {lit ''delete'', lit ''restore''}"
  shows "lifecycle_audits_match app x b action after"
proof -
  let ?P = "\<lambda>a. au_library_id a = vc_library_id (ic_caller x) \<and> au_action a = lit ''content.page.'' @ action
     \<and> au_resource_id a = yb_page_id b \<and> au_request_id a = or_request_id (ic_response x)
     \<and> au_occurred_at a = ps_updated_at after"
  have pa: "page_audit b" if "?P b" for b
    using that act by (auto simp: page_audit_def PAGE_ACTIONS_def lit_def)
  have "filter ?P (t_audits (ap_content app)) = [a]"
    by (rule page_audit_found [OF t a(1) pa]) (use pa a in \<open>auto simp: audit_place_def\<close>)
  moreover have "filter (\<lambda>c. au_actor_credential_id a = Some (cr_id c)) (a_credentials (ap_auth app)) = [c]"
    using credential_found [OF au a(2)] a(8) by simp
  ultimately show ?thesis using a(9) by (simp add: lifecycle_audits_match_def)
qed

section \<open>Receipts of deletions and restorations\<close>

lemma requireR_Inr_unit: "requireR c e = Inr u \<longleftrightarrow> c"
  by (auto simp: requireR_def)

lemma lifecycle_receipt_Inr:
  assumes "lifecycle_receipt_body env app x = Inr b"
  obtains uid t before after action where
    "sv_schema env \<in> set LIBRARY_LIFECYCLE_REVISIONS"
    "canonical_body env library_lifecycle_body_of library_lifecycle_body_json (or_body (ic_response x)) = Inr b"
    "registered_page (sv_sha env) (ap_content app) (vc_library_id (ic_caller x)) (yb_page_id b) = Inr uid"
    "load_page_state_timeline (ap_content app) (sv_schema env) (vc_library_id (ic_caller x), uid) = Inr t"
    "state_at t (yb_original_updated_at b) = Inr before" "state_at t (yb_updated_at b) = Inr after"
    "action = (if yb_state b = lit ''trashed'' then DELETE else lit ''restore'')"
    "lifecycle_record_matches (sv_sha env) x b action t" "lifecycle_states_match b action before after"
    "state_etag (sv_sha env) uid before = Inr (yb_request_etag b)"
    "state_etag (sv_sha env) uid after = Inr (or_etag (ic_response x))"
    "lifecycle_events_match (ap_content app) x b uid action before after"
    "lifecycle_audits_match app x b action after"
  using assms that unfolding lifecycle_receipt_body_def Let_def
  by (auto elim!: bindR_InrE simp: requireR_Inr_unit)

lemma lifecycle_receipt_Inr_intro:
  assumes "sv_schema env \<in> set LIBRARY_LIFECYCLE_REVISIONS"
    "canonical_body env library_lifecycle_body_of library_lifecycle_body_json (or_body (ic_response x)) = Inr b"
    "registered_page (sv_sha env) (ap_content app) (vc_library_id (ic_caller x)) (yb_page_id b) = Inr uid"
    "load_page_state_timeline (ap_content app) (sv_schema env) (vc_library_id (ic_caller x), uid) = Inr t"
    "state_at t (yb_original_updated_at b) = Inr before" "state_at t (yb_updated_at b) = Inr after"
    "action = (if yb_state b = lit ''trashed'' then DELETE else lit ''restore'')"
    "lifecycle_record_matches (sv_sha env) x b action t" "lifecycle_states_match b action before after"
    "state_etag (sv_sha env) uid before = Inr (yb_request_etag b)"
    "state_etag (sv_sha env) uid after = Inr (or_etag (ic_response x))"
    "lifecycle_events_match (ap_content app) x b uid action before after"
    "lifecycle_audits_match app x b action after"
  shows "lifecycle_receipt_body env app x = Inr b"
  using assms by (auto simp: lifecycle_receipt_body_def Let_def requireR_def)

text \<open>What a later state of the whole store keeps for a receipt.\<close>

definition receipts_later :: "pystr \<Rightarrow> (bytes \<Rightarrow> bytes) \<Rightarrow> app_db \<times> traces \<Rightarrow> app_db \<times> traces \<Rightarrow> bool" where
  "receipts_later schema sha d e \<longleftrightarrow>
     store_ok (ap_content (fst d)) schema (snd d) \<and> store_ok (ap_content (fst e)) schema (snd e)
     \<and> store_extends (ap_content (fst d), snd d) (ap_content (fst e), snd e)
     \<and> rows_unique (ap_content (fst e)) \<and> events_grow (ap_content (fst d)) (ap_content (fst e))
     \<and> audits_tied (ap_content (fst e)) \<and> auth_ok sha (ap_auth (fst e))
     \<and> auth_advances (ap_auth (fst d)) (ap_auth (fst e))"

lemma lifecycle_receipt_kept:
  assumes r: "lifecycle_receipt_body env app x = Inr b" and l: "receipts_later (sv_schema env) sha (app, tr) (app', tr')"
    and sch: "sv_schema env \<in> set CALLER_MOVE_REVISIONS"
  shows "lifecycle_receipt_body env app' x = Inr b"
proof -
  let ?db = "ap_content app" and ?db' = "ap_content app'" and ?k = "\<lambda>uid. (vc_library_id (ic_caller x), uid)"
  note l' = l [unfolded receipts_later_def fst_conv snd_conv]
  obtain uid t before after action where h: "sv_schema env \<in> set LIBRARY_LIFECYCLE_REVISIONS"
    "canonical_body env library_lifecycle_body_of library_lifecycle_body_json (or_body (ic_response x)) = Inr b"
    "registered_page (sv_sha env) ?db (vc_library_id (ic_caller x)) (yb_page_id b) = Inr uid"
    "load_page_state_timeline ?db (sv_schema env) (?k uid) = Inr t"
    "state_at t (yb_original_updated_at b) = Inr before" "state_at t (yb_updated_at b) = Inr after"
    and act: "action = (if yb_state b = lit ''trashed'' then DELETE else lit ''restore'')"
    and m: "lifecycle_record_matches (sv_sha env) x b action t" "lifecycle_states_match b action before after"
    "state_etag (sv_sha env) uid before = Inr (yb_request_etag b)"
    "state_etag (sv_sha env) uid after = Inr (or_etag (ic_response x))"
    and e: "lifecycle_events_match ?db x b uid action before after" and a: "lifecycle_audits_match app x b action after"
    by (rule lifecycle_receipt_Inr [OF r])
  obtain p p' t' where p: "p \<in> set (t_pages ?db)" "page_key p = ?k uid" "p' \<in> set (t_pages ?db')" "page_key p' = ?k uid"
    and t': "load_page_state_timeline ?db' (sv_schema env) (?k uid) = Inr t'" "tl_page_id t' = tl_page_id t"
    and st: "\<And>w s. state_at t w = Inr s \<Longrightarrow> state_at t' w = Inr s"
    by (rule receipt_history_kept [where db' = ?db' and tr' = tr' and tr = tr, OF _ _ _ h(4)]) (use l' in auto)
  have g: "registered_page (sv_sha env) ?db' (vc_library_id (ic_caller x)) (yb_page_id b) = Inr uid"
    by (rule registered_kept [OF h(3)]) (use l' in \<open>auto simp: store_extends_def\<close>)
  have m1: "lifecycle_record_matches (sv_sha env) x b action t'" using m(1) t'(2) by (simp add: lifecycle_record_matches_def)
  have "lifecycle_events_match ?db' x b uid action before after"
  proof -
    let ?P = "\<lambda>e. le_key e = ?k uid \<and> le_changed_at e = ps_updated_at after"
    obtain v where v: "filter ?P (t_lifecycle_events ?db) = [v]"
      using e by (auto simp: lifecycle_events_match_def)
    then have "v \<in> set (filter ?P (t_lifecycle_events ?db))" by simp
    then have vm: "v \<in> set (t_lifecycle_events ?db')" "le_key v = page_key p'" "le_changed_at v = ps_updated_at after"
      using l' p by (auto simp: events_grow_def)
    have "filter ?P (t_lifecycle_events ?db') = [v]"
      using event_found(1) [OF l' [THEN conjunct2, THEN conjunct1] sch p(3) vm(1,2)] vm(3) p(4) by simp
    then show ?thesis using e v by (simp add: lifecycle_events_match_def)
  qed
  moreover have "lifecycle_audits_match app' x b action after"
  proof -
    obtain y c where y: "y \<in> set (t_audits ?db)" and c: "c \<in> set (a_credentials (ap_auth app))"
      and q: "au_library_id y = vc_library_id (ic_caller x)" "au_action y = lit ''content.page.'' @ action"
      "au_resource_id y = yb_page_id b" "au_request_id y = or_request_id (ic_response x)"
      "au_occurred_at y = ps_updated_at after" "au_actor_credential_id y = Some (cr_id c)"
      and z: "(au_actor_home_library_id y, au_actor_caller_id y, cr_caller_id c, cr_library_id c, au_resource_type y,
        au_outcome y) = (Some (vc_actor_home_library_id (ic_caller x)), Some (vc_caller_id (ic_caller x)),
         vc_caller_id (ic_caller x), vc_actor_home_library_id (ic_caller x), lit ''page'', lit ''succeeded'')"
      by (rule lifecycle_audits_row [OF a])
    obtain d where d: "d \<in> set (a_credentials (ap_auth app'))" "cr_id d = cr_id c" "cr_caller_id d = cr_caller_id c"
      "cr_library_id d = cr_library_id c" using credential_later [OF _ c] l' by blast
    have y': "y \<in> set (t_audits ?db')" using y l' by (auto simp: events_grow_def)
    show ?thesis
      by (rule lifecycle_audits_found [where sha = sha and c = d, OF _ _ y']) (use l' d q z act in \<open>auto simp: DELETE_def\<close>)
  qed
  ultimately show ?thesis
    using lifecycle_receipt_Inr_intro [OF h(1,2) g t'(1) st [OF h(5)] st [OF h(6)] act m1 m(2,3,4)] by blast
qed

section \<open>Receipts of moves\<close>

text \<open>The event row of a move with the audit row it names, which is the only one of its identifier.\<close>

definition move_columns :: "move_event \<Rightarrow> audit_event \<Rightarrow> (pystr \<times> pystr \<times> pystr \<times> pystr) \<times> (int \<times> pystr \<times> int \<times> int)
    \<times> (pystr \<times> pystr option \<times> pystr option \<times> pystr) \<times> (pystr \<times> pystr \<times> pystr \<times> pystr \<times> int)" where
  "move_columns e a =
     ((me_old_section_id e, me_old_book_id e, me_new_section_id e, me_new_book_id e),
      (me_old_updated_at e, me_at_revision_id e, me_at_revision_number e, me_occurred_at_at_event e),
      (au_library_id a, au_actor_home_library_id a, au_actor_caller_id a, au_action a),
      (au_resource_type a, au_resource_id a, au_outcome a, au_request_id a, au_occurred_at a))"

definition move_expected :: "idempotency_record \<Rightarrow> page_move_body \<Rightarrow> page_state \<Rightarrow> page_state
    \<Rightarrow> (pystr \<times> pystr \<times> pystr \<times> pystr) \<times> (int \<times> pystr \<times> int \<times> int)
    \<times> (pystr \<times> pystr option \<times> pystr option \<times> pystr) \<times> (pystr \<times> pystr \<times> pystr \<times> pystr \<times> int)" where
  "move_expected x b source result =
     ((vb_source_section_id b, vb_source_book_id b, vb_target_section_id b, vb_target_book_id b),
      (ps_updated_at source, vb_revision_id b, vb_revision_number b, ps_occurred_at source),
      (vc_library_id (ic_caller x), Some (vc_actor_home_library_id (ic_caller x)),
       Some (vc_caller_id (ic_caller x)), lit ''content.page.move''),
      (lit ''page'', vb_page_id b, lit ''succeeded'', or_request_id (ic_response x), ps_updated_at result))"

lemma move_events_match_alt:
  "move_events_match db x b uid source result \<longleftrightarrow>
     concat (map (\<lambda>e. map (move_columns e) (filter (\<lambda>a. me_caller_audit_event_id e = Some (au_id a)) (t_audits db)))
       (filter (\<lambda>e. me_key e = (vc_library_id (ic_caller x), uid) \<and> me_changed_at e = ps_updated_at result
          \<and> me_master_audit_event_id e = None) (t_move_events db))) = [move_expected x b source result]"
  by (simp add: move_events_match_def move_expected_def move_columns_def [abs_def])

lemma move_events_row:
  assumes "move_events_match db x b uid source result"
  obtains e a where "e \<in> set (t_move_events db)" "a \<in> set (t_audits db)"
    "me_key e = (vc_library_id (ic_caller x), uid)" "me_changed_at e = ps_updated_at result"
    "me_master_audit_event_id e = None" "me_caller_audit_event_id e = Some (au_id a)"
    "move_columns e a = move_expected x b source result"
  using concat_single_Inr [OF assms [unfolded move_events_match_alt]] that by auto

lemma move_events_found:
  assumes ok: "store_ok db schema tr" and sch: "schema \<in> set CALLER_MOVE_REVISIONS"
    and p: "p \<in> set (t_pages db)" "page_key p = (vc_library_id (ic_caller x), uid)"
    and e: "e \<in> set (t_move_events db)" "a \<in> set (t_audits db)"
    "me_key e = (vc_library_id (ic_caller x), uid)" "me_changed_at e = ps_updated_at result"
    "me_master_audit_event_id e = None" "me_caller_audit_event_id e = Some (au_id a)"
    "move_columns e a = move_expected x b source result"
  shows "move_events_match db x b uid source result"
proof -
  let ?k = "(vc_library_id (ic_caller x), uid)"
  have "filter (\<lambda>y. me_key y = ?k \<and> me_changed_at y = ps_updated_at result) (t_move_events db) = [e]"
    using event_found(2) [OF ok sch p(1) e(1)] e p by simp
  then have "filter (\<lambda>y. me_master_audit_event_id y = None) (filter (\<lambda>y. me_key y = ?k \<and> me_changed_at y = ps_updated_at result)
      (t_move_events db)) = [e]" using e by simp
  then have f: "filter (\<lambda>y. me_key y = ?k \<and> me_changed_at y = ps_updated_at result \<and> me_master_audit_event_id y = None)
      (t_move_events db) = [e]" by (simp add: conj_ac)
  have "distinct (map au_id (t_audits db))" using ok by (simp add: store_ok_def keys_distinct_def)
  from single_row [OF this e(2)] have "filter (\<lambda>y. me_caller_audit_event_id e = Some (au_id y)) (t_audits db) = [a]"
    using e(6) by (simp add: eq_commute)
  then show ?thesis using e(7) f by (simp add: move_events_match_alt)
qed

lemma move_receipt_Inr:
  assumes "move_receipt_body env app x = Inr b"
  obtains uid t source result where
    "canonical_body env page_move_body_of page_move_body_json (or_body (ic_response x)) = Inr b"
    "registered_page (sv_sha env) (ap_content app) (vc_library_id (ic_caller x)) (vb_page_id b) = Inr uid"
    "load_page_state_timeline (ap_content app) (sv_schema env) (vc_library_id (ic_caller x), uid) = Inr t"
    "state_at t (vb_original_updated_at b) = Inr source" "state_at t (vb_updated_at b) = Inr result"
    "move_record_matches (sv_sha env) x b t" "move_states_match b source result"
    "state_etag (sv_sha env) uid source = Inr (vb_request_etag b)"
    "state_etag (sv_sha env) uid result = Inr (or_etag (ic_response x))"
    "if vb_changed b then move_events_match (ap_content app) x b uid source result
        \<and> ps_updated_at source < ps_updated_at result else source = result"
  using assms that unfolding move_receipt_body_def Let_def
  by (auto elim!: bindR_InrE simp: requireR_Inr_unit split: if_splits)

lemma move_receipt_Inr_intro:
  assumes
    "canonical_body env page_move_body_of page_move_body_json (or_body (ic_response x)) = Inr b"
    "registered_page (sv_sha env) (ap_content app) (vc_library_id (ic_caller x)) (vb_page_id b) = Inr uid"
    "load_page_state_timeline (ap_content app) (sv_schema env) (vc_library_id (ic_caller x), uid) = Inr t"
    "state_at t (vb_original_updated_at b) = Inr source" "state_at t (vb_updated_at b) = Inr result"
    "move_record_matches (sv_sha env) x b t" "move_states_match b source result"
    "state_etag (sv_sha env) uid source = Inr (vb_request_etag b)"
    "state_etag (sv_sha env) uid result = Inr (or_etag (ic_response x))"
    "if vb_changed b then move_events_match (ap_content app) x b uid source result
        \<and> ps_updated_at source < ps_updated_at result else source = result"
  shows "move_receipt_body env app x = Inr b"
  using assms by (auto simp: move_receipt_body_def Let_def requireR_def)

lemma move_receipt_kept:
  assumes r: "move_receipt_body env app x = Inr b" and l: "receipts_later (sv_schema env) sha (app, tr) (app', tr')"
    and sch: "sv_schema env \<in> set CALLER_MOVE_REVISIONS"
  shows "move_receipt_body env app' x = Inr b"
proof -
  let ?db = "ap_content app" and ?db' = "ap_content app'" and ?k = "\<lambda>uid. (vc_library_id (ic_caller x), uid)"
  note l' = l [unfolded receipts_later_def fst_conv snd_conv]
  obtain uid t source result where
    h: "canonical_body env page_move_body_of page_move_body_json (or_body (ic_response x)) = Inr b"
    "registered_page (sv_sha env) ?db (vc_library_id (ic_caller x)) (vb_page_id b) = Inr uid"
    "load_page_state_timeline ?db (sv_schema env) (?k uid) = Inr t"
    "state_at t (vb_original_updated_at b) = Inr source" "state_at t (vb_updated_at b) = Inr result"
    and m: "move_record_matches (sv_sha env) x b t" "move_states_match b source result"
    "state_etag (sv_sha env) uid source = Inr (vb_request_etag b)"
    "state_etag (sv_sha env) uid result = Inr (or_etag (ic_response x))"
    and e: "if vb_changed b then move_events_match ?db x b uid source result
        \<and> ps_updated_at source < ps_updated_at result else source = result"
    by (rule move_receipt_Inr [OF r])
  obtain p p' t' where p: "p' \<in> set (t_pages ?db')" "page_key p' = ?k uid"
    and t': "load_page_state_timeline ?db' (sv_schema env) (?k uid) = Inr t'" "tl_page_id t' = tl_page_id t"
    and st: "\<And>w s. state_at t w = Inr s \<Longrightarrow> state_at t' w = Inr s"
    by (rule receipt_history_kept [where db' = ?db' and tr' = tr' and tr = tr, OF _ _ _ h(3)]) (use l' in auto)
  have g: "registered_page (sv_sha env) ?db' (vc_library_id (ic_caller x)) (vb_page_id b) = Inr uid"
    by (rule registered_kept [OF h(2)]) (use l' in \<open>auto simp: store_extends_def\<close>)
  have m1: "move_record_matches (sv_sha env) x b t'" using m(1) t'(2) by (simp add: move_record_matches_def)
  have "move_events_match ?db' x b uid source result" if me: "move_events_match ?db x b uid source result"
  proof -
    obtain v a where v: "v \<in> set (t_move_events ?db)" "a \<in> set (t_audits ?db)"
      and w: "me_key v = ?k uid" "me_changed_at v = ps_updated_at result" "me_master_audit_event_id v = None"
      "me_caller_audit_event_id v = Some (au_id a)" "move_columns v a = move_expected x b source result"
      by (rule move_events_row [OF me])
    have g: "v \<in> set (t_move_events ?db')" "a \<in> set (t_audits ?db')" using v l' by (auto simp: events_grow_def)
    show ?thesis by (rule move_events_found [OF l' [THEN conjunct2, THEN conjunct1] sch p g w])
  qed
  then show ?thesis
    using move_receipt_Inr_intro [OF h(1) g t'(1) st [OF h(4)] st [OF h(5)] m1 m(2,3,4)] e by (auto split: if_splits)
qed

end
