(* ===== verification/CallerRequests.thy ===== *)
theory CallerRequests
  imports CallerReceipts ContentBackups ReplayTheorems
begin

text \<open>
  The requests of callers on whole stores: deletions, restorations and moves next to the requests of the
  archive service. Every receipt such a store holds stays valid.
\<close>

section \<open>Reading a page\<close>

lemma page_read:
  assumes g: "get_page sha db library i = Inr (Some p)" and u: "rows_unique db" and s: "identifier_rows_sound sha db"
    and d: "distinct (map page_key (t_pages db))"
  shows "p \<in> set (t_pages db)" and "pg_library_id p = library" and "pg_page_id p = i"
    and "registered_page sha db library i = Inr (pg_page_uid p)"
proof -
  obtain digest x where dg: "registry_digest sha i = Inr digest" and p: "p \<in> set (t_pages db)"
    and x: "x \<in> set (t_identifiers db)" "pi_library_id x = library" "pi_identifier_digest x = digest"
    "pi_identifier_text x = i" "(pi_library_id x, pi_page_uid x) = page_key p"
    using g by (auto simp: get_page_def list_ex_iff split: option.splits if_splits elim!: bindR_InrE dest!: find_SomeD)
  show "p \<in> set (t_pages db)" by (rule p)
  show "pg_library_id p = library" using x by (simp add: page_key_def)
  have "((pi_library_id x, pi_page_uid x), pi_identifier_text x, pi_identifier_kind x)
      \<in> set (map (\<lambda>p. (page_key p, pg_page_id p, lit ''canonical'')) (t_pages db))"
    using s x(1) unfolding identifier_rows_sound_def by (metis (no_types, lifting) image_eqI list.set_map)
  then obtain q where "q \<in> set (t_pages db)" "page_key q = page_key p" "pg_page_id q = i" using x by auto
  then show "pg_page_id p = i" using d p by (auto simp: distinct_map inj_on_def)
  have f: "find (\<lambda>i'. pi_library_id i' = library \<and> pi_identifier_digest i' = digest \<and> pi_identifier_text i' = i)
      (t_identifiers db) \<noteq> None" using x by (auto simp: find_None_iff)
  then obtain y where y: "find (\<lambda>i'. pi_library_id i' = library \<and> pi_identifier_digest i' = digest
      \<and> pi_identifier_text i' = i) (t_identifiers db) = Some y" by blast
  then have "y \<in> set (t_identifiers db)" "digest_key y = digest_key x"
    using x find_SomeD [OF y] by (auto simp: digest_key_def)
  then have "y = x" using u x(1) by (auto simp: rows_unique_def distinct_map inj_on_def)
  then show "registered_page sha db library i = Inr (pg_page_uid p)"
    using dg y x(5) by (simp add: registered_page_def page_key_def)
qed

section \<open>A fresh deletion or restoration\<close>

lemma transition_row_Inr:
  assumes t: "transition_page_lifecycle_row p action (Some i) (Some h) None rq at db = Inr (db1, updated, event)"
    and ok: "store_ok db schema tr" and p: "p \<in> set (t_pages db)"
  shows "pg_updated_at p < le_changed_at event"
    and "updated = p\<lparr>pg_deleted_at := (if action = DELETE then Some (le_changed_at event) else None),
              pg_updated_at := le_changed_at event\<rparr>"
    and "db1 = (set_page updated db)\<lparr>t_lifecycle_events := t_lifecycle_events db @ [event]\<rparr>"
    and "action \<in> {lit ''delete'', lit ''restore''}" and "(action = DELETE) = (pg_deleted_at p = None)"
    and "le_key event = page_key p" and "le_action event = action" and "le_section_id event = pg_section_id p"
    and "le_old_deleted_at event = pg_deleted_at p" and "le_old_updated_at event = pg_updated_at p"
    and "le_at_revision_number event = pg_current_revision_number p"
    and "le_occurred_at_at_event event = pg_occurred_at p" and "le_actor_caller_id event = Some i"
    and "le_actor_home_library_id event = Some h" and "le_request_id event = rq"
    and "le_master_audit_event_id event = None"
proof -
  obtain e where w: "write_lifecycle p e db = Inr (db1, updated, event)"
    and e: "le_key e = page_key p" "le_action e = action" "le_section_id e = pg_section_id p"
    "le_old_deleted_at e = pg_deleted_at p" "le_old_updated_at e = pg_updated_at p"
    "le_at_revision_number e = pg_current_revision_number p" "le_occurred_at_at_event e = pg_occurred_at p"
    "le_actor_caller_id e = Some i" "le_actor_home_library_id e = Some h" "le_request_id e = rq"
    "le_master_audit_event_id e = None"
    and a: "action \<in> {lit ''delete'', lit ''restore''}" "(action = lit ''delete'') = (pg_deleted_at p = None)"
    using t by (auto simp: transition_page_lifecycle_row_def Let_def le_key_def page_key_def split: if_splits)
  have da: "(le_action e = lit ''delete'') = (pg_deleted_at p = None)" using a(2) e(2) by simp
  obtain old where old: "old \<in> set (t_pages db)" "same_current p old" "pg_updated_at old < le_changed_at e"
    and ev: "event = e"
    and db1: "db1 = (set_page (old\<lparr>pg_deleted_at := (if le_action e = lit ''delete'' then Some (le_changed_at e) else None),
              pg_updated_at := le_changed_at e\<rparr>) db)
       \<lparr>t_lifecycle_events := t_lifecycle_events db @ [e]\<rparr>"
    and up: "updated = p\<lparr>pg_deleted_at := (if le_action e = lit ''delete'' then Some (le_changed_at e) else None),
              pg_updated_at := le_changed_at e\<rparr>"
    by (rule write_lifecycle_Inr [OF w e(1,4,5,6,7,3) da])
  have "old = p" using page_row_unique [OF ok old(1) p] old(2) by (simp add: same_current_def)
  then show "pg_updated_at p < le_changed_at event"
    "updated = p\<lparr>pg_deleted_at := (if action = DELETE then Some (le_changed_at event) else None),
              pg_updated_at := le_changed_at event\<rparr>"
    "db1 = (set_page updated db)\<lparr>t_lifecycle_events := t_lifecycle_events db @ [event]\<rparr>"
    using old(3) ev db1 up e(2) by (simp_all add: DELETE_def)
  show "action \<in> {lit ''delete'', lit ''restore''}" "(action = DELETE) = (pg_deleted_at p = None)"
    using a by (simp_all add: DELETE_def)
  show "le_key event = page_key p" "le_action event = action" "le_section_id event = pg_section_id p"
    "le_old_deleted_at event = pg_deleted_at p" "le_old_updated_at event = pg_updated_at p"
    "le_at_revision_number event = pg_current_revision_number p" "le_occurred_at_at_event event = pg_occurred_at p"
    "le_actor_caller_id event = Some i" "le_actor_home_library_id event = Some h" "le_request_id event = rq"
    "le_master_audit_event_id event = None" using e ev by simp_all
qed

text \<open>The bodies of the caller services are read back as they were written, and written as they are read.\<close>

definition receipts_readable :: "service_env \<Rightarrow> bool" where
  "receipts_readable env \<longleftrightarrow>
     (\<forall>b bs. library_lifecycle_body_valid b \<longrightarrow> utf8_encode (sv_dump env (library_lifecycle_body_json b)) = Some bs
        \<longrightarrow> sv_parse env bs = Some (library_lifecycle_body_json b))
     \<and> (\<forall>b bs. page_move_body_valid b \<longrightarrow> utf8_encode (sv_dump env (page_move_body_json b)) = Some bs
        \<longrightarrow> sv_parse env bs = Some (page_move_body_json b))"

definition same_codec :: "service_env \<Rightarrow> service_env \<Rightarrow> bool" where
  "same_codec env env' \<longleftrightarrow>
     sv_sha env' = sv_sha env \<and> sv_dump env' = sv_dump env \<and> sv_parse env' = sv_parse env
     \<and> sv_schema env' = sv_schema env"

lemma same_codec_receipts:
  assumes "same_codec env env'"
  shows "lifecycle_receipt_body env' app x = lifecycle_receipt_body env app x"
    and "move_receipt_body env' app x = move_receipt_body env app x"
proof -
  have c: "canonical_body env' rd wr bs = canonical_body env rd wr bs" for rd wr bs
    using assms by (simp add: canonical_body_def same_codec_def)
  show "lifecycle_receipt_body env' app x = lifecycle_receipt_body env app x"
    "move_receipt_body env' app x = move_receipt_body env app x"
    using assms by (simp_all add: lifecycle_receipt_body_def move_receipt_body_def c same_codec_def)
qed

definition lifecycle_answer :: "page_lifecycle_command \<Rightarrow> page \<Rightarrow> page \<Rightarrow> pystr option \<Rightarrow> pystr \<Rightarrow> pystr \<Rightarrow> pystr
    \<Rightarrow> library_lifecycle_body" where
  "lifecycle_answer c p updated deleted occurred original updated_at =
     \<lparr>yb_library_id = pg_library_id p, yb_page_id = pg_page_id p, yb_section_id = pg_section_id p,
        yb_book_id = pg_book_id p,
        yb_state = (if pg_deleted_at updated \<noteq> None then lit ''trashed'' else lit ''active''),
        yb_deleted_at = deleted, yb_revision_id = pg_current_revision_id p,
        yb_revision_number = pg_current_revision_number p, yb_occurred_at = occurred,
        yb_original_updated_at = original, yb_updated_at = updated_at,
        yb_request_etag = pc_expected_etag c\<rparr>"

lemma lifecycle_response_Inr:
  assumes "lifecycle_response env c p updated = Inr response"
  obtains deleted occurred original updated_at where
    "(case pg_deleted_at updated of None \<Rightarrow> Inr None | Some d \<Rightarrow> bindR (wire d) (\<lambda>w. Inr (Some w))) = Inr deleted"
    "wire (pg_occurred_at p) = Inr occurred" "wire (pg_updated_at p) = Inr original"
    "wire (pg_updated_at updated) = Inr updated_at"
    "library_lifecycle_body_valid (lifecycle_answer c p updated deleted occurred original updated_at)"
    "utf8_encode (sv_dump env (library_lifecycle_body_json (lifecycle_answer c p updated deleted occurred original updated_at)))
      = Some (or_body response)"
    "page_etag (sv_sha env) updated = Inr (or_etag response)" "or_status response = 200"
    "or_media_type response = lit ''application/json''" "or_location response = None"
    "or_request_id response = pc_request_id c" "or_timestamp response = updated_at"
  using assms that unfolding lifecycle_response_def lifecycle_answer_def [symmetric] utf8_bytes_def
  by (fastforce elim!: bindR_InrE simp: optionR_Inr)

lemma canonical_body_written:
  assumes "sv_parse env bs = Some (write b)" "read (write b) = Some b" "utf8_encode (sv_dump env (write b)) = Some bs"
  shows "canonical_body env read write bs = Inr b"
  using assms by (simp add: canonical_body_def)

text \<open>The store a transition leaves: one state more in the trace of its page, one audit row more.\<close>

lemma write_transition_Inr:
  assumes w: "write_transition env now c a p auth db = Inr (db2, response)"
    and ok: "store_ok db schema tr" and sch: "schema \<in> set CALLER_MOVE_REVISIONS" and p: "p \<in> set (t_pages db)"
  obtains db1 updated event tr' where
    "transition_page_lifecycle_row p (pc_action c) (Some (ca_id (ac_caller a))) (Some (ca_library_id (ac_caller a)))
       None (pc_request_id c) now db = Inr (db1, updated, event)"
    "t_audits db2 = t_audits db @ [service_audit (sv_ids env 0) (pc_library_id c) a
       (lit ''content.page.'' @ pc_action c) (lit ''page'') (pg_page_id p) (pc_request_id c) (le_changed_at event)]"
    "audit_references auth (service_audit (sv_ids env 0) (pc_library_id c) a
       (lit ''content.page.'' @ pc_action c) (lit ''page'') (pg_page_id p) (pc_request_id c) (le_changed_at event))"
    "lifecycle_response env c p updated = Inr response" "event \<in> set (t_lifecycle_events db2)"
    "updated \<in> set (t_pages db2)" "store_ok db2 schema tr'" "store_steps sha (db, tr) (db2, tr')"
    "set (tr (page_key p)) \<subseteq> set (tr' (page_key p))" "state_of_page updated \<in> set (tr' (page_key p))"
    "same_rows db db2"
proof -
  let ?a = "\<lambda>e. service_audit (sv_ids env 0) (pc_library_id c) a
       (lit ''content.page.'' @ pc_action c) (lit ''page'') (pg_page_id p) (pc_request_id c) (le_changed_at e)"
  obtain db1 updated event where r: "transition_page_lifecycle_row p (pc_action c) (Some (ca_id (ac_caller a)))
       (Some (ca_library_id (ac_caller a))) None (pc_request_id c) now db = Inr (db1, updated, event)"
    and x: "add_audit_event auth (?a event) db1 = Inr db2" and f: "lifecycle_response env c p updated = Inr response"
    using w unfolding write_transition_def by (auto elim!: bindR_InrE)
  note t = transition_row_Inr [OF r ok p]
  have k: "page_key updated = page_key p" using t(2) by (simp add: page_key_def)
  have db1: "updated \<in> set (t_pages db1)" "event \<in> set (t_lifecycle_events db1)" "t_audits db1 = t_audits db"
    using p k by (auto simp: t(3))
  note pt = page_transaction.lifecycle [OF r]
  obtain new where new: "page_key new = page_key p" "new \<in> set (t_pages db1)"
    and ok1: "store_ok db1 schema (tr(page_key p := tr (page_key p) @ [state_of_page new]))"
    using page_transaction_step [OF pt ok sch] by blast
  have nu: "new = updated" using page_row_unique [OF ok1 new(2) db1(1)] new(1) k by simp
  let ?tr = "tr(page_key p := tr (page_key p) @ [state_of_page updated])"
  have db2: "insert_audit (?a event) db1 = Inr db2" using x by (auto simp: add_audit_event_def split: if_splits)
  have e2: "event \<in> set (t_lifecycle_events db2)" "updated \<in> set (t_pages db2)"
    "t_audits db2 = t_audits db @ [?a event]" "audit_references auth (?a event)"
    using x db1 by (auto simp: add_audit_event_def insert_audit_def split: if_splits)
  have "store_ok db2 schema ?tr" using neutral_store_ok [OF _ insert_audit_neutral [OF _ db2]] ok1 nu by blast
  moreover have "store_steps sha (db, tr) (db2, ?tr)"
    using store_step.change [OF pt new(2,1), where sha = sha and tr = tr] nu
      store_step.side [OF side_statement.audit [OF db2], where sha = sha and tr = ?tr]
    by (intro store_steps_trans [OF store_steps_one store_steps_one]) simp_all
  moreover obtain g where "write_lifecycle p g db = Inr (db1, updated, event)"
    using r by (auto simp: transition_page_lifecycle_row_def Let_def split: if_splits)
  then have "same_rows db db2" using write_lifecycle_same_rows store_distinct [OF ok] insert_audit_same_rows [OF db2] same_rows_trans by blast
  ultimately show ?thesis by - (rule that [OF r e2(3,4) f e2(1,2), where tr' = ?tr], auto)
qed

lemma fresh_lifecycle_receipt:
  assumes w: "write_transition env now c a p auth db = Inr (db2, response)"
    and q: "lifecycle_request env c key a = Inr (scope, request)"
    and g: "get_page (sv_sha env) db (pc_library_id c) (pc_page_id c) = Inr (Some p)"
    and e: "page_etag (sv_sha env) p = Inr (pc_expected_etag c)"
    and ok: "store_ok db (sv_schema env) tr" and sch: "sv_schema env \<in> set LIBRARY_LIFECYCLE_REVISIONS"
      "sv_schema env \<in> set CALLER_MOVE_REVISIONS"
    and u: "rows_unique db" and s: "identifier_rows_sound (sv_sha env) db"
    and td: "audits_tied (ap_content app)" and au: "auth_ok (sv_sha env) (ap_auth app)"
    and app: "ap_content app = db2" "ap_auth app = auth"
    and rd: "receipts_readable env" and v: "page_lifecycle_command_valid c"
  shows "\<exists>b. lifecycle_receipt_body env app \<lparr>ic_caller = scope, ic_request = request, ic_response = response\<rparr> = Inr b"
proof -
  let ?x = "\<lparr>ic_caller = scope, ic_request = request, ic_response = response\<rparr>" and ?sha = "sv_sha env"
  note pr = page_read [OF g u s store_distinct [OF ok]]
  obtain db1 updated event tr' where
    r: "transition_page_lifecycle_row p (pc_action c) (Some (ca_id (ac_caller a))) (Some (ca_library_id (ac_caller a)))
       None (pc_request_id c) now db = Inr (db1, updated, event)"
    and aa: "t_audits db2 = t_audits db @ [service_audit (sv_ids env 0) (pc_library_id c) a
       (lit ''content.page.'' @ pc_action c) (lit ''page'') (pg_page_id p) (pc_request_id c) (le_changed_at event)]"
    and ar: "audit_references auth (service_audit (sv_ids env 0) (pc_library_id c) a
       (lit ''content.page.'' @ pc_action c) (lit ''page'') (pg_page_id p) (pc_request_id c) (le_changed_at event))"
    and f: "lifecycle_response env c p updated = Inr response" and ev: "event \<in> set (t_lifecycle_events db2)"
    and up: "updated \<in> set (t_pages db2)" and ok2: "store_ok db2 (sv_schema env) tr'"
    and tr': "set (tr (page_key p)) \<subseteq> set (tr' (page_key p))" "state_of_page updated \<in> set (tr' (page_key p))"
    and same: "same_rows db db2"
    by (rule write_transition_Inr [OF w ok sch(2) pr(1)])
  note t = transition_row_Inr [OF r ok pr(1)]
  obtain deleted occurred original updated_at where
    z: "(case pg_deleted_at updated of None \<Rightarrow> Inr None | Some d \<Rightarrow> bindR (wire d) (\<lambda>w. Inr (Some w))) = Inr deleted"
    "wire (pg_occurred_at p) = Inr occurred" "wire (pg_updated_at p) = Inr original"
    "wire (pg_updated_at updated) = Inr updated_at"
    and bv: "library_lifecycle_body_valid (lifecycle_answer c p updated deleted occurred original updated_at)"
    and bs: "utf8_encode (sv_dump env (library_lifecycle_body_json (lifecycle_answer c p updated deleted occurred original updated_at)))
      = Some (or_body response)"
    and rsp: "page_etag ?sha updated = Inr (or_etag response)" "or_status response = 200"
    "or_media_type response = lit ''application/json''" "or_location response = None"
    "or_request_id response = pc_request_id c" "or_timestamp response = updated_at"
    by (rule lifecycle_response_Inr [OF f])
  let ?b = "lifecycle_answer c p updated deleted occurred original updated_at"
  have k: "page_key updated = page_key p" "pg_page_id updated = pg_page_id p" using t(2) by (simp_all add: page_key_def)
  have sc: "vc_library_id scope = pc_library_id c" "vc_actor_home_library_id scope = ca_library_id (ac_caller a)"
    "vc_caller_id scope = ca_id (ac_caller a)"
    "(ir_method request, ir_route_template request) = lifecycle_route (pc_action c)"
    "library_lifecycle_fingerprint ?sha c = Inr (ir_request_fingerprint request)"
    using q by (auto simp: lifecycle_request_def validated_scope_def make_request_def Let_def split: if_splits elim!: bindR_InrE)
  have kp: "page_key p = (vc_library_id scope, pg_page_uid p)" using pr(2) sc(1) by (simp add: page_key_def)
  have act: "pc_action c = (if yb_state ?b = lit ''trashed'' then DELETE else lit ''restore'')"
    using t(2,4) by (auto simp: lifecycle_answer_def DELETE_def lit_def)
  have cmd: "lifecycle_receipt_command ?x ?b (pc_action c) = c"
    using pr rsp(5) by (simp add: lifecycle_receipt_command_def lifecycle_answer_def)
  have del: "deleted = (if pc_action c = DELETE then Some updated_at else None)"
    using z(1,4) t(2) by (auto elim!: bindR_InrE)
  show ?thesis
  proof (intro exI lifecycle_receipt_Inr_intro [where action = "pc_action c" and before = "state_of_page p"
        and after = "state_of_page updated" and uid = "pg_page_uid p"])
    let ?t = "\<lparr>tl_library_id = fst (page_key p), tl_page_uid = snd (page_key p), tl_page_id = pg_page_id p,
       tl_states = tr' (page_key p)\<rparr>"
    show "sv_schema env \<in> set LIBRARY_LIFECYCLE_REVISIONS" by (rule sch(1))
    show "canonical_body env library_lifecycle_body_of library_lifecycle_body_json (or_body (ic_response ?x)) = Inr ?b"
      using canonical_body_written [where b = ?b] rd bv bs library_lifecycle_body_round [OF bv]
      by (simp add: receipts_readable_def)
    show "registered_page ?sha (ap_content app) (vc_library_id (ic_caller ?x)) (yb_page_id ?b) = Inr (pg_page_uid p)"
      using pr(3,4) same sc(1) by (simp add: lifecycle_answer_def app registered_page_def same_rows_def other_tables_def)
    show "load_page_state_timeline (ap_content app) (sv_schema env) (vc_library_id (ic_caller ?x), pg_page_uid p) = Inr ?t"
      using timeline_loaded [OF ok2 up] kp k by (simp add: app)
    have "state_of_page p \<in> set (tr (page_key p))"
      using store_trace_last(1,2) [OF ok pr(1)] last_in_set [of "tr (page_key p)"] by simp
    then have "state_of_page p \<in> set (tr' (page_key updated))" "state_of_page updated \<in> set (tr' (page_key updated))"
      using tr' k by auto
    note sa = state_at_found [OF ok2 up this(1)] state_at_found [OF ok2 up this(2)]
    show "state_at ?t (yb_original_updated_at ?b) = Inr (state_of_page p)"
      using sa(1) [OF _ wire_parsed [OF z(3)]] k by (simp add: lifecycle_answer_def state_of_page_def)
    show "state_at ?t (yb_updated_at ?b) = Inr (state_of_page updated)"
      using sa(2) [OF _ wire_parsed [OF z(4)]] k by (simp add: lifecycle_answer_def state_of_page_def)
    show "pc_action c = (if yb_state ?b = lit ''trashed'' then DELETE else lit ''restore'')" by (rule act)
    show "lifecycle_record_matches ?sha ?x ?b (pc_action c) ?t"
      unfolding lifecycle_record_matches_def cmd using v sc rsp pr by (simp add: lifecycle_answer_def)
    show "lifecycle_states_match ?b (pc_action c) (state_of_page p) (state_of_page updated)"
      using t(1,2,5) z(2) del
      by (auto simp: lifecycle_states_match_def lifecycle_answer_def state_of_page_def DELETE_def)
    show "state_etag ?sha (pg_page_uid p) (state_of_page p) = Inr (yb_request_etag ?b)"
      using e by (simp add: state_etag_def page_etag_def state_of_page_def lifecycle_answer_def)
    show "state_etag ?sha (pg_page_uid p) (state_of_page updated) = Inr (or_etag (ic_response ?x))"
      using rsp(1) k by (simp add: state_etag_def page_etag_def state_of_page_def page_key_def)
    show "lifecycle_events_match (ap_content app) ?x ?b (pg_page_uid p) (pc_action c) (state_of_page p) (state_of_page updated)"
      using event_found(1) [OF ok2 sch(2) up ev] t kp k sc rsp(5)
      by (simp add: lifecycle_events_match_def app state_of_page_def lifecycle_answer_def)
    let ?a = "service_audit (sv_ids env 0) (pc_library_id c) a
       (lit ''content.page.'' @ pc_action c) (lit ''page'') (pg_page_id p) (pc_request_id c) (le_changed_at event)"
    obtain cr where cr: "cr \<in> set (a_credentials auth)" "au_actor_credential_id ?a = Some (cr_id cr)"
      "au_actor_caller_id ?a = Some (cr_caller_id cr)" "au_actor_home_library_id ?a = Some (cr_library_id cr)"
      using ar by (auto simp: audit_references_def list_ex_iff)
    show "lifecycle_audits_match app ?x ?b (pc_action c) (state_of_page updated)"
      by (rule lifecycle_audits_found [OF td au, where a = ?a and c = cr])
        (use aa cr t sc rsp(5) in \<open>auto simp: app service_audit_def lifecycle_answer_def state_of_page_def\<close>)
  qed
qed

section \<open>A fresh move\<close>

lemma prepare_page_move_Inr:
  assumes "prepare_page_move sha db library i source target etag now = Inr plan"
  shows "get_page sha db library i = Inr (Some (mp_page plan))" and "pg_deleted_at (mp_page plan) = None"
    and "(pg_section_id (mp_page plan), pg_book_id (mp_page plan)) = source"
    and "page_etag sha (mp_page plan) = Inr etag"
    and "(mp_target_section_id plan, mp_target_book_id plan) = target"
    and "mp_sequence plan = None \<longleftrightarrow> source = target"
    and "mp_sequence plan = None \<Longrightarrow> mp_updated_at plan = pg_updated_at (mp_page plan)"
    and "mp_sequence plan \<noteq> None \<Longrightarrow> pg_updated_at (mp_page plan) < mp_updated_at plan"
  using assms by (auto simp: prepare_page_move_def Let_def less_max_iff_disj split: option.splits if_splits elim!: bindR_InrE)

definition moved_page :: "page_move_plan \<Rightarrow> page" where
  "moved_page plan = (mp_page plan)\<lparr>pg_section_id := mp_target_section_id plan,
     pg_book_id := mp_target_book_id plan, pg_updated_at := mp_updated_at plan\<rparr>"

lemma apply_move_Inr:
  assumes m: "apply_page_move plan None (Some i) db = Inr db'" and s: "mp_sequence plan \<noteq> None"
    and ok: "store_ok db schema tr" and p: "mp_page plan \<in> set (t_pages db)"
  obtains e where "me_key e = page_key (mp_page plan)" "me_old_section_id e = pg_section_id (mp_page plan)"
    "me_old_book_id e = pg_book_id (mp_page plan)" "me_new_section_id e = mp_target_section_id plan"
    "me_new_book_id e = mp_target_book_id plan" "me_old_updated_at e = pg_updated_at (mp_page plan)"
    "me_changed_at e = mp_updated_at plan" "me_at_revision_id e = pg_current_revision_id (mp_page plan)"
    "me_at_revision_number e = pg_current_revision_number (mp_page plan)"
    "me_occurred_at_at_event e = pg_occurred_at (mp_page plan)" "me_master_audit_event_id e = None"
    "me_caller_audit_event_id e = Some i"
    "db' = (set_page (moved_page plan) db)\<lparr>t_move_events := t_move_events db @ [e]\<rparr>"
proof -
  let ?p = "mp_page plan"
  obtain n where n: "mp_sequence plan = Some n" using s by auto
  define e where "e = \<lparr>me_library_id = pg_library_id ?p, me_page_uid = pg_page_uid ?p, me_sequence = n,
               me_old_section_id = pg_section_id ?p, me_old_book_id = pg_book_id ?p,
               me_new_section_id = mp_target_section_id plan, me_new_book_id = mp_target_book_id plan,
               me_old_updated_at = pg_updated_at ?p, me_changed_at = mp_updated_at plan,
               me_at_revision_id = pg_current_revision_id ?p,
               me_at_revision_number = pg_current_revision_number ?p,
               me_occurred_at_at_event = pg_occurred_at ?p, me_master_audit_event_id = None,
               me_caller_audit_event_id = Some i\<rparr>"
  have w: "write_move ?p e db = Inr db'" using m n by (simp add: apply_page_move_def Let_def e_def)
  have k: "me_key e = page_key ?p" by (simp add: e_def me_key_def page_key_def)
  obtain old where old: "old \<in> set (t_pages db)" "page_key old = page_key ?p"
    and db': "db' = (set_page (old\<lparr>pg_section_id := me_new_section_id e, pg_book_id := me_new_book_id e,
              pg_updated_at := me_changed_at e\<rparr>) db)\<lparr>t_move_events := t_move_events db @ [e]\<rparr>"
    by (rule write_move_Inr [OF w k]) (auto simp: e_def store_distinct [OF ok])
  have "old = ?p" by (rule page_row_unique [OF ok old(1) p old(2)])
  then show ?thesis using db' k by (intro that [of e]) (simp_all add: e_def moved_page_def)
qed

text \<open>The store a move leaves.\<close>

lemma write_page_move_Inr:
  assumes w: "write_page_move env now c a plan auth db = Inr (db2, response)" and s: "mp_sequence plan \<noteq> None"
    and ok: "store_ok db schema tr" and sch: "schema \<in> set CALLER_MOVE_REVISIONS" and p: "mp_page plan \<in> set (t_pages db)"
  obtains e tr' where "me_key e = page_key (mp_page plan)" "me_old_section_id e = pg_section_id (mp_page plan)"
    "me_old_book_id e = pg_book_id (mp_page plan)" "me_new_section_id e = mp_target_section_id plan"
    "me_new_book_id e = mp_target_book_id plan" "me_old_updated_at e = pg_updated_at (mp_page plan)"
    "me_changed_at e = mp_updated_at plan" "me_at_revision_id e = pg_current_revision_id (mp_page plan)"
    "me_at_revision_number e = pg_current_revision_number (mp_page plan)"
    "me_occurred_at_at_event e = pg_occurred_at (mp_page plan)" "me_master_audit_event_id e = None"
    "me_caller_audit_event_id e = Some (sv_ids env 0)"
    "t_audits db2 = t_audits db @ [service_audit (sv_ids env 0) (vm_library_id c) a (lit ''content.page.move'')
       (lit ''page'') (vm_page_id c) (vm_request_id c) (mp_updated_at plan)]"
    "move_response env now c plan = Inr response" "e \<in> set (t_move_events db2)"
    "moved_page plan \<in> set (t_pages db2)" "store_ok db2 schema tr'" "store_steps sha (db, tr) (db2, tr')"
    "set (tr (page_key (mp_page plan))) \<subseteq> set (tr' (page_key (mp_page plan)))"
    "state_of_page (moved_page plan) \<in> set (tr' (page_key (mp_page plan)))" "same_rows db db2"
proof -
  let ?p = "mp_page plan" and ?new = "moved_page plan"
  let ?a = "service_audit (sv_ids env 0) (vm_library_id c) a (lit ''content.page.move'')
       (lit ''page'') (vm_page_id c) (vm_request_id c) (mp_updated_at plan)"
  obtain db1 where x: "add_audit_event auth ?a db = Inr db1" and m: "apply_page_move plan None (Some (sv_ids env 0)) db1 = Inr db2"
    and f: "move_response env now c plan = Inr response"
    using w s unfolding write_page_move_def by (auto elim!: bindR_InrE split: if_splits)
  have ia: "insert_audit ?a db = Inr db1" using x by (auto simp: add_audit_event_def split: if_splits)
  have ok1: "store_ok db1 schema tr" by (rule neutral_store_ok [OF ok insert_audit_neutral [OF ok ia]])
  have t1: "t_pages db1 = t_pages db" "t_audits db1 = t_audits db @ [?a]" using add_audit_Inr [OF x] by simp_all
  have p1: "?p \<in> set (t_pages db1)" using p t1 by simp
  obtain e where e: "me_key e = page_key ?p" "me_old_section_id e = pg_section_id ?p"
    "me_old_book_id e = pg_book_id ?p" "me_new_section_id e = mp_target_section_id plan"
    "me_new_book_id e = mp_target_book_id plan" "me_old_updated_at e = pg_updated_at ?p"
    "me_changed_at e = mp_updated_at plan" "me_at_revision_id e = pg_current_revision_id ?p"
    "me_at_revision_number e = pg_current_revision_number ?p"
    "me_occurred_at_at_event e = pg_occurred_at ?p" "me_master_audit_event_id e = None"
    "me_caller_audit_event_id e = Some (sv_ids env 0)"
    and db2: "db2 = (set_page ?new db1)\<lparr>t_move_events := t_move_events db1 @ [e]\<rparr>"
    by (rule apply_move_Inr [OF m s ok1 p1])
  have k: "page_key ?new = page_key ?p" by (simp add: moved_page_def page_key_def)
  have n2: "?new \<in> set (t_pages db2)" "e \<in> set (t_move_events db2)" "t_audits db2 = t_audits db @ [?a]"
    using p1 k t1 by (auto simp: db2)
  note pt = page_transaction.move [OF s m]
  obtain new where new: "page_key new = page_key ?p" "new \<in> set (t_pages db2)"
    and ok2: "store_ok db2 schema (tr(page_key ?p := tr (page_key ?p) @ [state_of_page new]))"
    using page_transaction_step [OF pt ok1 sch] by blast
  have nu: "new = ?new" using page_row_unique [OF ok2 new(2) n2(1)] new(1) k by simp
  let ?tr = "tr(page_key ?p := tr (page_key ?p) @ [state_of_page ?new])"
  have "store_steps sha (db, tr) (db2, ?tr)"
    using store_step.change [OF pt new(2,1), where sha = sha and tr = tr] nu
      store_step.side [OF side_statement.audit [OF ia], where sha = sha and tr = tr]
    by (intro store_steps_trans [OF store_steps_one store_steps_one]) simp_all
  moreover have "same_rows db db2"
  proof -
    obtain g d1 cnd h n where "insert_move_guard g db1 = Inr d1" "update_pages cnd h d1 = Inr (db2, n)"
      using m s by (auto simp: apply_page_move_def write_move_def Let_def result_simps split: option.splits if_splits)
    moreover from this(1) have "same_rows db1 d1" "t_pages d1 = t_pages db1"
      by (auto simp: insert_move_guard_def same_rows_def other_tables_def split: if_splits)
    ultimately show ?thesis
      using update_pages_same_rows [of cnd h d1 db2 n] store_distinct [OF ok1] insert_audit_same_rows [OF ia] same_rows_trans
      by metis
  qed
  ultimately show ?thesis using ok2 nu
    by - (rule that [OF e n2(3) f n2(2,1), where tr' = ?tr], auto)
qed

definition move_answer :: "page_move_command \<Rightarrow> page_move_plan \<Rightarrow> pystr \<Rightarrow> pystr \<Rightarrow> pystr \<Rightarrow> page_move_body" where
  "move_answer c plan occurred original updated_at =
     \<lparr>vb_source_section_id = vm_source_section_id c, vb_source_book_id = vm_source_book_id c,
         vb_target_section_id = vm_target_section_id c, vb_target_book_id = vm_target_book_id c,
         vb_changed = (mp_sequence plan \<noteq> None), vb_library_id = vm_library_id c,
         vb_page_id = vm_page_id c, vb_revision_id = pg_current_revision_id (mp_page plan),
         vb_revision_number = pg_current_revision_number (mp_page plan), vb_occurred_at = occurred,
         vb_original_updated_at = original, vb_updated_at = updated_at,
         vb_request_etag = vm_expected_etag c\<rparr>"

lemma move_response_Inr:
  assumes "move_response env now c plan = Inr response"
  obtains occurred original updated_at where
    "wire (pg_occurred_at (mp_page plan)) = Inr occurred" "wire (pg_updated_at (mp_page plan)) = Inr original"
    "wire (mp_updated_at plan) = Inr updated_at"
    "page_move_body_valid (move_answer c plan occurred original updated_at)"
    "utf8_encode (sv_dump env (page_move_body_json (move_answer c plan occurred original updated_at))) = Some (or_body response)"
    "page_current_etag (sv_sha env) (pg_page_uid (mp_page plan)) (pg_current_revision_id (mp_page plan))
       (pg_current_revision_number (mp_page plan)) (pg_occurred_at (mp_page plan)) (mp_updated_at plan) = Inr (or_etag response)"
    "or_status response = 200" "or_location response = None" "or_request_id response = vm_request_id c"
  using assms that unfolding move_response_def Let_def move_answer_def [symmetric] utf8_bytes_def
  by (fastforce elim!: bindR_InrE simp: optionR_Inr)

text \<open>What a receipt of a move reads, from the two states and the rows of the move.\<close>

lemma move_receipt_of_states:
  assumes f: "move_response env now c plan = Inr response" and q: "move_request env c key a = Inr (scope, request)"
    and pl: "prepare_page_move (sv_sha env) db (vm_library_id c) (vm_page_id c)
       (vm_source_section_id c, vm_source_book_id c) (vm_target_section_id c, vm_target_book_id c)
       (vm_expected_etag c) now = Inr plan"
    and pr: "pg_library_id (mp_page plan) = vm_library_id c" "pg_page_id (mp_page plan) = vm_page_id c"
    and g: "registered_page (sv_sha env) (ap_content app) (vm_library_id c) (vm_page_id c) = Inr (pg_page_uid (mp_page plan))"
    and ok: "store_ok (ap_content app) (sv_schema env) tr"
    and row: "r \<in> set (t_pages (ap_content app))" "page_key r = page_key (mp_page plan)"
      "pg_page_id r = pg_page_id (mp_page plan)"
    and st: "state_of_page (mp_page plan) \<in> set (tr (page_key r))" "result \<in> set (tr (page_key r))"
      "result = state_of_page (if mp_sequence plan = None then mp_page plan else moved_page plan)"
    and ev: "mp_sequence plan \<noteq> None \<Longrightarrow> move_events_match (ap_content app)
       \<lparr>ic_caller = scope, ic_request = request, ic_response = response\<rparr>
       (move_answer c plan occ orig upd) (pg_page_uid (mp_page plan)) (state_of_page (mp_page plan)) result"
    and rd: "receipts_readable env" and v: "page_move_command_valid c"
  shows "\<exists>b. move_receipt_body env app \<lparr>ic_caller = scope, ic_request = request, ic_response = response\<rparr> = Inr b"
proof -
  let ?x = "\<lparr>ic_caller = scope, ic_request = request, ic_response = response\<rparr>" and ?sha = "sv_sha env" and ?p = "mp_page plan"
  note pp = prepare_page_move_Inr [OF pl]
  obtain occurred original updated_at where
    z: "wire (pg_occurred_at ?p) = Inr occurred" "wire (pg_updated_at ?p) = Inr original"
    "wire (mp_updated_at plan) = Inr updated_at"
    and bv: "page_move_body_valid (move_answer c plan occurred original updated_at)"
    and bs: "utf8_encode (sv_dump env (page_move_body_json (move_answer c plan occurred original updated_at))) = Some (or_body response)"
    and et: "page_current_etag ?sha (pg_page_uid ?p) (pg_current_revision_id ?p)
       (pg_current_revision_number ?p) (pg_occurred_at ?p) (mp_updated_at plan) = Inr (or_etag response)"
    and rsp: "or_status response = 200" "or_location response = None" "or_request_id response = vm_request_id c"
    by (rule move_response_Inr [OF f])
  let ?b = "move_answer c plan occurred original updated_at"
  have sc: "vc_library_id scope = vm_library_id c" "ir_method request = lit ''POST''"
    "ir_route_template request = PAGE_MOVE_ROUTE_TEMPLATE" "move_fingerprint ?sha c = Inr (ir_request_fingerprint request)"
    using q by (auto simp: move_request_def validated_scope_def make_request_def Let_def split: if_splits elim!: bindR_InrE)
  have kp: "page_key r = (vc_library_id scope, pg_page_uid ?p)" using pr sc(1) row by (simp add: page_key_def)
  have cmd: "move_receipt_command ?x ?b = c" using rsp(3) by (simp add: move_receipt_command_def move_answer_def)
  have up: "ps_updated_at result = mp_updated_at plan" using st(3) pp(7) by (auto simp: state_of_page_def moved_page_def)
  have pl2: "ps_section_id result = vm_target_section_id c \<and> ps_book_id result = vm_target_book_id c"
    using st(3) pp(3,5,6) by (auto simp: state_of_page_def moved_page_def)
  have eq: "move_events_match (ap_content app) ?x ?b (pg_page_uid ?p) (state_of_page ?p) result"
    if "mp_sequence plan \<noteq> None" using ev [OF that] by (simp add: move_events_match_def move_answer_def)
  show ?thesis
  proof (intro exI move_receipt_Inr_intro [where source = "state_of_page ?p" and result = result and uid = "pg_page_uid ?p"])
    let ?t = "\<lparr>tl_library_id = fst (page_key r), tl_page_uid = snd (page_key r), tl_page_id = pg_page_id r,
       tl_states = tr (page_key r)\<rparr>"
    show "canonical_body env page_move_body_of page_move_body_json (or_body (ic_response ?x)) = Inr ?b"
      using canonical_body_written [where b = ?b] rd bv bs page_move_body_round [OF bv] by (simp add: receipts_readable_def)
    show "registered_page ?sha (ap_content app) (vc_library_id (ic_caller ?x)) (vb_page_id ?b) = Inr (pg_page_uid ?p)"
      using g sc(1) by (simp add: move_answer_def)
    show "load_page_state_timeline (ap_content app) (sv_schema env) (vc_library_id (ic_caller ?x), pg_page_uid ?p) = Inr ?t"
      using timeline_loaded [OF ok row(1)] kp by simp
    show "state_at ?t (vb_original_updated_at ?b) = Inr (state_of_page ?p)"
      using state_at_found [OF ok row(1) st(1) _ wire_parsed [OF z(2)]] by (simp add: move_answer_def state_of_page_def)
    show "state_at ?t (vb_updated_at ?b) = Inr result"
      using state_at_found [OF ok row(1) st(2) _ wire_parsed [OF z(3)]] up by (simp add: move_answer_def)
    show "move_record_matches ?sha ?x ?b ?t"
      unfolding move_record_matches_def cmd using v sc rsp pr row by (simp add: move_answer_def)
    show "move_states_match ?b (state_of_page ?p) result"
      using pl2 st(3) pp(2,3) wire_parsed [OF z(1)]
      by (auto simp: move_states_match_def move_answer_def state_of_page_def moved_page_def)
    show "state_etag ?sha (pg_page_uid ?p) (state_of_page ?p) = Inr (vb_request_etag ?b)"
      using pp(4) by (simp add: state_etag_def page_etag_def state_of_page_def move_answer_def)
    show "state_etag ?sha (pg_page_uid ?p) result = Inr (or_etag (ic_response ?x))"
      using et st(3) pp(7) by (auto simp: state_etag_def state_of_page_def moved_page_def)
    show "if vb_changed ?b then move_events_match (ap_content app) ?x ?b (pg_page_uid ?p) (state_of_page ?p) result
        \<and> ps_updated_at (state_of_page ?p) < ps_updated_at result else state_of_page ?p = result"
      using eq st(3) pp(8) up by (auto simp: move_answer_def state_of_page_def)
  qed
qed

end
