(* ===== verification/CallerStores.thy ===== *)
theory CallerStores
  imports CallerRequests
begin

text \<open>
  The stores that callers reach by requests of every kind, with books and credentials that are added in
  between: each receipt they hold stays valid.
\<close>

section \<open>The records of the archive service\<close>

definition ARCHIVE_ROUTES :: "pystr list" where
  "ARCHIVE_ROUTES = [CREATE_ROUTE_TEMPLATE, REVISE_ROUTE_TEMPLATE, CORRECT_OCCURRENCE_ROUTE_TEMPLATE,
     DELETE_PAGE_ROUTE_TEMPLATE, RESTORE_PAGE_ROUTE_TEMPLATE]"

definition CALLER_ROUTES :: "pystr list" where
  "CALLER_ROUTES = [LIBRARY_DELETE_PAGE_ROUTE, LIBRARY_RESTORE_PAGE_ROUTE]"

lemma routes_apart:
  "set ARCHIVE_ROUTES \<inter> set CALLER_ROUTES = {}" "PAGE_MOVE_ROUTE_TEMPLATE \<notin> set ARCHIVE_ROUTES"
  "PAGE_MOVE_ROUTE_TEMPLATE \<notin> set CALLER_ROUTES"
  by code_simp+

definition recorded_on :: "pystr list \<Rightarrow> idempotency_record list \<Rightarrow> idempotency_record list \<Rightarrow> bool" where
  "recorded_on routes rs rs' \<longleftrightarrow>
     (\<forall>x \<in> set rs'. x \<in> set rs \<or> ir_route_template (ic_request x) \<in> set routes)"

lemma recorded_on_refl [simp]: "recorded_on routes rs rs"
  by (simp add: recorded_on_def)

lemma record_success_on:
  assumes "record_success auth rs c q p = Inr (rs', r)" "ir_route_template q \<in> set routes"
  shows "recorded_on routes rs rs'"
  using assms(1)
proof (cases rule: record_success_cases)
  case 1
  then show ?thesis by simp
next
  case 2
  then have "rs' = rs @ [r]" by (auto simp: add_record_def split: if_splits)
  then show ?thesis using 2(2) assms(2) by (auto simp: recorded_on_def)
qed

lemma make_request_route: "make_request m t k f = Inr q \<Longrightarrow> ir_route_template q = t \<and> ir_method q = m"
  by (auto simp: make_request_def Let_def split: if_splits)

lemma service_step_routes:
  assumes "service_step env app app'"
  shows "recorded_on ARCHIVE_ROUTES (ap_records app) (ap_records app')"
proof -
  have r: "recorded_on ARCHIVE_ROUTES rs rs'"
    if "make_request m t k f = Inr q" "record_success auth rs c q p = Inr (rs', x)" "t \<in> set ARCHIVE_ROUTES"
    for m t k f q auth rs c p rs' x
    using record_success_on [OF that(2)] make_request_route [OF that(1)] that(3) by simp
  note route = ARCHIVE_ROUTES_def
  from assms show ?thesis
  proof cases
    case created
    then show ?thesis unfolding create_archive_def replay_create_def Let_def
      by (auto elim!: bindR_InrE split: option.splits if_splits) (erule (1) r, simp add: route)+
  next
    case revised
    then show ?thesis unfolding append_revision_def
      by (auto elim!: bindR_InrE split: option.splits if_splits) (erule (1) r, simp add: route)+
  next
    case corrected
    then show ?thesis unfolding correct_occurrence_def
      by (auto elim!: bindR_InrE split: option.splits if_splits) (erule (1) r, simp add: route)+
  next
    case transitioned
    then show ?thesis unfolding transition_page_lifecycle_def transition_authorized_def
      by (auto elim!: bindR_InrE split: option.splits) (erule (1) r, simp add: route)+
  next
    case restored
    then show ?thesis unfolding restore_page_as_operator_def transition_authorized_def
      by (auto elim!: bindR_InrE split: option.splits) (erule (1) r, simp add: route)+
  qed
qed

section \<open>What a reached store keeps\<close>

definition receipt_ok :: "service_env \<Rightarrow> app_db \<Rightarrow> idempotency_record \<Rightarrow> bool" where
  "receipt_ok env app x \<longleftrightarrow>
     (ir_route_template (ic_request x) \<in> set CALLER_ROUTES \<longrightarrow> (\<exists>b. lifecycle_receipt_body env app x = Inr b))
     \<and> (ir_route_template (ic_request x) = PAGE_MOVE_ROUTE_TEMPLATE \<longrightarrow> (\<exists>b. move_receipt_body env app x = Inr b))"

definition library_sound :: "service_env \<Rightarrow> app_db \<Rightarrow> traces \<Rightarrow> bool" where
  "library_sound env app tr \<longleftrightarrow>
     reachable (sv_sha env) (ap_content app) tr \<and> auth_ok (sv_sha env) (ap_auth app)
     \<and> audits_tied (ap_content app) \<and> service_rows (sv_sha env) (ap_content app)
     \<and> list_all (receipt_ok env app) (ap_records app)"

lemma reachable_later:
  assumes r: "reachable sha db tr" and s: "store_steps sha (db, tr) (db', tr')" and sch: "schema \<in> set CALLER_MOVE_REVISIONS"
  shows "reachable sha db' tr'" and "store_ok db schema tr" and "store_ok db' schema tr'"
    and "store_extends (db, tr) (db', tr')" and "rows_unique db'" and "events_grow db db'" and "places_distinct db"
proof -
  show r': "reachable sha db' tr'" using r s unfolding reachable_def by (rule store_steps_trans)
  show ok: "store_ok db schema tr" by (rule reachable_store_ok [OF r sch])
  show p: "places_distinct db" by (rule reachable_places [OF r])
  show "store_ok db' schema tr'" "store_extends (db, tr) (db', tr')" "rows_unique db'"
    using store_steps_keep [OF s ok reachable_unique [OF r] sch] by simp_all
  show "events_grow db db'" using store_steps_receipts [OF s ok sch p] by simp
qed

lemma run_receipts_later:
  assumes "reachable sha (ap_content app) tr" "auth_ok sha (ap_auth app)" "app_run sha (app, tr) (app', tr')"
    and "audits_tied (ap_content app')" and sch: "schema \<in> set CALLER_MOVE_REVISIONS"
  shows "receipts_later schema sha (app, tr) (app', tr')"
proof -
  have st: "store_steps sha (ap_content app, tr) (ap_content app', tr')" and "auth_steps sha (ap_auth app) (ap_auth app')"
    using assms(3) by (simp_all add: app_run_def)
  then show ?thesis
    using reachable_later [OF assms(1) st sch] auth_steps_ok [OF _ assms(2)] assms(4) by (simp add: receipts_later_def)
qed

lemma receipt_ok_kept:
  assumes "receipt_ok env app x" "receipts_later (sv_schema env) sha (app, tr) (app', tr')"
    and "sv_schema env \<in> set CALLER_MOVE_REVISIONS"
  shows "receipt_ok env app' x"
  using lifecycle_receipt_kept [OF _ assms(2,3)] move_receipt_kept [OF _ assms(2,3)] assms(1)
  unfolding receipt_ok_def by blast

text \<open>A run that keeps the audit rows and the service rows, and whose new records are receipts.\<close>

lemma library_sound_run:
  assumes s: "library_sound env app tr" and run: "app_run (sv_sha env) (app, tr) (app', tr')"
    and sch: "sv_schema env \<in> set CALLER_MOVE_REVISIONS"
    and au: "audits_tied (ap_content app')" and rows: "service_rows (sv_sha env) (ap_content app')"
    and new: "\<And>x. x \<in> set (ap_records app') \<Longrightarrow> x \<notin> set (ap_records app) \<Longrightarrow> receipt_ok env app' x"
  shows "library_sound env app' tr'"
proof -
  have r: "reachable (sv_sha env) (ap_content app) tr" "auth_ok (sv_sha env) (ap_auth app)"
    using s by (simp_all add: library_sound_def)
  note l = run_receipts_later [OF r run au sch]
  have "receipt_ok env app' x" if "x \<in> set (ap_records app')" for x
  proof (cases "x \<in> set (ap_records app)")
    case True
    then have "receipt_ok env app x" using s by (simp add: library_sound_def list_all_iff)
    then show ?thesis by (rule receipt_ok_kept [OF _ l sch])
  next
    case False
    then show ?thesis using new that by blast
  qed
  moreover have "reachable (sv_sha env) (ap_content app') tr'"
    using run reachable_later(1) [OF r(1) _ sch] unfolding app_run_def fst_conv snd_conv by blast
  ultimately show ?thesis
    using auth_steps_ok [OF _ r(2)] run au rows by (simp add: library_sound_def list_all_iff app_run_def)
qed

lemma archive_sound:
  assumes s: "library_sound env app tr" and st: "service_step env' app app'" and c: "same_codec env env'"
    and sch: "sv_schema env \<in> set CALLER_MOVE_REVISIONS"
  shows "\<exists>tr'. library_sound env app' tr' \<and> app_run (sv_sha env) (app, tr) (app', tr')"
proof -
  have h: "reachable (sv_sha env) (ap_content app) tr" "audits_tied (ap_content app)"
    "service_rows (sv_sha env) (ap_content app)" using s by (simp_all add: library_sound_def)
  have e: "sv_sha env' = sv_sha env" using c by (simp add: same_codec_def)
  have ok: "store_ok (ap_content app) (sv_schema env) tr" by (rule reachable_store_ok [OF h(1) sch])
  obtain tr' where run: "app_run (sv_sha env) (app, tr) (app', tr')" using service_step_run [OF st ok sch] e by auto
  note w = service_step_write [OF st]
  have "pages_advance (ap_content app) (ap_content app')"
    using run reachable_later(4) [OF h(1) _ sch] unfolding app_run_def store_extends_def fst_conv snd_conv by blast
  then have au: "audits_tied (ap_content app')" by (rule audits_tied_kept [OF h(2) content_write_audits [OF w]])
  have rows: "service_rows (sv_sha env) (ap_content app')"
    using content_write_rows [OF w] h(3) store_distinct [OF ok] e by simp
  have "receipt_ok env app' x" if "x \<in> set (ap_records app')" "x \<notin> set (ap_records app)" for x
  proof -
    have "ir_route_template (ic_request x) \<in> set ARCHIVE_ROUTES"
      using service_step_routes [OF st] that by (auto simp: recorded_on_def)
    then show ?thesis using routes_apart by (auto simp: receipt_ok_def)
  qed
  then show ?thesis using library_sound_run [OF s run sch au rows] run by blast
qed

section \<open>Deletions and restorations\<close>

lemma changeE_Inr [simp]: "changeE r = Inr x \<longleftrightarrow> r = Inr x"
  by (cases r) simp_all

lemma authorize_page_move_steps:
  "authorize_page_move sha touch now token library db = Inr (db', a) \<Longrightarrow> auth_steps sha db db'"
  using authenticate_steps unfolding authorize_page_move_def
  by (fastforce split: if_splits option.splits library_policy.splits elim!: bindR_InrE)

lemma transition_Inr:
  assumes "transition env u token c key app = Inr (app', response)"
  obtains (replayed) now auth a scope request x where "change_time env = Inr now"
      "authorize_page_move (sv_sha env) True now token (pc_library_id c) (ap_auth app) = Inr (auth, a)"
      "lifecycle_request env c key a = Inr (scope, request)"
      "get_record (ap_records app) scope request = Inr (Some x)" "app' = app\<lparr>ap_auth := auth\<rparr>"
      "response = ic_response x" "require_matching_fingerprint x request = Inr ()"
  | (fresh) now auth a scope request p db records where "sv_schema env \<in> set LIBRARY_LIFECYCLE_REVISIONS"
      "change_time env = Inr now"
      "authorize_page_move (sv_sha env) True now token (pc_library_id c) (ap_auth app) = Inr (auth, a)"
      "lifecycle_request env c key a = Inr (scope, request)"
      "get_record (ap_records app) scope request = Inr None"
      "lifecycle_target env u c (ap_content app) = Inr p"
      "write_transition env now c a p auth (ap_content app) = Inr (db, response)"
      "record_success auth (ap_records app) scope request response
        = Inr (records, \<lparr>ic_caller = scope, ic_request = request, ic_response = response\<rparr>)"
      "app' = \<lparr>ap_content = db, ap_auth = auth, ap_records = records\<rparr>"
proof -
  have sc: "sv_schema env \<in> set LIBRARY_LIFECYCLE_REVISIONS"
    using assms by (simp add: transition_def split: if_splits)
  obtain now auth a scope request found where h: "change_time env = Inr now"
      "authorize_page_move (sv_sha env) True now token (pc_library_id c) (ap_auth app) = Inr (auth, a)"
      "lifecycle_request env c key a = Inr (scope, request)"
      "lookup_replay (ap_records app) scope request = Inr found"
    and t: "(case found of
          Some r \<Rightarrow> replay_receipt (validate_library_lifecycle_receipt env) scope request r (app\<lparr>ap_auth := auth\<rparr>)
        | None \<Rightarrow>
            bindR (lifecycle_target env u c (ap_content app)) (\<lambda>p.
            bindR (changeE (write_transition env now c a p auth (ap_content app))) (\<lambda>(db, response).
            record_receipt (validate_library_lifecycle_receipt env) scope request response
              (app\<lparr>ap_content := db, ap_auth := auth\<rparr>)))) = Inr (app', response)"
    using assms unfolding transition_def by (auto split: if_splits elim!: bindR_InrE)
  show ?thesis
  proof (cases found)
    case (Some r)
    then obtain x where x: "get_record (ap_records app) scope request = Inr (Some x)" "app' = app\<lparr>ap_auth := auth\<rparr>" "response = r"
      using t by (auto simp: replay_receipt_def split: option.splits elim!: bindR_InrE)
    then have "r = ic_response x" "require_matching_fingerprint x request = Inr ()"
      using h(4) Some by (auto simp: lookup_replay_def elim!: bindR_InrE)
    then show ?thesis using replayed [OF h(1,2,3)] x by simp
  next
    case None
    have g: "get_record (ap_records app) scope request = Inr None"
      using h(4) None by (auto simp: lookup_replay_def split: option.splits elim!: bindR_InrE)
    obtain p db records x where w: "lifecycle_target env u c (ap_content app) = Inr p"
      "write_transition env now c a p auth (ap_content app) = Inr (db, response)"
      and rs: "record_success auth (ap_records app) scope request response = Inr (records, x)"
      and app': "app' = \<lparr>ap_content = db, ap_auth = auth, ap_records = records\<rparr>"
      using t None by (auto simp: record_receipt_def Let_def elim!: bindR_InrE)
    have "x = \<lparr>ic_caller = scope, ic_request = request, ic_response = response\<rparr>"
      using rs by (cases rule: record_success_cases) (use g in simp_all)
    then show ?thesis using fresh [OF sc h(1,2,3) g w] rs app' by simp
  qed
qed

lemma lifecycle_target_Inr:
  assumes "lifecycle_target env u c db = Inr p"
  shows "get_page (sv_sha env) db (pc_library_id c) (pc_page_id c) = Inr (Some p)"
    and "page_etag (sv_sha env) p = Inr (pc_expected_etag c)"
  using assms by (auto simp: lifecycle_target_def archive_page_def Let_def split: if_splits option.splits elim!: bindR_InrE)

lemma lifecycle_request_route:
  "lifecycle_request env c key a = Inr (scope, request) \<Longrightarrow> ir_route_template request \<in> set CALLER_ROUTES"
  by (auto simp: lifecycle_request_def CALLER_ROUTES_def lifecycle_route_def elim!: bindR_InrE dest!: make_request_route
      split: if_splits)

text \<open>The audit row of a transition is the only one of its page at its time.\<close>

lemma write_transition_kept:
  assumes s: "library_sound env app tr" and sch: "sv_schema env \<in> set CALLER_MOVE_REVISIONS"
    and w: "write_transition env' now c a p auth (ap_content app) = Inr (db, response)"
    and g: "get_page (sv_sha env) (ap_content app) (pc_library_id c) (pc_page_id c) = Inr (Some p)"
  obtains tr' where "store_steps (sv_sha env) (ap_content app, tr) (db, tr')" "audits_tied db"
    "service_rows (sv_sha env) db"
proof -
  let ?d = "ap_content app"
  have h: "reachable (sv_sha env) ?d tr" "audits_tied ?d" "service_rows (sv_sha env) ?d"
    using s by (simp_all add: library_sound_def)
  have ok: "store_ok ?d (sv_schema env) tr" by (rule reachable_store_ok [OF h(1) sch])
  note pr = page_read [OF g reachable_unique [OF h(1)] _ store_distinct [OF ok]]
  have ir: "identifier_rows_sound (sv_sha env) ?d" using h(3) by (simp add: service_rows_def)
  obtain db1 updated event tr' where
    t: "transition_page_lifecycle_row p (pc_action c) (Some (ca_id (ac_caller a))) (Some (ca_library_id (ac_caller a)))
       None (pc_request_id c) now ?d = Inr (db1, updated, event)"
    and aa: "t_audits db = t_audits ?d @ [service_audit (sv_ids env' 0) (pc_library_id c) a
       (lit ''content.page.'' @ pc_action c) (lit ''page'') (pg_page_id p) (pc_request_id c) (le_changed_at event)]"
    and up: "updated \<in> set (t_pages db)" and st: "store_steps (sv_sha env) (?d, tr) (db, tr')" and same: "same_rows ?d db"
    by (rule write_transition_Inr [OF w ok sch pr(1) [OF ir], where sha = "sv_sha env"])
  note r = transition_row_Inr [OF t ok pr(1) [OF ir]]
  have "pages_advance ?d db" using reachable_later(4) [OF h(1) st sch] by (simp add: store_extends_def)
  from audits_tied_added [OF h(2) reachable_places [OF h(1)] this aa pr(1) [OF ir] _ _ up]
  have "audits_tied db" using r(1,2) pr(2) [OF ir] by (simp add: page_place_def service_audit_def)
  then show ?thesis using that [OF st] same_rows_service [OF same h(3)] by blast
qed

lemma transition_sound:
  assumes s: "library_sound env app tr" and t: "transition env' u token c key app = Inr (app', response)"
    and c: "same_codec env env'" and v: "page_lifecycle_command_valid c" and rd: "receipts_readable env"
    and sch: "sv_schema env \<in> set CALLER_MOVE_REVISIONS"
  shows "\<exists>tr'. library_sound env app' tr' \<and> app_run (sv_sha env) (app, tr) (app', tr')"
proof -
  have h: "reachable (sv_sha env) (ap_content app) tr" "auth_ok (sv_sha env) (ap_auth app)" "audits_tied (ap_content app)"
    "service_rows (sv_sha env) (ap_content app)" using s by (simp_all add: library_sound_def)
  have e: "sv_sha env' = sv_sha env" "sv_schema env' = sv_schema env" using c by (simp_all add: same_codec_def)
  from t show ?thesis
  proof (cases rule: transition_Inr)
    case (replayed now auth a scope request x)
    have "app_run (sv_sha env) (app, tr) (app', tr)"
      unfolding replayed(5) by (rule app_run_auth) (use authorize_page_move_steps [OF replayed(2)] e in simp)
    then show ?thesis using library_sound_run [OF s _ sch] h by (fastforce simp: replayed(5))
  next
    case (fresh now auth a scope request p db records)
    note tg = lifecycle_target_Inr [OF fresh(6), unfolded e]
    have s1: "auth_steps (sv_sha env) (ap_auth app) auth" using authorize_page_move_steps [OF fresh(3)] e by simp
    obtain tr' where w: "store_steps (sv_sha env) (ap_content app, tr) (db, tr')" "audits_tied db"
      "service_rows (sv_sha env) db" by (rule write_transition_kept [OF s sch fresh(7) tg(1)])
    have run: "app_run (sv_sha env) (app, tr) (app', tr')"
      using w(1) s1 record_success_get [OF fresh(8)] by (simp add: app_run_def fresh(9))
    have rd': "receipts_readable env'" using rd c by (simp add: receipts_readable_def same_codec_def)
    have f: "\<exists>b. lifecycle_receipt_body env' app' \<lparr>ic_caller = scope, ic_request = request, ic_response = response\<rparr> = Inr b"
      by (rule fresh_lifecycle_receipt [OF fresh(7,4)])
        (use tg reachable_store_ok [OF h(1) sch] fresh(1) sch e reachable_unique [OF h(1)] h(4) w(2)
          auth_steps_ok [OF s1 h(2)] rd' v in \<open>simp_all add: fresh(9) service_rows_def\<close>)
    have "receipt_ok env app' x" if "x \<in> set (ap_records app')" "x \<notin> set (ap_records app)" for x
    proof -
      have "records = ap_records app @ [\<lparr>ic_caller = scope, ic_request = request, ic_response = response\<rparr>]"
        using fresh(8) by (cases rule: record_success_cases) (use fresh(5) in \<open>auto simp: add_record_def split: if_splits\<close>)
      then have "x = \<lparr>ic_caller = scope, ic_request = request, ic_response = response\<rparr>" using that by (simp add: fresh(9))
      then show ?thesis
        using f lifecycle_request_route [OF fresh(4)] routes_apart(3)
        by (auto simp: receipt_ok_def same_codec_receipts [OF c])
    qed
    then show ?thesis using library_sound_run [OF s run sch] w run by (fastforce simp: fresh(9))
  qed
qed

end
