(* ===== verification/MasterPages.thy ===== *)
theory MasterPages
  imports CallerStores
begin

text \<open>
  The changes the administrator makes to single pages: \<open>_require_current_admin_session\<close>,
  \<open>_change_page_lifecycle_as_master\<close>, \<open>update_page_title_as_master\<close> and
  \<open>correct_page_occurrence_as_master\<close> of \<open>admin/service.py\<close>, with the audit rows of
  \<open>admin/master_audit.py\<close> and the check of the session generation of \<open>admin/master_token_store.py\<close>.
  A request runs in one transaction; when it fails the store stays as it was. The routes have
  already checked the form of the strings they pass.
\<close>

section \<open>The session\<close>

record master_session =
  ms_expires_at :: int
  ms_csrf_token :: pystr
  ms_identity_id :: pystr
  ms_session_generation :: int

record master_identity =
  mi_identity_id :: pystr
  mi_token_verifier :: pystr
  mi_session_generation :: int
  mi_created_at :: int
  mi_updated_at :: int

text \<open>The clock of the service counts microseconds, \<open>time()\<close> seconds; \<open>uuid4\<close> gives one value per use.\<close>

record master_env =
  mn_sha :: "bytes \<Rightarrow> bytes"
  mn_clock :: int
  mn_seconds :: int
  mn_uuid_hex :: "nat \<Rightarrow> pystr"

datatype master_error =
    MasterAuthentication | PageTitleNotFound | PageTitleVersionConflict | PageTitlePersistence
  | MasterArchive archive_error

definition audit_fingerprint :: "(bytes \<Rightarrow> bytes) \<Rightarrow> master_session \<Rightarrow> bytes sql" where
  "audit_fingerprint sha s =
     (if list_all (\<lambda>c. c < 128) (ms_csrf_token s) then Inr (sha (map of_nat (ms_csrf_token s)))
      else Inl BadValue)"

definition is_session_generation_current :: "master_identity option \<Rightarrow> pystr \<Rightarrow> int \<Rightarrow> bool" where
  "is_session_generation_current slot i generation \<longleftrightarrow>
     1 \<le> generation
     \<and> (case slot of None \<Rightarrow> False
        | Some m \<Rightarrow> mi_identity_id m = i \<and> mi_session_generation m = generation)"

definition require_current_admin_session ::
  "master_env \<Rightarrow> master_identity option \<Rightarrow> master_session option \<Rightarrow> bytes \<Rightarrow> master_error + unit" where
  "require_current_admin_session env slot session fingerprint =
     (case session of
        None \<Rightarrow> if slot \<noteq> None then Inl MasterAuthentication else Inr ()
      | Some s \<Rightarrow>
          bindR (mapE MasterArchive (audit_fingerprint (mn_sha env) s)) (\<lambda>own.
          if fingerprint \<noteq> own \<or> ms_expires_at s \<le> mn_seconds env
             \<or> \<not> is_session_generation_current slot (ms_identity_id s) (ms_session_generation s)
          then Inl MasterAuthentication else Inr ()))"

definition admitted :: "master_env \<Rightarrow> master_identity option \<Rightarrow> master_session \<Rightarrow> master_error + bytes" where
  "admitted env slot s =
     bindR (mapE MasterArchive (audit_fingerprint (mn_sha env) s)) (\<lambda>fingerprint.
     bindR (require_current_admin_session env slot (Some s) fingerprint) (\<lambda>_. Inr fingerprint))"

definition add_success ::
  "master_session \<Rightarrow> bytes \<Rightarrow> pystr \<Rightarrow> pystr \<Rightarrow> pystr \<Rightarrow> int \<Rightarrow> pystr \<Rightarrow> content_db \<Rightarrow> content_db sql" where
  "add_success s fingerprint action target_type target occurred_at event_id db =
     insert_master_audit
       \<lparr>ma_id = event_id, ma_identity_id = ms_identity_id s,
        ma_session_generation = ms_session_generation s, ma_session_fingerprint = fingerprint,
        ma_action = action, ma_target_type = target_type, ma_target_id = target,
        ma_occurred_at = occurred_at\<rparr> db"

section \<open>The requests\<close>

definition change_page_lifecycle_as_master ::
  "master_env \<Rightarrow> master_identity option \<Rightarrow> master_session \<Rightarrow> pystr \<Rightarrow> pystr \<Rightarrow> pystr \<Rightarrow> pystr \<Rightarrow> pystr
    \<Rightarrow> pystr option \<Rightarrow> content_db \<Rightarrow> master_error + content_db \<times> pystr" where
  "change_page_lifecycle_as_master env slot s library section page_id expected_etag action book db =
     bindR (admitted env slot s) (\<lambda>fingerprint.
     mapE MasterArchive
       (bindR (get_page (mn_sha env) db library page_id) (\<lambda>found.
        case found of
          None \<Rightarrow> Inl ArchiveNotFound
        | Some p \<Rightarrow>
            if pg_page_type p \<noteq> lit ''archive'' \<or> pg_section_id p \<noteq> section
               \<or> (case book of None \<Rightarrow> False | Some b \<Rightarrow> pg_book_id p \<noteq> b)
            then Inl ArchiveNotFound
            else
              bindR (page_etag (mn_sha env) p) (\<lambda>current_etag.
              if expected_etag \<noteq> current_etag then Inl PreconditionFailed
              else if (action = lit ''delete'') \<noteq> (pg_deleted_at p = None) then Inl LifecycleUnchanged
              else if pg_updated_at p \<ge> MAX_I64 then Inl ArchivePersistence
              else
                let changed_at = max (mn_clock env) (pg_updated_at p + 1); event_id = mn_uuid_hex env 0 in
                bindR (mapE (\<lambda>_. ArchivePersistence) (canonical_utc_wire changed_at)) (\<lambda>_.
                bindR (add_success s fingerprint (lit ''content.archive.'' @ action) (lit ''page'')
                   (page_target (library, pg_page_uid p)) changed_at event_id db) (\<lambda>db1.
                bindR (transition_page_lifecycle_row p action None None (Some event_id)
                   (lit ''req_'' @ mn_uuid_hex env 1) changed_at db1) (\<lambda>(db2, updated, event).
                bindR (page_etag (mn_sha env) updated) (\<lambda>etag. Inr (db2, etag)))))))))"

definition update_page_title_as_master ::
  "master_env \<Rightarrow> master_identity option \<Rightarrow> master_session \<Rightarrow> pystr \<Rightarrow> pystr \<Rightarrow> pystr \<Rightarrow> pystr \<Rightarrow> pystr
    \<Rightarrow> int \<Rightarrow> content_db \<Rightarrow> master_error + content_db" where
  "update_page_title_as_master env slot s library section book page_id title expected_updated_at db =
     bindR (admitted env slot s) (\<lambda>fingerprint.
     bindR (mapE MasterArchive (get_page (mn_sha env) db library page_id)) (\<lambda>found.
     case found of
       None \<Rightarrow> Inl PageTitleNotFound
     | Some p \<Rightarrow>
         if pg_section_id p \<noteq> section \<or> pg_book_id p \<noteq> book \<or> pg_deleted_at p \<noteq> None
         then Inl PageTitleNotFound
         else if pg_updated_at p \<noteq> expected_updated_at then Inl PageTitleVersionConflict
         else if pg_title p = title then Inr db
         else
           let changed_at = max (mn_clock env) (pg_updated_at p + 1) in
           bindR (mapE (\<lambda>_. PageTitlePersistence) (canonical_utc_wire changed_at)) (\<lambda>_.
           bindR (mapE MasterArchive (add_success s fingerprint (lit ''content.page.title.edit'') (lit ''page'')
              (page_target (library, pg_page_uid p)) changed_at (mn_uuid_hex env 0) db)) (\<lambda>db1.
           bindR (mapE MasterArchive (update_page_title p title changed_at db1)) (\<lambda>(db2, updated).
           if updated = None then Inl PageTitleVersionConflict else Inr db2)))))"

text \<open>The result tells whether the time was changed.\<close>

definition correct_page_occurrence_as_master ::
  "master_env \<Rightarrow> master_identity option \<Rightarrow> master_session \<Rightarrow> pystr \<Rightarrow> pystr \<Rightarrow> pystr \<Rightarrow> pystr \<Rightarrow> pystr
    \<Rightarrow> pystr \<Rightarrow> content_db \<Rightarrow> master_error + content_db \<times> bool" where
  "correct_page_occurrence_as_master env slot s library section book page_id declared expected_etag db =
     bindR (mapE MasterArchive (bad_value (parse_occurrence_time declared))) (\<lambda>time.
     bindR (admitted env slot s) (\<lambda>fingerprint.
     mapE MasterArchive
       (bindR (get_page (mn_sha env) db library page_id) (\<lambda>found.
        case found of
          None \<Rightarrow> Inl ArchiveNotFound
        | Some p \<Rightarrow>
            if pg_page_type p \<noteq> lit ''archive'' \<or> pg_section_id p \<noteq> section \<or> pg_book_id p \<noteq> book
               \<or> pg_deleted_at p \<noteq> None
            then Inl ArchiveNotFound
            else
              bindR (page_etag (mn_sha env) p) (\<lambda>etag.
              if expected_etag \<noteq> etag then Inl PreconditionFailed
              else if utc_microseconds time = pg_occurred_at p then Inr (db, False)
              else
                let changed_at = max (mn_clock env) (pg_updated_at p + 1); event_id = mn_uuid_hex env 0;
                    command =
                      \<lparr>cg_library_id = pg_library_id p, cg_page_uid = pg_page_uid p, cg_sequence = 0,
                       cg_old_occurred_at = pg_occurred_at p, cg_new_occurred_at = utc_microseconds time,
                       cg_actor_caller_id = None, cg_actor_home_library_id = None,
                       cg_master_audit_event_id = Some event_id, cg_corrected_at = changed_at\<rparr> in
                bindR (mapE (\<lambda>_. ArchivePersistence) (canonical_utc_wire changed_at)) (\<lambda>_.
                bindR (add_success s fingerprint (lit ''content.page.occurrence.correct'') (lit ''page'')
                   (page_target (library, pg_page_uid p)) changed_at event_id db) (\<lambda>db1.
                bindR (requireR (correction_command_valid command) BadValue) (\<lambda>_.
                bindR (correct_occurrence_row p command db1) (\<lambda>(db2, updated, row). Inr (db2, True))))))))))"

section \<open>A request as a run of the store\<close>

inductive master_request :: "(bytes \<Rightarrow> bytes) \<Rightarrow> content_db \<Rightarrow> content_db \<Rightarrow> bool" for sha where
  lifecycle: "\<lbrakk>mn_sha env = sha; change_page_lifecycle_as_master env slot s library section page_id etag action book db
      = Inr (db', tag)\<rbrakk> \<Longrightarrow> master_request sha db db'"
| retitle: "\<lbrakk>mn_sha env = sha; update_page_title_as_master env slot s library section book' page_id title updated_at db
      = Inr db'\<rbrakk> \<Longrightarrow> master_request sha db db'"
| correct: "\<lbrakk>mn_sha env = sha; correct_page_occurrence_as_master env slot s library section book' page_id declared etag db
      = Inr (db', changed)\<rbrakk> \<Longrightarrow> master_request sha db db'"

lemma lifecycle_as_master_Inr:
  assumes "change_page_lifecycle_as_master env slot s library section page_id etag action book db = Inr (db', tag)"
  obtains p m db1 caller home master rq at updated event where "insert_master_audit m db = Inr db1"
    "transition_page_lifecycle_row p action caller home master rq at db1 = Inr (db', updated, event)"
  using assms that
  by (auto simp: change_page_lifecycle_as_master_def Let_def add_success_def mapE_Inr split: if_splits option.splits
      elim!: bindR_InrE)

lemma title_as_master_Inr:
  assumes "update_page_title_as_master env slot s library section book page_id title updated_at db = Inr db'"
  obtains (same) "db' = db"
  | (changed) p m db1 at p' where "insert_master_audit m db = Inr db1" "pg_title p \<noteq> title"
    "update_page_title p title at db1 = Inr (db', Some p')"
proof (cases "db' = db")
  case False
  then show ?thesis using assms changed
    by (auto simp: update_page_title_as_master_def Let_def add_success_def mapE_Inr split: if_splits option.splits
        elim!: bindR_InrE)
qed (rule same)

lemma correct_as_master_Inr:
  assumes "correct_page_occurrence_as_master env slot s library section book page_id declared etag db = Inr (db', b)"
  obtains (same) "db' = db"
  | (changed) p m db1 command updated row where "insert_master_audit m db = Inr db1"
    "correct_occurrence_row p command db1 = Inr (db', updated, row)"
proof (cases "db' = db")
  case False
  then show ?thesis using assms changed
    by (auto simp: correct_page_occurrence_as_master_def Let_def add_success_def mapE_Inr split: if_splits option.splits
        elim!: bindR_InrE)
qed (rule same)

lemma transition_row_same_rows:
  assumes "transition_page_lifecycle_row p action caller home master rq at db = Inr (db', updated, event)"
    and "distinct (map page_key (t_pages db))"
  shows "same_rows db db'"
  using assms write_lifecycle_same_rows by (auto simp: transition_page_lifecycle_row_def Let_def split: if_splits)

lemma correction_row_same_rows:
  assumes "correct_occurrence_row p command db = Inr (db', updated, row)" and "distinct (map page_key (t_pages db))"
  shows "same_rows db db'"
  using assms write_correction_same_rows by (auto simp: correct_occurrence_row_def Let_def split: if_splits)

lemma master_request_cases:
  assumes "master_request sha db db'"
  obtains (same) "db' = db"
  | (changed) m db1 p where "insert_master_audit m db = Inr db1" "page_transaction p db1 db'"
    "distinct (map page_key (t_pages db1)) \<Longrightarrow> same_rows db1 db'"
  using assms
proof cases
  case (lifecycle env slot s library sid page_id etag action book tag)
  obtain p m db1 caller home master rq at updated event where w: "insert_master_audit m db = Inr db1"
    "transition_page_lifecycle_row p action caller home master rq at db1 = Inr (db', updated, event)"
    by (rule lifecycle_as_master_Inr [OF lifecycle(2)])
  show ?thesis by (rule changed [OF w(1) page_transaction.lifecycle [OF w(2)] transition_row_same_rows [OF w(2)]])
next
  case (retitle env slot s library sid book page_id title updated_at)
  from retitle(2) show ?thesis
  proof (cases rule: title_as_master_Inr)
    case (changed p m db1 at p')
    obtain c f n where "update_pages c f db1 = Inr (db', n)"
      using changed(3) by (auto simp: update_page_title_def elim!: bindR_InrE)
    from that(2) [OF changed(1) page_transaction.retitle [OF changed(2) [symmetric] changed(3)] update_pages_same_rows [OF this]]
    show ?thesis by blast
  qed (rule same)
next
  case (correct env slot s library sid book page_id declared etag b)
  from correct(2) show ?thesis
  proof (cases rule: correct_as_master_Inr)
    case (changed p m db1 command updated row)
    from that(2) [OF changed(1) page_transaction.correct [OF changed(2)] correction_row_same_rows [OF changed(2)]]
    show ?thesis by blast
  qed (rule same)
qed

lemma master_audit_side:
  assumes "insert_master_audit m db = Inr db1"
  shows "side_statement db db1" and "t_pages db1 = t_pages db" and "t_audits db1 = t_audits db" and "same_rows db db1"
  using assms side_statement.master_audit [OF assms]
  by (auto simp: insert_master_audit_def same_rows_def other_tables_def split: if_splits)

text \<open>Every request of the administrator is a run of the store: the audit row, then one content transaction.\<close>

lemma master_request_run:
  assumes r: "master_request sha db db'" and h: "reachable sha db tr" and sch: "schema \<in> set CALLER_MOVE_REVISIONS"
  obtains tr' where "store_steps sha (db, tr) (db', tr')" "t_audits db' = t_audits db" "same_rows db db'"
  using r
proof (cases rule: master_request_cases)
  case same
  then show ?thesis using that [of tr] by (simp add: store_steps_def same_rows_def)
next
  case (changed m db1 p)
  note a = master_audit_side [OF changed(1)]
  have s1: "store_steps sha (db, tr) (db1, tr)" by (rule side_step [OF a(1)])
  have ok: "store_ok db1 schema tr" by (rule reachable_later(3) [OF h s1 sch])
  obtain tr' where s2: "store_steps sha (db1, tr) (db', tr')" by (rule transaction_steps [OF ok sch changed(2)])
  have "t_audits db' = t_audits db" using written_audits [OF page_transaction_events [OF changed(2)]] a by simp
  moreover have "same_rows db db'" using changed(3) [OF store_distinct [OF ok]] a(4) same_rows_trans by blast
  ultimately show ?thesis using that store_steps_trans [OF s1 s2] by blast
qed

end
