(* ===== verification/MasterTheorems.thy ===== *)
theory MasterTheorems
  imports MasterPages FileSetSamples
begin

text \<open>
  What the administrator is promised: a conditional deletion or restoration of the current version is
  carried out, with exactly the change it names and its audit row, and leaves a store of which all the
  guarantees of the development hold.
\<close>

section \<open>The rows of a permitted transition\<close>

lemma next_sequence_positive [simp]: "1 \<le> next_sequence key seq k rows"
proof -
  have "0 \<le> foldr max xs (0 :: int)" for xs by (induction xs) auto
  then show ?thesis by (simp add: next_sequence_def)
qed

lemma distinct_key_found:
  assumes "distinct (map key xs)" "x \<in> set xs" "P x" "\<And>y. P y \<Longrightarrow> key y = key x"
  shows "find P xs = Some x"
proof -
  obtain y where y: "find P xs = Some y" using assms(2,3) by (cases "find P xs") (auto simp: find_None_iff)
  then have "y \<in> set xs" "key y = key x" using find_SomeD [OF y] assms(4) by auto
  then show ?thesis using y assms(1,2) by (auto simp: distinct_map inj_on_def)
qed

definition lifecycle_row :: "page \<Rightarrow> pystr \<Rightarrow> pystr \<Rightarrow> pystr \<Rightarrow> int \<Rightarrow> content_db \<Rightarrow> lifecycle_event" where
  "lifecycle_row p action event rq at db =
     \<lparr>le_library_id = pg_library_id p, le_page_uid = pg_page_uid p,
      le_sequence = next_sequence le_key le_sequence (page_key p) (t_lifecycle_events db),
      le_action = action, le_section_id = pg_section_id p, le_old_deleted_at = pg_deleted_at p,
      le_old_updated_at = pg_updated_at p, le_changed_at = at,
      le_at_revision_number = pg_current_revision_number p, le_occurred_at_at_event = pg_occurred_at p,
      le_actor_caller_id = None, le_actor_home_library_id = None, le_master_audit_event_id = Some event,
      le_request_id = rq\<rparr>"

definition changed_page :: "page \<Rightarrow> pystr \<Rightarrow> int \<Rightarrow> page" where
  "changed_page p action at =
     p\<lparr>pg_deleted_at := (if action = lit ''delete'' then Some at else None), pg_updated_at := at\<rparr>"

text \<open>What a transition of the administrator needs of the row, the time, the numbers and the audit row.\<close>

definition transition_permitted ::
  "page \<Rightarrow> pystr \<Rightarrow> pystr \<Rightarrow> pystr \<Rightarrow> int \<Rightarrow> content_db \<Rightarrow> bool" where
  "transition_permitted p action event rq at db \<longleftrightarrow>
     page_check p \<and> page_record_valid p \<and> pg_page_type p = lit ''archive''
     \<and> action \<in> {lit ''delete'', lit ''restore''} \<and> (action = lit ''delete'') = (pg_deleted_at p = None)
     \<and> pg_updated_at p < at \<and> utc_in_range at
     \<and> next_sequence le_key le_sequence (page_key p) (t_lifecycle_events db) \<le> MAX_I64
     \<and> opaque_id event \<and> request_id_check rq
     \<and> master_audit_matches db (Some event) (lit ''content.archive.'' @ action) (page_key p) at"

lemma permitted_numbers:
  assumes "transition_permitted p action event rq at db"
  shows "0 \<le> pg_updated_at p" "0 \<le> at" "at \<le> MAX_I64"
    and "1 \<le> pg_current_revision_number p" "pg_current_revision_number p \<le> MAX_I64"
proof -
  have "page_check p" "page_storage_valid p" "pg_updated_at p < at" "utc_in_range at"
    using assms by (simp_all add: transition_permitted_def page_record_valid_def)
  then show "0 \<le> pg_updated_at p" "0 \<le> at" "at \<le> MAX_I64"
      "1 \<le> pg_current_revision_number p" "pg_current_revision_number p \<le> MAX_I64"
    by (auto simp: page_check_def page_storage_valid_def validate_revision_number_def utc_in_range_def
        MIN_value MAX_value MAX_REVISION_NUMBER_def MAX_I64_def split: if_splits)
qed

lemma permitted_row:
  assumes t: "transition_permitted p action event rq at db"
  shows "lifecycle_record_valid (lifecycle_row p action event rq at db)"
    and "lifecycle_check (lifecycle_row p action event rq at db)"
proof -
  note n = permitted_numbers [OF t]
  have u: "length (pg_page_uid p) = 16" "occurrence_check (pg_occurred_at p)"
    and d: "pg_deleted_at p = Some d \<Longrightarrow> 0 \<le> d \<and> d \<le> pg_updated_at p" for d
    using t by (auto simp: transition_permitted_def page_check_def)
  have o: "opaque_id (pg_library_id p)" "opaque_id (pg_section_id p)" "utc_in_range (pg_occurred_at p)"
    using t by (auto simp: transition_permitted_def page_record_valid_def page_storage_valid_def)
  have a: "action = lit ''delete'' \<or> action = lit ''restore''" "(action = lit ''delete'') = (pg_deleted_at p = None)"
    "pg_updated_at p < at" "utc_in_range at" "opaque_id event" "request_id_check rq"
    "next_sequence le_key le_sequence (page_key p) (t_lifecycle_events db) \<le> MAX_I64"
    using t by (auto simp: transition_permitted_def)
  show "lifecycle_record_valid (lifecycle_row p action event rq at db)"
    using n u d o a by (cases "pg_deleted_at p")
      (auto simp: lifecycle_record_valid_def lifecycle_row_def actor_kind_check_def)
  show "lifecycle_check (lifecycle_row p action event rq at db)"
    using n u d o a by (cases "pg_deleted_at p")
      (auto simp: lifecycle_check_def lifecycle_row_def actor_kind_check_def)
qed

lemma permitted_guard:
  assumes t: "transition_permitted p action event rq at db" and p: "p \<in> set (t_pages db)"
    and g: "t_lifecycle_guards db = []"
  shows "insert_lifecycle_guard (lifecycle_row p action event rq at db) db
    = Inr (db\<lparr>t_lifecycle_guards := [lifecycle_row p action event rq at db]\<rparr>)"
proof -
  let ?row = "lifecycle_row p action event rq at db"
  have k: "le_key ?row = page_key p" by (simp add: le_key_def lifecycle_row_def page_key_def)
  have "master_lifecycle_audited db ?row"
    using t k by (auto simp: transition_permitted_def master_lifecycle_audited_def lifecycle_row_def)
  moreover have "list_ex (\<lambda>q. page_key q = le_key ?row \<and> pg_section_id q = le_section_id ?row
            \<and> pg_deleted_at q = le_old_deleted_at ?row \<and> pg_updated_at q = le_old_updated_at ?row
            \<and> pg_current_revision_number q = le_at_revision_number ?row
            \<and> pg_occurred_at q = le_occurred_at_at_event ?row \<and> le_changed_at ?row > pg_updated_at q
            \<and> le_sequence ?row = next_sequence le_key le_sequence (le_key ?row) (t_lifecycle_events db)) (t_pages db)"
    using p t k by (auto simp: list_ex_iff lifecycle_row_def transition_permitted_def)
  ultimately show ?thesis using permitted_row(2) [OF t] g by (simp add: insert_lifecycle_guard_def)
qed

lemma permitted_change:
  assumes t: "transition_permitted p action event rq at db" and ok: "store_ok db schema tr" and p: "p \<in> set (t_pages db)"
  shows "before_page_update (db\<lparr>t_lifecycle_guards := [lifecycle_row p action event rq at db]\<rparr>) p (changed_page p action at)"
    and "page_check (changed_page p action at)"
    and "book_exists db (pg_library_id p) (pg_section_id p) (pg_book_id p)"
proof -
  have c: "page_check p" "pg_updated_at p < at" using t by (auto simp: transition_permitted_def)
  then show "page_check (changed_page p action at)" by (auto simp: page_check_def changed_page_def split: option.splits)
  show "before_page_update (db\<lparr>t_lifecycle_guards := [lifecycle_row p action event rq at db]\<rparr>) p (changed_page p action at)"
    using c by (auto simp: before_page_update_def changed_page_def stable_identity_def revision_advance_ok_def same_revision_def
        occurrence_guarded_def lifecycle_guarded_def same_place_def deleted_unchanged_def title_audited_def
        move_guarded_def lifecycle_row_def le_key_def page_key_def)
  have "single_book db (pg_library_id p) (state_of_page p)"
    using history_single_book [OF store_page_history [OF ok p]] by (simp add: page_key_def)
  then show "book_exists db (pg_library_id p) (pg_section_id p) (pg_book_id p)"
    by (auto simp: single_book_def book_exists_def list_ex_iff state_of_page_def length_Suc_conv filter_eq_Cons_iff)
qed

lemma permitted_transition:
  assumes t: "transition_permitted p action event rq at db" and ok: "store_ok db schema tr" and p: "p \<in> set (t_pages db)"
  shows "transition_page_lifecycle_row p action None None (Some event) rq at db
    = Inr ((set_page (changed_page p action at) db)
        \<lparr>t_lifecycle_events := t_lifecycle_events db @ [lifecycle_row p action event rq at db]\<rparr>,
        changed_page p action at, lifecycle_row p action event rq at db)"
proof -
  let ?row = "lifecycle_row p action event rq at db" and ?new = "changed_page p action at"
  let ?g = "db\<lparr>t_lifecycle_guards := [?row]\<rparr>"
  let ?c = "\<lambda>q. same_current p q \<and> pg_section_id q = pg_section_id p \<and> pg_page_type q = lit ''archive''
    \<and> pg_deleted_at q = pg_deleted_at p \<and> pg_occurred_at q = pg_occurred_at p"
  have a: "action = lit ''delete'' \<or> action = lit ''restore''" "(action = lit ''delete'') = (pg_deleted_at p = None)"
    "pg_page_type p = lit ''archive''" "pg_updated_at p < at" "utc_in_range at"
    "next_sequence le_key le_sequence (page_key p) (t_lifecycle_events db) \<le> MAX_I64"
    using t by (auto simp: transition_permitted_def)
  have g: "t_lifecycle_guards db = []" using ok by (simp add: store_ok_def guards_clear_def)
  have f: "find ?c (t_pages ?g) = Some p"
    by (rule distinct_key_found [where key = page_key]) (use store_distinct [OF ok] p a(3) in \<open>auto simp: same_current_def\<close>)
  have k: "le_key ?row = page_key p" "page_key ?new = page_key p" "le_action ?row = action" "le_changed_at ?row = at"
    by (simp_all add: le_key_def lifecycle_row_def page_key_def changed_page_def)
  have same: "pg_occurred_at ?new = pg_occurred_at p" "pg_title ?new = pg_title p" "same_place p ?new" "same_revision p ?new"
    by (simp_all add: changed_page_def same_place_def same_revision_def)
  have fresh: "\<not> list_ex (\<lambda>x. le_key x = page_key p \<and> le_sequence x = le_sequence ?row) (t_lifecycle_events db)"
    using next_sequence_greater [of _ "t_lifecycle_events db" le_key "page_key p" le_sequence]
    by (fastforce simp: lifecycle_row_def list_ex_iff)
  have r: "?row\<lparr>le_old_deleted_at := pg_deleted_at p, le_old_updated_at := pg_updated_at p,
      le_changed_at := pg_updated_at ?new, le_at_revision_number := pg_current_revision_number ?new,
      le_occurred_at_at_event := pg_occurred_at ?new\<rparr> = ?row"
    by (simp add: lifecycle_row_def changed_page_def)
  have d: "pg_deleted_at ?new \<noteq> pg_deleted_at p"
    "pg_deleted_at ?new = (if le_action ?row = lit ''delete'' then Some (le_changed_at ?row) else None)"
    using a by (auto simp: changed_page_def k)
  let ?db' = "(set_page ?new db)\<lparr>t_lifecycle_events := t_lifecycle_events db @ [?row]\<rparr>"
  have "record_lifecycle p ?new (set_page ?new ?g) = Inr ?db'"
  proof -
    have "find (\<lambda>x. le_key x = page_key p) (t_lifecycle_guards (set_page ?new ?g)) = Some ?row" by (simp add: k)
    then have "record_lifecycle p ?new (set_page ?new ?g)
      = (if pg_deleted_at ?new = pg_deleted_at p then Inr (set_page ?new ?g)
         else if ?row \<noteq> ?row
            \<or> pg_deleted_at ?new \<noteq> (if le_action ?row = lit ''delete'' then Some (le_changed_at ?row) else None)
            \<or> list_ex (\<lambda>x. le_key x = le_key ?row \<and> le_sequence x = le_sequence ?row) (t_lifecycle_events (set_page ?new ?g))
         then Inl SqlError
         else Inr (set_page ?new ?g\<lparr>t_lifecycle_events := t_lifecycle_events (set_page ?new ?g) @ [?row],
             t_lifecycle_guards := filter (\<lambda>x. le_key x \<noteq> page_key p) (t_lifecycle_guards (set_page ?new ?g))\<rparr>))"
      unfolding record_lifecycle_def by (simp only: option.case Let_def r)
    then show ?thesis using d fresh k(1) g by (simp add: set_page_def)
  qed
  then have "update_pages ?c (\<lambda>q. changed_page q action at) ?g = Inr (?db', 1)"
    using permitted_change [OF t ok p] same f
    by (simp add: update_pages_def Let_def changed_page_def book_exists_def)
  moreover have "find (\<lambda>x. le_key x = page_key p \<and> le_sequence x = le_sequence ?row) (t_lifecycle_events ?db') = Some ?row"
    using find_append_new [OF fresh] k(1) by simp
  ultimately have "write_lifecycle p ?row db = Inr (?db', ?new, ?row)"
    unfolding write_lifecycle_def Let_def permitted_guard [OF t p g] k(3,4) changed_page_def [symmetric] by simp
  then show ?thesis
    using a permitted_row(1) [OF t] permitted_numbers(2) [OF t]
    by (auto simp: transition_page_lifecycle_row_def Let_def lifecycle_row_def [symmetric])
qed

section \<open>A deletion or restoration of the administrator\<close>

text \<open>A session the services admit, and two fresh draws of \<open>uuid4\<close>.\<close>

definition session_live :: "master_env \<Rightarrow> master_identity option \<Rightarrow> master_session \<Rightarrow> bool" where
  "session_live env slot s \<longleftrightarrow>
     list_all (\<lambda>c. c < 128) (ms_csrf_token s) \<and> mn_seconds env < ms_expires_at s
     \<and> lower_hex_32 (ms_identity_id s)
     \<and> is_session_generation_current slot (ms_identity_id s) (ms_session_generation s)"

definition fresh_draws :: "master_env \<Rightarrow> content_db \<Rightarrow> bool" where
  "fresh_draws env db \<longleftrightarrow>
     lower_hex_32 (mn_uuid_hex env 0) \<and> lower_hex_32 (mn_uuid_hex env 1)
     \<and> mn_uuid_hex env 0 \<notin> ma_id ` set (t_master_audits db)"

lemma session_admitted: "session_live env slot s \<Longrightarrow> admitted env slot s = Inr (mn_sha env (map of_nat (ms_csrf_token s)))"
  by (auto simp: session_live_def admitted_def audit_fingerprint_def require_current_admin_session_def)

lemma hex_visible: "list_all is_lower_hex s \<Longrightarrow> visible_ascii s"
  by (auto simp: visible_ascii_def list_all_iff is_lower_hex_def is_digit_def)

lemma target_visible:
  assumes "opaque_id l" "length u = 16"
  shows "visible_ascii (page_target (l, u))" "length (page_target (l, u)) = 65"
  using assms hex_visible [of l] hex_visible [OF hex_bytes_lower_hex]
  by (auto simp: page_target_def opaque_id_def visible_ascii_def lit_def)

lemma audit_inserted:
  assumes s: "session_live env slot s" and f: "fresh_draws env db" and act: "action \<in> {lit ''delete'', lit ''restore''}"
    and k: "opaque_id l" "length u = 16" and at: "0 \<le> at" and sha: "length (mn_sha env (map of_nat (ms_csrf_token s))) = 32"
  shows "\<exists>m. add_success s (mn_sha env (map of_nat (ms_csrf_token s))) (lit ''content.archive.'' @ action) (lit ''page'')
      (page_target (l, u)) at (mn_uuid_hex env 0) db = Inr (db\<lparr>t_master_audits := t_master_audits db @ [m]\<rparr>)
    \<and> ma_id m = mn_uuid_hex env 0 \<and> ma_action m = lit ''content.archive.'' @ action \<and> ma_target_type m = lit ''page''
    \<and> ma_target_id m = page_target (l, u) \<and> ma_occurred_at m = at"
proof -
  have "visible_ascii (lit ''content.archive.'' @ action)" "length (lit ''content.archive.'' @ action) \<le> 100"
    "lit ''content.archive.'' @ action \<noteq> lit ''auth.agent_token.reveal''"
    using act by (auto simp: visible_ascii_def lit_def)
  moreover have "\<not> list_ex (\<lambda>x. ma_id x = mn_uuid_hex env 0) (t_master_audits db)"
  proof -
    have "mn_uuid_hex env 0 \<notin> ma_id ` set (t_master_audits db)" using f by (simp add: fresh_draws_def)
    then show ?thesis unfolding list_ex_iff by (metis image_eqI)
  qed
  moreover have "list_all (\<lambda>c. 97 \<le> c \<and> c \<le> 122 \<or> c = 95) (lit ''page'')" "1 \<le> length (lit ''content.archive.'' @ action)"
    "1 \<le> length (lit ''page'')" "length (lit ''page'') \<le> 100" by (simp_all add: lit_def)
  moreover have "1 \<le> length (page_target (l, u))" "length (page_target (l, u)) \<le> 200" "visible_ascii (page_target (l, u))"
    using target_visible [OF k] by simp_all
  moreover have "lower_hex_32 (mn_uuid_hex env 0)" "lower_hex_32 (ms_identity_id s)" "1 \<le> ms_session_generation s"
    using s f by (simp_all add: fresh_draws_def session_live_def is_session_generation_current_def)
  ultimately show ?thesis
    using at sha
    by (intro exI [of _ "\<lparr>ma_id = mn_uuid_hex env 0, ma_identity_id = ms_identity_id s,
          ma_session_generation = ms_session_generation s,
          ma_session_fingerprint = mn_sha env (map of_nat (ms_csrf_token s)),
          ma_action = lit ''content.archive.'' @ action, ma_target_type = lit ''page'',
          ma_target_id = page_target (l, u), ma_occurred_at = at\<rparr>"])
      (simp add: add_success_def insert_master_audit_def master_audit_check_def)
qed

lemma page_read_key:
  "get_page sha db library i = Inr (Some p) \<Longrightarrow> p \<in> set (t_pages db) \<and> pg_library_id p = library \<and> page_record_valid p"
  by (auto simp: get_page_def list_ex_iff page_key_def split: option.splits if_splits elim!: bindR_InrE dest!: find_SomeD)

text \<open>C6: the administrator can delete and restore. A request with a live session and the current entity tag
  of the page, which is deleted exactly when it is to be restored, is carried out: the page gets the
  deletion time, or none, and the update time of the change and keeps everything else, the answer is the
  tag of this new version, one audit row names the action, the page and the time, and the new state of
  the page is the next one of its history. It needs a time that can be written, draws of \<open>uuid4\<close> that
  are not used yet, and room for one more event number.\<close>

theorem master_lifecycle_done:
  assumes "reachable (mn_sha env) db tr" and "get_page (mn_sha env) db library i = Inr (Some p)"
    and "pg_page_type p = lit ''archive''" and "book = None \<or> book = Some (pg_book_id p)"
    and "page_etag (mn_sha env) p = Inr etag"
    and "action \<in> {lit ''delete'', lit ''restore''}" and "(action = lit ''delete'') = (pg_deleted_at p = None)"
    and "session_live env slot s" and "fresh_draws env db"
    and "length (mn_sha env (map of_nat (ms_csrf_token s))) = 32"
    and "utc_in_range (max (mn_clock env) (pg_updated_at p + 1))"
    and "next_sequence le_key le_sequence (page_key p) (t_lifecycle_events db) \<le> MAX_I64"
  shows "\<exists>db' tag. change_page_lifecycle_as_master env slot s library (pg_section_id p) i etag action book db = Inr (db', tag)
    \<and> page_etag (mn_sha env) (changed_page p action (max (mn_clock env) (pg_updated_at p + 1))) = Inr tag
    \<and> (\<exists>m. t_master_audits db' = t_master_audits db @ [m] \<and> ma_action m = lit ''content.archive.'' @ action
        \<and> ma_target_id m = page_target (page_key p) \<and> ma_occurred_at m = max (mn_clock env) (pg_updated_at p + 1))
    \<and> reachable (mn_sha env) db' (tr(page_key p := tr (page_key p)
        @ [state_of_page (changed_page p action (max (mn_clock env) (pg_updated_at p + 1)))]))"
proof -
  let ?at = "max (mn_clock env) (pg_updated_at p + 1)" and ?sha = "mn_sha env"
  let ?new = "changed_page p action ?at" and ?rq = "lit ''req_'' @ mn_uuid_hex env 1"
  note pr = page_read_key [OF assms(2)]
  have pc: "page_check p" using reachable_rows_sound [OF assms(1)] pr by (simp add: rows_sound_def page_row_sound_def)
  then have u: "length (pg_page_uid p) = 16" "0 \<le> pg_updated_at p" by (simp_all add: page_check_def)
  have l: "opaque_id library" using pr by (auto simp: page_record_valid_def page_storage_valid_def)
  obtain m where m: "add_success s (?sha (map of_nat (ms_csrf_token s))) (lit ''content.archive.'' @ action) (lit ''page'')
      (page_target (library, pg_page_uid p)) ?at (mn_uuid_hex env 0) db = Inr (db\<lparr>t_master_audits := t_master_audits db @ [m]\<rparr>)"
    "ma_id m = mn_uuid_hex env 0" "ma_action m = lit ''content.archive.'' @ action" "ma_target_type m = lit ''page''"
    "ma_target_id m = page_target (library, pg_page_uid p)" "ma_occurred_at m = ?at"
    using audit_inserted [OF assms(8,9,6) l u(1) _ assms(10), of ?at] u(2) by fastforce
  let ?db1 = "db\<lparr>t_master_audits := t_master_audits db @ [m]\<rparr>"
  have "side_statement db ?db1"
    using m(1) by (auto simp: add_success_def intro: side_statement.master_audit)
  then have s1: "store_steps ?sha (db, tr) (?db1, tr)" by (rule side_step)
  have ok: "store_ok ?db1 (lit ''20261020_0037'') tr" by (rule reachable_later(3) [OF assms(1) s1 newest_schema_moves])
  have k: "page_key p = (library, pg_page_uid p)" using pr by (simp add: page_key_def)
  have "master_audit_matches ?db1 (Some (mn_uuid_hex env 0)) (lit ''content.archive.'' @ action) (page_key p) ?at"
    using m k by (simp add: master_audit_matches_def)
  then have t: "transition_permitted p action (mn_uuid_hex env 0) ?rq ?at ?db1"
    using assms(3,6,7,9,11,12) pc pr
    by (auto simp: transition_permitted_def fresh_draws_def opaque_id_def lower_hex_32_def request_id_check_def lit_def)
  let ?db2 = "(set_page ?new ?db1)\<lparr>t_lifecycle_events := t_lifecycle_events ?db1
      @ [lifecycle_row p action (mn_uuid_hex env 0) ?rq ?at ?db1]\<rparr>"
  have p1: "p \<in> set (t_pages ?db1)" using pr by simp
  note r = permitted_transition [OF t ok p1]
  have nk: "page_key ?new = page_key p" by (simp add: changed_page_def page_key_def)
  have "?new \<in> set (t_pages ?db2)" using p1 nk by (force simp: set_page_def)
  from store_step.change [OF page_transaction.lifecycle [OF r] this nk]
  have "reachable ?sha ?db2 (tr(page_key p := tr (page_key p) @ [state_of_page ?new]))"
    by (rule reachable_step [OF reachable_later(1) [OF assms(1) s1 newest_schema_moves]])
  moreover obtain tag where tag: "page_etag ?sha ?new = Inr tag"
  proof -
    have "0 \<le> ?at" "?at \<le> MAX_I64" using assms(11) u(2) by (simp_all add: utc_in_range_def MAX_value MAX_I64_def)
    moreover have "etag_identity_ok (pg_page_uid p) (pg_current_revision_id p) (pg_current_revision_number p)"
      "utc_in_range (pg_occurred_at p)"
      using assms(5) by (auto simp: page_etag_def page_current_etag_def split: if_splits)
    ultimately show ?thesis using that by (simp add: page_etag_def page_current_etag_def changed_page_def)
  qed
  moreover have "pg_updated_at p < MAX_I64" "canonical_utc_wire ?at \<noteq> Inl e" for e
    using assms(11) by (auto simp: canonical_utc_wire_def utc_in_range_def MAX_value MAX_I64_def)
  then have "change_page_lifecycle_as_master env slot s library (pg_section_id p) i etag action book db = Inr (?db2, tag)"
    using session_admitted [OF assms(8)] assms(2-7,11) m(1) r tag
    by (auto simp: change_page_lifecycle_as_master_def Let_def canonical_utc_wire_def)
  moreover have "\<exists>m. t_master_audits ?db2 = t_master_audits db @ [m] \<and> ma_action m = lit ''content.archive.'' @ action
      \<and> ma_target_id m = page_target (page_key p) \<and> ma_occurred_at m = ?at"
    by (rule exI [of _ m]) (simp add: m k)
  ultimately show ?thesis using tag by blast
qed

definition sample_master_env :: master_env where
  "sample_master_env = \<lparr>mn_sha = sample_sha, mn_clock = 70, mn_seconds = 7,
     mn_uuid_hex = (\<lambda>n. replicate 32 (if n = 0 then 97 else 98))\<rparr>"

definition sample_identity :: master_identity where
  "sample_identity = \<lparr>mi_identity_id = replicate 32 99, mi_token_verifier = lit ''pbkdf2_sha256$'',
     mi_session_generation = 2, mi_created_at = 0, mi_updated_at = 1\<rparr>"

definition sample_session :: master_session where
  "sample_session = \<lparr>ms_expires_at = 9, ms_csrf_token = lit ''csrf'', ms_identity_id = replicate 32 99,
     ms_session_generation = 2\<rparr>"

text \<open>The page of the sample store is deleted by the administrator.\<close>

theorem master_lifecycle_done_witness:
  "\<exists>db' tag tr. change_page_lifecycle_as_master sample_master_env (Some sample_identity) sample_session (auth_id 1)
      (auth_id 3) (lit ''19700101t000000000z-notes'') new_etag (lit ''delete'') (Some (auth_id 5)) content4 = Inr (db', tag)
    \<and> reachable sample_sha db' tr
    \<and> last (tr (auth_id 1, sample_uid)) = state_of_page (new_page\<lparr>pg_deleted_at := Some 70, pg_updated_at := 70\<rparr>)"
proof -
  obtain tr where r: "reachable sample_sha content4 tr" using sample_created_reachable by blast
  have e: "mn_sha sample_master_env = sample_sha" by (simp add: sample_master_env_def)
  have p: "pg_page_type new_page = lit ''archive''" "pg_section_id new_page = auth_id 3" "pg_book_id new_page = auth_id 5"
    "pg_deleted_at new_page = None" "page_key new_page = (auth_id 1, sample_uid)" "pg_updated_at new_page = 50"
    by (simp_all add: new_page_def sample_page_def page_key_def)
  have tag: "page_etag sample_sha new_page = Inr new_etag"
    using new_etag_made by (simp add: page_etag_def new_page_def sample_page_def)
  have s: "session_live sample_master_env (Some sample_identity) sample_session" by code_simp
  have d: "fresh_draws sample_master_env content4" by code_simp
  have c: "max (mn_clock sample_master_env) (pg_updated_at new_page + 1) = 70" by (simp add: sample_master_env_def p)
  have u: "utc_in_range 70" by (simp add: utc_in_range_def MIN_value MAX_value)
  have n: "next_sequence le_key le_sequence (page_key new_page) (t_lifecycle_events content4) \<le> MAX_I64" by code_simp
  have new: "changed_page new_page (lit ''delete'') 70 = new_page\<lparr>pg_deleted_at := Some 70, pg_updated_at := 70\<rparr>"
    by (simp add: changed_page_def)
  have "\<exists>db' tag. change_page_lifecycle_as_master sample_master_env (Some sample_identity) sample_session (auth_id 1)
      (pg_section_id new_page) (lit ''19700101t000000000z-notes'') new_etag (lit ''delete'') (Some (auth_id 5)) content4 = Inr (db', tag)
    \<and> page_etag sample_sha (changed_page new_page (lit ''delete'') 70) = Inr tag
    \<and> (\<exists>m. t_master_audits db' = t_master_audits content4 @ [m] \<and> ma_action m = lit ''content.archive.'' @ lit ''delete''
        \<and> ma_target_id m = page_target (page_key new_page) \<and> ma_occurred_at m = 70)
    \<and> reachable sample_sha db' (tr(page_key new_page := tr (page_key new_page)
        @ [state_of_page (changed_page new_page (lit ''delete'') 70)]))"
    by (rule master_lifecycle_done [of sample_master_env, unfolded e, where p = new_page, unfolded c])
      (use r sample_found tag s d u n p in \<open>simp_all del: One_nat_def\<close>)
  then obtain db' tag where w: "change_page_lifecycle_as_master sample_master_env (Some sample_identity) sample_session (auth_id 1)
      (auth_id 3) (lit ''19700101t000000000z-notes'') new_etag (lit ''delete'') (Some (auth_id 5)) content4 = Inr (db', tag)"
    "reachable sample_sha db' (tr((auth_id 1, sample_uid) := tr (auth_id 1, sample_uid)
        @ [state_of_page (changed_page new_page (lit ''delete'') 70)]))"
    unfolding p by blast
  show ?thesis by (rule exI, rule exI, rule exI, rule conjI [OF w(1)], rule conjI [OF w(2)]) (simp add: new)
qed

end
