(* ===== verification/CallerMoveStores.thy ===== *)
theory CallerMoveStores
  imports CallerStores MasterPages
begin

text \<open>
  Moves on whole stores, and the stores that requests of all kinds reach.
\<close>

section \<open>Moves\<close>

lemma move_page_Inr:
  assumes "move_page env token c key app = Inr (app', response)"
  obtains (replayed) now auth a scope request x where "change_time env = Inr now"
      "authorize_page_move (sv_sha env) True now token (vm_library_id c) (ap_auth app) = Inr (auth, a)"
      "move_request env c key a = Inr (scope, request)"
      "get_record (ap_records app) scope request = Inr (Some x)" "app' = app\<lparr>ap_auth := auth\<rparr>"
      "response = ic_response x" "require_matching_fingerprint x request = Inr ()"
  | (fresh) now auth a scope request plan db records where "change_time env = Inr now"
      "authorize_page_move (sv_sha env) True now token (vm_library_id c) (ap_auth app) = Inr (auth, a)"
      "move_request env c key a = Inr (scope, request)"
      "get_record (ap_records app) scope request = Inr None"
      "prepare_page_move (sv_sha env) (ap_content app) (vm_library_id c) (vm_page_id c)
         (vm_source_section_id c, vm_source_book_id c) (vm_target_section_id c, vm_target_book_id c)
         (vm_expected_etag c) now = Inr plan"
      "write_page_move env now c a plan auth (ap_content app) = Inr (db, response)"
      "record_success auth (ap_records app) scope request response
        = Inr (records, \<lparr>ic_caller = scope, ic_request = request, ic_response = response\<rparr>)"
      "app' = \<lparr>ap_content = db, ap_auth = auth, ap_records = records\<rparr>"
proof -
  obtain now auth a scope request found where h: "change_time env = Inr now"
      "authorize_page_move (sv_sha env) True now token (vm_library_id c) (ap_auth app) = Inr (auth, a)"
      "move_request env c key a = Inr (scope, request)"
      "lookup_replay (ap_records app) scope request = Inr found"
    and t: "(case found of
          Some r \<Rightarrow> replay_receipt (validate_caller_move_receipt env) scope request r (app\<lparr>ap_auth := auth\<rparr>)
        | None \<Rightarrow>
            bindR (changeE (prepare_page_move (sv_sha env) (ap_content app) (vm_library_id c) (vm_page_id c)
              (vm_source_section_id c, vm_source_book_id c) (vm_target_section_id c, vm_target_book_id c)
              (vm_expected_etag c) now)) (\<lambda>plan.
            bindR (changeE (write_page_move env now c a plan auth (ap_content app))) (\<lambda>(db, response).
            record_receipt (validate_caller_move_receipt env) scope request response
              (app\<lparr>ap_content := db, ap_auth := auth\<rparr>)))) = Inr (app', response)"
    using assms unfolding move_page_def by (auto split: if_splits elim!: bindR_InrE)
  show ?thesis
  proof (cases found)
    case (Some r)
    then obtain x where x: "get_record (ap_records app) scope request = Inr (Some x)" "app' = app\<lparr>ap_auth := auth\<rparr>" "response = r"
      using t by (auto simp: replay_receipt_def split: option.splits elim!: bindR_InrE)
    then have "r = ic_response x" "require_matching_fingerprint x request = Inr ()"
      using h(4) Some by (auto simp: lookup_replay_def elim!: bindR_InrE)
    then show ?thesis using replayed [OF h(1,2,3)] x by simp
  next
    case None
    have g: "get_record (ap_records app) scope request = Inr None"
      using h(4) None by (auto simp: lookup_replay_def split: option.splits elim!: bindR_InrE)
    obtain plan db records x where w: "prepare_page_move (sv_sha env) (ap_content app) (vm_library_id c) (vm_page_id c)
         (vm_source_section_id c, vm_source_book_id c) (vm_target_section_id c, vm_target_book_id c)
         (vm_expected_etag c) now = Inr plan"
      "write_page_move env now c a plan auth (ap_content app) = Inr (db, response)"
      and rs: "record_success auth (ap_records app) scope request response = Inr (records, x)"
      and app': "app' = \<lparr>ap_content = db, ap_auth = auth, ap_records = records\<rparr>"
      using t None by (auto simp: record_receipt_def Let_def elim!: bindR_InrE)
    have "x = \<lparr>ic_caller = scope, ic_request = request, ic_response = response\<rparr>"
      using rs by (cases rule: record_success_cases) (use g in simp_all)
    then show ?thesis using fresh [OF h(1,2,3) g w] rs app' by simp
  qed
qed

lemma move_request_route:
  "move_request env c key a = Inr (scope, request) \<Longrightarrow> ir_route_template request = PAGE_MOVE_ROUTE_TEMPLATE"
  by (auto simp: move_request_def elim!: bindR_InrE dest!: make_request_route)

text \<open>A move to where the page is writes nothing.\<close>

lemma write_unchanged_move:
  assumes "write_page_move env now c a plan auth db = Inr (db2, response)" "mp_sequence plan = None"
  shows "db2 = db" and "move_response env now c plan = Inr response"
  using assms by (auto simp: write_page_move_def apply_page_move_def Let_def requireR_def elim!: bindR_InrE split: if_splits option.splits)

text \<open>A move that changes something leaves its event row next to its audit row.\<close>

lemma move_events_written:
  assumes w: "write_page_move env now c a plan auth db = Inr (db2, response)" and n: "mp_sequence plan \<noteq> None"
    and q: "move_request env c key a = Inr (scope, request)"
    and pl: "prepare_page_move (sv_sha env) db (vm_library_id c) (vm_page_id c)
       (vm_source_section_id c, vm_source_book_id c) (vm_target_section_id c, vm_target_book_id c)
       (vm_expected_etag c) now = Inr plan"
    and ok: "store_ok db schema tr" and sch: "schema \<in> set CALLER_MOVE_REVISIONS"
    and p: "mp_page plan \<in> set (t_pages db)" "pg_library_id (mp_page plan) = vm_library_id c"
      "pg_page_id (mp_page plan) = vm_page_id c"
  shows "move_events_match db2 \<lparr>ic_caller = scope, ic_request = request, ic_response = response\<rparr>
    (move_answer c plan occ orig upd) (pg_page_uid (mp_page plan)) (state_of_page (mp_page plan))
    (state_of_page (moved_page plan))"
proof -
  let ?p = "mp_page plan"
  let ?a = "service_audit (sv_ids env 0) (vm_library_id c) a (lit ''content.page.move'')
       (lit ''page'') (vm_page_id c) (vm_request_id c) (mp_updated_at plan)"
  obtain e tr' where e: "me_key e = page_key ?p" "me_old_section_id e = pg_section_id ?p"
    "me_old_book_id e = pg_book_id ?p" "me_new_section_id e = mp_target_section_id plan"
    "me_new_book_id e = mp_target_book_id plan" "me_old_updated_at e = pg_updated_at ?p"
    "me_changed_at e = mp_updated_at plan" "me_at_revision_id e = pg_current_revision_id ?p"
    "me_at_revision_number e = pg_current_revision_number ?p"
    "me_occurred_at_at_event e = pg_occurred_at ?p" "me_master_audit_event_id e = None"
    "me_caller_audit_event_id e = Some (sv_ids env 0)"
    and au: "t_audits db2 = t_audits db @ [?a]" and f: "move_response env now c plan = Inr response"
    and em: "e \<in> set (t_move_events db2)" and up: "moved_page plan \<in> set (t_pages db2)"
    and ok2: "store_ok db2 schema tr'"
    by (rule write_page_move_Inr [OF w n ok sch p(1)])
  have sc: "vc_library_id scope = vm_library_id c" "vc_actor_home_library_id scope = ca_library_id (ac_caller a)"
    "vc_caller_id scope = ca_id (ac_caller a)"
    using q by (auto simp: move_request_def validated_scope_def Let_def split: if_splits elim!: bindR_InrE)
  have rq: "or_request_id response = vm_request_id c" using move_response_Inr [OF f] by blast
  note pp = prepare_page_move_Inr [OF pl]
  have k: "page_key (moved_page plan) = (vm_library_id c, pg_page_uid ?p)" using p by (simp add: moved_page_def page_key_def)
  show ?thesis
    by (rule move_events_found [OF ok2 sch up, where e = e and a = ?a])
      (use k sc e em au rq pp(3,5) p in \<open>auto simp: page_key_def service_audit_def state_of_page_def moved_page_def
        move_columns_def move_expected_def move_answer_def\<close>)
qed

text \<open>The store and the receipt that a fresh move leaves.\<close>

lemma fresh_move:
  assumes s: "library_sound env app tr" and sch: "sv_schema env \<in> set CALLER_MOVE_REVISIONS"
    and pl: "prepare_page_move (sv_sha env') (ap_content app) (vm_library_id c) (vm_page_id c)
       (vm_source_section_id c, vm_source_book_id c) (vm_target_section_id c, vm_target_book_id c)
       (vm_expected_etag c) now = Inr plan"
    and w: "write_page_move env' now c a plan auth (ap_content app) = Inr (db, response)"
    and q: "move_request env' c key a = Inr (scope, request)"
    and e: "sv_sha env' = sv_sha env" "sv_schema env' = sv_schema env" and rd: "receipts_readable env"
    and cd: "same_codec env env'" and v: "page_move_command_valid c"
    and app': "ap_content app' = db"
  obtains tr' where "store_steps (sv_sha env) (ap_content app, tr) (db, tr')" "audits_tied db"
    "service_rows (sv_sha env) db"
    "\<exists>b. move_receipt_body env' app' \<lparr>ic_caller = scope, ic_request = request, ic_response = response\<rparr> = Inr b"
proof -
  let ?d = "ap_content app" and ?p = "mp_page plan"
  have h: "reachable (sv_sha env) ?d tr" "audits_tied ?d" "service_rows (sv_sha env) ?d"
    using s by (simp_all add: library_sound_def)
  have ok: "store_ok ?d (sv_schema env) tr" by (rule reachable_store_ok [OF h(1) sch])
  have ir: "identifier_rows_sound (sv_sha env) ?d" using h(3) by (simp add: service_rows_def)
  note g = prepare_page_move_Inr(1) [OF pl, unfolded e]
  note pr = page_read [OF g reachable_unique [OF h(1)] ir store_distinct [OF ok]]
  have rd': "receipts_readable env'" using rd cd by (simp add: receipts_readable_def same_codec_def)
  have tp: "state_of_page ?p \<in> set (tr (page_key ?p))"
    using store_trace_last(1,2) [OF ok pr(1)] last_in_set [of "tr (page_key ?p)"] by simp
  note receipt = move_receipt_of_states [OF _ q pl pr(2,3), where app = app', unfolded e app']
  show ?thesis
  proof (cases "mp_sequence plan = None")
    case True
    note u = write_unchanged_move [OF w True]
    have "\<exists>b. move_receipt_body env' app' \<lparr>ic_caller = scope, ic_request = request, ic_response = response\<rparr> = Inr b"
      by (rule receipt [OF u(2), where r = ?p and result = "state_of_page ?p"])
        (use u pr ok tp True rd' v in simp_all)
    then show ?thesis using that [of tr] h u(1) by simp
  next
    case False
    let ?new = "moved_page plan"
    obtain ev tr' where au: "t_audits db = t_audits ?d @ [service_audit (sv_ids env' 0) (vm_library_id c) a (lit ''content.page.move'')
         (lit ''page'') (vm_page_id c) (vm_request_id c) (mp_updated_at plan)]"
      and f: "move_response env' now c plan = Inr response" and up: "?new \<in> set (t_pages db)"
      and ok2: "store_ok db (sv_schema env) tr'" and st: "store_steps (sv_sha env) (?d, tr) (db, tr')"
      and t2: "set (tr (page_key ?p)) \<subseteq> set (tr' (page_key ?p))" "state_of_page ?new \<in> set (tr' (page_key ?p))"
      and same: "same_rows ?d db"
      by (rule write_page_move_Inr [OF w False ok sch pr(1), where sha = "sv_sha env"])
    note ev = move_events_written [OF w False q pl ok sch pr(1,2,3)]
    have k: "page_key ?new = page_key ?p" "pg_page_id ?new = pg_page_id ?p" by (simp_all add: moved_page_def page_key_def)
    have "registered_page (sv_sha env) db (vm_library_id c) (vm_page_id c) = Inr (pg_page_uid ?p)"
      using pr(4) same by (simp add: registered_page_def same_rows_def other_tables_def)
    then have "\<exists>b. move_receipt_body env' app' \<lparr>ic_caller = scope, ic_request = request, ic_response = response\<rparr> = Inr b"
      by (intro receipt [OF f, where r = ?new and result = "state_of_page ?new"])
        (use ev k up ok2 tp t2 False rd' v in auto)
    moreover have "one_audit ?d db" by (simp add: one_audit_def au service_audit_def)
    then have "audits_tied db"
      using reachable_later(4) [OF h(1) st sch] by (intro audits_tied_kept [OF h(2)]) (simp_all add: store_extends_def)
    ultimately show ?thesis using that [OF st] same_rows_service [OF same h(3)] by blast
  qed
qed

lemma move_sound:
  assumes s: "library_sound env app tr" and t: "move_page env' token c key app = Inr (app', response)"
    and c: "same_codec env env'" and v: "page_move_command_valid c" and rd: "receipts_readable env"
    and sch: "sv_schema env \<in> set CALLER_MOVE_REVISIONS"
  shows "\<exists>tr'. library_sound env app' tr' \<and> app_run (sv_sha env) (app, tr) (app', tr')"
proof -
  let ?d = "ap_content app"
  have h: "reachable (sv_sha env) ?d tr" "auth_ok (sv_sha env) (ap_auth app)" "audits_tied ?d"
    "service_rows (sv_sha env) ?d" using s by (simp_all add: library_sound_def)
  have e: "sv_sha env' = sv_sha env" "sv_schema env' = sv_schema env" using c by (simp_all add: same_codec_def)
  from t show ?thesis
  proof (cases rule: move_page_Inr)
    case (replayed now auth a scope request x)
    have "app_run (sv_sha env) (app, tr) (app', tr)"
      unfolding replayed(5) by (rule app_run_auth) (use authorize_page_move_steps [OF replayed(2)] e in simp)
    then show ?thesis using library_sound_run [OF s _ sch] h by (fastforce simp: replayed(5))
  next
    case (fresh now auth a scope request plan db records)
    let ?x = "\<lparr>ic_caller = scope, ic_request = request, ic_response = response\<rparr>"
    have s1: "auth_steps (sv_sha env) (ap_auth app) auth" using authorize_page_move_steps [OF fresh(2)] e by simp
    obtain tr' where w: "store_steps (sv_sha env) (?d, tr) (db, tr')" "audits_tied db" "service_rows (sv_sha env) db"
      and f: "\<exists>b. move_receipt_body env' app' ?x = Inr b"
      by (rule fresh_move [OF s sch fresh(5,6,3) e rd c v, where app' = app']) (simp_all add: fresh(8))
    have run: "app_run (sv_sha env) (app, tr) (app', tr')"
      using w(1) s1 record_success_get [OF fresh(7)] by (simp add: app_run_def fresh(8))
    have "receipt_ok env app' x" if "x \<in> set (ap_records app')" "x \<notin> set (ap_records app)" for x
    proof -
      have "records = ap_records app @ [?x]"
        using fresh(7) by (cases rule: record_success_cases) (use fresh(4) in \<open>auto simp: add_record_def split: if_splits\<close>)
      then have "x = ?x" using that by (simp add: fresh(8))
      then show ?thesis
        using f move_request_route [OF fresh(3)] routes_apart(3)
        by (auto simp: receipt_ok_def same_codec_receipts [OF c])
    qed
    then show ?thesis using library_sound_run [OF s run sch] w run by (fastforce simp: fresh(8))
  qed
qed

section \<open>Reached stores\<close>

inductive library_step :: "service_env \<Rightarrow> app_db \<Rightarrow> app_db \<Rightarrow> bool" for env where
  archive: "\<lbrakk>same_codec env env'; service_step env' app app'\<rbrakk> \<Longrightarrow> library_step env app app'"
| lifecycle: "\<lbrakk>same_codec env env'; page_lifecycle_command_valid c;
      transition env' u token c key app = Inr (app', response)\<rbrakk> \<Longrightarrow> library_step env app app'"
| move: "\<lbrakk>same_codec env env'; page_move_command_valid vc;
      move_page env' token vc key app = Inr (app', response)\<rbrakk> \<Longrightarrow> library_step env app app'"
| master: "master_request (sv_sha env) (ap_content app) db \<Longrightarrow> library_step env app (app\<lparr>ap_content := db\<rparr>)"
| book: "add_book b (ap_content app) = Inr db \<Longrightarrow> library_step env app (app\<lparr>ap_content := db\<rparr>)"
| credentials: "auth_step (sv_sha env) (ap_auth app) auth \<Longrightarrow> library_step env app (app\<lparr>ap_auth := auth\<rparr>)"

definition library_steps :: "service_env \<Rightarrow> app_db \<Rightarrow> app_db \<Rightarrow> bool" where
  "library_steps env = (library_step env)\<^sup>*\<^sup>*"

definition empty_app :: app_db where
  "empty_app = \<lparr>ap_content = empty_db, ap_auth = empty_auth, ap_records = []\<rparr>"

definition library_reachable :: "service_env \<Rightarrow> app_db \<Rightarrow> bool" where
  "library_reachable env app \<longleftrightarrow> library_steps env empty_app app"

lemma library_step_sound:
  assumes st: "library_step env app app'" and s: "library_sound env app tr"
    and rd: "receipts_readable env" and sch: "sv_schema env \<in> set CALLER_MOVE_REVISIONS"
  shows "\<exists>tr'. library_sound env app' tr' \<and> app_run (sv_sha env) (app, tr) (app', tr')"
  using st
proof cases
  case (archive env')
  then show ?thesis using archive_sound [OF s archive(2,1) sch] by blast
next
  case (lifecycle env' c u token key response)
  then show ?thesis using transition_sound [OF s _ _ _ rd sch] by blast
next
  case (move env' c token key response)
  then show ?thesis using move_sound [OF s _ _ _ rd sch] by blast
next
  case (master db)
  have h: "reachable (sv_sha env) (ap_content app) tr" "audits_tied (ap_content app)"
    "service_rows (sv_sha env) (ap_content app)" using s by (simp_all add: library_sound_def)
  obtain tr' where st: "store_steps (sv_sha env) (ap_content app, tr) (db, tr')"
    and d: "t_audits db = t_audits (ap_content app)" "same_rows (ap_content app) db"
    by (rule master_request_run [OF master(2) h(1) sch])
  have run: "app_run (sv_sha env) (app, tr) (app', tr')"
    using st by (simp add: master(1) app_run_def records_later.refl)
  have "one_audit (ap_content app) db" by (simp add: one_audit_def d(1))
  then have "audits_tied db"
    using reachable_later(4) [OF h(1) st sch] by (intro audits_tied_kept [OF h(2)]) (simp_all add: store_extends_def)
  moreover have "service_rows (sv_sha env) db" by (rule same_rows_service [OF d(2) h(3)])
  ultimately have "library_sound env app' tr'" by (intro library_sound_run [OF s run sch]) (simp_all add: master(1))
  then show ?thesis using run by blast
next
  case (book b db)
  have h: "reachable (sv_sha env) (ap_content app) tr" "audits_tied (ap_content app)"
    "service_rows (sv_sha env) (ap_content app)" using s by (simp_all add: library_sound_def)
  have st: "store_steps (sv_sha env) (ap_content app, tr) (db, tr)" by (rule side_step [OF side_statement.book [OF book(2)]])
  have run: "app_run (sv_sha env) (app, tr) (app', tr)"
    using st by (simp add: book(1) app_run_def records_later.refl)
  have d: "same_rows (ap_content app) db" "t_audits db = t_audits (ap_content app)"
    using book(2) by (auto simp: add_book_def same_rows_def other_tables_def split: if_splits)
  have "one_audit (ap_content app) db" by (simp add: one_audit_def d(2))
  then have "audits_tied db"
    using reachable_later(4) [OF h(1) st sch] by (intro audits_tied_kept [OF h(2)]) (simp_all add: store_extends_def)
  moreover have "service_rows (sv_sha env) db" by (rule same_rows_service [OF d(1) h(3)])
  ultimately have "library_sound env app' tr" by (intro library_sound_run [OF s run sch]) (simp_all add: book(1))
  then show ?thesis using run by blast
next
  case (credentials auth)
  have "auth_steps (sv_sha env) (ap_auth app) auth" using credentials(2) by (auto simp: auth_steps_def)
  then have run: "app_run (sv_sha env) (app, tr) (app', tr)" unfolding credentials(1) by (rule app_run_auth)
  have "library_sound env app' tr"
    using s by (intro library_sound_run [OF s run sch]) (simp_all add: credentials(1) library_sound_def)
  then show ?thesis using run by blast
qed

lemma empty_app_sound: "library_sound env empty_app (\<lambda>_. [])"
  by (simp add: library_sound_def empty_app_def reachable_start empty_auth_ok audits_tied_def service_rows_def
      revision_rows_sound_def identifier_rows_sound_def counter_rows_sound_def) (simp add: empty_db_def)

lemma library_steps_sound:
  assumes "library_steps env app app'" and s: "library_sound env app tr"
    and rd: "receipts_readable env" and sch: "sv_schema env \<in> set CALLER_MOVE_REVISIONS"
  shows "\<exists>tr'. library_sound env app' tr' \<and> app_run (sv_sha env) (app, tr) (app', tr')"
  using assms(1) unfolding library_steps_def
proof (induction rule: rtranclp_induct)
  case base
  have "app_run (sv_sha env) (app, tr) (app, tr)" by (simp add: app_run_def records_later.refl)
  then show ?case using s by blast
next
  case (step b c)
  then show ?case using library_step_sound [OF _ _ rd sch] app_run_trans by blast
qed

lemma library_reachable_sound:
  assumes "library_reachable env app" "receipts_readable env" "sv_schema env \<in> set CALLER_MOVE_REVISIONS"
  obtains tr where "library_sound env app tr"
  using library_steps_sound [OF _ empty_app_sound assms(2,3)] assms(1) unfolding library_reachable_def by blast

end
