(* ===== verification/CallerTheorems.thy ===== *)
theory CallerTheorems
  imports CallerMoveStores
begin

text \<open>
  The promises to callers that delete, restore and move pages: a receipt is never found corrupt, and a
  request that is repeated under its key gets the answer it was given.
\<close>

section \<open>No receipt is found corrupt\<close>

lemma changeE_Inl: "changeE r = Inl e \<longleftrightarrow> (\<exists>f. r = Inl f \<and> e = ChangeStore f)"
  by (cases r) auto

lemma lifecycle_target_error:
  "lifecycle_target env u c db = Inl e \<Longrightarrow> e \<noteq> LifecycleReplayCorrupt"
  unfolding lifecycle_target_def Let_def
  by (cases "get_page (sv_sha env) db (pc_library_id c) (pc_page_id c)")
    (auto split: if_splits option.splits simp: bindR_Inl_iff changeE_Inl)

text \<open>A recorded success of the two services as the validations see it.\<close>

lemma stored_receipt:
  assumes s: "library_sound env app tr" and g: "get_record (ap_records app) scope request = Inr (Some x)"
    and st: "auth_steps (sv_sha env) (ap_auth app) auth" and sch: "sv_schema env \<in> set CALLER_MOVE_REVISIONS"
    and c: "same_codec env env'"
  shows "ir_route_template request \<in> set CALLER_ROUTES
      \<Longrightarrow> \<exists>b. validate_library_lifecycle_receipt env' (app\<lparr>ap_auth := auth\<rparr>) x = Inr b"
    and "ir_route_template request = PAGE_MOVE_ROUTE_TEMPLATE
      \<Longrightarrow> \<exists>b. validate_caller_move_receipt env' (app\<lparr>ap_auth := auth\<rparr>) x = Inr b"
proof -
  have "find (matches_record scope request) (ap_records app) = Some x" using get_record_Some [OF g] by simp
  then have x: "x \<in> set (ap_records app)" "ir_route_template (ic_request x) = ir_route_template request"
    using find_matches [of scope request "ap_records app" x] by (simp_all add: matches_record_def)
  have run: "app_run (sv_sha env) (app, tr) (app\<lparr>ap_auth := auth\<rparr>, tr)" by (rule app_run_auth [OF st])
  have "library_sound env (app\<lparr>ap_auth := auth\<rparr>) tr"
    using s by (intro library_sound_run [OF s run sch]) (simp_all add: library_sound_def)
  then have "receipt_ok env (app\<lparr>ap_auth := auth\<rparr>) x" using x by (simp add: library_sound_def list_all_iff)
  then show "ir_route_template request \<in> set CALLER_ROUTES
      \<Longrightarrow> \<exists>b. validate_library_lifecycle_receipt env' (app\<lparr>ap_auth := auth\<rparr>) x = Inr b"
    "ir_route_template request = PAGE_MOVE_ROUTE_TEMPLATE
      \<Longrightarrow> \<exists>b. validate_caller_move_receipt env' (app\<lparr>ap_auth := auth\<rparr>) x = Inr b"
    using x by (auto simp: receipt_ok_def same_codec_receipts [OF c] validate_library_lifecycle_receipt_def
        validate_caller_move_receipt_def)
qed

lemma replay_receipt_error:
  assumes "replay_receipt validate scope request r app = Inl e" "lookup_replay (ap_records app) scope request = Inr (Some r)"
  obtains x where "get_record (ap_records app) scope request = Inr (Some x)" "validate app x = Inl e"
  using assms by (auto simp: replay_receipt_def lookup_replay_def changeE_Inl bindR_Inl_iff result_simps split: option.splits)

lemma record_receipt_error:
  assumes "record_receipt validate scope request response app = Inl e"
    and g: "get_record (ap_records app) scope request = Inr None"
  obtains (store) f where "e = ChangeStore f"
  | (receipt) records where "validate (app\<lparr>ap_records := records\<rparr>)
      \<lparr>ic_caller = scope, ic_request = request, ic_response = response\<rparr> = Inl e"
proof (cases "record_success (ap_auth app) (ap_records app) scope request response")
  case (Inl f)
  then have "e = ChangeStore f" using assms(1) by (simp add: record_receipt_def)
  then show ?thesis by (rule store)
next
  case (Inr y)
  obtain records x where y: "y = (records, x)" by (cases y)
  have "x = \<lparr>ic_caller = scope, ic_request = request, ic_response = response\<rparr>"
    using Inr unfolding y by (cases rule: record_success_cases) (use g in simp_all)
  then show ?thesis using assms(1) receipt Inr y by (auto simp: record_receipt_def Let_def bindR_Inl_iff)
qed

lemma transition_error:
  assumes "transition env u token c key app = Inl LifecycleReplayCorrupt"
  obtains (stored) now auth a scope request x where
      "authorize_page_move (sv_sha env) True now token (pc_library_id c) (ap_auth app) = Inr (auth, a)"
      "lifecycle_request env c key a = Inr (scope, request)"
      "get_record (ap_records app) scope request = Inr (Some x)"
      "validate_library_lifecycle_receipt env (app\<lparr>ap_auth := auth\<rparr>) x = Inl LifecycleReplayCorrupt"
  | (fresh) now auth a scope request p db response records where "sv_schema env \<in> set LIBRARY_LIFECYCLE_REVISIONS"
      "authorize_page_move (sv_sha env) True now token (pc_library_id c) (ap_auth app) = Inr (auth, a)"
      "lifecycle_request env c key a = Inr (scope, request)"
      "lifecycle_target env u c (ap_content app) = Inr p"
      "write_transition env now c a p auth (ap_content app) = Inr (db, response)"
      "validate_library_lifecycle_receipt env \<lparr>ap_content = db, ap_auth = auth, ap_records = records\<rparr>
         \<lparr>ic_caller = scope, ic_request = request, ic_response = response\<rparr> = Inl LifecycleReplayCorrupt"
proof -
  have sc: "sv_schema env \<in> set LIBRARY_LIFECYCLE_REVISIONS" using assms by (auto simp: transition_def split: if_splits)
  obtain now auth a scope request found where h:
      "authorize_page_move (sv_sha env) True now token (pc_library_id c) (ap_auth app) = Inr (auth, a)"
      "lifecycle_request env c key a = Inr (scope, request)" "lookup_replay (ap_records app) scope request = Inr found"
    and t: "(case found of
          Some r \<Rightarrow> replay_receipt (validate_library_lifecycle_receipt env) scope request r (app\<lparr>ap_auth := auth\<rparr>)
        | None \<Rightarrow>
            bindR (lifecycle_target env u c (ap_content app)) (\<lambda>p.
            bindR (changeE (write_transition env now c a p auth (ap_content app))) (\<lambda>(db, response).
            record_receipt (validate_library_lifecycle_receipt env) scope request response
              (app\<lparr>ap_content := db, ap_auth := auth\<rparr>)))) = Inl LifecycleReplayCorrupt"
    using assms by (auto simp: transition_def bindR_Inl_iff changeE_Inl split: if_splits)
  show ?thesis
  proof (cases found)
    case (Some r)
    then have "replay_receipt (validate_library_lifecycle_receipt env) scope request r (app\<lparr>ap_auth := auth\<rparr>)
        = Inl LifecycleReplayCorrupt" using t by simp
    from replay_receipt_error [OF this] h(3) Some obtain x where
      "get_record (ap_records app) scope request = Inr (Some x)"
      "validate_library_lifecycle_receipt env (app\<lparr>ap_auth := auth\<rparr>) x = Inl LifecycleReplayCorrupt" by auto
    then show ?thesis by (rule stored [OF h(1,2)])
  next
    case None
    have g: "get_record (ap_records app) scope request = Inr None"
      using h(3) None by (auto simp: lookup_replay_def split: option.splits elim!: bindR_InrE)
    obtain p db response where w: "lifecycle_target env u c (ap_content app) = Inr p"
      "write_transition env now c a p auth (ap_content app) = Inr (db, response)"
      and r: "record_receipt (validate_library_lifecycle_receipt env) scope request response
              (app\<lparr>ap_content := db, ap_auth := auth\<rparr>) = Inl LifecycleReplayCorrupt"
      using t None lifecycle_target_error [of env u c "ap_content app" LifecycleReplayCorrupt] by (auto simp: bindR_Inl_iff changeE_Inl)
    from r show ?thesis
      by (rule record_receipt_error) (use g fresh [OF sc h(1,2) w] in \<open>(cases app, auto)+\<close>)
  qed
qed

lemma move_error:
  assumes "move_page env token c key app = Inl MoveReplayCorrupt"
  obtains (stored) now auth a scope request x where
      "authorize_page_move (sv_sha env) True now token (vm_library_id c) (ap_auth app) = Inr (auth, a)"
      "move_request env c key a = Inr (scope, request)"
      "get_record (ap_records app) scope request = Inr (Some x)"
      "validate_caller_move_receipt env (app\<lparr>ap_auth := auth\<rparr>) x = Inl MoveReplayCorrupt"
  | (fresh) now auth a scope request plan db response records where
      "authorize_page_move (sv_sha env) True now token (vm_library_id c) (ap_auth app) = Inr (auth, a)"
      "move_request env c key a = Inr (scope, request)"
      "prepare_page_move (sv_sha env) (ap_content app) (vm_library_id c) (vm_page_id c)
         (vm_source_section_id c, vm_source_book_id c) (vm_target_section_id c, vm_target_book_id c)
         (vm_expected_etag c) now = Inr plan"
      "write_page_move env now c a plan auth (ap_content app) = Inr (db, response)"
      "validate_caller_move_receipt env \<lparr>ap_content = db, ap_auth = auth, ap_records = records\<rparr>
         \<lparr>ic_caller = scope, ic_request = request, ic_response = response\<rparr> = Inl MoveReplayCorrupt"
proof -
  obtain now auth a scope request found where h:
      "authorize_page_move (sv_sha env) True now token (vm_library_id c) (ap_auth app) = Inr (auth, a)"
      "move_request env c key a = Inr (scope, request)" "lookup_replay (ap_records app) scope request = Inr found"
    and t: "(case found of
          Some r \<Rightarrow> replay_receipt (validate_caller_move_receipt env) scope request r (app\<lparr>ap_auth := auth\<rparr>)
        | None \<Rightarrow>
            bindR (changeE (prepare_page_move (sv_sha env) (ap_content app) (vm_library_id c) (vm_page_id c)
              (vm_source_section_id c, vm_source_book_id c) (vm_target_section_id c, vm_target_book_id c)
              (vm_expected_etag c) now)) (\<lambda>plan.
            bindR (changeE (write_page_move env now c a plan auth (ap_content app))) (\<lambda>(db, response).
            record_receipt (validate_caller_move_receipt env) scope request response
              (app\<lparr>ap_content := db, ap_auth := auth\<rparr>)))) = Inl MoveReplayCorrupt"
    using assms by (auto simp: move_page_def bindR_Inl_iff changeE_Inl split: if_splits)
  show ?thesis
  proof (cases found)
    case (Some r)
    then have "replay_receipt (validate_caller_move_receipt env) scope request r (app\<lparr>ap_auth := auth\<rparr>)
        = Inl MoveReplayCorrupt" using t by simp
    from replay_receipt_error [OF this] h(3) Some obtain x where
      "get_record (ap_records app) scope request = Inr (Some x)"
      "validate_caller_move_receipt env (app\<lparr>ap_auth := auth\<rparr>) x = Inl MoveReplayCorrupt" by auto
    then show ?thesis by (rule stored [OF h(1,2)])
  next
    case None
    have g: "get_record (ap_records app) scope request = Inr None"
      using h(3) None by (auto simp: lookup_replay_def split: option.splits elim!: bindR_InrE)
    obtain plan db response where w: "prepare_page_move (sv_sha env) (ap_content app) (vm_library_id c) (vm_page_id c)
         (vm_source_section_id c, vm_source_book_id c) (vm_target_section_id c, vm_target_book_id c)
         (vm_expected_etag c) now = Inr plan"
      "write_page_move env now c a plan auth (ap_content app) = Inr (db, response)"
      and r: "record_receipt (validate_caller_move_receipt env) scope request response
              (app\<lparr>ap_content := db, ap_auth := auth\<rparr>) = Inl MoveReplayCorrupt"
      using t None by (auto simp: bindR_Inl_iff changeE_Inl)
    from r show ?thesis
      by (rule record_receipt_error) (use g fresh [OF h(1,2) w] in \<open>(cases app, auto)+\<close>)
  qed
qed

lemma transition_not_corrupt:
  assumes s: "library_sound env app tr" and rd: "receipts_readable env" and sch: "sv_schema env \<in> set CALLER_MOVE_REVISIONS"
    and cd: "same_codec env env'" and v: "page_lifecycle_command_valid c"
  shows "transition env' u token c key app \<noteq> Inl LifecycleReplayCorrupt"
proof
  assume "transition env' u token c key app = Inl LifecycleReplayCorrupt"
  then show False
  proof (cases rule: transition_error)
    case (stored now auth a scope request x)
    have e: "sv_sha env' = sv_sha env" using cd by (simp add: same_codec_def)
    have "auth_steps (sv_sha env) (ap_auth app) auth" using authorize_page_move_steps [OF stored(1)] e by simp
    from stored_receipt(1) [OF s stored(3) this sch cd lifecycle_request_route [OF stored(2)]] stored(4)
    show False by auto
  next
    case (fresh now auth a scope request p db response records)
    have e: "sv_sha env' = sv_sha env" "sv_schema env' = sv_schema env" using cd by (simp_all add: same_codec_def)
    have rd': "receipts_readable env'" using rd cd by (simp add: receipts_readable_def same_codec_def)
    note tg = lifecycle_target_Inr [OF fresh(4)]
    have h: "reachable (sv_sha env) (ap_content app) tr" "auth_ok (sv_sha env) (ap_auth app)"
      "service_rows (sv_sha env) (ap_content app)" using s by (simp_all add: library_sound_def)
    have ok: "store_ok (ap_content app) (sv_schema env') tr" unfolding e(2) by (rule reachable_store_ok [OF h(1) sch])
    obtain tr' where w: "audits_tied db" by (rule write_transition_kept [OF s sch fresh(5) tg(1) [unfolded e(1)]])
    have au: "auth_ok (sv_sha env') auth"
      using auth_steps_ok [OF authorize_page_move_steps [OF fresh(2)]] h(2) e by simp
    have "\<exists>b. lifecycle_receipt_body env' \<lparr>ap_content = db, ap_auth = auth, ap_records = records\<rparr>
        \<lparr>ic_caller = scope, ic_request = request, ic_response = response\<rparr> = Inr b"
      by (rule fresh_lifecycle_receipt [OF fresh(5,3) tg ok fresh(1) _ reachable_unique [OF h(1)] _ _ _ _ _ rd' v])
        (use sch e h w au in \<open>simp_all add: service_rows_def\<close>)
    then show False using fresh(6) by (auto simp: validate_library_lifecycle_receipt_def)
  qed
qed

lemma move_not_corrupt:
  assumes s: "library_sound env app tr" and rd: "receipts_readable env" and sch: "sv_schema env \<in> set CALLER_MOVE_REVISIONS"
    and cd: "same_codec env env'" and v: "page_move_command_valid c"
  shows "move_page env' token c key app \<noteq> Inl MoveReplayCorrupt"
proof
  have e: "sv_sha env' = sv_sha env" "sv_schema env' = sv_schema env" using cd by (simp_all add: same_codec_def)
  assume "move_page env' token c key app = Inl MoveReplayCorrupt"
  then show False
  proof (cases rule: move_error)
    case (stored now auth a scope request x)
    have "auth_steps (sv_sha env) (ap_auth app) auth" using authorize_page_move_steps [OF stored(1)] e by simp
    from stored_receipt(2) [OF s stored(3) this sch cd move_request_route [OF stored(2)]] stored(4)
    show False by auto
  next
    case (fresh now auth a scope request plan db response records)
    obtain b where "move_receipt_body env' \<lparr>ap_content = db, ap_auth = auth, ap_records = records\<rparr>
        \<lparr>ic_caller = scope, ic_request = request, ic_response = response\<rparr> = Inr b"
      by (rule fresh_move [OF s sch fresh(3,4,2) e rd cd v,
            where app' = "\<lparr>ap_content = db, ap_auth = auth, ap_records = records\<rparr>"]) auto
    then show False using fresh(5) by (auto simp: validate_caller_move_receipt_def)
  qed
qed

text \<open>C8: a receipt is never found corrupt. Whatever requests of the archive service, deletions, restorations
  and moves of callers, changes of the administrator, new books and operations on callers and credentials
  a store has seen, no request of a caller is refused because a recorded success does not fit the page's
  history, its events and its audit rows, neither a recorded one nor the one just written.\<close>

theorem receipts_never_corrupt:
  assumes "library_reachable env app" and "receipts_readable env" and "sv_schema env \<in> set CALLER_MOVE_REVISIONS"
    and "same_codec env env'" and "page_lifecycle_command_valid c" and "page_move_command_valid mc"
  shows "transition env' u token c key app \<noteq> Inl LifecycleReplayCorrupt
    \<and> move_page env' token mc key app \<noteq> Inl MoveReplayCorrupt"
proof -
  obtain tr where s: "library_sound env app tr" by (rule library_reachable_sound [OF assms(1-3)])
  show ?thesis using transition_not_corrupt [OF s assms(2-5)] move_not_corrupt [OF s assms(2-4,6)] by blast
qed

section \<open>Repeated requests\<close>

lemma same_lifecycle_request:
  assumes "ca_id (ac_caller b) = ca_id (ac_caller a)" "ca_library_id (ac_caller b) = ca_library_id (ac_caller a)"
    and "sv_sha env' = sv_sha env"
  shows "lifecycle_request env' (c\<lparr>pc_request_id := rq\<rparr>) key b = lifecycle_request env c key a"
  by (simp add: lifecycle_request_def same_scope [OF assms(1,2)] assms(3) library_lifecycle_fingerprint_def library_lifecycle_json_def)

lemma same_move_request:
  assumes "ca_id (ac_caller b) = ca_id (ac_caller a)" "ca_library_id (ac_caller b) = ca_library_id (ac_caller a)"
    and "sv_sha env' = sv_sha env"
  shows "move_request env' (c\<lparr>vm_request_id := rq\<rparr>) key b = move_request env c key a"
  by (simp add: move_request_def same_scope [OF assms(1,2)] assms(3) move_fingerprint_def page_move_json_def)

lemma transition_recorded:
  assumes "transition env u token c key app = Inr (app1, response)"
    and "change_time env = Inr now" "authorize_page_move (sv_sha env) True now token (pc_library_id c) (ap_auth app) = Inr (auth, a)"
  obtains scope request x where "lifecycle_request env c key a = Inr (scope, request)"
    "get_record (ap_records app1) scope request = Inr (Some x)" "ic_response x = response"
    "require_matching_fingerprint x request = Inr ()"
  using assms(1)
proof (cases rule: transition_Inr)
  case (replayed now' auth' a' scope request x)
  then show ?thesis using that assms(2,3) by simp
next
  case (fresh now' auth' a' scope request p db records)
  from record_success_get [OF fresh(8)] show ?thesis
    using that fresh assms(2,3) by (auto simp: require_matching_fingerprint_def)
qed

text \<open>C3: a deletion or restoration may be repeated. When it was answered and is sent again under the same key,
  however often the store was changed in between by requests of any kind, by another version of the
  same caller's credential and with another request id, the answer is the recorded one and only the
  time of the credential's last use is written. The caller must still be one that may write in the
  Library.\<close>

theorem transition_repeated:
  assumes "library_reachable env app" and "receipts_readable env" and "sv_schema env \<in> set CALLER_MOVE_REVISIONS"
    and "same_codec env env1" and "page_lifecycle_command_valid c"
    and "transition env1 u token c key app = Inr (app1, response)"
    and "change_time env1 = Inr now"
    and "authorize_page_move (sv_sha env) True now token (pc_library_id c) (ap_auth app) = Inr (auth1, a1)"
    and "library_steps env app1 app2" and "same_codec env env2" and "sv_in_transaction env2"
    and "change_time env2 = Inr later"
    and "authorize_page_move (sv_sha env) True later token' (pc_library_id c) (ap_auth app2) = Inr (auth2, a2)"
    and "ca_id (ac_caller a2) = ca_id (ac_caller a1)" and "ca_library_id (ac_caller a2) = ca_library_id (ac_caller a1)"
  shows "transition env2 u' token' (c\<lparr>pc_request_id := rq\<rparr>) key app2 = Inr (app2\<lparr>ap_auth := auth2\<rparr>, response)"
proof -
  have e: "sv_sha env1 = sv_sha env" "sv_sha env2 = sv_sha env" "sv_schema env2 = sv_schema env" "sv_schema env1 = sv_schema env"
    using assms(4,10) by (simp_all add: same_codec_def)
  obtain tr where s: "library_sound env app tr" by (rule library_reachable_sound [OF assms(1-3)])
  obtain tr1 where s1: "library_sound env app1 tr1" using transition_sound [OF s assms(6,4,5,2,3)] by blast
  obtain tr2 where s2: "library_sound env app2 tr2" and run: "app_run (sv_sha env) (app1, tr1) (app2, tr2)"
    using library_steps_sound [OF assms(9) s1 assms(2,3)] by blast
  obtain scope request x where q: "lifecycle_request env1 c key a1 = Inr (scope, request)"
    and g: "get_record (ap_records app1) scope request = Inr (Some x)"
    and x: "ic_response x = response" "require_matching_fingerprint x request = Inr ()"
    using transition_recorded [OF assms(6,7)] assms(8) e by metis
  have g2: "get_record (ap_records app2) scope request = Inr (Some x)"
    using records_later_get [OF _ g] run by (simp add: app_run_def)
  have q2: "lifecycle_request env2 (c\<lparr>pc_request_id := rq\<rparr>) key a2 = Inr (scope, request)"
    using same_lifecycle_request [OF assms(14,15), of env2 env1] q e by simp
  have st: "auth_steps (sv_sha env) (ap_auth app2) auth2" by (rule authorize_page_move_steps [OF assms(13)])
  obtain b where b: "validate_library_lifecycle_receipt env2 (app2\<lparr>ap_auth := auth2\<rparr>) x = Inr b"
    using stored_receipt(1) [OF s2 g2 st assms(3,10) lifecycle_request_route [OF q]] by blast
  have "sv_schema env2 \<in> set LIBRARY_LIFECYCLE_REVISIONS"
    using assms(6) e by (auto simp: transition_def split: if_splits)
  then show ?thesis
    using assms(11-13) e q2 g2 x b by (simp add: transition_def lookup_replay_def replay_receipt_def)
qed

end
