(* ===== verification/CallerSamples.thy ===== *)
theory CallerSamples
  imports CallerTheorems FileSetSamples
begin

text \<open>
  A deletion by a caller on a concrete store, evaluated step by step: the examples of the theorems about
  the receipts of callers.
\<close>

section \<open>The store\<close>

lemma json_receipts_readable:
  assumes "sv_dump env = json_text" "sv_parse env = (\<lambda>b. Option.bind (utf8_decode b) json_loads)"
  shows "receipts_readable env"
proof -
  have n: "int (length (dec_str (nat \<bar>n\<bar>))) \<le> MAX_STR_DIGITS" if "number_field n" for n
  proof -
    have "nat n < 10 ^ 19" using that by (simp add: number_field_def MAX_I64_def nat_less_iff)
    then have "length (dec_str (nat n)) \<le> 19" by (intro length_dec_str_le) simp
    then show ?thesis using that by (simp add: number_field_def MAX_STR_DIGITS_def)
  qed
  have "json_plain (library_lifecycle_body_json b)" if "library_lifecycle_body_valid b" for b
    using that n by (cases "yb_deleted_at b")
      (simp_all add: library_lifecycle_body_valid_def library_lifecycle_body_json_def json_optional_def)
  moreover have "json_plain (page_move_body_json b)" if "page_move_body_valid b" for b
    using that n by (simp add: page_move_body_valid_def page_move_body_json_def)
  ultimately show ?thesis using utf8_decode_encode json_loads_text by (simp add: receipts_readable_def assms)
qed

definition auth_db5 :: auth_db where
  "auth_db5 = auth_db4\<lparr>a_policies := [\<lparr>lp_credential_id = auth_id 4, lp_caller_id = auth_id 2,
       lp_home_library_id = auth_id 1, lp_mode = lit ''library_grants'', lp_read_mode = lit ''include'',
       lp_write_mode = lit ''include'', lp_scope_revision = 1\<rparr>],
     a_library_grants := [\<lparr>lg_credential_id = auth_id 4, lg_caller_id = auth_id 2, lg_home_library_id = auth_id 1,
       lg_target_library_id = auth_id 1, lg_action = LibraryWrite\<rparr>]\<rparr>"

definition sample_app5 :: app_db where
  "sample_app5 = \<lparr>ap_content = content4, ap_auth = auth_db5, ap_records = [new_record]\<rparr>"

lemma credential_library_steps:
  assumes "auth_steps (sv_sha env) (ap_auth app) auth"
  shows "library_steps env app (app\<lparr>ap_auth := auth\<rparr>)"
  using assms unfolding auth_steps_def library_steps_def
proof (induction rule: rtranclp_induct)
  case (step y z)
  have "library_step env (app\<lparr>ap_auth := y\<rparr>) (app\<lparr>ap_auth := y\<rparr>\<lparr>ap_auth := z\<rparr>)"
    by (rule library_step.credentials) (simp add: step(2))
  then show ?case using step.IH by (simp add: rtranclp.rtrancl_into_rtrancl)
qed simp

lemma sample_grants: "auth_steps sample_sha empty_auth auth_db4" "auth_steps sample_sha auth_db4 auth_db5"
proof -
  have "add_grant \<lparr>sg_library_id = auth_id 1, sg_caller_id = auth_id 2, sg_section_id = auth_id 3,
      sg_action = ArchiveWrite\<rparr> auth_db2 = Inr auth_db4" by code_simp
  then have "auth_step sample_sha auth_db2 auth_db4" by (rule auth_step.add_grant)
  then show "auth_steps sample_sha empty_auth auth_db4"
    using sample_steps2 unfolding auth_steps_def by (rule rtranclp.rtrancl_into_rtrancl [rotated])
  have "auth_step sample_sha auth_db4 auth_db5"
    by (rule auth_step.other_tables [where ls = "a_libraries auth_db4" and ss = "a_sections auth_db4"
          and ps = "a_policies auth_db5" and gs = "a_library_grants auth_db5"]) (simp add: auth_db5_def)
  then show "auth_steps sample_sha auth_db4 auth_db5" by (simp add: auth_steps_def)
qed

lemma library_steps_into: "library_steps env a b \<Longrightarrow> library_step env b c \<Longrightarrow> library_steps env a c"
  unfolding library_steps_def by (rule rtranclp.rtrancl_into_rtrancl)

lemma library_steps_trans: "library_steps env a b \<Longrightarrow> library_steps env b c \<Longrightarrow> library_steps env a c"
  unfolding library_steps_def by (rule rtranclp_trans)

lemma sample_app_reachable: "library_reachable sample_env sample_app5"
proof -
  have b: "add_book sample_book empty_db = Inr sample_content"
    by (simp add: add_book_def sample_content_def empty_db_def)
  have "library_steps sample_env empty_app (empty_app\<lparr>ap_auth := auth_db4\<rparr>)"
    by (rule credential_library_steps) (simp add: empty_app_def sample_grants)
  moreover have "library_step sample_env (empty_app\<lparr>ap_auth := auth_db4\<rparr>) sample_app"
    using library_step.book [of sample_book "empty_app\<lparr>ap_auth := auth_db4\<rparr>" sample_content sample_env] b
    by (simp add: empty_app_def sample_app_def)
  moreover have "library_step sample_env sample_app (sample_app5\<lparr>ap_auth := auth_db4\<rparr>)"
    using library_step.archive [OF _ service_step.created [OF sample_created], of sample_env]
    by (simp add: sample_app5_def same_codec_def)
  moreover have "library_steps sample_env (sample_app5\<lparr>ap_auth := auth_db4\<rparr>) sample_app5"
    using credential_library_steps [of sample_env "sample_app5\<lparr>ap_auth := auth_db4\<rparr>" auth_db5] sample_grants(2)
    by (simp add: sample_app5_def)
  ultimately show ?thesis unfolding library_reachable_def
    using library_steps_into library_steps_trans by blast
qed

section \<open>The request\<close>

definition delete_command :: page_lifecycle_command where
  "delete_command = \<lparr>pc_library_id = auth_id 1, pc_page_id = lit ''19700101t000000000z-notes'', pc_action = DELETE,
     pc_expected_etag = new_etag, pc_request_id = cm_request_id sample_command\<rparr>"

definition delete_request :: idempotency_request where
  "delete_request = \<lparr>ir_method = lit ''DELETE'', ir_route_template = LIBRARY_DELETE_PAGE_ROUTE,
     ir_key_digest = replicate 32 7, ir_request_fingerprint = replicate 32 7\<rparr>"

abbreviation later_env :: service_env where
  "later_env \<equiv> sample_env\<lparr>sv_clock := 60, sv_ids := (\<lambda>n. auth_id (8 + n))\<rparr>"

lemma delete_command_valid: "page_lifecycle_command_valid delete_command"
  by code_simp

lemma delete_time: "change_time later_env = Inr 60"
proof -
  have "\<not> isl (canonical_utc_wire 60)" by code_simp
  then show ?thesis by (cases "canonical_utc_wire 60") (simp_all add: change_time_def bad_value_def)
qed

lemma delete_authorized:
  "authorize_page_move sample_sha True 60 sample_token (auth_id 1) auth_db5 = Inr (auth_db5, sample_caller)"
  by code_simp

lemma delete_requested: "lifecycle_request later_env delete_command [1] sample_caller = Inr (sample_scope, delete_request)"
proof -
  have "\<not> isl (utf8_bytes (json_dumps (library_lifecycle_json delete_command)))" by code_simp
  then obtain m where "utf8_bytes (json_dumps (library_lifecycle_json delete_command)) = Inr m"
    by (cases "utf8_bytes (json_dumps (library_lifecycle_json delete_command))") auto
  then have f: "library_lifecycle_fingerprint sample_sha delete_command = Inr (replicate 32 7)"
    by (auto simp: library_lifecycle_fingerprint_def digest_request_fingerprint_def sample_sha_def)
  have k: "lifecycle_key_digest sample_sha [1] (auth_id 1) = Inr (replicate 32 7)" by code_simp
  have r: "make_request (lit ''DELETE'') LIBRARY_DELETE_PAGE_ROUTE (replicate 32 7) (replicate 32 7) = Inr delete_request"
    by code_simp
  have s: "validated_scope (pc_library_id delete_command) sample_caller = Inr sample_scope"
    "lifecycle_route (pc_action delete_command) = (lit ''DELETE'', LIBRARY_DELETE_PAGE_ROUTE)"
    using sample_authenticate(2) by (simp_all add: delete_command_def lifecycle_route_def)
  have "vc_actor_home_library_id sample_scope = auth_id 1" by (simp add: sample_scope_def del: One_nat_def)
  then show ?thesis by (simp add: lifecycle_request_def s f k r del: One_nat_def)
qed

lemma delete_unrecorded: "lookup_replay [new_record] sample_scope delete_request = Inr None"
  by (simp add: lookup_replay_def get_record_def matches_record_def new_record_def delete_request_def create_request_def)

lemma delete_target: "lifecycle_target later_env ascii_unicode delete_command content4 = Inr new_page"
proof -
  have "page_etag sample_sha new_page = Inr new_etag"
    using new_etag_made by (simp add: page_etag_def new_page_def sample_page_def)
  then show ?thesis using sample_reads
    by (simp add: lifecycle_target_def delete_command_def archive_page_def new_page_def sample_page_def)
qed

section \<open>The change\<close>

definition deleted_page :: page where
  "deleted_page = new_page\<lparr>pg_deleted_at := Some 60, pg_updated_at := 60\<rparr>"

definition deleted_event :: lifecycle_event where
  "deleted_event = \<lparr>le_library_id = auth_id 1, le_page_uid = sample_uid, le_sequence = 1, le_action = DELETE,
     le_section_id = auth_id 3, le_old_deleted_at = None, le_old_updated_at = 50, le_changed_at = 60,
     le_at_revision_number = 1, le_occurred_at_at_event = 0, le_actor_caller_id = Some (auth_id 2),
     le_actor_home_library_id = Some (auth_id 1), le_master_audit_event_id = None,
     le_request_id = cm_request_id sample_command\<rparr>"

definition deleted_audit :: audit_event where
  "deleted_audit = service_audit (auth_id 8) (auth_id 1) sample_caller (lit ''content.page.'' @ DELETE) (lit ''page'')
     (lit ''19700101t000000000z-notes'') (cm_request_id sample_command) 60"

definition content5 :: content_db where
  "content5 = content4\<lparr>t_pages := [deleted_page], t_lifecycle_events := [deleted_event]\<rparr>"

definition content6 :: content_db where
  "content6 = content5\<lparr>t_audits := [new_audit, deleted_audit]\<rparr>"

lemma deleted_row:
  "transition_page_lifecycle_row new_page DELETE (Some (auth_id 2)) (Some (auth_id 1)) None
     (cm_request_id sample_command) 60 content4 = Inr (content5, deleted_page, deleted_event)"
  by code_simp

lemma deleted_audited: "add_audit_event auth_db5 deleted_audit content5 = Inr content6"
  by code_simp

section \<open>The answer\<close>

definition deleted_body :: library_lifecycle_body where
  "deleted_body = \<lparr>yb_library_id = auth_id 1, yb_page_id = lit ''19700101t000000000z-notes'',
     yb_section_id = auth_id 3, yb_book_id = auth_id 5, yb_state = lit ''trashed'',
     yb_deleted_at = Some (lit ''1970-01-01T00:00:00.000060Z''), yb_revision_id = lit ''rev_'' @ sample_id,
     yb_revision_number = 1, yb_occurred_at = lit ''1970-01-01T00:00:00.000000Z'',
     yb_original_updated_at = lit ''1970-01-01T00:00:00.000050Z'',
     yb_updated_at = lit ''1970-01-01T00:00:00.000060Z'', yb_request_etag = new_etag\<rparr>"

definition deleted_bytes :: bytes where
  "deleted_bytes = map of_nat (json_text (library_lifecycle_body_json deleted_body))"

definition deleted_response :: original_response where
  "deleted_response = \<lparr>or_status = 200, or_media_type = lit ''application/json'', or_body = deleted_bytes,
     or_location = None, or_etag = new_etag, or_request_id = cm_request_id sample_command,
     or_timestamp = lit ''1970-01-01T00:00:00.000060Z''\<rparr>"

lemma deleted_body_plain: "json_plain (library_lifecycle_body_json deleted_body)"
  "json_ascii (library_lifecycle_body_json deleted_body)"
  "length (json_text (library_lifecycle_body_json deleted_body)) < 1000"
  by code_simp+

lemma created_field: "canonical_time_field (lit ''1970-01-01T00:00:00.000000Z'')"
  by code_simp

lemma updated_field: "canonical_time_field (lit ''1970-01-01T00:00:00.000050Z'')"
  by code_simp

lemma deleted_field: "canonical_time_field (lit ''1970-01-01T00:00:00.000060Z'')"
  by code_simp

lemma deleted_fields:
  "opaque_id (auth_id 1)" "opaque_id (auth_id 3)" "opaque_id (auth_id 5)" "page_id_field (lit ''19700101t000000000z-notes'')"
  "revision_id_pattern (lit ''rev_'' @ sample_id)" "number_field 1" "strong_page_etag new_etag"
  by code_simp+

lemma deleted_body_valid: "library_lifecycle_body_valid deleted_body"
  by (simp add: library_lifecycle_body_valid_def deleted_body_def deleted_fields created_field updated_field deleted_field
      sample_id_valid optional_def del: One_nat_def)

text \<open>An ASCII document and its bytes.\<close>

lemma plain_document:
  assumes "json_plain v" "json_ascii v" "v = JObj ms"
  shows "utf8_encode (json_text v) = Some (map of_nat (json_text v))" and "require_json_object (map of_nat (json_text v))"
proof -
  have t: "isascii (json_text v)" "0 \<notin> set (json_text v)"
    using json_text_chars [OF assms(1)] assms(2) by (force simp: isascii_def list_all_iff)+
  show e: "utf8_encode (json_text v) = Some (map of_nat (json_text v))" using t by (simp add: utf8_encode_ascii)
  have "0 \<notin> set (map of_nat (json_text v) :: bytes)"
  proof
    assume "0 \<in> set (map of_nat (json_text v) :: bytes)"
    then obtain c where c: "c \<in> set (json_text v)" "(of_nat c :: 8 word) = 0" by auto
    have "32 \<le> c \<and> c < 128" using json_text_chars [OF assms(1) c(1)] assms(2) by blast
    then have "unat (of_nat c :: 8 word) = c" by (simp add: unat_of_nat)
    with c \<open>32 \<le> c \<and> c < 128\<close> show False by simp
  qed
  then show "require_json_object (map of_nat (json_text v))"
    using utf8_decode_encode [OF e] json_loads_text [OF assms(1)] assms(3) by (simp add: require_json_object_def)
qed

lemma deleted_body_bytes: "utf8_encode (json_text (library_lifecycle_body_json deleted_body)) = Some deleted_bytes"
  "require_json_object deleted_bytes"
  using plain_document [OF deleted_body_plain(1,2)] by (simp_all add: deleted_bytes_def library_lifecycle_body_json_def)

lemma deleted_wires: "wire 0 = Inr (lit ''1970-01-01T00:00:00.000000Z'')"
  "wire 50 = Inr (lit ''1970-01-01T00:00:00.000050Z'')" "wire 60 = Inr (lit ''1970-01-01T00:00:00.000060Z'')"
  by code_simp+

lemma deleted_etag: "page_etag sample_sha deleted_page = Inr new_etag"
  by code_simp

lemma deleted_response_valid: "response_valid deleted_response"
proof -
  have "strong_etag new_etag" "request_id_valid (cm_request_id sample_command)"
    "canonical_timestamp (lit ''1970-01-01T00:00:00.000060Z'')" by code_simp+
  moreover have "1 \<le> length deleted_bytes" "int (length deleted_bytes) \<le> REPLAY_BODY_MAX_BYTES"
    using deleted_body_plain(3)
    by (auto simp: deleted_bytes_def REPLAY_BODY_MAX_BYTES_def library_lifecycle_body_json_def Suc_le_eq)
  ultimately show ?thesis using deleted_body_bytes(2) by (simp add: response_valid_def deleted_response_def)
qed

lemma deleted_answered: "lifecycle_response later_env delete_command new_page deleted_page = Inr deleted_response"
proof -
  have p: "pg_deleted_at deleted_page = Some 60" "pg_updated_at deleted_page = 60" "pg_occurred_at new_page = 0"
    "pg_updated_at new_page = 50" "pg_library_id new_page = auth_id 1" "pg_section_id new_page = auth_id 3"
    "pg_book_id new_page = auth_id 5" "pg_page_id new_page = lit ''19700101t000000000z-notes''"
    "pg_current_revision_id new_page = lit ''rev_'' @ sample_id" "pg_current_revision_number new_page = 1"
    by (simp_all add: deleted_page_def new_page_def sample_page_def)
  have c: "pc_expected_etag delete_command = new_etag" "pc_request_id delete_command = cm_request_id sample_command"
    by (simp_all add: delete_command_def)
  have b: "\<lparr>yb_library_id = auth_id 1, yb_page_id = lit ''19700101t000000000z-notes'',
     yb_section_id = auth_id 3, yb_book_id = auth_id 5, yb_state = lit ''trashed'',
     yb_deleted_at = Some (lit ''1970-01-01T00:00:00.000060Z''), yb_revision_id = lit ''rev_'' @ sample_id,
     yb_revision_number = 1, yb_occurred_at = lit ''1970-01-01T00:00:00.000000Z'',
     yb_original_updated_at = lit ''1970-01-01T00:00:00.000050Z'',
     yb_updated_at = lit ''1970-01-01T00:00:00.000060Z'', yb_request_etag = new_etag\<rparr> = deleted_body"
    by (simp add: deleted_body_def del: One_nat_def)
  show ?thesis
    unfolding lifecycle_response_def p c
    using deleted_body_valid deleted_body_bytes(1) deleted_response_valid
    by (simp add: deleted_wires b checked_def utf8_bytes_def deleted_etag del: One_nat_def)
      (simp add: deleted_response_def)
qed

lemma deleted_written:
  "write_transition later_env 60 delete_command sample_caller new_page auth_db5 content4 = Inr (content6, deleted_response)"
proof -
  have a: "ca_id (ac_caller sample_caller) = auth_id 2" "ca_library_id (ac_caller sample_caller) = auth_id 1"
    "pc_action delete_command = DELETE" "pc_request_id delete_command = cm_request_id sample_command"
    "pc_library_id delete_command = auth_id 1" "pg_page_id new_page = lit ''19700101t000000000z-notes''"
    "le_changed_at deleted_event = 60"
    by (simp_all add: sample_caller_def sample_agent_def delete_command_def new_page_def sample_page_def deleted_event_def)
  show ?thesis
    by (simp add: write_transition_def a deleted_row deleted_audit_def [symmetric] deleted_audited deleted_answered
        del: One_nat_def)
qed

section \<open>The receipt\<close>

definition deleted_record :: idempotency_record where
  "deleted_record = \<lparr>ic_caller = sample_scope, ic_request = delete_request, ic_response = deleted_response\<rparr>"

definition sample_app6 :: app_db where
  "sample_app6 = \<lparr>ap_content = content6, ap_auth = auth_db5, ap_records = [new_record, deleted_record]\<rparr>"

lemma deleted_recorded:
  "record_success auth_db5 [new_record] sample_scope delete_request deleted_response
   = Inr ([new_record, deleted_record], deleted_record)"
proof -
  have "caller_scope_valid sample_scope" "request_valid delete_request" by code_simp+
  then have v: "record_valid deleted_record" using deleted_response_valid
    by (simp add: record_valid_def deleted_record_def)
  have l: "opaque_id (auth_id 1)" "opaque_id (auth_id 2)" "validate_method (lit ''DELETE'')"
    "1 \<le> length LIBRARY_DELETE_PAGE_ROUTE" "int (length LIBRARY_DELETE_PAGE_ROUTE) \<le> 2048"
    "take 8 LIBRARY_DELETE_PAGE_ROUTE = lit ''/api/v1/''" "123 \<in> set LIBRARY_DELETE_PAGE_ROUTE"
    "125 \<in> set LIBRARY_DELETE_PAGE_ROUTE" "printable LIBRARY_DELETE_PAGE_ROUTE"
    "row_timestamp (lit ''1970-01-01T00:00:00.000060Z'')"
    by code_simp+
  have "record_check deleted_record" using deleted_response_valid l
    by (simp add: record_check_def deleted_record_def response_valid_def sample_scope_def delete_request_def Let_def)
      (simp add: deleted_response_def)
  moreover have "list_ex (\<lambda>c. ca_id c = auth_id 2 \<and> ca_library_id c = auth_id 1) (a_callers auth_db5)"
    "auth_id 1 \<in> set (a_libraries auth_db5)" by code_simp+
  moreover have "get_record [new_record] sample_scope delete_request = Inr None"
    by (simp add: get_record_def matches_record_def new_record_def delete_request_def create_request_def)
  ultimately show ?thesis using v
    by (simp add: record_success_def Let_def add_record_def deleted_record_def sample_scope_def record_key_def
        new_record_def create_request_def delete_request_def)
qed

lemma later_codec: "same_codec sample_env later_env" "same_codec sample_env sample_env"
  by (simp_all add: same_codec_def)

lemma caller_schema: "sv_schema sample_env \<in> set CALLER_MOVE_REVISIONS" "sv_schema sample_env \<in> set LIBRARY_LIFECYCLE_REVISIONS"
  by code_simp+

lemma sample_readable: "receipts_readable sample_env" "receipts_readable later_env"
  by (rule json_receipts_readable; simp)+

lemma deleted_receipt: "\<exists>b. validate_library_lifecycle_receipt later_env sample_app6 deleted_record = Inr b"
proof -
  obtain tr where s: "library_sound sample_env sample_app5 tr"
    by (rule library_reachable_sound [OF sample_app_reachable sample_readable(1) caller_schema(1)])
  have h: "reachable sample_sha content4 tr" "auth_ok sample_sha auth_db5" "service_rows sample_sha content4"
    using s by (simp_all add: library_sound_def sample_app5_def)
  note tg = lifecycle_target_Inr [OF delete_target]
  obtain tr' where "audits_tied content6"
    by (rule write_transition_kept [OF s caller_schema(1), of later_env 60 delete_command sample_caller new_page auth_db5
          content6 deleted_response]) (use deleted_written tg(1) in \<open>simp_all add: sample_app5_def\<close>)
  then have "\<exists>b. lifecycle_receipt_body later_env sample_app6 deleted_record = Inr b"
    unfolding deleted_record_def
    by (intro fresh_lifecycle_receipt [OF deleted_written delete_requested tg, of tr])
      (use h reachable_store_ok [OF h(1) caller_schema(1)] reachable_unique [OF h(1)] caller_schema sample_readable
        delete_command_valid in \<open>simp_all add: sample_app6_def service_rows_def\<close>)
  then show ?thesis by (auto simp: validate_library_lifecycle_receipt_def)
qed

lemma deletion_answered:
  "transition later_env ascii_unicode sample_token delete_command [1] sample_app5 = Inr (sample_app6, deleted_response)"
proof -
  obtain b where "validate_library_lifecycle_receipt later_env sample_app6 deleted_record = Inr b"
    using deleted_receipt by blast
  then have "record_receipt (validate_library_lifecycle_receipt later_env) sample_scope delete_request deleted_response
      (sample_app5\<lparr>ap_content := content6, ap_auth := auth_db5\<rparr>) = Inr (sample_app6, deleted_response)"
    by (simp add: record_receipt_def sample_app5_def deleted_recorded sample_app6_def)
  moreover have "pc_library_id delete_command = auth_id 1" by (simp add: delete_command_def)
  moreover have "ap_auth sample_app5 = auth_db5" "ap_content sample_app5 = content4" "ap_records sample_app5 = [new_record]"
    by (simp_all add: sample_app5_def)
  ultimately show ?thesis using caller_schema(2)
    by (simp add: transition_def delete_time delete_authorized delete_requested delete_unrecorded delete_target deleted_written
        del: One_nat_def)
qed

section \<open>Examples\<close>

definition sample_move :: page_move_command where
  "sample_move = \<lparr>vm_source_section_id = auth_id 3, vm_source_book_id = auth_id 5, vm_target_section_id = auth_id 6,
     vm_target_book_id = auth_id 7, vm_library_id = auth_id 1, vm_page_id = lit ''19700101t000000000z-notes'',
     vm_expected_etag = new_etag, vm_request_id = cm_request_id sample_command\<rparr>"

lemma sample_move_valid: "page_move_command_valid sample_move"
  by code_simp

lemma receipts_never_corrupt_witness:
  "transition later_env ascii_unicode sample_token delete_command [1] sample_app5 \<noteq> Inl LifecycleReplayCorrupt
   \<and> move_page later_env sample_token sample_move [1] sample_app5 \<noteq> Inl MoveReplayCorrupt"
  by (rule receipts_never_corrupt [OF sample_app_reachable sample_readable(1) caller_schema(1) later_codec(1)
        delete_command_valid sample_move_valid])

lemma transition_repeated_witness:
  "transition later_env ascii_unicode sample_token (delete_command\<lparr>pc_request_id := lit ''req_'' @ sample_id\<rparr>) [1] sample_app6
   = Inr (sample_app6\<lparr>ap_auth := auth_db5\<rparr>, deleted_response)"
proof -
  have "authorize_page_move (sv_sha sample_env) True 60 sample_token (pc_library_id delete_command) (ap_auth sample_app5)
      = Inr (auth_db5, sample_caller)"
    "authorize_page_move (sv_sha sample_env) True 60 sample_token (pc_library_id delete_command) (ap_auth sample_app6)
      = Inr (auth_db5, sample_caller)"
    using delete_authorized by (simp_all add: sample_app5_def sample_app6_def delete_command_def del: One_nat_def)
  moreover have "library_steps sample_env sample_app6 sample_app6" by (simp add: library_steps_def)
  ultimately show ?thesis
    by (intro transition_repeated [OF sample_app_reachable sample_readable(1) caller_schema(1) later_codec(1)
          delete_command_valid deletion_answered delete_time]) (simp_all add: later_codec delete_time)
qed

end
