(* ===== verification/Spec2Isabelle.thy ===== *)
theory Spec2Isabelle
  imports AuthTheorems RequestFingerprints FileSetTheorems SearchTheorems OperatorBackups ContentBackups
    PageEtags EtagLookup MasterTheorems CallerSamples
begin

text \<open>
  Patchouli Library: verification of the content core.

  The program under \<open>src/src/patchouli_lib\<close> is a self-hosted library for people and software agents. A
  Library holds Sections, Books and Pages; a Page has a stable public identifier and an append-only
  chain of Revisions, each of them a complete set of files or one Markdown text. Agents write through
  an HTTP interface with bearer tokens, under grants and policies; every answered write leaves a replay
  record, so that a repeated request is answered and not executed again. The store is SQLite, and a
  good part of the rules is in the triggers of its migrations. An administrator works through a session
  of its own, an operator through a local command line, and a backup is accepted only after an
  independent validation of the restored tables.

  \<^bold>\<open>How the parts correspond to the code\<close>

  \<^item> \<open>PatchouliPrelude\<close>, \<open>Utf8\<close>, \<open>UnicodeText\<close>, \<open>Calendar\<close>, \<open>Json\<close>: what the program uses of Python and its
    library. A \<open>str\<close> is a list of code points, \<open>bytes\<close> a list of 8-bit words, an \<open>int\<close> an \<open>int\<close>; an
    exception is the left side of a sum. The Unicode tables are a parameter (\<open>unicode_data\<close>), SHA-256 is
    a parameter everywhere. \<open>KeyedTable\<close> is the interface of a table with a unique key, interpreted for the
    credentials (\<open>AuthTheorems\<close>) and for the replay records (\<open>IdempotencyTheorems\<close>).
  \<^item> \<open>PageIds\<close>, \<open>PageIdGrammar\<close>, \<open>RevisionIds\<close>: \<open>identifiers/\<close>. Occurrence times, page identifiers with their
    slug loop, collision ordinals and grammar, random identifiers.
  \<^item> \<open>Tokens\<close>, \<open>AuthStore\<close>, \<open>AuthTheorems\<close>: \<open>auth/\<close>. Tokens and verifiers, the tables of callers, credentials,
    token values, policies and grants with their triggers, authentication and authorization. \<open>auth_step\<close> is
    one operation on these tables.
  \<^item> \<open>PageStore\<close>, \<open>PageTriggers\<close>, \<open>PageRepository\<close>: \<open>content/models.py\<close>, the migrations, \<open>content/repository.py\<close>,
    \<open>content/page_move_core.py\<close>. \<open>content_db\<close> has one list of rows per table; an insert or update runs its
    \<open>BEFORE\<close> triggers, the column checks and the keys, and then the \<open>AFTER\<close> triggers, in the form they have
    at the newest schema (\<open>20261020_0037\<close>). A trigger that later migrations replaced has the text of the last
    one: the one on guards of the administrator is that of \<open>0025\<close>, which admits deletions as well.
  \<^item> \<open>PageHistory\<close>, \<open>PageEtags\<close>, \<open>EtagLookup\<close>: \<open>content/page_membership_history.py\<close> and the entity tags of
    \<open>content/service.py\<close>. The loader merges Revisions and the event rows of corrections, deletions, titles
    and moves into the states the page went through.
  \<^item> \<open>PageMutations\<close>, \<open>HistoryInvariant\<close>, \<open>StoreSteps\<close>, \<open>ReachableStore\<close>, \<open>StorePersistence\<close>, \<open>TimelineTheorems\<close>: the
    abstract view of the content store. \<open>reachable sha db tr\<close> says that \<open>db\<close> arises from the empty tables by
    statements and page transactions (\<open>store_step\<close>), with \<open>tr\<close> the states each page went through; the
    actor of a transaction is free, a caller or the administrator. \<open>store_ok\<close> is the invariant: the
    loader returns exactly the trace.
  \<^item> \<open>FileManifest\<close>, \<open>FileManifestTheorems\<close>, \<open>FileSets\<close>, \<open>Presentation\<close>, \<open>FileSetService\<close>, \<open>FileSetSteps\<close>,
    \<open>FileSetTheorems\<close>: \<open>content/file_manifest.py\<close>, \<open>content/presentation.py\<close>, \<open>content/file_set_service.py\<close>,
    \<open>content/file_set_create_core.py\<close>. Uploads, manifests and snapshots, their storage and reading back.
  \<^item> \<open>ApiPaths\<close>, \<open>Idempotency\<close>, \<open>IdempotencyTheorems\<close>, \<open>RequestFingerprints\<close>: \<open>api/contracts.py\<close>, \<open>idempotency/\<close>.
    Replay records; they have no expiry.
  \<^item> \<open>ArchiveBodies\<close>, \<open>ArchiveService\<close>, \<open>ArchiveSteps\<close>, \<open>ArchiveTheorems\<close>, \<open>ReplayTheorems\<close>: \<open>content/schemas.py\<close>,
    \<open>content/service.py\<close>. \<open>app_db\<close> is the whole store: content, callers, replay records. \<open>service_env\<close>
    holds what a request takes from outside: digest, clock, random draws, schema, JSON codec.
    \<open>service_step\<close> is one answered request of the archive service.
  \<^item> \<open>CallerLifecycle\<close>, \<open>CallerMoves\<close>, \<open>ReceiptRows\<close>, \<open>CallerReceipts\<close>, \<open>CallerRequests\<close>, \<open>CallerStores\<close>,
    \<open>CallerMoveStores\<close>, \<open>CallerTheorems\<close>: \<open>content/page_lifecycle_*.py\<close>, \<open>content/page_move_*.py\<close>. Deletions,
    restorations and moves by callers with write permission for a Library, and their receipts. \<open>library_step\<close>
    joins the requests of every modelled kind on one store.
  \<^item> \<open>MasterPages\<close>, \<open>MasterTheorems\<close>: the page requests of \<open>admin/service.py\<close>, with \<open>admin/session.py\<close>,
    \<open>admin/master_audit.py\<close>, \<open>admin/master_token_store.py\<close> as far as they take part.
  \<^item> \<open>OperatorService\<close>, \<open>OperatorTheorems\<close>, \<open>OperatorBackups\<close>: \<open>operator/service.py\<close>. \<open>BackupAuth\<close>, \<open>BackupPages\<close>,
    \<open>BackupHistory\<close>, \<open>BackupStore\<close>, \<open>ArchiveBackups\<close>, \<open>ContentBackups\<close>: \<open>backup/validation.py\<close> and what it accepts.
  \<^item> \<open>SearchLiteral\<close>, \<open>SearchTheorems\<close>: \<open>search/literal_v2.py\<close>.
  \<^item> \<open>ArchiveSamples\<close>, \<open>FileSetSamples\<close>, \<open>CallerSamples\<close>: concrete stores and requests, evaluated step by step,
    on which the theorems with hypotheses are applied.

  \<^bold>\<open>What the theorems show\<close>

  \<^item> History. On every reachable store the reconstruction of a page succeeds and returns exactly what
    happened, in strictly increasing time and ending in the row; no update is lost; a tag that a client
    holds is found again; the reader of the backup sees the same chains.
  \<^item> Refinement. Every answered request of the archive service, every append or creation of a snapshot, every
    page request of a caller and of the administrator is a run of \<open>store_step\<close>, \<open>auth_step\<close> and recordings, so
    that all of the above holds of the stores they reach. A deletion or restoration by the administrator
    is shown to be carried out, not only to be safe when it is.
  \<^item> Replay. A creation, a deletion or a restoration that is repeated gets its recorded answer; a receipt of a
    caller is never found corrupt, however the store was changed since; fingerprints identify requests.
  \<^item> Identifiers, tokens, snapshots, search: totality, grammar, round trips, injectivity up to a digest
    collision on inputs that the statement names, independence of order, exactness of the search core.
  \<^item> Credentials. A retired credential never authenticates again, an issued one does until its expiry, a
    recovery locks the operator's earlier credentials out for good, authorization in terms of the stored rows.
  \<^item> Backups. What the services write is accepted by the validation, except for one disagreement that is
    proved: a bootstrap with initial Section grants leaves a database that the validation refuses.

  \<^bold>\<open>Bounds, loops and parameters\<close>

  Most loops are structural recursion. The draws of an identifier are tried \<open>sv_attempts\<close> times, as the
  code has it, and running out is an error of the model as of the code. The JSON reader takes fuel: twice
  the length of the text and two, which \<open>json_loads_text\<close> shows to be enough for every text that is written.
  The walk along credential rotations is a \<open>partial_function\<close>; that it returns on every table is part of
  \<open>require_rotations_decides\<close>. Columns of 64 bits are integers with their check (\<open>MAX_I64\<close>) written out.
  Theorems about digests never assume injectivity; they exclude a collision (\<open>collides\<close>) on inputs they
  name. That JSON bodies read back as they were written is a named hypothesis on the codec (\<open>bodies_read_back\<close>,
  \<open>receipts_readable\<close>), shown to hold of the compact JSON text in \<open>ArchiveSamples\<close> and \<open>CallerSamples\<close>.
  A failed request leaves the store as it was: the code runs it in a transaction or savepoint, so an error of
  the model carries no store.

  \<^bold>\<open>What is not modelled\<close>

  HTTP routes, multipart parsing and error documents; listings, cursors and previews; the administration
  beyond single pages (structure, agents, credentials, grants, tags, skills, file sets and moves with the
  receipts of the administrator); the file-set requests of callers with their authorization and receipts -
  their cores \<open>append_existing_page\<close> and \<open>create_page\<close> are modelled, but these requests are not steps of
  \<open>library_step\<close>; Libraries, Sections and guides beyond their identifiers; the FTS5 index; the backup archive
  as files, its checks of audit rows, tags, receipts and older schemas; request log, onboarding texts, command
  lines, clients and web interface. They are input and output, code outside \<open>src/\<close>, or wait for a later
  extension along the same lines: first the file-set requests of callers as further steps of \<open>library_step\<close>,
  then the receipts of the administrator, then the whole-table checks of receipts in the backup.
\<close>

end
